(* ===== verification/Prelude.thy ===== *)
theory Prelude
  imports Main "HOL-Library.AList" "HOL-Library.Char_ord" "HOL-Library.List_Lexorder"
begin

text \<open>
  Shared vocabulary of the development: the result type for code that raises, the list of
  results of a loop that may raise, Python dictionaries as association lists that keep
  insertion order, and Python text over the first 256 code points (one \<open>char\<close> per code
  point, so \<open>str.isdigit\<close>, \<open>str.split\<close>, \<open>str.strip\<close>, \<open>str.lower\<close> and the ordering
  of \<open>sorted\<close> are modelled as Python has them on that range).
\<close>

named_theorems dict_simps "equations for dictionaries kept as association lists"
named_theorems text_simps "equations for text functions"

section \<open>Results of code that may raise\<close>

fun rbind :: "'e + 'a \<Rightarrow> ('a \<Rightarrow> 'e + 'b) \<Rightarrow> 'e + 'b" where
  "rbind (Inl e) f = Inl e"
| "rbind (Inr x) f = f x"

lemma rbind_Inr_iff: "rbind r f = Inr y \<longleftrightarrow> (\<exists>x. r = Inr x \<and> f x = Inr y)"
  by (cases r) auto

lemma rbind_Inl_iff: "rbind r f = Inl e \<longleftrightarrow> r = Inl e \<or> (\<exists>x. r = Inr x \<and> f x = Inl e)"
  by (cases r) auto

fun mapM_r :: "('a \<Rightarrow> 'e + 'b) \<Rightarrow> 'a list \<Rightarrow> 'e + 'b list" where
  "mapM_r f [] = Inr []"
| "mapM_r f (x # xs) =
     (case f x of Inl e \<Rightarrow> Inl e
      | Inr y \<Rightarrow> (case mapM_r f xs of Inl e \<Rightarrow> Inl e | Inr ys \<Rightarrow> Inr (y # ys)))"

text \<open>A loop over \<open>enumerate(xs)\<close> that may raise: the first argument is the next index.\<close>

fun mapiM_r :: "nat \<Rightarrow> (nat \<Rightarrow> 'a \<Rightarrow> 'e + 'b) \<Rightarrow> 'a list \<Rightarrow> 'e + 'b list" where
  "mapiM_r i f [] = Inr []"
| "mapiM_r i f (x # xs) =
     (case f i x of Inl e \<Rightarrow> Inl e
      | Inr y \<Rightarrow> (case mapiM_r (Suc i) f xs of Inl e \<Rightarrow> Inl e | Inr ys \<Rightarrow> Inr (y # ys)))"

lemma mapM_r_Inr_iff:
  "mapM_r f xs = Inr ys \<longleftrightarrow> list_all2 (\<lambda>x y. f x = Inr y) xs ys"
proof (induction xs arbitrary: ys)
  case (Cons x xs)
  show ?case
  proof (cases "mapM_r f xs")
    case (Inl e)
    then have "\<not> list_all2 (\<lambda>x y. f x = Inr y) xs zs" for zs using Cons.IH[of zs] by simp
    then show ?thesis using Inl by (auto simp: list_all2_Cons1 split: sum.splits)
  next
    case (Inr zs)
    then have "list_all2 (\<lambda>x y. f x = Inr y) xs zs' \<longleftrightarrow> zs' = zs" for zs'
      using Cons.IH[of zs'] by auto
    then show ?thesis using Inr by (auto simp: list_all2_Cons1 split: sum.splits)
  qed
qed auto

lemma mapiM_r_length: "mapiM_r i f xs = Inr ys \<Longrightarrow> length ys = length xs"
  by (induction xs arbitrary: i ys) (auto split: sum.splits)

lemma mapiM_r_nth:
  "mapiM_r i f xs = Inr ys \<Longrightarrow> k < length xs \<Longrightarrow> f (i + k) (xs ! k) = Inr (ys ! k)"
proof (induction xs arbitrary: i ys k)
  case (Cons x xs)
  then show ?case by (cases k) (fastforce split: sum.splits)+
qed simp

lemma mapiM_r_intro:
  "length ys = length xs \<Longrightarrow> (\<And>k. k < length xs \<Longrightarrow> f (i + k) (xs ! k) = Inr (ys ! k)) \<Longrightarrow>
    mapiM_r i f xs = Inr ys"
proof (induction xs arbitrary: i ys)
  case (Cons x xs)
  obtain z zs where ys: "ys = z # zs" using Cons.prems(1) by (cases ys) auto
  have "f i x = Inr z" using Cons.prems(2)[of 0] ys by simp
  moreover have "mapiM_r (Suc i) f xs = Inr zs"
  proof (rule Cons.IH)
    show "length zs = length xs" using Cons.prems(1) ys by simp
    show "f (Suc i + k) (xs ! k) = Inr (zs ! k)" if "k < length xs" for k
      using Cons.prems(2)[of "Suc k"] ys that by simp
  qed
  ultimately show ?case using ys by simp
qed simp

lemma mapiM_r_all:
  "(\<And>i x y. x \<in> set xs \<Longrightarrow> f i x = Inr y \<Longrightarrow> P y) \<Longrightarrow> mapiM_r i f xs = Inr ys \<Longrightarrow> y \<in> set ys \<Longrightarrow> P y"
proof (induction xs arbitrary: i ys)
  case (Cons x xs)
  from Cons.prems(2) obtain z zs where z: "f i x = Inr z" "mapiM_r (Suc i) f xs = Inr zs" "ys = z # zs"
    by (auto split: sum.splits)
  show ?case
  proof (cases "y = z")
    case True
    then show ?thesis using Cons.prems(1)[of x i z] z by simp
  next
    case False
    then show ?thesis using Cons.IH[OF _ z(2)] Cons.prems(1,3) z(3) by auto
  qed
qed simp

lemma mapiM_r_id:
  "(\<And>i x. x \<in> set xs \<Longrightarrow> f i x = Inr x) \<Longrightarrow> mapiM_r i f xs = Inr xs"
  by (induction xs arbitrary: i) auto

definition is_Inr :: "'e + 'a \<Rightarrow> bool" where
  "is_Inr r = (case r of Inl _ \<Rightarrow> False | Inr _ \<Rightarrow> True)"

lemma is_Inr_simps [simp]: "is_Inr (Inr x)" "\<not> is_Inr (Inl e)"
  by (simp_all add: is_Inr_def)

section \<open>Dictionaries\<close>

text \<open>
  A \<open>dict\<close> is an association list with distinct keys in insertion order:
  \<open>d[k]\<close> is \<open>map_of d k\<close>, \<open>d[k] = v\<close> is \<open>dict_set\<close> (in place when the key is there, at the
  end otherwise) and \<open>d.pop(k, None)\<close> is \<open>dict_del\<close>.
\<close>

type_synonym ('k, 'v) dict = "('k \<times> 'v) list"

abbreviation dict_get :: "('k, 'v) dict \<Rightarrow> 'k \<Rightarrow> 'v option" where
  "dict_get d k \<equiv> map_of d k"

abbreviation dict_keys :: "('k, 'v) dict \<Rightarrow> 'k list" where
  "dict_keys d \<equiv> map fst d"

abbreviation dict_ok :: "('k, 'v) dict \<Rightarrow> bool" where
  "dict_ok d \<equiv> distinct (map fst d)"

abbreviation dict_set :: "'k \<Rightarrow> 'v \<Rightarrow> ('k, 'v) dict \<Rightarrow> ('k, 'v) dict" where
  "dict_set \<equiv> AList.update"

abbreviation dict_del :: "'k \<Rightarrow> ('k, 'v) dict \<Rightarrow> ('k, 'v) dict" where
  "dict_del \<equiv> AList.delete"

definition dict_has :: "('k, 'v) dict \<Rightarrow> 'k \<Rightarrow> bool" where
  "dict_has d k = (map_of d k \<noteq> None)"

definition dict_get_or :: "('k, 'v) dict \<Rightarrow> 'k \<Rightarrow> 'v \<Rightarrow> 'v" where
  "dict_get_or d k v = (case map_of d k of None \<Rightarrow> v | Some x \<Rightarrow> x)"

lemma dict_set_get [dict_simps]: "map_of (dict_set k v d) = (map_of d)(k \<mapsto> v)"
  by (rule update_conv')

lemma dict_del_get [dict_simps]: "map_of (dict_del k d) = (map_of d)(k := None)"
  by (rule delete_conv')

lemma dict_set_ok [intro, simp]: "dict_ok d \<Longrightarrow> dict_ok (dict_set k v d)"
  by (rule distinct_update)

lemma dict_del_ok [intro, simp]: "dict_ok d \<Longrightarrow> dict_ok (dict_del k d)"
  by (rule distinct_delete)

lemma dict_set_keys [dict_simps]: "set (dict_keys (dict_set k v d)) = insert k (set (dict_keys d))"
  using dom_update[of k v d] by auto

lemma dict_has_iff: "dict_has d k \<longleftrightarrow> k \<in> set (dict_keys d)"
proof -
  have "map_of d k = None \<longleftrightarrow> k \<notin> fst ` set d" by (rule map_of_eq_None_iff)
  then show ?thesis by (simp add: dict_has_def)
qed

lemma dict_has_simps [dict_simps]:
  "dict_has (dict_set k v d) j \<longleftrightarrow> j = k \<or> dict_has d j"
  "dict_has (dict_del k d) j \<longleftrightarrow> j \<noteq> k \<and> dict_has d j"
  by (auto simp: dict_has_def dict_simps)

text \<open>\<open>d.update(e)\<close>: the pairs of \<open>e\<close> are stored one after the other.\<close>

definition dict_merge :: "('k, 'v) dict \<Rightarrow> ('k, 'v) dict \<Rightarrow> ('k, 'v) dict" where
  "dict_merge d e = fold (\<lambda>(k, v). dict_set k v) e d"

lemma dict_merge_get:
  assumes "dict_ok e"
  shows "map_of (dict_merge d e) k = (case map_of e k of None \<Rightarrow> map_of d k | Some v \<Rightarrow> Some v)"
  using assms unfolding dict_merge_def
proof (induction e arbitrary: d)
  case (Cons p e)
  obtain j v where p: "p = (j, v)" by force
  have "map_of e j = None" using Cons.prems p by (auto simp: map_of_eq_None_iff)
  then show ?case using Cons.IH[of "dict_set j v d"] Cons.prems p
    by (auto simp: dict_simps split: option.splits)
qed simp

lemma dict_merge_ok [intro]: "dict_ok d \<Longrightarrow> dict_ok (dict_merge d e)"
  unfolding dict_merge_def by (induction e arbitrary: d) auto

section \<open>Sorted iteration\<close>

text \<open>
  \<open>sorted(s)\<close> of a Python set: strings compare by code point, a proper prefix first, which is
  the order of \<^theory_text>\<open>List_Lexorder\<close> on characters.
\<close>

abbreviation sorted_set :: "string set \<Rightarrow> string list" where
  "sorted_set \<equiv> sorted_list_of_set"

lemma sorted_set_mem [simp]: "finite A \<Longrightarrow> set (sorted_set A) = A"
  by simp

section \<open>Text\<close>

definition code :: "char \<Rightarrow> nat" where "code c = of_char c"

lemma code_less [text_simps, simp]: "code c < 256"
  unfolding code_def by simp

lemma code_inj [text_simps]: "code c = code d \<longleftrightarrow> c = d"
  unfolding code_def by simp

text \<open>\<open>str(n)\<close> for \<open>n \<ge> 0\<close>, and \<open>int(s)\<close> on a string of decimal digits.\<close>

definition digit_char :: "nat \<Rightarrow> char" where "digit_char n = char_of (48 + n)"

fun nat_str :: "nat \<Rightarrow> string" where
  "nat_str n = (if n < 10 then [digit_char n] else nat_str (n div 10) @ [digit_char (n mod 10)])"

declare nat_str.simps [simp del]

definition is_decimal :: "char \<Rightarrow> bool" where
  "is_decimal c = (48 \<le> code c \<and> code c \<le> 57)"

definition nat_of_digits :: "string \<Rightarrow> nat" where
  "nat_of_digits s = foldl (\<lambda>a c. 10 * a + (code c - 48)) 0 s"

lemma code_digit_char [text_simps]: "n < 10 \<Longrightarrow> code (digit_char n) = 48 + n"
  by (simp add: code_def digit_char_def)

lemma nat_str_decimal [text_simps]: "\<forall>c \<in> set (nat_str n). is_decimal c"
proof (induction n rule: nat_str.induct)
  case (1 n)
  then show ?case
    by (cases "n < 10") (auto simp: nat_str.simps[of n] is_decimal_def text_simps)
qed

lemma nat_str_nonempty [text_simps, simp]: "nat_str n \<noteq> []" "[] \<noteq> nat_str n"
  by (subst nat_str.simps, simp)+

lemma nat_of_digits_str [text_simps]: "nat_of_digits (nat_str n) = n"
proof (induction n rule: nat_str.induct)
  case (1 n)
  then show ?case
    by (cases "n < 10") (simp_all add: nat_str.simps[of n] nat_of_digits_def text_simps)
qed

lemma nat_str_inject [simp]: "nat_str m = nat_str n \<longleftrightarrow> m = n"
  by (metis nat_of_digits_str)

definition int_str :: "int \<Rightarrow> string" where
  "int_str i = (if i < 0 then CHR ''-'' # nat_str (nat (- i)) else nat_str (nat i))"

text \<open>\<open>str.isspace\<close> and \<open>str.isdigit\<close> of one character; the superscripts are digits for
  \<open>isdigit\<close> but not for \<open>int\<close>.\<close>

definition is_space :: "char \<Rightarrow> bool" where
  "is_space c = (9 \<le> code c \<and> code c \<le> 13 \<or> 28 \<le> code c \<and> code c \<le> 32 \<or> code c = 133 \<or> code c = 160)"

definition is_digit_char :: "char \<Rightarrow> bool" where
  "is_digit_char c = (is_decimal c \<or> code c = 178 \<or> code c = 179 \<or> code c = 185)"

definition str_isdigit :: "string \<Rightarrow> bool" where
  "str_isdigit s = (s \<noteq> [] \<and> list_all is_digit_char s)"

definition str_lstrip :: "string \<Rightarrow> string" where "str_lstrip s = dropWhile is_space s"

definition str_strip :: "string \<Rightarrow> string" where
  "str_strip s = rev (dropWhile is_space (rev (dropWhile is_space s)))"

text \<open>\<open>s.lower()\<close> on the first 256 code points.\<close>

definition char_lower :: "char \<Rightarrow> char" where
  "char_lower c = (if 65 \<le> code c \<and> code c \<le> 90 \<or> 192 \<le> code c \<and> code c \<le> 222 \<and> code c \<noteq> 215
                   then char_of (code c + 32) else c)"

definition str_lower :: "string \<Rightarrow> string" where "str_lower s = map char_lower s"

text \<open>\<open>s.split()\<close>: the maximal runs of non-space characters. The first argument is the run
  being read.\<close>

fun split_ws_acc :: "string \<Rightarrow> string \<Rightarrow> string list" where
  "split_ws_acc acc [] = (if acc = [] then [] else [acc])"
| "split_ws_acc acc (c # cs) =
     (if is_space c then (if acc = [] then split_ws_acc [] cs else acc # split_ws_acc [] cs)
      else split_ws_acc (acc @ [c]) cs)"

definition str_split_ws :: "string \<Rightarrow> string list" where "str_split_ws s = split_ws_acc [] s"

text \<open>\<open>s.split(c)\<close> and \<open>s.partition(c)\<close> on a one-character separator.\<close>

fun split_on_acc :: "char \<Rightarrow> string \<Rightarrow> string \<Rightarrow> string list" where
  "split_on_acc d acc [] = [acc]"
| "split_on_acc d acc (c # cs) =
     (if c = d then acc # split_on_acc d [] cs else split_on_acc d (acc @ [c]) cs)"

definition str_split_on :: "char \<Rightarrow> string \<Rightarrow> string list" where
  "str_split_on d s = split_on_acc d [] s"

fun str_partition :: "char \<Rightarrow> string \<Rightarrow> string \<times> bool \<times> string" where
  "str_partition d [] = ([], False, [])"
| "str_partition d (c # cs) =
     (if c = d then ([], True, cs)
      else (case str_partition d cs of (a, b, r) \<Rightarrow> (c # a, b, r)))"

fun str_join :: "string \<Rightarrow> string list \<Rightarrow> string" where
  "str_join sep [] = []"
| "str_join sep [x] = x"
| "str_join sep (x # y # ys) = x @ sep @ str_join sep (y # ys)"

lemma str_join_mem: "c \<in> set (str_join sep xs) \<Longrightarrow> c \<in> set sep \<or> (\<exists>x \<in> set xs. c \<in> set x)"
  by (induction sep xs rule: str_join.induct) auto

lemma str_join_nonempty: "xs \<noteq> [] \<Longrightarrow> [] \<notin> set xs \<Longrightarrow> str_join sep xs \<noteq> []"
  by (induction sep xs rule: str_join.induct) auto

lemma split_on_acc_no_sep: "d \<notin> set xs \<Longrightarrow> split_on_acc d acc xs = [acc @ xs]"
  by (induction xs arbitrary: acc) auto

lemma split_on_acc_sep:
  "d \<notin> set xs \<Longrightarrow> split_on_acc d acc (xs @ d # ys) = (acc @ xs) # split_on_acc d [] ys"
  by (induction xs arbitrary: acc) auto

lemma str_split_on_join:
  assumes "xs \<noteq> []" and "\<forall>x \<in> set xs. d \<notin> set x"
  shows "str_split_on d (str_join [d] xs) = xs"
  using assms unfolding str_split_on_def
proof (induction "[d]" xs rule: str_join.induct)
  case (2 x)
  then show ?case by (simp add: split_on_acc_no_sep)
next
  case (3 x y ys)
  then show ?case by (simp add: split_on_acc_sep)
qed simp

lemma split_ws_acc_word: "\<forall>c \<in> set xs. \<not> is_space c \<Longrightarrow> split_ws_acc acc xs = split_ws_acc (acc @ xs) []"
  by (induction xs arbitrary: acc) auto

lemma split_ws_acc_sep:
  "\<forall>c \<in> set xs. \<not> is_space c \<Longrightarrow> acc @ xs \<noteq> [] \<Longrightarrow> is_space d \<Longrightarrow>
    split_ws_acc acc (xs @ d # ys) = (acc @ xs) # split_ws_acc [] ys"
  by (induction xs arbitrary: acc) auto

lemma str_split_ws_join:
  assumes "\<forall>x \<in> set xs. x \<noteq> [] \<and> (\<forall>c \<in> set x. \<not> is_space c)" and "is_space d"
  shows "str_split_ws (str_join [d] xs) = xs"
  using assms unfolding str_split_ws_def
proof (induction "[d]" xs rule: str_join.induct)
  case (2 x)
  then show ?case using split_ws_acc_word[of x "[]"] by simp
next
  case (3 x y ys)
  then show ?case using split_ws_acc_sep[of x "[]" d] by simp
qed simp

lemma str_partition_None: "d \<notin> set xs \<Longrightarrow> str_partition d xs = (xs, False, [])"
  by (induction xs) auto

lemma str_strip_id: "(\<forall>c \<in> set s. \<not> is_space c) \<Longrightarrow> str_strip s = s"
proof -
  assume h: "\<forall>c \<in> set s. \<not> is_space c"
  have id: "dropWhile is_space xs = xs" if "\<forall>c \<in> set xs. \<not> is_space c" for xs
    using that by (cases xs) auto
  show ?thesis unfolding str_strip_def using h by (simp add: id)
qed

text \<open>A name in single quotes, as the messages print one.\<close>

definition sq :: "string \<Rightarrow> string" where "sq s = CHR 0x27 # s @ [CHR 0x27]"

text \<open>\<open>sub in s\<close> and \<open>s.replace(old, new)\<close> (left to right, no overlap; \<open>old\<close> not empty).\<close>

fun str_prefix :: "string \<Rightarrow> string \<Rightarrow> bool" where
  "str_prefix [] s = True"
| "str_prefix (c # cs) [] = False"
| "str_prefix (c # cs) (d # ds) = (c = d \<and> str_prefix cs ds)"

fun str_contains :: "string \<Rightarrow> string \<Rightarrow> bool" where
  "str_contains sub [] = (sub = [])"
| "str_contains sub (c # cs) = (str_prefix sub (c # cs) \<or> str_contains sub cs)"

function str_replace :: "string \<Rightarrow> string \<Rightarrow> string \<Rightarrow> string" where
  "str_replace old new s =
     (if old = [] then s else
      case s of [] \<Rightarrow> []
      | c # cs \<Rightarrow> if str_prefix old s then new @ str_replace old new (drop (length old) s)
                 else c # str_replace old new cs)"
  by pat_completeness auto
termination
  by (relation "measure (\<lambda>(old, new, s). length s)") auto

declare str_replace.simps [simp del]

lemma str_prefix_iff: "str_prefix p s \<longleftrightarrow> (\<exists>r. s = p @ r)"
  by (induction p s rule: str_prefix.induct) auto

lemma str_contains_iff: "str_contains p s \<longleftrightarrow> (\<exists>u v. s = u @ p @ v)"
proof (induction s)
  case (Cons c cs)
  have "(\<exists>u v. c # cs = u @ p @ v) \<longleftrightarrow> (\<exists>v. c # cs = p @ v) \<or> (\<exists>u v. cs = u @ p @ v)"
    (is "?L \<longleftrightarrow> ?R")
  proof
    assume ?L
    then obtain u v where "c # cs = u @ p @ v" by blast
    then show ?R by (cases u) auto
  next
    assume ?R
    then show ?L by (metis append_Cons append_Nil)
  qed
  then show ?case using Cons.IH by (simp add: str_prefix_iff)
qed auto

end
