(* ===== verification/Json.thy ===== *)
theory Json
  imports Complex_Main Prelude
begin

text \<open>
  The Python values the program passes around as \<open>Any\<close>: what \<open>json.loads\<close> builds. An
  object is a dictionary in insertion order. A float is kept as an exact rational; no
  definition of the development rounds.
\<close>

datatype json =
    JNull
  | JBool bool
  | JInt int
  | JFloat rat
  | JStr string
  | JList "json list"
  | JObj "(string \<times> json) list"

text \<open>\<open>type(v).__name__\<close>, as the error messages print it.\<close>

fun type_name :: "json \<Rightarrow> string" where
  "type_name JNull = ''NoneType''"
| "type_name (JBool _) = ''bool''"
| "type_name (JInt _) = ''int''"
| "type_name (JFloat _) = ''float''"
| "type_name (JStr _) = ''str''"
| "type_name (JList _) = ''list''"
| "type_name (JObj _) = ''dict''"

text \<open>Truth of a value in a condition.\<close>

fun truthy :: "json \<Rightarrow> bool" where
  "truthy JNull = False"
| "truthy (JBool b) = b"
| "truthy (JInt i) = (i \<noteq> 0)"
| "truthy (JFloat r) = (r \<noteq> 0)"
| "truthy (JStr s) = (s \<noteq> [])"
| "truthy (JList xs) = (xs \<noteq> [])"
| "truthy (JObj d) = (d \<noteq> [])"

text \<open>\<open>d.get(key)\<close>: absent keys read as \<open>None\<close>.\<close>

definition obj_get :: "(string \<times> json) list \<Rightarrow> string \<Rightarrow> json" where
  "obj_get d k = (case map_of d k of None \<Rightarrow> JNull | Some v \<Rightarrow> v)"

lemma obj_get_simps [dict_simps]:
  "obj_get [] k = JNull"
  "obj_get ((j, v) # d) k = (if k = j then v else obj_get d k)"
  by (simp_all add: obj_get_def)

text \<open>Every object of a value has distinct keys, as every \<open>dict\<close> has.\<close>

fun json_ok :: "json \<Rightarrow> bool" where
  "json_ok (JList xs) = (\<forall>x \<in> set xs. json_ok x)"
| "json_ok (JObj d) = (distinct (map fst d) \<and> (\<forall>p \<in> set d. json_ok (snd p)))"
| "json_ok _ = True"

fun the_str :: "json \<Rightarrow> string option" where
  "the_str (JStr s) = Some s"
| "the_str _ = None"

fun the_obj :: "json \<Rightarrow> (string \<times> json) list option" where
  "the_obj (JObj d) = Some d"
| "the_obj _ = None"

fun the_list :: "json \<Rightarrow> json list option" where
  "the_list (JList xs) = Some xs"
| "the_list _ = None"

lemma json_ok_get: "json_ok (JObj d) \<Longrightarrow> json_ok (obj_get d k)"
  by (auto simp: obj_get_def split: option.splits dest!: map_of_SomeD)

end
