(* ===== verification/Dag.thy ===== *)
theory Dag
  imports Json
begin

text \<open>
  The workflow graph of \<open>core/dag.py\<close>: nodes with their declared dependencies, the
  depth-first cycle search, Kahn's layering, the transitive dependents and the roots.
  A Python set is a HOL set; where the code iterates over one in an order Python leaves open,
  the model iterates in sorted order, and the theorems show that the result is a set, or is
  sorted afterwards.
\<close>

section \<open>Nodes and graphs\<close>

record dag_node =
  step_id :: string
  step_type :: string
  config :: "(string \<times> json) list"
  depends_on :: "string list"

record dag =
  nodes :: "(string, dag_node) dict"
  edges :: "(string \<times> string) list"

definition dag_ok :: "dag \<Rightarrow> bool" where
  "dag_ok d = dict_ok (nodes d)"

definition dag_ids :: "dag \<Rightarrow> string set" where
  "dag_ids d = set (dict_keys (nodes d))"

lemma dag_ids_keys [simp]: "fst ` set (nodes d) = dag_ids d"
  unfolding dag_ids_def set_map ..

lemma finite_dag_ids [simp, intro]: "finite (dag_ids d)"
  unfolding dag_ids_def by (rule finite_set)

lemma dag_has_iff: "dict_has (nodes d) s \<longleftrightarrow> s \<in> dag_ids d"
  by (simp add: dict_has_iff)

lemma map_of_nodes_None: "map_of (nodes d) s = None \<longleftrightarrow> s \<notin> dag_ids d"
  by (simp add: map_of_eq_None_iff)

definition node_deps :: "dag \<Rightarrow> string \<Rightarrow> string list" where
  "node_deps d s = (case map_of (nodes d) s of None \<Rightarrow> [] | Some n \<Rightarrow> depends_on n)"

definition predecessors :: "dag \<Rightarrow> string \<Rightarrow> string set" where
  "predecessors d s = set (filter (dict_has (nodes d)) (node_deps d s))"

definition successors :: "dag \<Rightarrow> string \<Rightarrow> string set" where
  "successors d s = set (filter (\<lambda>t. s \<in> predecessors d t) (dict_keys (nodes d)))"

text \<open>The edge relation: the pair of a step and a step that depends on it.\<close>

definition edge_rel :: "dag \<Rightarrow> (string \<times> string) set" where
  "edge_rel d = {(a, b). a \<in> predecessors d b}"

lemma node_deps_unknown: "s \<notin> dag_ids d \<Longrightarrow> node_deps d s = []"
  by (simp add: node_deps_def map_of_nodes_None[THEN iffD2])

lemma predecessors_iff: "a \<in> predecessors d b \<longleftrightarrow> a \<in> set (node_deps d b) \<and> a \<in> dag_ids d"
  by (auto simp: predecessors_def dag_has_iff)

lemma predecessors_known: "a \<in> predecessors d b \<Longrightarrow> a \<in> dag_ids d \<and> b \<in> dag_ids d"
  using node_deps_unknown[of b d] predecessors_iff[of a d b] by fastforce

lemma successors_iff: "b \<in> successors d a \<longleftrightarrow> a \<in> predecessors d b"
  using predecessors_known[of a d b] by (auto simp: successors_def)

lemma finite_predecessors [simp, intro]: "finite (predecessors d s)"
  by (simp add: predecessors_def)

lemma finite_successors [simp, intro]: "finite (successors d s)"
  by (simp add: successors_def)

lemma edge_rel_iff [simp]: "(a, b) \<in> edge_rel d \<longleftrightarrow> a \<in> predecessors d b"
  by (simp add: edge_rel_def)

lemma edge_rel_subset: "edge_rel d \<subseteq> dag_ids d \<times> dag_ids d"
  using predecessors_known by (fastforce simp: edge_rel_def)

lemma finite_edge_rel: "finite (edge_rel d)"
  by (rule finite_subset[OF edge_rel_subset]) simp

section \<open>Cycle search\<close>

datatype colour = White | Grey | Black

definition paint :: "string \<Rightarrow> colour \<Rightarrow> (string \<Rightarrow> colour) \<Rightarrow> string \<Rightarrow> colour" where
  "paint s k c = c(s := k)"

text \<open>
  The recursive closure \<open>visit\<close> of \<open>detect_cycle\<close>, with the colours and the path it mutates
  passed through. The first argument is the number of stack frames left; Python raises
  \<open>RecursionError\<close> when they run out.
\<close>

datatype walk = Out_of_stack | Found "string list" | Walked "string \<Rightarrow> colour" "string list"

function (sequential)
  visit :: "nat \<Rightarrow> (string \<Rightarrow> string set) \<Rightarrow> string \<Rightarrow> (string \<Rightarrow> colour) \<Rightarrow> string list \<Rightarrow> walk" and
  visit_deps :: "nat \<Rightarrow> (string \<Rightarrow> string set) \<Rightarrow> string list \<Rightarrow> (string \<Rightarrow> colour) \<Rightarrow> string list \<Rightarrow> walk"
where
  "visit 0 P s c st = Out_of_stack"
| "visit (Suc n) P s c st =
     (case visit_deps n P (sorted_set (P s)) (paint s Grey c) (st @ [s]) of
        Walked c' st' \<Rightarrow> Walked (paint s Black c') (butlast st')
      | r \<Rightarrow> r)"
| "visit_deps n P [] c st = Walked c st"
| "visit_deps n P (d # ds) c st =
     (if c d = Grey then Found (dropWhile (\<lambda>x. x \<noteq> d) st @ [d])
      else if c d = White then
        (case visit n P d c st of
           Walked c' st' \<Rightarrow> visit_deps n P ds c' st'
         | r \<Rightarrow> r)
      else visit_deps n P ds c st)"
  by pat_completeness auto
termination
  by (relation "measures [\<lambda>x. case x of Inl (n, _) \<Rightarrow> n | Inr (n, _) \<Rightarrow> n,
                          \<lambda>x. case x of Inl _ \<Rightarrow> 0 | Inr (n, P, ds, _) \<Rightarrow> Suc (length ds)]") auto

lemma paint_apply: "paint s k c x = (if x = s then k else c x)"
  by (simp add: paint_def)

fun visit_roots :: "nat \<Rightarrow> (string \<Rightarrow> string set) \<Rightarrow> string list \<Rightarrow> (string \<Rightarrow> colour) \<Rightarrow> string list \<Rightarrow> walk" where
  "visit_roots n P [] c st = Walked c st"
| "visit_roots n P (s # ss) c st =
     (if c s = White then
        (case visit n P s c st of
           Walked c' st' \<Rightarrow> visit_roots n P ss c' st'
         | r \<Rightarrow> r)
      else visit_roots n P ss c st)"

datatype cycle_search = RecursionError | Searched "string list option"

definition detect_cycle_lim :: "nat \<Rightarrow> dag \<Rightarrow> cycle_search" where
  "detect_cycle_lim frames d =
     (case visit_roots frames (predecessors d) (sort (dict_keys (nodes d))) (\<lambda>_. White) [] of
        Out_of_stack \<Rightarrow> RecursionError
      | Found cyc \<Rightarrow> Searched (Some cyc)
      | Walked c st \<Rightarrow> Searched None)"

text \<open>With a frame per node the search never runs out of stack.\<close>

definition detect_cycle :: "dag \<Rightarrow> string list option" where
  "detect_cycle d =
     (case detect_cycle_lim (length (nodes d)) d of
        RecursionError \<Rightarrow> None
      | Searched r \<Rightarrow> r)"

text \<open>A closed walk against the edges: what the function reports.\<close>

definition dep_cycle :: "(string \<Rightarrow> string set) \<Rightarrow> string list \<Rightarrow> bool" where
  "dep_cycle P cyc = (2 \<le> length cyc \<and> hd cyc = last cyc \<and> successively (\<lambda>a b. b \<in> P a) cyc)"

text \<open>
  What holds between the calls: the grey steps are the path, the path follows dependencies,
  the black steps are closed under dependency and carry no cycle.
\<close>

definition black_rel :: "(string \<Rightarrow> string set) \<Rightarrow> (string \<Rightarrow> colour) \<Rightarrow> (string \<times> string) set" where
  "black_rel P c = {(a, b). c b = Black \<and> a \<in> P b}"

definition grey_path :: "(string \<Rightarrow> string set) \<Rightarrow> (string \<Rightarrow> colour) \<Rightarrow> string list \<Rightarrow> bool" where
  "grey_path P c st \<longleftrightarrow> (\<forall>x. c x = Grey \<longleftrightarrow> x \<in> set st) \<and> distinct st \<and> successively (\<lambda>a b. b \<in> P a) st"

definition black_closed :: "(string \<Rightarrow> string set) \<Rightarrow> (string \<Rightarrow> colour) \<Rightarrow> bool" where
  "black_closed P c \<longleftrightarrow> (\<forall>x y. c x = Black \<longrightarrow> y \<in> P x \<longrightarrow> c y = Black)"

definition walk_inv :: "(string \<Rightarrow> string set) \<Rightarrow> (string \<Rightarrow> colour) \<Rightarrow> string list \<Rightarrow> bool" where
  "walk_inv P c st \<longleftrightarrow>
     grey_path P c st \<and> black_closed P c \<and> acyclic (black_rel P c)"

lemma grey_path_mem: "grey_path P c st \<Longrightarrow> x \<in> set st \<longleftrightarrow> c x = Grey"
  by (simp add: grey_path_def)

definition walk_mono :: "(string \<Rightarrow> colour) \<Rightarrow> (string \<Rightarrow> colour) \<Rightarrow> bool" where
  "walk_mono c c' \<longleftrightarrow> (\<forall>x. (c x = Black \<longrightarrow> c' x = Black) \<and> (c' x = White \<longrightarrow> c x = White))"

lemma walk_mono_refl [simp]: "walk_mono c c"
  by (simp add: walk_mono_def)

lemma walk_mono_trans: "walk_mono a b \<Longrightarrow> walk_mono b c \<Longrightarrow> walk_mono a c"
  unfolding walk_mono_def by blast

lemma walk_mono_black: "walk_mono a b \<Longrightarrow> a x = Black \<Longrightarrow> b x = Black"
  by (simp add: walk_mono_def)

lemma grey_path_snoc:
  assumes "grey_path P c st" "c s = White" "st \<noteq> [] \<longrightarrow> s \<in> P (last st)"
  shows "grey_path P (paint s Grey c) (st @ [s])"
proof -
  have new: "s \<notin> set st" using assms(1,2) grey_path_mem[OF assms(1), of s] by simp
  have "successively (\<lambda>a b. b \<in> P a) (st @ [s])"
    using assms(1,3) by (cases "st = []") (simp_all add: grey_path_def successively_append_iff)
  moreover have "\<forall>x. paint s Grey c x = Grey \<longleftrightarrow> x \<in> set (st @ [s])"
    using grey_path_mem[OF assms(1)] by (simp add: paint_apply)
  moreover have "distinct (st @ [s])" using new assms(1) by (simp add: grey_path_def)
  ultimately show ?thesis by (simp add: grey_path_def)
qed

lemma black_closed_fresh: "black_closed P c \<Longrightarrow> c s \<noteq> Black \<Longrightarrow> c x = Black \<Longrightarrow> s \<notin> P x"
  by (auto simp: black_closed_def)

lemma walk_inv_push:
  assumes "walk_inv P c st" "c s = White" "st \<noteq> [] \<longrightarrow> s \<in> P (last st)"
  shows "walk_inv P (paint s Grey c) (st @ [s])"
proof -
  have "black_rel P (paint s Grey c) = black_rel P c"
    using assms(2) by (auto simp: black_rel_def paint_apply)
  moreover have "black_closed P (paint s Grey c)"
    using assms(1,2) black_closed_fresh[of P c s]
    by (auto simp: walk_inv_def black_closed_def paint_apply)
  moreover have "grey_path P (paint s Grey c) (st @ [s])"
    using assms by (intro grey_path_snoc) (simp_all add: walk_inv_def)
  ultimately show ?thesis using assms(1) by (simp add: walk_inv_def)
qed

lemma acyclic_add_sink:
  assumes "acyclic r" and "\<And>a b. (a, b) \<in> r \<Longrightarrow> a \<noteq> s" and "s \<notin> A"
  shows "acyclic (r \<union> {(a, s) | a. a \<in> A})"
proof -
  let ?q = "r \<union> {(a, s) | a. a \<in> A}"
  have no: "(s, x) \<notin> ?q" for x using assms(2,3) by auto
  then have no_plus: "(s, x) \<notin> ?q\<^sup>+" for x by (meson tranclD)
  have "(x, y) \<in> ?q\<^sup>+ \<Longrightarrow> (x, y) \<in> r\<^sup>+ \<or> y = s" for x y
  proof (induction rule: trancl_induct)
    case (step y z)
    then show ?case using no[of z] by (auto intro: trancl_into_trancl)
  qed auto
  then show ?thesis using assms(1) no_plus unfolding acyclic_def by blast
qed

lemma walk_inv_pop:
  assumes "walk_inv P c (st @ [s])" and "\<forall>y \<in> P s. c y = Black"
  shows "walk_inv P (paint s Black c) st"
proof -
  have gp: "grey_path P c (st @ [s])" and bc: "black_closed P c" and ac: "acyclic (black_rel P c)"
    using assms(1) by (simp_all add: walk_inv_def)
  have grey: "c s = Grey" using grey_path_mem[OF gp, of s] by simp
  then have s: "s \<notin> P s" using assms(2) by force
  have rel: "black_rel P (paint s Black c) = black_rel P c \<union> {(a, s) | a. a \<in> P s}"
    using grey by (auto simp: black_rel_def paint_apply)
  have "a \<noteq> s" if "(a, b) \<in> black_rel P c" for a b
    using that black_closed_fresh[OF bc, of s b] grey by (auto simp: black_rel_def)
  then have "acyclic (black_rel P (paint s Black c))"
    unfolding rel using ac s by (intro acyclic_add_sink) auto
  moreover have "black_closed P (paint s Black c)"
    using bc assms(2) by (auto simp: black_closed_def paint_apply)
  moreover have "grey_path P (paint s Black c) st"
    using gp grey by (auto simp: grey_path_def successively_append_iff paint_apply)
  ultimately show ?thesis by (simp add: walk_inv_def)
qed

text \<open>Both functions together: what a walk or a found cycle guarantees.\<close>

lemma visit_correct:
  "walk_inv P c st \<Longrightarrow> c s = White \<Longrightarrow> (st \<noteq> [] \<longrightarrow> s \<in> P (last st)) \<Longrightarrow> (\<And>x. finite (P x)) \<Longrightarrow>
    (case visit n P s c st of
       Out_of_stack \<Rightarrow> True
     | Found cyc \<Rightarrow> dep_cycle P cyc
     | Walked c' st' \<Rightarrow> st' = st \<and> walk_inv P c' st \<and> walk_mono c c' \<and> c' s = Black)"
  "walk_inv P c st \<Longrightarrow> st \<noteq> [] \<Longrightarrow> set ds \<subseteq> P (last st) \<Longrightarrow> (\<And>x. finite (P x)) \<Longrightarrow>
    (case visit_deps n P ds c st of
       Out_of_stack \<Rightarrow> True
     | Found cyc \<Rightarrow> dep_cycle P cyc
     | Walked c' st' \<Rightarrow> st' = st \<and> walk_inv P c' st \<and> walk_mono c c' \<and> (\<forall>x \<in> set ds. c' x = Black))"
proof (induction n P s c st and n P ds c st rule: visit_visit_deps.induct)
  case (1 P s c st)
  then show ?case by simp
next
  case (2 n P s c st)
  have inv: "walk_inv P (paint s Grey c) (st @ [s])" using 2 by (intro walk_inv_push)
  have IH: "case visit_deps n P (sorted_set (P s)) (paint s Grey c) (st @ [s]) of
       Out_of_stack \<Rightarrow> True | Found cyc \<Rightarrow> dep_cycle P cyc
     | Walked c' st' \<Rightarrow> st' = st @ [s] \<and> walk_inv P c' (st @ [s]) \<and> walk_mono (paint s Grey c) c'
         \<and> (\<forall>x \<in> set (sorted_set (P s)). c' x = Black)"
    by (rule "2.IH"[OF inv]) (use 2 in simp_all)
  show ?case
  proof (cases "visit_deps n P (sorted_set (P s)) (paint s Grey c) (st @ [s])")
    case (Walked c' st')
    then have w: "st' = st @ [s]" "walk_inv P c' (st @ [s])" "walk_mono (paint s Grey c) c'"
      "\<forall>x \<in> P s. c' x = Black" using IH "2.prems"(4) by auto
    have "walk_mono c (paint s Black c')" using w(3) "2.prems"(2)
      by (auto simp: walk_mono_def paint_apply split: if_splits)
    then show ?thesis using Walked w walk_inv_pop[OF w(2,4)] by (simp add: paint_apply)
  qed (use IH in auto)
next
  case (3 n P c st)
  then show ?case by simp
next
  case (4 n P d ds c st)
  consider (grey) "c d = Grey" | (white) "c d = White" | (black) "c d = Black"
    by (cases "c d") auto
  then show ?case
  proof cases
    case grey
    then obtain pre post where st: "st = pre @ d # post" and pre: "d \<notin> set pre"
      using 4 grey_path_mem[of P c st d] by (metis split_list_first walk_inv_def)
    then have drop: "dropWhile (\<lambda>x. x \<noteq> d) st = d # post" by (simp add: dropWhile_append)
    have "successively (\<lambda>a b. b \<in> P a) (d # post)"
      using 4 st by (auto simp: walk_inv_def grey_path_def successively_append_iff)
    moreover have "d \<in> P (last (d # post))" using 4 st by simp
    ultimately have "dep_cycle P ((d # post) @ [d])"
      unfolding dep_cycle_def by (subst successively_append_iff) auto
    then show ?thesis using grey drop by simp
  next
    case white
    have IH1: "case visit n P d c st of
       Out_of_stack \<Rightarrow> True | Found cyc \<Rightarrow> dep_cycle P cyc
     | Walked c' st' \<Rightarrow> st' = st \<and> walk_inv P c' st \<and> walk_mono c c' \<and> c' d = Black"
      using 4 white by simp
    show ?thesis
    proof (cases "visit n P d c st")
      case (Walked c' st')
      then have w: "st' = st" "walk_inv P c' st" "walk_mono c c'" "c' d = Black"
        using IH1 by auto
      have "case visit_deps n P ds c' st of
         Out_of_stack \<Rightarrow> True | Found cyc \<Rightarrow> dep_cycle P cyc
       | Walked c'' st'' \<Rightarrow> st'' = st \<and> walk_inv P c'' st \<and> walk_mono c' c'' \<and> (\<forall>x \<in> set ds. c'' x = Black)"
        using 4 white Walked w by auto
      then show ?thesis using white Walked w
        by (auto split: walk.splits intro: walk_mono_trans walk_mono_black)
    qed (use IH1 white in auto)
  next
    case black
    then show ?thesis using 4
      by (auto split: walk.splits intro: walk_mono_black)
  qed
qed

lemma visit_roots_correct:
  assumes "\<And>x. finite (P x)" and "walk_inv P c []"
  shows "case visit_roots n P ss c [] of
       Out_of_stack \<Rightarrow> True
     | Found cyc \<Rightarrow> dep_cycle P cyc
     | Walked c' st' \<Rightarrow> walk_inv P c' [] \<and> walk_mono c c' \<and> (\<forall>x \<in> set ss. c' x = Black)"
  using assms(2)
proof (induction ss arbitrary: c)
  case (Cons s ss)
  show ?case
  proof (cases "c s = White")
    case True
    note v = visit_correct(1)[OF Cons.prems True _ assms(1), where n = n, simplified]
    show ?thesis
    proof (cases "visit n P s c []")
      case (Walked c' st')
      then have w: "st' = []" "walk_inv P c' []" "walk_mono c c'" "c' s = Black" using v by auto
      show ?thesis using Cons.IH[OF w(2)] True Walked w
        by (auto split: walk.splits intro: walk_mono_trans walk_mono_black)
    qed (use v True in auto)
  next
    case False
    then have "c s = Black" using Cons.prems by (cases "c s") (auto simp: walk_inv_def grey_path_def)
    then show ?thesis using Cons.IH[OF Cons.prems] False
      by (auto split: walk.splits intro: walk_mono_black)
  qed
qed simp

lemma white_card_mono:
  assumes "finite V" "\<forall>x. c' x = White \<longrightarrow> c x = White" "card {x \<in> V. c x = White} \<le> n"
  shows "card {x \<in> V. c' x = White} \<le> n"
proof -
  have "{x \<in> V. c' x = White} \<subseteq> {x \<in> V. c x = White}" using assms(2) by blast
  moreover have "finite {x \<in> V. c x = White}" using assms(1) by simp
  ultimately have "card {x \<in> V. c' x = White} \<le> card {x \<in> V. c x = White}" by (intro card_mono)
  then show ?thesis using assms(3) by simp
qed

text \<open>A frame per white step of a closed finite set is enough.\<close>

lemma visit_enough:
  "s \<in> V \<Longrightarrow> c s = White \<Longrightarrow> finite V \<Longrightarrow> (\<And>x. P x \<subseteq> V) \<Longrightarrow> card {x \<in> V. c x = White} \<le> n \<Longrightarrow>
    visit n P s c st \<noteq> Out_of_stack \<and>
    (\<forall>c' st'. visit n P s c st = Walked c' st' \<longrightarrow> (\<forall>x. c' x = White \<longrightarrow> c x = White))"
  "set ds \<subseteq> V \<Longrightarrow> finite V \<Longrightarrow> (\<And>x. P x \<subseteq> V) \<Longrightarrow> card {x \<in> V. c x = White} \<le> n \<Longrightarrow>
    visit_deps n P ds c st \<noteq> Out_of_stack \<and>
    (\<forall>c' st'. visit_deps n P ds c st = Walked c' st' \<longrightarrow> (\<forall>x. c' x = White \<longrightarrow> c x = White))"
proof (induction n P s c st and n P ds c st rule: visit_visit_deps.induct)
  case (1 P s c st)
  then have "{x \<in> V. c x = White} \<noteq> {}" by auto
  then show ?case using 1 by simp
next
  case (2 n P s c st)
  have "{x \<in> V. (paint s Grey c) x = White} = {x \<in> V. c x = White} - {s}" by (auto simp: paint_apply)
  then have card: "card {x \<in> V. (paint s Grey c) x = White} \<le> n" using 2 by simp
  have sub: "set (sorted_set (P s)) \<subseteq> V"
    using 2 by (metis finite_subset sorted_set_mem)
  have IH: "visit_deps n P (sorted_set (P s)) (paint s Grey c) (st @ [s]) \<noteq> Out_of_stack \<and>
    (\<forall>c' st'. visit_deps n P (sorted_set (P s)) (paint s Grey c) (st @ [s]) = Walked c' st' \<longrightarrow>
      (\<forall>x. c' x = White \<longrightarrow> paint s Grey c x = White))"
    by (rule "2.IH"[OF sub "2.prems"(3,4) card])
  show ?case
  proof (cases "visit_deps n P (sorted_set (P s)) (paint s Grey c) (st @ [s])")
    case (Walked c' st')
    then have "\<forall>x. c' x = White \<longrightarrow> c x = White" using IH "2.prems"(2)
      by (fastforce simp: paint_apply split: if_splits)
    then show ?thesis using Walked by (simp add: paint_apply)
  qed (use IH in simp_all)
next
  case (3 n P c st)
  then show ?case by simp
next
  case (4 n P d ds c st)
  show ?case
  proof (cases "c d = White")
    case True
    have nG: "c d \<noteq> Grey" and d: "d \<in> V" and ds: "set ds \<subseteq> V" using True "4.prems"(1) by auto
    note v = "4.IH"(1)[OF nG True d True "4.prems"(2,3,4)]
    show ?thesis
    proof (cases "visit n P d c st")
      case (Walked c' st')
      have mono: "\<forall>x. c' x = White \<longrightarrow> c x = White" using v Walked by blast
      have card: "card {x \<in> V. c' x = White} \<le> n" by (rule white_card_mono[OF "4.prems"(2) mono "4.prems"(4)])
      have eq: "visit_deps n P (d # ds) c st = visit_deps n P ds c' st'" using True Walked by simp
      show ?thesis unfolding eq
        using "4.IH"(2)[OF nG True Walked ds "4.prems"(2,3) card] mono by metis
    qed (use v True in simp_all)
  next
    case False
    then have eq: "c d = Grey \<or> visit_deps n P (d # ds) c st = visit_deps n P ds c st" by auto
    show ?thesis
    proof (cases "c d = Grey")
      case False
      have ds: "set ds \<subseteq> V" using "4.prems"(1) by auto
      show ?thesis using "4.IH"(3)[OF False \<open>c d \<noteq> White\<close> ds "4.prems"(2,3,4)] eq False by simp
    qed simp
  qed
qed

lemma visit_roots_enough:
  assumes "finite V" "\<And>x. P x \<subseteq> V"
  shows "set ss \<subseteq> V \<Longrightarrow> card {x \<in> V. c x = White} \<le> n \<Longrightarrow> visit_roots n P ss c st \<noteq> Out_of_stack"
proof (induction ss arbitrary: c st)
  case (Cons s ss)
  show ?case
  proof (cases "c s = White")
    case True
    have s: "s \<in> V" using Cons.prems(1) by simp
    note v = visit_enough(1)[where P = P, OF s True assms Cons.prems(2)]
    show ?thesis
    proof (cases "visit n P s c st")
      case (Walked c' st')
      have mono: "\<forall>x. c' x = White \<longrightarrow> c x = White" using v Walked by blast
      have "card {x \<in> V. c' x = White} \<le> n" by (rule white_card_mono[OF assms(1) mono Cons.prems(2)])
      then show ?thesis using Cons.IH[of c' st'] Cons.prems(1) True Walked by simp
    qed (use v True in auto)
  next
    case False
    then show ?thesis using Cons by auto
  qed
qed simp

lemma card_dag_ids: "dag_ok d \<Longrightarrow> card (dag_ids d) = length (nodes d)"
  unfolding dag_ok_def dag_ids_def by (metis distinct_card length_map)

lemma detect_cycle_lim_enough:
  assumes "length (nodes d) \<le> k"
  shows "detect_cycle_lim k d \<noteq> RecursionError"
proof -
  have "card (dag_ids d) \<le> k" using assms card_length[of "dict_keys (nodes d)"] by simp
  moreover have "predecessors d x \<subseteq> dag_ids d" for x using predecessors_known by blast
  ultimately have "visit_roots k (predecessors d) (sort (dict_keys (nodes d))) (\<lambda>_. White) []
      \<noteq> Out_of_stack"
    by (intro visit_roots_enough[of "dag_ids d"]) auto
  then show ?thesis by (auto simp: detect_cycle_lim_def split: walk.splits)
qed

lemma walk_inv_start: "walk_inv P (\<lambda>_. White) []"
  by (simp add: walk_inv_def grey_path_def black_closed_def black_rel_def acyclic_def)

lemma detect_cycle_lim_sound:
  assumes "detect_cycle_lim k d = Searched r"
  shows "case r of None \<Rightarrow> acyclic (edge_rel d) | Some cyc \<Rightarrow> dep_cycle (predecessors d) cyc"
proof -
  let ?P = "predecessors d" and ?ks = "sort (dict_keys (nodes d))"
  note c = visit_roots_correct[of ?P "\<lambda>_. White", OF finite_predecessors walk_inv_start]
  show ?thesis
  proof (cases "visit_roots k ?P ?ks (\<lambda>_. White) []")
    case (Walked c' st')
    then have w: "walk_inv ?P c' []" "\<forall>x \<in> set ?ks. c' x = Black"
      using c[where n = k and ss = ?ks] by auto
    have "(a, b) \<in> black_rel ?P c'" if "(a, b) \<in> edge_rel d" for a b
      using that w(2) predecessors_known[of a d b] by (auto simp: black_rel_def)
    then have "acyclic (edge_rel d)" using w(1)
      by (meson acyclic_subset subrelI walk_inv_def)
    then show ?thesis using assms Walked by (auto simp: detect_cycle_lim_def)
  qed (use assms c[where n = k and ss = ?ks] in \<open>auto simp: detect_cycle_lim_def\<close>)
qed

lemma dep_cycle_not_acyclic:
  assumes "dep_cycle (predecessors d) cyc"
  shows "\<not> acyclic (edge_rel d)"
proof -
  have "(last xs, hd xs) \<in> (edge_rel d)\<^sup>+"
    if "successively (\<lambda>a b. b \<in> predecessors d a) xs" "2 \<le> length xs" for xs
    using that
  proof (induction xs)
    case (Cons a ys)
    then obtain b zs where ys: "ys = b # zs" by (cases ys) auto
    have e: "(b, a) \<in> edge_rel d" using Cons.prems(1) ys by simp
    show ?case
    proof (cases zs)
      case Nil
      then show ?thesis using e ys by auto
    next
      case (Cons c cs)
      then have "(last ys, b) \<in> (edge_rel d)\<^sup>+" using Cons.IH Cons.prems ys by simp
      then show ?thesis using e ys by (simp add: trancl_into_trancl)
    qed
  qed simp
  then show ?thesis using assms unfolding dep_cycle_def acyclic_def by metis
qed

lemma detect_cycle_lim_stable:
  "length (nodes d) \<le> k \<Longrightarrow> \<exists>r. detect_cycle_lim k d = Searched r \<and> (r = None \<longleftrightarrow> acyclic (edge_rel d))"
proof -
  assume k: "length (nodes d) \<le> k"
  obtain r where r: "detect_cycle_lim k d = Searched r"
    using detect_cycle_lim_enough[OF k] by (cases "detect_cycle_lim k d") auto
  show ?thesis using detect_cycle_lim_sound[OF r] r
    by (cases r) (auto dest: dep_cycle_not_acyclic)
qed

lemma detect_cycle_None: "detect_cycle d = None \<longleftrightarrow> acyclic (edge_rel d)"
  using detect_cycle_lim_stable[of d "length (nodes d)"]
  by (auto simp: detect_cycle_def)

lemma detect_cycle_Some: "detect_cycle d = Some cyc \<Longrightarrow> dep_cycle (predecessors d) cyc"
  using detect_cycle_lim_sound[of "length (nodes d)" d]
  by (auto simp: detect_cycle_def split: cycle_search.splits)

end
