(* ===== verification/Dag_Layers.thy ===== *)
theory Dag_Layers
  imports Dag "HOL-Library.Multiset"
begin

text \<open>
  The rest of \<open>core/dag.py\<close>: Kahn's layering, the worklist of transitive dependents and the
  roots, with their correctness against the edge relation.
\<close>

section \<open>Transitive dependents\<close>

text \<open>
  The worklist loop of \<open>dependents_of\<close>. The frontier is kept with its end first, because
  \<open>list.pop()\<close> takes the last element.
\<close>

function dependents_loop :: "dag \<Rightarrow> string set \<Rightarrow> string list \<Rightarrow> string set" where
  "dependents_loop d result [] = result"
| "dependents_loop d result (current # frontier) =
     (let new = filter (\<lambda>t. t \<notin> result) (sorted_set (successors d current))
      in dependents_loop d (result \<union> set new) (rev new @ frontier))"
  by pat_completeness auto
termination
proof (relation "inv_image (finite_psubset <*lex*> less_than)
    (\<lambda>(d, res, fr). (dag_ids d - res, length fr))", goal_cases)
  case 1
  show ?case by (intro wf_inv_image wf_lex_prod wf_finite_psubset wf_less_than)
next
  case (2 d res cur fr new)
  have sub: "set new \<subseteq> dag_ids d - res"
    using 2 predecessors_known successors_iff by fastforce
  show ?case
  proof (cases "new = []")
    case False
    then obtain t where "t \<in> set new" by (cases new) auto
    then have "dag_ids d - (res \<union> set new) \<subset> dag_ids d - res" using sub by blast
    then show ?thesis by (auto simp: finite_psubset_def)
  qed simp
qed

declare dependents_loop.simps(2) [simp del]

definition dependents_of :: "dag \<Rightarrow> string \<Rightarrow> string set" where
  "dependents_of d s = (if dict_has (nodes d) s then dependents_loop d {} [s] else {})"

definition roots :: "dag \<Rightarrow> string list" where
  "roots d = sort (map fst (filter (\<lambda>(s, n). depends_on n = []) (nodes d)))"

lemma dependents_loop_mono: "result \<subseteq> dependents_loop d result fr"
proof (induction d result fr rule: dependents_loop.induct)
  case (2 d res cur fr)
  then show ?case by (subst dependents_loop.simps) (auto simp: Let_def)
qed simp

lemma dependents_loop_upper:
  "set fr \<subseteq> insert s ((edge_rel d)\<^sup>+ `` {s}) \<Longrightarrow> result \<subseteq> (edge_rel d)\<^sup>+ `` {s} \<Longrightarrow>
    dependents_loop d result fr \<subseteq> (edge_rel d)\<^sup>+ `` {s}"
proof (induction d result fr rule: dependents_loop.induct)
  case (2 d res cur fr)
  let ?new = "filter (\<lambda>t. t \<notin> res) (sorted_set (successors d cur))"
  have "t \<in> (edge_rel d)\<^sup>+ `` {s}" if "t \<in> successors d cur" for t
  proof -
    have e: "(cur, t) \<in> edge_rel d" using that by (simp add: successors_iff)
    have "cur = s \<or> (s, cur) \<in> (edge_rel d)\<^sup>+" using "2.prems"(1) by auto
    then show ?thesis using e by (auto intro: trancl_into_trancl)
  qed
  then have new: "set ?new \<subseteq> (edge_rel d)\<^sup>+ `` {s}" by auto
  then have "dependents_loop d (res \<union> set ?new) (rev ?new @ fr) \<subseteq> (edge_rel d)\<^sup>+ `` {s}"
    using "2.prems" by (intro "2.IH"[OF refl]) auto
  then show ?case by (subst dependents_loop.simps) (simp add: Let_def)
qed simp

text \<open>
  The lower bound: every step whose dependents are not yet all in the result is on the
  frontier, so at the end the result is closed under the edges.
\<close>

lemma dependents_loop_closed:
  "(\<And>x y. x \<in> insert s result \<Longrightarrow> (x, y) \<in> edge_rel d \<Longrightarrow> y \<in> result \<or> x \<in> set fr) \<Longrightarrow>
    x \<in> insert s (dependents_loop d result fr) \<Longrightarrow> (x, y) \<in> edge_rel d \<Longrightarrow>
    y \<in> dependents_loop d result fr"
proof (induction d result fr rule: dependents_loop.induct)
  case (2 d res cur fr)
  let ?new = "filter (\<lambda>t. t \<notin> res) (sorted_set (successors d cur))"
  have "y \<in> res \<union> set ?new \<or> x \<in> set (rev ?new @ fr)"
    if "x \<in> insert s (res \<union> set ?new)" "(x, y) \<in> edge_rel d" for x y
  proof (cases "x = cur")
    case True
    then show ?thesis using that(2) by (auto simp: successors_iff)
  next
    case False
    then show ?thesis using that "2.prems"(1)[of x y] by auto
  qed
  then show ?case using "2.IH"[OF refl] "2.prems"(2,3)
    by (subst dependents_loop.simps, subst (asm) dependents_loop.simps) (auto simp: Let_def)
next
  case (1 d result)
  then show ?case by auto
qed

lemma dependents_of_iff: "t \<in> dependents_of d s \<longleftrightarrow> (s, t) \<in> (edge_rel d)\<^sup>+"
proof (cases "dict_has (nodes d) s")
  case True
  have up: "dependents_loop d {} [s] \<subseteq> (edge_rel d)\<^sup>+ `` {s}"
    by (rule dependents_loop_upper) auto
  have "(s, t) \<in> (edge_rel d)\<^sup>+ \<Longrightarrow> t \<in> dependents_loop d {} [s]"
  proof (induction rule: trancl_induct)
    case (base y)
    then show ?case by (intro dependents_loop_closed[where x = s and s = s]) auto
  next
    case (step y z)
    then show ?case by (intro dependents_loop_closed[where x = y and s = s]) auto
  qed
  then show ?thesis using up True by (auto simp: dependents_of_def)
next
  case False
  have "(s, t) \<notin> (edge_rel d)\<^sup>+"
  proof
    assume "(s, t) \<in> (edge_rel d)\<^sup>+"
    then obtain y where "(s, y) \<in> edge_rel d" by (meson tranclD)
    then show False using False predecessors_known[of s d y] by (auto simp: dag_has_iff)
  qed
  then show ?thesis using False by (simp add: dependents_of_def)
qed

lemma finite_dependents_of [simp]: "finite (dependents_of d s)"
proof (rule finite_subset)
  show "dependents_of d s \<subseteq> dag_ids d"
  proof
    fix t assume "t \<in> dependents_of d s"
    then obtain y where "(y, t) \<in> edge_rel d" unfolding dependents_of_iff by (meson tranclD2)
    then show "t \<in> dag_ids d" using predecessors_known[of y d t] by simp
  qed
qed simp

section \<open>Topological layers\<close>

text \<open>
  One round of Kahn's loop: for every step of the layer and every dependent of it, the count of
  open dependencies goes down by one, and a dependent whose count reaches zero joins the next
  layer. The two nested loops run over the list of all those dependents.
\<close>

fun relax :: "(string \<Rightarrow> int) \<Rightarrow> string list \<Rightarrow> string list \<Rightarrow> (string \<Rightarrow> int) \<times> string list" where
  "relax remaining nxt [] = (remaining, nxt)"
| "relax remaining nxt (t # ts) =
     (let r = remaining t - 1
      in relax (remaining(t := r)) (if r = 0 then nxt @ [t] else nxt) ts)"

definition layer_dependents :: "dag \<Rightarrow> string list \<Rightarrow> string list" where
  "layer_dependents d current = concat (map (\<lambda>s. sorted_set (successors d s)) current)"

text \<open>The while loop; the first argument bounds the rounds (see \<open>kahn_enough\<close>).\<close>

fun kahn :: "nat \<Rightarrow> dag \<Rightarrow> (string \<Rightarrow> int) \<Rightarrow> string list \<Rightarrow> string list list \<Rightarrow> nat \<Rightarrow> (string list list \<times> nat) option" where
  "kahn 0 d remaining current layers resolved =
     (if current = [] then Some (layers, resolved) else None)"
| "kahn (Suc n) d remaining current layers resolved =
     (if current = [] then Some (layers, resolved)
      else (case relax remaining [] (layer_dependents d current) of (remaining', nxt) \<Rightarrow>
        kahn n d remaining' (sort nxt) (layers @ [current]) (resolved + length current)))"

definition open_deps :: "dag \<Rightarrow> string \<Rightarrow> int" where
  "open_deps d s = int (card (predecessors d s))"

definition kahn_run :: "dag \<Rightarrow> (string list list \<times> nat) option" where
  "kahn_run d = kahn (length (nodes d)) d (open_deps d)
     (sort (filter (\<lambda>s. open_deps d s = 0) (dict_keys (nodes d)))) [] 0"

text \<open>\<open>Inl\<close> is the \<open>ValueError\<close>, with the cycle its message names.\<close>

definition topological_layers :: "dag \<Rightarrow> string list option + string list list" where
  "topological_layers d =
     (case kahn_run d of
        None \<Rightarrow> Inl None
      | Some (layers, resolved) \<Rightarrow>
          if resolved \<noteq> length (nodes d) then Inl (detect_cycle d) else Inr layers)"

lemma relax_result:
  assumes "\<And>x. int (count_list ts x) \<le> remaining x" and "\<And>x. x \<in> set nxt \<Longrightarrow> remaining x = 0"
    and "relax remaining nxt ts = (remaining', nxt')"
  shows "remaining' x = remaining x - int (count_list ts x)"
    and "x \<in> set nxt' \<longleftrightarrow> x \<in> set nxt \<or> x \<in> set ts \<and> remaining x = int (count_list ts x)"
    and "distinct nxt \<Longrightarrow> distinct nxt'"
proof -
  have "remaining' x = remaining x - int (count_list ts x) \<and>
      (x \<in> set nxt' \<longleftrightarrow> x \<in> set nxt \<or> x \<in> set ts \<and> remaining x = int (count_list ts x)) \<and>
      (distinct nxt \<longrightarrow> distinct nxt')"
    using assms
  proof (induction ts arbitrary: remaining nxt)
    case (Cons t ts)
    let ?r = "remaining t - 1"
    let ?rem = "remaining(t := ?r)" and ?nxt = "if ?r = 0 then nxt @ [t] else nxt"
    have cnt: "int (count_list ts y) \<le> ?rem y" for y using Cons.prems(1)[of y] by auto
    have pos: "1 \<le> remaining t" using Cons.prems(1)[of t] by simp
    have tn: "t \<notin> set nxt" using Cons.prems(2)[of t] pos by auto
    have nx: "?rem y = 0" if "y \<in> set ?nxt" for y
      using that Cons.prems(2)[of y] tn by (auto split: if_splits)
    have zero: "t \<notin> set ts" if "?r = 0"
    proof -
      have "count_list ts t = 0" using cnt[of t] that by simp
      then show ?thesis by (simp add: count_list_0_iff)
    qed
    have "relax ?rem ?nxt ts = (remaining', nxt')" using Cons.prems(3) by (simp add: Let_def)
    from Cons.IH[OF cnt nx this] show ?case
      using tn zero by (auto simp: count_list_0_iff split: if_splits)
  qed auto
  then show "remaining' x = remaining x - int (count_list ts x)"
    and "x \<in> set nxt' \<longleftrightarrow> x \<in> set nxt \<or> x \<in> set ts \<and> remaining x = int (count_list ts x)"
    and "distinct nxt \<Longrightarrow> distinct nxt'" by simp_all
qed

lemma count_list_distinct: "distinct xs \<Longrightarrow> count_list xs x = (if x \<in> set xs then 1 else 0)"
  by (induction xs) auto

lemma count_layer_dependents:
  assumes "distinct current"
  shows "count_list (layer_dependents d current) x = card (predecessors d x \<inter> set current)"
  using assms
proof (induction current)
  case (Cons s ss)
  have one: "count_list (sorted_set (successors d s)) x = (if s \<in> predecessors d x then 1 else 0)"
    by (simp add: successors_iff count_list_distinct)
  have "predecessors d x \<inter> set (s # ss) =
      (if s \<in> predecessors d x then insert s (predecessors d x \<inter> set ss) else predecessors d x \<inter> set ss)"
    by auto
  then show ?case using Cons one by (simp add: layer_dependents_def)
qed (simp add: layer_dependents_def)

text \<open>
  What holds at the head of the loop, for the set \<open>fin\<close> of the steps layered so far: the counts
  are those of the open dependencies, and the current layer holds exactly the steps that became
  free in the last round.
\<close>

definition kahn_inv :: "dag \<Rightarrow> string set \<Rightarrow> (string \<Rightarrow> int) \<Rightarrow> string list \<Rightarrow> bool" where
  "kahn_inv d fin remaining current \<longleftrightarrow>
     fin \<subseteq> dag_ids d \<and> distinct current \<and> fin \<inter> set current = {} \<and>
     (\<forall>x. remaining x = int (card (predecessors d x - fin))) \<and>
     (\<forall>x \<in> dag_ids d. x \<in> fin \<union> set current \<longleftrightarrow> predecessors d x \<subseteq> fin) \<and>
     set current \<subseteq> dag_ids d"

lemma kahn_inv_start:
  assumes "dag_ok d"
  shows "kahn_inv d {} (open_deps d) (sort (filter (\<lambda>s. open_deps d s = 0) (dict_keys (nodes d))))"
  using assms by (auto simp: kahn_inv_def open_deps_def dag_ok_def)

lemma kahn_inv_round:
  assumes inv: "kahn_inv d fin remaining current"
    and r: "relax remaining [] (layer_dependents d current) = (remaining', nxt)"
  shows "kahn_inv d (fin \<union> set current) remaining' (sort nxt)"
proof -
  let ?D = "fin \<union> set current"
  have dist: "distinct current" and dis: "fin \<inter> set current = {}"
    and rem: "\<And>x. remaining x = int (card (predecessors d x - fin))"
    and free: "\<And>x. x \<in> dag_ids d \<Longrightarrow> x \<in> ?D \<longleftrightarrow> predecessors d x \<subseteq> fin"
    and sub: "?D \<subseteq> dag_ids d"
    using inv by (auto simp: kahn_inv_def)
  have cnt: "count_list (layer_dependents d current) x = card (predecessors d x \<inter> set current)" for x
    by (rule count_layer_dependents[OF dist])
  have split: "card (predecessors d x - fin)
      = card (predecessors d x - ?D) + card (predecessors d x \<inter> set current)" for x
  proof -
    have "predecessors d x - fin = (predecessors d x - ?D) \<union> (predecessors d x \<inter> set current)"
      using dis by auto
    moreover have "card ((predecessors d x - ?D) \<union> (predecessors d x \<inter> set current))
        = card (predecessors d x - ?D) + card (predecessors d x \<inter> set current)"
      by (rule card_Un_disjoint) auto
    ultimately show ?thesis by simp
  qed
  have le: "int (count_list (layer_dependents d current) x) \<le> remaining x" for x
    using split[of x] by (simp add: cnt rem)
  note res = relax_result[OF le _ r]
  have rem': "remaining' x = int (card (predecessors d x - ?D))" for x
    using res(1)[of x] split[of x] by (simp add: cnt rem)
  have mem: "x \<in> set nxt \<longleftrightarrow> x \<in> dag_ids d \<and> predecessors d x \<subseteq> ?D \<and> \<not> predecessors d x \<subseteq> fin" for x
  proof -
    have "x \<in> set (layer_dependents d current) \<longleftrightarrow> predecessors d x \<inter> set current \<noteq> {}"
      using cnt[of x] by (metis card_0_eq count_list_0_iff finite_Int finite_predecessors)
    moreover have "remaining x = int (card (predecessors d x \<inter> set current)) \<longleftrightarrow> predecessors d x \<subseteq> ?D"
      using split[of x] by (simp add: rem)
    ultimately show ?thesis using res(2)[of x] dis predecessors_known[of _ d x] by (auto simp: cnt)
  qed
  have "distinct nxt" using res(3) by simp
  moreover have "x \<in> ?D \<union> set nxt \<longleftrightarrow> predecessors d x \<subseteq> ?D" if "x \<in> dag_ids d" for x
    using free[OF that] mem[of x] that by auto
  moreover have "?D \<inter> set nxt = {}"
    using free mem sub by blast
  moreover have "set nxt \<subseteq> dag_ids d" using mem by blast
  ultimately show ?thesis unfolding kahn_inv_def using sub rem' by simp
qed

text \<open>Layers that respect the dependencies: each step's known dependencies are in earlier ones.\<close>

fun layers_ok :: "dag \<Rightarrow> string set \<Rightarrow> string list list \<Rightarrow> bool" where
  "layers_ok d fin [] = True"
| "layers_ok d fin (l # ls) =
     (l \<noteq> [] \<and> sorted l \<and> distinct l \<and> set l \<inter> fin = {} \<and> (\<forall>s \<in> set l. predecessors d s \<subseteq> fin) \<and>
      layers_ok d (fin \<union> set l) ls)"

lemma layers_ok_split:
  "layers_ok d fin ls \<Longrightarrow> ls = pre @ l # post \<Longrightarrow>
    l \<noteq> [] \<and> sorted l \<and> (\<forall>s \<in> set l. predecessors d s \<subseteq> set (concat pre) \<union> fin)"
proof (induction pre arbitrary: fin ls)
  case (Cons p pre)
  then show ?case using Cons.IH[of "fin \<union> set p" "pre @ l # post"] by (simp add: Un_ac)
qed simp

lemma layers_ok_snoc:
  "layers_ok d fin (ls @ [l]) \<longleftrightarrow>
    layers_ok d fin ls \<and> layers_ok d (fin \<union> set (concat ls)) [l]"
  by (induction ls arbitrary: fin) (auto simp: Un_assoc)

lemma kahn_correct:
  "kahn_inv d (set (concat layers)) remaining current \<Longrightarrow> sorted current \<Longrightarrow>
    layers_ok d {} layers \<Longrightarrow> resolved = length (concat layers) \<Longrightarrow> distinct (concat layers) \<Longrightarrow>
    dag_ok d \<Longrightarrow> length (nodes d) \<le> n + resolved \<Longrightarrow>
    \<exists>ls r. kahn n d remaining current layers resolved = Some (ls, r) \<and> layers_ok d {} ls \<and>
      distinct (concat ls) \<and> r = length (concat ls) \<and> set (concat ls) \<subseteq> dag_ids d \<and>
      (\<forall>x \<in> dag_ids d. predecessors d x \<subseteq> set (concat ls) \<longrightarrow> x \<in> set (concat ls))"
proof (induction n d remaining current layers resolved rule: kahn.induct)
  case (1 d remaining current layers resolved)
  have sub: "set (concat layers) \<union> set current \<subseteq> dag_ids d" and dis: "set (concat layers) \<inter> set current = {}"
    using "1.prems"(1) by (auto simp: kahn_inv_def)
  have "card (set (concat layers)) = length (concat layers)"
    using "1.prems"(5) by (rule distinct_card)
  then have le: "card (dag_ids d) \<le> card (set (concat layers))"
    using "1.prems"(4,6,7) card_dag_ids[of d] by simp
  have lay: "set (concat layers) \<subseteq> dag_ids d" and cur: "set current \<subseteq> dag_ids d"
    using sub by (simp_all only: Un_subset_iff)
  have all: "set (concat layers) = dag_ids d" by (rule card_seteq[OF finite_dag_ids lay le])
  have "set current = set current \<inter> dag_ids d" using cur by (simp add: Int_absorb2)
  then have "set current = {}" using dis all by (simp only: Int_commute)
  then have "kahn 0 d remaining current layers resolved = Some (layers, resolved)" by simp
  moreover have "\<forall>x \<in> dag_ids d. predecessors d x \<subseteq> dag_ids d \<longrightarrow> x \<in> dag_ids d" by simp
  ultimately show ?case using "1.prems"(3,4,5) all
    by (intro exI[of _ layers] exI[of _ resolved]) (simp only: subset_refl simp_thms)
next
  case (2 n d remaining current layers resolved)
  show ?case
  proof (cases "current = []")
    case True
    then show ?thesis using 2 by (auto simp: kahn_inv_def)
  next
    case False
    obtain remaining' nxt where r: "relax remaining [] (layer_dependents d current) = (remaining', nxt)"
      by force
    have inv: "kahn_inv d (set (concat (layers @ [current]))) remaining' (sort nxt)"
      using kahn_inv_round[OF "2.prems"(1) r] by simp
    have free: "predecessors d s \<subseteq> set (concat layers)" if "s \<in> set current" for s
      using "2.prems"(1) that by (auto simp: kahn_inv_def)
    have lay: "layers_ok d {} (layers @ [current])"
      using "2.prems"(1,2,3) False free by (auto simp: layers_ok_snoc kahn_inv_def)
    have dist: "distinct (concat (layers @ [current]))"
      using "2.prems"(1,5) by (auto simp: kahn_inv_def)
    have "0 < length current" using False by simp
    then have len: "length (nodes d) \<le> n + (resolved + length current)" using "2.prems"(7) by linarith
    have "\<exists>ls r. kahn n d remaining' (sort nxt) (layers @ [current]) (resolved + length current) = Some (ls, r)
      \<and> layers_ok d {} ls \<and> distinct (concat ls) \<and> r = length (concat ls) \<and> set (concat ls) \<subseteq> dag_ids d \<and>
      (\<forall>x \<in> dag_ids d. predecessors d x \<subseteq> set (concat ls) \<longrightarrow> x \<in> set (concat ls))"
      by (rule "2.IH"[OF False r[symmetric] inv _ lay _ dist "2.prems"(6) len])
        (use "2.prems"(4) in auto)
    then show ?thesis using False r by simp
  qed
qed

lemma kahn_run_correct:
  assumes "dag_ok d"
  obtains ls where "kahn_run d = Some (ls, length (concat ls))" "layers_ok d {} ls"
    "distinct (concat ls)" "set (concat ls) \<subseteq> dag_ids d"
    "\<And>x. x \<in> dag_ids d \<Longrightarrow> predecessors d x \<subseteq> set (concat ls) \<Longrightarrow> x \<in> set (concat ls)"
proof -
  have "\<exists>ls r. kahn_run d = Some (ls, r) \<and> layers_ok d {} ls \<and> distinct (concat ls) \<and>
    r = length (concat ls) \<and> set (concat ls) \<subseteq> dag_ids d \<and>
    (\<forall>x \<in> dag_ids d. predecessors d x \<subseteq> set (concat ls) \<longrightarrow> x \<in> set (concat ls))"
    unfolding kahn_run_def using kahn_inv_start[OF assms] assms by (intro kahn_correct) auto
  then show ?thesis using that by blast
qed

text \<open>Layers whose steps are all the steps exist exactly on acyclic graphs.\<close>

definition layer_rank :: "string list list \<Rightarrow> string \<Rightarrow> nat" where
  "layer_rank ls x = length (takeWhile (\<lambda>l. x \<notin> set l) ls)"

lemma layer_rank_Cons [simp]:
  "layer_rank (l # ls) x = (if x \<in> set l then 0 else Suc (layer_rank ls x))"
  by (simp add: layer_rank_def)

lemma layers_ok_rank:
  "layers_ok d fin ls \<Longrightarrow> b \<in> set (concat ls) \<Longrightarrow> a \<in> predecessors d b \<Longrightarrow> a \<notin> fin \<Longrightarrow>
    layer_rank ls a < layer_rank ls b"
proof (induction ls arbitrary: fin)
  case (Cons l ls)
  show ?case
  proof (cases "b \<in> set l")
    case True
    then show ?thesis using Cons.prems by auto
  next
    case False
    then show ?thesis using Cons.IH[of "fin \<union> set l"] Cons.prems by auto
  qed
qed simp

lemma layers_ok_acyclic:
  assumes "layers_ok d {} ls" "dag_ids d \<subseteq> set (concat ls)"
  shows "acyclic (edge_rel d)"
proof -
  have "layer_rank ls a < layer_rank ls b" if "(a, b) \<in> edge_rel d" for a b
  proof -
    have "a \<in> predecessors d b" using that by simp
    then show ?thesis using layers_ok_rank[OF assms(1), of b a] assms(2) predecessors_known[of a d b] by blast
  qed
  then have "edge_rel d \<subseteq> inv_image less_than (layer_rank ls)" by auto
  then have "wf (edge_rel d)" by (rule wf_subset[rotated]) simp
  then show ?thesis by (rule wf_acyclic)
qed

lemma acyclic_layers_all:
  assumes "acyclic (edge_rel d)"
    and "\<And>x. x \<in> dag_ids d \<Longrightarrow> predecessors d x \<subseteq> A \<Longrightarrow> x \<in> A"
  shows "dag_ids d \<subseteq> A"
proof (rule ccontr)
  assume "\<not> dag_ids d \<subseteq> A"
  then obtain z where z: "z \<in> dag_ids d - A" by blast
  have "wf (edge_rel d)" by (rule finite_acyclic_wf[OF finite_edge_rel assms(1)])
  then obtain m where m: "m \<in> dag_ids d - A" and min: "\<And>y. (y, m) \<in> edge_rel d \<Longrightarrow> y \<notin> dag_ids d - A"
    using z wfE_min[of "edge_rel d" z "dag_ids d - A"] by metis
  have "predecessors d m \<subseteq> A" using min predecessors_known by fastforce
  then show False using assms(2)[of m] m by blast
qed

lemma topological_layers_Inr:
  assumes "dag_ok d"
  shows "topological_layers d = Inr ls \<Longrightarrow>
      layers_ok d {} ls \<and> distinct (concat ls) \<and> set (concat ls) = dag_ids d"
proof -
  obtain ls' where k: "kahn_run d = Some (ls', length (concat ls'))" "layers_ok d {} ls'"
    "distinct (concat ls')" "set (concat ls') \<subseteq> dag_ids d"
    using kahn_run_correct[OF assms] by metis
  assume "topological_layers d = Inr ls"
  then have eq: "ls = ls'" and len: "length (concat ls) = card (dag_ids d)"
    using k(1) card_dag_ids[OF assms] by (auto simp: topological_layers_def split: if_splits)
  have "card (set (concat ls)) = card (dag_ids d)"
    using k(3) len eq by (metis distinct_card)
  then have "set (concat ls) = dag_ids d" using k(4) eq by (intro card_subset_eq) auto
  then show ?thesis using k eq by simp
qed

lemma topological_layers_iff:
  assumes "dag_ok d"
  shows "(\<exists>ls. topological_layers d = Inr ls) \<longleftrightarrow> acyclic (edge_rel d)"
proof
  assume "\<exists>ls. topological_layers d = Inr ls"
  then show "acyclic (edge_rel d)"
    using topological_layers_Inr[OF assms] by (metis layers_ok_acyclic subset_refl)
next
  assume ac: "acyclic (edge_rel d)"
  obtain ls where k: "kahn_run d = Some (ls, length (concat ls))"
    "distinct (concat ls)" "set (concat ls) \<subseteq> dag_ids d"
    "\<And>x. x \<in> dag_ids d \<Longrightarrow> predecessors d x \<subseteq> set (concat ls) \<Longrightarrow> x \<in> set (concat ls)"
    using kahn_run_correct[OF assms] by metis
  have "set (concat ls) = dag_ids d" using acyclic_layers_all[OF ac k(4)] k(3) by blast
  then have "length (concat ls) = length (nodes d)"
    using k(2) card_dag_ids[OF assms] by (metis distinct_card)
  then show "\<exists>ls. topological_layers d = Inr ls" using k(1) by (simp add: topological_layers_def)
qed

lemma topological_layers_Inl:
  assumes "dag_ok d" and "topological_layers d = Inl r"
  shows "\<exists>cyc. r = Some cyc \<and> dep_cycle (predecessors d) cyc"
proof -
  obtain ls where k: "kahn_run d = Some (ls, length (concat ls))" using kahn_run_correct[OF assms(1)] by metis
  then have "r = detect_cycle d" using assms(2) by (auto simp: topological_layers_def split: if_splits)
  moreover have "\<not> acyclic (edge_rel d)" using topological_layers_iff[OF assms(1)] assms(2) by auto
  ultimately show ?thesis using detect_cycle_None[of d] detect_cycle_Some[of d] by (cases r) auto
qed

end
