(* ===== verification/Orch_Types.thy ===== *)
theory Orch_Types
  imports Json
begin

text \<open>
  The shared types of \<open>core/orchestration_types.py\<close>: the lifecycle states of runs and steps with
  their column values and their terminal states, budgets, tool scopes and step results. Costs are
  exact rationals; \<open>None\<close> is \<open>None\<close>.
\<close>

section \<open>Lifecycle states\<close>

datatype run_state =
    RPending | RRunning | RAwaiting_approval | RCompleted | RFailed | RCancelling | RCancelled
  | RRejected | RBudget_exceeded

datatype step_state =
    SPending | SReady | SRunning | SAwaiting_approval | SCompleted | SFailed | SCancelled | SSkipped

fun run_value :: "run_state \<Rightarrow> string" where
  "run_value RPending = ''pending''"
| "run_value RRunning = ''running''"
| "run_value RAwaiting_approval = ''awaiting_approval''"
| "run_value RCompleted = ''completed''"
| "run_value RFailed = ''failed''"
| "run_value RCancelling = ''cancelling''"
| "run_value RCancelled = ''cancelled''"
| "run_value RRejected = ''rejected''"
| "run_value RBudget_exceeded = ''budget_exceeded''"

fun step_value :: "step_state \<Rightarrow> string" where
  "step_value SPending = ''pending''"
| "step_value SReady = ''ready''"
| "step_value SRunning = ''running''"
| "step_value SAwaiting_approval = ''awaiting_approval''"
| "step_value SCompleted = ''completed''"
| "step_value SFailed = ''failed''"
| "step_value SCancelled = ''cancelled''"
| "step_value SSkipped = ''skipped''"

fun run_is_terminal :: "run_state \<Rightarrow> bool" where
  "run_is_terminal s = (s \<in> {RCompleted, RFailed, RCancelled, RRejected, RBudget_exceeded})"

fun step_is_terminal :: "step_state \<Rightarrow> bool" where
  "step_is_terminal s = (s \<in> {SCompleted, SFailed, SCancelled, SSkipped})"

text \<open>\<open>RunState(value)\<close> and \<open>StepState(value)\<close>; \<open>None\<close> is the \<open>ValueError\<close>.\<close>

definition all_run_states :: "run_state list" where
  "all_run_states = [RPending, RRunning, RAwaiting_approval, RCompleted, RFailed, RCancelling,
     RCancelled, RRejected, RBudget_exceeded]"

definition all_step_states :: "step_state list" where
  "all_step_states = [SPending, SReady, SRunning, SAwaiting_approval, SCompleted, SFailed,
     SCancelled, SSkipped]"

definition run_of_value :: "string \<Rightarrow> run_state option" where
  "run_of_value v = find (\<lambda>s. run_value s = v) all_run_states"

definition step_of_value :: "string \<Rightarrow> step_state option" where
  "step_of_value v = find (\<lambda>s. step_value s = v) all_step_states"

lemma run_of_value_value [simp]: "run_of_value (run_value s) = Some s"
  by (cases s) (simp_all add: run_of_value_def all_run_states_def)

lemma step_of_value_value [simp]: "step_of_value (step_value s) = Some s"
  by (cases s) (simp_all add: step_of_value_def all_step_states_def)

lemma step_value_inject [simp]: "step_value a = step_value b \<longleftrightarrow> a = b"
  by (metis option.inject step_of_value_value)

lemma run_value_inject [simp]: "run_value a = run_value b \<longleftrightarrow> a = b"
  by (metis option.inject run_of_value_value)

section \<open>Budgets\<close>

record budget =
  max_tokens :: "int option"
  max_cost :: "rat option"
  used_tokens :: int
  used_cost :: rat

definition remaining_tokens :: "budget \<Rightarrow> int option" where
  "remaining_tokens b = (case max_tokens b of None \<Rightarrow> None | Some m \<Rightarrow> Some (m - used_tokens b))"

definition remaining_cost :: "budget \<Rightarrow> rat option" where
  "remaining_cost b = (case max_cost b of None \<Rightarrow> None | Some m \<Rightarrow> Some (m - used_cost b))"

definition would_exceed :: "budget \<Rightarrow> int \<Rightarrow> rat \<Rightarrow> bool" where
  "would_exceed b tokens cost =
     (if (case max_tokens b of None \<Rightarrow> False | Some m \<Rightarrow> m < used_tokens b + tokens) then True
      else if (case max_cost b of None \<Rightarrow> False | Some m \<Rightarrow> m < used_cost b + cost) then True
      else False)"

text \<open>A charge fits exactly when neither remaining allowance goes below zero.\<close>

lemma would_exceed_iff:
  "\<not> would_exceed b t c \<longleftrightarrow>
    (\<forall>r. remaining_tokens b = Some r \<longrightarrow> t \<le> r) \<and> (\<forall>r. remaining_cost b = Some r \<longrightarrow> c \<le> r)"
  by (auto simp: would_exceed_def remaining_tokens_def remaining_cost_def split: option.splits)

section \<open>Tool scopes\<close>

record tool_scope =
  agent_enabled :: "(string, bool) dict"
  run_enabled :: "(string, bool) dict"

definition is_toolset_enabled :: "tool_scope \<Rightarrow> string \<Rightarrow> bool" where
  "is_toolset_enabled sc t =
     (if map_of (agent_enabled sc) t = Some False then False
      else if map_of (agent_enabled sc) t = Some True then True
      else dict_get_or (run_enabled sc) t False)"

lemma is_toolset_enabled_iff:
  "is_toolset_enabled sc t \<longleftrightarrow>
    map_of (agent_enabled sc) t \<noteq> Some False \<and>
    (map_of (agent_enabled sc) t = Some True \<or> map_of (run_enabled sc) t = Some True)"
  by (auto simp: is_toolset_enabled_def dict_get_or_def split: option.splits)

section \<open>Records passed between the subsystems\<close>

record grant_context =
  grant_id :: string
  session_ref :: string

record tool_spec =
  ts_name :: string
  ts_description :: string
  ts_toolset :: string
  ts_input_schema :: "(string \<times> json) list"
  ts_mutating :: bool

record toolset_spec =
  set_id :: string
  set_name :: string
  set_tools :: "string list"

record tool_result =
  tr_tool_name :: string
  tr_ok :: bool
  tr_output :: "json option"
  tr_error :: "string option"
  tr_denied :: bool
  tr_sandboxed :: bool

record step_result =
  res_step :: string
  res_state :: step_state
  res_output :: "(string \<times> json) list option"
  res_error :: "string option"
  res_tokens :: "int option"

record routing_policy =
  preference :: string
  fallback_order :: "string list"
  max_retries :: int

record model_request =
  messages :: "json list"
  model_hint :: "string option"
  cache_key :: string

record run_scope =
  rs_run_id :: string
  rs_definition_id :: string
  rs_budget :: "budget option"

end
