(* ===== verification/Serializer.thy ===== *)
theory Serializer
  imports Json
begin

text \<open>
  \<open>core/workflow_serializer.py\<close>: the canonical shape of a workflow definition, with every type
  error the code raises as a \<open>SerializationError\<close> carrying its message.
\<close>

datatype serialization_error = SerializationError string

definition type_error :: "string \<Rightarrow> string \<Rightarrow> json \<Rightarrow> serialization_error + 'a" where
  "type_error field want v =
     Inl (SerializationError (''Field '' @ sq field @ '' must be '' @ want @ '', got '' @ type_name v @ ''.''))"

fun as_str :: "json \<Rightarrow> string \<Rightarrow> serialization_error + json" where
  "as_str JNull field = Inr (JStr [])"
| "as_str (JStr s) field = Inr (JStr s)"
| "as_str v field = type_error field ''a string'' v"

fun as_dict :: "json \<Rightarrow> string \<Rightarrow> serialization_error + json" where
  "as_dict JNull field = Inr (JObj [])"
| "as_dict (JObj d) field = Inr (JObj d)"
| "as_dict v field = type_error field ''an object'' v"

definition index_field :: "string \<Rightarrow> nat \<Rightarrow> string" where
  "index_field field i = field @ ''['' @ nat_str i @ '']''"

fun str_item :: "string \<Rightarrow> nat \<Rightarrow> json \<Rightarrow> serialization_error + json" where
  "str_item field i (JStr s) = Inr (JStr s)"
| "str_item field i v = type_error (index_field field i) ''a string'' v"

fun as_str_list :: "json \<Rightarrow> string \<Rightarrow> serialization_error + json" where
  "as_str_list JNull field = Inr (JList [])"
| "as_str_list (JList xs) field =
     rbind (mapiM_r 0 (str_item field) xs) (\<lambda>ys. Inr (JList ys))"
| "as_str_list v field = type_error field ''a list'' v"

definition step_field :: "nat \<Rightarrow> string \<Rightarrow> string" where
  "step_field i name = index_field ''steps'' i @ ''.'' @ name"

fun canonicalize_step :: "nat \<Rightarrow> json \<Rightarrow> serialization_error + json" where
  "canonicalize_step i (JObj step) =
     rbind (as_str (obj_get step ''id'') (step_field i ''id'')) (\<lambda>sid.
     rbind (as_str (obj_get step ''type'') (step_field i ''type'')) (\<lambda>ty.
     rbind (as_dict (obj_get step ''config'') (step_field i ''config'')) (\<lambda>cfg.
     rbind (as_str_list (obj_get step ''dependsOn'') (step_field i ''dependsOn'')) (\<lambda>deps.
       Inr (JObj [(''id'', sid), (''type'', ty), (''config'', cfg), (''dependsOn'', deps)])))))"
| "canonicalize_step i v =
     Inl (SerializationError (''Workflow_Step at index '' @ nat_str i @ '' must be an object, got '' @ type_name v @ ''.''))"

fun canonicalize_steps :: "json \<Rightarrow> serialization_error + json" where
  "canonicalize_steps JNull = Inr (JList [])"
| "canonicalize_steps (JList xs) =
     rbind (mapiM_r 0 canonicalize_step xs) (\<lambda>ys. Inr (JList ys))"
| "canonicalize_steps v =
     Inl (SerializationError (''Workflow_Definition '' @ sq ''steps'' @ '' must be a list, got '' @ type_name v @ ''.''))"

definition default_version :: json where "default_version = JInt 1"

definition canonicalize :: "(string \<times> json) list \<Rightarrow> serialization_error + (string \<times> json) list" where
  "canonicalize d =
     rbind (as_str (obj_get d ''name'') ''name'') (\<lambda>name.
     rbind (as_str (obj_get d ''objective'') ''objective'') (\<lambda>objective.
     rbind (as_dict (obj_get d ''inputs'') ''inputs'') (\<lambda>inputs.
     rbind (canonicalize_steps (obj_get d ''steps'')) (\<lambda>steps.
     rbind (as_dict (obj_get d ''policies'') ''policies'') (\<lambda>policies.
       Inr [(''version'', dict_get_or d ''version'' default_version), (''name'', name),
            (''objective'', objective), (''inputs'', inputs), (''steps'', steps),
            (''policies'', policies)])))))"

section \<open>The canonical shape\<close>

definition is_step_shape :: "json \<Rightarrow> bool" where
  "is_step_shape v = (\<exists>sid typ cfg deps.
     v = JObj [(''id'', JStr sid), (''type'', JStr typ), (''config'', JObj cfg),
               (''dependsOn'', JList (map JStr deps))])"

definition is_canonical :: "(string \<times> json) list \<Rightarrow> bool" where
  "is_canonical d = (\<exists>ver name obj inp steps pol.
     d = [(''version'', ver), (''name'', JStr name), (''objective'', JStr obj), (''inputs'', JObj inp),
          (''steps'', JList steps), (''policies'', JObj pol)] \<and> (\<forall>s \<in> set steps. is_step_shape s))"

lemma as_str_Inr: "as_str v f = Inr r \<Longrightarrow> \<exists>s. r = JStr s"
  by (cases v) (auto simp: type_error_def)

lemma as_dict_Inr: "as_dict v f = Inr r \<Longrightarrow> \<exists>s. r = JObj s"
  by (cases v) (auto simp: type_error_def)

lemma str_item_Inr: "str_item f i v = Inr r \<Longrightarrow> r = v \<and> (\<exists>s. v = JStr s)"
  by (cases v) (auto simp: type_error_def)

lemma str_items_Inr: "mapiM_r i (str_item f) xs = Inr ys \<Longrightarrow> ys = xs \<and> (\<exists>ss. xs = map JStr ss)"
proof (induction xs arbitrary: i ys)
  case (Cons x xs)
  then obtain z zs where z: "str_item f i x = Inr z" "mapiM_r (Suc i) (str_item f) xs = Inr zs" "ys = z # zs"
    by (auto split: sum.splits)
  obtain s ss where "x = JStr s" "z = x" "xs = map JStr ss" "zs = xs"
    using str_item_Inr[OF z(1)] Cons.IH[OF z(2)] by auto
  then have "ys = x # xs \<and> x # xs = map JStr (s # ss)" using z(3) by simp
  then show ?case by metis
qed simp

lemma as_str_list_Inr: "as_str_list v f = Inr r \<Longrightarrow> \<exists>ss. r = JList (map JStr ss)"
  by (cases v) (auto simp: type_error_def rbind_Inr_iff dest!: str_items_Inr)

lemma canonicalize_step_Inr:
  assumes "canonicalize_step i v = Inr r"
  shows "is_step_shape r"
proof -
  obtain step sid ty cfg deps where
    "as_str (obj_get step ''id'') (step_field i ''id'') = Inr sid"
    "as_str (obj_get step ''type'') (step_field i ''type'') = Inr ty"
    "as_dict (obj_get step ''config'') (step_field i ''config'') = Inr cfg"
    "as_str_list (obj_get step ''dependsOn'') (step_field i ''dependsOn'') = Inr deps"
    "r = JObj [(''id'', sid), (''type'', ty), (''config'', cfg), (''dependsOn'', deps)]"
    using assms by (cases v) (auto simp: rbind_Inr_iff)
  then show ?thesis unfolding is_step_shape_def
    using as_str_Inr as_dict_Inr as_str_list_Inr by metis
qed

lemma canonicalize_steps_Inr:
  "canonicalize_steps v = Inr r \<Longrightarrow> \<exists>ss. r = JList ss \<and> (\<forall>s \<in> set ss. is_step_shape s)"
  by (cases v) (auto simp: rbind_Inr_iff dest: mapiM_r_all[where P = is_step_shape, rotated] canonicalize_step_Inr)

lemma canonicalize_shape: "canonicalize d = Inr c \<Longrightarrow> is_canonical c"
  by (fastforce simp: canonicalize_def is_canonical_def rbind_Inr_iff
      dest: as_str_Inr as_dict_Inr canonicalize_steps_Inr)

lemma str_items_id: "mapiM_r i (str_item f) (map JStr ss) = Inr (map JStr ss)"
  by (rule mapiM_r_id) auto

lemma canonicalize_step_id: "is_step_shape s \<Longrightarrow> canonicalize_step i s = Inr s"
  by (auto simp: is_step_shape_def dict_simps str_items_id)

lemma canonicalize_steps_id:
  "\<forall>s \<in> set ss. is_step_shape s \<Longrightarrow> canonicalize_steps (JList ss) = Inr (JList ss)"
  using mapiM_r_id[of ss canonicalize_step 0] canonicalize_step_id by simp

lemma canonical_fixed: "is_canonical c \<Longrightarrow> canonicalize c = Inr c"
  by (auto simp: is_canonical_def canonicalize_def dict_simps canonicalize_steps_id
      dict_get_or_def simp del: canonicalize_steps.simps)

text \<open>Normalising is idempotent: a canonical definition is left as it is.\<close>

lemma canonicalize_idem: "canonicalize d = Inr c \<Longrightarrow> canonicalize c = Inr c"
  by (intro canonical_fixed canonicalize_shape)

text \<open>Only the six top-level keys matter.\<close>

definition top_level_keys :: "string list" where
  "top_level_keys = [''version'', ''name'', ''objective'', ''inputs'', ''steps'', ''policies'']"

lemma canonicalize_cong:
  assumes "\<And>k. k \<in> set top_level_keys \<Longrightarrow> map_of d k = map_of e k"
  shows "canonicalize d = canonicalize e"
proof -
  have "obj_get d k = obj_get e k" if "k \<in> set top_level_keys" for k
    using assms[OF that] by (simp add: obj_get_def)
  then have eqs: "obj_get d ''name'' = obj_get e ''name''" "obj_get d ''objective'' = obj_get e ''objective''"
    "obj_get d ''inputs'' = obj_get e ''inputs''" "obj_get d ''steps'' = obj_get e ''steps''"
    "obj_get d ''policies'' = obj_get e ''policies''"
    by (simp_all add: top_level_keys_def)
  have ver: "map_of d ''version'' = map_of e ''version''"
    using assms by (simp add: top_level_keys_def)
  show ?thesis unfolding canonicalize_def dict_get_or_def eqs ver ..
qed

end
