(* ===== verification/Events.thy ===== *)
theory Events
  imports Json
begin

text \<open>
  \<open>core/event_router.py\<close>: redaction of secrets, the log of workflow events with its per-run
  sequence numbers, and the normalization of kernel events; \<open>cp/events.py\<close>: the router of kernel
  events in front of it. The set of known secrets is a list in the order the set is iterated in; the
  theorems hold for every order.
\<close>

section \<open>Redaction\<close>

definition redacted :: string where "redacted = ''[REDACTED]''"

definition sensitive_key_substrings :: "string list" where
  "sensitive_key_substrings = [''secret'', ''password'', ''passwd'', ''token'', ''api_key'', ''apikey'',
     ''api-key'', ''access_key'', ''secret_key'', ''private_key'', ''client_secret'', ''credential'',
     ''authorization'', ''bearer'']"

definition grant_reference_keys :: "string list" where
  "grant_reference_keys = [''grant_id'', ''session_ref'', ''grant_ref'', ''kernel_snapshot_ref'']"

definition is_sensitive_key :: "string \<Rightarrow> bool" where
  "is_sensitive_key key =
     (let lowered = str_lower key in
      if lowered \<in> set grant_reference_keys then False
      else list_ex (\<lambda>token. str_contains token lowered) sensitive_key_substrings)"

fun scrub_known_secrets :: "string \<Rightarrow> string list \<Rightarrow> string" where
  "scrub_known_secrets t [] = t"
| "scrub_known_secrets t (s # ss) =
     scrub_known_secrets (if s \<noteq> [] \<and> str_contains s t then str_replace s redacted t else t) ss"

fun redact_secrets :: "string list \<Rightarrow> json \<Rightarrow> json" where
  "redact_secrets ss (JObj d) =
     JObj (map (\<lambda>(k, v). (k, if is_sensitive_key k then JStr redacted else redact_secrets ss v)) d)"
| "redact_secrets ss (JList xs) = JList (map (redact_secrets ss) xs)"
| "redact_secrets ss (JStr t) = JStr (scrub_known_secrets t (filter (\<lambda>s. s \<noteq> []) ss))"
| "redact_secrets ss v = v"

definition redact_payload :: "string list \<Rightarrow> (string \<times> json) list \<Rightarrow> (string \<times> json) list" where
  "redact_payload ss p = (case redact_secrets ss (JObj p) of JObj d \<Rightarrow> d | _ \<Rightarrow> [])"

lemma redact_payload_obj: "JObj (redact_payload ss p) = redact_secrets ss (JObj p)"
  by (simp add: redact_payload_def)

subsection \<open>No known secret survives in a string\<close>

text \<open>
  A secret that meets the placeholder only whole: no bracket and not a part of the word between
  the brackets. Then replacing one secret cannot bring another one back.
\<close>

definition plain_secret :: "string \<Rightarrow> bool" where
  "plain_secret s \<longleftrightarrow> s \<noteq> [] \<and> CHR ''['' \<notin> set s \<and> CHR '']'' \<notin> set s \<and> \<not> str_contains s ''REDACTED''"

lemma contains_sep:
  assumes "c \<notin> set s" "s \<noteq> []"
  shows "str_contains s (a @ c # b) \<longleftrightarrow> str_contains s a \<or> str_contains s b"
proof
  assume "str_contains s (a @ c # b)"
  then obtain u v where eq: "a @ c # b = u @ s @ v" by (auto simp: str_contains_iff)
  then obtain w where "(a = u @ w \<and> w @ c # b = s @ v) \<or> (a @ w = u \<and> c # b = w @ s @ v)"
    by (auto simp: append_eq_append_conv2)
  then show "str_contains s a \<or> str_contains s b"
  proof
    assume h: "a = u @ w \<and> w @ c # b = s @ v"
    then obtain z where "(w = s @ z \<and> z @ c # b = v) \<or> (w @ z = s \<and> c # b = z @ v)"
      by (auto simp: append_eq_append_conv2)
    then show ?thesis
    proof
      assume "w = s @ z \<and> z @ c # b = v"
      then show ?thesis using h unfolding str_contains_iff by blast
    next
      assume z: "w @ z = s \<and> c # b = z @ v"
      then have "z = []" using assms(1) by (cases z) auto
      then have "w = s" using z by simp
      then show ?thesis using h by (metis append_Nil2 str_contains_iff)
    qed
  next
    assume h: "a @ w = u \<and> c # b = w @ s @ v"
    show ?thesis
    proof (cases w)
      case Nil
      then show ?thesis using h assms by (cases s) auto
    next
      case (Cons x xs)
      then show ?thesis using h unfolding str_contains_iff by auto
    qed
  qed
next
  assume "str_contains s a \<or> str_contains s b"
  then show "str_contains s (a @ c # b)"
    unfolding str_contains_iff by (metis append.assoc append_Cons)
qed

lemma contains_redacted:
  assumes "plain_secret s"
  shows "str_contains s (redacted @ b) \<longleftrightarrow> str_contains s b"
proof -
  have r: "redacted @ b = [] @ CHR ''['' # (''REDACTED'' @ CHR '']'' # b)" by (simp add: redacted_def)
  have "\<not> str_contains s []" using assms by (simp add: plain_secret_def)
  then show ?thesis unfolding r
    using contains_sep[of "CHR ''[''" s "[]"] contains_sep[of "CHR '']''" s "''REDACTED''" b] assms
    unfolding plain_secret_def by blast
qed

lemma prefix_replaced:
  "CHR ''['' \<notin> set s \<Longrightarrow> str_prefix s (str_replace t redacted x) \<Longrightarrow> str_prefix s x"
proof (induction s arbitrary: x)
  case (Cons d ds)
  show ?case
  proof (cases x)
    case Nil
    then show ?thesis using Cons.prems(2) by (simp add: str_replace.simps split: if_splits)
  next
    case (Cons c cs)
    then show ?thesis using Cons.prems Cons.IH[of cs]
      by (subst (asm) str_replace.simps) (auto simp: redacted_def split: if_splits)
  qed
qed simp

lemma contains_drop: "str_contains s (drop n x) \<Longrightarrow> str_contains s x"
  unfolding str_contains_iff by (metis append.assoc append_take_drop_id)

lemma replace_Cons:
  "t \<noteq> [] \<Longrightarrow> str_replace t new (c # cs) =
    (if str_prefix t (c # cs) then new @ str_replace t new (drop (length t) (c # cs))
     else c # str_replace t new cs)"
  by (subst str_replace.simps) simp

lemma replace_Nil [simp]: "str_replace t new [] = []"
  by (subst str_replace.simps) simp

lemma replace_no_new:
  assumes "plain_secret s" "t \<noteq> []"
  shows "str_contains s (str_replace t redacted x) \<Longrightarrow> str_contains s x"
proof (induction "length x" arbitrary: x rule: less_induct)
  case less
  show ?case
  proof (cases x)
    case Nil
    then show ?thesis using less.prems by simp
  next
    case (Cons c cs)
    show ?thesis
    proof (cases "str_prefix t x")
      case True
      have "str_contains s (str_replace t redacted (drop (length t) x))"
        using less.prems True Cons assms contains_redacted[OF assms(1)] by (simp add: replace_Cons)
      then have "str_contains s (drop (length t) x)"
        using less.hyps[of "drop (length t) x"] Cons assms(2) by simp
      then show ?thesis by (rule contains_drop)
    next
      case False
      then have "str_prefix s (c # str_replace t redacted cs) \<or> str_contains s (str_replace t redacted cs)"
        using less.prems Cons assms(2) by (simp add: replace_Cons)
      then show ?thesis
      proof
        assume p: "str_prefix s (c # str_replace t redacted cs)"
        obtain d ds where s: "s = d # ds" using assms(1) by (cases s) (auto simp: plain_secret_def)
        have "str_prefix ds cs"
          using p s assms(1) prefix_replaced[of ds t cs] by (auto simp: plain_secret_def)
        then show ?thesis using p s Cons by simp
      next
        assume "str_contains s (str_replace t redacted cs)"
        then show ?thesis using less.hyps[of cs] Cons by simp
      qed
    qed
  qed
qed

lemma replace_removes:
  assumes "plain_secret s"
  shows "\<not> str_contains s (str_replace s redacted x)"
proof (induction "length x" arbitrary: x rule: less_induct)
  case less
  have ne: "s \<noteq> []" using assms by (simp add: plain_secret_def)
  show ?case
  proof (cases x)
    case Nil
    then show ?thesis using ne by simp
  next
    case (Cons c cs)
    show ?thesis
    proof (cases "str_prefix s x")
      case True
      have "\<not> str_contains s (str_replace s redacted (drop (length s) x))"
        using less[of "drop (length s) x"] Cons ne by simp
      then show ?thesis using True Cons ne contains_redacted[OF assms] by (simp add: replace_Cons)
    next
      case False
      have "\<not> str_prefix s (c # str_replace s redacted cs)"
      proof
        assume p: "str_prefix s (c # str_replace s redacted cs)"
        obtain d ds where s: "s = d # ds" using ne by (cases s) auto
        have "str_prefix ds cs" using p s assms prefix_replaced[of ds s cs] by (auto simp: plain_secret_def)
        then show False using False p s Cons by simp
      qed
      moreover have "\<not> str_contains s (str_replace s redacted cs)" using less[of cs] Cons by simp
      ultimately show ?thesis using False Cons ne by (simp add: replace_Cons)
    qed
  qed
qed

lemma scrub_keeps_absent:
  "plain_secret s \<Longrightarrow> \<not> str_contains s t \<Longrightarrow> \<not> str_contains s (scrub_known_secrets t ss)"
  by (induction ss arbitrary: t) (auto dest: replace_no_new)

lemma scrub_removes:
  "plain_secret s \<Longrightarrow> s \<in> set ss \<Longrightarrow> \<not> str_contains s (scrub_known_secrets t ss)"
proof (induction ss arbitrary: t)
  case (Cons a ss)
  show ?case
  proof (cases "s = a")
    case True
    have ne: "s \<noteq> []" using Cons.prems(1) by (simp add: plain_secret_def)
    let ?t = "if a \<noteq> [] \<and> str_contains a t then str_replace a redacted t else t"
    have "\<not> str_contains s ?t" using True ne replace_removes[OF Cons.prems(1)] by simp
    then have "\<not> str_contains s (scrub_known_secrets ?t ss)" by (rule scrub_keeps_absent[OF Cons.prems(1)])
    then show ?thesis by simp
  next
    case False
    then show ?thesis using Cons by simp
  qed
qed simp

lemma scrub_clean: "(\<forall>s \<in> set ss. \<not> str_contains s t) \<Longrightarrow> scrub_known_secrets t ss = t"
  by (induction ss) auto

subsection \<open>What a redacted payload shows\<close>

fun string_leaves :: "json \<Rightarrow> string list" where
  "string_leaves (JObj d) = concat (map (\<lambda>(k, v). string_leaves v) d)"
| "string_leaves (JList xs) = concat (map string_leaves xs)"
| "string_leaves (JStr s) = [s]"
| "string_leaves v = []"

lemma contains_redacted_not: "plain_secret s \<Longrightarrow> \<not> str_contains s redacted"
  using contains_redacted[of s "[]"] by (simp add: plain_secret_def)

lemma redact_removes:
  "plain_secret s \<Longrightarrow> s \<in> set ss \<Longrightarrow> t \<in> set (string_leaves (redact_secrets ss v)) \<Longrightarrow> \<not> str_contains s t"
proof (induction ss v rule: redact_secrets.induct)
  case (1 ss d)
  then obtain k v where kv: "(k, v) \<in> set d"
    "t \<in> set (string_leaves (if is_sensitive_key k then JStr redacted else redact_secrets ss v))"
    by auto
  then show ?case using 1 contains_redacted_not[OF 1(2)] by (cases "is_sensitive_key k") auto
next
  case (3 ss t)
  have "s \<in> set (filter (\<lambda>s. s \<noteq> []) ss)" using 3 by (simp add: plain_secret_def)
  then show ?case using 3 scrub_removes[of s "filter (\<lambda>s. s \<noteq> []) ss"] by simp
qed auto

fun sensitive_hidden :: "json \<Rightarrow> bool" where
  "sensitive_hidden (JObj d) =
     (\<forall>p \<in> set d. (if is_sensitive_key (fst p) then snd p = JStr redacted else sensitive_hidden (snd p)))"
| "sensitive_hidden (JList xs) = (\<forall>x \<in> set xs. sensitive_hidden x)"
| "sensitive_hidden v = True"

lemma redact_hides: "sensitive_hidden (redact_secrets ss v)"
  by (induction ss v rule: redact_secrets.induct) auto

text \<open>Values without a sensitive key and without a known secret pass unchanged.\<close>

fun innocuous :: "string list \<Rightarrow> json \<Rightarrow> bool" where
  "innocuous ss (JObj d) = (\<forall>p \<in> set d. \<not> is_sensitive_key (fst p) \<and> innocuous ss (snd p))"
| "innocuous ss (JList xs) = (\<forall>x \<in> set xs. innocuous ss x)"
| "innocuous ss (JStr t) = (\<forall>s \<in> set ss. s = [] \<or> \<not> str_contains s t)"
| "innocuous ss v = True"

lemma redact_innocuous: "innocuous ss v \<Longrightarrow> redact_secrets ss v = v"
proof (induction ss v rule: redact_secrets.induct)
  case (1 ss d)
  have "map (\<lambda>(k, v). (k, if is_sensitive_key k then JStr redacted else redact_secrets ss v)) d = d"
    by (rule map_idI) (use 1 in auto)
  then show ?case by simp
next
  case (2 ss xs)
  then show ?case by (simp add: map_idI)
next
  case (3 ss t)
  then have "\<forall>s \<in> set (filter (\<lambda>s. s \<noteq> []) ss). \<not> str_contains s t" by auto
  then show ?case by (simp add: scrub_clean)
qed auto

lemma redact_json_ok: "json_ok v \<Longrightarrow> json_ok (redact_secrets ss v)"
proof (induction ss v rule: redact_secrets.induct)
  case (1 ss d)
  have "map fst (map (\<lambda>(k, v). (k, if is_sensitive_key k then JStr redacted else redact_secrets ss v)) d) = map fst d"
    by auto
  then have "distinct (map fst (map (\<lambda>(k, v). (k, if is_sensitive_key k then JStr redacted else redact_secrets ss v)) d))"
    using 1 by (metis json_ok.simps(2))
  then show ?case using 1 by (auto simp del: map_map)
qed auto

section \<open>The log\<close>

record wf_event =
  ev_run :: string
  ev_seq :: nat
  ev_type :: string
  ev_step :: "string option"
  ev_message :: string
  ev_payload :: "(string \<times> json) list"
  ev_created :: string

record event_store =
  known_secrets :: "string list"
  event_log :: "wf_event list"

datatype event_error = No_run_id

definition register_secret :: "string \<Rightarrow> event_store \<Rightarrow> event_store" where
  "register_secret s st =
     (if s \<noteq> [] then st\<lparr>known_secrets := List.insert s (known_secrets st)\<rparr> else st)"

definition next_seq :: "event_store \<Rightarrow> string \<Rightarrow> nat" where
  "next_seq st r = Max (insert 0 (ev_seq ` set (filter (\<lambda>e. ev_run e = r) (event_log st)))) + 1"

text \<open>\<open>ts\<close> is \<open>now_iso()\<close>; \<open>None\<close> and the empty payload are the same payload.\<close>

definition emit ::
  "string \<Rightarrow> string \<Rightarrow> string \<Rightarrow> string \<Rightarrow> string option \<Rightarrow> (string \<times> json) list \<Rightarrow> event_store \<Rightarrow>
    event_error + (wf_event \<times> event_store)" where
  "emit ts r ty msg step p st =
     (if r = [] then Inl No_run_id
      else let e = \<lparr>ev_run = r, ev_seq = next_seq st r, ev_type = ty, ev_step = step, ev_message = msg,
                    ev_payload = redact_payload (known_secrets st) p, ev_created = ts\<rparr>
           in Inr (e, st\<lparr>event_log := event_log st @ [e]\<rparr>))"

definition history :: "event_store \<Rightarrow> string \<Rightarrow> wf_event list" where
  "history st r = sort_key ev_seq (filter (\<lambda>e. ev_run e = r) (event_log st))"

text \<open>Every run's events carry the numbers 1, 2, 3, ... in the order they were emitted.\<close>

definition log_ok :: "event_store \<Rightarrow> bool" where
  "log_ok st \<longleftrightarrow> (\<forall>r. map ev_seq (filter (\<lambda>e. ev_run e = r) (event_log st)) =
     [1 ..< Suc (length (filter (\<lambda>e. ev_run e = r) (event_log st)))]) \<and>
     (\<forall>e \<in> set (event_log st). ev_run e \<noteq> [])"

definition empty_store :: event_store where
  "empty_store = \<lparr>known_secrets = [], event_log = []\<rparr>"

lemma log_ok_empty: "log_ok empty_store"
  by (simp add: log_ok_def empty_store_def)

lemma next_seq_length:
  assumes "log_ok st"
  shows "next_seq st r = Suc (length (filter (\<lambda>e. ev_run e = r) (event_log st)))"
proof -
  let ?es = "filter (\<lambda>e. ev_run e = r) (event_log st)"
  have "ev_seq ` set ?es = {1 ..< Suc (length ?es)}"
    using assms unfolding log_ok_def by (metis atLeastLessThan_upt set_map)
  moreover have "Max (insert 0 {1 ..< Suc n}) = n" for n :: nat
    by (rule Max_eqI) auto
  ultimately show ?thesis by (simp add: next_seq_def)
qed

lemma history_log: "log_ok st \<Longrightarrow> history st r = filter (\<lambda>e. ev_run e = r) (event_log st)"
  unfolding history_def log_ok_def
  by (rule sort_key_id_if_sorted) (metis sorted_upt)

lemma emit_log_ok:
  assumes "log_ok st" "emit ts r ty msg step p st = Inr (e, st')"
  shows "log_ok st'"
proof -
  have ne: "r \<noteq> []" using assms(2) by (auto simp: emit_def)
  have st': "event_log st' = event_log st @ [e]" and e: "ev_run e = r" "ev_seq e = next_seq st r"
    using assms(2) ne by (auto simp: emit_def Let_def)
  have "map ev_seq (filter (\<lambda>e. ev_run e = q) (event_log st')) =
      [1 ..< Suc (length (filter (\<lambda>e. ev_run e = q) (event_log st')))]" for q
  proof (cases "q = r")
    case True
    then show ?thesis using assms(1) e st' next_seq_length[OF assms(1), of r]
      by (simp add: log_ok_def)
  next
    case False
    then show ?thesis using assms(1) e(1) st' by (simp add: log_ok_def)
  qed
  moreover have "\<forall>e \<in> set (event_log st'). ev_run e \<noteq> []"
    using assms(1) st' e(1) ne by (simp add: log_ok_def)
  ultimately show ?thesis by (simp add: log_ok_def)
qed

lemma emit_history:
  assumes "log_ok st" "emit ts r ty msg step p st = Inr (e, st')"
  shows "history st' q = (if q = r then history st q @ [e] else history st q)"
proof -
  have "r \<noteq> []" using assms(2) by (auto simp: emit_def)
  then have "event_log st' = event_log st @ [e]" "ev_run e = r"
    using assms(2) by (auto simp: emit_def Let_def)
  then show ?thesis
    by (simp add: history_log[OF assms(1)] history_log[OF emit_log_ok[OF assms]])
qed

section \<open>Kernel events\<close>

record kernel_event =
  ke_id :: string
  ke_type :: string
  ke_resource_type :: string
  ke_resource_id :: string
  ke_status :: string
  ke_message :: string
  ke_time :: int
  ke_attributes :: "(string, string) dict"

text \<open>\<open>a or b\<close> on strings read with \<open>.get\<close>: the first that is not absent and not empty.\<close>

fun first_text :: "string option list \<Rightarrow> string" where
  "first_text [] = []"
| "first_text (x # xs) = (case x of None \<Rightarrow> first_text xs | Some s \<Rightarrow> if s = [] then first_text xs else s)"

definition kernel_payload :: "kernel_event \<Rightarrow> (string \<times> json) list" where
  "kernel_payload k =
     [(''kernel_event_type'', JStr (ke_type k)), (''resource_type'', JStr (ke_resource_type k)),
      (''resource_id'', JStr (ke_resource_id k)), (''status'', JStr (ke_status k)),
      (''attributes'', JObj (map (\<lambda>(a, v). (a, JStr v)) (ke_attributes k)))]"

definition normalize_kernel_event ::
  "string \<Rightarrow> kernel_event \<Rightarrow> string option \<Rightarrow> event_store \<Rightarrow> (wf_event \<times> event_store) option" where
  "normalize_kernel_event ts k run st =
     (let ats = ke_attributes k;
          r = first_text [run, map_of ats ''run_id'', map_of ats ''workflow_run_id''];
          step = first_text [map_of ats ''step_id'']
      in if r = [] then None
         else (case emit ts r ''kernel.event''
                 (first_text [Some (ke_message k), Some (ke_type k), Some ''kernel event''])
                 (if step = [] then None else Some step) (kernel_payload k) st of
                Inl _ \<Rightarrow> None | Inr es \<Rightarrow> Some es))"

text \<open>
  \<open>KernelEventRouter\<close>: the last \<open>max_events\<close> records, the reasons the window was opened with, and
  the workflow events behind it (\<open>None\<close> without an event router).
\<close>

record kernel_router =
  kr_max :: nat
  kr_recent :: "kernel_event list"
  kr_opened :: "string list"
  kr_store :: "event_store option"

definition push_recent :: "nat \<Rightarrow> 'a list \<Rightarrow> 'a \<Rightarrow> 'a list" where
  "push_recent n xs x = (let ys = xs @ [x] in drop (length ys - n) ys)"

definition handle_proto_event :: "string \<Rightarrow> kernel_event \<Rightarrow> kernel_router \<Rightarrow> kernel_router" where
  "handle_proto_event ts k kr =
     kr\<lparr>kr_recent := push_recent (kr_max kr) (kr_recent kr) k,
        kr_opened := (if ke_type k = ''control_plane.open_ui_requested''
           then kr_opened kr @ [first_text [map_of (ke_attributes k) ''reason'', Some (ke_message k),
                  Some ''kernel open-ui request'']]
           else kr_opened kr),
        kr_store := (case kr_store kr of None \<Rightarrow> None
           | Some st \<Rightarrow> (case normalize_kernel_event ts k None st of
               None \<Rightarrow> Some st | Some (_, st') \<Rightarrow> Some st'))\<rparr>"

definition handle_orchestration_event ::
  "string \<Rightarrow> string \<Rightarrow> string \<Rightarrow> string \<Rightarrow> string option \<Rightarrow> (string \<times> json) list \<Rightarrow> kernel_router \<Rightarrow>
    event_error + (wf_event option \<times> kernel_router)" where
  "handle_orchestration_event ts r ty msg step p kr =
     (case kr_store kr of None \<Rightarrow> Inr (None, kr)
      | Some st \<Rightarrow> rbind (emit ts r ty msg step p st) (\<lambda>(e, st'). Inr (Some e, kr\<lparr>kr_store := Some st'\<rparr>)))"

lemma push_recent_length: "length xs \<le> n \<Longrightarrow> length (push_recent n xs x) \<le> n"
  by (simp add: push_recent_def)

lemma push_recent_suffix: "\<exists>k. push_recent n xs x = drop k (xs @ [x])"
  unfolding push_recent_def Let_def by blast

lemma first_text_nonempty: "first_text xs \<noteq> [] \<longleftrightarrow> (\<exists>s. Some s \<in> set xs \<and> s \<noteq> [])"
  by (induction xs rule: first_text.induct) (auto split: option.split)

lemma normalize_None_iff:
  "normalize_kernel_event ts k run st = None \<longleftrightarrow>
     first_text [run, map_of (ke_attributes k) ''run_id'', map_of (ke_attributes k) ''workflow_run_id''] = []"
  unfolding normalize_kernel_event_def Let_def emit_def by simp

section \<open>The log as an interface\<close>

text \<open>
  What the executor and the approval manager rely on: an accepted event is the last of its run's
  history, the other histories stay, and a run id that is not empty is always accepted.
\<close>

locale run_log =
  fixes record_event :: "string \<Rightarrow> 'e \<Rightarrow> 's \<Rightarrow> 's option"
    and read_log :: "'s \<Rightarrow> string \<Rightarrow> 'w list"
    and fits :: "string \<Rightarrow> 'e \<Rightarrow> 'w \<Rightarrow> bool"
    and good :: "'s \<Rightarrow> bool"
  assumes record_total: "r \<noteq> [] \<Longrightarrow> record_event r e st \<noteq> None"
    and record_good: "good st \<Longrightarrow> record_event r e st = Some st' \<Longrightarrow> good st'"
    and record_read: "good st \<Longrightarrow> record_event r e st = Some st' \<Longrightarrow>
      \<exists>w. fits r e w \<and> read_log st' q = (if q = r then read_log st q @ [w] else read_log st q)"
begin

fun record_all :: "string \<Rightarrow> 'e list \<Rightarrow> 's \<Rightarrow> 's option" where
  "record_all r [] st = Some st"
| "record_all r (e # es) st = (case record_event r e st of None \<Rightarrow> None | Some st' \<Rightarrow> record_all r es st')"

lemma record_all_total: "r \<noteq> [] \<Longrightarrow> \<exists>st'. record_all r es st = Some st'"
proof (induction es arbitrary: st)
  case (Cons e es)
  then show ?case using record_total[of r e st] by (cases "record_event r e st") auto
qed simp

lemma record_all_good: "good st \<Longrightarrow> record_all r es st = Some st' \<Longrightarrow> good st'"
  by (induction es arbitrary: st) (auto split: option.splits intro: record_good)

lemma record_all_read:
  "good st \<Longrightarrow> record_all r es st = Some st' \<Longrightarrow>
    \<exists>ws. list_all2 (fits r) es ws \<and> read_log st' r = read_log st r @ ws"
proof (induction es arbitrary: st)
  case (Cons e es)
  then obtain st1 where st1: "record_event r e st = Some st1" "record_all r es st1 = Some st'"
    by (auto split: option.splits)
  obtain w where w: "fits r e w" "read_log st1 r = read_log st r @ [w]"
    using record_read[OF Cons.prems(1) st1(1), of r] by auto
  obtain ws where "list_all2 (fits r) es ws" "read_log st' r = read_log st1 r @ ws"
    using Cons.IH[OF record_good[OF Cons.prems(1) st1(1)] st1(2)] by blast
  then show ?case using w by (intro exI[of _ "w # ws"]) simp
qed simp

lemma record_all_other:
  "good st \<Longrightarrow> record_all r es st = Some st' \<Longrightarrow> q \<noteq> r \<Longrightarrow> read_log st' q = read_log st q"
proof (induction es arbitrary: st)
  case (Cons e es)
  then obtain st1 where st1: "record_event r e st = Some st1" "record_all r es st1 = Some st'"
    by (auto split: option.splits)
  have "read_log st1 q = read_log st q" using record_read[OF Cons.prems(1) st1(1), of q] Cons.prems(3) by auto
  then show ?case using Cons.IH[OF record_good[OF Cons.prems(1) st1(1)] st1(2) Cons.prems(3)] by simp
qed simp

end

text \<open>One event to write: its type, message, step, payload and the time of writing.\<close>

record event_input =
  in_type :: string
  in_message :: string
  in_step :: "string option"
  in_payload :: "(string \<times> json) list"
  in_now :: string

definition put_event :: "string \<Rightarrow> event_input \<Rightarrow> event_store \<Rightarrow> event_store option" where
  "put_event r i st =
     (case emit (in_now i) r (in_type i) (in_message i) (in_step i) (in_payload i) st of
        Inl _ \<Rightarrow> None | Inr (_, st') \<Rightarrow> Some st')"

definition event_fits :: "string \<Rightarrow> event_input \<Rightarrow> wf_event \<Rightarrow> bool" where
  "event_fits r i e \<longleftrightarrow> ev_run e = r \<and> ev_type e = in_type i \<and> ev_message e = in_message i \<and>
     ev_step e = in_step i \<and> sensitive_hidden (JObj (ev_payload e))"

lemma put_event_emit:
  "put_event r i st = Some st' \<longleftrightarrow>
    (\<exists>e. emit (in_now i) r (in_type i) (in_message i) (in_step i) (in_payload i) st = Inr (e, st'))"
  by (auto simp: put_event_def split: sum.splits)

lemma emit_fits:
  "emit (in_now i) r (in_type i) (in_message i) (in_step i) (in_payload i) st = Inr (e, st') \<Longrightarrow>
    event_fits r i e"
  using redact_hides[of "known_secrets st" "JObj (in_payload i)"]
  by (auto simp: emit_def event_fits_def Let_def redact_payload_obj[symmetric] simp del: redact_secrets.simps
      split: if_splits)

interpretation wlog: run_log put_event history event_fits log_ok
proof
  show "put_event r i st \<noteq> None" if "r \<noteq> []" for r i st
    using that by (simp add: put_event_def emit_def Let_def)
  show "log_ok st'" if "log_ok st" "put_event r i st = Some st'" for r i st st'
    using that emit_log_ok by (auto simp: put_event_emit)
  show "\<exists>w. event_fits r i w \<and> history st' q = (if q = r then history st q @ [w] else history st q)"
    if ok: "log_ok st" and put: "put_event r i st = Some st'" for r i st st' q
  proof -
    obtain e where e: "emit (in_now i) r (in_type i) (in_message i) (in_step i) (in_payload i) st = Inr (e, st')"
      using put by (auto simp: put_event_emit)
    show ?thesis using emit_fits[OF e] emit_history[OF ok e, of q] by blast
  qed
qed

end
