(* ===== verification/Workflow_DB.thy ===== *)
theory Workflow_DB
  imports Dag_Layers Orch_Types Serializer Events
begin

text \<open>
  The tables of \<open>core/database.py\<close> that hold workflow runs, and the statements on them of
  \<open>core/dag_executor.py\<close> and \<open>core/approval_manager.py\<close>: the loaders and the updates. A table is
  a dictionary by its primary key, in insertion order. A column of JSON text holds the value the
  text stands for; a state column holds the enumeration member. \<open>db_now\<close> is \<open>now_iso()\<close>.
\<close>

section \<open>Tables\<close>

record run_row =
  rr_definition :: string
  rr_state :: run_state
  rr_limit :: int
  rr_created :: string
  rr_started :: "string option"
  rr_finished :: "string option"

record step_row =
  sr_type :: string
  sr_state :: step_state
  sr_deps :: "string list"
  sr_config :: "(string \<times> json) list"
  sr_output :: "json option"
  sr_error :: "string option"
  sr_started :: "string option"
  sr_finished :: "string option"

record wf_db =
  db_definitions :: "(string, (string \<times> json) list) dict"
  db_runs :: "(string, run_row) dict"
  db_steps :: "(string \<times> string, step_row) dict"
  db_events :: event_store
  db_now :: string

section \<open>Statements\<close>

text \<open>\<open>UPDATE ... WHERE ...\<close>: every row that meets the condition is changed in its place.\<close>

definition update_where :: "('k \<Rightarrow> 'v \<Rightarrow> bool) \<Rightarrow> ('v \<Rightarrow> 'v) \<Rightarrow> ('k, 'v) dict \<Rightarrow> ('k, 'v) dict" where
  "update_where P f t = map (\<lambda>(k, v). (k, if P k v then f v else v)) t"

lemma update_where_keys [simp]: "map fst (update_where P f t) = map fst t"
  by (simp add: update_where_def split_beta comp_def)

lemma update_where_get [dict_simps]:
  "map_of (update_where P f t) k = map_option (\<lambda>v. if P k v then f v else v) (map_of t k)"
  by (induction t) (auto simp: update_where_def)

definition update_step :: "string \<Rightarrow> string \<Rightarrow> (step_row \<Rightarrow> step_row) \<Rightarrow> wf_db \<Rightarrow> wf_db" where
  "update_step r s f db = db\<lparr>db_steps := update_where (\<lambda>k _. k = (r, s)) f (db_steps db)\<rparr>"

definition update_run :: "string \<Rightarrow> (run_row \<Rightarrow> run_row) \<Rightarrow> wf_db \<Rightarrow> wf_db" where
  "update_run r f db = db\<lparr>db_runs := update_where (\<lambda>k _. k = r) f (db_runs db)\<rparr>"

section \<open>Loaders\<close>

definition load_run :: "wf_db \<Rightarrow> string \<Rightarrow> run_row option" where
  "load_run db r = map_of (db_runs db) r"

definition load_step :: "wf_db \<Rightarrow> string \<Rightarrow> string \<Rightarrow> step_row option" where
  "load_step db r s = map_of (db_steps db) (r, s)"

definition run_steps :: "wf_db \<Rightarrow> string \<Rightarrow> (string, step_row) dict" where
  "run_steps db r = map (\<lambda>((q, s), v). (s, v)) (filter (\<lambda>((q, s), v). q = r) (db_steps db))"

definition load_step_states :: "wf_db \<Rightarrow> string \<Rightarrow> (string, step_state) dict" where
  "load_step_states db r = map (\<lambda>(s, v). (s, sr_state v)) (run_steps db r)"

definition row_node :: "string \<Rightarrow> step_row \<Rightarrow> dag_node" where
  "row_node s v = \<lparr>step_id = s, step_type = sr_type v, config = sr_config v, depends_on = sr_deps v\<rparr>"

definition dag_edges :: "(string, dag_node) dict \<Rightarrow> (string \<times> string) list" where
  "dag_edges ns = concat (map (\<lambda>(s, n). map (\<lambda>dep. (dep, s)) (filter (dict_has ns) (depends_on n))) ns)"

definition load_dag :: "wf_db \<Rightarrow> string \<Rightarrow> dag" where
  "load_dag db r = (let ns = map (\<lambda>(s, v). (s, row_node s v)) (run_steps db r)
                    in \<lparr>nodes = ns, edges = dag_edges ns\<rparr>)"

lemma run_steps_get: "map_of (run_steps db r) s = load_step db r s"
proof -
  have "map_of (map (\<lambda>((q, s), v). (s, v)) (filter (\<lambda>((q, s), v). q = r) t)) s = map_of t (r, s)"
    for t :: "(string \<times> string, step_row) dict"
    by (induction t) auto
  then show ?thesis by (simp add: run_steps_def load_step_def)
qed

lemma map_val_of: "map_of (map (\<lambda>(k, v). (k, g v)) t) k = map_option g (map_of t k)"
  by (induction t) auto

lemma load_step_states_get: "map_of (load_step_states db r) s = map_option sr_state (load_step db r s)"
  by (simp add: load_step_states_def map_val_of run_steps_get)

lemma load_dag_get: "map_of (nodes (load_dag db r)) s = map_option (row_node s) (load_step db r s)"
proof -
  have "map_of (map (\<lambda>(s, v). (s, row_node s v)) t) k = map_option (row_node k) (map_of t k)" for t k
    by (induction t) auto
  then show ?thesis by (simp add: load_dag_def Let_def run_steps_get)
qed

lemma load_dag_ids: "dag_ids (load_dag db r) = {s. load_step db r s \<noteq> None}"
proof -
  have "s \<in> dag_ids (load_dag db r) \<longleftrightarrow> load_step db r s \<noteq> None" for s
    using load_dag_get[of db r s] map_of_nodes_None[of "load_dag db r" s] by (cases "load_step db r s") auto
  then show ?thesis by blast
qed

lemma run_steps_keys: "dict_ok (db_steps db) \<Longrightarrow> dict_ok (run_steps db r)"
proof -
  assume ok: "dict_ok (db_steps db)"
  have "dict_ok (map (\<lambda>((q, s), v). (s, v)) (filter (\<lambda>((q, s), v). q = r) t))"
    if "dict_ok t" for t :: "(string \<times> string, step_row) dict"
    using that by (induction t) (auto simp: image_iff)
  then show ?thesis using ok by (simp add: run_steps_def)
qed

lemma run_steps_mem: "dict_ok (db_steps db) \<Longrightarrow> (s, v) \<in> set (run_steps db r) \<longleftrightarrow> load_step db r s = Some v"
  using run_steps_keys[of db r] run_steps_get[of db r s] by (metis map_of_eq_Some_iff)

lemma load_dag_ok: "dict_ok (db_steps db) \<Longrightarrow> dag_ok (load_dag db r)"
  using run_steps_keys[of db r] by (simp add: dag_ok_def load_dag_def Let_def split_beta comp_def)

section \<open>Events of a run\<close>

text \<open>The runs that emit come from the table, where no id is empty; an empty id writes nothing.\<close>

definition post ::
  "string \<Rightarrow> string \<Rightarrow> string \<Rightarrow> string option \<Rightarrow> (string \<times> json) list \<Rightarrow> wf_db \<Rightarrow> wf_db" where
  "post r ty msg step p db =
     (case put_event r \<lparr>in_type = ty, in_message = msg, in_step = step, in_payload = p, in_now = db_now db\<rparr> (db_events db) of
        None \<Rightarrow> db | Some st \<Rightarrow> db\<lparr>db_events := st\<rparr>)"

definition state_changed_message :: "string \<Rightarrow> step_state \<Rightarrow> string" where
  "state_changed_message s st = ''step '' @ s @ '' -> '' @ step_value st"

definition emit_step_state :: "string \<Rightarrow> string \<Rightarrow> step_state \<Rightarrow> string option \<Rightarrow> wf_db \<Rightarrow> wf_db" where
  "emit_step_state r s st err =
     post r ''step.state_changed'' (state_changed_message s st) (Some s)
       ((''state'', JStr (step_value st)) #
        (case err of None \<Rightarrow> [] | Some e \<Rightarrow> [(''error_message'', JStr e)]))"

section \<open>Writers\<close>

definition persist_step_state ::
  "string \<Rightarrow> string \<Rightarrow> step_state \<Rightarrow> json option \<Rightarrow> string option \<Rightarrow> bool \<Rightarrow> bool \<Rightarrow> wf_db \<Rightarrow> wf_db" where
  "persist_step_state r s st out err started finished db =
     update_step r s (\<lambda>v. v\<lparr>sr_state := st,
         sr_output := (case out of None \<Rightarrow> sr_output v | Some x \<Rightarrow> Some x),
         sr_error := (case err of None \<Rightarrow> sr_error v | Some e \<Rightarrow> Some e),
         sr_started := (if started then Some (db_now db) else sr_started v),
         sr_finished := (if finished then Some (db_now db) else sr_finished v)\<rparr>) db"

definition reset_step :: "string \<Rightarrow> string \<Rightarrow> wf_db \<Rightarrow> wf_db" where
  "reset_step r s = update_step r s (\<lambda>v. v\<lparr>sr_state := SPending, sr_output := None, sr_error := None,
     sr_started := None, sr_finished := None\<rparr>)"

definition reset_inflight_steps :: "string \<Rightarrow> wf_db \<Rightarrow> wf_db" where
  "reset_inflight_steps r db = db\<lparr>db_steps :=
     update_where (\<lambda>(q, s) v. q = r \<and> sr_state v \<in> {SRunning, SReady})
       (\<lambda>v. v\<lparr>sr_state := SPending, sr_started := None\<rparr>) (db_steps db)\<rparr>"

definition set_run_state :: "string \<Rightarrow> run_state \<Rightarrow> bool \<Rightarrow> bool \<Rightarrow> wf_db \<Rightarrow> wf_db" where
  "set_run_state r st started finished db =
     update_run r (\<lambda>v. v\<lparr>rr_state := st,
       rr_started := (if started then Some (db_now db) else rr_started v),
       rr_finished := (if finished then Some (db_now db) else rr_finished v)\<rparr>) db"

text \<open>Mark a step and announce it, for each step of a list: the loops over steps of the executor.\<close>

definition mark_step :: "string \<Rightarrow> step_state \<Rightarrow> string \<Rightarrow> wf_db \<Rightarrow> wf_db" where
  "mark_step r st s db = emit_step_state r s st None (persist_step_state r s st None None False True db)"

definition restart_step :: "string \<Rightarrow> string \<Rightarrow> wf_db \<Rightarrow> wf_db" where
  "restart_step r s db = emit_step_state r s SPending None (reset_step r s db)"

section \<open>What each statement changes\<close>

lemma post_tables [simp]:
  "db_definitions (post r ty m s p db) = db_definitions db"
  "db_runs (post r ty m s p db) = db_runs db"
  "db_steps (post r ty m s p db) = db_steps db"
  "db_now (post r ty m s p db) = db_now db"
  by (simp_all add: post_def split: option.split)

lemma emit_step_state_tables [simp]:
  "db_definitions (emit_step_state r s st e db) = db_definitions db"
  "db_runs (emit_step_state r s st e db) = db_runs db"
  "db_steps (emit_step_state r s st e db) = db_steps db"
  "db_now (emit_step_state r s st e db) = db_now db"
  by (simp_all add: emit_step_state_def)

lemma load_post [simp]:
  "load_run (post r ty m so p db) q = load_run db q"
  "load_step (post r ty m so p db) q t = load_step db q t"
  "load_run (emit_step_state r s st e db) q = load_run db q"
  "load_step (emit_step_state r s st e db) q t = load_step db q t"
  by (simp_all add: load_run_def load_step_def)

lemma update_step_tables [simp]:
  "db_definitions (update_step r s f db) = db_definitions db"
  "db_runs (update_step r s f db) = db_runs db"
  "map fst (db_steps (update_step r s f db)) = map fst (db_steps db)"
  "db_events (update_step r s f db) = db_events db"
  "db_now (update_step r s f db) = db_now db"
  by (simp_all add: update_step_def)

lemma load_update_step [simp]:
  "load_run (update_step r s f db) q = load_run db q"
  "load_step (update_step r s f db) q t =
     (if q = r \<and> t = s then map_option f (load_step db q t) else load_step db q t)"
  by (auto simp: load_run_def load_step_def update_step_def dict_simps option.map_ident)

lemma update_run_tables [simp]:
  "db_definitions (update_run r f db) = db_definitions db"
  "map fst (db_runs (update_run r f db)) = map fst (db_runs db)"
  "db_steps (update_run r f db) = db_steps db"
  "db_events (update_run r f db) = db_events db"
  "db_now (update_run r f db) = db_now db"
  by (simp_all add: update_run_def)

lemma load_update_run [simp]:
  "load_run (update_run r f db) q = (if q = r then map_option f (load_run db q) else load_run db q)"
  "load_step (update_run r f db) q t = load_step db q t"
  by (auto simp: load_run_def load_step_def update_run_def dict_simps option.map_ident)

text \<open>The columns no statement but the insert writes.\<close>

definition step_static :: "step_row \<Rightarrow> string \<times> string list \<times> (string \<times> json) list" where
  "step_static v = (sr_type v, sr_deps v, sr_config v)"

definition run_static :: "run_row \<Rightarrow> string \<times> int \<times> string" where
  "run_static v = (rr_definition v, rr_limit v, rr_created v)"

definition same_static :: "wf_db \<Rightarrow> wf_db \<Rightarrow> bool" where
  "same_static a b \<longleftrightarrow>
     map (\<lambda>(k, v). (k, run_static v)) (db_runs b) = map (\<lambda>(k, v). (k, run_static v)) (db_runs a) \<and>
     map (\<lambda>(k, v). (k, step_static v)) (db_steps b) = map (\<lambda>(k, v). (k, step_static v)) (db_steps a)"

named_theorems statics "statements that keep the static columns"

lemma same_static_refl [simp, statics]: "same_static db db"
  by (simp add: same_static_def)

lemma same_static_trans: "same_static a b \<Longrightarrow> same_static b c \<Longrightarrow> same_static a c"
  by (simp add: same_static_def)

lemma update_where_static:
  "(\<And>v. g (f v) = g v) \<Longrightarrow>
    map (\<lambda>(k, v). (k, g v)) (update_where P f t) = map (\<lambda>(k, v). (k, g v)) t"
  by (induction t) (auto simp: update_where_def)

lemma post_static [statics]: "same_static a db \<Longrightarrow> same_static a (post r ty m s p db)"
  by (simp add: same_static_def)

lemma emit_step_state_static [statics]: "same_static a db \<Longrightarrow> same_static a (emit_step_state r s st e db)"
  by (simp add: same_static_def)

lemma update_step_static:
  "(\<And>v. step_static (f v) = step_static v) \<Longrightarrow> same_static a db \<Longrightarrow> same_static a (update_step r s f db)"
  by (simp add: same_static_def update_step_def update_where_static)

lemma update_run_static:
  "(\<And>v. run_static (f v) = run_static v) \<Longrightarrow> same_static a db \<Longrightarrow> same_static a (update_run r f db)"
  by (simp add: same_static_def update_run_def update_where_static)

lemma persist_static [statics]:
  "same_static a db \<Longrightarrow> same_static a (persist_step_state r s st out err b c db)"
  unfolding persist_step_state_def by (rule update_step_static) (simp_all add: step_static_def)

lemma reset_step_static [statics]: "same_static a db \<Longrightarrow> same_static a (reset_step r s db)"
  unfolding reset_step_def by (rule update_step_static) (simp_all add: step_static_def)

lemma reset_inflight_static [statics]: "same_static a db \<Longrightarrow> same_static a (reset_inflight_steps r db)"
  by (simp add: same_static_def reset_inflight_steps_def update_where_static step_static_def)

lemma set_run_state_static [statics]: "same_static a db \<Longrightarrow> same_static a (set_run_state r st b c db)"
  unfolding set_run_state_def by (rule update_run_static) (simp_all add: run_static_def)

lemma mark_step_static [statics]: "same_static a db \<Longrightarrow> same_static a (mark_step r st s db)"
  by (simp add: mark_step_def statics)

lemma restart_step_static [statics]: "same_static a db \<Longrightarrow> same_static a (restart_step r s db)"
  by (simp add: restart_step_def statics)

lemma fold_static: "(\<And>x db. same_static a db \<Longrightarrow> same_static a (f x db)) \<Longrightarrow> same_static a db \<Longrightarrow> same_static a (fold f xs db)"
  by (induction xs arbitrary: db) auto

lemma same_static_keys:
  assumes "same_static a b"
  shows "map fst (db_runs b) = map fst (db_runs a)" "map fst (db_steps b) = map fst (db_steps a)"
proof -
  have k: "map fst (map (\<lambda>(k, v). (k, g v)) t) = map fst t" for g :: "'b \<Rightarrow> 'c" and t :: "('a \<times> 'b) list"
    by (simp add: split_beta comp_def)
  have k2: "map fst (map (\<lambda>(k, v). (k, g v)) t) = map fst t" for g :: "step_row \<Rightarrow> 'c" and t :: "('d \<times> step_row) list"
    by (simp add: split_beta comp_def)
  have k3: "map fst (map (\<lambda>(k, v). (k, g v)) t) = map fst t" for g :: "run_row \<Rightarrow> 'c" and t :: "('d \<times> run_row) list"
    by (simp add: split_beta comp_def)
  show "map fst (db_runs b) = map fst (db_runs a)" using assms k3 unfolding same_static_def by metis
  show "map fst (db_steps b) = map fst (db_steps a)" using assms k2 unfolding same_static_def by metis
qed

lemma same_static_load:
  assumes "same_static a b"
  shows "map_option run_static (load_run b r) = map_option run_static (load_run a r)"
    "map_option step_static (load_step b r s) = map_option step_static (load_step a r s)"
  using assms unfolding same_static_def load_run_def load_step_def by (metis map_val_of)+

lemma same_static_dag:
  assumes "same_static a b"
  shows "load_dag b r = load_dag a r"
proof -
  define node where "node = (\<lambda>(k :: string \<times> string, (t, d, c)). (snd k, \<lparr>step_id = snd k, step_type = t, config = c, depends_on = d\<rparr>))"
  have "map (\<lambda>(s, v). (s, row_node s v)) (run_steps db r) =
      map node (filter (\<lambda>(k, v). fst k = r) (map (\<lambda>(k, v). (k, step_static v)) (db_steps db)))" for db
  proof -
    have "map (\<lambda>(s, v). (s, row_node s v)) (map (\<lambda>((q, s), v). (s, v)) (filter (\<lambda>((q, s), v). q = r) t)) =
      map node (filter (\<lambda>(k, v). fst k = r) (map (\<lambda>(k, v). (k, step_static v)) t))" for t
      by (induction t) (auto simp: node_def row_node_def step_static_def)
    then show ?thesis by (simp add: run_steps_def)
  qed
  then show ?thesis using assms by (simp add: load_dag_def same_static_def)
qed

end
