(* ===== verification/Approvals.thy ===== *)
theory Approvals
  imports Workflow_DB
begin

text \<open>
  \<open>core/approval_manager.py\<close>: entering a checkpoint, the decision on it, the rejection of the steps
  behind it and the listing of the open ones. Each operation runs under the manager's lock.
\<close>

datatype approval_error =
    Unknown_step string string
  | Not_awaiting string string step_state

section \<open>Checkpoints\<close>

definition enter_checkpoint ::
  "string \<Rightarrow> string \<Rightarrow> (string \<times> json) list \<Rightarrow> wf_db \<Rightarrow> approval_error + wf_db" where
  "enter_checkpoint r s ctx db =
     (case load_step db r s of
        None \<Rightarrow> Inl (Unknown_step s r)
      | Some _ \<Rightarrow>
          let db1 = update_step r s (\<lambda>v. v\<lparr>sr_state := SAwaiting_approval, sr_output := Some (JObj ctx)\<rparr>) db;
              db2 = update_run r (\<lambda>v. v\<lparr>rr_state := RAwaiting_approval\<rparr>) db1;
              db3 = emit_step_state r s SAwaiting_approval None db2
          in Inr (post r ''approval.required'' (''step '' @ s @ '' requires approval'') (Some s)
                    [(''context'', JObj ctx)] db3))"

definition require_awaiting :: "string \<Rightarrow> string \<Rightarrow> wf_db \<Rightarrow> approval_error + unit" where
  "require_awaiting r s db =
     (case load_step db r s of
        None \<Rightarrow> Inl (Unknown_step s r)
      | Some v \<Rightarrow> if sr_state v \<noteq> SAwaiting_approval then Inl (Not_awaiting s r (sr_state v)) else Inr ())"

definition coalesce :: "'a option \<Rightarrow> 'a \<Rightarrow> 'a option" where
  "coalesce x y = (case x of None \<Rightarrow> Some y | Some z \<Rightarrow> Some z)"

section \<open>Approval\<close>

definition approval_output :: "json \<Rightarrow> json" where
  "approval_output edits =
     JObj ((''approved'', JBool True) # (if truthy edits then [(''edits'', edits)] else []))"

text \<open>The part of \<open>approve\<close> under the lock; the executor resumes the run afterwards.\<close>

definition decide_approved :: "string \<Rightarrow> string \<Rightarrow> json \<Rightarrow> wf_db \<Rightarrow> approval_error + wf_db" where
  "decide_approved r s edits db =
     rbind (require_awaiting r s db) (\<lambda>_.
       let db1 = update_step r s (\<lambda>v. v\<lparr>sr_state := SCompleted, sr_output := Some (approval_output edits),
                   sr_finished := coalesce (sr_finished v) (db_now db)\<rparr>) db
       in Inr (post r ''step.state_changed'' (state_changed_message s SCompleted) (Some s)
            [(''state'', JStr (step_value SCompleted)), (''approved'', JBool True)] db1))"

section \<open>Rejection\<close>

definition downstream :: "wf_db \<Rightarrow> string \<Rightarrow> string \<Rightarrow> string set" where
  "downstream db r cur = set (map fst (filter (\<lambda>(s, v). cur \<in> set (sr_deps v)) (run_steps db r)))"

text \<open>The stack is kept with its end first; the children of a step are pushed in sorted order.\<close>

function downstream_walk :: "wf_db \<Rightarrow> string \<Rightarrow> string set \<Rightarrow> string list \<Rightarrow> string set" where
  "downstream_walk db r result [] = result"
| "downstream_walk db r result (current # stack) =
     (let new = filter (\<lambda>t. t \<notin> result) (sorted_set (downstream db r current))
      in downstream_walk db r (result \<union> set new) (rev new @ stack))"
  by pat_completeness auto
termination
proof (relation "inv_image (finite_psubset <*lex*> less_than)
    (\<lambda>(db, r, res, fr). (set (map fst (run_steps db r)) - res, length fr))", goal_cases)
  case 1
  show ?case by (intro wf_inv_image wf_lex_prod wf_finite_psubset wf_less_than)
next
  case (2 db r res cur fr new)
  have sub: "set new \<subseteq> set (map fst (run_steps db r)) - res"
    using 2 by (auto simp: downstream_def)
  show ?case
  proof (cases "new = []")
    case False
    then obtain t where "t \<in> set new" by (cases new) auto
    then have "set (map fst (run_steps db r)) - (res \<union> set new) \<subset> set (map fst (run_steps db r)) - res"
      using sub by blast
    then show ?thesis by (auto simp: finite_psubset_def)
  qed simp
qed

declare downstream_walk.simps(2) [simp del]

definition transitive_dependents :: "wf_db \<Rightarrow> string \<Rightarrow> string \<Rightarrow> string set" where
  "transitive_dependents db r s = downstream_walk db r {} [s]"

definition skip_dependent :: "string \<Rightarrow> string \<Rightarrow> wf_db \<Rightarrow> wf_db" where
  "skip_dependent r s db =
     emit_step_state r s SSkipped None
       (update_step r s (\<lambda>v. v\<lparr>sr_state := SSkipped, sr_finished := coalesce (sr_finished v) (db_now db)\<rparr>) db)"

text \<open>The dependents to skip: known to the run and not terminal when the states were read.\<close>

definition open_dependents :: "wf_db \<Rightarrow> string \<Rightarrow> string \<Rightarrow> string list" where
  "open_dependents db r s =
     filter (\<lambda>t. case map_of (load_step_states db r) t of None \<Rightarrow> False | Some st \<Rightarrow> \<not> step_is_terminal st)
       (sorted_set (transitive_dependents db r s))"

definition reject :: "string \<Rightarrow> string \<Rightarrow> string \<Rightarrow> wf_db \<Rightarrow> approval_error + (run_state \<times> wf_db)" where
  "reject r s reason db =
     rbind (require_awaiting r s db) (\<lambda>_.
       let db1 = update_step r s (\<lambda>v. v\<lparr>sr_state := SCancelled,
                   sr_output := Some (JObj [(''approved'', JBool False), (''reason'', JStr reason)]),
                   sr_error := Some reason, sr_finished := coalesce (sr_finished v) (db_now db)\<rparr>) db;
           db2 = emit_step_state r s SCancelled None db1;
           db3 = fold (skip_dependent r) (open_dependents db2 r s) db2;
           db4 = update_run r (\<lambda>v. v\<lparr>rr_state := RRejected, rr_finished := coalesce (rr_finished v) (db_now db)\<rparr>) db3
       in Inr (RRejected, post r ''run.rejected'' ''workflow run rejected'' (Some s)
                [(''state'', JStr (run_value RRejected)), (''reason'', JStr reason)] db4))"

section \<open>Open checkpoints\<close>

definition pending_for_run :: "wf_db \<Rightarrow> string \<Rightarrow> (string \<times> json) list" where
  "pending_for_run db r =
     sort_key fst (map (\<lambda>(s, v). (s, case sr_output v of None \<Rightarrow> JObj [] | Some j \<Rightarrow> if truthy j then j else JObj []))
       (filter (\<lambda>(s, v). sr_state v = SAwaiting_approval) (run_steps db r)))"

section \<open>Facts\<close>

lemma finite_downstream [simp]: "finite (downstream db r s)"
  by (simp add: downstream_def)

text \<open>The walk over the rows finds the dependents the run's graph has.\<close>

lemma downstream_successors:
  assumes "dict_ok (db_steps db)" "cur \<in> dag_ids (load_dag db r)"
  shows "downstream db r cur = successors (load_dag db r) cur"
proof -
  have "t \<in> downstream db r cur \<longleftrightarrow> t \<in> successors (load_dag db r) cur" for t
  proof -
    have "t \<in> downstream db r cur \<longleftrightarrow> (\<exists>v. load_step db r t = Some v \<and> cur \<in> set (sr_deps v))"
      using run_steps_mem[OF assms(1), of t _ r] by (force simp: downstream_def)
    also have "\<dots> \<longleftrightarrow> cur \<in> set (node_deps (load_dag db r) t)"
      by (cases "load_step db r t") (simp_all add: node_deps_def load_dag_get row_node_def)
    finally show ?thesis using assms(2) by (simp add: successors_iff predecessors_iff)
  qed
  then show ?thesis by blast
qed

lemma downstream_walk_eq:
  assumes "dict_ok (db_steps db)"
  shows "set st \<subseteq> dag_ids (load_dag db r) \<Longrightarrow>
    downstream_walk db r res st = dependents_loop (load_dag db r) res st"
proof (induction "load_dag db r" res st rule: dependents_loop.induct)
  case (2 res cur st)
  let ?new = "filter (\<lambda>t. t \<notin> res) (sorted_set (successors (load_dag db r) cur))"
  have eq: "downstream db r cur = successors (load_dag db r) cur"
    using 2(2) by (intro downstream_successors[OF assms]) simp
  have "set ?new \<subseteq> dag_ids (load_dag db r)"
    using predecessors_known successors_iff by fastforce
  then show ?case using 2(1)[OF refl] 2(2)
    by (simp add: downstream_walk.simps(2) dependents_loop.simps(2) eq Let_def)
qed simp

lemma transitive_dependents_eq:
  assumes "dict_ok (db_steps db)" "load_step db r s \<noteq> None"
  shows "transitive_dependents db r s = dependents_of (load_dag db r) s"
proof -
  have "s \<in> dag_ids (load_dag db r)" using assms(2) by (simp add: load_dag_ids)
  then show ?thesis
    by (simp add: transitive_dependents_def dependents_of_def dag_has_iff downstream_walk_eq[OF assms(1)])
qed

lemma require_awaiting_Inr:
  "require_awaiting r s db = Inr u \<longleftrightarrow> (\<exists>v. load_step db r s = Some v \<and> sr_state v = SAwaiting_approval)"
  by (auto simp: require_awaiting_def split: option.split)

lemma enter_checkpoint_static:
  "enter_checkpoint r s ctx db = Inr db' \<Longrightarrow> same_static a db \<Longrightarrow> same_static a db'"
  by (auto simp: enter_checkpoint_def Let_def step_static_def run_static_def
      intro!: statics update_step_static update_run_static split: option.splits)

lemma decide_approved_static:
  "decide_approved r s ed db = Inr db' \<Longrightarrow> same_static a db \<Longrightarrow> same_static a db'"
  by (auto simp: decide_approved_def Let_def step_static_def rbind_Inr_iff intro!: statics update_step_static)

lemma skip_dependent_static [statics]: "same_static a db \<Longrightarrow> same_static a (skip_dependent r s db)"
  by (auto simp: skip_dependent_def step_static_def intro!: statics update_step_static)

lemma reject_static:
  "reject r s reason db = Inr (st, db') \<Longrightarrow> same_static a db \<Longrightarrow> same_static a db'"
  by (auto simp: reject_def Let_def step_static_def run_static_def rbind_Inr_iff
      intro!: statics update_step_static update_run_static fold_static)

lemma enter_checkpoint_load:
  assumes "enter_checkpoint r s ctx db = Inr db'"
  shows "load_step db' q t = (if q = r \<and> t = s
      then map_option (\<lambda>v. v\<lparr>sr_state := SAwaiting_approval, sr_output := Some (JObj ctx)\<rparr>) (load_step db q t)
      else load_step db q t)"
    and "load_run db' q = (if q = r then map_option (\<lambda>v. v\<lparr>rr_state := RAwaiting_approval\<rparr>) (load_run db q)
      else load_run db q)"
  using assms by (auto simp: enter_checkpoint_def Let_def split: option.splits)

lemma decide_approved_load:
  assumes "decide_approved r s ed db = Inr db'"
  shows "load_step db' q t = (if q = r \<and> t = s
      then map_option (\<lambda>v. v\<lparr>sr_state := SCompleted, sr_output := Some (approval_output ed),
                   sr_finished := coalesce (sr_finished v) (db_now db)\<rparr>) (load_step db q t)
      else load_step db q t)"
    and "load_run db' q = load_run db q"
    and "\<exists>v. load_step db r s = Some v \<and> sr_state v = SAwaiting_approval"
  using assms by (auto simp: decide_approved_def Let_def rbind_Inr_iff require_awaiting_Inr)

lemma skip_dependent_load [simp]:
  "load_run (skip_dependent r s db) q = load_run db q"
  "load_step (skip_dependent r s db) q t = (if q = r \<and> t = s
      then map_option (\<lambda>v. v\<lparr>sr_state := SSkipped, sr_finished := coalesce (sr_finished v) (db_now db)\<rparr>) (load_step db q t)
      else load_step db q t)"
  "db_now (skip_dependent r s db) = db_now db"
  by (auto simp: skip_dependent_def)

text \<open>The state of a step, the view the executor decides on.\<close>

definition step_st :: "wf_db \<Rightarrow> string \<Rightarrow> string \<Rightarrow> step_state option" where
  "step_st db r s = map_option sr_state (load_step db r s)"

definition run_st :: "wf_db \<Rightarrow> string \<Rightarrow> run_state option" where
  "run_st db r = map_option rr_state (load_run db r)"

lemma step_st_states: "map_of (load_step_states db r) s = step_st db r s"
  by (simp add: step_st_def load_step_states_get)

lemma step_st_post [simp]:
  "step_st (post r ty m so p db) q t = step_st db q t"
  "step_st (emit_step_state r s st e db) q t = step_st db q t"
  "run_st (post r ty m so p db) q = run_st db q"
  "run_st (emit_step_state r s st e db) q = run_st db q"
  by (simp_all add: step_st_def run_st_def)

lemma step_st_update:
  assumes "\<And>v. sr_state (f v) = st"
  shows "step_st (update_step r s f db) q t =
    (if q = r \<and> t = s \<and> step_st db q t \<noteq> None then Some st else step_st db q t)"
proof (cases "q = r \<and> t = s")
  case True
  then show ?thesis using assms by (cases "load_step db r s") (simp_all add: step_st_def)
qed (auto simp: step_st_def)

lemma run_st_update:
  assumes "\<And>v. rr_state (f v) = st"
  shows "run_st (update_run r f db) q = (if q = r \<and> run_st db q \<noteq> None then Some st else run_st db q)"
proof (cases "q = r")
  case True
  then show ?thesis using assms by (cases "load_run db r") (simp_all add: run_st_def)
qed (auto simp: run_st_def)

lemma st_update_other [simp]:
  "run_st (update_step r s f db) q = run_st db q"
  "step_st (update_run r g db) q t = step_st db q t"
  by (simp_all add: step_st_def run_st_def)

lemma step_st_persist [simp]:
  "step_st (persist_step_state r s st out err b c db) q t =
    (if q = r \<and> t = s \<and> step_st db q t \<noteq> None then Some st else step_st db q t)"
  "run_st (persist_step_state r s st out err b c db) q = run_st db q"
  unfolding persist_step_state_def by (simp_all add: step_st_update)

lemma step_st_set_run [simp]:
  "step_st (set_run_state r st b c db) q t = step_st db q t"
  "run_st (set_run_state r rst b c db) q = (if q = r \<and> run_st db q \<noteq> None then Some rst else run_st db q)"
  unfolding set_run_state_def by (simp_all add: run_st_update)

lemma step_st_mark [simp]:
  "step_st (mark_step r st s db) q t = (if q = r \<and> t = s \<and> step_st db q t \<noteq> None then Some st else step_st db q t)"
  "run_st (mark_step r st s db) q = run_st db q"
  by (simp_all add: mark_step_def)

lemma step_st_restart [simp]:
  "step_st (restart_step r s db) q t = (if q = r \<and> t = s \<and> step_st db q t \<noteq> None then Some SPending else step_st db q t)"
  "run_st (restart_step r s db) q = run_st db q"
  unfolding restart_step_def reset_step_def by (simp_all add: step_st_update)

lemma step_st_marks:
  "step_st (fold (mark_step r st) ss db) q t =
    (if q = r \<and> t \<in> set ss \<and> step_st db q t \<noteq> None then Some st else step_st db q t)"
  "run_st (fold (mark_step r st) ss db) q = run_st db q"
  by (induction ss arbitrary: db) auto

lemma step_st_restarts:
  "step_st (fold (restart_step r) ss db) q t =
    (if q = r \<and> t \<in> set ss \<and> step_st db q t \<noteq> None then Some SPending else step_st db q t)"
  "run_st (fold (restart_step r) ss db) q = run_st db q"
  by (induction ss arbitrary: db) auto

lemma step_st_skip_dependent [simp]:
  "step_st (skip_dependent r s db) q t = (if q = r \<and> t = s \<and> step_st db q t \<noteq> None then Some SSkipped else step_st db q t)"
  "run_st (skip_dependent r s db) q = run_st db q"
  unfolding skip_dependent_def by (simp_all add: step_st_update)

lemma step_st_skip_dependents:
  "step_st (fold (skip_dependent r) ss db) q t =
    (if q = r \<and> t \<in> set ss \<and> step_st db q t \<noteq> None then Some SSkipped else step_st db q t)"
  "run_st (fold (skip_dependent r) ss db) q = run_st db q"
  by (induction ss arbitrary: db) auto

lemma step_st_inflight:
  "step_st (reset_inflight_steps r db) q t =
    (if q = r \<and> step_st db q t \<in> {Some SRunning, Some SReady} then Some SPending else step_st db q t)"
  "run_st (reset_inflight_steps r db) q = run_st db q"
proof -
  show "step_st (reset_inflight_steps r db) q t =
      (if q = r \<and> step_st db q t \<in> {Some SRunning, Some SReady} then Some SPending else step_st db q t)"
    by (cases "load_step db q t")
      (auto simp: step_st_def reset_inflight_steps_def dict_simps load_step_def)
qed (simp add: run_st_def load_run_def reset_inflight_steps_def)

lemma step_st_checkpoint:
  assumes "enter_checkpoint r s ctx db = Inr db'"
  shows "step_st db' q t = (if q = r \<and> t = s \<and> step_st db q t \<noteq> None then Some SAwaiting_approval else step_st db q t)"
    and "run_st db' q = (if q = r \<and> run_st db q \<noteq> None then Some RAwaiting_approval else run_st db q)"
proof -
  have "db' = post r ''approval.required'' (''step '' @ s @ '' requires approval'') (Some s) [(''context'', JObj ctx)]
      (emit_step_state r s SAwaiting_approval None (update_run r (\<lambda>v. v\<lparr>rr_state := RAwaiting_approval\<rparr>)
        (update_step r s (\<lambda>v. v\<lparr>sr_state := SAwaiting_approval, sr_output := Some (JObj ctx)\<rparr>) db)))"
    using assms by (auto simp: enter_checkpoint_def Let_def split: option.splits)
  then show "step_st db' q t = (if q = r \<and> t = s \<and> step_st db q t \<noteq> None then Some SAwaiting_approval else step_st db q t)"
    "run_st db' q = (if q = r \<and> run_st db q \<noteq> None then Some RAwaiting_approval else run_st db q)"
    by (auto simp: step_st_update run_st_update)
qed

lemma step_st_approved:
  assumes "decide_approved r s ed db = Inr db'"
  shows "step_st db r s = Some SAwaiting_approval"
    and "step_st db' q t = (if q = r \<and> t = s then Some SCompleted else step_st db q t)"
    and "run_st db' q = run_st db q"
proof -
  show aw: "step_st db r s = Some SAwaiting_approval"
    using assms by (auto simp: decide_approved_def rbind_Inr_iff require_awaiting_Inr step_st_def)
  have "db' = post r ''step.state_changed'' (state_changed_message s SCompleted) (Some s)
      [(''state'', JStr (step_value SCompleted)), (''approved'', JBool True)]
      (update_step r s (\<lambda>v. v\<lparr>sr_state := SCompleted, sr_output := Some (approval_output ed),
                   sr_finished := coalesce (sr_finished v) (db_now db)\<rparr>) db)"
    using assms by (auto simp: decide_approved_def rbind_Inr_iff Let_def)
  then show "step_st db' q t = (if q = r \<and> t = s then Some SCompleted else step_st db q t)"
    "run_st db' q = run_st db q"
    using aw by (simp_all add: step_st_update)
qed

lemma open_dependents_set:
  assumes "dict_ok (db_steps db)" "step_st db r s \<noteq> None"
  shows "set (open_dependents db r s) =
    {t \<in> dependents_of (load_dag db r) s. \<exists>st. step_st db r t = Some st \<and> \<not> step_is_terminal st}"
proof -
  have "load_step db r s \<noteq> None" using assms(2) by (auto simp: step_st_def)
  then have "transitive_dependents db r s = dependents_of (load_dag db r) s"
    by (rule transitive_dependents_eq[OF assms(1)])
  then show ?thesis by (auto simp: open_dependents_def step_st_states split: option.splits)
qed

lemma dict_ok_static: "same_static a b \<Longrightarrow> dict_ok (db_steps a) \<Longrightarrow> dict_ok (db_steps b)"
  by (simp add: same_static_keys(2))

lemma step_st_reject:
  assumes "reject r s reason db = Inr (rst, db')" "dict_ok (db_steps db)"
  shows "rst = RRejected"
    and "step_st db r s = Some SAwaiting_approval"
    and "\<not> (q = r \<and> (t = s \<or> t \<in> dependents_of (load_dag db r) s \<and>
      (\<exists>st. step_st db q t = Some st \<and> \<not> step_is_terminal st))) \<Longrightarrow> load_step db' q t = load_step db q t"
    and "step_st db' q t = (if q = r \<and> t = s then Some SCancelled
      else if q = r \<and> t \<in> dependents_of (load_dag db r) s \<and> (\<exists>st. step_st db q t = Some st \<and> \<not> step_is_terminal st)
      then Some SSkipped else step_st db q t)"
    and "run_st db' q = (if q = r \<and> run_st db q \<noteq> None then Some RRejected else run_st db q)"
proof -
  define db1 where "db1 = update_step r s (\<lambda>v. v\<lparr>sr_state := SCancelled,
     sr_output := Some (JObj [(''approved'', JBool False), (''reason'', JStr reason)]),
     sr_error := Some reason, sr_finished := coalesce (sr_finished v) (db_now db)\<rparr>) db"
  define db2 where "db2 = emit_step_state r s SCancelled None db1"
  have aw: "step_st db r s = Some SAwaiting_approval"
    using assms(1) by (auto simp: reject_def rbind_Inr_iff require_awaiting_Inr step_st_def)
  have st2: "step_st db2 q t = (if q = r \<and> t = s then Some SCancelled else step_st db q t)" for q t
    using aw by (simp add: db2_def db1_def step_st_update)
  have rn2: "run_st db2 q = run_st db q" for q
    by (simp add: db2_def db1_def)
  have same: "same_static db db2" unfolding db2_def db1_def
    by (intro statics update_step_static) (simp_all add: step_static_def)
  have dag: "load_dag db2 r = load_dag db r" by (rule same_static_dag[OF same])
  have op: "set (open_dependents db2 r s) =
      {t \<in> dependents_of (load_dag db r) s. \<exists>st. step_st db2 r t = Some st \<and> \<not> step_is_terminal st}"
    using open_dependents_set[OF dict_ok_static[OF same assms(2)], of r s] st2[of r s] dag by simp
  define db4 where "db4 = update_run r (\<lambda>v. v\<lparr>rr_state := RRejected, rr_finished := coalesce (rr_finished v) (db_now db)\<rparr>)
        (fold (skip_dependent r) (open_dependents db2 r s) db2)"
  have "require_awaiting r s db = Inr ()"
    using assms(1) by (cases "require_awaiting r s db") (auto simp: reject_def)
  then have "reject r s reason db = Inr (RRejected, post r ''run.rejected'' ''workflow run rejected'' (Some s)
      [(''state'', JStr (run_value RRejected)), (''reason'', JStr reason)] db4)"
    unfolding reject_def Let_def db4_def db2_def db1_def by (simp only: rbind.simps)
  then have db': "db' = post r ''run.rejected'' ''workflow run rejected'' (Some s)
      [(''state'', JStr (run_value RRejected)), (''reason'', JStr reason)] db4" and rst: "rst = RRejected"
    using assms(1) by (simp_all only: sum.inject prod.inject)
  show "rst = RRejected" by (rule rst)
  show "step_st db r s = Some SAwaiting_approval" by (rule aw)
  have skips: "load_step (fold (skip_dependent r) ss db) q t = load_step db q t" if "\<not> (q = r \<and> t \<in> set ss)" for ss db
    using that by (induction ss arbitrary: db) auto
  show "load_step db' q t = load_step db q t"
    if n: "\<not> (q = r \<and> (t = s \<or> t \<in> dependents_of (load_dag db r) s \<and>
      (\<exists>st. step_st db q t = Some st \<and> \<not> step_is_terminal st)))"
  proof -
    have "\<not> (q = r \<and> t \<in> set (open_dependents db2 r s))" using n unfolding op mem_Collect_eq st2 by auto
    then have "load_step db' q t = load_step db2 q t" unfolding db' db4_def by (simp add: skips)
    moreover have "load_step db2 q t = load_step db q t" using n by (auto simp: db2_def db1_def)
    ultimately show ?thesis by simp
  qed
  show "step_st db' q t = (if q = r \<and> t = s then Some SCancelled
      else if q = r \<and> t \<in> dependents_of (load_dag db r) s \<and> (\<exists>st. step_st db q t = Some st \<and> \<not> step_is_terminal st)
      then Some SSkipped else step_st db q t)"
    unfolding db' db4_def
    by (cases "q = r"; cases "t = s"; simp only: step_st_post st_update_other step_st_skip_dependents op st2
        mem_Collect_eq simp_thms if_True if_False; auto)
  show "run_st db' q = (if q = r \<and> run_st db q \<noteq> None then Some RRejected else run_st db q)"
    unfolding db' db4_def by (auto simp: run_st_update step_st_skip_dependents rn2)
qed

end
