(* ===== verification/Executor.thy ===== *)
theory Executor
  imports Approvals
begin

text \<open>
  \<open>core/dag_executor.py\<close>: the scheduler of workflow runs, with \<open>ApprovalManager.approve\<close>, which
  resumes through it. Each definition is a section of the code under the executor's lock (or a
  whole operation that holds it). \<open>ex_tasks\<close> is the work handed to threads and not finished: a step
  submitted to a pool, a step whose runner is running, and a call of \<open>_schedule_ready\<close> a thread has
  still to make after it released the lock. \<open>uuid\<close> gives the n-th id drawn.
\<close>

section \<open>State\<close>

record run_ctx =
  cx_dag :: dag
  cx_limit :: int
  cx_in_flight :: "string set"
  cx_jobs :: "(string, string) dict"
  cx_finished :: bool

datatype task =
    Submitted string string "(string \<times> json) list"
  | Running string string dag_node "(string \<times> json) list"
  | Reschedule string

record exec_config =
  cf_limit :: int
  cf_approvals :: bool
  cf_infra :: bool

record exec =
  ex_db :: wf_db
  ex_ctxs :: "(string, run_ctx) dict"
  ex_tasks :: "task list"
  ex_torn :: "string list"
  ex_fresh :: nat

datatype exec_error =
    Unknown_definition string
  | Bad_definition serialization_error
  | Not_canonical
  | Unknown_run string
  | Already_executing string
  | Not_failed string run_state
  | Approval_error approval_error

definition ctx_of :: "exec \<Rightarrow> string \<Rightarrow> run_ctx option" where
  "ctx_of S r = map_of (ex_ctxs S) r"

text \<open>The context a thread may still act on: registered and not finished.\<close>

definition live_ctx :: "exec \<Rightarrow> string \<Rightarrow> run_ctx option" where
  "live_ctx S r = (case ctx_of S r of None \<Rightarrow> None | Some c \<Rightarrow> if cx_finished c then None else Some c)"

definition set_ctx :: "string \<Rightarrow> run_ctx \<Rightarrow> exec \<Rightarrow> exec" where
  "set_ctx r c S = S\<lparr>ex_ctxs := dict_set r c (ex_ctxs S)\<rparr>"

definition drop_ctx :: "string \<Rightarrow> exec \<Rightarrow> exec" where
  "drop_ctx r S = S\<lparr>ex_ctxs := dict_del r (ex_ctxs S)\<rparr>"

definition with_db :: "(wf_db \<Rightarrow> wf_db) \<Rightarrow> exec \<Rightarrow> exec" where
  "with_db f S = S\<lparr>ex_db := f (ex_db S)\<rparr>"

section \<open>Run creation\<close>

fun str_items :: "json list \<Rightarrow> string list option" where
  "str_items [] = Some []"
| "str_items (JStr s # xs) = map_option ((#) s) (str_items xs)"
| "str_items (_ # xs) = None"

text \<open>A step of a canonical definition; the deserializer lets no other pass.\<close>

definition definition_node :: "json \<Rightarrow> dag_node option" where
  "definition_node j =
     (case j of JObj step \<Rightarrow>
        (case (obj_get step ''id'', obj_get step ''type'', obj_get step ''config'', obj_get step ''dependsOn'') of
           (JStr sid, JStr ty, JObj cfg, JList deps) \<Rightarrow>
             map_option (\<lambda>ds. \<lparr>step_id = sid, step_type = ty, config = cfg, depends_on = ds\<rparr>) (str_items deps)
         | _ \<Rightarrow> None)
      | _ \<Rightarrow> None)"

fun definition_nodes :: "json list \<Rightarrow> (string, dag_node) dict \<Rightarrow> (string, dag_node) dict option" where
  "definition_nodes [] ns = Some ns"
| "definition_nodes (j # js) ns =
     (case definition_node j of None \<Rightarrow> None | Some n \<Rightarrow> definition_nodes js (dict_set (step_id n) n ns))"

definition dag_from_definition :: "(string \<times> json) list \<Rightarrow> dag option" where
  "dag_from_definition d =
     (case obj_get d ''steps'' of
        JList js \<Rightarrow> map_option (\<lambda>ns. \<lparr>nodes = ns, edges = dag_edges ns\<rparr>) (definition_nodes js [])
      | _ \<Rightarrow> None)"

definition load_definition :: "string \<Rightarrow> exec \<Rightarrow> exec_error + (string \<times> json) list" where
  "load_definition did S =
     (case map_of (db_definitions (ex_db S)) did of
        None \<Rightarrow> Inl (Unknown_definition did)
      | Some d \<Rightarrow> (case canonicalize d of Inl e \<Rightarrow> Inl (Bad_definition e) | Inr c \<Rightarrow> Inr c))"

text \<open>\<open>isinstance(value, int)\<close> also holds of \<open>True\<close>.\<close>

fun positive_int :: "json \<Rightarrow> int option" where
  "positive_int (JInt i) = (if 0 < i then Some i else None)"
| "positive_int (JBool b) = (if b then Some 1 else None)"
| "positive_int _ = None"

definition resolve_limit :: "exec_config \<Rightarrow> (string \<times> json) list \<Rightarrow> int option \<Rightarrow> int" where
  "resolve_limit cfg d ovr =
     (case ovr of Some i \<Rightarrow> max 1 i
      | None \<Rightarrow>
          let pol = (case obj_get d ''policies'' of JObj p \<Rightarrow> p | _ \<Rightarrow> []) in
          (case positive_int (obj_get pol ''concurrencyLimit'') of Some i \<Rightarrow> i
           | None \<Rightarrow> (case positive_int (obj_get pol ''concurrency_limit'') of Some i \<Rightarrow> i
                      | None \<Rightarrow> cf_limit cfg)))"

definition new_step_row :: "dag_node \<Rightarrow> step_row" where
  "new_step_row n = \<lparr>sr_type = step_type n, sr_state = SPending, sr_deps = depends_on n,
     sr_config = config n, sr_output = None, sr_error = None, sr_started = None, sr_finished = None\<rparr>"

definition insert_run :: "string \<Rightarrow> string \<Rightarrow> int \<Rightarrow> dag \<Rightarrow> wf_db \<Rightarrow> wf_db" where
  "insert_run rid did lmt d db = db\<lparr>
     db_runs := db_runs db @ [(rid, \<lparr>rr_definition = did, rr_state = RPending, rr_limit = lmt,
        rr_created = db_now db, rr_started = None, rr_finished = None\<rparr>)],
     db_steps := db_steps db @ map (\<lambda>n. ((rid, step_id n), new_step_row n)) (map snd (nodes d))\<rparr>"

definition start_run ::
  "exec_config \<Rightarrow> (nat \<Rightarrow> string) \<Rightarrow> string \<Rightarrow> int option \<Rightarrow> exec \<Rightarrow> exec_error + (string \<times> exec)" where
  "start_run cfg uuid did ovr S =
     rbind (load_definition did S) (\<lambda>d.
       case dag_from_definition d of
         None \<Rightarrow> Inl Not_canonical
       | Some g \<Rightarrow>
           let rid = uuid (ex_fresh S);
               db1 = insert_run rid did (resolve_limit cfg d ovr) g (ex_db S);
               db2 = post rid ''run.created'' ''workflow run created'' None
                       [(''definition_id'', JStr did), (''state'', JStr (run_value RPending))] db1
           in Inr (rid, S\<lparr>ex_db := db2, ex_fresh := Suc (ex_fresh S)\<rparr>))"

section \<open>Readiness\<close>

definition all_deps_completed :: "dag \<Rightarrow> (string, step_state) dict \<Rightarrow> string \<Rightarrow> bool" where
  "all_deps_completed d sts s =
     list_all (\<lambda>dep. map_of sts dep = Some SCompleted) (filter (dict_has (nodes d)) (node_deps d s))"

definition ready_steps :: "dag \<Rightarrow> (string, step_state) dict \<Rightarrow> string list" where
  "ready_steps d sts =
     filter (\<lambda>s. map_of sts s = Some SPending \<and> all_deps_completed d sts s) (sort (dict_keys (nodes d)))"

definition dep_blocks :: "(string, step_state) dict \<Rightarrow> string \<Rightarrow> bool" where
  "dep_blocks sts dep =
     (case map_of sts dep of None \<Rightarrow> False | Some st \<Rightarrow> step_is_terminal st \<and> st \<noteq> SCompleted)"

definition blocked :: "dag \<Rightarrow> (string, step_state) dict \<Rightarrow> string \<Rightarrow> bool" where
  "blocked d sts s =
     (map_of sts s = Some SPending \<and>
      list_ex (\<lambda>dep. dict_has (nodes d) dep \<and> dep_blocks sts dep) (node_deps d s))"

text \<open>One pass of \<open>_skip_blocked\<close>: the steps skipped, in order, and the states after it.\<close>

fun skip_pass :: "dag \<Rightarrow> string list \<Rightarrow> (string, step_state) dict \<Rightarrow> string list \<times> (string, step_state) dict" where
  "skip_pass d [] sts = ([], sts)"
| "skip_pass d (s # ss) sts =
     (if blocked d sts s
      then (case skip_pass d ss (dict_set s SSkipped sts) of (xs, sts') \<Rightarrow> (s # xs, sts'))
      else skip_pass d ss sts)"

definition pending_set :: "dag \<Rightarrow> (string, step_state) dict \<Rightarrow> string set" where
  "pending_set d sts = {s \<in> dag_ids d. map_of sts s = Some SPending}"

lemma skip_pass_get:
  "skip_pass d ss sts = (xs, sts') \<Longrightarrow>
    map_of sts' t = (if t \<in> set xs then Some SSkipped else map_of sts t)"
proof (induction ss arbitrary: sts xs)
  case (Cons s ss)
  show ?case
  proof (cases "blocked d sts s")
    case True
    then obtain ys where ys: "skip_pass d ss (dict_set s SSkipped sts) = (ys, sts')" "xs = s # ys"
      using Cons.prems by (auto split: prod.splits)
    show ?thesis using Cons.IH[OF ys(1)] ys(2) by (auto simp: dict_simps)
  qed (use Cons in simp)
qed simp

lemma skip_pass_sub:
  "skip_pass d ss sts = (xs, sts') \<Longrightarrow> set xs \<subseteq> {s \<in> set ss. map_of sts s = Some SPending}"
proof (induction ss arbitrary: sts xs)
  case (Cons s ss)
  show ?case
  proof (cases "blocked d sts s")
    case True
    then obtain ys where ys: "skip_pass d ss (dict_set s SSkipped sts) = (ys, sts')" "xs = s # ys"
      using Cons.prems by (auto split: prod.splits)
    have "set ys \<subseteq> {t \<in> set ss. map_of (dict_set s SSkipped sts) t = Some SPending}"
      by (rule Cons.IH[OF ys(1)])
    then have "set ys \<subseteq> {t \<in> set (s # ss). map_of sts t = Some SPending}"
      by (auto simp: dict_simps split: if_splits)
    then show ?thesis using True ys(2) by (auto simp: blocked_def)
  qed (use Cons in fastforce)
qed simp

lemma skip_pass_decreases:
  assumes eq: "skip_pass d (sort (dict_keys (nodes d))) sts = (xs, sts')" and ne: "xs \<noteq> []"
  shows "card (pending_set d sts') < card (pending_set d sts)"
proof -
  obtain x where "x \<in> set xs" using ne by (cases xs) auto
  then have "pending_set d sts' \<subset> pending_set d sts"
    using skip_pass_sub[OF eq] skip_pass_get[OF eq] by (auto simp: pending_set_def)
  then show ?thesis by (simp add: psubset_card_mono pending_set_def)
qed

function skip_fix :: "dag \<Rightarrow> (string, step_state) dict \<Rightarrow> string list \<times> (string, step_state) dict" where
  "skip_fix d sts =
     (case skip_pass d (sort (dict_keys (nodes d))) sts of
        (xs, sts') \<Rightarrow> if xs = [] then ([], sts)
                      else (case skip_fix d sts' of (ys, sts'') \<Rightarrow> (xs @ ys, sts'')))"
  by pat_completeness auto
termination
  by (relation "measure (\<lambda>(d, sts). card (pending_set d sts))") (use skip_pass_decreases in force)+

declare skip_fix.simps [simp del]

section \<open>Scheduling\<close>

definition collect_inputs :: "wf_db \<Rightarrow> string \<Rightarrow> dag_node \<Rightarrow> (string \<times> json) list" where
  "collect_inputs db r n =
     fold (\<lambda>dep acc. case load_step db r dep of None \<Rightarrow> acc
        | Some v \<Rightarrow> (case sr_output v of None \<Rightarrow> acc | Some j \<Rightarrow> dict_set dep j acc)) (depends_on n) []"

definition approval_context :: "wf_db \<Rightarrow> string \<Rightarrow> dag_node \<Rightarrow> (string \<times> json) list" where
  "approval_context db r n =
     [(''step_id'', JStr (step_id n)), (''step_type'', JStr (step_type n)),
      (''config'', JObj (config n)), (''inputs'', JObj (collect_inputs db r n))]"

definition checkpoint_step :: "string \<Rightarrow> dag \<Rightarrow> string \<Rightarrow> wf_db \<Rightarrow> wf_db" where
  "checkpoint_step r d s db =
     (case map_of (nodes d) s of None \<Rightarrow> db
      | Some n \<Rightarrow> (case enter_checkpoint r s (approval_context db r n) db of
          Inl _ \<Rightarrow> db | Inr db' \<Rightarrow> db'))"

definition is_approval :: "dag \<Rightarrow> string \<Rightarrow> bool" where
  "is_approval d s = (case map_of (nodes d) s of None \<Rightarrow> False | Some n \<Rightarrow> step_type n = ''approval'')"

definition enter_ready_checkpoints :: "string \<Rightarrow> dag \<Rightarrow> (string, step_state) dict \<Rightarrow> wf_db \<Rightarrow> wf_db" where
  "enter_ready_checkpoints r d sts = fold (checkpoint_step r d) (filter (is_approval d) (ready_steps d sts))"

definition occupying :: "step_state \<Rightarrow> bool" where
  "occupying st = (st \<in> {SReady, SRunning})"

definition dispatch_step :: "string \<Rightarrow> string \<Rightarrow> exec \<Rightarrow> exec" where
  "dispatch_step r s S =
     (case ctx_of S r of None \<Rightarrow> S
      | Some c \<Rightarrow> (case map_of (nodes (cx_dag c)) s of None \<Rightarrow> S
        | Some n \<Rightarrow>
            let inputs = collect_inputs (ex_db S) r n;
                db' = emit_step_state r s SRunning None (persist_step_state r s SRunning None None True False (ex_db S))
            in (set_ctx r (c\<lparr>cx_in_flight := insert s (cx_in_flight c)\<rparr>) S)
                 \<lparr>ex_db := db', ex_tasks := ex_tasks S @ [Submitted r s inputs]\<rparr>))"

definition derive_outcome :: "(string, step_state) dict \<Rightarrow> run_state" where
  "derive_outcome sts = (if list_ex (\<lambda>(s, st). st = SFailed) sts then RFailed else RCompleted)"

definition finish :: "string \<Rightarrow> (string, step_state) dict \<Rightarrow> exec \<Rightarrow> exec" where
  "finish r sts S =
     (let outcome = derive_outcome sts;
          ty = (if outcome = RCompleted then ''run.completed'' else ''run.failed'')
      in drop_ctx r (with_db (\<lambda>db.
           post r ty (''workflow run '' @ run_value outcome) None [(''state'', JStr (run_value outcome))]
             (set_run_state r outcome False True db)) S))"

text \<open>The free slots, and the ready steps that take them, lowest id first.\<close>

definition slots :: "run_ctx \<Rightarrow> (string, step_state) dict \<Rightarrow> nat" where
  "slots c sts = nat (cx_limit c - int (length (filter (\<lambda>(s, st). occupying st) sts)))"

definition dispatch_ready :: "string \<Rightarrow> run_ctx \<Rightarrow> (string, step_state) dict \<Rightarrow> exec \<Rightarrow> exec" where
  "dispatch_ready r c sts = fold (dispatch_step r) (take (slots c sts) (ready_steps (cx_dag c) sts))"

definition pause_if_waiting :: "string \<Rightarrow> (string, step_state) dict \<Rightarrow> exec \<Rightarrow> exec" where
  "pause_if_waiting r sts S =
     (case ctx_of S r of None \<Rightarrow> S
      | Some c \<Rightarrow>
         if cx_in_flight c = {} \<and> list_ex (\<lambda>(s, st). st = SAwaiting_approval) sts then drop_ctx r S else S)"

definition schedule_ready :: "exec_config \<Rightarrow> string \<Rightarrow> exec \<Rightarrow> exec" where
  "schedule_ready cfg r S =
     (case live_ctx S r of None \<Rightarrow> S
      | Some c \<Rightarrow>
         let d = cx_dag c;
             skipped = fst (skip_fix d (load_step_states (ex_db S) r));
             S1 = with_db (fold (mark_step r SSkipped) skipped) S;
             sts1 = load_step_states (ex_db S1) r
         in if list_all (\<lambda>(s, st). step_is_terminal st) sts1 then finish r sts1 S1
            else let S2 = (if cf_approvals cfg then with_db (enter_ready_checkpoints r d sts1) S1 else S1);
                     sts2 = load_step_states (ex_db S2) r
                 in pause_if_waiting r sts2 (dispatch_ready r c sts2 S2))"

section \<open>Execution\<close>

definition run_limit :: "exec_config \<Rightarrow> run_row \<Rightarrow> int" where
  "run_limit cfg v = max 1 (if rr_limit v = 0 then cf_limit cfg else rr_limit v)"

definition fresh_ctx :: "exec_config \<Rightarrow> wf_db \<Rightarrow> string \<Rightarrow> run_row \<Rightarrow> run_ctx" where
  "fresh_ctx cfg db r v = \<lparr>cx_dag = load_dag db r, cx_limit = run_limit cfg v, cx_in_flight = {},
     cx_jobs = [], cx_finished = False\<rparr>"

text \<open>\<open>execute_run\<close> up to its call of \<open>_schedule_ready\<close>, which is left as a task.\<close>

definition execute_run :: "exec_config \<Rightarrow> string \<Rightarrow> exec \<Rightarrow> exec_error + (run_state \<times> exec)" where
  "execute_run cfg r S =
     (case load_run (ex_db S) r of
        None \<Rightarrow> Inl (Unknown_run r)
      | Some v \<Rightarrow>
          if run_is_terminal (rr_state v) then Inr (rr_state v, S)
          else if dict_has (ex_ctxs S) r then Inl (Already_executing r)
          else let S1 = set_ctx r (fresh_ctx cfg (ex_db S) r v) S;
                   S2 = with_db (set_run_state r RRunning True False) S1
               in Inr (RRunning, S2\<lparr>ex_tasks := ex_tasks S2 @ [Reschedule r]\<rparr>))"

definition record_step_job :: "string \<Rightarrow> string \<Rightarrow> string \<Rightarrow> exec \<Rightarrow> exec" where
  "record_step_job r s job S =
     (case ctx_of S r of None \<Rightarrow> S
      | Some c \<Rightarrow> set_ctx r (c\<lparr>cx_jobs := dict_set s job (cx_jobs c)\<rparr>) S)"

text \<open>A pool thread takes a submitted step: it reads the context, or gives up without one.\<close>

definition begin_step :: "string \<Rightarrow> string \<Rightarrow> (string \<times> json) list \<Rightarrow> exec \<Rightarrow> exec" where
  "begin_step r s inputs S =
     (let S1 = S\<lparr>ex_tasks := remove1 (Submitted r s inputs) (ex_tasks S)\<rparr> in
      case ctx_of S r of None \<Rightarrow> S1
      | Some c \<Rightarrow> (case map_of (nodes (cx_dag c)) s of None \<Rightarrow> S1
        | Some n \<Rightarrow> S1\<lparr>ex_tasks := ex_tasks S1 @ [Running r s n inputs]\<rparr>))"

definition result_state :: "step_result \<Rightarrow> step_state" where
  "result_state res = (if step_is_terminal (res_state res) then res_state res else SFailed)"

definition on_step_complete :: "string \<Rightarrow> string \<Rightarrow> step_result \<Rightarrow> exec \<Rightarrow> exec" where
  "on_step_complete r s res S =
     (case live_ctx S r of None \<Rightarrow> S
      | Some c \<Rightarrow>
         let db' = emit_step_state r s (result_state res) (res_error res)
                     (persist_step_state r s (result_state res) (map_option JObj (res_output res)) (res_error res)
                        False True (ex_db S))
         in (set_ctx r (c\<lparr>cx_in_flight := cx_in_flight c - {s}\<rparr>) S)
              \<lparr>ex_db := db', ex_tasks := ex_tasks S @ [Reschedule r]\<rparr>)"

definition open_steps :: "wf_db \<Rightarrow> string \<Rightarrow> string list" where
  "open_steps db r = map fst (filter (\<lambda>(s, st). \<not> step_is_terminal st) (load_step_states db r))"

definition abort_run :: "string \<Rightarrow> string \<Rightarrow> string \<Rightarrow> exec \<Rightarrow> exec" where
  "abort_run r s reason S =
     (case live_ctx S r of None \<Rightarrow> S
      | Some c \<Rightarrow>
         drop_ctx r (with_db (\<lambda>db.
           let db1 = emit_step_state r s SFailed (Some reason)
                       (persist_step_state r s SFailed None (Some reason) False True db);
               db2 = fold (mark_step r SSkipped) (open_steps db1 r) db1
           in post r ''run.failed'' ''workflow run stopped'' (Some s)
                [(''state'', JStr (run_value RFailed)), (''reason'', JStr reason)]
                (set_run_state r RFailed False True db2)) S))"

section \<open>Cancellation, retry and recovery\<close>

definition reason_json :: "string option \<Rightarrow> json" where
  "reason_json r = (case r of None \<Rightarrow> JNull | Some s \<Rightarrow> JStr s)"

definition torn_jobs :: "run_ctx option \<Rightarrow> wf_db \<Rightarrow> string \<Rightarrow> string list" where
  "torn_jobs c db r =
     (case c of
        Some c \<Rightarrow> map (\<lambda>s. dict_get_or (cx_jobs c) s s) (sorted_set (cx_in_flight c))
      | None \<Rightarrow> sorted_set (set (map fst (filter (\<lambda>(s, st). st = SRunning) (load_step_states db r)))))"

definition cancel_db :: "string \<Rightarrow> string option \<Rightarrow> wf_db \<Rightarrow> wf_db" where
  "cancel_db r reason db =
     (let db1 = post r ''run.cancelling'' ''workflow run cancellation requested'' None
                  [(''state'', JStr (run_value RCancelling)), (''reason'', reason_json reason)]
                  (set_run_state r RCancelling False False db);
          db2 = fold (mark_step r SCancelled) (open_steps db1 r) db1
      in post r ''run.cancelled'' ''workflow run cancelled'' None [(''state'', JStr (run_value RCancelled))]
           (set_run_state r RCancelled False True db2))"

definition cancel_run :: "exec_config \<Rightarrow> string \<Rightarrow> string option \<Rightarrow> exec \<Rightarrow> exec_error + (run_state \<times> exec)" where
  "cancel_run cfg r reason S =
     (case load_run (ex_db S) r of
        None \<Rightarrow> Inl (Unknown_run r)
      | Some v \<Rightarrow>
          if run_is_terminal (rr_state v) then Inr (rr_state v, S)
          else Inr (RCancelled, drop_ctx r (S\<lparr>ex_db := cancel_db r reason (ex_db S),
            ex_torn := ex_torn S @ (if cf_infra cfg then torn_jobs (ctx_of S r) (ex_db S) r else [])\<rparr>)))"

text \<open>The failed steps and everything that depends on one.\<close>

definition error_closure :: "dag \<Rightarrow> (string, step_state) dict \<Rightarrow> string set" where
  "error_closure d sts =
     (\<Union>s \<in> set (map fst (filter (\<lambda>(s, st). st = SFailed) sts)). insert s (dependents_of d s))"

definition retry_db :: "string \<Rightarrow> wf_db \<Rightarrow> wf_db" where
  "retry_db r db =
     (let closure = sorted_set (error_closure (load_dag db r) (load_step_states db r))
      in post r ''run.retried'' ''workflow run retry requested'' None
           [(''state'', JStr (run_value RPending)), (''retried_steps'', JList (map JStr closure))]
           (set_run_state r RPending False False (fold (restart_step r) closure db)))"

definition retry_run :: "exec_config \<Rightarrow> string \<Rightarrow> exec \<Rightarrow> exec_error + (run_state \<times> exec)" where
  "retry_run cfg r S =
     (case load_run (ex_db S) r of
        None \<Rightarrow> Inl (Unknown_run r)
      | Some v \<Rightarrow>
          if rr_state v \<noteq> RFailed then Inl (Not_failed r (rr_state v))
          else if dict_has (ex_ctxs S) r then Inl (Already_executing r)
          else execute_run cfg r (with_db (retry_db r) S))"

definition resume_run :: "exec_config \<Rightarrow> string \<times> run_state \<Rightarrow> exec \<Rightarrow> exec" where
  "resume_run cfg row S =
     (case row of (r, st) \<Rightarrow>
        if st = RAwaiting_approval then S
        else let S1 = with_db (reset_inflight_steps r) S
             in (case execute_run cfg r S1 of Inl _ \<Rightarrow> S1 | Inr (_, S2) \<Rightarrow> S2))"

definition resumable :: "wf_db \<Rightarrow> (string \<times> run_state) list" where
  "resumable db = filter (\<lambda>(r, st). st \<in> {RPending, RRunning, RAwaiting_approval})
     (map (\<lambda>(r, v). (r, rr_state v)) (db_runs db))"

definition resume_pending_runs :: "exec_config \<Rightarrow> exec \<Rightarrow> string list \<times> exec" where
  "resume_pending_runs cfg S =
     (let rows = resumable (ex_db S) in (map fst rows, fold (resume_run cfg) rows S))"

text \<open>\<open>ApprovalManager.approve\<close>: the decision, then the executor; a refused resume leaves the decision.\<close>

definition approve :: "exec_config \<Rightarrow> string \<Rightarrow> string \<Rightarrow> json \<Rightarrow> exec \<Rightarrow> exec_error option \<times> exec" where
  "approve cfg r s edits S =
     (case decide_approved r s edits (ex_db S) of
        Inl e \<Rightarrow> (Some (Approval_error e), S)
      | Inr db' \<Rightarrow>
          let S1 = S\<lparr>ex_db := db'\<rparr> in
          (case execute_run cfg r S1 of Inl e \<Rightarrow> (Some e, S1) | Inr (_, S2) \<Rightarrow> (None, S2)))"

end
