(* ===== verification/Exec_Steps.thy ===== *)
theory Exec_Steps
  imports Executor
begin

text \<open>
  The executor as a step relation over every operation a thread may perform, and what each
  operation changes: the state of a step, the rows it leaves alone, the state of a run, the
  contexts and the tasks.
\<close>

section \<open>Steps\<close>

definition take_task :: "task \<Rightarrow> exec \<Rightarrow> exec" where
  "take_task t S = S\<lparr>ex_tasks := remove1 t (ex_tasks S)\<rparr>"

definition set_clock :: "string \<Rightarrow> exec \<Rightarrow> exec" where
  "set_clock now = with_db (\<lambda>db. db\<lparr>db_now := now\<rparr>)"

definition save_definition :: "string \<Rightarrow> (string \<times> json) list \<Rightarrow> exec \<Rightarrow> exec" where
  "save_definition did d = with_db (\<lambda>db. db\<lparr>db_definitions := dict_set did d (db_definitions db)\<rparr>)"

text \<open>The process ends: its contexts and threads are gone, the tables stay. The next process
  resumes the runs at its start.\<close>

definition crash :: "exec \<Rightarrow> exec" where
  "crash S = S\<lparr>ex_ctxs := [], ex_tasks := []\<rparr>"

inductive exec_step :: "exec_config \<Rightarrow> (nat \<Rightarrow> string) \<Rightarrow> exec \<Rightarrow> exec \<Rightarrow> bool" for cfg u where
  start: "start_run cfg u did ovr S = Inr (rid, S') \<Longrightarrow> exec_step cfg u S S'"
| execute: "execute_run cfg r S = Inr (st, S') \<Longrightarrow> exec_step cfg u S S'"
| reschedule: "Reschedule r \<in> set (ex_tasks S) \<Longrightarrow>
    exec_step cfg u S (schedule_ready cfg r (take_task (Reschedule r) S))"
| begin_task: "Submitted r s inp \<in> set (ex_tasks S) \<Longrightarrow> exec_step cfg u S (begin_step r s inp S)"
| complete: "Running r s n inp \<in> set (ex_tasks S) \<Longrightarrow>
    exec_step cfg u S (on_step_complete r s res (take_task (Running r s n inp) S))"
| stop: "Running r s n inp \<in> set (ex_tasks S) \<Longrightarrow>
    exec_step cfg u S (abort_run r s reason (take_task (Running r s n inp) S))"
| job: "exec_step cfg u S (record_step_job r s j S)"
| cancel: "cancel_run cfg r why S = Inr (st, S') \<Longrightarrow> exec_step cfg u S S'"
| retry: "retry_run cfg r S = Inr (st, S') \<Longrightarrow> exec_step cfg u S S'"
| approval: "exec_step cfg u S (snd (approve cfg r s ed S))"
| rejection: "reject r s reason (ex_db S) = Inr (st, db') \<Longrightarrow> exec_step cfg u S (S\<lparr>ex_db := db'\<rparr>)"
| restart: "exec_step cfg u S (snd (resume_pending_runs cfg (crash S)))"
| clock: "exec_step cfg u S (set_clock now S)"
| save: "exec_step cfg u S (save_definition did d S)"

definition initial_exec :: "exec" where
  "initial_exec = \<lparr>ex_db = \<lparr>db_definitions = [], db_runs = [], db_steps = [],
     db_events = empty_store, db_now = []\<rparr>, ex_ctxs = [], ex_tasks = [], ex_torn = [], ex_fresh = 0\<rparr>"

inductive reachable :: "exec_config \<Rightarrow> (nat \<Rightarrow> string) \<Rightarrow> exec \<Rightarrow> bool" for cfg u where
  reachable_init: "reachable cfg u initial_exec"
| reachable_step: "reachable cfg u S \<Longrightarrow> exec_step cfg u S S' \<Longrightarrow> reachable cfg u S'"

text \<open>What the model needs of \<open>uuid4\<close>: no id twice, and none empty.\<close>

definition uuid_ok :: "(nat \<Rightarrow> string) \<Rightarrow> bool" where
  "uuid_ok u \<longleftrightarrow> inj u \<and> (\<forall>n. u n \<noteq> [])"

section \<open>Rows an operation leaves alone\<close>

definition same_rows :: "(string \<times> string) set \<Rightarrow> wf_db \<Rightarrow> wf_db \<Rightarrow> bool" where
  "same_rows A a b \<longleftrightarrow> (\<forall>q t. (q, t) \<notin> A \<longrightarrow> load_step b q t = load_step a q t)"

lemma same_rows_refl [simp]: "same_rows A db db"
  by (simp add: same_rows_def)

lemma same_rows_trans: "same_rows A a b \<Longrightarrow> same_rows A b c \<Longrightarrow> same_rows A a c"
  by (simp add: same_rows_def)

lemma same_rows_mono: "same_rows A a b \<Longrightarrow> A \<subseteq> B \<Longrightarrow> same_rows B a b"
  by (auto simp: same_rows_def)

lemma same_rows_post [simp]:
  "same_rows A a (post r ty m so p db) = same_rows A a db"
  "same_rows A a (emit_step_state r s st e db) = same_rows A a db"
  "same_rows A a (set_run_state r rst b c db) = same_rows A a db"
  "same_rows A a (update_run r g db) = same_rows A a db"
  by (simp_all add: same_rows_def set_run_state_def)

lemma same_rows_update: "(r, s) \<in> A \<Longrightarrow> same_rows A a db \<Longrightarrow> same_rows A a (update_step r s f db)"
  by (auto simp: same_rows_def)

lemma same_rows_persist: "(r, s) \<in> A \<Longrightarrow> same_rows A a db \<Longrightarrow> same_rows A a (persist_step_state r s st out err b c db)"
  by (simp add: persist_step_state_def same_rows_update)

lemma same_rows_mark: "(r, s) \<in> A \<Longrightarrow> same_rows A a db \<Longrightarrow> same_rows A a (mark_step r st s db)"
  by (simp add: mark_step_def same_rows_persist)

lemma same_rows_restart: "(r, s) \<in> A \<Longrightarrow> same_rows A a db \<Longrightarrow> same_rows A a (restart_step r s db)"
  by (simp add: restart_step_def reset_step_def same_rows_update)

lemma same_rows_skip: "(r, s) \<in> A \<Longrightarrow> same_rows A a db \<Longrightarrow> same_rows A a (skip_dependent r s db)"
  by (simp add: skip_dependent_def same_rows_update)

lemma same_rows_fold:
  "(\<And>s db. s \<in> set ss \<Longrightarrow> same_rows A a db \<Longrightarrow> same_rows A a (f s db)) \<Longrightarrow> same_rows A a db \<Longrightarrow> same_rows A a (fold f ss db)"
  by (induction ss arbitrary: db) auto

lemma same_rows_checkpoint:
  "enter_checkpoint r s ctx db = Inr db' \<Longrightarrow> (r, s) \<in> A \<Longrightarrow> same_rows A a db \<Longrightarrow> same_rows A a db'"
  by (auto simp: same_rows_def enter_checkpoint_load)

lemma same_rows_inflight:
  "same_rows {(q, t). q = r \<and> step_st db q t \<in> {Some SRunning, Some SReady}} db (reset_inflight_steps r db)"
proof -
  have "load_step (reset_inflight_steps r db) q t = load_step db q t"
    if "\<not> (q = r \<and> step_st db q t \<in> {Some SRunning, Some SReady})" for q t
    using that by (cases "load_step db q t")
      (auto simp: reset_inflight_steps_def load_step_def dict_simps step_st_def)
  then show ?thesis by (auto simp: same_rows_def)
qed

text \<open>A row that is left alone keeps its state.\<close>

lemma same_rows_st: "same_rows A a b \<Longrightarrow> (q, t) \<notin> A \<Longrightarrow> step_st b q t = step_st a q t"
  by (simp add: same_rows_def step_st_def)

section \<open>The log through an operation\<close>

definition logs :: "wf_db \<Rightarrow> bool" where "logs db = log_ok (db_events db)"

named_theorems log_keep "operations that keep the log well formed"

lemma post_log [log_keep]: "logs db \<Longrightarrow> logs (post r ty m so p db)"
  by (auto simp: logs_def post_def split: option.split intro: wlog.record_good)

lemma emit_log [log_keep]: "logs db \<Longrightarrow> logs (emit_step_state r s st e db)"
  by (simp add: emit_step_state_def log_keep)

lemma writers_log [log_keep]:
  "logs db \<Longrightarrow> logs (update_step r s f db)"
  "logs db \<Longrightarrow> logs (update_run r g db)"
  "logs db \<Longrightarrow> logs (persist_step_state r s st out err b c db)"
  "logs db \<Longrightarrow> logs (set_run_state r rst b c db)"
  "logs db \<Longrightarrow> logs (reset_step r s db)"
  "logs db \<Longrightarrow> logs (reset_inflight_steps r db)"
  by (simp_all add: logs_def persist_step_state_def set_run_state_def reset_step_def reset_inflight_steps_def)

lemma marks_log [log_keep]:
  "logs db \<Longrightarrow> logs (mark_step r st s db)"
  "logs db \<Longrightarrow> logs (restart_step r s db)"
  "logs db \<Longrightarrow> logs (skip_dependent r s db)"
  by (simp_all add: mark_step_def restart_step_def skip_dependent_def log_keep)

lemma fold_log: "(\<And>x db. logs db \<Longrightarrow> logs (f x db)) \<Longrightarrow> logs db \<Longrightarrow> logs (fold f xs db)"
  by (induction xs arbitrary: db) auto

lemma checkpoint_log: "logs db \<Longrightarrow> enter_checkpoint r s ctx db = Inr db' \<Longrightarrow> logs db'"
  by (auto simp: enter_checkpoint_def Let_def log_keep split: option.splits)

lemma approved_log: "logs db \<Longrightarrow> decide_approved r s ed db = Inr db' \<Longrightarrow> logs db'"
  by (auto simp: decide_approved_def Let_def log_keep rbind_Inr_iff)

lemma reject_log: "logs db \<Longrightarrow> reject r s reason db = Inr (st, db') \<Longrightarrow> logs db'"
  by (auto simp: reject_def Let_def log_keep rbind_Inr_iff intro!: log_keep fold_log)

end
