(* ===== verification/Run_View.thy ===== *)
theory Run_View
  imports Exec_Steps
begin

text \<open>
  What the executor promises of one run, apart from tables and threads: the view of a run is its
  graph, its state, the states of its steps, its limit, whether a thread drives it, and the steps
  handed to pool threads. The invariant of a view and the changes of a view that keep it.
\<close>

record run_view =
  rv_graph :: dag
  rv_state :: "run_state option"
  rv_steps :: "string \<Rightarrow> step_state option"
  rv_limit :: int
  rv_live :: bool
  rv_work :: "string list"

definition done_at :: "run_view \<Rightarrow> string \<Rightarrow> bool" where
  "done_at v s \<longleftrightarrow> rv_steps v s = Some SCompleted"

definition deps_done :: "run_view \<Rightarrow> string \<Rightarrow> bool" where
  "deps_done v s \<longleftrightarrow> (\<forall>p \<in> predecessors (rv_graph v) s. done_at v p)"

text \<open>A step that was released: its dependencies had to be completed for that.\<close>

definition released :: "step_state \<Rightarrow> bool" where
  "released st \<longleftrightarrow> st \<in> {SReady, SRunning, SAwaiting_approval, SCompleted}"

definition occ_set :: "run_view \<Rightarrow> string set" where
  "occ_set v = {s. \<exists>st. rv_steps v s = Some st \<and> occupying st}"

definition all_terminal :: "run_view \<Rightarrow> bool" where
  "all_terminal v \<longleftrightarrow> (\<forall>s st. rv_steps v s = Some st \<longrightarrow> step_is_terminal st)"

definition settled :: "run_state \<Rightarrow> bool" where
  "settled rs \<longleftrightarrow> rs \<in> {RCompleted, RFailed, RCancelled}"

section \<open>The invariant\<close>

definition steps_known :: "run_view \<Rightarrow> bool" where
  "steps_known v \<longleftrightarrow> (\<forall>s. rv_steps v s \<noteq> None \<longleftrightarrow> s \<in> dag_ids (rv_graph v)) \<and>
     (rv_state v = None \<longrightarrow> dag_ids (rv_graph v) = {})"

definition deps_respected :: "run_view \<Rightarrow> bool" where
  "deps_respected v \<longleftrightarrow> (\<forall>s st. rv_steps v s = Some st \<longrightarrow> released st \<longrightarrow> deps_done v s)"

definition work_ok :: "run_view \<Rightarrow> bool" where
  "work_ok v \<longleftrightarrow> distinct (rv_work v) \<and>
     (\<forall>s \<in> set (rv_work v). rv_steps v s \<in> {Some SRunning, Some SSkipped, Some SCancelled} \<and> deps_done v s)"

definition bound_ok :: "run_view \<Rightarrow> bool" where
  "bound_ok v \<longleftrightarrow> int (card (occ_set v)) \<le> max 0 (rv_limit v)"

definition outcome_ok :: "run_view \<Rightarrow> bool" where
  "outcome_ok v \<longleftrightarrow> (\<forall>rs. rv_state v = Some rs \<longrightarrow> settled rs \<longrightarrow>
     \<not> rv_live v \<and> all_terminal v \<and>
     (rs = RCompleted \<longrightarrow> (\<forall>s. rv_steps v s \<noteq> Some SFailed)) \<and>
     (rs = RFailed \<longrightarrow> (\<exists>s. rv_steps v s = Some SFailed)))"

definition view_ok :: "run_view \<Rightarrow> bool" where
  "view_ok v \<longleftrightarrow> steps_known v \<and> deps_respected v \<and> work_ok v \<and> bound_ok v \<and> outcome_ok v"

lemma view_okI:
  "steps_known v \<Longrightarrow> deps_respected v \<Longrightarrow> work_ok v \<Longrightarrow> bound_ok v \<Longrightarrow> outcome_ok v \<Longrightarrow> view_ok v"
  by (simp add: view_ok_def)

lemma view_okD:
  assumes "view_ok v"
  shows "steps_known v" "deps_respected v" "work_ok v" "bound_ok v" "outcome_ok v"
  using assms by (simp_all add: view_ok_def)

lemma occ_set_sub: "steps_known v \<Longrightarrow> occ_set v \<subseteq> dag_ids (rv_graph v)"
  by (auto simp: occ_set_def steps_known_def)

lemma finite_occ_set: "steps_known v \<Longrightarrow> finite (occ_set v)"
  using finite_subset[OF occ_set_sub finite_dag_ids] .

section \<open>Changes of a view\<close>

text \<open>All steps of a set take one state; steps the run does not have stay absent.\<close>

definition put_steps :: "string set \<Rightarrow> step_state \<Rightarrow> run_view \<Rightarrow> run_view" where
  "put_steps A st v = v\<lparr>rv_steps := (\<lambda>s. if s \<in> A \<and> rv_steps v s \<noteq> None then Some st else rv_steps v s)\<rparr>"

lemma put_steps_simps [simp]:
  "rv_graph (put_steps A st v) = rv_graph v"
  "rv_state (put_steps A st v) = rv_state v"
  "rv_limit (put_steps A st v) = rv_limit v"
  "rv_live (put_steps A st v) = rv_live v"
  "rv_work (put_steps A st v) = rv_work v"
  "rv_steps (put_steps A st v) s = (if s \<in> A \<and> rv_steps v s \<noteq> None then Some st else rv_steps v s)"
  by (simp_all add: put_steps_def)

lemma put_steps_known [simp]: "steps_known (put_steps A st v) = steps_known v"
  by (auto simp: steps_known_def)

text \<open>
  The rule behind every change: what was completed stays so, and a step is released only when it
  was before or its dependencies are completed.
\<close>

definition advances :: "run_view \<Rightarrow> run_view \<Rightarrow> bool" where
  "advances v w \<longleftrightarrow> rv_graph w = rv_graph v \<and> (\<forall>s. done_at v s \<longrightarrow> done_at w s) \<and>
     (\<forall>s st. rv_steps w s = Some st \<longrightarrow> released st \<longrightarrow>
        (\<exists>st'. rv_steps v s = Some st' \<and> released st') \<or> deps_done v s)"

lemma advances_deps: "advances v w \<Longrightarrow> deps_done v s \<Longrightarrow> deps_done w s"
  by (auto simp: advances_def deps_done_def)

lemma advances_respected:
  assumes "advances v w" "deps_respected v"
  shows "deps_respected w"
  unfolding deps_respected_def
proof (intro allI impI)
  fix s st assume "rv_steps w s = Some st" "released st"
  then have "(\<exists>st'. rv_steps v s = Some st' \<and> released st') \<or> deps_done v s"
    using assms(1) by (simp add: advances_def)
  then have "deps_done v s" using assms(2) by (auto simp: deps_respected_def)
  then show "deps_done w s" by (rule advances_deps[OF assms(1)])
qed

lemma advances_work:
  assumes "advances v w" "work_ok v" "distinct (rv_work w)" "set (rv_work w) \<subseteq> set (rv_work v)"
    and "\<And>s. s \<in> set (rv_work w) \<Longrightarrow> rv_steps v s \<in> {Some SRunning, Some SSkipped, Some SCancelled} \<Longrightarrow>
      rv_steps w s \<in> {Some SRunning, Some SSkipped, Some SCancelled}"
  shows "work_ok w"
  unfolding work_ok_def
proof (intro conjI ballI)
  fix s assume s: "s \<in> set (rv_work w)"
  then have sv: "s \<in> set (rv_work v)" using assms(4) by blast
  show "rv_steps w s \<in> {Some SRunning, Some SSkipped, Some SCancelled}"
    using assms(2,5) s sv by (simp add: work_ok_def)
  show "deps_done w s" using assms(2) sv advances_deps[OF assms(1)] by (simp add: work_ok_def)
qed (rule assms(3))

lemma bound_shrinks:
  assumes "steps_known v" "bound_ok v" "occ_set w \<subseteq> occ_set v" "rv_limit w = rv_limit v"
  shows "bound_ok w"
  using assms card_mono[OF finite_occ_set[OF assms(1)] assms(3)] by (simp add: bound_ok_def)

text \<open>Steps that are not completed leave the released states.\<close>

definition closing :: "step_state \<Rightarrow> bool" where
  "closing st \<longleftrightarrow> st \<in> {SFailed, SSkipped, SCancelled, SPending}"

lemma put_closing_advances:
  assumes "closing st" "\<And>s. s \<in> A \<Longrightarrow> \<not> done_at v s"
  shows "advances v (put_steps A st v)"
  using assms by (auto simp: advances_def done_at_def closing_def released_def)

lemma put_closing_occ: "closing st \<Longrightarrow> occ_set (put_steps A st v) \<subseteq> occ_set v"
  by (auto simp: occ_set_def closing_def occupying_def)

text \<open>Skipping or cancelling steps that are still open.\<close>

lemma put_closed_ok:
  assumes "view_ok v" "st \<in> {SSkipped, SCancelled}"
    and "\<And>s. s \<in> A \<Longrightarrow> \<exists>st'. rv_steps v s = Some st' \<and> \<not> step_is_terminal st'"
  shows "view_ok (put_steps A st v)"
proof (cases "A = {}")
  case True
  then have "put_steps A st v = v" by (simp add: put_steps_def)
  then show ?thesis using assms(1) by simp
next
  case False
  note ok = view_okD[OF assms(1)]
  have nd: "\<not> done_at v s" if "s \<in> A" for s using assms(3)[OF that] by (auto simp: done_at_def)
  have cl: "closing st" using assms(2) by (auto simp: closing_def)
  have adv: "advances v (put_steps A st v)" by (rule put_closing_advances[OF cl nd])
  have open_run: "\<not> all_terminal v" using False assms(3) unfolding all_terminal_def by blast
  show ?thesis
  proof (rule view_okI)
    show "steps_known (put_steps A st v)" using ok(1) by simp
    show "deps_respected (put_steps A st v)" by (rule advances_respected[OF adv ok(2)])
    show "work_ok (put_steps A st v)"
      by (rule advances_work[OF adv ok(3)]) (use ok(3) assms(2) in \<open>auto simp: work_ok_def\<close>)
    show "bound_ok (put_steps A st v)"
      by (rule bound_shrinks[OF ok(1) ok(4) put_closing_occ[OF cl]]) simp
    show "outcome_ok (put_steps A st v)"
      using ok(5) open_run by (auto simp: outcome_ok_def)
  qed
qed

lemma open_not_settled:
  "view_ok v \<Longrightarrow> rv_steps v s = Some st \<Longrightarrow> \<not> step_is_terminal st \<Longrightarrow> rv_state v = Some rs \<Longrightarrow> \<not> settled rs"
  unfolding view_ok_def outcome_ok_def all_terminal_def by blast

text \<open>Changing the run's state to one that is not settled.\<close>

lemma set_state_ok:
  assumes "view_ok v" "\<not> settled rs"
  shows "view_ok (v\<lparr>rv_state := Some rs\<rparr>)"
  using assms by (simp add: view_ok_def steps_known_def deps_respected_def work_ok_def bound_ok_def
      outcome_ok_def occ_set_def deps_done_def done_at_def)

lemma set_live_ok:
  assumes "view_ok v" "b \<longrightarrow> (\<forall>rs. rv_state v = Some rs \<longrightarrow> \<not> settled rs)"
  shows "view_ok (v\<lparr>rv_live := b\<rparr>)"
  using assms by (auto simp: view_ok_def steps_known_def deps_respected_def work_ok_def bound_ok_def
      outcome_ok_def occ_set_def deps_done_def done_at_def all_terminal_def)

lemma drop_work_ok:
  assumes "view_ok v"
  shows "view_ok (v\<lparr>rv_work := remove1 s (rv_work v)\<rparr>)"
  using assms by (auto simp: view_ok_def steps_known_def deps_respected_def work_ok_def bound_ok_def
      outcome_ok_def occ_set_def deps_done_def done_at_def all_terminal_def dest: notin_set_remove1
      intro: distinct_remove1 in_set_remove1)

lemma set_work_ok:
  assumes "view_ok v" "work_ok (v\<lparr>rv_work := w\<rparr>)"
  shows "view_ok (v\<lparr>rv_work := w\<rparr>)"
proof (rule view_okI)
  note ok = view_okD[OF assms(1)]
  show "steps_known (v\<lparr>rv_work := w\<rparr>)" using ok(1) by (simp add: steps_known_def)
  show "deps_respected (v\<lparr>rv_work := w\<rparr>)"
    using ok(2) by (simp add: deps_respected_def deps_done_def done_at_def)
  show "work_ok (v\<lparr>rv_work := w\<rparr>)" by (rule assms(2))
  show "bound_ok (v\<lparr>rv_work := w\<rparr>)" using ok(4) by (simp add: bound_ok_def occ_set_def)
  have "all_terminal (v\<lparr>rv_work := w\<rparr>) = all_terminal v" by (simp add: all_terminal_def)
  then show "outcome_ok (v\<lparr>rv_work := w\<rparr>)" using ok(5) unfolding outcome_ok_def by auto
qed

text \<open>Settling the run: every step is terminal and nobody drives it any more.\<close>

lemma settle_ok:
  assumes "view_ok v" "settled rs" "all_terminal v"
    and "rs = RCompleted \<Longrightarrow> \<forall>s. rv_steps v s \<noteq> Some SFailed"
    and "rs = RFailed \<Longrightarrow> \<exists>s. rv_steps v s = Some SFailed"
  shows "view_ok (v\<lparr>rv_state := Some rs, rv_live := False\<rparr>)"
  using assms by (simp add: view_ok_def steps_known_def deps_respected_def work_ok_def bound_ok_def
      outcome_ok_def occ_set_def deps_done_def done_at_def all_terminal_def)

text \<open>A pending step whose dependencies are completed waits for a decision.\<close>

lemma put_waiting_ok:
  assumes "view_ok v" "\<And>s. s \<in> A \<Longrightarrow> rv_steps v s = Some SPending \<and> deps_done v s"
  shows "view_ok (put_steps A SAwaiting_approval v)"
proof (cases "A = {}")
  case True
  then have "put_steps A SAwaiting_approval v = v" by (simp add: put_steps_def)
  then show ?thesis using assms(1) by simp
next
  case False
  note ok = view_okD[OF assms(1)]
  have adv: "advances v (put_steps A SAwaiting_approval v)"
    using assms(2) by (auto simp: advances_def done_at_def)
  have open_run: "\<not> all_terminal v" using False assms(2) unfolding all_terminal_def by force
  show ?thesis
  proof (rule view_okI)
    show "steps_known (put_steps A SAwaiting_approval v)" using ok(1) by simp
    show "deps_respected (put_steps A SAwaiting_approval v)" by (rule advances_respected[OF adv ok(2)])
    show "work_ok (put_steps A SAwaiting_approval v)"
      by (rule advances_work[OF adv ok(3)]) (use ok(3) assms(2) in \<open>force simp: work_ok_def\<close>)+
    have "occ_set (put_steps A SAwaiting_approval v) \<subseteq> occ_set v"
      by (auto simp: occ_set_def occupying_def)
    then show "bound_ok (put_steps A SAwaiting_approval v)"
      using bound_shrinks[OF ok(1) ok(4)] by simp
    show "outcome_ok (put_steps A SAwaiting_approval v)"
      using ok(5) open_run by (auto simp: outcome_ok_def)
  qed
qed

text \<open>A waiting step is decided.\<close>

lemma put_decided_ok:
  assumes "view_ok v" "rv_steps v s = Some SAwaiting_approval" "step_is_terminal st"
  shows "view_ok (put_steps {s} st v)"
proof -
  note ok = view_okD[OF assms(1)]
  have nset: "\<not> settled rs" if "rv_state v = Some rs" for rs
    using open_not_settled[OF assms(1,2) _ that] by simp
  have adv: "advances v (put_steps {s} st v)"
    using assms(2) by (auto simp: advances_def done_at_def released_def)
  show ?thesis
  proof (rule view_okI)
    show "steps_known (put_steps {s} st v)" using ok(1) by simp
    show "deps_respected (put_steps {s} st v)" by (rule advances_respected[OF adv ok(2)])
    show "work_ok (put_steps {s} st v)"
      by (rule advances_work[OF adv ok(3)]) (use ok(3) assms(2) in \<open>auto simp: work_ok_def\<close>)
    have "occ_set (put_steps {s} st v) \<subseteq> occ_set v"
      using assms(3) by (auto simp: occ_set_def occupying_def)
    then show "bound_ok (put_steps {s} st v)" using bound_shrinks[OF ok(1) ok(4)] by simp
    show "outcome_ok (put_steps {s} st v)"
      using nset by (auto simp: outcome_ok_def)
  qed
qed

text \<open>A pool thread reports on the step it took: the only way a step is finished by its runner.\<close>

lemma put_result_ok:
  assumes "view_ok v" "s \<in> set (rv_work v)" "step_is_terminal st" "rv_live v"
  shows "view_ok ((put_steps {s} st v)\<lparr>rv_work := remove1 s (rv_work v)\<rparr>)"
proof -
  note ok = view_okD[OF assms(1)]
  let ?w = "(put_steps {s} st v)\<lparr>rv_work := remove1 s (rv_work v)\<rparr>"
  have s: "rv_steps v s \<in> {Some SRunning, Some SSkipped, Some SCancelled}" "deps_done v s"
    using ok(3) assms(2) by (simp_all add: work_ok_def)
  have adv: "advances v ?w"
    using s by (auto simp: advances_def done_at_def)
  have dist: "distinct (rv_work v)" using ok(3) by (simp add: work_ok_def)
  have nset: "\<not> settled rs" if "rv_state v = Some rs" for rs
    using ok(5) assms(4) that by (auto simp: outcome_ok_def)
  show ?thesis
  proof (rule view_okI)
    show "steps_known ?w" using ok(1) put_steps_known[of "{s}" st v] by (simp add: steps_known_def)
    show "deps_respected ?w" by (rule advances_respected[OF adv ok(2)])
    show "work_ok ?w"
      by (rule advances_work[OF adv ok(3)]) (use dist in auto)
    have "occ_set ?w \<subseteq> occ_set v"
      using assms(3) by (auto simp: occ_set_def occupying_def)
    then show "bound_ok ?w" using bound_shrinks[OF ok(1) ok(4)] by simp
    show "outcome_ok ?w" using nset by (auto simp: outcome_ok_def)
  qed
qed

text \<open>Ready steps are dispatched to free slots.\<close>

lemma dispatch_ok:
  assumes "view_ok v" "rv_state v \<noteq> None" "distinct ss"
    and "\<And>s. s \<in> set ss \<Longrightarrow> rv_steps v s = Some SPending \<and> deps_done v s"
    and "length ss \<le> nat (rv_limit v - int (card (occ_set v)))"
  shows "view_ok ((put_steps (set ss) SRunning v)\<lparr>rv_work := rv_work v @ ss\<rparr>)"
proof (cases "ss = []")
  case True
  then have "(put_steps (set ss) SRunning v)\<lparr>rv_work := rv_work v @ ss\<rparr> = v" by (simp add: put_steps_def)
  then show ?thesis using assms(1) by simp
next
  case False
  note ok = view_okD[OF assms(1)]
  let ?w = "(put_steps (set ss) SRunning v)\<lparr>rv_work := rv_work v @ ss\<rparr>"
  have adv: "advances v ?w"
    using assms(4) by (auto simp: advances_def done_at_def)
  have open_run: "\<not> all_terminal v"
  proof -
    obtain s where "s \<in> set ss" using False by (cases ss) auto
    then show ?thesis using assms(4)[of s] unfolding all_terminal_def by force
  qed
  have new: "s \<notin> set (rv_work v)" if "s \<in> set ss" for s
    using ok(3) assms(4)[OF that] by (auto simp: work_ok_def)
  show ?thesis
  proof (rule view_okI)
    show "steps_known ?w" using ok(1) put_steps_known[of "set ss" SRunning v] by (simp add: steps_known_def)
    show "deps_respected ?w" by (rule advances_respected[OF adv ok(2)])
    show "work_ok ?w" unfolding work_ok_def
    proof (intro conjI ballI)
      show "distinct (rv_work ?w)" using ok(3) assms(3) new by (auto simp: work_ok_def)
      fix s assume s: "s \<in> set (rv_work ?w)"
      show "rv_steps ?w s \<in> {Some SRunning, Some SSkipped, Some SCancelled}"
        using s ok(3) assms(4)[of s] by (auto simp: work_ok_def)
      show "deps_done ?w s"
        using s ok(3) assms(4)[of s] advances_deps[OF adv, of s] by (auto simp: work_ok_def)
    qed
    have "occ_set ?w \<subseteq> occ_set v \<union> set ss"
      by (auto simp: occ_set_def)
    then have "card (occ_set ?w) \<le> card (occ_set v \<union> set ss)"
      using finite_occ_set[OF ok(1)] by (intro card_mono) auto
    also have "\<dots> \<le> card (occ_set v) + length ss"
      using card_Un_le[of "occ_set v" "set ss"] card_length[of ss] by linarith
    finally have "card (occ_set ?w) \<le> card (occ_set v) + length ss" .
    moreover have "0 < length ss" using False by simp
    moreover have "int (length ss) \<le> rv_limit v - int (card (occ_set v))"
      using assms(5) \<open>0 < length ss\<close> by linarith
    ultimately have "int (card (occ_set ?w)) \<le> rv_limit v" by linarith
    then show "bound_ok ?w" by (simp add: bound_ok_def)
    show "outcome_ok ?w" using ok(5) open_run by (auto simp: outcome_ok_def)
  qed
qed

text \<open>
  Retry: the failed steps and their dependents go back to pending. None of them is completed or
  held by a thread, because everything upstream of such a step is completed.
\<close>

lemma deps_done_upstream:
  assumes "deps_respected v" "deps_done v s" "(f, s) \<in> (edge_rel (rv_graph v))\<^sup>+"
  shows "done_at v f"
  using assms(3,2)
proof (induction rule: converse_trancl_induct)
  case (base y)
  then show ?case by (simp add: deps_done_def)
next
  case (step y z)
  have "deps_done v z" using step.IH step.prems assms(1)
    by (auto simp: deps_respected_def done_at_def released_def)
  then show ?case using step.hyps(1) by (simp add: deps_done_def)
qed

definition error_set :: "run_view \<Rightarrow> string set" where
  "error_set v = {s. \<exists>f. rv_steps v f = Some SFailed \<and> (s = f \<or> (f, s) \<in> (edge_rel (rv_graph v))\<^sup>+)}"

lemma error_set_not_released:
  assumes "view_ok v" "s \<in> error_set v"
  shows "\<not> deps_done v s \<or> rv_steps v s = Some SFailed"
  using assms deps_done_upstream[OF view_okD(2)[OF assms(1)]]
  by (auto simp: error_set_def done_at_def)

lemma done_deps_done: "deps_respected v \<Longrightarrow> done_at v s \<Longrightarrow> deps_done v s"
  unfolding deps_respected_def done_at_def released_def by blast

lemma error_set_not_done:
  assumes "view_ok v" "s \<in> error_set v"
  shows "\<not> done_at v s"
proof
  assume d: "done_at v s"
  then have "deps_done v s" by (rule done_deps_done[OF view_okD(2)[OF assms(1)]])
  then show False using error_set_not_released[OF assms] d by (simp add: done_at_def)
qed

lemma error_set_no_work: "view_ok v \<Longrightarrow> s \<in> error_set v \<Longrightarrow> s \<notin> set (rv_work v)"
  using error_set_not_released[of v s] view_okD(3)[of v] by (auto simp: work_ok_def)

lemma retry_ok:
  assumes "view_ok v" "\<not> settled rs"
  shows "view_ok ((put_steps (error_set v) SPending v)\<lparr>rv_state := Some rs, rv_live := b\<rparr>)"
proof -
  note ok = view_okD[OF assms(1)]
  let ?w = "(put_steps (error_set v) SPending v)\<lparr>rv_state := Some rs, rv_live := b\<rparr>"
  have adv: "advances v ?w"
    using put_closing_advances[of SPending "error_set v" v] error_set_not_done[OF assms(1)]
    by (auto simp: advances_def done_at_def deps_done_def closing_def)
  show ?thesis
  proof (rule view_okI)
    show "steps_known ?w" using ok(1) put_steps_known[of "error_set v" SPending v] by (simp add: steps_known_def)
    show "deps_respected ?w" by (rule advances_respected[OF adv ok(2)])
    show "work_ok ?w"
      by (rule advances_work[OF adv ok(3)])
        (use ok(3) error_set_no_work[OF assms(1)] in \<open>auto simp: work_ok_def\<close>)
    have "occ_set ?w \<subseteq> occ_set v" by (auto simp: occ_set_def occupying_def)
    then show "bound_ok ?w" using bound_shrinks[OF ok(1) ok(4)] by simp
    show "outcome_ok ?w" using assms(2) by (simp add: outcome_ok_def)
  qed
qed

text \<open>Recovery: no thread is left, and the steps that were running go back to pending.\<close>

definition requeue :: "run_view \<Rightarrow> run_view" where
  "requeue v = (put_steps {s. rv_steps v s \<in> {Some SRunning, Some SReady}} SPending v)"

lemma requeue_ok:
  assumes "view_ok v" "rv_work v = []"
  shows "view_ok (requeue v)"
proof -
  note ok = view_okD[OF assms(1)]
  have adv: "advances v (requeue v)" unfolding requeue_def
    by (rule put_closing_advances) (auto simp: closing_def done_at_def)
  show ?thesis
  proof (rule view_okI)
    show "steps_known (requeue v)" using ok(1) by (simp add: requeue_def)
    show "deps_respected (requeue v)" by (rule advances_respected[OF adv ok(2)])
    show "work_ok (requeue v)" using assms(2) by (simp add: work_ok_def requeue_def)
    have "occ_set (requeue v) \<subseteq> occ_set v" unfolding requeue_def by (rule put_closing_occ) (simp add: closing_def)
    then show "bound_ok (requeue v)" using bound_shrinks[OF ok(1) ok(4)] by (simp add: requeue_def)
    have same: "rv_steps (requeue v) = rv_steps v" if "all_terminal v"
    proof
      fix s show "rv_steps (requeue v) s = rv_steps v s"
        using that unfolding all_terminal_def requeue_def by (cases "rv_steps v s") fastforce+
    qed
    have "rv_state (requeue v) = rv_state v" "rv_live (requeue v) = rv_live v"
      by (simp_all add: requeue_def)
    then show "outcome_ok (requeue v)"
      using ok(5) same unfolding outcome_ok_def all_terminal_def by metis
  qed
qed

lemma crash_ok: "view_ok v \<Longrightarrow> view_ok (v\<lparr>rv_live := False, rv_work := []\<rparr>)"
  by (auto simp: view_ok_def steps_known_def deps_respected_def work_ok_def bound_ok_def
      outcome_ok_def occ_set_def deps_done_def done_at_def all_terminal_def)

text \<open>A new run, and an id without a run.\<close>

lemma new_run_ok:
  assumes "\<And>s. rv_steps v s = (if s \<in> dag_ids (rv_graph v) then Some SPending else None)"
    and "rv_state v = Some RPending" "rv_work v = []"
  shows "view_ok v"
proof -
  have "occ_set v = {}" using assms(1) by (auto simp: occ_set_def occupying_def)
  then show ?thesis using assms
    by (auto simp: view_ok_def steps_known_def deps_respected_def work_ok_def bound_ok_def
        outcome_ok_def settled_def released_def)
qed

lemma absent_ok:
  assumes "\<And>s. rv_steps v s = None" "dag_ids (rv_graph v) = {}" "rv_state v = None" "rv_work v = []"
  shows "view_ok v"
proof -
  have "occ_set v = {}" using assms(1) by (auto simp: occ_set_def)
  then show ?thesis using assms
    by (auto simp: view_ok_def steps_known_def deps_respected_def work_ok_def bound_ok_def outcome_ok_def)
qed

end
