(* ===== verification/Exec_Inv.thy ===== *)
theory Exec_Inv
  imports Run_View
begin

text \<open>
  Every operation of the executor changes the view of one run as \<open>Run_View\<close> allows, and leaves the
  views of the other runs alone; so the invariant holds in every reachable state.
\<close>

section \<open>The view of a run\<close>

fun task_step :: "string \<Rightarrow> task \<Rightarrow> string list" where
  "task_step r (Submitted q s i) = (if q = r then [s] else [])"
| "task_step r (Running q s n i) = (if q = r then [s] else [])"
| "task_step r (Reschedule q) = []"

definition run_work :: "task list \<Rightarrow> string \<Rightarrow> string list" where
  "run_work ts r = concat (map (task_step r) ts)"

definition db_view :: "exec_config \<Rightarrow> wf_db \<Rightarrow> bool \<Rightarrow> string list \<Rightarrow> string \<Rightarrow> run_view" where
  "db_view cfg db live work r = \<lparr>rv_graph = load_dag db r, rv_state = run_st db r, rv_steps = step_st db r,
     rv_limit = (case load_run db r of None \<Rightarrow> 0 | Some v \<Rightarrow> run_limit cfg v), rv_live = live, rv_work = work\<rparr>"

definition view :: "exec_config \<Rightarrow> exec \<Rightarrow> string \<Rightarrow> run_view" where
  "view cfg S r = db_view cfg (ex_db S) (ctx_of S r \<noteq> None) (run_work (ex_tasks S) r) r"

lemma db_view_simps [simp]:
  "rv_graph (db_view cfg db l w r) = load_dag db r"
  "rv_state (db_view cfg db l w r) = run_st db r"
  "rv_steps (db_view cfg db l w r) = step_st db r"
  "rv_live (db_view cfg db l w r) = l"
  "rv_work (db_view cfg db l w r) = w"
  by (simp_all add: db_view_def)

lemma view_simps [simp]:
  "rv_graph (view cfg S r) = load_dag (ex_db S) r"
  "rv_state (view cfg S r) = run_st (ex_db S) r"
  "rv_steps (view cfg S r) = step_st (ex_db S) r"
  "rv_live (view cfg S r) = (ctx_of S r \<noteq> None)"
  "rv_work (view cfg S r) = run_work (ex_tasks S) r"
  by (simp_all add: view_def)

lemma view_limit: "load_run (ex_db S) r = Some v \<Longrightarrow> rv_limit (view cfg S r) = run_limit cfg v"
  by (simp add: view_def db_view_def)

lemma db_view_static:
  assumes "same_static a b"
  shows "db_view cfg b l w r = (db_view cfg a l' w' r)\<lparr>rv_state := run_st b r, rv_steps := step_st b r,
    rv_live := l, rv_work := w\<rparr>"
proof -
  have "map_option run_static (load_run b r) = map_option run_static (load_run a r)"
    by (rule same_static_load(1)[OF assms])
  then have "(case load_run b r of None \<Rightarrow> 0 | Some v \<Rightarrow> run_limit cfg v) =
      (case load_run a r of None \<Rightarrow> 0 | Some v \<Rightarrow> run_limit cfg v)"
    by (auto simp: run_limit_def run_static_def split: option.splits)
  then show ?thesis by (simp add: db_view_def same_static_dag[OF assms])
qed

lemma run_work_simps [simp]:
  "run_work [] r = []"
  "run_work (ts @ us) r = run_work ts r @ run_work us r"
  "run_work (t # ts) r = task_step r t @ run_work ts r"
  by (simp_all add: run_work_def)

text \<open>Taking a task: at most one thread holds a step, so the step leaves the work of its run.\<close>

lemma run_work_remove_other:
  "task_step r t = [] \<Longrightarrow> run_work (remove1 t ts) r = run_work ts r"
  by (induction ts) auto

lemma run_work_remove:
  "t \<in> set ts \<Longrightarrow> task_step r t = [s] \<Longrightarrow> distinct (run_work ts r) \<Longrightarrow>
    run_work (remove1 t ts) r = remove1 s (run_work ts r) \<and> s \<in> set (run_work ts r)"
proof (induction ts)
  case (Cons x xs)
  show ?case
  proof (cases "x = t")
    case True
    then show ?thesis using Cons.prems by simp
  next
    case False
    then have t: "t \<in> set xs" using Cons.prems(1) by simp
    have ih: "run_work (remove1 t xs) r = remove1 s (run_work xs r)" "s \<in> set (run_work xs r)"
      using Cons.IH[OF t Cons.prems(2)] Cons.prems(3) by auto
    have "s \<notin> set (task_step r x)" using Cons.prems(3) ih(2) by auto
    then show ?thesis using False ih by (simp add: remove1_append)
  qed
qed simp

section \<open>The invariant of the executor\<close>

definition ctx_good :: "exec_config \<Rightarrow> wf_db \<Rightarrow> string \<Rightarrow> run_ctx \<Rightarrow> bool" where
  "ctx_good cfg db r c \<longleftrightarrow> \<not> cx_finished c \<and> cx_dag c = load_dag db r \<and>
     (\<exists>v. load_run db r = Some v \<and> cx_limit c = run_limit cfg v)"

definition exec_ok :: "exec_config \<Rightarrow> (nat \<Rightarrow> string) \<Rightarrow> exec \<Rightarrow> bool" where
  "exec_ok cfg u S \<longleftrightarrow>
     dict_ok (db_runs (ex_db S)) \<and> dict_ok (db_steps (ex_db S)) \<and> logs (ex_db S) \<and>
     (\<forall>r. load_run (ex_db S) r \<noteq> None \<longrightarrow> (\<exists>n < ex_fresh S. r = u n)) \<and>
     (\<forall>r c. ctx_of S r = Some c \<longrightarrow> ctx_good cfg (ex_db S) r c) \<and>
     (\<forall>r. view_ok (view cfg S r))"

lemma exec_okD:
  assumes "exec_ok cfg u S"
  shows "dict_ok (db_runs (ex_db S))" "dict_ok (db_steps (ex_db S))" "logs (ex_db S)"
    "load_run (ex_db S) r \<noteq> None \<Longrightarrow> \<exists>n < ex_fresh S. r = u n"
    "ctx_of S r = Some c \<Longrightarrow> ctx_good cfg (ex_db S) r c"
    "view_ok (view cfg S r)"
  using assms by (auto simp: exec_ok_def)

lemma ctx_good_static:
  assumes "same_static a b" "ctx_good cfg a r c" "cx_dag c' = cx_dag c" "cx_limit c' = cx_limit c" "\<not> cx_finished c'"
  shows "ctx_good cfg b r c'"
proof -
  obtain v where v: "load_run a r = Some v" "cx_limit c = run_limit cfg v"
    using assms(2) by (auto simp: ctx_good_def)
  obtain w where w: "load_run b r = Some w" "run_static w = run_static v"
    using same_static_load(1)[OF assms(1), of r] v(1) by auto
  then have "run_limit cfg w = run_limit cfg v" by (simp add: run_limit_def run_static_def)
  then show ?thesis using assms v w same_static_dag[OF assms(1)] by (auto simp: ctx_good_def)
qed

text \<open>An operation on one run that keeps the static columns and the other runs.\<close>

lemma exec_ok_local:
  assumes ok: "exec_ok cfg u S" and st: "same_static (ex_db S) (ex_db S')" and fr: "ex_fresh S' = ex_fresh S"
    and log: "logs (ex_db S')"
    and ctxs: "\<And>q c'. ctx_of S' q = Some c' \<Longrightarrow> ctx_good cfg (ex_db S') q c'"
    and here: "view_ok (view cfg S' r)"
    and others: "\<And>q. q \<noteq> r \<Longrightarrow> view cfg S' q = view cfg S q"
  shows "exec_ok cfg u S'"
  unfolding exec_ok_def
proof (intro conjI allI impI)
  note D = exec_okD[OF ok]
  show "dict_ok (db_runs (ex_db S'))" using D(1) same_static_keys(1)[OF st] by simp
  show "dict_ok (db_steps (ex_db S'))" using D(2) same_static_keys(2)[OF st] by simp
  show "logs (ex_db S')" by (rule log)
  show "\<exists>n < ex_fresh S'. q = u n" if "load_run (ex_db S') q \<noteq> None" for q
  proof -
    have "load_run (ex_db S) q \<noteq> None"
      using that same_static_load(1)[OF st, of q] by (cases "load_run (ex_db S) q") auto
    then show ?thesis using D(4)[of q] fr by simp
  qed
  show "ctx_good cfg (ex_db S') q c" if c: "ctx_of S' q = Some c" for q c by (rule ctxs[OF c])
  show "view_ok (view cfg S' q)" for q
    using here others[of q] D(6)[of q] by (cases "q = r") auto
qed

text \<open>Contexts that an operation keeps, up to the steps in flight and the recorded jobs.\<close>

lemma ctx_good_kept:
  assumes "exec_ok cfg u S" "same_static (ex_db S) (ex_db S')"
    and "\<exists>c. ctx_of S q = Some c \<and> cx_dag c' = cx_dag c \<and> cx_limit c' = cx_limit c \<and> cx_finished c' = cx_finished c"
  shows "ctx_good cfg (ex_db S') q c'"
proof -
  obtain c where c: "ctx_of S q = Some c" "cx_dag c' = cx_dag c" "cx_limit c' = cx_limit c" "cx_finished c' = cx_finished c"
    using assms(3) by blast
  have g: "ctx_good cfg (ex_db S) q c" by (rule exec_okD(5)[OF assms(1) c(1)])
  then have "\<not> cx_finished c'" using c(4) by (simp add: ctx_good_def)
  then show ?thesis using ctx_good_static[OF assms(2) g c(2,3)] by simp
qed

lemma ctx_of_simps [simp]:
  "ctx_of (set_ctx r c S) q = (if q = r then Some c else ctx_of S q)"
  "ctx_of (drop_ctx r S) q = (if q = r then None else ctx_of S q)"
  "ctx_of (with_db f S) q = ctx_of S q"
  "ctx_of (S\<lparr>ex_db := db\<rparr>) q = ctx_of S q"
  "ctx_of (S\<lparr>ex_tasks := ts\<rparr>) q = ctx_of S q"
  "ctx_of (S\<lparr>ex_torn := tn\<rparr>) q = ctx_of S q"
  "ctx_of (take_task t S) q = ctx_of S q"
  by (auto simp: ctx_of_def set_ctx_def drop_ctx_def with_db_def take_task_def dict_simps)

lemma exec_fields [simp]:
  "ex_db (set_ctx r c S) = ex_db S" "ex_db (drop_ctx r S) = ex_db S" "ex_db (with_db f S) = f (ex_db S)"
  "ex_db (take_task t S) = ex_db S"
  "ex_tasks (set_ctx r c S) = ex_tasks S" "ex_tasks (drop_ctx r S) = ex_tasks S" "ex_tasks (with_db f S) = ex_tasks S"
  "ex_tasks (take_task t S) = remove1 t (ex_tasks S)"
  "ex_fresh (set_ctx r c S) = ex_fresh S" "ex_fresh (drop_ctx r S) = ex_fresh S" "ex_fresh (with_db f S) = ex_fresh S"
  "ex_fresh (take_task t S) = ex_fresh S"
  "ex_torn (set_ctx r c S) = ex_torn S" "ex_torn (drop_ctx r S) = ex_torn S" "ex_torn (with_db f S) = ex_torn S"
  by (simp_all add: set_ctx_def drop_ctx_def with_db_def take_task_def)

text \<open>The view after a change of the tables that keeps the static columns.\<close>

lemma view_db:
  assumes "same_static (ex_db S) (ex_db S')" "run_st (ex_db S') r = run_st (ex_db S) r"
    "step_st (ex_db S') r = step_st (ex_db S) r" "ctx_of S' r = None \<longleftrightarrow> ctx_of S r = None"
    "run_work (ex_tasks S') r = run_work (ex_tasks S) r"
  shows "view cfg S' r = view cfg S r"
proof -
  have l: "(ctx_of S' r \<noteq> None) = (ctx_of S r \<noteq> None)" using assms(4) by simp
  have "view cfg S' r = (db_view cfg (ex_db S) (ctx_of S r \<noteq> None) (run_work (ex_tasks S) r) r)
      \<lparr>rv_state := run_st (ex_db S) r, rv_steps := step_st (ex_db S) r, rv_live := (ctx_of S r \<noteq> None),
       rv_work := run_work (ex_tasks S) r\<rparr>"
    unfolding view_def l assms(5)
    by (subst db_view_static[OF assms(1)]) (simp only: assms(2,3))
  then show ?thesis by (simp add: view_def db_view_def)
qed

lemma view_change:
  assumes "same_static (ex_db S) (ex_db S')"
  shows "view cfg S' r = (view cfg S r)\<lparr>rv_state := run_st (ex_db S') r, rv_steps := step_st (ex_db S') r,
    rv_live := (ctx_of S' r \<noteq> None), rv_work := run_work (ex_tasks S') r\<rparr>"
  unfolding view_def by (rule db_view_static[OF assms])

lemma view_eqI:
  assumes "same_static (ex_db S) (ex_db S')" "run_st (ex_db S') r = rv_state w"
    and "\<And>s. step_st (ex_db S') r s = rv_steps w s" "rv_live w \<longleftrightarrow> ctx_of S' r \<noteq> None"
    and "rv_work w = run_work (ex_tasks S') r" "rv_graph w = load_dag (ex_db S) r"
    and "rv_limit w = rv_limit (view cfg S r)"
  shows "view cfg S' r = w"
proof -
  have "step_st (ex_db S') r = rv_steps w" using assms(3) by (rule ext)
  then show ?thesis
    unfolding view_change[OF assms(1)] by (intro run_view.equality) (simp_all add: assms)
qed

section \<open>Skipping\<close>

lemma skip_pass_Nil: "skip_pass d ss sts = ([], sts') \<Longrightarrow> sts' = sts \<and> (\<forall>s \<in> set ss. \<not> blocked d sts s)"
  by (induction ss) (auto split: if_splits prod.splits)

lemma skip_fix_facts:
  "skip_fix d sts = (xs, sts') \<Longrightarrow>
    set xs \<subseteq> pending_set d sts \<and>
    (\<forall>t. map_of sts' t = (if t \<in> set xs then Some SSkipped else map_of sts t)) \<and>
    (\<forall>s \<in> dag_ids d. \<not> blocked d sts' s)"
proof (induction "card (pending_set d sts)" arbitrary: sts xs sts' rule: less_induct)
  case less
  obtain ys sts1 where p: "skip_pass d (sort (dict_keys (nodes d))) sts = (ys, sts1)" by force
  have ids: "set (sort (dict_keys (nodes d))) = dag_ids d" by simp
  show ?case
  proof (cases "ys = []")
    case True
    then have "skip_fix d sts = ([], sts)" by (subst skip_fix.simps) (simp add: p)
    then have "xs = []" "sts' = sts" using less.prems by simp_all
    then show ?thesis using skip_pass_Nil[of d _ sts sts1] p True ids by auto
  next
    case False
    obtain zs sts2 where z0: "skip_fix d sts1 = (zs, sts2)" by force
    have "skip_fix d sts = (ys @ zs, sts2)" by (subst skip_fix.simps) (simp add: p False z0)
    then have z: "skip_fix d sts1 = (zs, sts')" "xs = ys @ zs" using less.prems z0 by simp_all
    note ih = less.hyps[OF skip_pass_decreases[OF p False] z(1)]
    have g: "map_of sts1 t = (if t \<in> set ys then Some SSkipped else map_of sts t)" for t
      by (rule skip_pass_get[OF p])
    have sub: "set ys \<subseteq> pending_set d sts"
      using skip_pass_sub[OF p] ids by (auto simp: pending_set_def)
    have "pending_set d sts1 \<subseteq> pending_set d sts" using g by (auto simp: pending_set_def split: if_splits)
    then show ?thesis using ih g sub z(2) by auto
  qed
qed

lemma ready_steps_iff:
  "s \<in> set (ready_steps d sts) \<longleftrightarrow> s \<in> dag_ids d \<and> map_of sts s = Some SPending \<and>
    (\<forall>p \<in> predecessors d s. map_of sts p = Some SCompleted)"
  by (auto simp: ready_steps_def all_deps_completed_def list_all_iff predecessors_iff dag_has_iff)

lemma ready_steps_distinct: "dag_ok d \<Longrightarrow> distinct (ready_steps d sts)"
  by (simp add: ready_steps_def dag_ok_def)

section \<open>The pieces of the scheduler\<close>

text \<open>Skipping, as the view sees it.\<close>

lemma marks_static: "same_static db (fold (mark_step r st) ss db)"
  by (rule fold_static) (auto intro: statics)

lemma view_marks:
  "view cfg (with_db (fold (mark_step r st) ss) S) q =
    (if q = r then put_steps (set ss) st (view cfg S r) else view cfg S q)"
proof -
  let ?S = "with_db (fold (mark_step r st) ss) S"
  have st: "same_static (ex_db S) (ex_db ?S)" by (simp add: marks_static)
  have "step_st (ex_db ?S) q = (if q = r then rv_steps (put_steps (set ss) st (view cfg S r)) else step_st (ex_db S) q)"
    by (rule ext) (auto simp: step_st_marks)
  then show ?thesis
    unfolding view_change[OF st] by (auto simp: step_st_marks(2) put_steps_def)
qed

lemma checkpoint_step_ok:
  assumes "map_of (nodes d) s \<noteq> None" "load_step db r s \<noteq> None"
  obtains ctx where "enter_checkpoint r s ctx db = Inr (checkpoint_step r d s db)"
  using assms by (auto simp: checkpoint_step_def enter_checkpoint_def Let_def split: option.splits)

lemma checkpoint_fold:
  assumes "set ss \<subseteq> dag_ids d" "\<forall>s \<in> set ss. step_st db r s \<noteq> None"
  defines "db' \<equiv> fold (checkpoint_step r d) ss db"
  shows "same_static db db'"
    and "step_st db' q t = (if q = r \<and> t \<in> set ss then Some SAwaiting_approval else step_st db q t)"
    and "run_st db' q = (if q = r \<and> ss \<noteq> [] \<and> run_st db q \<noteq> None then Some RAwaiting_approval else run_st db q)"
    and "logs db \<Longrightarrow> logs db'"
    and "same_rows ({r} \<times> set ss) db db'"
proof -
  have "same_static db db' \<and>
    (\<forall>q t. step_st db' q t = (if q = r \<and> t \<in> set ss then Some SAwaiting_approval else step_st db q t)) \<and>
    (\<forall>q. run_st db' q = (if q = r \<and> ss \<noteq> [] \<and> run_st db q \<noteq> None then Some RAwaiting_approval else run_st db q)) \<and>
    (logs db \<longrightarrow> logs db') \<and> same_rows ({r} \<times> set ss) db db'"
    using assms(1,2) unfolding db'_def
  proof (induction ss arbitrary: db)
    case (Cons s ss)
    let ?db1 = "checkpoint_step r d s db"
    have "map_of (nodes d) s \<noteq> None" "load_step db r s \<noteq> None"
      using Cons.prems(1) Cons.prems(2) map_of_nodes_None[of d s] by (auto simp: step_st_def)
    then obtain ctx where c: "enter_checkpoint r s ctx db = Inr ?db1" by (rule checkpoint_step_ok)
    note f = step_st_checkpoint[OF c]
    have s1: "same_static db ?db1" by (rule enter_checkpoint_static[OF c]) simp
    have l1: "logs db \<Longrightarrow> logs ?db1" by (rule checkpoint_log[OF _ c])
    have r1: "same_rows {(r, s)} db ?db1" by (rule same_rows_checkpoint[OF c]) simp_all
    have pre: "\<forall>t \<in> set ss. step_st ?db1 r t \<noteq> None" using Cons.prems(2) f(1) by auto
    have sub: "set ss \<subseteq> dag_ids d" using Cons.prems(1) by simp
    note ih = Cons.IH[OF sub pre]
    have a1: "same_static db (fold (checkpoint_step r d) ss ?db1)" using ih s1 same_static_trans by blast
    have a2: "step_st (fold (checkpoint_step r d) ss ?db1) q t =
        (if q = r \<and> t \<in> set (s # ss) then Some SAwaiting_approval else step_st db q t)" for q t
      using ih f(1)[of q t] Cons.prems(2) by auto
    have a3: "run_st (fold (checkpoint_step r d) ss ?db1) q =
        (if q = r \<and> s # ss \<noteq> [] \<and> run_st db q \<noteq> None then Some RAwaiting_approval else run_st db q)" for q
      using ih f(2)[of q] by auto
    have a4: "logs db \<longrightarrow> logs (fold (checkpoint_step r d) ss ?db1)" using ih l1 by blast
    have "same_rows ({r} \<times> set (s # ss)) db ?db1" by (rule same_rows_mono[OF r1]) simp
    moreover have "same_rows ({r} \<times> set (s # ss)) ?db1 (fold (checkpoint_step r d) ss ?db1)"
    proof (rule same_rows_mono)
      show "same_rows ({r} \<times> set ss) ?db1 (fold (checkpoint_step r d) ss ?db1)" using ih by blast
    qed auto
    ultimately have a5: "same_rows ({r} \<times> set (s # ss)) db (fold (checkpoint_step r d) ss ?db1)"
      by (rule same_rows_trans)
    show ?case using a1 a2 a3 a4 a5 by simp
  qed simp
  then show "same_static db db'"
    "step_st db' q t = (if q = r \<and> t \<in> set ss then Some SAwaiting_approval else step_st db q t)"
    "run_st db' q = (if q = r \<and> ss \<noteq> [] \<and> run_st db q \<noteq> None then Some RAwaiting_approval else run_st db q)"
    "logs db \<Longrightarrow> logs db'" "same_rows ({r} \<times> set ss) db db'"
    by blast+
qed

lemma view_checkpoints:
  assumes "set ss \<subseteq> dag_ids d" "\<forall>s \<in> set ss. step_st (ex_db S) r s \<noteq> None"
  shows "view cfg (with_db (fold (checkpoint_step r d) ss) S) q =
    (if q = r then (put_steps (set ss) SAwaiting_approval (view cfg S r))
        \<lparr>rv_state := if ss \<noteq> [] \<and> run_st (ex_db S) r \<noteq> None then Some RAwaiting_approval else run_st (ex_db S) r\<rparr>
     else view cfg S q)"
proof -
  let ?S = "with_db (fold (checkpoint_step r d) ss) S"
  note f = checkpoint_fold[where db = "ex_db S", OF assms]
  have st: "same_static (ex_db S) (ex_db ?S)" using f(1) by simp
  have "step_st (ex_db ?S) q =
      (if q = r then rv_steps (put_steps (set ss) SAwaiting_approval (view cfg S r)) else step_st (ex_db S) q)"
  proof (rule ext)
    fix t show "step_st (ex_db ?S) q t = (if q = r then rv_steps (put_steps (set ss) SAwaiting_approval (view cfg S r))
        else step_st (ex_db S) q) t"
      using assms(2) f(2)[of q t] by auto
  qed
  then show ?thesis
    unfolding view_change[OF st] by (auto simp: f(3) put_steps_def)
qed

text \<open>Dispatching.\<close>

lemma dispatch_fold:
  assumes "ctx_of S r = Some c" "set ss \<subseteq> dag_ids (cx_dag c)"
    "\<forall>s \<in> set ss. step_st (ex_db S) r s \<noteq> None"
  defines "S' \<equiv> fold (dispatch_step r) ss S"
  shows "same_static (ex_db S) (ex_db S')"
    and "step_st (ex_db S') q t = (if q = r \<and> t \<in> set ss then Some SRunning else step_st (ex_db S) q t)"
    and "run_st (ex_db S') q = run_st (ex_db S) q"
    and "logs (ex_db S) \<Longrightarrow> logs (ex_db S')"
    and "same_rows ({r} \<times> set ss) (ex_db S) (ex_db S')"
    and "ctx_of S' q = (if q = r then Some (c\<lparr>cx_in_flight := cx_in_flight c \<union> set ss\<rparr>) else ctx_of S q)"
    and "run_work (ex_tasks S') q = run_work (ex_tasks S) q @ (if q = r then ss else [])"
    and "ex_fresh S' = ex_fresh S"
    and "ex_torn S' = ex_torn S"
proof -
  have "same_static (ex_db S) (ex_db S') \<and>
    (\<forall>q t. step_st (ex_db S') q t = (if q = r \<and> t \<in> set ss then Some SRunning else step_st (ex_db S) q t)) \<and>
    (\<forall>q. run_st (ex_db S') q = run_st (ex_db S) q) \<and> (logs (ex_db S) \<longrightarrow> logs (ex_db S')) \<and>
    same_rows ({r} \<times> set ss) (ex_db S) (ex_db S') \<and>
    (\<forall>q. ctx_of S' q = (if q = r then Some (c\<lparr>cx_in_flight := cx_in_flight c \<union> set ss\<rparr>) else ctx_of S q)) \<and>
    (\<forall>q. run_work (ex_tasks S') q = run_work (ex_tasks S) q @ (if q = r then ss else [])) \<and>
    ex_fresh S' = ex_fresh S \<and> ex_torn S' = ex_torn S"
    using assms(1-3) unfolding S'_def
  proof (induction ss arbitrary: S c)
    case Nil
    then show ?case by (auto simp: fun_eq_iff)
  next
    case (Cons s ss)
    obtain n where n: "map_of (nodes (cx_dag c)) s = Some n"
      using Cons.prems(2) map_of_nodes_None[of "cx_dag c" s] by auto
    define S1 where "S1 = dispatch_step r s S"
    define c1 where "c1 = c\<lparr>cx_in_flight := insert s (cx_in_flight c)\<rparr>"
    have S1: "S1 = (set_ctx r c1 S)\<lparr>ex_db := emit_step_state r s SRunning None
        (persist_step_state r s SRunning None None True False (ex_db S)),
        ex_tasks := ex_tasks S @ [Submitted r s (collect_inputs (ex_db S) r n)]\<rparr>"
      using Cons.prems(1) n by (simp add: S1_def dispatch_step_def Let_def c1_def)
    have ctx1: "ctx_of S1 q = (if q = r then Some c1 else ctx_of S q)" for q by (simp add: S1)
    have st1: "step_st (ex_db S1) q t = (if q = r \<and> t = s then Some SRunning else step_st (ex_db S) q t)" for q t
      using Cons.prems(3) by (auto simp: S1)
    have o1: "run_st (ex_db S1) q = run_st (ex_db S) q" for q by (simp add: S1)
    have s1: "same_static (ex_db S) (ex_db S1)" by (simp add: S1 statics)
    have l1: "logs (ex_db S) \<Longrightarrow> logs (ex_db S1)" by (simp add: S1 log_keep)
    have r1: "same_rows ({r} \<times> set (s # ss)) (ex_db S) (ex_db S1)"
      by (simp add: S1 same_rows_persist)
    have w1: "run_work (ex_tasks S1) q = run_work (ex_tasks S) q @ (if q = r then [s] else [])" for q
      by (simp add: S1)
    have f1: "ex_fresh S1 = ex_fresh S" "ex_torn S1 = ex_torn S" by (simp_all add: S1)
    have pre: "ctx_of S1 r = Some c1" "set ss \<subseteq> dag_ids (cx_dag c1)"
      "\<forall>t \<in> set ss. step_st (ex_db S1) r t \<noteq> None"
      using ctx1 Cons.prems st1 by (auto simp: c1_def)
    note ih = Cons.IH[OF pre]
    have eq: "fold (dispatch_step r) (s # ss) S = fold (dispatch_step r) ss S1" by (simp add: S1_def)
    have cc: "c1\<lparr>cx_in_flight := cx_in_flight c1 \<union> set ss\<rparr> = c\<lparr>cx_in_flight := cx_in_flight c \<union> set (s # ss)\<rparr>"
      by (simp add: c1_def)
    have "same_rows ({r} \<times> set (s # ss)) (ex_db S1) (ex_db (fold (dispatch_step r) ss S1))"
    proof (rule same_rows_mono)
      show "same_rows ({r} \<times> set ss) (ex_db S1) (ex_db (fold (dispatch_step r) ss S1))" using ih by blast
    qed auto
    then have r2: "same_rows ({r} \<times> set (s # ss)) (ex_db S) (ex_db (fold (dispatch_step r) ss S1))"
      by (rule same_rows_trans[OF r1])
    have s2: "same_static (ex_db S) (ex_db (fold (dispatch_step r) ss S1))"
      using ih s1 same_static_trans by blast
    define F where "F = fold (dispatch_step r) ss S1"
    note ih' = ih[folded F_def]
    have b1: "step_st (ex_db F) q t = (if q = r \<and> t \<in> set (s # ss) then Some SRunning else step_st (ex_db S) q t)" for q t
    proof -
      have "step_st (ex_db F) q t = (if q = r \<and> t \<in> set ss then Some SRunning else step_st (ex_db S1) q t)"
        using ih' by blast
      then show ?thesis unfolding st1[of q t] by auto
    qed
    have b2: "run_st (ex_db F) q = run_st (ex_db S) q" for q using ih' o1[of q] by simp
    have b3: "logs (ex_db S) \<longrightarrow> logs (ex_db F)" using ih' l1 by blast
    have b4: "ctx_of F q = (if q = r then Some (c\<lparr>cx_in_flight := cx_in_flight c \<union> set (s # ss)\<rparr>) else ctx_of S q)" for q
      using ih' ctx1[of q] cc by simp
    have b5: "run_work (ex_tasks F) q = run_work (ex_tasks S) q @ (if q = r then s # ss else [])" for q
      using ih' w1[of q] by simp
    have b6: "ex_fresh F = ex_fresh S" "ex_torn F = ex_torn S" using ih' f1 by simp_all
    show ?case unfolding eq F_def[symmetric]
      using b1 b2 b3 b4 b5 b6 r2[folded F_def] s2[folded F_def] by blast
  qed
  then show "same_static (ex_db S) (ex_db S')"
    "step_st (ex_db S') q t = (if q = r \<and> t \<in> set ss then Some SRunning else step_st (ex_db S) q t)"
    "run_st (ex_db S') q = run_st (ex_db S) q"
    "logs (ex_db S) \<Longrightarrow> logs (ex_db S')"
    "same_rows ({r} \<times> set ss) (ex_db S) (ex_db S')"
    "ctx_of S' q = (if q = r then Some (c\<lparr>cx_in_flight := cx_in_flight c \<union> set ss\<rparr>) else ctx_of S q)"
    "run_work (ex_tasks S') q = run_work (ex_tasks S) q @ (if q = r then ss else [])"
    "ex_fresh S' = ex_fresh S" "ex_torn S' = ex_torn S"
    by blast+
qed

end
