(* ===== verification/Exec_Safety.thy ===== *)
theory Exec_Safety
  imports Exec_Inv
begin

text \<open>
  One lemma per operation of the executor: it keeps the invariant, and every row of a completed
  step stays as it is. The invariant of all reachable states follows by rule induction.
\<close>

section \<open>Good steps\<close>

definition keeps_done :: "exec \<Rightarrow> exec \<Rightarrow> bool" where
  "keeps_done S S' \<longleftrightarrow> (\<forall>q t v. load_step (ex_db S) q t = Some v \<longrightarrow> sr_state v = SCompleted \<longrightarrow>
     load_step (ex_db S') q t = Some v)"

definition good_step :: "exec_config \<Rightarrow> (nat \<Rightarrow> string) \<Rightarrow> exec \<Rightarrow> exec \<Rightarrow> bool" where
  "good_step cfg u S S' \<longleftrightarrow> exec_ok cfg u S' \<and> keeps_done S S'"

lemma good_refl: "exec_ok cfg u S \<Longrightarrow> good_step cfg u S S"
  by (simp add: good_step_def keeps_done_def)

lemma good_trans: "good_step cfg u S S' \<Longrightarrow> good_step cfg u S' S'' \<Longrightarrow> good_step cfg u S S''"
  by (simp add: good_step_def keeps_done_def)

lemma good_ok: "good_step cfg u S S' \<Longrightarrow> exec_ok cfg u S'"
  by (simp add: good_step_def)

lemma keeps_done_rows:
  assumes "same_rows A (ex_db S) (ex_db S')" "\<And>q t. (q, t) \<in> A \<Longrightarrow> step_st (ex_db S) q t \<noteq> Some SCompleted"
  shows "keeps_done S S'"
  using assms unfolding keeps_done_def same_rows_def step_st_def by (metis option.simps(9))

text \<open>What a local operation has to show.\<close>

lemma good_local:
  assumes "exec_ok cfg u S" "same_static (ex_db S) (ex_db S')" "ex_fresh S' = ex_fresh S" "logs (ex_db S')"
    and "\<And>q c'. ctx_of S' q = Some c' \<Longrightarrow>
        \<exists>c. ctx_of S q = Some c \<and> cx_dag c' = cx_dag c \<and> cx_limit c' = cx_limit c \<and> cx_finished c' = cx_finished c"
    and "view_ok (view cfg S' r)" "\<And>q. q \<noteq> r \<Longrightarrow> view cfg S' q = view cfg S q"
    and "same_rows A (ex_db S) (ex_db S')" "\<And>q t. (q, t) \<in> A \<Longrightarrow> step_st (ex_db S) q t \<noteq> Some SCompleted"
  shows "good_step cfg u S S'"
  unfolding good_step_def
  using exec_ok_local[OF assms(1-4) ctx_good_kept[OF assms(1,2,5)] assms(6,7)] keeps_done_rows[OF assms(8,9)]
  by blast

section \<open>Reading the states\<close>

lemma states_mem:
  assumes "dict_ok (db_steps db)"
  shows "(s, st) \<in> set (load_step_states db r) \<longleftrightarrow> step_st db r s = Some st"
  using run_steps_mem[OF assms, of s _ r] by (force simp: load_step_states_def step_st_def)

lemma states_distinct: "dict_ok (db_steps db) \<Longrightarrow> distinct (map fst (load_step_states db r))"
  using run_steps_keys[of db r] by (simp add: load_step_states_def split_beta comp_def)

lemma states_all:
  "dict_ok (db_steps db) \<Longrightarrow>
    list_all (\<lambda>(s, st). P st) (load_step_states db r) \<longleftrightarrow> (\<forall>s st. step_st db r s = Some st \<longrightarrow> P st)"
  using states_mem[of db] by (force simp: list_all_iff)

lemma states_ex:
  "dict_ok (db_steps db) \<Longrightarrow>
    list_ex (\<lambda>(s, st). P st) (load_step_states db r) \<longleftrightarrow> (\<exists>s st. step_st db r s = Some st \<and> P st)"
  using states_mem[of db] by (force simp: list_ex_iff)

lemma open_steps_set:
  "dict_ok (db_steps db) \<Longrightarrow> set (open_steps db r) = {s. \<exists>st. step_st db r s = Some st \<and> \<not> step_is_terminal st}"
  using states_mem[of db] by (force simp: open_steps_def)

lemma occupied_card:
  assumes "dict_ok (db_steps (ex_db S))"
  shows "length (filter (\<lambda>(s, st). occupying st) (load_step_states (ex_db S) r)) = card (occ_set (view cfg S r))"
proof -
  let ?xs = "filter (\<lambda>(s, st). occupying st) (load_step_states (ex_db S) r)"
  have d: "distinct (map fst ?xs)" by (rule distinct_map_filter[OF states_distinct[OF assms]])
  have "set (map fst ?xs) = occ_set (view cfg S r)"
    using states_mem[OF assms] by (force simp: occ_set_def)
  then show ?thesis using distinct_card[OF d] by simp
qed

lemma ready_deps_done:
  assumes "s \<in> set (ready_steps (load_dag (ex_db S) r) (load_step_states (ex_db S) r))"
  shows "rv_steps (view cfg S r) s = Some SPending \<and> deps_done (view cfg S r) s"
  using assms by (simp add: ready_steps_iff step_st_states deps_done_def done_at_def)

lemma live_run:
  assumes "exec_ok cfg u S" "ctx_of S r = Some c"
  shows "cx_dag c = load_dag (ex_db S) r" "\<not> cx_finished c" "run_st (ex_db S) r \<noteq> None"
    "rv_limit (view cfg S r) = cx_limit c" "1 \<le> cx_limit c" "live_ctx S r = Some c"
proof -
  have g: "ctx_good cfg (ex_db S) r c" by (rule exec_okD(5)[OF assms])
  then obtain v where v: "load_run (ex_db S) r = Some v" "cx_limit c = run_limit cfg v"
    by (auto simp: ctx_good_def)
  show "cx_dag c = load_dag (ex_db S) r" "\<not> cx_finished c" using g by (auto simp: ctx_good_def)
  then show "live_ctx S r = Some c" using assms(2) by (simp add: live_ctx_def)
  show "run_st (ex_db S) r \<noteq> None" using v(1) by (simp add: run_st_def)
  show "rv_limit (view cfg S r) = cx_limit c" using view_limit[OF v(1)] v(2) by simp
  show "1 \<le> cx_limit c" using v(2) by (simp add: run_limit_def)
qed

lemma live_ctx_cases:
  assumes "exec_ok cfg u S"
  shows "live_ctx S r = ctx_of S r"
  using live_run(6)[OF assms, of r] by (cases "ctx_of S r") (auto simp: live_ctx_def)

section \<open>Scheduling\<close>

text \<open>Dropping the context leaves the tables.\<close>

lemma drop_ctx_good:
  assumes "exec_ok cfg u S"
  shows "good_step cfg u S (drop_ctx r S)"
proof (rule good_local[OF assms, where r = r and A = "{}"])
  have "view cfg (drop_ctx r S) r = (view cfg S r)\<lparr>rv_live := False\<rparr>"
    by (simp add: view_def db_view_def)
  then show "view_ok (view cfg (drop_ctx r S) r)"
    using set_live_ok[OF exec_okD(6)[OF assms], of False r] by simp
  show "view cfg (drop_ctx r S) q = view cfg S q" if "q \<noteq> r" for q
    using that by (simp add: view_def)
qed (use exec_okD(3)[OF assms] in \<open>auto split: if_splits\<close>)

text \<open>Marking open steps.\<close>

lemma marks_good:
  assumes ok: "exec_ok cfg u S" and st: "st \<in> {SSkipped, SCancelled}"
    and op: "\<And>s. s \<in> set ss \<Longrightarrow> \<exists>x. step_st (ex_db S) r s = Some x \<and> \<not> step_is_terminal x"
  shows "good_step cfg u S (with_db (fold (mark_step r st) ss) S)"
proof (rule good_local[OF ok, where r = r and A = "{r} \<times> set ss"])
  let ?S = "with_db (fold (mark_step r st) ss) S"
  show "same_static (ex_db S) (ex_db ?S)" by (simp add: marks_static)
  show "logs (ex_db ?S)" using exec_okD(3)[OF ok] by (auto intro: fold_log log_keep)
  show "view_ok (view cfg ?S r)"
    using put_closed_ok[OF exec_okD(6)[OF ok] st, of "set ss" r] op by (simp add: view_marks)
  show "view cfg ?S q = view cfg S q" if "q \<noteq> r" for q using that by (simp add: view_marks)
  show "same_rows ({r} \<times> set ss) (ex_db S) (ex_db ?S)"
    by (auto intro!: same_rows_fold same_rows_mark)
  show "step_st (ex_db S) q t \<noteq> Some SCompleted" if "(q, t) \<in> {r} \<times> set ss" for q t
    using op[of t] that by auto
qed auto

lemma finish_good:
  assumes ok: "exec_ok cfg u S" and c: "ctx_of S r = Some c"
    and t: "list_all (\<lambda>(s, st). step_is_terminal st) (load_step_states (ex_db S) r)"
  shows "good_step cfg u S (finish r (load_step_states (ex_db S) r) S)"
proof (rule good_local[OF ok, where r = r and A = "{}"])
  let ?o = "derive_outcome (load_step_states (ex_db S) r)"
  let ?S = "finish r (load_step_states (ex_db S) r) S"
  note dk = exec_okD(2)[OF ok]
  have db: "run_st (ex_db ?S) q = (if q = r then Some ?o else run_st (ex_db S) q)"
    "step_st (ex_db ?S) q = step_st (ex_db S) q" for q
    using live_run(3)[OF ok c] by (auto simp: finish_def Let_def)
  show st: "same_static (ex_db S) (ex_db ?S)" by (simp add: finish_def Let_def statics)
  show "logs (ex_db ?S)" using exec_okD(3)[OF ok] by (simp add: finish_def Let_def log_keep)
  have cx: "ctx_of ?S q = (if q = r then None else ctx_of S q)" for q
    by (simp add: finish_def Let_def)
  then show "\<exists>c. ctx_of S q = Some c \<and> cx_dag c' = cx_dag c \<and> cx_limit c' = cx_limit c \<and> cx_finished c' = cx_finished c"
    if "ctx_of ?S q = Some c'" for q c' using that by (auto split: if_splits)
  have tk: "ex_tasks ?S = ex_tasks S" by (simp add: finish_def Let_def)
  have all: "all_terminal (view cfg S r)" using t states_all[OF dk] by (simp add: all_terminal_def)
  have o: "?o = RFailed \<and> (\<exists>s. step_st (ex_db S) r s = Some SFailed) \<or>
      ?o = RCompleted \<and> (\<forall>s. step_st (ex_db S) r s \<noteq> Some SFailed)"
    using states_ex[OF dk, of "\<lambda>st. st = SFailed" r] by (auto simp: derive_outcome_def)
  have v: "view cfg ?S r = (view cfg S r)\<lparr>rv_state := Some ?o, rv_live := False\<rparr>"
    unfolding view_change[OF st] by (simp add: db cx tk)
  show "view_ok (view cfg ?S r)" unfolding v
    by (rule settle_ok[OF exec_okD(6)[OF ok] _ all]) (use o in \<open>auto simp: settled_def\<close>)
  show "view cfg ?S q = view cfg S q" if "q \<noteq> r" for q
    by (rule view_db[OF st]) (use that in \<open>simp_all add: db cx tk\<close>)
  show "same_rows {} (ex_db S) (ex_db ?S)" by (simp add: finish_def Let_def)
  show "ex_fresh ?S = ex_fresh S" by (simp add: finish_def Let_def)
qed simp

lemma checkpoints_good:
  assumes ok: "exec_ok cfg u S" and c: "ctx_of S r = Some c"
  shows "good_step cfg u S (with_db (enter_ready_checkpoints r (cx_dag c) (load_step_states (ex_db S) r)) S)"
proof -
  let ?d = "load_dag (ex_db S) r" and ?sts = "load_step_states (ex_db S) r"
  let ?ss = "filter (is_approval ?d) (ready_steps ?d ?sts)"
  let ?S = "with_db (fold (checkpoint_step r ?d) ?ss) S"
  have rd: "s \<in> dag_ids ?d" "step_st (ex_db S) r s = Some SPending" if "s \<in> set ?ss" for s
    using that by (auto simp: ready_steps_iff step_st_states)
  have sub: "set ?ss \<subseteq> dag_ids ?d" and ex: "\<forall>s \<in> set ?ss. step_st (ex_db S) r s \<noteq> None"
    using rd by auto
  note f = checkpoint_fold[where db = "ex_db S", OF sub ex]
  note vw = view_checkpoints[OF sub ex]
  have base: "view_ok (put_steps (set ?ss) SAwaiting_approval (view cfg S r))"
    by (rule put_waiting_ok[OF exec_okD(6)[OF ok]]) (use ready_deps_done in auto)
  have "good_step cfg u S ?S"
  proof (rule good_local[OF ok, where r = r and A = "{r} \<times> set ?ss"])
    show "same_static (ex_db S) (ex_db ?S)" using f(1) by simp
    show "logs (ex_db ?S)" using f(4) exec_okD(3)[OF ok] by simp
    show "view_ok (view cfg ?S r)"
    proof (cases "?ss = []")
      case True
      then show ?thesis using exec_okD(6)[OF ok, of r] by (simp add: with_db_def)
    next
      case False
      then have "view cfg ?S r = (put_steps (set ?ss) SAwaiting_approval (view cfg S r))\<lparr>rv_state := Some RAwaiting_approval\<rparr>"
        using vw[of cfg r] live_run(3)[OF ok c] by (simp only: simp_thms if_True)
      then show ?thesis using set_state_ok[OF base, of RAwaiting_approval] by (simp only: settled_def) simp
    qed
    show "view cfg ?S q = view cfg S q" if "q \<noteq> r" for q using that unfolding vw by simp
    show "same_rows ({r} \<times> set ?ss) (ex_db S) (ex_db ?S)" using f(5) by simp
    show "step_st (ex_db S) q t \<noteq> Some SCompleted" if "(q, t) \<in> {r} \<times> set ?ss" for q t
      using rd(2)[of t] that by auto
  qed auto
  then show ?thesis by (simp add: enter_ready_checkpoints_def live_run(1)[OF ok c])
qed

lemma dispatch_good:
  assumes ok: "exec_ok cfg u S" and c: "ctx_of S r = Some c"
    and c0: "cx_dag c0 = cx_dag c" "cx_limit c0 = cx_limit c"
  shows "good_step cfg u S (dispatch_ready r c0 (load_step_states (ex_db S) r) S)"
proof -
  let ?d = "load_dag (ex_db S) r" and ?sts = "load_step_states (ex_db S) r"
  let ?ss = "take (slots c0 ?sts) (ready_steps ?d ?sts)"
  let ?S = "fold (dispatch_step r) ?ss S"
  note lv = live_run[OF ok c]
  have rd: "s \<in> dag_ids ?d" "step_st (ex_db S) r s = Some SPending" "deps_done (view cfg S r) s" if "s \<in> set ?ss" for s
    using in_set_takeD[OF that] ready_deps_done[of s S r cfg] by (auto simp: ready_steps_iff step_st_states)
  have sub: "set ?ss \<subseteq> dag_ids (cx_dag c)" and ex: "\<forall>s \<in> set ?ss. step_st (ex_db S) r s \<noteq> None"
    using rd lv(1) by auto
  note f = dispatch_fold[OF c sub ex]
  have dist: "distinct ?ss"
    by (intro distinct_take ready_steps_distinct load_dag_ok exec_okD(2)[OF ok])
  have len: "length ?ss \<le> nat (rv_limit (view cfg S r) - int (card (occ_set (view cfg S r))))"
    using lv(4) c0 occupied_card[OF exec_okD(2)[OF ok], of r cfg] by (simp add: slots_def)
  have stp: "step_st (ex_db ?S) r = rv_steps (put_steps (set ?ss) SRunning (view cfg S r))"
  proof
    fix t show "step_st (ex_db ?S) r t = rv_steps (put_steps (set ?ss) SRunning (view cfg S r)) t"
      using ex f(2)[of r t] by auto
  qed
  have v: "view cfg ?S r = (put_steps (set ?ss) SRunning (view cfg S r))\<lparr>rv_work := rv_work (view cfg S r) @ ?ss\<rparr>"
    using view_change[OF f(1), of cfg r] c by (simp only: f(3,6,7) stp) (simp add: put_steps_def)
  have "good_step cfg u S ?S"
  proof (rule good_local[OF ok, where r = r and A = "{r} \<times> set ?ss"])
    show "same_static (ex_db S) (ex_db ?S)" by (rule f(1))
    show "logs (ex_db ?S)" by (rule f(4)[OF exec_okD(3)[OF ok]])
    show "\<exists>c. ctx_of S q = Some c \<and> cx_dag c' = cx_dag c \<and> cx_limit c' = cx_limit c \<and> cx_finished c' = cx_finished c"
      if "ctx_of ?S q = Some c'" for q c' using that c by (auto simp: f(6) split: if_splits)
    show "view_ok (view cfg ?S r)" unfolding v
      by (rule dispatch_ok[OF exec_okD(6)[OF ok] _ dist _ len]) (use lv(3) rd in auto)
    show "view cfg ?S q = view cfg S q" if "q \<noteq> r" for q
    proof (rule view_db[OF f(1)])
      show "step_st (ex_db ?S) q = step_st (ex_db S) q" using that by (intro ext) (simp add: f(2))
    qed (use that in \<open>simp_all add: f(3,6,7)\<close>)
    show "same_rows ({r} \<times> set ?ss) (ex_db S) (ex_db ?S)" by (rule f(5))
    show "step_st (ex_db S) q t \<noteq> Some SCompleted" if "(q, t) \<in> {r} \<times> set ?ss" for q t
      using rd(2)[of t] that by auto
  qed (simp add: f(8))
  then show ?thesis using c0(1) lv(1) by (simp add: dispatch_ready_def)
qed

lemma pause_good: "exec_ok cfg u S \<Longrightarrow> good_step cfg u S (pause_if_waiting r sts S)"
  using drop_ctx_good[of cfg u S r] good_refl[of cfg u S] by (simp add: pause_if_waiting_def split: option.split)

lemma skipped_open:
  assumes "s \<in> set (fst (skip_fix (load_dag (ex_db S) r) (load_step_states (ex_db S) r)))"
  shows "step_st (ex_db S) r s = Some SPending"
proof -
  obtain xs sts' where e: "skip_fix (load_dag (ex_db S) r) (load_step_states (ex_db S) r) = (xs, sts')"
    by (cases "skip_fix (load_dag (ex_db S) r) (load_step_states (ex_db S) r)")
  then have "s \<in> pending_set (load_dag (ex_db S) r) (load_step_states (ex_db S) r)"
    using skip_fix_facts[OF e] assms by auto
  then show ?thesis by (simp add: pending_set_def step_st_states)
qed

lemma schedule_ready_good:
  assumes ok: "exec_ok cfg u S"
  shows "good_step cfg u S (schedule_ready cfg r S)"
proof (cases "ctx_of S r")
  case None
  then show ?thesis using good_refl[OF ok] by (simp add: schedule_ready_def live_ctx_def)
next
  case (Some c)
  note lv = live_run[OF ok Some]
  let ?d = "cx_dag c"
  let ?sk = "fst (skip_fix ?d (load_step_states (ex_db S) r))"
  define S1 where "S1 = with_db (fold (mark_step r SSkipped) ?sk) S"
  define sts1 where "sts1 = load_step_states (ex_db S1) r"
  have g1: "good_step cfg u S S1" unfolding S1_def
    by (rule marks_good[OF ok]) (use skipped_open lv(1) in auto)
  note ok1 = good_ok[OF g1]
  have c1: "ctx_of S1 r = Some c" using Some by (simp add: S1_def)
  define S2 where "S2 = (if cf_approvals cfg then with_db (enter_ready_checkpoints r ?d sts1) S1 else S1)"
  define sts2 where "sts2 = load_step_states (ex_db S2) r"
  have g2: "good_step cfg u S1 S2"
    using checkpoints_good[OF ok1 c1] good_refl[OF ok1] by (simp add: S2_def sts1_def)
  note ok2 = good_ok[OF g2]
  have c2: "ctx_of S2 r = Some c" using c1 by (simp add: S2_def)
  have g3: "good_step cfg u S2 (dispatch_ready r c sts2 S2)"
    unfolding sts2_def by (rule dispatch_good[OF ok2 c2]) simp_all
  have g4: "good_step cfg u S2 (pause_if_waiting r sts2 (dispatch_ready r c sts2 S2))"
    using good_trans[OF g3 pause_good[OF good_ok[OF g3]]] .
  have eq: "schedule_ready cfg r S =
      (if list_all (\<lambda>(s, st). step_is_terminal st) sts1 then finish r sts1 S1
       else pause_if_waiting r sts2 (dispatch_ready r c sts2 S2))"
    by (simp only: schedule_ready_def lv(6) option.case Let_def S1_def sts1_def S2_def sts2_def)
  show ?thesis
  proof (cases "list_all (\<lambda>(s, st). step_is_terminal st) sts1")
    case True
    then show ?thesis using good_trans[OF g1 finish_good[OF ok1 c1]] by (simp add: eq sts1_def)
  next
    case False
    then show ?thesis using good_trans[OF g1 good_trans[OF g2 g4]] by (simp add: eq)
  qed
qed

end
