(* ===== verification/Exec_Reach.thy ===== *)
theory Exec_Reach
  imports Exec_Safety
begin

text \<open>
  The remaining operations of the executor: reports of pool threads, execution, cancellation,
  retry, approval, rejection, recovery and the creation of runs. With the scheduler they make up
  the step relation, whose reachable states all satisfy the invariant.
\<close>

section \<open>Run states\<close>

lemma set_run_good:
  assumes ok: "exec_ok cfg u S" and run: "run_st (ex_db S) r \<noteq> None" and ns: "\<not> settled rs"
  shows "good_step cfg u S (with_db (\<lambda>db. post r ty m so p (set_run_state r rs a b db)) S)"
proof (rule good_local[OF ok, where r = r and A = "{}"])
  let ?S = "with_db (\<lambda>db. post r ty m so p (set_run_state r rs a b db)) S"
  show st: "same_static (ex_db S) (ex_db ?S)" by (simp add: statics)
  show "logs (ex_db ?S)" using exec_okD(3)[OF ok] by (simp add: log_keep)
  have v: "view cfg ?S r = (view cfg S r)\<lparr>rv_state := Some rs\<rparr>"
    by (rule view_eqI[OF st]) (use run in simp_all)
  show "view_ok (view cfg ?S r)" unfolding v by (rule set_state_ok[OF exec_okD(6)[OF ok] ns])
  show "view cfg ?S q = view cfg S q" if "q \<noteq> r" for q
    by (rule view_db[OF st]) (use that in \<open>simp_all add: fun_eq_iff\<close>)
qed auto

lemma settle_good:
  assumes ok: "exec_ok cfg u S" and run: "run_st (ex_db S) r \<noteq> None" and "settled rs"
    and all: "\<And>s st. step_st (ex_db S) r s = Some st \<Longrightarrow> step_is_terminal st"
    and "rs = RCompleted \<Longrightarrow> \<forall>s. step_st (ex_db S) r s \<noteq> Some SFailed"
    and "rs = RFailed \<Longrightarrow> \<exists>s. step_st (ex_db S) r s = Some SFailed"
  shows "good_step cfg u S (drop_ctx r (with_db (\<lambda>db. post r ty m so p (set_run_state r rs a b db)) S))"
proof (rule good_local[OF ok, where r = r and A = "{}"])
  let ?S = "drop_ctx r (with_db (\<lambda>db. post r ty m so p (set_run_state r rs a b db)) S)"
  show st: "same_static (ex_db S) (ex_db ?S)" by (simp add: statics)
  show "logs (ex_db ?S)" using exec_okD(3)[OF ok] by (simp add: log_keep)
  have v: "view cfg ?S r = (view cfg S r)\<lparr>rv_state := Some rs, rv_live := False\<rparr>"
    by (rule view_eqI[OF st]) (use run in simp_all)
  show "view_ok (view cfg ?S r)" unfolding v
    by (rule settle_ok[OF exec_okD(6)[OF ok]]) (use assms in \<open>simp_all add: all_terminal_def\<close>)
  show "view cfg ?S q = view cfg S q" if "q \<noteq> r" for q
    by (rule view_db[OF st]) (use that in \<open>simp_all add: fun_eq_iff\<close>)
qed (auto split: if_splits)

section \<open>Tasks\<close>

lemma take_task_good:
  assumes ok: "exec_ok cfg u S" and t: "t \<in> set (ex_tasks S)"
  shows "good_step cfg u S (take_task t S)"
proof -
  obtain r where r: "\<And>q. q \<noteq> r \<Longrightarrow> task_step q t = []"
  proof (cases t)
    case (Submitted q s i)
    then show ?thesis using that[of q] by auto
  next
    case (Running q s n i)
    then show ?thesis using that[of q] by auto
  next
    case (Reschedule q)
    then show ?thesis using that[of q] by auto
  qed
  show ?thesis
  proof (rule good_local[OF ok, where r = r and A = "{}"])
    show "view cfg (take_task t S) q = view cfg S q" if "q \<noteq> r" for q
      by (rule view_db) (simp_all add: run_work_remove_other[OF r[OF that]])
    show "view_ok (view cfg (take_task t S) r)"
    proof (cases "task_step r t = []")
      case True
      then have "view cfg (take_task t S) r = view cfg S r"
        by (intro view_db) (simp_all add: run_work_remove_other)
      then show ?thesis using exec_okD(6)[OF ok, of r] by simp
    next
      case False
      then obtain s where s: "task_step r t = [s]" by (cases t) (auto split: if_splits)
      have "distinct (run_work (ex_tasks S) r)" using view_okD(3)[OF exec_okD(6)[OF ok, of r]] by (simp add: work_ok_def)
      note rm = run_work_remove[OF t s this]
      have "view cfg (take_task t S) r = (view cfg S r)\<lparr>rv_work := remove1 s (rv_work (view cfg S r))\<rparr>"
        by (rule view_eqI) (use rm in simp_all)
      then show ?thesis using drop_work_ok[OF exec_okD(6)[OF ok, of r]] by simp
    qed
  qed (use exec_okD(3)[OF ok] in auto)
qed

lemma add_reschedule_good:
  assumes ok: "exec_ok cfg u S"
  shows "good_step cfg u S (S\<lparr>ex_tasks := ex_tasks S @ [Reschedule r]\<rparr>)"
proof (rule good_local[OF ok, where r = r and A = "{}"])
  have v: "view cfg (S\<lparr>ex_tasks := ex_tasks S @ [Reschedule r]\<rparr>) q = view cfg S q" for q
    by (rule view_db) simp_all
  show "view_ok (view cfg (S\<lparr>ex_tasks := ex_tasks S @ [Reschedule r]\<rparr>) r)" using exec_okD(6)[OF ok, of r] by (simp add: v)
  show "view cfg (S\<lparr>ex_tasks := ex_tasks S @ [Reschedule r]\<rparr>) q = view cfg S q" for q by (rule v)
qed (use exec_okD(3)[OF ok] in auto)

lemma begin_good:
  assumes ok: "exec_ok cfg u S" and t: "Submitted r s i \<in> set (ex_tasks S)"
  shows "good_step cfg u S (begin_step r s i S)"
proof -
  let ?S1 = "take_task (Submitted r s i) S"
  have g1: "good_step cfg u S ?S1" by (rule take_task_good[OF ok t])
  show ?thesis
  proof (cases "\<exists>c n. ctx_of S r = Some c \<and> map_of (nodes (cx_dag c)) s = Some n")
    case False
    then have "begin_step r s i S = ?S1"
      by (auto simp: begin_step_def take_task_def Let_def split: option.split)
    then show ?thesis using g1 by simp
  next
    case True
    then obtain c n where cn: "ctx_of S r = Some c" "map_of (nodes (cx_dag c)) s = Some n" by blast
    let ?S' = "?S1\<lparr>ex_tasks := ex_tasks ?S1 @ [Running r s n i]\<rparr>"
    have eq: "begin_step r s i S = ?S'" using cn by (simp add: begin_step_def take_task_def)
    have dist: "distinct (run_work (ex_tasks S) r)" and wk: "work_ok (view cfg S r)"
      using view_okD(3)[OF exec_okD(6)[OF ok, of r]] by (simp_all add: work_ok_def)
    have rm: "run_work (remove1 (Submitted r s i) (ex_tasks S)) r = remove1 s (run_work (ex_tasks S) r)"
      "s \<in> set (run_work (ex_tasks S) r)"
      using run_work_remove[OF t _ dist, where s = s] by simp_all
    have v: "view cfg ?S' r = (view cfg S r)\<lparr>rv_work := remove1 s (rv_work (view cfg S r)) @ [s]\<rparr>"
      by (rule view_eqI) (use rm(1) in simp_all)
    show ?thesis unfolding eq
    proof (rule good_local[OF ok, where r = r and A = "{}"])
      have "work_ok ((view cfg S r)\<lparr>rv_work := remove1 s (rv_work (view cfg S r)) @ [s]\<rparr>)"
        using wk rm(2) dist by (auto simp: work_ok_def deps_done_def done_at_def dest: in_set_remove1[THEN iffD1, rotated]
            notin_set_remove1)
      then show "view_ok (view cfg ?S' r)" unfolding v by (rule set_work_ok[OF exec_okD(6)[OF ok]])
      show "view cfg ?S' q = view cfg S q" if "q \<noteq> r" for q
        by (rule view_db) (use that in \<open>simp_all add: run_work_remove_other\<close>)
    qed (use exec_okD(3)[OF ok] in auto)
  qed
qed

section \<open>Reports of pool threads\<close>

text \<open>Persisting the terminal state of a step that a thread holds, while the run is driven.\<close>

lemma result_good:
  assumes ok: "exec_ok cfg u S" and t: "Running r s n i \<in> set (ex_tasks S)" and c: "ctx_of S r = Some c"
    and tmn: "step_is_terminal st"
    and c': "cx_dag c' = cx_dag c" "cx_limit c' = cx_limit c" "cx_finished c' = cx_finished c"
    and S': "S' = (set_ctx r c' S)\<lparr>ex_db := emit_step_state r s st e (persist_step_state r s st out err a b (ex_db S)),
               ex_tasks := remove1 (Running r s n i) (ex_tasks S)\<rparr>"
  shows "good_step cfg u S S'"
proof (rule good_local[OF ok, where r = r and A = "{(r, s)}"])
  note lv = live_run[OF ok c]
  have dist: "distinct (run_work (ex_tasks S) r)"
    using view_okD(3)[OF exec_okD(6)[OF ok, of r]] by (simp add: work_ok_def)
  note rm = run_work_remove[OF t _ dist, where s = s]
  have wk: "step_st (ex_db S) r s \<in> {Some SRunning, Some SSkipped, Some SCancelled}"
    using view_okD(3)[OF exec_okD(6)[OF ok, of r]] rm by (simp add: work_ok_def)
  show st: "same_static (ex_db S) (ex_db S')" by (simp add: S' statics)
  show "logs (ex_db S')" using exec_okD(3)[OF ok] by (simp add: S' log_keep)
  show "\<exists>c. ctx_of S q = Some c \<and> cx_dag x = cx_dag c \<and> cx_limit x = cx_limit c \<and> cx_finished x = cx_finished c"
    if "ctx_of S' q = Some x" for q x using that c c' by (auto simp: S' split: if_splits)
  have v: "view cfg S' r = (put_steps {s} st (view cfg S r))\<lparr>rv_work := remove1 s (rv_work (view cfg S r))\<rparr>"
    by (rule view_eqI[OF st]) (use rm c in \<open>auto simp: S'\<close>)
  show "view_ok (view cfg S' r)" unfolding v
    by (rule put_result_ok[OF exec_okD(6)[OF ok] _ tmn]) (use rm c in simp_all)
  show "view cfg S' q = view cfg S q" if "q \<noteq> r" for q
    by (rule view_db[OF st]) (use that in \<open>simp_all add: S' fun_eq_iff run_work_remove_other\<close>)
  show "same_rows {(r, s)} (ex_db S) (ex_db S')" by (simp add: S' same_rows_persist)
  show "step_st (ex_db S) q x \<noteq> Some SCompleted" if "(q, x) \<in> {(r, s)}" for q x using that wk by auto
qed (simp add: S')

lemma complete_good:
  assumes ok: "exec_ok cfg u S" and t: "Running r s n i \<in> set (ex_tasks S)"
  shows "good_step cfg u S (on_step_complete r s res (take_task (Running r s n i) S))"
proof (cases "ctx_of S r")
  case None
  then show ?thesis using take_task_good[OF ok t] by (simp add: on_step_complete_def live_ctx_def)
next
  case (Some c)
  let ?T = "take_task (Running r s n i) S"
  define S1 where "S1 = (set_ctx r (c\<lparr>cx_in_flight := cx_in_flight c - {s}\<rparr>) S)\<lparr>
    ex_db := emit_step_state r s (result_state res) (res_error res)
       (persist_step_state r s (result_state res) (map_option JObj (res_output res)) (res_error res) False True (ex_db S)),
    ex_tasks := remove1 (Running r s n i) (ex_tasks S)\<rparr>"
  have g: "good_step cfg u S S1"
    by (rule result_good[OF ok t Some _ _ _ _ S1_def]) (simp_all add: result_state_def)
  have "live_ctx ?T r = Some c" using live_run(2)[OF ok Some] Some by (simp add: live_ctx_def)
  then have "on_step_complete r s res ?T = S1\<lparr>ex_tasks := ex_tasks S1 @ [Reschedule r]\<rparr>"
    by (simp add: on_step_complete_def S1_def Let_def set_ctx_def take_task_def)
  then show ?thesis using good_trans[OF g add_reschedule_good[OF good_ok[OF g]]] by simp
qed

lemma abort_good:
  assumes ok: "exec_ok cfg u S" and t: "Running r s n i \<in> set (ex_tasks S)"
  shows "good_step cfg u S (abort_run r s reason (take_task (Running r s n i) S))"
proof (cases "ctx_of S r")
  case None
  then show ?thesis using take_task_good[OF ok t] by (simp add: abort_run_def live_ctx_def)
next
  case (Some c)
  let ?T = "take_task (Running r s n i) S"
  define S1 where "S1 = (set_ctx r c S)\<lparr>
    ex_db := emit_step_state r s SFailed (Some reason) (persist_step_state r s SFailed None (Some reason) False True (ex_db S)),
    ex_tasks := remove1 (Running r s n i) (ex_tasks S)\<rparr>"
  define S2 where "S2 = with_db (fold (mark_step r SSkipped) (open_steps (ex_db S1) r)) S1"
  have g1: "good_step cfg u S S1" by (rule result_good[OF ok t Some _ _ _ _ S1_def]) simp_all
  note ok1 = good_ok[OF g1]
  note dk1 = exec_okD(2)[OF ok1]
  have g2: "good_step cfg u S1 S2" unfolding S2_def
    by (rule marks_good[OF ok1]) (use open_steps_set[OF dk1] in auto)
  note ok2 = good_ok[OF g2]
  have st2: "step_st (ex_db S2) r x = (if x \<in> set (open_steps (ex_db S1) r) then Some SSkipped else step_st (ex_db S1) r x)" for x
    using open_steps_set[OF dk1, of r] by (auto simp: S2_def step_st_marks)
  have dist: "distinct (run_work (ex_tasks S) r)"
    using view_okD(3)[OF exec_okD(6)[OF ok, of r]] by (simp add: work_ok_def)
  have "step_st (ex_db S) r s \<noteq> None"
    using view_okD(3)[OF exec_okD(6)[OF ok, of r]] run_work_remove[OF t _ dist, where s = s] by (auto simp: work_ok_def)
  then have fail: "step_st (ex_db S1) r s = Some SFailed" by (simp add: S1_def)
  have run2: "run_st (ex_db S2) r \<noteq> None"
    using live_run(3)[OF ok Some] by (simp add: S2_def S1_def step_st_marks(2))
  have g3: "good_step cfg u S2 (drop_ctx r (with_db (\<lambda>db. post r ''run.failed'' ''workflow run stopped'' (Some s)
      [(''state'', JStr (run_value RFailed)), (''reason'', JStr reason)] (set_run_state r RFailed False True db)) S2))"
  proof (rule settle_good[OF ok2 run2])
    show "settled RFailed" by (simp add: settled_def)
    show "step_is_terminal st" if "step_st (ex_db S2) r x = Some st" for x st
      using that st2[of x] open_steps_set[OF dk1, of r] by (auto split: if_splits)
    show "\<exists>x. step_st (ex_db S2) r x = Some SFailed"
      using fail st2[of s] open_steps_set[OF dk1, of r] by (intro exI[of _ s]) auto
  qed simp
  have "live_ctx ?T r = Some c" using live_run(2)[OF ok Some] Some by (simp add: live_ctx_def)
  then have "ex_db (abort_run r s reason ?T) = post r ''run.failed'' ''workflow run stopped'' (Some s)
      [(''state'', JStr (run_value RFailed)), (''reason'', JStr reason)] (set_run_state r RFailed False True (ex_db S2))"
    "ex_ctxs (abort_run r s reason ?T) = dict_del r (ex_ctxs S)" "ex_tasks (abort_run r s reason ?T) = ex_tasks S2"
    "ex_torn (abort_run r s reason ?T) = ex_torn S" "ex_fresh (abort_run r s reason ?T) = ex_fresh S"
    by (simp_all only: abort_run_def option.case Let_def S2_def S1_def)
      (simp_all add: drop_ctx_def with_db_def take_task_def set_ctx_def)
  moreover have "dict_del r (dict_set r c (ex_ctxs S)) = dict_del r (ex_ctxs S)"
    by (simp add: delete_update_same)
  ultimately have "abort_run r s reason ?T = drop_ctx r (with_db (\<lambda>db. post r ''run.failed'' ''workflow run stopped'' (Some s)
      [(''state'', JStr (run_value RFailed)), (''reason'', JStr reason)] (set_run_state r RFailed False True db)) S2)"
    by (intro exec.equality) (simp_all add: drop_ctx_def with_db_def S2_def S1_def set_ctx_def)
  then show ?thesis using good_trans[OF g1 good_trans[OF g2 g3]] by simp
qed

section \<open>Execution, cancellation and retry\<close>

lemma torn_good: "good_step cfg u S S' \<Longrightarrow> good_step cfg u S (S'\<lparr>ex_torn := x\<rparr>)"
  by (simp add: good_step_def keeps_done_def exec_ok_def view_def)

lemma execute_good:
  assumes ok: "exec_ok cfg u S" and ex: "execute_run cfg r S = Inr (st, S')"
  shows "good_step cfg u S S'"
proof -
  obtain v where v: "load_run (ex_db S) r = Some v"
    using ex by (auto simp: execute_run_def split: option.splits)
  show ?thesis
  proof (cases "run_is_terminal (rr_state v)")
    case True
    then show ?thesis using ex v good_refl[OF ok] by (simp add: execute_run_def)
  next
    case False
    have nc: "\<not> dict_has (ex_ctxs S) r" using ex v False by (auto simp: execute_run_def split: if_splits)
    define c where "c = fresh_ctx cfg (ex_db S) r v"
    define S2 where "S2 = with_db (set_run_state r RRunning True False) (set_ctx r c S)"
    have S': "S' = S2\<lparr>ex_tasks := ex_tasks S2 @ [Reschedule r]\<rparr>"
      using ex v False nc by (simp add: execute_run_def S2_def c_def Let_def)
    have nc': "ctx_of S r = None" using nc by (simp add: ctx_of_def dict_has_def)
    have run: "run_st (ex_db S) r = Some (rr_state v)" using v by (simp add: run_st_def)
    have st: "same_static (ex_db S) (ex_db S2)" by (simp add: S2_def statics)
    have vw: "view cfg S2 r = (view cfg S r)\<lparr>rv_state := Some RRunning, rv_live := True\<rparr>"
      by (rule view_eqI[OF st]) (use run in \<open>simp_all add: S2_def\<close>)
    have "view_ok ((view cfg S r)\<lparr>rv_state := Some RRunning\<rparr>)"
      by (rule set_state_ok[OF exec_okD(6)[OF ok]]) (simp add: settled_def)
    then have here: "view_ok (view cfg S2 r)"
      unfolding vw using set_live_ok[of "(view cfg S r)\<lparr>rv_state := Some RRunning\<rparr>" True] by (simp add: settled_def)
    have ok2: "exec_ok cfg u S2"
    proof (rule exec_ok_local[OF ok st _ _ _ here])
      show "logs (ex_db S2)" using exec_okD(3)[OF ok] by (simp add: S2_def log_keep)
      show "ctx_good cfg (ex_db S2) q c'" if "ctx_of S2 q = Some c'" for q c'
      proof (cases "q = r")
        case True
        then have "c' = c" using that by (simp add: S2_def)
        moreover have "ctx_good cfg (ex_db S) r c" using v by (simp add: c_def fresh_ctx_def ctx_good_def)
        ultimately show ?thesis using True ctx_good_static[OF st, of cfg r c c] by (simp add: ctx_good_def)
      next
        case False
        then have "ctx_of S q = Some c'" using that by (simp add: S2_def)
        then show ?thesis using ctx_good_kept[OF ok st] by blast
      qed
      show "view cfg S2 q = view cfg S q" if "q \<noteq> r" for q
        by (rule view_db[OF st]) (use that in \<open>simp_all add: S2_def fun_eq_iff\<close>)
    qed (simp add: S2_def)
    have "keeps_done S S2" by (rule keeps_done_rows[of "{}"]) (simp_all add: S2_def)
    then have "good_step cfg u S S2" using ok2 by (simp add: good_step_def)
    then show ?thesis using good_trans[OF _ add_reschedule_good[OF ok2]] S' by simp
  qed
qed

lemma cancel_good:
  assumes ok: "exec_ok cfg u S" and ex: "cancel_run cfg r why S = Inr (st, S')"
  shows "good_step cfg u S S'"
proof -
  obtain v where v: "load_run (ex_db S) r = Some v"
    using ex by (auto simp: cancel_run_def split: option.splits)
  show ?thesis
  proof (cases "run_is_terminal (rr_state v)")
    case True
    then show ?thesis using ex v good_refl[OF ok] by (simp add: cancel_run_def)
  next
    case False
    have run: "run_st (ex_db S) r \<noteq> None" using v by (simp add: run_st_def)
    define pay where "pay = [(''state'', JStr (run_value RCancelling)), (''reason'', reason_json why)]"
    define S1 where "S1 = with_db (\<lambda>db. post r ''run.cancelling'' ''workflow run cancellation requested'' None pay
        (set_run_state r RCancelling False False db)) S"
    define S2 where "S2 = with_db (fold (mark_step r SCancelled) (open_steps (ex_db S1) r)) S1"
    define S3 where "S3 = drop_ctx r (with_db (\<lambda>db. post r ''run.cancelled'' ''workflow run cancelled'' None
        [(''state'', JStr (run_value RCancelled))] (set_run_state r RCancelled False True db)) S2)"
    have g1: "good_step cfg u S S1" unfolding S1_def
      by (rule set_run_good[OF ok run]) (simp add: settled_def)
    note ok1 = good_ok[OF g1]
    note os = open_steps_set[OF exec_okD(2)[OF ok1], of r]
    have g2: "good_step cfg u S1 S2" unfolding S2_def by (rule marks_good[OF ok1]) (use os in auto)
    have st2: "step_st (ex_db S2) r x = (if x \<in> set (open_steps (ex_db S1) r) then Some SCancelled else step_st (ex_db S1) r x)" for x
      using os by (auto simp: S2_def step_st_marks)
    have run2: "run_st (ex_db S2) r \<noteq> None" using run by (simp add: S2_def S1_def step_st_marks(2))
    have g3: "good_step cfg u S2 S3" unfolding S3_def
    proof (rule settle_good[OF good_ok[OF g2] run2])
      show "settled RCancelled" by (simp add: settled_def)
      show "step_is_terminal st" if "step_st (ex_db S2) r x = Some st" for x st
        using that st2[of x] os by (auto split: if_splits)
    qed simp_all
    have db: "ex_db S3 = cancel_db r why (ex_db S)"
      by (simp add: S3_def S2_def S1_def cancel_db_def Let_def pay_def)
    have "S' = S3\<lparr>ex_torn := ex_torn S'\<rparr>"
    proof (rule exec.equality)
      show "ex_db S' = ex_db (S3\<lparr>ex_torn := ex_torn S'\<rparr>)"
        using ex v False db by (auto simp: cancel_run_def)
    qed (use ex v False in \<open>auto simp: cancel_run_def S3_def S2_def S1_def drop_ctx_def with_db_def\<close>)
    then show ?thesis using torn_good[OF good_trans[OF g1 good_trans[OF g2 g3]]] by metis
  qed
qed

lemma error_closure_set:
  assumes "dict_ok (db_steps (ex_db S))"
  shows "error_closure (load_dag (ex_db S) r) (load_step_states (ex_db S) r) = error_set (view cfg S r)"
proof -
  have "{f. step_st (ex_db S) r f = Some SFailed} =
      set (map fst (filter (\<lambda>(s, st). st = SFailed) (load_step_states (ex_db S) r)))"
    using states_mem[OF assms] by force
  then show ?thesis by (auto simp: error_closure_def error_set_def dependents_of_iff simp del: set_map set_filter)
qed

lemma retry_good:
  assumes ok: "exec_ok cfg u S" and ex: "retry_run cfg r S = Inr (st, S')"
  shows "good_step cfg u S S'"
proof -
  obtain v where v: "load_run (ex_db S) r = Some v" and fl: "rr_state v = RFailed"
    and nc: "\<not> dict_has (ex_ctxs S) r" and ex': "execute_run cfg r (with_db (retry_db r) S) = Inr (st, S')"
    using ex by (auto simp: retry_run_def split: option.splits if_splits)
  let ?S1 = "with_db (retry_db r) S"
  let ?cl = "sorted_set (error_closure (load_dag (ex_db S) r) (load_step_states (ex_db S) r))"
  have cl: "error_closure (load_dag (ex_db S) r) (load_step_states (ex_db S) r) = error_set (view cfg S r)"
    by (rule error_closure_set[OF exec_okD(2)[OF ok]])
  have fin: "finite (error_closure (load_dag (ex_db S) r) (load_step_states (ex_db S) r))"
    by (auto simp: error_closure_def)
  have set_cl: "set ?cl = error_set (view cfg S r)" using cl fin by (metis set_sorted_list_of_set)
  have run: "run_st (ex_db S) r \<noteq> None" using v by (simp add: run_st_def)
  have nc': "ctx_of S r = None" using nc by (simp add: ctx_of_def dict_has_def)
  have st: "same_static (ex_db S) (ex_db ?S1)"
    by (auto simp: retry_db_def Let_def intro!: statics fold_static)
  have eq: "step_st (ex_db ?S1) q t = (if q = r \<and> t \<in> error_set (view cfg S r) \<and> step_st (ex_db S) q t \<noteq> None
      then Some SPending else step_st (ex_db S) q t)" for q t
    unfolding set_cl[symmetric] by (simp add: retry_db_def Let_def step_st_restarts del: set_sorted_list_of_set)
  have rq: "run_st (ex_db ?S1) q = (if q = r then Some RPending else run_st (ex_db S) q)" for q
    using run by (simp add: retry_db_def Let_def step_st_restarts)
  have vw: "view cfg ?S1 r = (put_steps (error_set (view cfg S r)) SPending (view cfg S r))
      \<lparr>rv_state := Some RPending, rv_live := False\<rparr>"
    by (rule view_eqI[OF st]) (use nc' eq[of r] rq[of r] in simp_all)
  have g: "good_step cfg u S ?S1"
  proof (rule good_local[OF ok st, where r = r and A = "{r} \<times> error_set (view cfg S r)"])
    show "logs (ex_db ?S1)"
      using exec_okD(3)[OF ok] by (auto simp: retry_db_def Let_def intro!: log_keep fold_log)
    show "view_ok (view cfg ?S1 r)" unfolding vw
      by (rule retry_ok[OF exec_okD(6)[OF ok]]) (simp add: settled_def)
    show "view cfg ?S1 q = view cfg S q" if "q \<noteq> r" for q
    proof (rule view_db[OF st])
      show "run_st (ex_db ?S1) q = run_st (ex_db S) q" using that rq[of q] by simp
      show "step_st (ex_db ?S1) q = step_st (ex_db S) q" using that eq[of q] by (intro ext) simp
    qed simp_all
    have "same_rows ({r} \<times> set ?cl) (ex_db S) (fold (restart_step r) ?cl (ex_db S))"
      by (rule same_rows_fold) (auto intro: same_rows_restart)
    then show "same_rows ({r} \<times> error_set (view cfg S r)) (ex_db S) (ex_db ?S1)"
      unfolding set_cl by (simp add: retry_db_def Let_def)
    show "step_st (ex_db S) q t \<noteq> Some SCompleted" if "(q, t) \<in> {r} \<times> error_set (view cfg S r)" for q t
      using error_set_not_done[OF exec_okD(6)[OF ok], of t r] that by (auto simp: done_at_def)
  qed auto
  show ?thesis using good_trans[OF g execute_good[OF good_ok[OF g] ex']] .
qed

lemma job_good:
  assumes ok: "exec_ok cfg u S"
  shows "good_step cfg u S (record_step_job r s j S)"
proof (cases "ctx_of S r")
  case None
  then show ?thesis using good_refl[OF ok] by (simp add: record_step_job_def)
next
  case (Some c)
  let ?S = "set_ctx r (c\<lparr>cx_jobs := dict_set s j (cx_jobs c)\<rparr>) S"
  have "good_step cfg u S ?S"
  proof (rule good_local[OF ok, where r = r and A = "{}"])
    have v: "view cfg ?S q = view cfg S q" for q by (rule view_db) (use Some in auto)
    then show "view_ok (view cfg ?S r)" "view cfg ?S q = view cfg S q" for q
      using exec_okD(6)[OF ok] by simp_all
  qed (use exec_okD(3)[OF ok] Some in \<open>auto split: if_splits\<close>)
  then show ?thesis using Some by (simp add: record_step_job_def)
qed

section \<open>Decisions\<close>

lemma decide_good:
  assumes ok: "exec_ok cfg u S" and d: "decide_approved r s ed (ex_db S) = Inr db'"
  shows "good_step cfg u S (S\<lparr>ex_db := db'\<rparr>)"
proof (rule good_local[OF ok, where r = r and A = "{(r, s)}"])
  let ?S = "S\<lparr>ex_db := db'\<rparr>"
  note f = step_st_approved[OF d]
  show st: "same_static (ex_db S) (ex_db ?S)" using decide_approved_static[OF d] by simp
  show "logs (ex_db ?S)" using approved_log[OF exec_okD(3)[OF ok] d] by simp
  have v: "view cfg ?S r = put_steps {s} SCompleted (view cfg S r)"
    by (rule view_eqI[OF st]) (use f in auto)
  show "view_ok (view cfg ?S r)" unfolding v
    by (rule put_decided_ok[OF exec_okD(6)[OF ok]]) (use f in simp_all)
  show "view cfg ?S q = view cfg S q" if "q \<noteq> r" for q
    by (rule view_db[OF st]) (use that f in \<open>simp_all add: fun_eq_iff\<close>)
  show "same_rows {(r, s)} (ex_db S) (ex_db ?S)"
    using decide_approved_load(1)[OF d] by (simp add: same_rows_def)
  show "step_st (ex_db S) q t \<noteq> Some SCompleted" if "(q, t) \<in> {(r, s)}" for q t using that f(1) by simp
qed auto

lemma approve_good:
  assumes ok: "exec_ok cfg u S"
  shows "good_step cfg u S (snd (approve cfg r s ed S))"
proof (cases "decide_approved r s ed (ex_db S)")
  case (Inl e)
  then show ?thesis using good_refl[OF ok] by (simp add: approve_def)
next
  case (Inr db')
  note g = decide_good[OF ok Inr]
  show ?thesis
  proof (cases "execute_run cfg r (S\<lparr>ex_db := db'\<rparr>)")
    case (Inl e)
    then show ?thesis using g Inr by (simp add: approve_def Let_def)
  next
    case x: (Inr p)
    then show ?thesis using good_trans[OF g execute_good[OF good_ok[OF g], of r "fst p" "snd p"]] Inr
      by (cases p) (simp add: approve_def Let_def)
  qed
qed

lemma rejection_good:
  assumes ok: "exec_ok cfg u S" and rj: "reject r s reason (ex_db S) = Inr (st, db')"
  shows "good_step cfg u S (S\<lparr>ex_db := db'\<rparr>)"
proof -
  let ?S = "S\<lparr>ex_db := db'\<rparr>" and ?v = "view cfg S r"
  let ?D = "{t. t \<noteq> s \<and> t \<in> dependents_of (load_dag (ex_db S) r) s \<and>
      (\<exists>st. step_st (ex_db S) r t = Some st \<and> \<not> step_is_terminal st)}"
  note f = step_st_reject[OF rj exec_okD(2)[OF ok]]
  have run: "run_st (ex_db S) r \<noteq> None"
    using view_okD(1)[OF exec_okD(6)[OF ok, of r]] f(2) by (fastforce simp: steps_known_def)
  define w where "w = put_steps ?D SSkipped (put_steps {s} SCancelled ?v)"
  have "view_ok (put_steps {s} SCancelled ?v)"
    by (rule put_decided_ok[OF exec_okD(6)[OF ok]]) (use f(2) in simp_all)
  then have "view_ok w" unfolding w_def
    by (rule put_closed_ok) auto
  then have w: "view_ok (w\<lparr>rv_state := Some RRejected\<rparr>)" by (rule set_state_ok) (simp add: settled_def)
  have st: "same_static (ex_db S) (ex_db ?S)" using reject_static[OF rj] by simp
  show ?thesis
  proof (rule good_local[OF ok st, where r = r and A = "{r} \<times> ({s} \<union> ?D)"])
    show "logs (ex_db ?S)" using reject_log[OF exec_okD(3)[OF ok] rj] by simp
    have "view cfg ?S r = w\<lparr>rv_state := Some RRejected\<rparr>"
    proof (rule view_eqI[OF st])
      show "step_st (ex_db ?S) r t = rv_steps (w\<lparr>rv_state := Some RRejected\<rparr>) t" for t
        using f(2) f(4)[of r t] by (auto simp: w_def)
    qed (use f(5) run in \<open>auto simp: w_def\<close>)
    then show "view_ok (view cfg ?S r)" using w by simp
    show "view cfg ?S q = view cfg S q" if "q \<noteq> r" for q
      by (rule view_db[OF st]) (use that f(4,5) in \<open>simp_all add: fun_eq_iff\<close>)
    show "same_rows ({r} \<times> ({s} \<union> ?D)) (ex_db S) (ex_db ?S)"
      unfolding same_rows_def
    proof (intro allI impI)
      fix q t assume "(q, t) \<notin> {r} \<times> ({s} \<union> ?D)"
      then show "load_step (ex_db ?S) q t = load_step (ex_db S) q t"
        using f(3)[of q t] by auto
    qed
    show "step_st (ex_db S) q t \<noteq> Some SCompleted" if "(q, t) \<in> {r} \<times> ({s} \<union> ?D)" for q t
      using that f(2) by auto
  qed auto
qed

end
