(* ===== verification/Reachable.thy ===== *)
theory Reachable
  imports Exec_Reach
begin

text \<open>
  New runs, recovery after a crash, and the invariant of every reachable state of the executor.
\<close>

section \<open>Statements without effect on the runs\<close>

lemma neutral_good:
  assumes ok: "exec_ok cfg u S" and "ex_ctxs S' = ex_ctxs S" "ex_tasks S' = ex_tasks S" "ex_fresh S' = ex_fresh S"
    and db: "db_runs (ex_db S') = db_runs (ex_db S)" "db_steps (ex_db S') = db_steps (ex_db S)"
      "db_events (ex_db S') = db_events (ex_db S)"
  shows "good_step cfg u S S'"
proof -
  have l: "load_run (ex_db S') = load_run (ex_db S)" "load_step (ex_db S') = load_step (ex_db S)"
    "load_dag (ex_db S') = load_dag (ex_db S)"
    by (simp_all add: fun_eq_iff load_run_def load_step_def load_dag_def run_steps_def db)
  have s: "step_st (ex_db S') = step_st (ex_db S)" "run_st (ex_db S') = run_st (ex_db S)"
    by (simp_all add: fun_eq_iff step_st_def run_st_def l)
  have "ctx_of S' = ctx_of S" using assms(2) by (simp add: fun_eq_iff ctx_of_def)
  then show ?thesis using ok assms(3,4) db
    by (simp add: good_step_def keeps_done_def exec_ok_def view_def db_view_def l s logs_def ctx_good_def)
qed

section \<open>Recovery\<close>

definition no_work :: "exec \<Rightarrow> bool" where
  "no_work S \<longleftrightarrow> (\<forall>q. run_work (ex_tasks S) q = [])"

lemma crash_good:
  assumes ok: "exec_ok cfg u S"
  shows "good_step cfg u S (crash S) \<and> no_work (crash S)"
proof -
  have v: "view cfg (crash S) q = (view cfg S q)\<lparr>rv_live := False, rv_work := []\<rparr>" for q
    by (simp add: view_def db_view_def crash_def ctx_of_def)
  have "exec_ok cfg u (crash S)"
    unfolding exec_ok_def v
    using ok crash_ok by (simp add: exec_ok_def crash_def ctx_of_def)
  then show ?thesis by (simp add: good_step_def keeps_done_def crash_def no_work_def)
qed

lemma execute_no_work: "no_work S \<Longrightarrow> execute_run cfg r S = Inr (st, S') \<Longrightarrow> no_work S'"
  by (auto simp: no_work_def execute_run_def Let_def split: option.splits if_splits)

lemma requeue_good:
  assumes ok: "exec_ok cfg u S" and nw: "no_work S"
  shows "good_step cfg u S (with_db (reset_inflight_steps r) S)"
proof (rule good_local[OF ok, where r = r and A = "{(q, t). q = r \<and> step_st (ex_db S) q t \<in> {Some SRunning, Some SReady}}"])
  let ?S = "with_db (reset_inflight_steps r) S"
  show st: "same_static (ex_db S) (ex_db ?S)" by (simp add: statics)
  show "logs (ex_db ?S)" using exec_okD(3)[OF ok] by (simp add: log_keep)
  have "view cfg ?S r = requeue (view cfg S r)"
    by (rule view_eqI[OF st]) (auto simp: requeue_def step_st_inflight)
  then show "view_ok (view cfg ?S r)"
    using requeue_ok[OF exec_okD(6)[OF ok, of r]] nw by (simp add: no_work_def)
  show "view cfg ?S q = view cfg S q" if "q \<noteq> r" for q
    by (rule view_db[OF st]) (use that in \<open>simp_all add: fun_eq_iff step_st_inflight\<close>)
  show "same_rows {(q, t). q = r \<and> step_st (ex_db S) q t \<in> {Some SRunning, Some SReady}} (ex_db S) (ex_db ?S)"
    using same_rows_inflight[of r "ex_db S"] by simp
qed auto

lemma resume_run_good:
  assumes ok: "exec_ok cfg u S" and nw: "no_work S"
  shows "good_step cfg u S (resume_run cfg row S) \<and> no_work (resume_run cfg row S)"
proof -
  obtain r st where row: "row = (r, st)" by (cases row)
  let ?S1 = "with_db (reset_inflight_steps r) S"
  have g1: "good_step cfg u S ?S1" by (rule requeue_good[OF ok nw])
  have n1: "no_work ?S1" using nw by (simp add: no_work_def)
  show ?thesis
  proof (cases "st = RAwaiting_approval")
    case True
    then show ?thesis using good_refl[OF ok] nw by (simp add: resume_run_def row)
  next
    case False
    show ?thesis
    proof (cases "execute_run cfg r ?S1")
      case (Inl e)
      then show ?thesis using g1 n1 False by (simp add: resume_run_def row Let_def)
    next
      case (Inr p)
      obtain rs S2 where p: "p = (rs, S2)" by (cases p)
      have "good_step cfg u S S2" using good_trans[OF g1 execute_good[OF good_ok[OF g1] Inr[unfolded p]]] .
      then show ?thesis using execute_no_work[OF n1 Inr[unfolded p]] Inr False p
        by (simp add: resume_run_def row Let_def)
    qed
  qed
qed

lemma resume_runs_good:
  "exec_ok cfg u S \<Longrightarrow> no_work S \<Longrightarrow> good_step cfg u S (fold (resume_run cfg) rows S)"
proof (induction rows arbitrary: S)
  case Nil
  then show ?case using good_refl by simp
next
  case (Cons row rows)
  note g = resume_run_good[OF Cons.prems, of row]
  show ?case using good_trans[OF conjunct1[OF g] Cons.IH[OF good_ok[OF conjunct1[OF g]] conjunct2[OF g]]] by simp
qed

lemma restart_good:
  assumes "exec_ok cfg u S"
  shows "good_step cfg u S (snd (resume_pending_runs cfg (crash S)))"
proof -
  note c = crash_good[OF assms]
  show ?thesis
    using good_trans[OF conjunct1[OF c] resume_runs_good[OF good_ok[OF conjunct1[OF c]] conjunct2[OF c]]]
    by (simp add: resume_pending_runs_def Let_def)
qed

section \<open>New runs\<close>

text \<open>The nodes of a definition: each under its own id, one per id.\<close>

definition nodes_wf :: "(string, dag_node) dict \<Rightarrow> bool" where
  "nodes_wf ns \<longleftrightarrow> dict_ok ns \<and> (\<forall>(k, n) \<in> set ns. step_id n = k)"

lemma nodes_wf_set:
  assumes "nodes_wf ns"
  shows "nodes_wf (dict_set (step_id n) n ns)"
proof -
  have "set (dict_set (step_id n) n ns) \<subseteq> insert (step_id n, n) (set ns)"
    by (induction ns) auto
  then show ?thesis using assms unfolding nodes_wf_def by auto
qed

lemma definition_nodes_wf: "definition_nodes js ns = Some ns' \<Longrightarrow> nodes_wf ns \<Longrightarrow> nodes_wf ns'"
  by (induction js ns rule: definition_nodes.induct) (auto split: option.splits intro: nodes_wf_set)

lemma nodes_wf_Nil: "nodes_wf []"
  by (simp add: nodes_wf_def)

lemma dag_from_definition_wf:
  "dag_from_definition d = Some g \<Longrightarrow> nodes_wf (nodes g) \<and> edges g = dag_edges (nodes g)"
  using definition_nodes_wf nodes_wf_Nil by (fastforce simp: dag_from_definition_def split: json.splits)

lemma nodes_wf_map:
  assumes "nodes_wf ns"
  shows "map (\<lambda>n. (step_id n, n)) (map snd ns) = ns"
proof -
  have "map (\<lambda>p. (step_id (snd p), snd p)) ns = ns"
    by (rule map_idI) (use assms in \<open>auto simp: nodes_wf_def\<close>)
  then show ?thesis by (simp add: comp_def)
qed

lemma new_rows_of:
  "map (\<lambda>((q, s), v). (s, v)) (filter (\<lambda>((q', s), v). q' = q) (map (\<lambda>(k, n). ((rid, k), new_step_row n)) ns)) =
     (if q = rid then map (\<lambda>(k, n). (k, new_step_row n)) ns else [])"
  by (cases "q = rid"; induction ns) auto

lemma load_insert_run:
  assumes "load_run db rid = None" "\<And>s. load_step db rid s = None" and wf: "nodes_wf (nodes g)"
    and db'_def: "db' = insert_run rid did lmt g db"
  shows "load_run db' q = (if q = rid then Some \<lparr>rr_definition = did, rr_state = RPending, rr_limit = lmt,
        rr_created = db_now db, rr_started = None, rr_finished = None\<rparr> else load_run db q)"
    and "load_step db' q t = (if q = rid then map_option new_step_row (map_of (nodes g) t) else load_step db q t)"
    and "q \<noteq> rid \<Longrightarrow> load_dag db' q = load_dag db q"
    and "nodes (load_dag db' rid) = nodes g"
proof -
  let ?new = "map (\<lambda>n. ((rid, step_id n), new_step_row n)) (map snd (nodes g))"
  have new: "?new = map (\<lambda>(k, n). ((rid, k), new_step_row n)) (nodes g)"
    using wf by (auto simp: nodes_wf_def)
  have mo: "map_of (map (\<lambda>(k, n). ((rid, k), new_step_row n)) ns) (q, t) =
      (if q = rid then map_option new_step_row (map_of ns t) else None)" for ns q t
    by (induction ns) auto
  show "load_run db' q = (if q = rid then Some \<lparr>rr_definition = did, rr_state = RPending, rr_limit = lmt,
        rr_created = db_now db, rr_started = None, rr_finished = None\<rparr> else load_run db q)"
    using assms(1) by (auto simp: db'_def insert_run_def load_run_def map_add_def split: option.splits)
  show "load_step db' q t = (if q = rid then map_option new_step_row (map_of (nodes g) t) else load_step db q t)"
    using assms(2)[of t] unfolding db'_def insert_run_def load_step_def new
    by (auto simp: map_add_def mo split: option.splits)
  have steps: "run_steps db' q = run_steps db q @ (if q = rid then map (\<lambda>(k, n). (k, new_step_row n)) (nodes g) else [])" for q
    unfolding db'_def insert_run_def run_steps_def new by (simp add: new_rows_of)
  show "q \<noteq> rid \<Longrightarrow> load_dag db' q = load_dag db q" by (simp add: load_dag_def steps)
  have none: "run_steps db rid = []"
  proof (cases "run_steps db rid")
    case (Cons p ps)
    then show ?thesis using run_steps_get[of db rid "fst p"] assms(2)[of "fst p"] by (cases p) simp
  qed
  have "map (\<lambda>(s, v). (s, row_node s v)) (map (\<lambda>(k, n). (k, new_step_row n)) (nodes g)) = nodes g"
    unfolding map_map by (rule map_idI)
      (use wf in \<open>auto simp: nodes_wf_def row_node_def new_step_row_def\<close>)
  then show "nodes (load_dag db' rid) = nodes g" by (simp add: load_dag_def steps none Let_def)
qed

lemma start_run_Inr:
  assumes "start_run cfg u did ovr S = Inr (rid, S')"
  obtains d g where "load_definition did S = Inr d" "dag_from_definition d = Some g" "rid = u (ex_fresh S)"
    "S' = S\<lparr>ex_db := post rid ''run.created'' ''workflow run created'' None
        [(''definition_id'', JStr did), (''state'', JStr (run_value RPending))]
        (insert_run rid did (resolve_limit cfg d ovr) g (ex_db S)), ex_fresh := Suc (ex_fresh S)\<rparr>"
  using assms by (auto simp: start_run_def rbind_Inr_iff Let_def split: option.splits)

text \<open>The id of the next run is unused.\<close>

lemma fresh_run:
  assumes ok: "exec_ok cfg u S" and uu: "uuid_ok u"
  shows "load_run (ex_db S) (u (ex_fresh S)) = None" "load_step (ex_db S) (u (ex_fresh S)) s = None"
proof -
  show no: "load_run (ex_db S) (u (ex_fresh S)) = None"
  proof (rule ccontr)
    assume "load_run (ex_db S) (u (ex_fresh S)) \<noteq> None"
    then obtain n where "n < ex_fresh S" "u (ex_fresh S) = u n" using exec_okD(4)[OF ok] by blast
    then show False using uu by (simp add: uuid_ok_def inj_eq)
  qed
  have "run_st (ex_db S) (u (ex_fresh S)) = None" using no by (simp add: run_st_def)
  then have "step_st (ex_db S) (u (ex_fresh S)) s = None"
    using view_okD(1)[OF exec_okD(6)[OF ok, of "u (ex_fresh S)"]] by (auto simp: steps_known_def)
  then show "load_step (ex_db S) (u (ex_fresh S)) s = None" by (simp add: step_st_def)
qed

lemma start_good:
  assumes ok: "exec_ok cfg u S" and uu: "uuid_ok u" and ex: "start_run cfg u did ovr S = Inr (rid, S')"
  shows "good_step cfg u S S'"
proof -
  obtain d g where g: "dag_from_definition d = Some g" and rid: "rid = u (ex_fresh S)"
    and S': "S' = S\<lparr>ex_db := post rid ''run.created'' ''workflow run created'' None
        [(''definition_id'', JStr did), (''state'', JStr (run_value RPending))]
        (insert_run rid did (resolve_limit cfg d ovr) g (ex_db S)), ex_fresh := Suc (ex_fresh S)\<rparr>"
    using start_run_Inr[OF ex] by blast
  let ?db = "insert_run rid did (resolve_limit cfg d ovr) g (ex_db S)"
  have wf: "nodes_wf (nodes g)" using dag_from_definition_wf[OF g] by simp
  note noload = fresh_run(1)[OF ok uu, folded rid] and nostep = fresh_run(2)[OF ok uu, folded rid]
  note L = load_insert_run[OF noload nostep wf refl, where did = did and lmt = "resolve_limit cfg d ovr"]
  have nowork: "run_work (ex_tasks S) rid = []"
  proof (rule ccontr)
    assume "run_work (ex_tasks S) rid \<noteq> []"
    then obtain s where "s \<in> set (run_work (ex_tasks S) rid)" by (cases "run_work (ex_tasks S) rid") auto
    then have "step_st (ex_db S) rid s \<noteq> None"
      using view_okD(3)[OF exec_okD(6)[OF ok, of rid]] by (auto simp: work_ok_def)
    then show False using nostep by (simp add: step_st_def)
  qed
  have ld: "load_dag (ex_db S') q = load_dag ?db q" for q
    by (simp add: S' load_dag_def run_steps_def)
  have ctx: "ctx_of S' q = ctx_of S q" for q by (simp add: S' ctx_of_def)
  have ls: "load_step (ex_db S') q t = (if q = rid then map_option new_step_row (map_of (nodes g) t) else load_step (ex_db S) q t)"
    for q t by (simp add: S' L(2))
  have lr: "load_run (ex_db S') q = (if q = rid then Some \<lparr>rr_definition = did, rr_state = RPending,
      rr_limit = resolve_limit cfg d ovr, rr_created = db_now (ex_db S), rr_started = None, rr_finished = None\<rparr>
      else load_run (ex_db S) q)" for q by (simp add: S' L(1))
  have other: "view cfg S' q = view cfg S q" if "q \<noteq> rid" for q
  proof -
    have "step_st (ex_db S') q t = step_st (ex_db S) q t" for t using that by (simp add: step_st_def ls)
    then have "step_st (ex_db S') q = step_st (ex_db S) q" by (rule ext)
    moreover have "run_st (ex_db S') q = run_st (ex_db S) q" using that by (simp add: run_st_def lr)
    moreover have "run_work (ex_tasks S') q = run_work (ex_tasks S) q" by (simp add: S')
    ultimately show ?thesis using that by (simp add: view_def db_view_def ld L(3) ctx lr)
  qed
  have here: "view_ok (view cfg S' rid)"
  proof (rule new_run_ok)
    have ids: "dag_ids (load_dag ?db rid) = dag_ids g" unfolding dag_ids_def L(4) ..
    show "rv_steps (view cfg S' rid) s =
        (if s \<in> dag_ids (rv_graph (view cfg S' rid)) then Some SPending else None)" for s
    proof -
      have "dag_ids (rv_graph (view cfg S' rid)) = dag_ids g" by (simp only: view_simps ld ids)
      moreover have "rv_steps (view cfg S' rid) s = (if s \<in> dag_ids g then Some SPending else None)"
      proof (cases "map_of (nodes g) s")
        case None
        then have "s \<notin> dag_ids g" using map_of_nodes_None[of g s] by blast
        then show ?thesis using None by (simp only: view_simps step_st_def ls) simp
      next
        case (Some n)
        then have "s \<in> dag_ids g" using map_of_nodes_None[of g s] by auto
        then show ?thesis using Some by (simp only: view_simps step_st_def ls) (simp add: new_step_row_def)
      qed
      ultimately show ?thesis by (simp only:)
    qed
    show "rv_state (view cfg S' rid) = Some RPending" by (simp add: run_st_def lr)
    show "rv_work (view cfg S' rid) = []" using nowork by (simp add: S')
  qed
  have "exec_ok cfg u S'"
    unfolding exec_ok_def
  proof (intro conjI allI impI)
    have "rid \<notin> set (map fst (db_runs (ex_db S)))"
      using noload by (simp add: load_run_def map_of_eq_None_iff)
    then show "dict_ok (db_runs (ex_db S'))" using exec_okD(1)[OF ok] by (simp add: S' insert_run_def)
    have "(rid, s) \<notin> set (map fst (db_steps (ex_db S)))" for s
      using nostep[of s] by (simp add: load_step_def map_of_eq_None_iff)
    moreover have "distinct (map (\<lambda>n. (rid, step_id n)) (map snd (nodes g)))"
    proof -
      have "map (\<lambda>n. (rid, step_id n)) (map snd (nodes g)) = map (Pair rid) (dict_keys (nodes g))"
        using wf by (auto simp: nodes_wf_def)
      then show ?thesis using wf by (simp add: nodes_wf_def distinct_map inj_on_def)
    qed
    ultimately show "dict_ok (db_steps (ex_db S'))"
      using exec_okD(2)[OF ok] by (auto simp: S' insert_run_def comp_def)
    have "logs ?db" using exec_okD(3)[OF ok] by (simp add: logs_def insert_run_def)
    then show "logs (ex_db S')" by (simp add: S' post_log)
    show "\<exists>n < ex_fresh S'. q = u n" if "load_run (ex_db S') q \<noteq> None" for q
    proof -
      have fr: "ex_fresh S' = Suc (ex_fresh S)" by (simp add: S')
      show ?thesis
      proof (cases "q = rid")
        case True
        then show ?thesis unfolding fr rid by blast
      next
        case False
        then have "load_run (ex_db S) q \<noteq> None" using that lr[of q] by simp
        then obtain n where "n < ex_fresh S" "q = u n" using exec_okD(4)[OF ok] by blast
        then show ?thesis unfolding fr using less_SucI by blast
      qed
    qed
    show "ctx_good cfg (ex_db S') q c" if "ctx_of S' q = Some c" for q c
    proof -
      have gd: "ctx_good cfg (ex_db S) q c" using that exec_okD(5)[OF ok] ctx by simp
      then have "q \<noteq> rid" using noload by (auto simp: ctx_good_def)
      then show ?thesis using gd by (simp add: ctx_good_def ld L(3) lr)
    qed
    show "view_ok (view cfg S' q)" for q using here other[of q] exec_okD(6)[OF ok, of q] by (cases "q = rid") auto
  qed
  moreover have "keeps_done S S'"
    using nostep by (auto simp: keeps_done_def S' L(2))
  ultimately show ?thesis by (simp add: good_step_def)
qed

section \<open>Reachable states\<close>

lemma exec_step_good:
  assumes "exec_step cfg u S S'" "exec_ok cfg u S" "uuid_ok u"
  shows "good_step cfg u S S'"
  using assms(1)
proof cases
  case (start did ovr rid)
  then show ?thesis using start_good[OF assms(2,3)] by blast
next
  case (execute r st)
  then show ?thesis using execute_good[OF assms(2)] by blast
next
  case (reschedule r)
  note g = take_task_good[OF assms(2) reschedule(2)]
  show ?thesis using good_trans[OF g schedule_ready_good[OF good_ok[OF g]]] reschedule(1) by blast
next
  case (begin_task r s inp)
  then show ?thesis using begin_good[OF assms(2)] by blast
next
  case (complete r s n inp res)
  then show ?thesis using complete_good[OF assms(2)] by blast
next
  case (stop r s n inp reason)
  then show ?thesis using abort_good[OF assms(2)] by blast
next
  case (job r s j)
  then show ?thesis using job_good[OF assms(2)] by blast
next
  case (cancel r why st)
  then show ?thesis using cancel_good[OF assms(2)] by blast
next
  case (retry r st)
  then show ?thesis using retry_good[OF assms(2)] by blast
next
  case (approval r s ed)
  then show ?thesis using approve_good[OF assms(2)] by blast
next
  case (rejection r s reason st db')
  then show ?thesis using rejection_good[OF assms(2)] by blast
next
  case restart
  then show ?thesis using restart_good[OF assms(2)] by blast
next
  case (clock now)
  then show ?thesis using neutral_good[OF assms(2), of S'] by (simp add: set_clock_def with_db_def)
next
  case (save did d)
  then show ?thesis using neutral_good[OF assms(2), of S'] by (simp add: save_definition_def with_db_def)
qed

lemma initial_ok: "exec_ok cfg u initial_exec"
proof -
  have "view_ok (view cfg initial_exec r)" for r
    by (rule absent_ok)
      (simp_all add: initial_exec_def step_st_def run_st_def load_step_def load_run_def dag_ids_def
        load_dag_def run_steps_def)
  then show ?thesis
    by (simp add: exec_ok_def) (simp add: initial_exec_def logs_def log_ok_empty ctx_of_def load_run_def)
qed

lemma reachable_ok: "reachable cfg u S \<Longrightarrow> uuid_ok u \<Longrightarrow> exec_ok cfg u S"
proof (induction rule: reachable.induct)
  case reachable_init
  show ?case by (rule initial_ok)
next
  case (reachable_step S S')
  then show ?case using exec_step_good good_ok by blast
qed

end
