(* ===== verification/Exec_Facts.thy ===== *)
theory Exec_Facts
  imports Reachable
begin

text \<open>
  What one operation of the executor does to a run: the effect of retry, cancellation and recovery on
  every step, and what a pass of the scheduler leaves behind.
\<close>

section \<open>Execution, retry and cancellation\<close>

lemma execute_states:
  assumes ex: "execute_run cfg r S = Inr (st, S')"
  shows "step_st (ex_db S') q t = step_st (ex_db S) q t"
    and "run_st (ex_db S) r = Some rs \<Longrightarrow> run_is_terminal rs \<Longrightarrow> st = rs \<and> S' = S"
    and "run_st (ex_db S) r = Some rs \<Longrightarrow> \<not> run_is_terminal rs \<Longrightarrow>
      st = RRunning \<and> ctx_of S r = None \<and> ctx_of S' r \<noteq> None \<and> run_st (ex_db S') r = Some RRunning \<and>
      Reschedule r \<in> set (ex_tasks S')"
    and "run_st (ex_db S) r \<noteq> None"
proof -
  obtain v where v: "load_run (ex_db S) r = Some v"
    using ex by (auto simp: execute_run_def split: option.splits)
  have run: "run_st (ex_db S) r = Some (rr_state v)" using v by (simp add: run_st_def)
  show "run_st (ex_db S) r \<noteq> None" using run by simp
  have a: "st = rr_state v \<and> S' = S" if "run_is_terminal (rr_state v)"
    using ex v that by (simp add: execute_run_def)
  have b: "st = RRunning \<and> ctx_of S r = None \<and> S' = (with_db (set_run_state r RRunning True False)
      (set_ctx r (fresh_ctx cfg (ex_db S) r v) S))\<lparr>ex_tasks := ex_tasks S @ [Reschedule r]\<rparr>"
    if "\<not> run_is_terminal (rr_state v)"
    using ex v that by (auto simp: execute_run_def Let_def dict_has_def ctx_of_def split: if_splits)
  show "step_st (ex_db S') q t = step_st (ex_db S) q t"
    using a b by (cases "run_is_terminal (rr_state v)") simp_all
  show "run_st (ex_db S) r = Some rs \<Longrightarrow> run_is_terminal rs \<Longrightarrow> st = rs \<and> S' = S" using a run by simp
  show "run_st (ex_db S) r = Some rs \<Longrightarrow> \<not> run_is_terminal rs \<Longrightarrow>
      st = RRunning \<and> ctx_of S r = None \<and> ctx_of S' r \<noteq> None \<and> run_st (ex_db S') r = Some RRunning \<and>
      Reschedule r \<in> set (ex_tasks S')" using b run by simp
qed

lemma retry_states:
  assumes ok: "exec_ok cfg u S" and ex: "retry_run cfg r S = Inr (st, S')"
  shows "run_st (ex_db S) r = Some RFailed" and "st = RRunning" and "run_st (ex_db S') r = Some RRunning"
    and "ctx_of S' r \<noteq> None" and "Reschedule r \<in> set (ex_tasks S')"
    and "step_st (ex_db S') q t = (if q = r \<and> t \<in> error_set (view cfg S r) \<and> step_st (ex_db S) q t \<noteq> None
      then Some SPending else step_st (ex_db S) q t)"
proof -
  obtain v where v: "load_run (ex_db S) r = Some v" and fl: "rr_state v = RFailed"
    and ex': "execute_run cfg r (with_db (retry_db r) S) = Inr (st, S')"
    using ex by (auto simp: retry_run_def split: option.splits if_splits)
  let ?S1 = "with_db (retry_db r) S"
  let ?cl = "sorted_set (error_closure (load_dag (ex_db S) r) (load_step_states (ex_db S) r))"
  have cl: "error_closure (load_dag (ex_db S) r) (load_step_states (ex_db S) r) = error_set (view cfg S r)"
    by (rule error_closure_set[OF exec_okD(2)[OF ok]])
  have fin: "finite (error_closure (load_dag (ex_db S) r) (load_step_states (ex_db S) r))"
    by (auto simp: error_closure_def)
  have set_cl: "set ?cl = error_set (view cfg S r)" using cl fin by (metis set_sorted_list_of_set)
  have run: "run_st (ex_db ?S1) r = Some RPending"
  proof -
    have "run_st (ex_db S) r \<noteq> None" using v by (simp add: run_st_def)
    then show ?thesis by (simp add: retry_db_def Let_def step_st_restarts)
  qed
  note x = execute_states[OF ex']
  show "run_st (ex_db S) r = Some RFailed" using v fl by (simp add: run_st_def)
  show "st = RRunning" "run_st (ex_db S') r = Some RRunning" "ctx_of S' r \<noteq> None" "Reschedule r \<in> set (ex_tasks S')"
    using x(3)[OF run] by simp_all
  show "step_st (ex_db S') q t = (if q = r \<and> t \<in> error_set (view cfg S r) \<and> step_st (ex_db S) q t \<noteq> None
      then Some SPending else step_st (ex_db S) q t)"
    unfolding x(1) set_cl[symmetric] by (simp add: retry_db_def Let_def step_st_restarts del: set_sorted_list_of_set)
qed

lemma cancel_states:
  assumes ok: "exec_ok cfg u S" and ex: "cancel_run cfg r why S = Inr (st, S')"
    and run: "run_st (ex_db S) r = Some rs" "\<not> run_is_terminal rs"
  shows "st = RCancelled" and "run_st (ex_db S') r = Some RCancelled" and "ctx_of S' r = None"
    and "step_st (ex_db S') q t = (if q = r \<and> (\<exists>x. step_st (ex_db S) q t = Some x \<and> \<not> step_is_terminal x)
      then Some SCancelled else step_st (ex_db S) q t)"
    and "q \<noteq> r \<Longrightarrow> run_st (ex_db S') q = run_st (ex_db S) q"
proof -
  obtain v where v: "load_run (ex_db S) r = Some v" "rr_state v = rs" using run by (auto simp: run_st_def)
  have r': "st = RCancelled" and db: "ex_db S' = cancel_db r why (ex_db S)" and c: "ctx_of S' r = None"
    using ex v run(2) by (auto simp: cancel_run_def)
  show "st = RCancelled" by (rule r')
  show "ctx_of S' r = None" by (rule c)
  show "run_st (ex_db S') r = Some RCancelled"
    using run by (simp add: db cancel_db_def Let_def step_st_marks(2))
  show "run_st (ex_db S') q = run_st (ex_db S) q" if "q \<noteq> r"
    using that by (simp add: db cancel_db_def Let_def step_st_marks(2))
  define db1 where "db1 = post r ''run.cancelling'' ''workflow run cancellation requested'' None
    [(''state'', JStr (run_value RCancelling)), (''reason'', reason_json why)] (set_run_state r RCancelling False False (ex_db S))"
  have "dict_ok (db_steps db1)"
    using dict_ok_static[of "ex_db S" db1] exec_okD(2)[OF ok] by (simp add: db1_def statics)
  then have op: "set (open_steps db1 r) = {s. \<exists>st. step_st db1 r s = Some st \<and> \<not> step_is_terminal st}"
    by (rule open_steps_set)
  have s1: "step_st db1 = step_st (ex_db S)" by (simp add: fun_eq_iff db1_def)
  have "step_st (ex_db S') q t = step_st (fold (mark_step r SCancelled) (open_steps db1 r) db1) q t"
    by (simp add: db cancel_db_def Let_def db1_def)
  also have "\<dots> = (if q = r \<and> (\<exists>x. step_st (ex_db S) q t = Some x \<and> \<not> step_is_terminal x)
      then Some SCancelled else step_st (ex_db S) q t)"
    unfolding step_st_marks op s1 by auto
  finally show "step_st (ex_db S') q t = (if q = r \<and> (\<exists>x. step_st (ex_db S) q t = Some x \<and> \<not> step_is_terminal x)
      then Some SCancelled else step_st (ex_db S) q t)" .
qed

section \<open>A pass of the scheduler\<close>

text \<open>The states of the steps of a run after each part of \<open>_schedule_ready\<close>: the blocked steps are
  skipped; then either the run is finished, or ready steps go to a checkpoint or to a pool.\<close>

definition no_blocked :: "dag \<Rightarrow> (string \<Rightarrow> step_state option) \<Rightarrow> bool" where
  "no_blocked d f \<longleftrightarrow> (\<forall>s p. f s = Some SPending \<longrightarrow> p \<in> predecessors d s \<longrightarrow>
     f p \<notin> {Some SFailed, Some SSkipped, Some SCancelled})"

lemma not_blocked_iff:
  assumes "\<forall>s \<in> dag_ids d. \<not> blocked d sts s" "\<And>s. s \<notin> dag_ids d \<Longrightarrow> map_of sts s = None"
  shows "no_blocked d (map_of sts)"
  unfolding no_blocked_def
proof (intro allI impI)
  fix s p assume s: "map_of sts s = Some SPending" and p: "p \<in> predecessors d s"
  then have "s \<in> dag_ids d" using assms(2)[of s] by (cases "s \<in> dag_ids d") auto
  then have "\<not> blocked d sts s" using assms(1) by simp
  moreover have "p \<in> set (node_deps d s)" "dict_has (nodes d) p"
    using p by (auto simp: predecessors_iff dag_has_iff)
  ultimately have "\<not> dep_blocks sts p" using s by (auto simp: blocked_def list_ex_iff)
  then show "map_of sts p \<notin> {Some SFailed, Some SSkipped, Some SCancelled}"
    by (auto simp: dep_blocks_def)
qed

lemma no_blocked_mono:
  assumes "no_blocked d f" "\<And>s. g s = Some SPending \<Longrightarrow> f s = Some SPending"
    and "\<And>s. g s \<in> {Some SFailed, Some SSkipped, Some SCancelled} \<Longrightarrow> g s = f s"
  shows "no_blocked d g"
  unfolding no_blocked_def
proof (intro allI impI notI)
  fix s p assume "g s = Some SPending" "p \<in> predecessors d s" "g p \<in> {Some SFailed, Some SSkipped, Some SCancelled}"
  then show False using assms(1) assms(2)[of s] assms(3)[of p] unfolding no_blocked_def by metis
qed

text \<open>In an acyclic graph where nothing is blocked, a step that waits for no other can start.\<close>

lemma minimal_ready:
  assumes nb: "no_blocked d f" and ac: "acyclic (edge_rel d)" and pend: "f s0 = Some SPending"
    and others: "\<forall>s st. f s = Some st \<longrightarrow> st \<noteq> SPending \<longrightarrow> step_is_terminal st"
    and known: "\<forall>s \<in> dag_ids d. f s \<noteq> None"
  obtains s where "f s = Some SPending" "\<forall>p \<in> predecessors d s. f p = Some SCompleted"
proof -
  have "wf (edge_rel d)" using finite_acyclic_wf[OF finite_edge_rel ac] .
  then obtain s where s: "s \<in> {s. f s = Some SPending}" and m: "\<And>y. (y, s) \<in> edge_rel d \<Longrightarrow> y \<notin> {s. f s = Some SPending}"
    using pend by (rule_tac x = s0 and Q = "{s. f s = Some SPending}" in wfE_min) auto
  have "f p = Some SCompleted" if p: "p \<in> predecessors d s" for p
  proof -
    have "p \<in> dag_ids d" using predecessors_known[OF p] by simp
    then obtain st where st: "f p = Some st" using known by blast
    have "st \<noteq> SPending" using m[of p] p st by auto
    then have t: "step_is_terminal st" using others st by blast
    have "f p \<notin> {Some SFailed, Some SSkipped, Some SCancelled}"
      using nb s p by (simp add: no_blocked_def)
    then show ?thesis using t st by (cases st) auto
  qed
  then show ?thesis using that[of s] s by simp
qed

lemma schedule_ready_result:
  assumes ok: "exec_ok cfg u S" and c: "ctx_of S r = Some c"
  defines "S' \<equiv> schedule_ready cfg r S" and "d \<equiv> load_dag (ex_db S) r"
  shows "(ctx_of S' r = None \<and> (\<exists>rs. run_st (ex_db S') r = Some rs \<and> settled rs)) \<or>
    (no_blocked d (step_st (ex_db S') r) \<and>
     (acyclic (edge_rel d) \<longrightarrow>
        (\<exists>t. step_st (ex_db S') r t \<in> {Some SReady, Some SRunning, Some SAwaiting_approval})))"
proof -
  note lv = live_run[OF ok c]
  obtain sk sts' where skp: "skip_fix d (load_step_states (ex_db S) r) = (sk, sts')" by force
  define S1 where "S1 = with_db (fold (mark_step r SSkipped) sk) S"
  define sts1 where "sts1 = load_step_states (ex_db S1) r"
  have g1: "good_step cfg u S S1" unfolding S1_def
    by (rule marks_good[OF ok]) (use skipped_open[of _ S r] skp in \<open>auto simp: d_def\<close>)
  note ok1 = good_ok[OF g1]
  have c1: "ctx_of S1 r = Some c" using c by (simp add: S1_def)
  have d1: "load_dag (ex_db S1) r = d" using live_run(1)[OF ok1 c1] lv(1) by (simp add: d_def)
  define f1 where "f1 = step_st (ex_db S1) r"
  have known: "\<forall>s. f1 s \<noteq> None \<longleftrightarrow> s \<in> dag_ids d"
    using view_okD(1)[OF exec_okD(6)[OF ok1, of r]] d1 by (simp add: steps_known_def f1_def)
  have nb1: "no_blocked d f1"
  proof -
    note sf = skip_fix_facts[OF skp]
    have "f1 t = map_of sts' t" for t
    proof -
      have "t \<in> set sk \<Longrightarrow> step_st (ex_db S) r t \<noteq> None"
        using sf by (auto simp: pending_set_def step_st_states)
      then show ?thesis using sf by (auto simp: f1_def S1_def step_st_marks step_st_states)
    qed
    then have eq: "f1 = map_of sts'" by (rule ext)
    have "\<forall>s \<in> dag_ids d. \<not> blocked d sts' s" using sf by blast
    then show ?thesis unfolding eq
    proof (rule not_blocked_iff)
      show "map_of sts' s = None" if "s \<notin> dag_ids d" for s using known that unfolding eq by blast
    qed
  qed
  define S2 where "S2 = (if cf_approvals cfg then with_db (enter_ready_checkpoints r d sts1) S1 else S1)"
  define sts2 where "sts2 = load_step_states (ex_db S2) r"
  have g2: "good_step cfg u S1 S2"
    using checkpoints_good[OF ok1 c1] good_refl[OF ok1] lv(1) by (simp add: S2_def sts1_def d_def)
  note ok2 = good_ok[OF g2]
  have c2: "ctx_of S2 r = Some c" using c1 by (simp add: S2_def)
  define f2 where "f2 = step_st (ex_db S2) r"
  have f2: "f2 t = f1 t \<or> (f1 t = Some SPending \<and> f2 t = Some SAwaiting_approval)" for t
  proof (cases "cf_approvals cfg")
    case True
    let ?ss = "filter (is_approval d) (ready_steps d sts1)"
    have "set ?ss \<subseteq> dag_ids d" "\<forall>s \<in> set ?ss. step_st (ex_db S1) r s = Some SPending"
      by (auto simp: ready_steps_iff sts1_def step_st_states)
    then show ?thesis
      using checkpoint_fold(2)[of ?ss d "ex_db S1" r r t] True
      by (auto simp: f2_def f1_def S2_def enter_ready_checkpoints_def)
  qed (simp add: f2_def f1_def S2_def)
  define B where "B = take (slots c sts2) (ready_steps d sts2)"
  have rd: "s \<in> dag_ids d" "f2 s = Some SPending" if "s \<in> set B" for s
    using in_set_takeD[OF that[unfolded B_def]] by (auto simp: ready_steps_iff sts2_def step_st_states f2_def)
  define S3 where "S3 = fold (dispatch_step r) B S2"
  have f3: "step_st (ex_db S3) r t = (if t \<in> set B then Some SRunning else f2 t)" for t
  proof -
    have "set B \<subseteq> dag_ids (cx_dag c)" using rd(1) lv(1) by (auto simp: d_def)
    moreover have "\<forall>s \<in> set B. step_st (ex_db S2) r s \<noteq> None" using rd(2) by (simp add: f2_def)
    ultimately show ?thesis using dispatch_fold(2)[OF c2, of B r t] by (simp add: S3_def f2_def)
  qed
  have eq: "S' = (if list_all (\<lambda>(s, st). step_is_terminal st) sts1 then finish r sts1 S1
       else pause_if_waiting r sts2 (dispatch_ready r c sts2 S2))"
    unfolding S'_def S1_def S2_def sts1_def sts2_def d_def
    by (simp only: schedule_ready_def lv(6) lv(1) option.case Let_def skp[unfolded d_def] fst_conv)
  show ?thesis
  proof (cases "list_all (\<lambda>(s, st). step_is_terminal st) sts1")
    case True
    then have S': "S' = finish r sts1 S1" using eq by simp
    have "run_st (ex_db S1) r \<noteq> None" using live_run(3)[OF ok1 c1] .
    then show ?thesis unfolding S' finish_def Let_def by (auto simp: derive_outcome_def settled_def)
  next
    case False
    then have S': "S' = pause_if_waiting r sts2 S3"
      using eq lv(1) by (simp add: dispatch_ready_def S3_def B_def d_def)
    have st': "step_st (ex_db S') r = step_st (ex_db S3) r"
      unfolding S' pause_if_waiting_def by (simp split: option.split)
    have nb: "no_blocked d (step_st (ex_db S') r)" unfolding st'
    proof (rule no_blocked_mono[OF nb1])
      fix t
      show "step_st (ex_db S3) r t = Some SPending \<Longrightarrow> f1 t = Some SPending"
        using f2[of t] by (auto simp: f3 split: if_splits)
      show "step_st (ex_db S3) r t \<in> {Some SFailed, Some SSkipped, Some SCancelled} \<Longrightarrow> step_st (ex_db S3) r t = f1 t"
        using f2[of t] by (auto simp: f3 split: if_splits)
    qed
    have "\<exists>t. step_st (ex_db S3) r t \<in> {Some SReady, Some SRunning, Some SAwaiting_approval}"
      if ac: "acyclic (edge_rel d)"
    proof (rule ccontr)
      assume no: "\<not> ?thesis"
      then have n3: "step_st (ex_db S3) r t \<notin> {Some SReady, Some SRunning, Some SAwaiting_approval}" for t by blast
      have B0: "B = []" using n3[of "hd B"] f3[of "hd B"] by (cases B) auto
      then have n2: "f2 t \<notin> {Some SReady, Some SRunning, Some SAwaiting_approval}" for t using n3[of t] f3[of t] by simp
      then have same: "f2 t = f1 t" for t using f2[of t] n2[of t] by auto
      obtain s st where "step_st (ex_db S1) r s = Some st" "\<not> step_is_terminal st"
        using False states_all[OF exec_okD(2)[OF ok1]] unfolding sts1_def by blast
      then have "f2 s = Some SPending" using n2[of s] same[of s] by (cases st) (auto simp: f1_def)
      moreover have "\<forall>s st. f2 s = Some st \<longrightarrow> st \<noteq> SPending \<longrightarrow> step_is_terminal st"
      proof (intro allI impI)
        fix s st assume "f2 s = Some st" "st \<noteq> SPending"
        then show "step_is_terminal st" using n2[of s] by (cases st) auto
      qed
      moreover have "no_blocked d f2" using nb1 same by (simp add: ext[of f2 f1])
      moreover have "\<forall>s \<in> dag_ids d. f2 s \<noteq> None" using known same by simp
      ultimately obtain t where t: "f2 t = Some SPending" "\<forall>p \<in> predecessors d t. f2 p = Some SCompleted"
        using minimal_ready ac by metis
      have "t \<in> dag_ids d" using known same[of t] t(1) by (metis option.distinct(1))
      then have "t \<in> set (ready_steps d sts2)" using t by (simp add: ready_steps_iff sts2_def step_st_states f2_def)
      moreover have "filter (\<lambda>(s, st). occupying st) sts2 = []"
        using states_mem[OF exec_okD(2)[OF ok2]] n2
        by (fastforce simp: filter_empty_conv sts2_def occupying_def f2_def)
      then have "1 \<le> slots c sts2" using lv(5) by (simp add: slots_def)
      ultimately show False using B0 unfolding B_def by (cases "ready_steps d sts2") auto
    qed
    then show ?thesis using nb st' by simp
  qed
qed

section \<open>Recovery\<close>

text \<open>A run that is picked up again.\<close>

definition picked_up :: "run_state option \<Rightarrow> bool" where
  "picked_up rs \<longleftrightarrow> rs \<in> {Some RPending, Some RRunning}"

definition requeued :: "step_state option \<Rightarrow> step_state option" where
  "requeued st = (if st \<in> {Some SRunning, Some SReady} then Some SPending else st)"

lemma resume_run_states:
  assumes run: "run_st (ex_db S) r = Some st" and nc: "ctx_of S r = None" and st: "st \<in> {RPending, RRunning, RAwaiting_approval}"
    and S'_def: "S' = resume_run cfg (r, st) S"
  shows "step_st (ex_db S') q t = (if q = r \<and> picked_up (Some st) then requeued (step_st (ex_db S) q t) else step_st (ex_db S) q t)"
    and "run_st (ex_db S') q = (if q = r \<and> picked_up (Some st) then Some RRunning else run_st (ex_db S) q)"
    and "ctx_of S' q \<noteq> None \<longleftrightarrow> (q = r \<and> picked_up (Some st)) \<or> ctx_of S q \<noteq> None"
    and "set (ex_tasks S') = set (ex_tasks S) \<union> (if picked_up (Some st) then {Reschedule r} else {})"
proof -
  have "step_st (ex_db S') q t = (if q = r \<and> picked_up (Some st) then requeued (step_st (ex_db S) q t) else step_st (ex_db S) q t) \<and>
    run_st (ex_db S') q = (if q = r \<and> picked_up (Some st) then Some RRunning else run_st (ex_db S) q) \<and>
    (ctx_of S' q \<noteq> None \<longleftrightarrow> (q = r \<and> picked_up (Some st)) \<or> ctx_of S q \<noteq> None) \<and>
    set (ex_tasks S') = set (ex_tasks S) \<union> (if picked_up (Some st) then {Reschedule r} else {})"
  proof (cases "st = RAwaiting_approval")
    case True
    then show ?thesis by (simp add: S'_def resume_run_def picked_up_def)
  next
    case False
    then have p: "picked_up (Some st)" "\<not> run_is_terminal st" using st by (auto simp: picked_up_def)
    define S1 where "S1 = with_db (reset_inflight_steps r) S"
    have run1: "run_st (ex_db S1) r = Some st" using run by (simp add: S1_def step_st_inflight)
    then obtain v where v: "load_run (ex_db S1) r = Some v" "rr_state v = st" by (auto simp: run_st_def)
    have nc1: "\<not> dict_has (ex_ctxs S1) r" using nc by (simp add: ctx_of_def dict_has_def S1_def with_db_def)
    have S': "S' = (with_db (set_run_state r RRunning True False) (set_ctx r (fresh_ctx cfg (ex_db S1) r v) S1))
        \<lparr>ex_tasks := ex_tasks S1 @ [Reschedule r]\<rparr>"
      using v p nc1 False
      by (simp add: S'_def resume_run_def Let_def S1_def[symmetric] execute_run_def)
    show ?thesis using p run
      by (auto simp: S' S1_def step_st_inflight requeued_def)
  qed
  then show "step_st (ex_db S') q t = (if q = r \<and> picked_up (Some st) then requeued (step_st (ex_db S) q t) else step_st (ex_db S) q t)"
    "run_st (ex_db S') q = (if q = r \<and> picked_up (Some st) then Some RRunning else run_st (ex_db S) q)"
    "ctx_of S' q \<noteq> None \<longleftrightarrow> (q = r \<and> picked_up (Some st)) \<or> ctx_of S q \<noteq> None"
    "set (ex_tasks S') = set (ex_tasks S) \<union> (if picked_up (Some st) then {Reschedule r} else {})"
    by blast+
qed

text \<open>What recovery does to a run: it is picked up, or left as it was.\<close>

definition resumed :: "bool \<Rightarrow> exec \<Rightarrow> exec \<Rightarrow> string \<Rightarrow> bool" where
  "resumed p S S' q \<longleftrightarrow>
     (if p then run_st (ex_db S') q = Some RRunning \<and> ctx_of S' q \<noteq> None \<and> Reschedule q \<in> set (ex_tasks S') \<and>
        (\<forall>t. step_st (ex_db S') q t = requeued (step_st (ex_db S) q t))
      else run_st (ex_db S') q = run_st (ex_db S) q \<and> (ctx_of S' q = None \<longleftrightarrow> ctx_of S q = None) \<and>
        (\<forall>t. step_st (ex_db S') q t = step_st (ex_db S) q t))"

definition picks :: "(string \<times> run_state) list \<Rightarrow> string \<Rightarrow> bool" where
  "picks rows q \<longleftrightarrow> (\<exists>st. (q, st) \<in> set rows \<and> picked_up (Some st))"

lemma resumed_after:
  "resumed False S S1 q \<Longrightarrow> resumed p S1 S' q \<Longrightarrow> resumed p S S' q"
  "resumed True S S1 q \<Longrightarrow> resumed False S1 S' q \<Longrightarrow> set (ex_tasks S1) \<subseteq> set (ex_tasks S') \<Longrightarrow> resumed True S S' q"
  by (cases p) (auto simp: resumed_def)

lemma resume_runs_states:
  assumes "distinct (map fst rows)"
    and "\<forall>(r, st) \<in> set rows. run_st (ex_db S) r = Some st \<and> ctx_of S r = None \<and> st \<in> {RPending, RRunning, RAwaiting_approval}"
    and "S' = fold (resume_run cfg) rows S"
  shows "resumed (picks rows q) S S' q \<and> set (ex_tasks S) \<subseteq> set (ex_tasks S')"
  using assms
proof (induction rows arbitrary: S)
  case (Cons row rows)
  obtain r st where row: "row = (r, st)" by (cases row)
  have pre: "run_st (ex_db S) r = Some st" "ctx_of S r = None" "st \<in> {RPending, RRunning, RAwaiting_approval}"
    using Cons.prems(2) row by auto
  define S1 where "S1 = resume_run cfg row S"
  note one = resume_run_states[OF pre S1_def[unfolded row]]
  have fresh: "r \<notin> fst ` set rows" using Cons.prems(1) row by simp
  have rest: "\<forall>(q, st) \<in> set rows. run_st (ex_db S1) q = Some st \<and> ctx_of S1 q = None \<and> st \<in> {RPending, RRunning, RAwaiting_approval}"
  proof (rule ballI, clarify)
    fix q st' assume q: "(q, st') \<in> set rows"
    then have "q \<noteq> r" using fresh by force
    then show "run_st (ex_db S1) q = Some st' \<and> ctx_of S1 q = None \<and> st' \<in> {RPending, RRunning, RAwaiting_approval}"
      using one(2)[of q] one(3)[of q] Cons.prems(2) q by auto
  qed
  have ih: "resumed (picks rows q) S1 S' q \<and> set (ex_tasks S1) \<subseteq> set (ex_tasks S')"
    by (rule Cons.IH[OF _ rest]) (use Cons.prems(1,3) in \<open>simp_all add: S1_def\<close>)
  have first: "resumed (q = r \<and> picked_up (Some st)) S S1 q"
    unfolding resumed_def one(4) using one(1)[of q] one(2)[of q] one(3)[of q] by auto
  have p: "picks (row # rows) q \<longleftrightarrow> (q = r \<and> picked_up (Some st)) \<or> picks rows q"
    using row by (auto simp: picks_def)
  have np: "q = r \<Longrightarrow> \<not> picks rows q" using fresh by (force simp: picks_def)
  have "resumed (picks (row # rows) q) S S' q"
  proof (cases "q = r \<and> picked_up (Some st)")
    case True
    then show ?thesis using resumed_after(2)[of S S1 q S'] first ih np p by simp
  next
    case False
    then have "picks (row # rows) q = picks rows q" using p by blast
    then show ?thesis using resumed_after(1)[of S S1 q] first ih False by simp
  qed
  then show ?case using ih one(4) by auto
qed (simp add: resumed_def picks_def)

lemma restart_states:
  assumes ok: "exec_ok cfg u S"
  defines "S' \<equiv> snd (resume_pending_runs cfg (crash S))"
  shows "picked_up (run_st (ex_db S) q) \<Longrightarrow>
      run_st (ex_db S') q = Some RRunning \<and> ctx_of S' q \<noteq> None \<and> Reschedule q \<in> set (ex_tasks S') \<and>
      (\<forall>t. step_st (ex_db S') q t = requeued (step_st (ex_db S) q t))"
    and "\<not> picked_up (run_st (ex_db S) q) \<Longrightarrow>
      run_st (ex_db S') q = run_st (ex_db S) q \<and> ctx_of S' q = None \<and>
      (\<forall>t. step_st (ex_db S') q t = step_st (ex_db S) q t)"
proof -
  let ?C = "crash S"
  have db: "ex_db ?C = ex_db S" and nc: "ctx_of ?C r = None" for r by (simp_all add: crash_def ctx_of_def)
  let ?rows = "resumable (ex_db S)"
  have dk: "dict_ok (db_runs (ex_db S))" by (rule exec_okD(1)[OF ok])
  have "distinct (map fst (map (\<lambda>(r, v). (r, rr_state v)) (db_runs (ex_db S))))"
    using dk by (simp add: split_beta comp_def)
  then have d: "distinct (map fst ?rows)" unfolding resumable_def by (rule distinct_map_filter)
  have mem: "(r, st) \<in> set ?rows \<longleftrightarrow> run_st (ex_db S) r = Some st \<and> st \<in> {RPending, RRunning, RAwaiting_approval}" for r st
  proof -
    have "run_st (ex_db S) r = Some st \<longleftrightarrow> (\<exists>v. (r, v) \<in> set (db_runs (ex_db S)) \<and> rr_state v = st)"
      using dk by (auto simp: run_st_def load_run_def)
    then show ?thesis by (force simp: resumable_def)
  qed
  have "\<forall>(r, st) \<in> set ?rows. run_st (ex_db ?C) r = Some st \<and> ctx_of ?C r = None \<and> st \<in> {RPending, RRunning, RAwaiting_approval}"
    using mem db nc by auto
  note all = resume_runs_states[OF d this refl, where cfg = cfg]
  have S': "S' = fold (resume_run cfg) ?rows ?C" by (simp add: S'_def resume_pending_runs_def Let_def db)
  have pk: "picks ?rows q \<longleftrightarrow> picked_up (run_st (ex_db S) q)"
    using mem by (auto simp: picked_up_def picks_def)
  have "resumed (picked_up (run_st (ex_db S) q)) ?C S' q" using all[where q = q] unfolding S' pk by simp
  then show "picked_up (run_st (ex_db S) q) \<Longrightarrow>
      run_st (ex_db S') q = Some RRunning \<and> ctx_of S' q \<noteq> None \<and> Reschedule q \<in> set (ex_tasks S') \<and>
      (\<forall>t. step_st (ex_db S') q t = requeued (step_st (ex_db S) q t))"
    "\<not> picked_up (run_st (ex_db S) q) \<Longrightarrow>
      run_st (ex_db S') q = run_st (ex_db S) q \<and> ctx_of S' q = None \<and>
      (\<forall>t. step_st (ex_db S') q t = step_st (ex_db S) q t)"
    by (simp_all add: resumed_def db nc)
qed

end
