(* ===== verification/Exec_Term.thy ===== *)
theory Exec_Term
  imports Exec_Facts
begin

text \<open>
  The pool threads alone do a bounded amount of work: without a request from outside, every statement
  of a thread lowers a measure on the pending steps and the tasks, so the executor comes to rest.
\<close>

inductive pool_step :: "exec_config \<Rightarrow> exec \<Rightarrow> exec \<Rightarrow> bool" for cfg where
  pool_schedule: "Reschedule r \<in> set (ex_tasks S) \<Longrightarrow>
    pool_step cfg S (schedule_ready cfg r (take_task (Reschedule r) S))"
| pool_begin: "Submitted r s inp \<in> set (ex_tasks S) \<Longrightarrow> pool_step cfg S (begin_step r s inp S)"
| pool_complete: "Running r s n inp \<in> set (ex_tasks S) \<Longrightarrow>
    pool_step cfg S (on_step_complete r s res (take_task (Running r s n inp) S))"
| pool_stop: "Running r s n inp \<in> set (ex_tasks S) \<Longrightarrow>
    pool_step cfg S (abort_run r s reason (take_task (Running r s n inp) S))"

lemma pool_step_exec: "pool_step cfg S S' \<Longrightarrow> exec_step cfg u S S'"
  by (erule pool_step.cases) (auto intro: exec_step.intros)

fun task_weight :: "task \<Rightarrow> nat" where
  "task_weight (Submitted r s inp) = 3"
| "task_weight (Running r s n inp) = 2"
| "task_weight (Reschedule r) = 1"

definition tasks_weight :: "exec \<Rightarrow> nat" where
  "tasks_weight S = sum_list (map task_weight (ex_tasks S))"

definition pending_rows :: "exec \<Rightarrow> (string \<times> string) set" where
  "pending_rows S = {(q, t). step_st (ex_db S) q t = Some SPending}"

definition work_left :: "exec \<Rightarrow> nat" where
  "work_left S = 4 * card (pending_rows S) + tasks_weight S"

lemma finite_pending [simp]: "finite (pending_rows S)"
proof (rule finite_subset)
  show "pending_rows S \<subseteq> fst ` set (db_steps (ex_db S))"
    by (auto simp: pending_rows_def step_st_def load_step_def dest!: map_of_SomeD intro!: rev_image_eqI)
qed simp

lemma tasks_weight_simps [simp]:
  "tasks_weight (with_db f S) = tasks_weight S"
  "tasks_weight (set_ctx r c S) = tasks_weight S"
  "tasks_weight (drop_ctx r S) = tasks_weight S"
  "tasks_weight (S\<lparr>ex_db := db\<rparr>) = tasks_weight S"
  "tasks_weight (S\<lparr>ex_tasks := ts @ [t]\<rparr>) = sum_list (map task_weight ts) + task_weight t"
  by (simp_all add: tasks_weight_def)

lemma weight_remove: "t \<in> set ts \<Longrightarrow> sum_list (map task_weight ts) = task_weight t + sum_list (map task_weight (remove1 t ts))"
  by (rule sum_list_map_remove1)

lemma weight_take: "t \<in> set (ex_tasks S) \<Longrightarrow> tasks_weight S = task_weight t + tasks_weight (take_task t S)"
  using weight_remove[of t "ex_tasks S"] by (simp add: tasks_weight_def)

lemma pending_take [simp]: "pending_rows (take_task t S) = pending_rows S"
  by (simp add: pending_rows_def)

lemma pending_fields [simp]:
  "pending_rows (set_ctx r c S) = pending_rows S"
  "pending_rows (drop_ctx r S) = pending_rows S"
  "pending_rows (S\<lparr>ex_tasks := ts\<rparr>) = pending_rows S"
  by (simp_all add: pending_rows_def)

section \<open>Each statement\<close>

lemma begin_work:
  assumes "Submitted r s inp \<in> set (ex_tasks S)"
  shows "work_left (begin_step r s inp S) < work_left S"
proof -
  note w = weight_take[OF assms]
  have "begin_step r s inp S = take_task (Submitted r s inp) S \<or>
    (\<exists>n. begin_step r s inp S = (take_task (Submitted r s inp) S)
      \<lparr>ex_tasks := ex_tasks (take_task (Submitted r s inp) S) @ [Running r s n inp]\<rparr>)"
    by (auto simp: begin_step_def take_task_def Let_def split: option.split)
  then show ?thesis using w by (auto simp: work_left_def tasks_weight_def)
qed

lemma complete_work:
  assumes "Running r s n inp \<in> set (ex_tasks S)"
  shows "work_left (on_step_complete r s res (take_task (Running r s n inp) S)) < work_left S"
proof -
  let ?T = "take_task (Running r s n inp) S" and ?S = "on_step_complete r s res (take_task (Running r s n inp) S)"
  note w = weight_take[OF assms]
  have t: "result_state res \<noteq> SPending" by (cases "res_state res") (simp_all add: result_state_def)
  have "pending_rows ?S \<subseteq> pending_rows S"
    using t by (auto simp: on_step_complete_def Let_def pending_rows_def split: option.splits if_splits)
  then have "card (pending_rows ?S) \<le> card (pending_rows S)" by (intro card_mono) simp_all
  moreover have "tasks_weight ?S \<le> Suc (tasks_weight ?T)"
    by (simp add: on_step_complete_def Let_def tasks_weight_def split: option.split)
  ultimately show ?thesis using w by (simp add: work_left_def)
qed

lemma stop_work:
  assumes "Running r s n inp \<in> set (ex_tasks S)"
  shows "work_left (abort_run r s reason (take_task (Running r s n inp) S)) < work_left S"
proof -
  let ?T = "take_task (Running r s n inp) S" and ?S = "abort_run r s reason (take_task (Running r s n inp) S)"
  note w = weight_take[OF assms]
  have "pending_rows ?S \<subseteq> pending_rows S"
    by (auto simp: abort_run_def Let_def pending_rows_def step_st_marks split: option.splits if_splits)
  then have "card (pending_rows ?S) \<le> card (pending_rows S)" by (intro card_mono) simp_all
  moreover have "tasks_weight ?S = tasks_weight ?T"
    by (simp add: abort_run_def Let_def split: option.split)
  ultimately show ?thesis using w by (simp add: work_left_def)
qed

lemma dispatch_weight: "tasks_weight (fold (dispatch_step r) ss S) \<le> tasks_weight S + 3 * length ss"
proof (induction ss arbitrary: S)
  case (Cons s ss)
  have "tasks_weight (dispatch_step r s S) \<le> tasks_weight S + 3"
    by (simp add: dispatch_step_def Let_def tasks_weight_def split: option.split)
  then show ?case using Cons.IH[of "dispatch_step r s S"] by simp
qed simp

lemma pending_checkpoints:
  "step_st (checkpoint_step r d s db) q t = Some SPending \<Longrightarrow> step_st db q t = Some SPending"
  by (auto simp: checkpoint_step_def step_st_checkpoint split: option.splits sum.splits if_splits)

lemma pending_checkpoint_fold:
  "step_st (fold (checkpoint_step r d) ss db) q t = Some SPending \<Longrightarrow> step_st db q t = Some SPending"
  by (induction ss arbitrary: db) (auto dest: pending_checkpoints)

lemma dispatch_work:
  assumes ok: "exec_ok cfg u S" and c: "ctx_of S r = Some c"
  shows "work_left (dispatch_ready r c (load_step_states (ex_db S) r) S) \<le> work_left S"
proof -
  let ?sts = "load_step_states (ex_db S) r"
  note lv = live_run[OF ok c]
  define B where "B = take (slots c ?sts) (ready_steps (load_dag (ex_db S) r) ?sts)"
  define F where "F = fold (dispatch_step r) B S"
  have rd: "s \<in> dag_ids (cx_dag c)" "step_st (ex_db S) r s = Some SPending" if "s \<in> set B" for s
    using in_set_takeD[OF that[unfolded B_def]] lv(1) by (auto simp: ready_steps_iff step_st_states)
  then have f: "step_st (ex_db F) q t = (if q = r \<and> t \<in> set B then Some SRunning else step_st (ex_db S) q t)" for q t
    unfolding F_def by (intro dispatch_fold(2)[OF c]) auto
  have dist: "distinct B" unfolding B_def
    by (intro distinct_take ready_steps_distinct load_dag_ok exec_okD(2)[OF ok])
  have "pending_rows F = pending_rows S - {r} \<times> set B" by (auto simp: pending_rows_def f)
  moreover have sub: "{r} \<times> set B \<subseteq> pending_rows S" using rd(2) by (auto simp: pending_rows_def)
  moreover have "card ({r} \<times> set B) = length B" using dist by (simp add: card_cartesian_product distinct_card)
  ultimately have "card (pending_rows F) = card (pending_rows S) - length B" "length B \<le> card (pending_rows S)"
    using card_Diff_subset[of "{r} \<times> set B" "pending_rows S"] card_mono[OF finite_pending sub] by simp_all
  moreover have "tasks_weight F \<le> tasks_weight S + 3 * length B" unfolding F_def by (rule dispatch_weight)
  moreover have "dispatch_ready r c ?sts S = F" using lv(1) by (simp add: dispatch_ready_def F_def B_def)
  ultimately show ?thesis by (simp add: work_left_def)
qed

lemma work_mono:
  assumes "\<And>q t. step_st (ex_db S') q t = Some SPending \<Longrightarrow> step_st (ex_db S) q t = Some SPending"
    and "ex_tasks S' = ex_tasks S"
  shows "work_left S' \<le> work_left S"
proof -
  have "pending_rows S' \<subseteq> pending_rows S" using assms(1) by (auto simp: pending_rows_def)
  then have "card (pending_rows S') \<le> card (pending_rows S)" by (intro card_mono) simp_all
  then show ?thesis using assms(2) by (simp add: work_left_def tasks_weight_def)
qed

lemma schedule_work:
  assumes ok: "exec_ok cfg u S"
  shows "work_left (schedule_ready cfg r S) \<le> work_left S"
proof (cases "ctx_of S r")
  case None
  then show ?thesis by (simp add: schedule_ready_def live_ctx_def)
next
  case (Some c)
  note lv = live_run[OF ok Some]
  let ?d = "cx_dag c"
  let ?sk = "fst (skip_fix ?d (load_step_states (ex_db S) r))"
  define S1 where "S1 = with_db (fold (mark_step r SSkipped) ?sk) S"
  define sts1 where "sts1 = load_step_states (ex_db S1) r"
  have g1: "good_step cfg u S S1" unfolding S1_def
    by (rule marks_good[OF ok]) (use skipped_open lv(1) in auto)
  note ok1 = good_ok[OF g1]
  have c1: "ctx_of S1 r = Some c" using Some by (simp add: S1_def)
  define S2 where "S2 = (if cf_approvals cfg then with_db (enter_ready_checkpoints r ?d sts1) S1 else S1)"
  define sts2 where "sts2 = load_step_states (ex_db S2) r"
  have "good_step cfg u S1 S2"
    using checkpoints_good[OF ok1 c1] good_refl[OF ok1] by (simp add: S2_def sts1_def)
  note ok2 = good_ok[OF this]
  have c2: "ctx_of S2 r = Some c" using c1 by (simp add: S2_def)
  have w1: "work_left S1 \<le> work_left S"
    by (rule work_mono) (auto simp: S1_def step_st_marks split: if_splits)
  have w2: "work_left S2 \<le> work_left S1"
    by (rule work_mono) (auto simp: S2_def enter_ready_checkpoints_def dest: pending_checkpoint_fold split: if_splits)
  have w3: "work_left (dispatch_ready r c sts2 S2) \<le> work_left S2"
    unfolding sts2_def by (rule dispatch_work[OF ok2 c2])
  have w4: "work_left (pause_if_waiting r sts2 T) \<le> work_left T" for T
    by (rule work_mono) (auto simp: pause_if_waiting_def split: option.splits if_splits)
  have w5: "work_left (finish r sts1 S1) \<le> work_left S1"
    by (rule work_mono) (auto simp: finish_def Let_def)
  have eq: "schedule_ready cfg r S =
      (if list_all (\<lambda>(s, st). step_is_terminal st) sts1 then finish r sts1 S1
       else pause_if_waiting r sts2 (dispatch_ready r c sts2 S2))"
    by (simp only: schedule_ready_def lv(6) option.case Let_def S1_def sts1_def S2_def sts2_def)
  show ?thesis unfolding eq using w1 w2 w3 w4[of "dispatch_ready r c sts2 S2"] w5 by simp
qed

section \<open>The bound\<close>

lemma pool_step_work:
  assumes "pool_step cfg S S'" "exec_ok cfg u S"
  shows "work_left S' < work_left S"
  using assms(1)
proof cases
  case (pool_schedule r)
  have "work_left S' \<le> work_left (take_task (Reschedule r) S)"
    unfolding pool_schedule(1)
    by (rule schedule_work[OF good_ok[OF take_task_good[OF assms(2) pool_schedule(2)]]])
  then show ?thesis using weight_take[OF pool_schedule(2)] by (simp add: work_left_def)
qed (simp_all add: begin_work complete_work stop_work)

lemma pool_steps_bounded:
  "(pool_step cfg ^^ n) S S' \<Longrightarrow> reachable cfg u S \<Longrightarrow> uuid_ok u \<Longrightarrow> n + work_left S' \<le> work_left S"
proof (induction n arbitrary: S')
  case (Suc n)
  obtain T where T: "(pool_step cfg ^^ n) S T" "pool_step cfg T S'" using Suc.prems(1) by auto
  have "reachable cfg u T"
    using T(1) Suc.prems(2)
  proof (induction n arbitrary: T)
    case (Suc m)
    then obtain U where "(pool_step cfg ^^ m) S U" "pool_step cfg U T" by auto
    then show ?case using Suc.IH[of U] Suc.prems(2) pool_step_exec reachable_step by blast
  qed simp
  then have "work_left S' < work_left T" using pool_step_work[OF T(2)] reachable_ok Suc.prems(3) by blast
  then show ?case using Suc.IH[OF T(1) Suc.prems(2,3)] by simp
qed simp

end
