(* ===== verification/Demo.thy ===== *)
theory Demo
  imports Exec_Term
begin

text \<open>
  A workflow of two steps carried through the executor, one statement at a time: the concrete states
  on which the properties are tried.
\<close>

definition demo_step :: "string \<Rightarrow> string list \<Rightarrow> json" where
  "demo_step s deps = JObj [(''id'', JStr s), (''type'', JStr ''tool''), (''dependsOn'', JList (map JStr deps))]"

definition demo_definition :: "(string \<times> json) list" where
  "demo_definition = [(''name'', JStr ''demo''),
     (''steps'', JList [demo_step ''a'' [], demo_step ''b'' [''a'']])]"

definition demo_cfg :: exec_config where
  "demo_cfg = \<lparr>cf_limit = 1, cf_approvals = True, cf_infra = False\<rparr>"

definition demo_uuid :: "nat \<Rightarrow> string" where
  "demo_uuid n = replicate (Suc n) CHR ''r''"

lemma demo_uuid_ok: "uuid_ok demo_uuid"
proof -
  have "inj demo_uuid" by (rule injI) (simp add: demo_uuid_def replicate_eq_replicate)
  then show ?thesis by (simp add: uuid_ok_def demo_uuid_def)
qed

definition demo_saved :: exec where
  "demo_saved = save_definition ''d'' demo_definition initial_exec"

text \<open>The tables, with the rows of the two steps, the first events of the log, and the threads.\<close>

definition demo_node :: "string \<Rightarrow> string list \<Rightarrow> dag_node" where
  "demo_node s deps = \<lparr>step_id = s, step_type = ''tool'', config = [], depends_on = deps\<rparr>"

definition demo_row :: "step_state \<Rightarrow> string list \<Rightarrow> json option \<Rightarrow> string option \<Rightarrow> string option \<Rightarrow> step_row" where
  "demo_row st deps out b c = \<lparr>sr_type = ''tool'', sr_state = st, sr_deps = deps, sr_config = [],
     sr_output = out, sr_error = None, sr_started = b, sr_finished = c\<rparr>"

definition demo_event :: "nat \<Rightarrow> string \<Rightarrow> string option \<Rightarrow> string \<Rightarrow> (string \<times> json) list \<Rightarrow> wf_event" where
  "demo_event n ty s msg p = \<lparr>ev_run = ''r'', ev_seq = n, ev_type = ty, ev_step = s, ev_message = msg,
     ev_payload = p, ev_created = []\<rparr>"

definition demo_change :: "nat \<Rightarrow> string \<Rightarrow> step_state \<Rightarrow> wf_event" where
  "demo_change n s st = demo_event n ''step.state_changed'' (Some s) (state_changed_message s st)
     [(''state'', JStr (step_value st))]"

definition demo_log :: "wf_event list" where
  "demo_log = [demo_event 1 ''run.created'' None ''workflow run created''
       [(''definition_id'', JStr ''d''), (''state'', JStr ''pending'')],
     demo_change 2 ''a'' SRunning, demo_change 3 ''a'' SCompleted, demo_change 4 ''b'' SRunning,
     demo_change 5 ''b'' SFailed,
     demo_event 6 ''run.failed'' None ''workflow run failed'' [(''state'', JStr ''failed'')]]"

definition demo_run :: "run_state \<Rightarrow> string option \<Rightarrow> string option \<Rightarrow> run_row" where
  "demo_run rs b c = \<lparr>rr_definition = ''d'', rr_state = rs, rr_limit = 1, rr_created = [],
     rr_started = b, rr_finished = c\<rparr>"

definition demo_db :: "run_row \<Rightarrow> step_row \<Rightarrow> step_row \<Rightarrow> nat \<Rightarrow> wf_db" where
  "demo_db run a b n = \<lparr>db_definitions = [(''d'', demo_definition)], db_runs = [(''r'', run)],
     db_steps = [((''r'', ''a''), a), ((''r'', ''b''), b)],
     db_events = \<lparr>known_secrets = [], event_log = take n demo_log\<rparr>, db_now = []\<rparr>"

definition demo_ctx :: "string set \<Rightarrow> run_ctx" where
  "demo_ctx fl = \<lparr>cx_dag = \<lparr>nodes = [(''a'', demo_node ''a'' []), (''b'', demo_node ''b'' [''a''])],
     edges = [(''a'', ''b'')]\<rparr>, cx_limit = 1, cx_in_flight = fl, cx_jobs = [], cx_finished = False\<rparr>"

definition demo_state :: "wf_db \<Rightarrow> run_ctx option \<Rightarrow> task list \<Rightarrow> exec" where
  "demo_state db c ts = \<lparr>ex_db = db, ex_ctxs = (case c of None \<Rightarrow> [] | Some x \<Rightarrow> [(''r'', x)]),
     ex_tasks = ts, ex_torn = [], ex_fresh = 1\<rparr>"

definition demo_inputs :: "(string \<times> json) list" where "demo_inputs = [(''a'', JObj [])]"

definition demo_result :: "string \<Rightarrow> step_state \<Rightarrow> step_result" where
  "demo_result s st = \<lparr>res_step = s, res_state = st, res_output = Some [], res_error = None, res_tokens = None\<rparr>"

abbreviation demo_waits :: "string list \<Rightarrow> step_row" where
  "demo_waits deps \<equiv> demo_row SPending deps None None None"

abbreviation demo_runs :: "string list \<Rightarrow> step_row" where
  "demo_runs deps \<equiv> demo_row SRunning deps None (Some []) None"

abbreviation demo_ends :: "step_state \<Rightarrow> string list \<Rightarrow> step_row" where
  "demo_ends st deps \<equiv> demo_row st deps (Some (JObj [])) (Some []) (Some [])"

definition demo_started :: exec where
  "demo_started = demo_state (demo_db (demo_run RPending None None) (demo_waits []) (demo_waits [''a'']) 1) None []"

definition demo_executing :: exec where
  "demo_executing = demo_state (demo_db (demo_run RRunning (Some []) None) (demo_waits []) (demo_waits [''a'']) 1)
     (Some (demo_ctx {})) [Reschedule ''r'']"

definition demo_running :: exec where
  "demo_running = demo_state (demo_db (demo_run RRunning (Some []) None) (demo_runs []) (demo_waits [''a'']) 2)
     (Some (demo_ctx {''a''})) [Submitted ''r'' ''a'' []]"

definition demo_begun :: exec where
  "demo_begun = demo_state (demo_db (demo_run RRunning (Some []) None) (demo_runs []) (demo_waits [''a'']) 2)
     (Some (demo_ctx {''a''})) [Running ''r'' ''a'' (demo_node ''a'' []) []]"

definition demo_half :: exec where
  "demo_half = demo_state (demo_db (demo_run RRunning (Some []) None) (demo_ends SCompleted []) (demo_waits [''a'']) 3)
     (Some (demo_ctx {})) [Reschedule ''r'']"

definition demo_second :: exec where
  "demo_second = demo_state (demo_db (demo_run RRunning (Some []) None) (demo_ends SCompleted []) (demo_runs [''a'']) 4)
     (Some (demo_ctx {''b''})) [Submitted ''r'' ''b'' demo_inputs]"

definition demo_last :: exec where
  "demo_last = demo_state (demo_db (demo_run RRunning (Some []) None) (demo_ends SCompleted []) (demo_runs [''a'']) 4)
     (Some (demo_ctx {''b''})) [Running ''r'' ''b'' (demo_node ''b'' [''a'']) demo_inputs]"

definition demo_failing :: exec where
  "demo_failing = demo_state (demo_db (demo_run RRunning (Some []) None) (demo_ends SCompleted []) (demo_ends SFailed [''a'']) 5)
     (Some (demo_ctx {})) [Reschedule ''r'']"

definition demo_failed :: exec where
  "demo_failed = demo_state (demo_db (demo_run RFailed (Some []) (Some [])) (demo_ends SCompleted []) (demo_ends SFailed [''a'']) 6)
     None []"

section \<open>The statements that lead from one to the next\<close>

definition reschedule_demo :: "exec \<Rightarrow> exec" where
  "reschedule_demo S = schedule_ready demo_cfg ''r'' (take_task (Reschedule ''r'') S)"

lemma demo_start: "start_run demo_cfg demo_uuid ''d'' None demo_saved = Inr (''r'', demo_started)"
  by code_simp

lemma demo_execute: "execute_run demo_cfg ''r'' demo_started = Inr (RRunning, demo_executing)"
  by code_simp

lemma demo_dispatch: "reschedule_demo demo_executing = demo_running"
  by code_simp

lemma demo_begin: "begin_step ''r'' ''a'' [] demo_running = demo_begun"
  by code_simp

lemma demo_complete: "on_step_complete ''r'' ''a'' (demo_result ''a'' SCompleted)
    (take_task (Running ''r'' ''a'' (demo_node ''a'' []) []) demo_begun) = demo_half"
  by code_simp

lemma demo_dispatch2: "reschedule_demo demo_half = demo_second"
  by code_simp

lemma demo_begin2: "begin_step ''r'' ''b'' demo_inputs demo_second = demo_last"
  by code_simp

lemma demo_complete2: "on_step_complete ''r'' ''b'' (demo_result ''b'' SFailed)
    (take_task (Running ''r'' ''b'' (demo_node ''b'' [''a'']) demo_inputs) demo_last) = demo_failing"
  by code_simp

lemma demo_finish: "reschedule_demo demo_failing = demo_failed"
  by code_simp

lemma demo_retry: "\<exists>st S'. retry_run demo_cfg ''r'' demo_failed = Inr (st, S')"
proof -
  have "is_Inr (retry_run demo_cfg ''r'' demo_failed)" by code_simp
  then show ?thesis by (cases "retry_run demo_cfg ''r'' demo_failed") auto
qed

lemmas demo_state_defs = demo_saved_def demo_started_def demo_executing_def demo_running_def demo_begun_def
  demo_half_def demo_second_def demo_last_def demo_failing_def demo_failed_def demo_state_def

section \<open>Every state of the scenario is reachable\<close>

abbreviation demo_reachable :: "exec \<Rightarrow> bool" where
  "demo_reachable \<equiv> reachable demo_cfg demo_uuid"

lemma reach_saved: "demo_reachable demo_saved"
  unfolding demo_saved_def by (rule reachable_step[OF reachable_init exec_step.save])

lemma reach_started: "demo_reachable demo_started"
  by (rule reachable_step[OF reach_saved exec_step.start[OF demo_start]])

lemma reach_executing: "demo_reachable demo_executing"
  by (rule reachable_step[OF reach_started exec_step.execute[OF demo_execute]])

lemma reach_reschedule:
  "demo_reachable S \<Longrightarrow> Reschedule ''r'' \<in> set (ex_tasks S) \<Longrightarrow> demo_reachable (reschedule_demo S)"
  unfolding reschedule_demo_def by (rule reachable_step[OF _ exec_step.reschedule])

lemma reach_running: "demo_reachable demo_running"
  unfolding demo_dispatch[symmetric] by (rule reach_reschedule[OF reach_executing]) (simp add: demo_state_defs)

lemma reach_begun: "demo_reachable demo_begun"
  unfolding demo_begin[symmetric]
  by (rule reachable_step[OF reach_running exec_step.begin_task]) (simp add: demo_state_defs)

lemma reach_half: "demo_reachable demo_half"
  unfolding demo_complete[symmetric]
  by (rule reachable_step[OF reach_begun exec_step.complete]) (simp add: demo_state_defs)

lemma reach_second: "demo_reachable demo_second"
  unfolding demo_dispatch2[symmetric] by (rule reach_reschedule[OF reach_half]) (simp add: demo_state_defs)

lemma reach_last: "demo_reachable demo_last"
  unfolding demo_begin2[symmetric]
  by (rule reachable_step[OF reach_second exec_step.begin_task]) (simp add: demo_state_defs)

lemma reach_failing: "demo_reachable demo_failing"
  unfolding demo_complete2[symmetric]
  by (rule reachable_step[OF reach_last exec_step.complete]) (simp add: demo_state_defs)

lemma reach_failed: "demo_reachable demo_failed"
  unfolding demo_finish[symmetric] by (rule reach_reschedule[OF reach_failing]) (simp add: demo_state_defs)

text \<open>The tables of a state read by the loaders.\<close>

lemma demo_load [simp]:
  "load_run (demo_db run a b n) r = (if r = ''r'' then Some run else None)"
  "load_step (demo_db run a b n) r s =
    (if r = ''r'' \<and> s = ''a'' then Some a else if r = ''r'' \<and> s = ''b'' then Some b else None)"
  by (auto simp: demo_db_def load_run_def load_step_def)

lemma demo_db_of [simp]:
  "ex_db (demo_state db c ts) = db" "ctx_of (demo_state db c ts) r = (if r = ''r'' then c else None)"
  "ex_tasks (demo_state db c ts) = ts"
  by (auto simp: demo_state_def ctx_of_def split: option.splits)

lemma demo_fields [simp]:
  "sr_state (demo_row st deps out x y) = st" "sr_deps (demo_row st deps out x y) = deps"
  "rr_state (demo_run rs x y) = rs" "rr_limit (demo_run rs x y) = 1"
  by (simp_all add: demo_row_def demo_run_def)

lemma demo_st [simp]:
  "step_st (demo_db run a b n) r s = (if r = ''r'' \<and> s = ''a'' then Some (sr_state a)
     else if r = ''r'' \<and> s = ''b'' then Some (sr_state b) else None)"
  "run_st (demo_db run a b n) r = (if r = ''r'' then Some (rr_state run) else None)"
  by (simp_all add: step_st_def run_st_def)

lemma demo_predecessors:
  assumes "sr_deps a = []" "sr_deps b = [''a'']"
  shows "p \<in> predecessors (load_dag (demo_db run a b n) ''r'') s \<longleftrightarrow> p = ''a'' \<and> s = ''b''"
  using assms by (auto simp: predecessors_iff node_deps_def load_dag_get load_dag_ids row_node_def split: if_splits)

lemma demo_acyclic:
  assumes "sr_deps a = []" "sr_deps b = [''a'']"
  shows "acyclic (edge_rel (load_dag (demo_db run a b n) ''r''))"
proof -
  have "edge_rel (load_dag (demo_db run a b n) ''r'') = {(''a'', ''b'')}"
    using demo_predecessors[OF assms] by (auto simp: edge_rel_def)
  moreover have "acyclic {}" by (simp add: acyclic_def)
  ultimately show ?thesis by (simp add: acyclic_insert)
qed

section \<open>A workflow with a checkpoint\<close>

definition gate_definition :: "(string \<times> json) list" where
  "gate_definition = [(''name'', JStr ''gate''),
     (''steps'', JList [JObj [(''id'', JStr ''g''), (''type'', JStr ''approval'')], demo_step ''b'' [''g'']])]"

definition gate_saved :: exec where
  "gate_saved = save_definition ''d'' gate_definition initial_exec"

definition gate_log :: "wf_event list" where
  "gate_log = [demo_event 1 ''run.created'' None ''workflow run created''
       [(''definition_id'', JStr ''d''), (''state'', JStr ''pending'')],
     demo_change 2 ''g'' SAwaiting_approval,
     demo_event 3 ''approval.required'' (Some ''g'') ''step g requires approval''
       [(''context'', JObj [(''step_id'', JStr ''g''), (''step_type'', JStr ''approval''),
          (''config'', JObj []), (''inputs'', JObj [])])]]"

definition gate_row :: "step_state \<Rightarrow> json option \<Rightarrow> step_row" where
  "gate_row st out = \<lparr>sr_type = ''approval'', sr_state = st, sr_deps = [], sr_config = [],
     sr_output = out, sr_error = None, sr_started = None, sr_finished = None\<rparr>"

definition gate_db :: "run_row \<Rightarrow> step_row \<Rightarrow> nat \<Rightarrow> wf_db" where
  "gate_db run g n = \<lparr>db_definitions = [(''d'', gate_definition)], db_runs = [(''r'', run)],
     db_steps = [((''r'', ''g''), g), ((''r'', ''b''), demo_waits [''g''])],
     db_events = \<lparr>known_secrets = [], event_log = take n gate_log\<rparr>, db_now = []\<rparr>"

definition gate_ctx :: run_ctx where
  "gate_ctx = \<lparr>cx_dag = \<lparr>nodes = [(''g'', \<lparr>step_id = ''g'', step_type = ''approval'', config = [], depends_on = []\<rparr>),
     (''b'', demo_node ''b'' [''g''])], edges = [(''g'', ''b'')]\<rparr>, cx_limit = 1, cx_in_flight = {}, cx_jobs = [],
     cx_finished = False\<rparr>"

definition gate_started :: exec where
  "gate_started = demo_state (gate_db (demo_run RPending None None) (gate_row SPending None) 1) None []"

definition gate_executing :: exec where
  "gate_executing = demo_state (gate_db (demo_run RRunning (Some []) None) (gate_row SPending None) 1)
     (Some gate_ctx) [Reschedule ''r'']"

definition gate_waiting :: exec where
  "gate_waiting = demo_state (gate_db (demo_run RAwaiting_approval (Some []) None)
     (gate_row SAwaiting_approval (Some (JObj [(''step_id'', JStr ''g''), (''step_type'', JStr ''approval''),
        (''config'', JObj []), (''inputs'', JObj [])]))) 3) None []"

lemma gate_start: "start_run demo_cfg demo_uuid ''d'' None gate_saved = Inr (''r'', gate_started)"
  by code_simp

lemma gate_execute: "execute_run demo_cfg ''r'' gate_started = Inr (RRunning, gate_executing)"
  by code_simp

lemma gate_pause: "reschedule_demo gate_executing = gate_waiting"
  by code_simp

lemma reach_gate_saved: "demo_reachable gate_saved"
  unfolding gate_saved_def by (rule reachable_step[OF reachable_init exec_step.save])

lemma reach_gate_started: "demo_reachable gate_started"
  by (rule reachable_step[OF reach_gate_saved exec_step.start[OF gate_start]])

lemma reach_gate_executing: "demo_reachable gate_executing"
  by (rule reachable_step[OF reach_gate_started exec_step.execute[OF gate_execute]])

lemma reach_gate_waiting: "demo_reachable gate_waiting"
  unfolding gate_pause[symmetric]
  by (rule reach_reschedule[OF reach_gate_executing]) (simp add: gate_executing_def demo_state_def)

lemma gate_load [simp]:
  "load_run (gate_db run g n) r = (if r = ''r'' then Some run else None)"
  "load_step (gate_db run g n) r s = (if r = ''r'' \<and> s = ''g'' then Some g
     else if r = ''r'' \<and> s = ''b'' then Some (demo_waits [''g'']) else None)"
  by (auto simp: gate_db_def load_run_def load_step_def)

lemma gate_st [simp]:
  "step_st (gate_db run g n) r s = (if r = ''r'' \<and> s = ''g'' then Some (sr_state g)
     else if r = ''r'' \<and> s = ''b'' then Some SPending else None)"
  "run_st (gate_db run g n) r = (if r = ''r'' then Some (rr_state run) else None)"
  by (simp_all add: step_st_def run_st_def)

lemma gate_fields [simp]: "sr_state (gate_row st out) = st" "sr_deps (gate_row st out) = []"
  by (simp_all add: gate_row_def)

end
