(* ===== verification/Clock.thy ===== *)
theory Clock
  imports Prelude
begin

text \<open>
  What \<open>core/scheduler.py\<close> and \<open>core/helpers.py\<close> use of \<open>datetime\<close>: a UTC moment, truncation to
  the minute, adding one minute on the proleptic Gregorian calendar (\<open>OverflowError\<close> after the
  year 9999), the weekday, and the ISO text of \<open>strftime\<close>.
\<close>

record moment =
  year :: nat
  month :: nat
  day :: nat
  hour :: nat
  minute :: nat
  second :: nat
  microsecond :: nat

definition leap_year :: "nat \<Rightarrow> bool" where
  "leap_year y = (y mod 4 = 0 \<and> (y mod 100 \<noteq> 0 \<or> y mod 400 = 0))"

definition days_in_month :: "nat \<Rightarrow> nat \<Rightarrow> nat" where
  "days_in_month y m = (if m = 2 then (if leap_year y then 29 else 28)
     else if m \<in> {4, 6, 9, 11} then 30 else 31)"

definition moment_ok :: "moment \<Rightarrow> bool" where
  "moment_ok t \<longleftrightarrow> 1 \<le> year t \<and> year t \<le> 9999 \<and> 1 \<le> month t \<and> month t \<le> 12 \<and>
     1 \<le> day t \<and> day t \<le> days_in_month (year t) (month t) \<and> hour t < 24 \<and> minute t < 60 \<and> second t < 60"

definition truncate_minute :: "moment \<Rightarrow> moment" where
  "truncate_minute t = t\<lparr>second := 0, microsecond := 0\<rparr>"

text \<open>\<open>t + timedelta(minutes=1)\<close>; \<open>None\<close> is the \<open>OverflowError\<close>.\<close>

definition plus_minute :: "moment \<Rightarrow> moment option" where
  "plus_minute t =
     (if minute t < 59 then Some (t\<lparr>minute := minute t + 1\<rparr>)
      else let t1 = t\<lparr>minute := 0\<rparr> in
      if hour t < 23 then Some (t1\<lparr>hour := hour t + 1\<rparr>)
      else let t2 = t1\<lparr>hour := 0\<rparr> in
      if day t < days_in_month (year t) (month t) then Some (t2\<lparr>day := day t + 1\<rparr>)
      else let t3 = t2\<lparr>day := 1\<rparr> in
      if month t < 12 then Some (t3\<lparr>month := month t + 1\<rparr>)
      else if year t < 9999 then Some (t3\<lparr>month := 1, year := year t + 1\<rparr>)
      else None)"

text \<open>\<open>toordinal\<close>: 1 for the first of January of year 1, a Monday.\<close>

definition days_before_year :: "nat \<Rightarrow> nat" where
  "days_before_year y = (y - 1) * 365 + (y - 1) div 4 - (y - 1) div 100 + (y - 1) div 400"

definition days_before_month :: "nat \<Rightarrow> nat \<Rightarrow> nat" where
  "days_before_month y m = sum_list (map (days_in_month y) [1..<m])"

definition to_ordinal :: "moment \<Rightarrow> nat" where
  "to_ordinal t = days_before_year (year t) + days_before_month (year t) (month t) + day t"

definition weekday :: "moment \<Rightarrow> nat" where
  "weekday t = (to_ordinal t + 6) mod 7"

definition pad2 :: "nat \<Rightarrow> string" where
  "pad2 n = (if n < 10 then ''0'' @ nat_str n else nat_str n)"

definition iso_text :: "moment \<Rightarrow> string" where
  "iso_text t = nat_str (year t) @ ''-'' @ pad2 (month t) @ ''-'' @ pad2 (day t) @ ''T'' @
     pad2 (hour t) @ '':'' @ pad2 (minute t) @ '':'' @ pad2 (second t) @ ''Z''"

fun plus_minutes :: "nat \<Rightarrow> moment \<Rightarrow> moment option" where
  "plus_minutes 0 t = Some t"
| "plus_minutes (Suc n) t = (case plus_minute t of None \<Rightarrow> None | Some t' \<Rightarrow> plus_minutes n t')"

lemma days_in_month_bounds: "28 \<le> days_in_month y m \<and> days_in_month y m \<le> 31"
  by (simp add: days_in_month_def)

lemma plus_minute_ok: "moment_ok t \<Longrightarrow> plus_minute t = Some t' \<Longrightarrow> moment_ok t'"
  using days_in_month_bounds[of "year t" "month t + 1"] days_in_month_bounds[of "year t + 1" 1]
  by (auto simp: moment_ok_def plus_minute_def Let_def split: if_splits)

lemma plus_minutes_ok: "moment_ok t \<Longrightarrow> plus_minutes n t = Some t' \<Longrightarrow> moment_ok t'"
  by (induction n arbitrary: t) (auto split: option.splits intro: plus_minute_ok)

text \<open>Midnight moves the ordinal by exactly one day, so weekdays go round in order.\<close>

lemma days_before_month_Suc: "1 \<le> m \<Longrightarrow> days_before_month y (Suc m) = days_before_month y m + days_in_month y m"
  by (simp add: days_before_month_def)

lemma days_of_year: "days_before_month y 12 + days_in_month y 12 = (if leap_year y then 366 else 365)"
  by (simp add: days_before_month_def days_in_month_def upt_rec numeral_eq_Suc)

lemma div_pred: "1 \<le> y \<Longrightarrow> y div k = (y - 1) div k + (if y mod k = 0 then 1 else (0::nat))"
  using div_Suc[of "y - 1" k] by simp

lemma days_before_year_Suc:
  assumes "1 \<le> y"
  shows "days_before_year (y + 1) = days_before_year y + (if leap_year y then 366 else 365)"
proof -
  obtain n where y: "y = Suc n" using assms by (cases y) auto
  define a b c where "a = n div 4" and "b = n div 100" and "c = n div 400"
  have le: "b \<le> a" unfolding a_def b_def by (rule div_le_mono2) simp_all
  have a': "Suc n div 4 = a + (if Suc n mod 4 = 0 then 1 else 0)"
    and b': "Suc n div 100 = b + (if Suc n mod 100 = 0 then 1 else 0)"
    and c': "Suc n div 400 = c + (if Suc n mod 400 = 0 then 1 else 0)"
    by (simp_all only: a_def b_def c_def div_Suc split: if_split) simp_all
  have m: "Suc n mod 400 = 0 \<Longrightarrow> Suc n mod 100 = 0" "Suc n mod 100 = 0 \<Longrightarrow> Suc n mod 4 = 0" by presburger+
  have now: "days_before_year (Suc n) = n * 365 + a - b + c"
    by (simp only: days_before_year_def diff_Suc_1 a_def b_def c_def)
  have nxt: "days_before_year (Suc n + 1) = Suc n * 365 + Suc n div 4 - Suc n div 100 + Suc n div 400"
    by (simp only: days_before_year_def add_diff_cancel_right')
  define p q r where "p = (Suc n mod 4 = 0)" and "q = (Suc n mod 100 = 0)" and "r = (Suc n mod 400 = 0)"
  have imp: "r \<Longrightarrow> q" "q \<Longrightarrow> p" using m by (simp_all only: p_def q_def r_def)
  have "Suc n * 365 + (a + (if p then 1 else 0)) - (b + (if q then 1 else 0)) + (c + (if r then 1 else 0))
      = n * 365 + a - b + c + (if p \<and> (\<not> q \<or> r) then 366 else 365)"
    using le imp by (cases p; cases q; cases r) simp_all
  then show ?thesis unfolding y now nxt a' b' c' leap_year_def p_def q_def r_def .
qed

lemma plus_minute_day:
  assumes "moment_ok t" "plus_minute t = Some t'"
  shows "to_ordinal t' = to_ordinal t + (if hour t = 23 \<and> minute t = 59 then 1 else 0)"
proof -
  have y: "1 \<le> year t" and mo: "1 \<le> month t" "month t \<le> 12" "day t \<le> days_in_month (year t) (month t)"
    and h: "hour t < 24" "minute t < 60"
    using assms(1) by (simp_all add: moment_ok_def)
  consider "minute t < 59" | "minute t = 59" "hour t < 23"
    | "minute t = 59" "hour t = 23" "day t < days_in_month (year t) (month t)"
    | "minute t = 59" "hour t = 23" "day t = days_in_month (year t) (month t)" "month t < 12"
    | "minute t = 59" "hour t = 23" "day t = days_in_month (year t) (month t)" "month t = 12"
    using h mo by linarith
  then show ?thesis
  proof cases
    case 4
    then show ?thesis using assms(2) days_before_month_Suc[OF mo(1), of "year t"]
      by (auto simp: plus_minute_def Let_def to_ordinal_def)
  next
    case 5
    have "days_before_month (year t + 1) 1 = 0" by (simp add: days_before_month_def)
    moreover have "days_before_month (year t) 12 + days_in_month (year t) 12
        = (if leap_year (year t) then 366 else 365)" by (rule days_of_year)
    ultimately show ?thesis using 5 assms(2) days_before_year_Suc[OF y]
      by (auto simp: plus_minute_def Let_def to_ordinal_def split: if_splits)
  qed (use assms(2) in \<open>auto simp: plus_minute_def Let_def to_ordinal_def\<close>)
qed

lemma plus_minute_weekday:
  assumes "moment_ok t" "plus_minute t = Some t'"
  shows "weekday t' = (weekday t + (if hour t = 23 \<and> minute t = 59 then 1 else 0)) mod 7"
  using plus_minute_day[OF assms] by (simp add: weekday_def mod_simps)

end
