(* ===== verification/Cron.thy ===== *)
theory Cron
  imports Prelude
begin

text \<open>
  \<open>core/cron_parser.py\<close>: parsing a five-field cron expression into value sets and formatting it
  back. An error holds what the message of \<open>CronParseError\<close> names, or the plain \<open>ValueError\<close> that
  \<open>int\<close> raises on digit characters that are not decimal and on more than 4300 digits.
\<close>

datatype cron_error =
    Wrong_fields nat string
  | Empty_field string
  | No_values string string
  | Step_not_positive string string
  | Range_reversed string string
  | Out_of_range string nat nat nat
  | Invalid_int string string string
  | Leaked_ValueError string

record field_spec =
  fs_name :: string
  min_value :: nat
  max_value :: nat

definition spec :: "string \<Rightarrow> nat \<Rightarrow> nat \<Rightarrow> field_spec" where
  "spec n lo hi = \<lparr>fs_name = n, min_value = lo, max_value = hi\<rparr>"

definition field_specs :: "field_spec list" where
  "field_specs = [spec ''minute'' 0 59, spec ''hour'' 0 23, spec ''day_of_month'' 1 31,
     spec ''month'' 1 12, spec ''day_of_week'' 0 6]"

definition dow_index :: nat where "dow_index = 4"
definition dow_alias :: nat where "dow_alias = 7"

record schedule =
  minutes :: "nat set"
  hours :: "nat set"
  days_of_month :: "nat set"
  months :: "nat set"
  days_of_week :: "nat set"

definition fields :: "schedule \<Rightarrow> nat set list" where
  "fields s = [minutes s, hours s, days_of_month s, months s, days_of_week s]"

definition normalize :: "bool \<Rightarrow> nat \<Rightarrow> nat" where
  "normalize allow_alias v = (if allow_alias \<and> v = dow_alias then 0 else v)"

definition parse_int :: "string \<Rightarrow> string \<Rightarrow> field_spec \<Rightarrow> cron_error + nat" where
  "parse_int kind raw sp =
     (let txt = str_strip raw in
      if txt = [] \<or> \<not> str_isdigit txt then Inl (Invalid_int (fs_name sp) kind raw)
      else if \<not> list_all is_decimal txt \<or> 4300 < length txt then Inl (Leaked_ValueError txt)
      else Inr (nat_of_digits txt))"

definition upper_bound :: "field_spec \<Rightarrow> bool \<Rightarrow> nat" where
  "upper_bound sp allow_alias = (if allow_alias then dow_alias else max_value sp)"

definition parse_value :: "string \<Rightarrow> field_spec \<Rightarrow> bool \<Rightarrow> cron_error + nat" where
  "parse_value raw sp allow_alias =
     rbind (parse_int ''value'' raw sp) (\<lambda>v.
       if v < min_value sp \<or> upper_bound sp allow_alias < v then Inl (Out_of_range (fs_name sp) v (min_value sp) (upper_bound sp allow_alias))
       else Inr v)"

text \<open>\<open>range(low, high + 1, step)\<close> for a positive step.\<close>

definition stepped :: "nat \<Rightarrow> nat \<Rightarrow> nat \<Rightarrow> nat list" where
  "stepped low high step = map (\<lambda>k. low + k * step) [0..<(high + 1 - low + (step - 1)) div step]"

definition parse_step_size :: "string \<Rightarrow> bool \<Rightarrow> string \<Rightarrow> field_spec \<Rightarrow> cron_error + nat" where
  "parse_step_size part has_step step_raw sp =
     (if \<not> has_step then Inr 1
      else rbind (parse_int ''step'' step_raw sp) (\<lambda>n. if n = 0 then Inl (Step_not_positive (fs_name sp) part) else Inr n))"

definition parse_bounds :: "string \<Rightarrow> string \<Rightarrow> bool \<Rightarrow> field_spec \<Rightarrow> bool \<Rightarrow> cron_error + (nat \<times> nat)" where
  "parse_bounds part base has_step sp allow_alias =
     (if base = ''*'' then Inr (min_value sp, max_value sp)
      else if CHR ''-'' \<in> set base then
        (case str_partition (CHR ''-'') base of (low_raw, _, high_raw) \<Rightarrow>
           rbind (parse_value low_raw sp allow_alias) (\<lambda>low.
           rbind (parse_value high_raw sp allow_alias) (\<lambda>high.
             if high < low then Inl (Range_reversed (fs_name sp) part) else Inr (low, high))))
      else rbind (parse_value base sp allow_alias) (\<lambda>v.
             Inr (if has_step then (v, upper_bound sp allow_alias) else (v, v))))"

definition parse_part :: "string \<Rightarrow> field_spec \<Rightarrow> bool \<Rightarrow> cron_error + nat set" where
  "parse_part part sp allow_alias =
     (case str_partition (CHR ''/'') part of (base, has_step, step_raw) \<Rightarrow>
        rbind (parse_step_size part has_step step_raw sp) (\<lambda>step.
        rbind (parse_bounds part base has_step sp allow_alias) (\<lambda>(low, high).
          Inr (set (map (normalize allow_alias) (stepped low high step))))))"

fun parse_parts :: "string list \<Rightarrow> field_spec \<Rightarrow> bool \<Rightarrow> nat set \<Rightarrow> cron_error + nat set" where
  "parse_parts [] sp al acc = Inr acc"
| "parse_parts (p # ps) sp al acc =
     rbind (parse_part p sp al) (\<lambda>vs. parse_parts ps sp al (acc \<union> vs))"

definition parse_field :: "string \<Rightarrow> field_spec \<Rightarrow> bool \<Rightarrow> cron_error + nat set" where
  "parse_field raw sp al =
     (if raw = [] then Inl (Empty_field (fs_name sp))
      else rbind (parse_parts (str_split_on (CHR '','') raw) sp al {}) (\<lambda>r.
        if r = {} then Inl (No_values (fs_name sp) raw) else Inr r))"

text \<open>The loop over \<open>enumerate(zip(parts, _FIELD_SPECS))\<close>.\<close>

definition parse_indexed :: "nat \<Rightarrow> string \<times> field_spec \<Rightarrow> cron_error + nat set" where
  "parse_indexed i p = parse_field (fst p) (snd p) (i = dow_index)"

definition cron_parse :: "string \<Rightarrow> cron_error + schedule" where
  "cron_parse e =
     (let parts = str_split_ws e in
      if length parts \<noteq> length field_specs then Inl (Wrong_fields (length parts) e)
      else rbind (mapiM_r 0 parse_indexed (zip parts field_specs)) (\<lambda>vs.
        Inr \<lparr>minutes = vs ! 0, hours = vs ! 1, days_of_month = vs ! 2, months = vs ! 3,
             days_of_week = vs ! 4\<rparr>))"

definition format_field :: "nat set \<Rightarrow> field_spec \<Rightarrow> string" where
  "format_field vs sp =
     (if vs = {min_value sp..max_value sp} then ''*''
      else str_join '','' (map nat_str (sorted_list_of_set vs)))"

definition cron_format :: "schedule \<Rightarrow> string" where
  "cron_format s = str_join '' '' (map (\<lambda>(vs, sp). format_field vs sp) (zip (fields s) field_specs))"

section \<open>Values stay in the bounds of their field\<close>

definition field_ok :: "field_spec \<Rightarrow> nat set \<Rightarrow> bool" where
  "field_ok sp vs \<longleftrightarrow> vs \<noteq> {} \<and> vs \<subseteq> {min_value sp..max_value sp}"

definition schedule_ok :: "schedule \<Rightarrow> bool" where
  "schedule_ok s \<longleftrightarrow> list_all2 field_ok field_specs (fields s)"

text \<open>The alias is the one value above the maximum that a field accepts.\<close>

definition spec_ok :: "field_spec \<Rightarrow> bool \<Rightarrow> bool" where
  "spec_ok sp al \<longleftrightarrow> min_value sp \<le> max_value sp \<and> max_value sp < 100 \<and>
     (al \<longrightarrow> max_value sp = 6 \<and> min_value sp = 0)"

lemma parse_value_bounds:
  "parse_value raw sp al = Inr v \<Longrightarrow> min_value sp \<le> v \<and> v \<le> upper_bound sp al"
  by (auto simp: parse_value_def rbind_Inr_iff split: if_splits)

lemma stepped_iff:
  assumes "0 < step"
  shows "v \<in> set (stepped low high step) \<longleftrightarrow> (\<exists>k. v = low + k * step \<and> v \<le> high)"
proof -
  have "k < (high + 1 - low + (step - 1)) div step \<longleftrightarrow> low + k * step \<le> high" for k
  proof -
    have "k < (high + 1 - low + (step - 1)) div step \<longleftrightarrow> Suc k * step \<le> high + 1 - low + (step - 1)"
      by (simp only: Suc_le_eq[symmetric] less_eq_div_iff_mult_less_eq[OF assms])
    also have "\<dots> \<longleftrightarrow> low + k * step \<le> high"
    proof -
      define m where "m = k * step"
      have "Suc k * step = m + step" by (simp add: m_def)
      moreover have "m + step \<le> high + 1 - low + (step - 1) \<longleftrightarrow> low + m \<le> high"
        using assms by arith
      ultimately show ?thesis by (simp only: m_def)
    qed
    finally show ?thesis .
  qed
  note count = this
  have "v \<in> set (stepped low high step) \<longleftrightarrow>
      (\<exists>k. k < (high + 1 - low + (step - 1)) div step \<and> v = low + k * step)"
    unfolding stepped_def set_map set_upt by (simp only: image_iff Bex_def atLeastLessThan_iff) simp
  then show ?thesis unfolding count by blast
qed

lemma normalize_bounds:
  "spec_ok sp al \<Longrightarrow> min_value sp \<le> v \<Longrightarrow> v \<le> upper_bound sp al \<Longrightarrow>
    min_value sp \<le> normalize al v \<and> normalize al v \<le> max_value sp"
  by (auto simp: spec_ok_def normalize_def upper_bound_def dow_alias_def split: if_splits)

lemma parse_step_size_pos: "parse_step_size p h s sp = Inr n \<Longrightarrow> 0 < n"
  by (auto simp: parse_step_size_def rbind_Inr_iff split: if_splits)

lemma parse_bounds_ok:
  assumes "spec_ok sp al" "parse_bounds part base h sp al = Inr (low, high)"
  shows "min_value sp \<le> low \<and> low \<le> high \<and> high \<le> upper_bound sp al"
proof -
  have "max_value sp \<le> upper_bound sp al" "min_value sp \<le> max_value sp"
    using assms(1) by (auto simp: spec_ok_def upper_bound_def dow_alias_def)
  then show ?thesis using assms(2) parse_value_bounds
    by (fastforce simp: parse_bounds_def rbind_Inr_iff split: if_splits prod.splits)
qed

lemma parse_part_ok:
  assumes sp: "spec_ok sp al" and "parse_part part sp al = Inr vs"
  shows "field_ok sp vs"
proof -
  obtain base h sr step low high where
    step: "parse_step_size part h sr sp = Inr step" and
    b: "parse_bounds part base h sp al = Inr (low, high)" and
    vs: "vs = set (map (normalize al) (stepped low high step))"
    using assms(2) by (auto simp: parse_part_def rbind_Inr_iff split: prod.splits)
  note pos = parse_step_size_pos[OF step] and bd = parse_bounds_ok[OF sp b]
  have "low \<in> set (stepped low high step)" using bd by (auto simp: stepped_iff[OF pos] intro!: exI[of _ 0])
  then have "vs \<noteq> {}" using vs by auto
  moreover have "vs \<subseteq> {min_value sp..max_value sp}"
    using vs bd normalize_bounds[OF sp] by (auto simp: stepped_iff[OF pos])
  ultimately show ?thesis by (simp add: field_ok_def)
qed

lemma parse_parts_ok:
  assumes "spec_ok sp al"
  shows "parse_parts ps sp al acc = Inr vs \<Longrightarrow> acc \<subseteq> {min_value sp..max_value sp} \<Longrightarrow>
    vs \<subseteq> {min_value sp..max_value sp}"
proof (induction ps arbitrary: acc)
  case (Cons p ps)
  then show ?case using parse_part_ok[OF assms, of p]
    by (fastforce simp: rbind_Inr_iff field_ok_def)
qed simp

lemma parse_field_ok: "spec_ok sp al \<Longrightarrow> parse_field raw sp al = Inr vs \<Longrightarrow> field_ok sp vs"
  using parse_parts_ok[of sp al _ "{}"]
  by (auto simp: parse_field_def rbind_Inr_iff field_ok_def split: if_splits)

lemma field_specs_ok: "i < length field_specs \<Longrightarrow> spec_ok (field_specs ! i) (i = dow_index)"
  by (auto simp: field_specs_def spec_ok_def spec_def dow_index_def nth_Cons split: nat.splits)

lemma field_specs_length [simp]: "length field_specs = 5"
  by (simp add: field_specs_def)

lemma cron_parse_Inr:
  assumes "cron_parse e = Inr s"
  shows "length (str_split_ws e) = 5" and "i < 5 \<Longrightarrow>
    parse_field (str_split_ws e ! i) (field_specs ! i) (i = dow_index) = Inr (fields s ! i)"
proof -
  obtain vs where len: "length (str_split_ws e) = 5"
    and vs: "mapiM_r 0 parse_indexed (zip (str_split_ws e) field_specs) = Inr vs"
    and s: "s = \<lparr>minutes = vs ! 0, hours = vs ! 1, days_of_month = vs ! 2, months = vs ! 3,
             days_of_week = vs ! 4\<rparr>"
    using assms by (auto simp: cron_parse_def Let_def rbind_Inr_iff split: if_splits)
  then show "length (str_split_ws e) = 5" by simp
  have "length vs = 5" using mapiM_r_length[OF vs] len by simp
  then have f: "fields s = vs"
    by (auto simp: fields_def s numeral_eq_Suc length_Suc_conv)
  assume "i < 5"
  then show "parse_field (str_split_ws e ! i) (field_specs ! i) (i = dow_index) = Inr (fields s ! i)"
    using mapiM_r_nth[OF vs, of i] len f by (simp add: parse_indexed_def)
qed

lemma cron_parse_ok: "cron_parse e = Inr s \<Longrightarrow> schedule_ok s"
proof -
  assume h: "cron_parse e = Inr s"
  have "field_ok (field_specs ! i) (fields s ! i)" if "i < 5" for i
    using parse_field_ok[OF field_specs_ok cron_parse_Inr(2)[OF h that]] that by simp
  then show ?thesis by (simp add: schedule_ok_def list_all2_conv_all_nth fields_def)
qed

section \<open>The round trip\<close>

lemma decimal_code: "is_decimal c \<Longrightarrow> 48 \<le> code c \<and> code c \<le> 57"
  by (simp add: is_decimal_def)

lemma decimal_not_special:
  "is_decimal c \<Longrightarrow> c \<noteq> CHR '','' \<and> c \<noteq> CHR ''-'' \<and> c \<noteq> CHR ''/'' \<and> c \<noteq> CHR ''*'' \<and> \<not> is_space c"
  by (auto simp: is_decimal_def is_space_def code_def)

lemma nat_str_clean:
  "c \<in> set (nat_str n) \<Longrightarrow> c \<noteq> CHR '','' \<and> c \<noteq> CHR ''-'' \<and> c \<noteq> CHR ''/'' \<and> c \<noteq> CHR ''*'' \<and> \<not> is_space c"
  using nat_str_decimal[of n] decimal_not_special by blast

lemma nat_str_short: "n < 100 \<Longrightarrow> length (nat_str n) \<le> 2"
proof -
  assume "n < 100"
  then have "n div 10 < 10" by simp
  then show ?thesis by (simp add: nat_str.simps[of n] nat_str.simps[of "n div 10"])
qed

lemma parse_int_nat_str: "n < 100 \<Longrightarrow> parse_int kind (nat_str n) sp = Inr n"
proof -
  assume n: "n < 100"
  have "str_strip (nat_str n) = nat_str n" using nat_str_clean by (intro str_strip_id) blast
  moreover have "list_all is_decimal (nat_str n)" using nat_str_decimal by (simp add: list_all_iff)
  moreover have "str_isdigit (nat_str n)" using nat_str_decimal[of n]
    by (simp add: str_isdigit_def nat_str_nonempty list_all_iff is_digit_char_def)
  ultimately show ?thesis using nat_str_short[OF n]
    by (simp add: parse_int_def Let_def nat_str_nonempty nat_of_digits_str)
qed

lemma stepped_single [simp]: "stepped v v (Suc 0) = [v]"
  by (simp add: stepped_def)

lemma parse_part_value:
  assumes "spec_ok sp al" "min_value sp \<le> v" "v \<le> max_value sp"
  shows "parse_part (nat_str v) sp al = Inr {v}"
proof -
  have "str_partition (CHR ''/'') (nat_str v) = (nat_str v, False, [])"
    using nat_str_clean by (intro str_partition_None) blast
  moreover have "nat_str v \<noteq> ''*''" using nat_str_clean[of "CHR ''*''" v] by auto
  moreover have "CHR ''-'' \<notin> set (nat_str v)" using nat_str_clean by blast
  moreover have "parse_value (nat_str v) sp al = Inr v"
    using assms by (auto simp: parse_value_def parse_int_nat_str spec_ok_def upper_bound_def dow_alias_def)
  moreover have "normalize al v = v" using assms by (auto simp: normalize_def spec_ok_def dow_alias_def)
  ultimately show ?thesis by (simp add: parse_part_def parse_step_size_def parse_bounds_def)
qed

lemma parse_part_star:
  assumes "spec_ok sp al"
  shows "parse_part ''*'' sp al = Inr {min_value sp..max_value sp}"
proof -
  have "normalize al v = v" if "v \<le> max_value sp" for v
    using assms that by (auto simp: normalize_def spec_ok_def dow_alias_def)
  moreover have "set (stepped (min_value sp) (max_value sp) 1) = {min_value sp..max_value sp}"
  proof (rule set_eqI)
    fix v
    have "(\<exists>k. v = min_value sp + k * 1 \<and> v \<le> max_value sp) \<longleftrightarrow> min_value sp \<le> v \<and> v \<le> max_value sp"
      by (auto intro: exI[of _ "v - min_value sp"])
    then show "v \<in> set (stepped (min_value sp) (max_value sp) 1) \<longleftrightarrow> v \<in> {min_value sp..max_value sp}"
      by (simp add: stepped_iff)
  qed
  ultimately have "normalize al ` set (stepped (min_value sp) (max_value sp) 1)
      = (\<lambda>v. v) ` {min_value sp..max_value sp}"
    by (intro image_cong) simp_all
  then show ?thesis by (simp add: parse_part_def parse_step_size_def parse_bounds_def)
qed

lemma parse_parts_values:
  assumes "spec_ok sp al"
  shows "set vs \<subseteq> {min_value sp..max_value sp} \<Longrightarrow>
    parse_parts (map nat_str vs) sp al acc = Inr (acc \<union> set vs)"
  by (induction vs arbitrary: acc) (auto simp: parse_part_value[OF assms])

lemma parse_field_format:
  assumes sp: "spec_ok sp al" and vs: "field_ok sp vs"
  shows "parse_field (format_field vs sp) sp al = Inr vs"
proof (cases "vs = {min_value sp..max_value sp}")
  case True
  then show ?thesis using parse_part_star[OF sp] vs
    by (auto simp: format_field_def parse_field_def str_split_on_def field_ok_def)
next
  case False
  have fin: "finite vs" using vs finite_subset by (auto simp: field_ok_def)
  let ?l = "sorted_list_of_set vs"
  have l: "set ?l = vs" "?l \<noteq> []" using fin vs by (auto simp: field_ok_def)
  have split: "str_split_on (CHR '','') (str_join '','' (map nat_str ?l)) = map nat_str ?l"
    using l nat_str_clean by (intro str_split_on_join) auto
  have "str_join '','' (map nat_str ?l) \<noteq> []"
    using l(2) by (intro str_join_nonempty) auto
  then show ?thesis using False l vs split parse_parts_values[OF sp, of ?l "{}"]
    by (simp add: format_field_def parse_field_def field_ok_def)
qed

lemma format_field_word:
  assumes "field_ok sp vs"
  shows "format_field vs sp \<noteq> [] \<and> (\<forall>c \<in> set (format_field vs sp). \<not> is_space c)"
proof -
  have "finite vs" using assms finite_subset by (auto simp: field_ok_def)
  then have ne: "sorted_list_of_set vs \<noteq> []" using assms by (auto simp: field_ok_def)
  have special: "\<not> is_space (CHR ''*'')" "\<not> is_space (CHR '','')" by (simp_all add: is_space_def code_def)
  have "\<not> is_space c" if "c \<in> set (str_join '','' (map nat_str l))" for c l
    using str_join_mem[OF that] special nat_str_clean by auto
  moreover have "str_join '','' (map nat_str (sorted_list_of_set vs)) \<noteq> []"
    using ne by (intro str_join_nonempty) auto
  ultimately show ?thesis using special by (auto simp: format_field_def)
qed

lemma cron_parse_format:
  assumes "schedule_ok s"
  shows "cron_parse (cron_format s) = Inr s"
proof -
  let ?fs = "map (\<lambda>(vs, sp). format_field vs sp) (zip (fields s) field_specs)"
  have ok: "field_ok (field_specs ! i) (fields s ! i)" if "i < 5" for i
    using assms that by (simp add: schedule_ok_def list_all2_conv_all_nth)
  have len: "length (fields s) = 5" by (simp add: fields_def)
  have word: "x \<noteq> [] \<and> (\<forall>c \<in> set x. \<not> is_space c)" if "x \<in> set ?fs" for x
  proof -
    obtain i where "i < 5" "x = format_field (fields s ! i) (field_specs ! i)"
      using \<open>x \<in> set ?fs\<close> len unfolding in_set_conv_nth[of x] by auto
    then show ?thesis using format_field_word[OF ok] by simp
  qed
  have space: "is_space (CHR '' '')" by (simp add: is_space_def code_def)
  have parts: "str_split_ws (cron_format s) = ?fs"
    unfolding cron_format_def using word space by (intro str_split_ws_join) auto
  have one: "parse_indexed i (zip ?fs field_specs ! i) = Inr (fields s ! i)" if "i < 5" for i
    using that ok parse_field_format[OF field_specs_ok, of i "fields s ! i"] len
    by (simp add: parse_indexed_def)
  have "mapiM_r 0 parse_indexed (zip ?fs field_specs) = Inr (fields s)"
    using one len by (intro mapiM_r_intro) simp_all
  then show ?thesis using parts len by (simp add: cron_parse_def Let_def fields_def)
qed

text \<open>The one way out of the documented error type: a digit character that \<open>int\<close> refuses.\<close>

definition superscript_two :: char where "superscript_two = char_of (178 :: nat)"

end
