(* ===== verification/Scheduler.thy ===== *)
theory Scheduler
  imports Clock Cron
begin

text \<open>
  \<open>core/scheduler.py\<close>: the table of scheduled tasks, its operations and the trigger loop. The
  executor behind it is a function argument \<open>start\<close> over an executor state; an exception of
  \<open>start_run\<close> leaves the loop where it is, with what was written so far.
\<close>

section \<open>The table\<close>

record task_row =
  t_id :: string
  t_definition :: string
  t_cron :: string
  t_state :: string
  t_next :: "string option"
  t_created :: string
  t_updated :: string

definition state_active :: string where "state_active = ''active''"
definition state_paused :: string where "state_paused = ''paused''"

datatype 'x sched_error =
    Value_error string
  | Bad_task_state string
  | Unknown_task string
  | Cron_error cron_error
  | Overflow
  | Duplicate_id string
  | Start_error 'x

definition next_run_scan_minutes :: nat where "next_run_scan_minutes = 366 * 24 * 60"

section \<open>Matching and the forward scan\<close>

definition matches :: "schedule \<Rightarrow> moment \<Rightarrow> bool" where
  "matches s t \<longleftrightarrow> minute t \<in> minutes s \<and> hour t \<in> hours s \<and> day t \<in> days_of_month s \<and>
     month t \<in> months s \<and> (weekday t + 1) mod 7 \<in> days_of_week s"

fun next_run_scan :: "nat \<Rightarrow> schedule \<Rightarrow> moment \<Rightarrow> 'x sched_error + moment option" where
  "next_run_scan 0 s t = Inr None"
| "next_run_scan (Suc n) s t =
     (if matches s t then Inr (Some t)
      else (case plus_minute t of None \<Rightarrow> Inl Overflow | Some t' \<Rightarrow> next_run_scan n s t'))"

definition next_run_at :: "schedule \<Rightarrow> moment \<Rightarrow> 'x sched_error + string option" where
  "next_run_at s after =
     rbind (next_run_scan next_run_scan_minutes s (truncate_minute after)) (\<lambda>r. Inr (map_option iso_text r))"

section \<open>Operations\<close>

definition find_task :: "task_row list \<Rightarrow> string \<Rightarrow> task_row option" where
  "find_task ts i = (if i = [] then None else find (\<lambda>r. t_id r = i) ts)"

definition list_tasks :: "task_row list \<Rightarrow> string option \<Rightarrow> task_row list" where
  "list_tasks ts d = sort_key t_created (sort_key t_id
     (case d of None \<Rightarrow> ts | Some x \<Rightarrow> filter (\<lambda>r. t_definition r = x) ts))"

definition parse_cron :: "string \<Rightarrow> 'x sched_error + schedule" where
  "parse_cron e = (case cron_parse e of Inl c \<Rightarrow> Inl (Cron_error c) | Inr s \<Rightarrow> Inr s)"

text \<open>\<open>new_id\<close> is the caller's id or a fresh \<open>uuid4\<close>; \<open>ts\<close> is \<open>now_iso()\<close>.\<close>

definition create_task ::
  "string \<Rightarrow> string \<Rightarrow> string \<Rightarrow> string \<Rightarrow> string \<Rightarrow> moment \<Rightarrow> task_row list \<Rightarrow> 'x sched_error + task_row list" where
  "create_task definition_id cron state new_id ts clock tasks =
     (if definition_id = [] then Inl (Value_error ''definition_id is required to create a scheduled task'')
      else if state \<noteq> state_active \<and> state \<noteq> state_paused then Inl (Bad_task_state state)
      else rbind (parse_cron cron) (\<lambda>s.
           rbind (if state = state_active then next_run_at s clock else Inr None) (\<lambda>nxt.
             if \<exists>r \<in> set tasks. t_id r = new_id then Inl (Duplicate_id new_id)
             else Inr (tasks @ [\<lparr>t_id = new_id, t_definition = definition_id, t_cron = cron,
               t_state = state, t_next = nxt, t_created = ts, t_updated = ts\<rparr>]))))"

definition update_task :: "string \<Rightarrow> (task_row \<Rightarrow> task_row) \<Rightarrow> task_row list \<Rightarrow> task_row list" where
  "update_task i f ts = map (\<lambda>r. if t_id r = i then f r else r) ts"

definition set_task_state ::
  "string \<Rightarrow> string \<Rightarrow> string \<Rightarrow> moment \<Rightarrow> task_row list \<Rightarrow> 'x sched_error + task_row list" where
  "set_task_state i new_state ts clock tasks =
     (if i = [] then Inl (Value_error ''task_id is required'')
      else (case find_task tasks i of
        None \<Rightarrow> Inl (Unknown_task i)
      | Some r \<Rightarrow>
          rbind (if new_state = state_active then rbind (parse_cron (t_cron r)) (\<lambda>s. next_run_at s clock)
                 else Inr None) (\<lambda>nxt.
            Inr (update_task i (\<lambda>r. r\<lparr>t_state := new_state, t_next := nxt, t_updated := ts\<rparr>) tasks))))"

definition pause_task :: "string \<Rightarrow> string \<Rightarrow> moment \<Rightarrow> task_row list \<Rightarrow> 'x sched_error + task_row list" where
  "pause_task i = set_task_state i state_paused"

definition resume_task :: "string \<Rightarrow> string \<Rightarrow> moment \<Rightarrow> task_row list \<Rightarrow> 'x sched_error + task_row list" where
  "resume_task i = set_task_state i state_active"

section \<open>The trigger loop\<close>

record ('x, 'e) tick_state =
  tk_error :: "'x sched_error option"
  tk_tasks :: "task_row list"
  tk_exec :: 'e
  tk_started :: "string list"

definition tick_advance :: "schedule \<Rightarrow> moment \<Rightarrow> 'x sched_error + string option" where
  "tick_advance s t = (case plus_minute t of None \<Rightarrow> Inl Overflow | Some t' \<Rightarrow> next_run_at s t')"

fun tick_rows ::
  "('e \<Rightarrow> string \<Rightarrow> 'x + (string \<times> 'e)) \<Rightarrow> string \<Rightarrow> moment \<Rightarrow> task_row list \<Rightarrow> ('x, 'e) tick_state \<Rightarrow> ('x, 'e) tick_state"
where
  "tick_rows start ts t [] st = st"
| "tick_rows start ts t (r # rs) st =
     (case parse_cron (t_cron r) of
        Inl e \<Rightarrow> st\<lparr>tk_error := Some e\<rparr>
      | Inr s \<Rightarrow>
        (if \<not> matches s t then tick_rows start ts t rs st
         else (case start (tk_exec st) (t_definition r) of
           Inl x \<Rightarrow> st\<lparr>tk_error := Some (Start_error x)\<rparr>
         | Inr (rid, e') \<Rightarrow>
             let st1 = st\<lparr>tk_exec := e', tk_started := tk_started st @ [rid]\<rparr> in
             (case tick_advance s t of
                Inl e \<Rightarrow> st1\<lparr>tk_error := Some e\<rparr>
              | Inr nxt \<Rightarrow> tick_rows start ts t rs
                  (st1\<lparr>tk_tasks := update_task (t_id r) (\<lambda>r. r\<lparr>t_next := nxt, t_updated := ts\<rparr>) (tk_tasks st1)\<rparr>)))))"

definition active_rows :: "task_row list \<Rightarrow> task_row list" where
  "active_rows tasks = sort_key t_id (filter (\<lambda>r. t_state r = state_active) tasks)"

definition tick ::
  "('e \<Rightarrow> string \<Rightarrow> 'x + (string \<times> 'e)) \<Rightarrow> string \<Rightarrow> moment \<Rightarrow> task_row list \<Rightarrow> 'e \<Rightarrow> ('x, 'e) tick_state" where
  "tick start ts t tasks e =
     tick_rows start ts t (active_rows tasks)
       \<lparr>tk_error = None, tk_tasks = tasks, tk_exec = e, tk_started = []\<rparr>"

section \<open>What the table keeps\<close>

definition task_ok :: "task_row \<Rightarrow> bool" where
  "task_ok r \<longleftrightarrow> t_definition r \<noteq> [] \<and> (t_state r = state_active \<or> t_state r = state_paused) \<and>
     is_Inr (cron_parse (t_cron r)) \<and> (t_state r = state_paused \<longrightarrow> t_next r = None)"

definition tasks_ok :: "task_row list \<Rightarrow> bool" where
  "tasks_ok ts \<longleftrightarrow> distinct (map t_id ts) \<and> (\<forall>r \<in> set ts. task_ok r)"

lemma states_differ [simp]: "state_active \<noteq> state_paused" "state_paused \<noteq> state_active"
  by (simp_all add: state_active_def state_paused_def)

lemma parse_cron_Inr: "parse_cron e = Inr s \<longleftrightarrow> cron_parse e = Inr s"
  by (auto simp: parse_cron_def split: sum.splits)

lemma update_task_ids [simp]: "(\<And>r. t_id (f r) = t_id r) \<Longrightarrow> map t_id (update_task i f ts) = map t_id ts"
  by (simp add: update_task_def)

lemma update_task_ok:
  assumes "tasks_ok ts" "\<And>r. r \<in> set ts \<Longrightarrow> t_id r = i \<Longrightarrow> task_ok (f r)" "\<And>r. t_id (f r) = t_id r"
  shows "tasks_ok (update_task i f ts)"
proof -
  have "distinct (map t_id (update_task i f ts))" using assms(1,3) by (simp add: tasks_ok_def)
  moreover have "task_ok r" if "r \<in> set (update_task i f ts)" for r
    using that assms(1,2) by (auto simp: update_task_def tasks_ok_def)
  ultimately show ?thesis by (simp add: tasks_ok_def)
qed

lemma create_task_ok:
  "tasks_ok ts \<Longrightarrow> create_task d c st i now clock ts = Inr ts' \<Longrightarrow> tasks_ok ts'"
  by (auto simp: create_task_def rbind_Inr_iff tasks_ok_def task_ok_def parse_cron_Inr split: if_splits)

lemma set_task_state_ok:
  assumes "tasks_ok ts" "set_task_state i st now clock ts = Inr ts'" "st = state_active \<or> st = state_paused"
  shows "tasks_ok ts'"
proof -
  obtain nxt where ts': "ts' = update_task i (\<lambda>r. r\<lparr>t_state := st, t_next := nxt, t_updated := now\<rparr>) ts"
    and nxt: "st = state_paused \<longrightarrow> nxt = None"
    using assms(2) by (auto simp: set_task_state_def rbind_Inr_iff split: if_splits option.splits)
  show ?thesis unfolding ts'
  proof (rule update_task_ok[OF assms(1)])
    fix r assume "r \<in> set ts"
    then have "task_ok r" using assms(1) by (simp add: tasks_ok_def)
    then show "task_ok (r\<lparr>t_state := st, t_next := nxt, t_updated := now\<rparr>)"
      using nxt assms(3) by (simp add: task_ok_def)
  qed simp
qed

text \<open>Rescheduling an active task touches its next run time and its stamp only.\<close>

definition advance_row :: "string \<Rightarrow> string option \<Rightarrow> string \<Rightarrow> task_row list \<Rightarrow> task_row list" where
  "advance_row i nxt now = update_task i (\<lambda>r. r\<lparr>t_next := nxt, t_updated := now\<rparr>)"

definition static_part :: "task_row \<Rightarrow> string \<times> string \<times> string \<times> string" where
  "static_part r = (t_id r, t_definition r, t_cron r, t_state r)"

lemma advance_row_static: "map static_part (advance_row i nxt now ts) = map static_part ts"
  by (simp add: advance_row_def update_task_def static_part_def)

inductive advanced :: "string \<Rightarrow> task_row list \<Rightarrow> task_row list \<Rightarrow> bool" for now where
  advanced_refl: "advanced now ts ts"
| advanced_step: "advanced now ts ts' \<Longrightarrow> (\<forall>r \<in> set ts'. t_id r = i \<longrightarrow> t_state r = state_active) \<Longrightarrow>
    advanced now ts (advance_row i nxt now ts')"

lemma advanced_static: "advanced now ts ts' \<Longrightarrow> map static_part ts' = map static_part ts"
  by (induction rule: advanced.induct) (simp_all add: advance_row_static)

lemma advanced_ok: "advanced now ts ts' \<Longrightarrow> tasks_ok ts \<Longrightarrow> tasks_ok ts'"
proof (induction rule: advanced.induct)
  case (advanced_step ts ts' i nxt)
  show ?case unfolding advance_row_def
  proof (rule update_task_ok[OF advanced_step.IH[OF advanced_step.prems]])
    fix r assume r: "r \<in> set ts'" "t_id r = i"
    then have "task_ok r" "t_state r = state_active"
      using advanced_step by (simp_all add: tasks_ok_def)
    then show "task_ok (r\<lparr>t_next := nxt, t_updated := now\<rparr>)" by (simp add: task_ok_def)
  qed simp
qed

lemma advanced_active:
  assumes "advanced now ts ts'" "\<forall>r \<in> set ts. t_id r = i \<longrightarrow> t_state r = state_active"
  shows "\<forall>r \<in> set ts'. t_id r = i \<longrightarrow> t_state r = state_active"
proof
  fix r assume "r \<in> set ts'"
  then have "static_part r \<in> set (map static_part ts)"
    using advanced_static[OF assms(1)] by (metis imageI set_map)
  then show "t_id r = i \<longrightarrow> t_state r = state_active"
    using assms(2) by (auto simp: static_part_def)
qed

lemma advanced_trans: "advanced now ts' ts'' \<Longrightarrow> advanced now ts ts' \<Longrightarrow> advanced now ts ts''"
  by (induction rule: advanced.induct) (auto intro: advanced.intros)

text \<open>The body of the loop for one row: an error with the state reached, or the state.\<close>

definition tick_row ::
  "('e \<Rightarrow> string \<Rightarrow> 'x + (string \<times> 'e)) \<Rightarrow> string \<Rightarrow> moment \<Rightarrow> task_row \<Rightarrow> ('x, 'e) tick_state \<Rightarrow> ('x, 'e) tick_state" where
  "tick_row start ts t r st =
     (case parse_cron (t_cron r) of
        Inl e \<Rightarrow> st\<lparr>tk_error := Some e\<rparr>
      | Inr s \<Rightarrow>
        (if \<not> matches s t then st
         else (case start (tk_exec st) (t_definition r) of
           Inl x \<Rightarrow> st\<lparr>tk_error := Some (Start_error x)\<rparr>
         | Inr (rid, e') \<Rightarrow>
             let st1 = st\<lparr>tk_exec := e', tk_started := tk_started st @ [rid]\<rparr> in
             (case tick_advance s t of
                Inl e \<Rightarrow> st1\<lparr>tk_error := Some e\<rparr>
              | Inr nxt \<Rightarrow> st1\<lparr>tk_tasks := advance_row (t_id r) nxt ts (tk_tasks st1)\<rparr>))))"

lemma tick_rows_Cons:
  fixes start :: "'e \<Rightarrow> string \<Rightarrow> 'x + (string \<times> 'e)"
  assumes none: "tk_error st = None"
  shows "tick_rows start ts t (r # rs) st =
    (if tk_error (tick_row start ts t r st) = None then tick_rows start ts t rs (tick_row start ts t r st)
     else tick_row start ts t r st)"
proof (cases "parse_cron (t_cron r) :: 'x sched_error + schedule")
  case (Inl e)
  then show ?thesis by (simp add: tick_row_def)
next
  case (Inr s)
  show ?thesis
  proof (cases "matches s t")
    case False
    then show ?thesis using Inr none by (simp add: tick_row_def)
  next
    case True
    show ?thesis
    proof (cases "start (tk_exec st) (t_definition r)")
      case (Inl x)
      then show ?thesis using Inr True by (simp add: tick_row_def)
    next
      case st: (Inr p)
      then show ?thesis using Inr True none
        by (cases p; cases "tick_advance s t :: 'x sched_error + string option")
          (simp_all add: tick_row_def advance_row_def Let_def)
    qed
  qed
qed

lemma tick_row_advanced:
  assumes "\<forall>q \<in> set (tk_tasks st). t_id q = t_id r \<longrightarrow> t_state q = state_active"
  shows "advanced now (tk_tasks st) (tk_tasks (tick_row start now t r st))"
  using assms by (auto simp: tick_row_def Let_def split: sum.split intro: advanced.intros)

lemma tick_rows_advanced:
  "tk_error st = None \<Longrightarrow> \<forall>r \<in> set rs. \<forall>q \<in> set (tk_tasks st). t_id q = t_id r \<longrightarrow> t_state q = state_active \<Longrightarrow>
    advanced now (tk_tasks st) (tk_tasks (tick_rows start now t rs st))"
proof (induction rs arbitrary: st)
  case (Cons r rs)
  let ?st = "tick_row start now t r st"
  have adv: "advanced now (tk_tasks st) (tk_tasks ?st)"
    using Cons.prems(2) by (intro tick_row_advanced) simp
  show ?case
  proof (cases "tk_error ?st = None")
    case True
    have "advanced now (tk_tasks ?st) (tk_tasks (tick_rows start now t rs ?st))"
    proof (rule Cons.IH[OF True], intro ballI impI)
      fix r' q assume h: "r' \<in> set rs" "q \<in> set (tk_tasks ?st)" "t_id q = t_id r'"
      have "\<forall>q \<in> set (tk_tasks st). t_id q = t_id r' \<longrightarrow> t_state q = state_active"
        using Cons.prems(2) h(1) by (meson list.set_intros(2))
      from advanced_active[OF adv this] show "t_state q = state_active" using h(2,3) by blast
    qed
    from advanced_trans[OF this adv] show ?thesis
      unfolding tick_rows_Cons[OF Cons.prems(1)] if_P[OF True] .
  next
    case False
    show ?thesis unfolding tick_rows_Cons[OF Cons.prems(1)] if_not_P[OF False] by (rule adv)
  qed
qed (simp add: advanced_refl)

lemma active_rows_set: "set (active_rows ts) = {r \<in> set ts. t_state r = state_active}"
  by (auto simp: active_rows_def)

lemma tick_advanced: "tasks_ok ts \<Longrightarrow> advanced now ts (tk_tasks (tick start now t ts e))"
proof -
  assume ok: "tasks_ok ts"
  have "t_state q = state_active" if "r \<in> set (active_rows ts)" "q \<in> set ts" "t_id q = t_id r" for r q
  proof -
    have "q = r" using ok that unfolding tasks_ok_def active_rows_set
      by (metis (no_types, lifting) distinct_map inj_on_def mem_Collect_eq)
    then show ?thesis using that(1) by (simp add: active_rows_set)
  qed
  then show ?thesis
    using tick_rows_advanced[of "\<lparr>tk_error = None, tk_tasks = ts, tk_exec = e, tk_started = []\<rparr>" "active_rows ts"]
    by (simp add: tick_def)
qed

text \<open>
  What a tick starts: run the due rows in order. A tick that reports no error has started
  exactly one run for each active row whose schedule matches, in the order of the ids.
\<close>

definition due :: "moment \<Rightarrow> task_row \<Rightarrow> bool" where
  "due t r = (case cron_parse (t_cron r) of Inl _ \<Rightarrow> False | Inr s \<Rightarrow> matches s t)"

fun start_all :: "('e \<Rightarrow> string \<Rightarrow> 'x + (string \<times> 'e)) \<Rightarrow> task_row list \<Rightarrow> 'e \<Rightarrow> 'x + (string list \<times> 'e)" where
  "start_all start [] e = Inr ([], e)"
| "start_all start (r # rs) e =
     rbind (start e (t_definition r)) (\<lambda>(rid, e').
       rbind (start_all start rs e') (\<lambda>(rids, e''). Inr (rid # rids, e'')))"

lemma tick_rows_start_all:
  "tk_error st = None \<Longrightarrow> tk_error (tick_rows start now t rs st) = None \<Longrightarrow>
    \<exists>rids e'. start_all start (filter (due t) rs) (tk_exec st) = Inr (rids, e') \<and>
      tk_exec (tick_rows start now t rs st) = e' \<and> tk_started (tick_rows start now t rs st) = tk_started st @ rids"
proof (induction rs arbitrary: st)
  case (Cons r rs)
  let ?st = "tick_row start now t r st"
  have none: "tk_error ?st = None" using Cons.prems tick_rows_Cons[OF Cons.prems(1)] by (metis)
  have eq: "tick_rows start now t (r # rs) st = tick_rows start now t rs ?st"
    using none tick_rows_Cons[OF Cons.prems(1)] by simp
  obtain rids e' where ih: "start_all start (filter (due t) rs) (tk_exec ?st) = Inr (rids, e')"
    "tk_exec (tick_rows start now t rs ?st) = e'" "tk_started (tick_rows start now t rs ?st) = tk_started ?st @ rids"
    using Cons.IH[OF none] Cons.prems(2) eq by auto
  obtain s where s: "cron_parse (t_cron r) = Inr s"
    using none by (cases "cron_parse (t_cron r)") (auto simp: tick_row_def parse_cron_def)
  show ?case
  proof (cases "matches s t")
    case False
    then have "?st = st" "\<not> due t r" using s by (auto simp: tick_row_def parse_cron_def due_def)
    then show ?thesis using ih eq by simp
  next
    case True
    then have d: "due t r" using s by (simp add: due_def)
    obtain rid e1 where st: "start (tk_exec st) (t_definition r) = Inr (rid, e1)"
      using none s True by (cases "start (tk_exec st) (t_definition r)") (auto simp: tick_row_def parse_cron_def)
    then have "tk_exec ?st = e1" "tk_started ?st = tk_started st @ [rid]"
      using s True by (auto simp: tick_row_def parse_cron_def Let_def split: sum.split)
    then show ?thesis using ih eq d st by simp
  qed
qed simp

lemma paused_not_due: "r \<in> set (active_rows ts) \<Longrightarrow> t_state r \<noteq> state_paused"
  by (auto simp: active_rows_set)

section \<open>The scan\<close>

lemma next_run_scan_found:
  "(next_run_scan n s t :: 'x sched_error + moment option) = Inr (Some t') \<Longrightarrow>
    \<exists>k < n. plus_minutes k t = Some t' \<and> matches s t' \<and>
      (\<forall>j < k. \<exists>u. plus_minutes j t = Some u \<and> \<not> matches s u)"
proof (induction n arbitrary: t)
  case (Suc n)
  show ?case
  proof (cases "matches s t")
    case True
    then show ?thesis using Suc.prems by (intro exI[of _ 0]) simp
  next
    case False
    then obtain u where u: "plus_minute t = Some u" "(next_run_scan n s u :: 'x sched_error + moment option) = Inr (Some t')"
      using Suc.prems by (cases "plus_minute t") auto
    obtain k where k: "k < n" "plus_minutes k u = Some t'" "matches s t'"
      "\<forall>j < k. \<exists>v. plus_minutes j u = Some v \<and> \<not> matches s v"
      using Suc.IH[OF u(2)] by blast
    have "\<exists>v. plus_minutes j t = Some v \<and> \<not> matches s v" if "j < Suc k" for j
      using that k(4) u(1) False by (cases j) auto
    then show ?thesis using k u(1) by (intro exI[of _ "Suc k"]) auto
  qed
qed simp

lemma next_run_scan_none:
  "next_run_scan n s t = Inr None \<Longrightarrow> k < n \<Longrightarrow> \<exists>u. plus_minutes k t = Some u \<and> \<not> matches s u"
proof (induction n arbitrary: t k)
  case (Suc n)
  then show ?case by (cases k) (auto split: if_splits option.splits)
qed simp

section \<open>The run starter as an interface\<close>

text \<open>
  What the scheduler relies on: a start that succeeds gives a run under an unused id, of the
  definition asked for, and leaves every other run as it was.
\<close>

locale run_starter =
  fixes start_one :: "'e \<Rightarrow> string \<Rightarrow> 'x + (string \<times> 'e)"
    and run_of :: "'e \<Rightarrow> string \<Rightarrow> 'r option"
    and newly :: "string \<Rightarrow> 'r \<Rightarrow> bool"
    and sound :: "'e \<Rightarrow> bool"
  assumes start_sound: "sound e \<Longrightarrow> start_one e d = Inr (rid, e') \<Longrightarrow> sound e'"
    and start_fresh: "sound e \<Longrightarrow> start_one e d = Inr (rid, e') \<Longrightarrow> run_of e rid = None"
    and start_run_of: "sound e \<Longrightarrow> start_one e d = Inr (rid, e') \<Longrightarrow>
      \<exists>v. newly d v \<and> run_of e' q = (if q = rid then Some v else run_of e q)"
begin

lemma start_all_runs:
  "sound e \<Longrightarrow> start_all start_one rs e = Inr (rids, e') \<Longrightarrow>
    sound e' \<and> distinct rids \<and> (\<forall>q \<in> set rids. run_of e q = None) \<and>
    (\<forall>q. q \<notin> set rids \<longrightarrow> run_of e' q = run_of e q) \<and>
    list_all2 (\<lambda>rid r. \<exists>v. run_of e' rid = Some v \<and> newly (t_definition r) v) rids rs"
proof (induction rs arbitrary: e rids)
  case (Cons r rs)
  obtain rid e1 ids where s: "start_one e (t_definition r) = Inr (rid, e1)"
    "start_all start_one rs e1 = Inr (ids, e')" "rids = rid # ids"
    using Cons.prems(2) by (auto simp: rbind_Inr_iff)
  note ih = Cons.IH[OF start_sound[OF Cons.prems(1) s(1)] s(2)]
  obtain v where v: "newly (t_definition r) v" "run_of e1 rid = Some v"
    using start_run_of[OF Cons.prems(1) s(1), of rid] by auto
  have other: "run_of e1 q = run_of e q" if "q \<noteq> rid" for q
    using start_run_of[OF Cons.prems(1) s(1), of q] that by auto
  have "rid \<notin> set ids" using ih v(2) by auto
  moreover have "run_of e' rid = Some v" using ih v(2) \<open>rid \<notin> set ids\<close> by auto
  moreover have "run_of e q = None" if "q \<in> set ids" for q
  proof -
    have "run_of e1 q = None" "q \<noteq> rid" using ih that \<open>rid \<notin> set ids\<close> by auto
    then show ?thesis using other[of q] by simp
  qed
  ultimately show ?case using ih s(3) v(1) start_fresh[OF Cons.prems(1) s(1)] other by auto
qed simp

text \<open>A tick without an error started one new run for each due task, in the order of the ids.\<close>

lemma tick_runs:
  assumes "sound e" "tk_error (tick start_one now t ts e) = None"
  shows "sound (tk_exec (tick start_one now t ts e)) \<and> distinct (tk_started (tick start_one now t ts e)) \<and>
    (\<forall>q \<in> set (tk_started (tick start_one now t ts e)). run_of e q = None) \<and>
    (\<forall>q. q \<notin> set (tk_started (tick start_one now t ts e)) \<longrightarrow>
       run_of (tk_exec (tick start_one now t ts e)) q = run_of e q) \<and>
    list_all2 (\<lambda>rid r. \<exists>v. run_of (tk_exec (tick start_one now t ts e)) rid = Some v \<and> newly (t_definition r) v)
      (tk_started (tick start_one now t ts e)) (filter (due t) (active_rows ts))"
proof -
  obtain rids e' where r: "start_all start_one (filter (due t) (active_rows ts)) e = Inr (rids, e')"
    "tk_exec (tick start_one now t ts e) = e'" "tk_started (tick start_one now t ts e) = rids"
    using tick_rows_start_all[OF _ assms(2)[unfolded tick_def]] by (auto simp: tick_def)
  show ?thesis unfolding r(2,3) by (rule start_all_runs[OF assms(1) r(1)])
qed

end

end
