(* ===== verification/Sched_Exec.thy ===== *)
theory Sched_Exec
  imports Scheduler Reachable
begin

text \<open>
  The scheduler on top of the executor: \<open>DagExecutor.start_run\<close> (core/dag_executor.py) provides what
  \<open>Scheduler.tick\<close> (core/scheduler.py) relies on.
\<close>

definition started_as :: "string \<Rightarrow> run_row \<Rightarrow> bool" where
  "started_as did v \<longleftrightarrow> rr_definition v = did \<and> rr_state v = RPending"

text \<open>The start operation with the arguments in the order the trigger loop uses.\<close>

definition start_task_run :: "exec_config \<Rightarrow> (nat \<Rightarrow> string) \<Rightarrow> exec \<Rightarrow> string \<Rightarrow> exec_error + (string \<times> exec)" where
  "start_task_run cfg u S did = start_run cfg u did None S"

lemma start_run_row:
  assumes ok: "exec_ok cfg u S" and uu: "uuid_ok u" and ex: "start_run cfg u did ovr S = Inr (rid, S')"
  shows "load_run (ex_db S) rid = None"
    and "\<exists>v. started_as did v \<and> load_run (ex_db S') q = (if q = rid then Some v else load_run (ex_db S) q)"
proof -
  obtain d g where g: "dag_from_definition d = Some g" and rid: "rid = u (ex_fresh S)"
    and S': "S' = S\<lparr>ex_db := post rid ''run.created'' ''workflow run created'' None
        [(''definition_id'', JStr did), (''state'', JStr (run_value RPending))]
        (insert_run rid did (resolve_limit cfg d ovr) g (ex_db S)), ex_fresh := Suc (ex_fresh S)\<rparr>"
    using start_run_Inr[OF ex] by blast
  note fresh = fresh_run[OF ok uu, folded rid]
  show "load_run (ex_db S) rid = None" by (rule fresh(1))
  show "\<exists>v. started_as did v \<and> load_run (ex_db S') q = (if q = rid then Some v else load_run (ex_db S) q)"
    using load_insert_run(1)[OF fresh conjunct1[OF dag_from_definition_wf[OF g]] refl,
        where did = did and lmt = "resolve_limit cfg d ovr" and q = q]
    by (intro exI[of _ "\<lparr>rr_definition = did, rr_state = RPending, rr_limit = resolve_limit cfg d ovr,
        rr_created = db_now (ex_db S), rr_started = None, rr_finished = None\<rparr>"]) (simp add: S' started_as_def)
qed

interpretation starter: run_starter "start_task_run cfg u" "\<lambda>S. load_run (ex_db S)" started_as
  "\<lambda>S. exec_ok cfg u S \<and> uuid_ok u" for cfg u
proof
  show "exec_ok cfg u S' \<and> uuid_ok u" if "exec_ok cfg u S \<and> uuid_ok u" "start_task_run cfg u S d = Inr (rid, S')"
    for S d rid S'
    using that start_good good_ok unfolding start_task_run_def by blast
  show "load_run (ex_db S) rid = None" if "exec_ok cfg u S \<and> uuid_ok u" "start_task_run cfg u S d = Inr (rid, S')"
    for S d rid S'
    using that start_run_row(1) unfolding start_task_run_def by blast
  show "\<exists>v. started_as d v \<and> load_run (ex_db S') q = (if q = rid then Some v else load_run (ex_db S) q)"
    if "exec_ok cfg u S \<and> uuid_ok u" "start_task_run cfg u S d = Inr (rid, S')" for S d rid S' q
    using that start_run_row(2) unfolding start_task_run_def by blast
qed

end
