(* ===== verification/Planner.thy ===== *)
theory Planner
  imports Dag_Layers
begin

text \<open>
  \<open>core/planner.py\<close>: the analysis of a workflow definition into problems, nodes and edges, and the
  two entry points \<open>validate\<close> and \<open>build_dag\<close>. The catalogs behind the resolver are arguments: an
  agent lookup says whether \<open>get_agent\<close> returns something, a tool lookup is \<open>has_tool\<close>;
  \<open>None\<close> is an absent catalog.
\<close>

section \<open>References\<close>

record resolver =
  agent_lookup :: "(string \<Rightarrow> bool) option"
  tool_lookup :: "(string \<Rightarrow> bool) option"

definition agent_exists :: "resolver \<Rightarrow> string \<Rightarrow> bool" where
  "agent_exists r ref =
     (if ref = [] then False else (case agent_lookup r of None \<Rightarrow> False | Some f \<Rightarrow> f ref))"

definition tool_exists :: "resolver \<Rightarrow> string \<Rightarrow> bool" where
  "tool_exists r ref =
     (if ref = [] then False else (case tool_lookup r of None \<Rightarrow> False | Some f \<Rightarrow> f ref))"

definition input_exists :: "string \<Rightarrow> (string \<times> json) list \<Rightarrow> bool" where
  "input_exists ref declared = dict_has declared ref"

definition agent_ref_keys :: "string list" where
  "agent_ref_keys = [''agent'', ''agentId'', ''agent_id'']"

definition tool_ref_keys :: "string list" where
  "tool_ref_keys = [''tool'', ''toolName'', ''tool_name'']"

fun first_ref :: "(string \<times> json) list \<Rightarrow> string list \<Rightarrow> string option" where
  "first_ref cfg [] = None"
| "first_ref cfg (k # ks) =
     (case obj_get cfg k of JStr s \<Rightarrow> if s \<noteq> [] then Some s else first_ref cfg ks
      | _ \<Rightarrow> first_ref cfg ks)"

fun string_items :: "json list \<Rightarrow> string list" where
  "string_items [] = []"
| "string_items (v # vs) =
     (case v of JStr s \<Rightarrow> if s \<noteq> [] then s # string_items vs else string_items vs
      | _ \<Rightarrow> string_items vs)"

definition string_tuple :: "json \<Rightarrow> string list" where
  "string_tuple v = (case v of JList xs \<Rightarrow> string_items xs | _ \<Rightarrow> [])"

section \<open>Problems\<close>

record problem =
  p_code :: string
  p_message :: string
  p_detail :: "(string \<times> json) list"

definition problem_of :: "string \<Rightarrow> string \<Rightarrow> (string \<times> json) list \<Rightarrow> problem" where
  "problem_of c m d = \<lparr>p_code = c, p_message = m, p_detail = d\<rparr>"

section \<open>Structural parsing\<close>

record parse_state =
  ps_problems :: "problem list"
  ps_nodes :: "(string, dag_node) dict"
  ps_seen :: "string set"

definition add_problem :: "problem \<Rightarrow> parse_state \<Rightarrow> parse_state" where
  "add_problem p s = s\<lparr>ps_problems := ps_problems s @ [p]\<rparr>"

definition nonempty_str :: "json \<Rightarrow> string option" where
  "nonempty_str v = (case v of JStr s \<Rightarrow> if s = [] then None else Some s | _ \<Rightarrow> None)"

definition obj_or_empty :: "json \<Rightarrow> (string \<times> json) list" where
  "obj_or_empty v = (case v of JObj d \<Rightarrow> d | _ \<Rightarrow> [])"

fun parse_step :: "nat \<Rightarrow> json \<Rightarrow> parse_state \<Rightarrow> parse_state" where
  "parse_step i (JObj step) s =
     (case nonempty_str (obj_get step ''id'') of
        None \<Rightarrow> add_problem (problem_of ''invalid_step''
          (''Workflow_Step at index '' @ nat_str i @ '' is missing a non-empty string '' @ sq ''id'' @ ''.'')
          [(''index'', JInt (int i))]) s
      | Some sid \<Rightarrow>
        (case nonempty_str (obj_get step ''type'') of
           None \<Rightarrow> add_problem (problem_of ''invalid_step''
             (''Workflow_Step '' @ sq sid @ '' is missing a non-empty string '' @ sq ''type'' @ ''.'')
             [(''step'', JStr sid)]) s
         | Some ty \<Rightarrow>
           (if sid \<in> ps_seen s then add_problem (problem_of ''duplicate_step_id''
              (''Duplicate Workflow_Step id '' @ sq sid @ ''.'') [(''step'', JStr sid)]) s
            else s\<lparr>ps_seen := insert sid (ps_seen s),
                   ps_nodes := dict_set sid
                     \<lparr>step_id = sid, step_type = ty,
                      config = obj_or_empty (obj_get step ''config''),
                      depends_on = string_tuple (obj_get step ''dependsOn'')\<rparr> (ps_nodes s)\<rparr>)))"
| "parse_step i v s = add_problem (problem_of ''invalid_step''
     (''Workflow_Step at index '' @ nat_str i @ '' must be an object, got '' @ type_name v @ ''.'')
     [(''index'', JInt (int i))]) s"

fun parse_steps :: "nat \<Rightarrow> json list \<Rightarrow> parse_state \<Rightarrow> parse_state" where
  "parse_steps i [] s = s"
| "parse_steps i (v # vs) s = parse_steps (Suc i) vs (parse_step i v s)"

definition parse_start :: parse_state where
  "parse_start = \<lparr>ps_problems = [], ps_nodes = [], ps_seen = {}\<rparr>"

section \<open>Dependency and reference checks\<close>

definition ref_problem :: "string \<Rightarrow> string \<Rightarrow> string \<Rightarrow> string \<Rightarrow> problem" where
  "ref_problem c what sid ref = problem_of c
     (''Workflow_Step '' @ sq sid @ what @ sq ref @ ''.'') [(''step'', JStr sid), (''reference'', JStr ref)]"

definition dep_problems :: "(string, dag_node) dict \<Rightarrow> string \<Rightarrow> dag_node \<Rightarrow> problem list" where
  "dep_problems ns sid n =
     map (ref_problem ''missing_dependency'' '' depends on unknown step '' sid)
       (filter (\<lambda>dep. \<not> dict_has ns dep) (depends_on n))"

definition target_problems :: "resolver \<Rightarrow> string \<Rightarrow> dag_node \<Rightarrow> problem list" where
  "target_problems r sid n =
     (if step_type n = ''agent'' then
        (case first_ref (config n) agent_ref_keys of
           None \<Rightarrow> []
         | Some ref \<Rightarrow> if agent_exists r ref then []
             else [ref_problem ''missing_agent'' '' references unknown agent '' sid ref])
      else if step_type n = ''tool'' then
        (case first_ref (config n) tool_ref_keys of
           None \<Rightarrow> []
         | Some ref \<Rightarrow> if tool_exists r ref then []
             else [ref_problem ''missing_tool'' '' references unknown tool '' sid ref])
      else [])"

definition input_problems :: "(string \<times> json) list \<Rightarrow> string \<Rightarrow> dag_node \<Rightarrow> problem list" where
  "input_problems declared sid n =
     map (ref_problem ''missing_input'' '' references unknown input '' sid)
       (filter (\<lambda>ref. \<not> input_exists ref declared) (string_tuple (obj_get (config n) ''inputs'')))"

definition step_problems ::
  "resolver \<Rightarrow> (string, dag_node) dict \<Rightarrow> (string \<times> json) list \<Rightarrow> string \<Rightarrow> problem list" where
  "step_problems r ns declared sid =
     (case map_of ns sid of None \<Rightarrow> []
      | Some n \<Rightarrow> dep_problems ns sid n @ target_problems r sid n @ input_problems declared sid n)"

definition known_edges :: "(string, dag_node) dict \<Rightarrow> string list \<Rightarrow> (string \<times> string) list" where
  "known_edges ns sids =
     concat (map (\<lambda>sid. case map_of ns sid of None \<Rightarrow> []
       | Some n \<Rightarrow> map (\<lambda>dep. (dep, sid)) (filter (dict_has ns) (depends_on n))) sids)"

definition cycle_problem :: "string list \<Rightarrow> problem" where
  "cycle_problem cyc = problem_of ''cycle''
     (''Workflow_Definition contains a dependency cycle: '' @ str_join '' -> '' cyc @ ''.'')
     [(''steps'', JList (map JStr cyc))]"

section \<open>The analysis pass\<close>

record analysis =
  an_problems :: "problem list"
  an_nodes :: "(string, dag_node) dict"
  an_edges :: "(string \<times> string) list"

definition graph_problems :: "resolver \<Rightarrow> (string \<times> json) list \<Rightarrow> (string, dag_node) dict \<Rightarrow> problem list" where
  "graph_problems r declared ns =
     concat (map (step_problems r ns declared) (sort (dict_keys ns))) @
     (case detect_cycle \<lparr>nodes = ns, edges = known_edges ns (sort (dict_keys ns))\<rparr> of
        None \<Rightarrow> [] | Some cyc \<Rightarrow> [cycle_problem cyc])"

definition analyze_steps :: "resolver \<Rightarrow> (string \<times> json) list \<Rightarrow> json list \<Rightarrow> analysis" where
  "analyze_steps r d raw =
     (let s = parse_steps 0 raw parse_start; ns = ps_nodes s
      in if ns = [] then \<lparr>an_problems = ps_problems s, an_nodes = [], an_edges = []\<rparr>
         else \<lparr>an_problems = ps_problems s @ graph_problems r (obj_or_empty (obj_get d ''inputs'')) ns,
               an_nodes = ns, an_edges = known_edges ns (sort (dict_keys ns))\<rparr>)"

fun analyze :: "resolver \<Rightarrow> json \<Rightarrow> analysis" where
  "analyze r (JObj d) =
     (case obj_get d ''steps'' of
        JNull \<Rightarrow> analyze_steps r d []
      | JList raw \<Rightarrow> analyze_steps r d raw
      | v \<Rightarrow> \<lparr>an_problems = [problem_of ''invalid_steps''
               (''Workflow_Definition '' @ sq ''steps'' @ '' must be a list, got '' @ type_name v @ ''.'') []],
             an_nodes = [], an_edges = []\<rparr>)"
| "analyze r v = \<lparr>an_problems = [problem_of ''invalid_definition''
      (''Workflow_Definition must be an object, got '' @ type_name v @ ''.'') []],
     an_nodes = [], an_edges = []\<rparr>"

definition validate :: "resolver \<Rightarrow> json \<Rightarrow> problem list" where
  "validate r v = an_problems (analyze r v)"

text \<open>The \<open>ValidationError\<close>: the primary problem's code and message, and all problems.\<close>

record validation_error =
  ve_code :: string
  ve_message :: string
  ve_problems :: "problem list"

definition build_dag :: "resolver \<Rightarrow> json \<Rightarrow> validation_error + dag" where
  "build_dag r v =
     (let a = analyze r v in
      case an_problems a of
        p # ps \<Rightarrow> Inl \<lparr>ve_code = p_code p, ve_message = p_message p, ve_problems = p # ps\<rparr>
      | [] \<Rightarrow> Inr \<lparr>nodes = an_nodes a, edges = an_edges a\<rparr>)"

section \<open>What the structural pass keeps\<close>

definition node_ok :: "string \<Rightarrow> dag_node \<Rightarrow> bool" where
  "node_ok sid n = (step_id n = sid \<and> sid \<noteq> [] \<and> step_type n \<noteq> [] \<and> [] \<notin> set (depends_on n))"

definition parse_inv :: "parse_state \<Rightarrow> bool" where
  "parse_inv s \<longleftrightarrow> dict_ok (ps_nodes s) \<and> ps_seen s = set (dict_keys (ps_nodes s)) \<and>
     (\<forall>(sid, n) \<in> set (ps_nodes s). node_ok sid n)"

lemma string_items_nonempty: "[] \<notin> set (string_items vs)"
  by (induction vs) (auto split: json.splits)

lemma string_tuple_nonempty: "[] \<notin> set (string_tuple v)"
  by (simp add: string_tuple_def string_items_nonempty split: json.splits)

lemma nonempty_str_Some: "nonempty_str v = Some s \<longleftrightarrow> v = JStr s \<and> s \<noteq> []"
  by (auto simp: nonempty_str_def split: json.splits)

lemma dict_set_fresh: "k \<notin> set (dict_keys d) \<Longrightarrow> dict_set k v d = d @ [(k, v)]"
  by (induction d) auto

lemma parse_start_inv: "parse_inv parse_start"
  by (simp add: parse_inv_def parse_start_def)

lemma add_problem_inv [simp]: "parse_inv (add_problem p s) = parse_inv s"
  by (simp add: parse_inv_def add_problem_def)

text \<open>The pair a well-formed step adds to the node map.\<close>

definition node_of_step :: "(string \<times> json) list \<Rightarrow> string \<times> dag_node" where
  "node_of_step step =
     (case obj_get step ''id'' of JStr sid \<Rightarrow> (case obj_get step ''type'' of JStr ty \<Rightarrow>
        (sid, \<lparr>step_id = sid, step_type = ty, config = obj_or_empty (obj_get step ''config''),
               depends_on = string_tuple (obj_get step ''dependsOn'')\<rparr>)
      | _ \<Rightarrow> undefined) | _ \<Rightarrow> undefined)"

definition well_formed_step :: "json \<Rightarrow> bool" where
  "well_formed_step v = (\<exists>step. v = JObj step \<and> nonempty_str (obj_get step ''id'') \<noteq> None \<and>
     nonempty_str (obj_get step ''type'') \<noteq> None)"

lemma parse_step_cases:
  "(\<exists>p. parse_step i v s = add_problem p s) \<or>
   (\<exists>step. v = JObj step \<and> well_formed_step v \<and> fst (node_of_step step) \<notin> ps_seen s \<and>
     node_ok (fst (node_of_step step)) (snd (node_of_step step)) \<and>
     parse_step i v s = s\<lparr>ps_seen := insert (fst (node_of_step step)) (ps_seen s),
        ps_nodes := dict_set (fst (node_of_step step)) (snd (node_of_step step)) (ps_nodes s)\<rparr>)"
proof (cases v)
  case (JObj step)
  show ?thesis
  proof (cases "nonempty_str (obj_get step ''id'')")
    case (Some sid)
    show ?thesis
    proof (cases "nonempty_str (obj_get step ''type'')")
      case (Some ty)
      then have "node_of_step step = (sid, \<lparr>step_id = sid, step_type = ty,
          config = obj_or_empty (obj_get step ''config''),
          depends_on = string_tuple (obj_get step ''dependsOn'')\<rparr>)"
        using \<open>nonempty_str (obj_get step ''id'') = Some sid\<close>
        by (simp add: nonempty_str_Some node_of_step_def)
      then have nd: "fst (node_of_step step) = sid" "snd (node_of_step step) = \<lparr>step_id = sid, step_type = ty,
          config = obj_or_empty (obj_get step ''config''),
          depends_on = string_tuple (obj_get step ''dependsOn'')\<rparr>" by simp_all
      have ne: "sid \<noteq> []" "ty \<noteq> []"
        using Some \<open>nonempty_str (obj_get step ''id'') = Some sid\<close> by (simp_all add: nonempty_str_Some)
      have wf: "well_formed_step v" "node_ok sid (snd (node_of_step step))"
        using Some JObj \<open>nonempty_str (obj_get step ''id'') = Some sid\<close> ne nd
        by (simp_all add: well_formed_step_def node_ok_def string_tuple_nonempty)
      show ?thesis
      proof (cases "sid \<in> ps_seen s")
        case True
        then have "\<exists>p. parse_step i v s = add_problem p s"
          using Some JObj \<open>nonempty_str (obj_get step ''id'') = Some sid\<close> by auto
        then show ?thesis by blast
      next
        case False
        then have "parse_step i v s = s\<lparr>ps_seen := insert sid (ps_seen s),
            ps_nodes := dict_set sid (snd (node_of_step step)) (ps_nodes s)\<rparr>"
          using Some JObj \<open>nonempty_str (obj_get step ''id'') = Some sid\<close> nd by simp
        then show ?thesis using False wf JObj nd(1) by metis
      qed
    qed (use JObj Some in auto)
  qed (use JObj in auto)
qed auto

lemma parse_step_inv: "parse_inv s \<Longrightarrow> parse_inv (parse_step i v s)"
proof -
  assume inv: "parse_inv s"
  consider (problem) p where "parse_step i v s = add_problem p s"
    | (node) step where "fst (node_of_step step) \<notin> ps_seen s"
      "node_ok (fst (node_of_step step)) (snd (node_of_step step))"
      "parse_step i v s = s\<lparr>ps_seen := insert (fst (node_of_step step)) (ps_seen s),
        ps_nodes := dict_set (fst (node_of_step step)) (snd (node_of_step step)) (ps_nodes s)\<rparr>"
    using parse_step_cases[of i v s] by blast
  then show ?thesis
  proof cases
    case node
    then show ?thesis using inv
      by (auto simp: parse_inv_def dict_set_fresh)
  qed (use inv in simp)
qed

lemma parse_steps_inv: "parse_inv s \<Longrightarrow> parse_inv (parse_steps i vs s)"
  by (induction vs arbitrary: i s) (auto intro: parse_step_inv)

lemma parse_steps_problems: "length (ps_problems s) \<le> length (ps_problems (parse_steps i vs s))"
proof (induction vs arbitrary: i s)
  case (Cons v vs)
  have "length (ps_problems s) \<le> length (ps_problems (parse_step i v s))"
    using parse_step_cases[of i v s] by (auto simp: add_problem_def)
  then show ?case using Cons.IH[of "parse_step i v s" "Suc i"] by simp
qed simp

text \<open>
  When the pass reports no problem, every raw step is well formed, the ids are distinct and the
  node map lists the steps in their order.
\<close>

lemma parse_steps_clean:
  "parse_inv s \<Longrightarrow> length (ps_problems (parse_steps i vs s)) = length (ps_problems s) \<Longrightarrow>
    (\<forall>v \<in> set vs. well_formed_step v) \<and>
    ps_nodes (parse_steps i vs s) = ps_nodes s @ map (\<lambda>v. node_of_step (the (the_obj v))) vs"
proof (induction vs arbitrary: i s)
  case (Cons v vs)
  have le: "length (ps_problems (parse_step i v s)) \<le> length (ps_problems s)"
    using Cons.prems(2) parse_steps_problems[of "parse_step i v s" "Suc i" vs] by simp
  then obtain step where step: "v = JObj step" "well_formed_step v"
    "fst (node_of_step step) \<notin> ps_seen s"
    "parse_step i v s = s\<lparr>ps_seen := insert (fst (node_of_step step)) (ps_seen s),
        ps_nodes := dict_set (fst (node_of_step step)) (snd (node_of_step step)) (ps_nodes s)\<rparr>"
    using parse_step_cases[of i v s] by (auto simp: add_problem_def)
  have "ps_nodes (parse_step i v s) = ps_nodes s @ [node_of_step step]"
    using step Cons.prems(1) by (simp add: dict_set_fresh parse_inv_def)
  moreover have "ps_problems (parse_step i v s) = ps_problems s" using step by simp
  ultimately show ?case
    using Cons.IH[OF parse_step_inv[OF Cons.prems(1)], of "Suc i" i v] Cons.prems(2) step by simp
qed simp

section \<open>What a compiled graph guarantees\<close>

definition refs_ok :: "resolver \<Rightarrow> (string \<times> json) list \<Rightarrow> dag_node \<Rightarrow> bool" where
  "refs_ok r declared n \<longleftrightarrow>
     (step_type n = ''agent'' \<longrightarrow> (\<forall>a. first_ref (config n) agent_ref_keys = Some a \<longrightarrow> agent_exists r a)) \<and>
     (step_type n = ''tool'' \<longrightarrow> (\<forall>t. first_ref (config n) tool_ref_keys = Some t \<longrightarrow> tool_exists r t)) \<and>
     (\<forall>i \<in> set (string_tuple (obj_get (config n) ''inputs'')). input_exists i declared)"

lemma step_problems_Nil:
  "map_of ns sid = Some n \<Longrightarrow> step_problems r ns declared sid = [] \<longleftrightarrow>
    (\<forall>dep \<in> set (depends_on n). dict_has ns dep) \<and> refs_ok r declared n"
  by (auto simp: step_problems_def dep_problems_def target_problems_def input_problems_def refs_ok_def
      filter_empty_conv split: option.splits if_splits)

lemma graph_problems_Nil:
  assumes "dict_ok ns"
  shows "graph_problems r declared ns = [] \<longleftrightarrow>
    (\<forall>(sid, n) \<in> set ns. (\<forall>dep \<in> set (depends_on n). dict_has ns dep) \<and> refs_ok r declared n) \<and>
    acyclic (edge_rel \<lparr>nodes = ns, edges = known_edges ns (sort (dict_keys ns))\<rparr>)"
proof -
  have "(\<forall>sid \<in> fst ` set ns. step_problems r ns declared sid = []) \<longleftrightarrow>
    (\<forall>(sid, n) \<in> set ns. (\<forall>dep \<in> set (depends_on n). dict_has ns dep) \<and> refs_ok r declared n)"
    using step_problems_Nil[of ns _ _ r declared] assms by (auto simp: ball_Un split_beta)
  then show ?thesis by (auto simp: graph_problems_def detect_cycle_None[symmetric] split: option.splits)
qed

text \<open>The nodes and edges of a definition's analysis.\<close>

lemma build_dag_Inr:
  assumes "build_dag r v = Inr d"
  obtains raw def where "v = JObj def"
    and "obj_get def ''steps'' = JNull \<and> raw = [] \<or> obj_get def ''steps'' = JList raw"
    and "\<forall>s \<in> set raw. well_formed_step s"
    and "nodes d = map (\<lambda>s. node_of_step (the (the_obj s))) raw"
    and "dag_ok d"
    and "\<forall>(sid, n) \<in> set (nodes d). node_ok sid n \<and> (\<forall>dep \<in> set (depends_on n). dep \<in> dag_ids d) \<and>
          refs_ok r (obj_or_empty (obj_get def ''inputs'')) n"
    and "acyclic (edge_rel d)"
proof -
  have clean: "an_problems (analyze r v) = []" and d: "d = \<lparr>nodes = an_nodes (analyze r v), edges = an_edges (analyze r v)\<rparr>"
    using assms by (auto simp: build_dag_def Let_def split: list.splits)
  obtain def raw where v: "v = JObj def" and an: "analyze r v = analyze_steps r def raw"
    and raw: "obj_get def ''steps'' = JNull \<and> raw = [] \<or> obj_get def ''steps'' = JList raw"
    using clean by (cases v) (auto split: json.splits)
  let ?s = "parse_steps 0 raw parse_start" and ?declared = "obj_or_empty (obj_get def ''inputs'')"
  have inv: "parse_inv ?s" by (rule parse_steps_inv[OF parse_start_inv])
  have probs: "ps_problems ?s = []" using clean an by (auto simp: analyze_steps_def Let_def split: if_splits)
  have ns: "nodes d = ps_nodes ?s" using d an by (auto simp: analyze_steps_def Let_def)
  have parsed: "(\<forall>s \<in> set raw. well_formed_step s) \<and> nodes d = map (\<lambda>s. node_of_step (the (the_obj s))) raw"
    using parse_steps_clean[OF parse_start_inv, of 0 raw] probs ns by (simp add: parse_start_def)
  have ok: "dict_ok (nodes d)" using inv ns by (simp add: parse_inv_def)
  show ?thesis
  proof (cases "nodes d = []")
    case True
    then have "edge_rel d = {}" by (auto simp: edge_rel_def predecessors_def node_deps_def)
    then show ?thesis using that[OF v raw] parsed ok True by (simp add: dag_ok_def acyclic_def)
  next
    case False
    then have "an_problems (analyze r v) = ps_problems ?s @ graph_problems r ?declared (nodes d)"
      and ed: "edges d = known_edges (nodes d) (sort (dict_keys (nodes d)))"
      using an ns d by (auto simp: analyze_steps_def Let_def)
    then have gp: "graph_problems r ?declared (nodes d) = []" using clean by simp
    have self: "\<lparr>nodes = nodes d, edges = known_edges (nodes d) (sort (dict_keys (nodes d)))\<rparr> = d"
      using ed by simp
    note refs = graph_problems_Nil[OF ok, THEN iffD1, OF gp, unfolded self]
    have nok: "\<And>sid n. (sid, n) \<in> set (nodes d) \<Longrightarrow> node_ok sid n"
      using inv unfolding ns parse_inv_def by blast
    have rok: "\<And>sid n. (sid, n) \<in> set (nodes d) \<Longrightarrow>
        (\<forall>dep \<in> set (depends_on n). dict_has (nodes d) dep) \<and> refs_ok r ?declared n"
      using refs by blast
    have "\<forall>(sid, n) \<in> set (nodes d). node_ok sid n \<and> (\<forall>dep \<in> set (depends_on n). dep \<in> dag_ids d) \<and>
        refs_ok r ?declared n"
      using nok rok unfolding dag_has_iff by blast
    moreover have "dag_ok d" using ok by (simp add: dag_ok_def)
    ultimately show ?thesis using that[OF v raw] parsed refs by blast
  qed
qed

lemma validate_build: "validate r v = [] \<longleftrightarrow> (\<exists>d. build_dag r v = Inr d)"
  by (auto simp: validate_def build_dag_def Let_def split: list.splits)

text \<open>The cycle is reported exactly when the well-formed steps depend on each other in a circle.\<close>

lemma problem_codes_no_cycle:
  "p \<in> set (ps_problems (parse_steps i vs s)) \<Longrightarrow> p \<notin> set (ps_problems s) \<Longrightarrow> p_code p \<noteq> ''cycle''"
proof (induction vs arbitrary: i s)
  case (Cons v vs)
  show ?case
  proof (cases "p \<in> set (ps_problems (parse_step i v s))")
    case True
    then show ?thesis using Cons.prems(2)
      by (cases v) (auto simp: add_problem_def problem_of_def split: option.splits if_splits)
  next
    case False
    then show ?thesis using Cons.IH Cons.prems(1) by simp
  qed
qed simp

lemma step_problems_no_cycle: "p \<in> set (step_problems r ns declared sid) \<Longrightarrow> p_code p \<noteq> ''cycle''"
  by (auto simp: step_problems_def dep_problems_def target_problems_def input_problems_def
      ref_problem_def problem_of_def split: option.splits if_splits)

lemma cycle_reported:
  "(\<exists>p \<in> set (an_problems (analyze_steps r d raw)). p_code p = ''cycle'') \<longleftrightarrow>
    \<not> acyclic (edge_rel \<lparr>nodes = ps_nodes (parse_steps 0 raw parse_start),
        edges = known_edges (ps_nodes (parse_steps 0 raw parse_start))
          (sort (dict_keys (ps_nodes (parse_steps 0 raw parse_start))))\<rparr>)"
    (is "?L \<longleftrightarrow> \<not> acyclic (edge_rel ?g)")
proof -
  let ?ns = "ps_nodes (parse_steps 0 raw parse_start)"
  have none: "p_code p \<noteq> ''cycle''" if "p \<in> set (ps_problems (parse_steps 0 raw parse_start))" for p
    using problem_codes_no_cycle[of p 0 raw parse_start] that by (simp add: parse_start_def)
  show ?thesis
  proof (cases "?ns = []")
    case True
    then have "edge_rel ?g = {}" by (auto simp: edge_rel_def predecessors_def node_deps_def)
    then show ?thesis using True none by (auto simp: analyze_steps_def Let_def acyclic_def)
  next
    case False
    have steps: "p_code p \<noteq> ''cycle''"
      if "p \<in> set (concat (map (step_problems r ?ns decl) sids))" for p decl sids
      using that step_problems_no_cycle by auto
    have "?L \<longleftrightarrow> detect_cycle ?g \<noteq> None"
    proof (cases "detect_cycle ?g")
      case None
      then show ?thesis using False none steps
        by (auto simp: analyze_steps_def Let_def graph_problems_def dest: step_problems_no_cycle)
    next
      case (Some cyc)
      then show ?thesis using False
        by (auto simp: analyze_steps_def Let_def graph_problems_def cycle_problem_def problem_of_def)
    qed
    then show ?thesis by (simp only: detect_cycle_None)
  qed
qed

end
