(* ===== verification/Plan_Exec.thy ===== *)
theory Plan_Exec
  imports Planner Reachable
begin

text \<open>
  The planner (core/planner.py) and the executor (core/dag_executor.py) read a workflow definition
  each on their own: the planner the raw one, the executor the canonical form the serializer
  (core/workflow_serializer.py) gives back. On a definition that the planner compiles both see
  the same graph.
\<close>

section \<open>One step, read twice\<close>

definition same_node :: "string \<times> dag_node \<Rightarrow> string \<times> dag_node \<Rightarrow> bool" where
  "same_node p q \<longleftrightarrow> fst p = fst q \<and> step_id (snd q) = fst q \<and> step_type (snd p) = step_type (snd q) \<and>
     config (snd p) = config (snd q) \<and> depends_on (snd p) = filter (\<lambda>dep. dep \<noteq> []) (depends_on (snd q))"

lemma str_items_map [simp]: "str_items (map JStr ss) = Some ss"
  by (induction ss) simp_all

lemma string_items_map: "string_items (map JStr ss) = filter (\<lambda>s. s \<noteq> []) ss"
  by (induction ss) simp_all

lemma as_str_id: "v = JStr s \<Longrightarrow> as_str v f = Inr r \<Longrightarrow> r = JStr s"
  by simp

lemma as_dict_obj: "as_dict v f = Inr r \<Longrightarrow> r = JObj (obj_or_empty v)"
  by (cases v) (auto simp: obj_or_empty_def type_error_def)

lemma as_str_list_items: "as_str_list v f = Inr r \<Longrightarrow>
  \<exists>ss. r = JList (map JStr ss) \<and> string_tuple v = filter (\<lambda>s. s \<noteq> []) ss"
  by (cases v) (auto simp: type_error_def rbind_Inr_iff string_tuple_def string_items_map dest!: str_items_Inr
      intro: exI[of _ "[]"])

lemma step_agree:
  assumes "well_formed_step (JObj st)" "canonicalize_step i (JObj st) = Inr r"
  shows "\<exists>m. definition_node r = Some m \<and> same_node (node_of_step st) (step_id m, m)"
proof -
  obtain sid ty where st: "obj_get st ''id'' = JStr sid" "obj_get st ''type'' = JStr ty"
    using assms(1) by (auto simp: well_formed_step_def nonempty_str_Some)
  obtain cfg deps where c: "as_dict (obj_get st ''config'') (step_field i ''config'') = Inr cfg"
    "as_str_list (obj_get st ''dependsOn'') (step_field i ''dependsOn'') = Inr deps"
    "r = JObj [(''id'', JStr sid), (''type'', JStr ty), (''config'', cfg), (''dependsOn'', deps)]"
    using assms(2) by (auto simp: rbind_Inr_iff st)
  obtain ss where ss: "deps = JList (map JStr ss)" "string_tuple (obj_get st ''dependsOn'') = filter (\<lambda>s. s \<noteq> []) ss"
    using as_str_list_items[OF c(2)] by blast
  have "definition_node r = Some \<lparr>step_id = sid, step_type = ty, config = obj_or_empty (obj_get st ''config''), depends_on = ss\<rparr>"
    unfolding c(3) as_dict_obj[OF c(1)] ss(1) by (simp add: definition_node_def obj_get_def)
  then show ?thesis using st ss(2) by (simp add: same_node_def node_of_step_def)
qed

section \<open>The whole list of steps\<close>

lemma definition_nodes_fresh:
  assumes "list_all2 (\<lambda>j p. \<exists>m. definition_node j = Some m \<and> same_node p (step_id m, m)) js ps"
    and "distinct (map fst ps)" "set (map fst ps) \<inter> set (dict_keys ns) = {}"
  shows "\<exists>qs. definition_nodes js ns = Some (ns @ qs) \<and> list_all2 same_node ps qs"
  using assms
proof (induction js ps arbitrary: ns rule: list_all2_induct)
  case (Cons j js p ps)
  obtain m where m: "definition_node j = Some m" "same_node p (step_id m, m)" using Cons.hyps(1) by blast
  have id: "fst p = step_id m" using m(2) by (simp add: same_node_def)
  let ?ns = "ns @ [(step_id m, m)]"
  have "dict_set (step_id m) m ns = ?ns" using Cons.prems(2) id by (intro dict_set_fresh) auto
  moreover obtain qs where "definition_nodes js ?ns = Some (?ns @ qs)" "list_all2 same_node ps qs"
    using Cons.IH[of ?ns] Cons.prems id by auto
  ultimately show ?case using m by (intro exI[of _ "(step_id m, m) # qs"]) simp
qed simp

lemma mapiM_r_all2:
  assumes "mapiM_r i f xs = Inr ys" "\<And>j x y. x \<in> set xs \<Longrightarrow> f j x = Inr y \<Longrightarrow> R y x"
  shows "list_all2 R ys xs"
  using assms
proof (induction xs arbitrary: i ys)
  case (Cons x xs)
  obtain z zs where z: "f i x = Inr z" "mapiM_r (Suc i) f xs = Inr zs" "ys = z # zs"
    using Cons.prems(1) by (auto split: sum.splits)
  show ?case using Cons.IH[OF z(2)] Cons.prems(2) z(1,3) by simp
qed simp

lemma steps_agree:
  assumes "mapiM_r i canonicalize_step raw = Inr js" "\<forall>s \<in> set raw. well_formed_step s"
  shows "list_all2 (\<lambda>j p. \<exists>m. definition_node j = Some m \<and> same_node p (step_id m, m)) js
    (map (\<lambda>s. node_of_step (the (the_obj s))) raw)"
proof -
  have "list_all2 (\<lambda>j s. \<exists>m. definition_node j = Some m \<and> same_node (node_of_step (the (the_obj s))) (step_id m, m)) js raw"
  proof (rule mapiM_r_all2[OF assms(1)])
    fix k s j assume s: "s \<in> set raw" "canonicalize_step k s = Inr j"
    then obtain st where st: "s = JObj st" using assms(2) by (auto simp: well_formed_step_def)
    show "\<exists>m. definition_node j = Some m \<and> same_node (node_of_step (the (the_obj s))) (step_id m, m)"
      using step_agree[of st k j] s st assms(2) by simp
  qed
  then show ?thesis by (simp add: list_all2_map2)
qed

lemma same_nodes_get:
  "list_all2 same_node ps qs \<Longrightarrow> map fst qs = map fst ps \<and>
    (case map_of ps s of None \<Rightarrow> map_of qs s = None
     | Some n \<Rightarrow> \<exists>m. map_of qs s = Some m \<and> same_node (s, n) (s, m))"
  by (induction rule: list_all2_induct) (auto simp: same_node_def split: option.splits)

text \<open>The dependencies that the planner drops are empty ids, which name no step of a compiled graph.\<close>

lemma same_nodes_edges:
  assumes "list_all2 same_node (nodes g) (nodes g')" "[] \<notin> dag_ids g"
  shows "dag_ids g' = dag_ids g" "edge_rel g' = edge_rel g"
proof -
  have "set (map fst (nodes g')) = set (map fst (nodes g))"
    using same_nodes_get[OF assms(1)] by simp
  then show ids: "dag_ids g' = dag_ids g" by (simp add: dag_ids_keys)
  have "a \<in> set (node_deps g' b) \<longleftrightarrow> a \<in> set (node_deps g b)" if "a \<in> dag_ids g" for a b
  proof -
    have "a \<noteq> []" using that assms(2) by auto
    then show ?thesis using same_nodes_get[OF assms(1), of b]
      by (auto simp: node_deps_def same_node_def split: option.splits)
  qed
  then have "predecessors g' b = predecessors g b" for b
    by (auto simp: predecessors_iff ids)
  then show "edge_rel g' = edge_rel g" by (auto simp: edge_rel_def)
qed

lemma canonical_steps: "canonicalize d = Inr c \<Longrightarrow> \<exists>s. canonicalize_steps (obj_get d ''steps'') = Inr s \<and> obj_get c ''steps'' = s"
  by (auto simp: canonicalize_def rbind_Inr_iff obj_get_def simp del: canonicalize_steps.simps)

lemma planned_definition:
  assumes b: "build_dag r (JObj d) = Inr g" and c: "canonicalize d = Inr c"
  obtains g' where "dag_from_definition c = Some g'" "list_all2 same_node (nodes g) (nodes g')"
    "dag_ids g' = dag_ids g" "edge_rel g' = edge_rel g" "acyclic (edge_rel g)"
proof -
  obtain raw where raw: "obj_get d ''steps'' = JNull \<and> raw = [] \<or> obj_get d ''steps'' = JList raw"
    and wf: "\<forall>s \<in> set raw. well_formed_step s"
    and ns: "nodes g = map (\<lambda>s. node_of_step (the (the_obj s))) raw" and ok: "dag_ok g"
    and nodes: "\<forall>(sid, n) \<in> set (nodes g). node_ok sid n"
    and ac: "acyclic (edge_rel g)"
    using b by (elim build_dag_Inr) blast
  have "\<exists>js. JList js = obj_get c ''steps'' \<and> mapiM_r 0 canonicalize_step raw = Inr js"
    using canonical_steps[OF c] raw by (auto simp: rbind_Inr_iff)
  then obtain js where js: "obj_get c ''steps'' = JList js" "mapiM_r 0 canonicalize_step raw = Inr js" by metis
  obtain qs where qs: "definition_nodes js [] = Some qs" "list_all2 same_node (nodes g) qs"
    using definition_nodes_fresh[OF steps_agree[OF js(2) wf], of "[]"] ok by (auto simp: ns dag_ok_def)
  define g' where "g' = \<lparr>nodes = qs, edges = dag_edges qs\<rparr>"
  have "[] \<notin> dag_ids g" using nodes by (auto simp flip: dag_ids_keys simp: node_ok_def)
  then show thesis using same_nodes_edges[of g g'] qs js(1) ac
    by (intro that[of g']) (simp_all add: g'_def dag_from_definition_def)
qed

section \<open>A planned definition as a run\<close>

lemma start_planned:
  assumes ok: "exec_ok cfg u S" and uuid: "uuid_ok u"
    and b: "build_dag r (JObj d) = Inr g" and c: "canonicalize d = Inr c"
    and stored: "load_definition did S = Inr c"
  shows "\<exists>S'. start_run cfg u did ovr S = Inr (u (ex_fresh S), S') \<and>
    run_st (ex_db S') (u (ex_fresh S)) = Some RPending \<and>
    (\<forall>t. step_st (ex_db S') (u (ex_fresh S)) t = (if t \<in> dag_ids g then Some SPending else None)) \<and>
    edge_rel (load_dag (ex_db S') (u (ex_fresh S))) = edge_rel g"
proof -
  obtain g' where g': "dag_from_definition c = Some g'" "dag_ids g' = dag_ids g" "edge_rel g' = edge_rel g"
    using planned_definition[OF b c] .
  obtain S' where S': "start_run cfg u did ovr S = Inr (u (ex_fresh S), S')"
    "ex_db S' = post (u (ex_fresh S)) ''run.created'' ''workflow run created'' None
        [(''definition_id'', JStr did), (''state'', JStr (run_value RPending))]
        (insert_run (u (ex_fresh S)) did (resolve_limit cfg c ovr) g' (ex_db S))"
    using g'(1) stored by (simp add: start_run_def Let_def)
  note L = load_insert_run[OF fresh_run(1)[OF ok uuid] fresh_run(2)[OF ok uuid] conjunct1[OF dag_from_definition_wf[OF g'(1)]]
    refl, where did = did and lmt = "resolve_limit cfg c ovr"]
  let ?db = "insert_run (u (ex_fresh S)) did (resolve_limit cfg c ovr) g' (ex_db S)"
  have "dag_ids (load_dag ?db (u (ex_fresh S))) = dag_ids g'"
    "edge_rel (load_dag ?db (u (ex_fresh S))) = edge_rel g'"
    using L(4) by (simp_all add: edge_rel_def predecessors_def node_deps_def flip: dag_ids_keys)
  moreover have "map_option sr_state (load_step ?db (u (ex_fresh S)) t) = (if t \<in> dag_ids g then Some SPending else None)" for t
    using L(2)[of "u (ex_fresh S)" t] map_of_nodes_None[of g' t] g'(2)
    by (cases "map_of (nodes g') t") (simp_all add: new_step_row_def)
  moreover have "run_st ?db (u (ex_fresh S)) = Some RPending" using L(1) by (simp add: run_st_def)
  ultimately show ?thesis using S' g'(3)
    by (intro exI[of _ S']) (simp add: run_st_def step_st_def load_dag_def run_steps_def)
qed

end
