(* ===== verification/Py_Text.thy ===== *)
theory Py_Text
  imports Json
begin

text \<open>
  \<open>repr\<close> and \<open>str\<close> of the values the program passes around, over the first 256 code points. The
  argument \<open>fl\<close> gives the text of a float.
\<close>

definition hex_char :: "nat \<Rightarrow> char" where
  "hex_char n = (if n < 10 then char_of (48 + n) else char_of (87 + n))"

definition unprintable :: "char \<Rightarrow> bool" where
  "unprintable c \<longleftrightarrow> code c < 32 \<or> 127 \<le> code c \<and> code c \<le> 160 \<or> code c = 173"

definition repr_char :: "char \<Rightarrow> char \<Rightarrow> string" where
  "repr_char q c =
     (if c = q \<or> c = CHR 0x5C then [CHR 0x5C, c]
      else if code c = 9 then [CHR 0x5C, CHR ''t'']
      else if code c = 10 then [CHR 0x5C, CHR ''n'']
      else if code c = 13 then [CHR 0x5C, CHR ''r'']
      else if unprintable c then [CHR 0x5C, CHR ''x'', hex_char (code c div 16), hex_char (code c mod 16)]
      else [c])"

definition repr_quote :: "string \<Rightarrow> char" where
  "repr_quote s = (if CHR 0x27 \<in> set s \<and> CHR 0x22 \<notin> set s then CHR 0x22 else CHR 0x27)"

definition repr_str :: "string \<Rightarrow> string" where
  "repr_str s = repr_quote s # concat (map (repr_char (repr_quote s)) s) @ [repr_quote s]"

fun py_repr :: "(rat \<Rightarrow> string) \<Rightarrow> json \<Rightarrow> string" where
  "py_repr fl JNull = ''None''"
| "py_repr fl (JBool b) = (if b then ''True'' else ''False'')"
| "py_repr fl (JInt i) = int_str i"
| "py_repr fl (JFloat r) = fl r"
| "py_repr fl (JStr s) = repr_str s"
| "py_repr fl (JList xs) = ''['' @ str_join '', '' (map (py_repr fl) xs) @ '']''"
| "py_repr fl (JObj d) = ''{'' @ str_join '', '' (map (\<lambda>(k, v). repr_str k @ '': '' @ py_repr fl v) d) @ ''}''"

definition py_str :: "(rat \<Rightarrow> string) \<Rightarrow> json \<Rightarrow> string" where
  "py_str fl v = (case v of JStr s \<Rightarrow> s | _ \<Rightarrow> py_repr fl v)"

text \<open>\<open>isinstance(v, int)\<close>, which also holds of \<open>True\<close> and \<open>False\<close>.\<close>

fun as_int :: "json \<Rightarrow> int option" where
  "as_int (JInt i) = Some i"
| "as_int (JBool b) = Some (if b then 1 else 0)"
| "as_int _ = None"

text \<open>
  \<open>int(s)\<close>: surrounding space, a sign, and decimal digits in groups separated by single underscores,
  at most 4300 of them. \<open>None\<close> is the \<open>ValueError\<close>.
\<close>

definition py_digits :: "string \<Rightarrow> nat option" where
  "py_digits s =
     (let gs = str_split_on (CHR ''_'') s; ds = concat gs in
      if [] \<notin> set gs \<and> list_all is_decimal ds \<and> length ds \<le> 4300 then Some (nat_of_digits ds) else None)"

definition py_int :: "string \<Rightarrow> int option" where
  "py_int raw =
     (case str_strip raw of
        [] \<Rightarrow> None
      | c # cs \<Rightarrow> if c = CHR ''-'' then map_option (\<lambda>n. - int n) (py_digits cs)
                  else if c = CHR ''+'' then map_option int (py_digits cs)
                  else map_option int (py_digits (c # cs)))"

text \<open>\<open>len(s.encode("utf-8"))\<close> on the first 256 code points.\<close>

definition utf8_size :: "string \<Rightarrow> nat" where
  "utf8_size s = sum_list (map (\<lambda>c. if code c < 128 then 1 else 2) s)"

text \<open>The text of a string is a quoted line: it has no line break and no bare quote.\<close>

lemma hex_char_code: "n < 16 \<Longrightarrow> code (hex_char n) = (if n < 10 then 48 + n else 87 + n)"
  by (simp add: hex_char_def code_def)

lemma repr_str_one_line: "c \<in> set (repr_str s) \<Longrightarrow> code c \<noteq> 10 \<and> code c \<noteq> 13"
proof -
  assume "c \<in> set (repr_str s)"
  then consider "c = repr_quote s" | d where "d \<in> set s" "c \<in> set (repr_char (repr_quote s) d)"
    by (auto simp: repr_str_def)
  then show ?thesis
  proof cases
    case 1
    then show ?thesis by (auto simp: repr_quote_def code_def)
  next
    case 2
    have h: "code (hex_char (code d div 16)) \<ge> 48" "code (hex_char (code d mod 16)) \<ge> 48"
    proof -
      have "code d div 16 < 16" using code_less[of d] by linarith
      then show "code (hex_char (code d div 16)) \<ge> 48" by (simp add: hex_char_code)
      show "code (hex_char (code d mod 16)) \<ge> 48" by (simp add: hex_char_code)
    qed
    have q: "code (repr_quote s) = 34 \<or> code (repr_quote s) = 39" by (simp add: repr_quote_def code_def)
    have lits: "code (CHR 0x5C) = 92" "code (CHR ''t'') = 116" "code (CHR ''n'') = 110" "code (CHR ''r'') = 114"
      "code (CHR ''x'') = 120" by (simp_all add: code_def)
    show ?thesis using 2(2) h q lits
      by (auto simp: repr_char_def unprintable_def split: if_splits)
  qed
qed

end
