(* ===== verification/Memory.thy ===== *)
theory Memory
  imports Py_Text "HOL-Library.Multiset"
begin

text \<open>
  \<open>core/memory_store.py\<close>: the memory entries and the bound on their total sz. The table is the list
  of its rows in the order of insertion; ids and times are arguments (\<open>uuid4\<close>, \<open>now_iso\<close>).
\<close>

section \<open>State\<close>

record mem_row =
  me_id :: string
  me_category :: string
  me_content :: string
  me_size :: nat
  me_created :: string
  me_updated :: string

datatype overflow = Evict_oldest | Reject

record mem_config =
  mc_limit :: nat
  mc_overflow :: overflow

datatype mem_error =
    Too_large nat nat
  | Would_overflow nat nat nat
  | No_room nat nat
  | Duplicate_entry string
  | No_entry string
  | Still_present string

definition default_max_total_bytes :: nat where "default_max_total_bytes = 64 * 1024"

text \<open>\<open>raw\<close> is the variable \<open>VLOOP_MEMORY_MAX_BYTES\<close>, empty when unset.\<close>

definition resolve_max_bytes :: "string \<Rightarrow> nat" where
  "resolve_max_bytes raw =
     (if str_strip raw = [] then default_max_total_bytes
      else (case py_int (str_strip raw) of
              None \<Rightarrow> default_max_total_bytes
            | Some v \<Rightarrow> if 0 \<le> v then nat v else default_max_total_bytes))"

text \<open>The constructor: a negative bound and an unknown strategy are refused.\<close>

definition new_memory :: "string \<Rightarrow> int option \<Rightarrow> string \<Rightarrow> string + mem_config" where
  "new_memory env max_total on_overflow =
     (let m = (case max_total of None \<Rightarrow> int (resolve_max_bytes env) | Some i \<Rightarrow> i) in
      if m < 0 then Inl ''max_total_bytes must be non-negative''
      else if on_overflow = ''evict_oldest'' then Inr \<lparr>mc_limit = nat m, mc_overflow = Evict_oldest\<rparr>
      else if on_overflow = ''reject'' then Inr \<lparr>mc_limit = nat m, mc_overflow = Reject\<rparr>
      else Inl (''unknown overflow strategy: '' @ on_overflow))"

section \<open>Operations\<close>

definition content_size :: "string \<Rightarrow> nat" where "content_size c = utf8_size c"

definition total_size :: "mem_row list \<Rightarrow> nat" where
  "total_size rows = sum_list (map me_size rows)"

text \<open>\<open>ORDER BY created_at ASC, id ASC\<close>.\<close>

definition oldest_first :: "mem_row list \<Rightarrow> mem_row list" where
  "oldest_first rows = sort_key me_created (sort_key me_id rows)"

definition delete_row :: "string \<Rightarrow> mem_row list \<Rightarrow> mem_row list" where
  "delete_row i rows = filter (\<lambda>r. me_id r \<noteq> i) rows"

fun evict :: "nat \<Rightarrow> nat \<Rightarrow> string list \<Rightarrow> mem_row list \<Rightarrow> mem_row list" where
  "evict lmt sz [] rows = rows"
| "evict lmt sz (i # is) rows =
     (if total_size rows + sz \<le> lmt then rows else evict lmt sz is (delete_row i rows))"

definition make_room_for :: "mem_config \<Rightarrow> nat \<Rightarrow> mem_row list \<Rightarrow> mem_error + mem_row list" where
  "make_room_for cfg sz rows =
     (if total_size rows + sz \<le> mc_limit cfg then Inr rows
      else if mc_overflow cfg = Reject then Inl (Would_overflow sz (mc_limit cfg) (total_size rows))
      else let rows' = evict (mc_limit cfg) sz (map me_id (oldest_first rows)) rows in
           if mc_limit cfg < total_size rows' + sz then Inl (No_room sz (mc_limit cfg)) else Inr rows')"

text \<open>\<open>record\<close>: the error leaves the rows that curation has left, so they are part of the result.\<close>

definition record_entry ::
  "mem_config \<Rightarrow> string \<Rightarrow> string \<Rightarrow> string \<Rightarrow> string \<Rightarrow> mem_row list \<Rightarrow> (mem_error + mem_row) \<times> mem_row list" where
  "record_entry cfg content category new_id now rows =
     (let sz = content_size content in
      if mc_limit cfg < sz then (Inl (Too_large sz (mc_limit cfg)), rows)
      else (case make_room_for cfg sz rows of
              Inl e \<Rightarrow> (Inl e, rows)
            | Inr rows' \<Rightarrow>
                if new_id \<in> set (map me_id rows') then (Inl (Duplicate_entry new_id), rows')
                else let r = \<lparr>me_id = new_id, me_category = category, me_content = content, me_size = sz,
                              me_created = now, me_updated = now\<rparr>
                     in (Inr r, rows' @ [r])))"

definition list_entries :: "string option \<Rightarrow> mem_row list \<Rightarrow> mem_row list" where
  "list_entries cat rows =
     (case cat of None \<Rightarrow> oldest_first rows
      | Some c \<Rightarrow> oldest_first (filter (\<lambda>r. me_category r = c) rows))"

definition get_entry :: "string \<Rightarrow> mem_row list \<Rightarrow> mem_row option" where
  "get_entry i rows = find (\<lambda>r. me_id r = i) rows"

definition delete_entry :: "string \<Rightarrow> mem_row list \<Rightarrow> mem_error + mem_row list" where
  "delete_entry i rows =
     (case get_entry i rows of
        None \<Rightarrow> Inl (No_entry i)
      | Some _ \<Rightarrow> let rows' = delete_row i rows in
          (case get_entry i rows' of Some _ \<Rightarrow> Inl (Still_present i) | None \<Rightarrow> Inr rows'))"

section \<open>The table stays within the bound\<close>

definition store_ok :: "mem_config \<Rightarrow> mem_row list \<Rightarrow> bool" where
  "store_ok cfg rows \<longleftrightarrow> distinct (map me_id rows) \<and> (\<forall>r \<in> set rows. me_size r = content_size (me_content r)) \<and>
     total_size rows \<le> mc_limit cfg"

lemma oldest_first_mset [simp]: "mset (oldest_first rows) = mset rows"
  by (simp add: oldest_first_def)

lemma oldest_first_set [simp]: "set (oldest_first rows) = set rows"
  by (metis oldest_first_mset set_mset_mset)

lemma total_oldest_first [simp]: "total_size (oldest_first rows) = total_size rows"
proof -
  have "mset (map me_size (oldest_first rows)) = mset (map me_size rows)" by simp
  then show ?thesis unfolding total_size_def by (metis sum_mset_sum_list)
qed

lemma distinct_oldest_first [simp]: "distinct (map me_id (oldest_first rows)) = distinct (map me_id rows)"
proof -
  have "mset (map me_id (oldest_first rows)) = mset (map me_id rows)" by simp
  then show ?thesis by (rule mset_eq_imp_distinct_iff)
qed

lemma oldest_first_delete: "oldest_first (delete_row i rows) = delete_row i (oldest_first rows)"
  by (simp add: oldest_first_def delete_row_def filter_sort)

lemma total_delete: "total_size (delete_row i rows) \<le> total_size rows"
  by (induction rows) (auto simp: total_size_def delete_row_def)

text \<open>The entries that go are the oldest, and no more of them than needed.\<close>

lemma evict_result:
  assumes "distinct (map me_id rows)" "oldest_first rows = vs"
  shows "\<exists>k. oldest_first (evict lmt sz (map me_id vs) rows) = drop k vs \<and>
    (\<forall>j < k. lmt < total_size (drop j vs) + sz) \<and>
    (total_size (drop k vs) + sz \<le> lmt \<or> length vs \<le> k) \<and>
    evict lmt sz (map me_id vs) rows = filter (\<lambda>r. r \<in> set (drop k vs)) rows"
  using assms
proof (induction vs arbitrary: rows)
  case Nil
  then have "set rows = {}" using oldest_first_set[of rows] by simp
  then show ?case by (intro exI[of _ 0]) (simp add: oldest_first_def)
next
  case (Cons v vs)
  have tot: "total_size rows = total_size (v # vs)" using Cons.prems(2) total_oldest_first[of rows] by simp
  have mem: "set rows = set (v # vs)" using oldest_first_set[of rows] Cons.prems(2) by simp
  show ?case
  proof (cases "total_size rows + sz \<le> lmt")
    case True
    have "filter (\<lambda>r. r \<in> set (v # vs)) rows = rows" using mem by (intro filter_True) blast
    then show ?thesis using True Cons.prems(2) tot by (intro exI[of _ 0]) simp
  next
    case False
    have d: "distinct (map me_id (v # vs))" using Cons.prems by (metis distinct_oldest_first)
    have "delete_row (me_id v) (v # vs) = vs"
    proof -
      have "\<forall>x \<in> set vs. me_id x \<noteq> me_id v" using d by (force simp: image_iff)
      then show ?thesis by (simp add: delete_row_def filter_id_conv)
    qed
    then have of: "oldest_first (delete_row (me_id v) rows) = vs"
      using Cons.prems(2) by (simp add: oldest_first_delete)
    have dd: "distinct (map me_id (delete_row (me_id v) rows))"
      using Cons.prems(1) by (simp add: delete_row_def distinct_map_filter)
    obtain k where k: "oldest_first (evict lmt sz (map me_id vs) (delete_row (me_id v) rows)) = drop k vs"
      "\<forall>j < k. lmt < total_size (drop j vs) + sz"
      "total_size (drop k vs) + sz \<le> lmt \<or> length vs \<le> k"
      "evict lmt sz (map me_id vs) (delete_row (me_id v) rows) =
         filter (\<lambda>r. r \<in> set (drop k vs)) (delete_row (me_id v) rows)"
      using Cons.IH[OF dd of] by blast
    have f: "filter (\<lambda>r. r \<in> set (drop k vs)) (delete_row (me_id v) rows) = filter (\<lambda>r. r \<in> set (drop k vs)) rows"
    proof -
      have "me_id r \<noteq> me_id v" if "r \<in> set (drop k vs)" for r
        using d in_set_dropD[OF that] by (force simp: image_iff)
      then show ?thesis by (auto simp: delete_row_def intro: filter_cong)
    qed
    have "\<forall>j < Suc k. lmt < total_size (drop j (v # vs)) + sz"
    proof (intro allI impI)
      fix j assume "j < Suc k"
      then show "lmt < total_size (drop j (v # vs)) + sz" using k(2) False tot by (cases j) auto
    qed
    then show ?thesis using False k f by (intro exI[of _ "Suc k"]) simp
  qed
qed

lemma make_room_ok:
  assumes ok: "distinct (map me_id rows)" and fits: "sz \<le> mc_limit cfg" and m: "mc_overflow cfg = Evict_oldest"
  shows "\<exists>k rows'. make_room_for cfg sz rows = Inr rows' \<and> oldest_first rows' = drop k (oldest_first rows) \<and>
    total_size rows' + sz \<le> mc_limit cfg \<and> set rows' \<subseteq> set rows \<and> distinct (map me_id rows') \<and>
    (\<forall>j < k. mc_limit cfg < total_size (drop j (oldest_first rows)) + sz)"
proof (cases "total_size rows + sz \<le> mc_limit cfg")
  case True
  then show ?thesis using ok by (intro exI[of _ 0] exI[of _ rows]) (simp add: make_room_for_def)
next
  case False
  let ?vs = "oldest_first rows"
  define rows' where "rows' = evict (mc_limit cfg) sz (map me_id ?vs) rows"
  obtain k where k: "oldest_first rows' = drop k ?vs" "\<forall>j < k. mc_limit cfg < total_size (drop j ?vs) + sz"
    "total_size (drop k ?vs) + sz \<le> mc_limit cfg \<or> length ?vs \<le> k" "rows' = filter (\<lambda>r. r \<in> set (drop k ?vs)) rows"
    using evict_result[OF ok refl, of "mc_limit cfg" sz] unfolding rows'_def by blast
  have t: "total_size rows' = total_size (drop k ?vs)" using k(1) total_oldest_first[of rows'] by simp
  have le: "total_size rows' + sz \<le> mc_limit cfg"
    using k(3) fits t by (auto simp: total_size_def)
  have d: "distinct (map me_id rows')" unfolding k(4) using ok by (rule distinct_map_filter)
  have s: "set rows' \<subseteq> set rows" unfolding k(4) by auto
  have "make_room_for cfg sz rows = Inr rows'"
    using False m le by (simp add: make_room_for_def Let_def rows'_def)
  then show ?thesis using k(1,2) le d s by blast
qed

lemma record_ok:
  assumes ok: "store_ok cfg rows" and r: "record_entry cfg content category i now rows = (res, rows')"
  shows "store_ok cfg rows'"
proof (cases "mc_limit cfg < content_size content")
  case True
  then show ?thesis using ok r by (auto simp: record_entry_def Let_def)
next
  case False
  show ?thesis
  proof (cases "make_room_for cfg (content_size content) rows")
    case (Inl e)
    then show ?thesis using ok r False by (auto simp: record_entry_def Let_def)
  next
    case (Inr rows1)
    have m: "total_size rows1 + content_size content \<le> mc_limit cfg \<and> set rows1 \<subseteq> set rows \<and> distinct (map me_id rows1)"
    proof (cases "mc_overflow cfg")
      case Evict_oldest
      then show ?thesis using make_room_ok[of rows "content_size content" cfg] ok False Inr
        by (auto simp: store_ok_def)
    next
      case Reject
      then show ?thesis using Inr ok by (auto simp: make_room_for_def store_ok_def split: if_splits)
    qed
    have "rows' = rows1 \<or> i \<notin> set (map me_id rows1) \<and> rows' = rows1 @ [\<lparr>me_id = i, me_category = category,
        me_content = content, me_size = content_size content, me_created = now, me_updated = now\<rparr>]"
      using r False Inr by (auto simp: record_entry_def Let_def split: if_splits)
    moreover have "\<forall>r \<in> set rows1. me_size r = content_size (me_content r)"
      using m ok unfolding store_ok_def by blast
    ultimately show ?thesis using m by (auto simp: store_ok_def total_size_def)
  qed
qed

text \<open>With eviction an entry that fits the bound alone is stored whatever the table holds.\<close>

lemma record_evicts:
  assumes ok: "store_ok cfg rows" and m: "mc_overflow cfg = Evict_oldest"
    and fits: "content_size content \<le> mc_limit cfg" and new: "i \<notin> set (map me_id rows)"
  shows "\<exists>k r. record_entry cfg content category i now rows =
      (Inr r, filter (\<lambda>r. r \<in> set (drop k (oldest_first rows))) rows @ [r]) \<and> me_content r = content \<and>
    (\<forall>j < k. mc_limit cfg < total_size (drop j (oldest_first rows)) + content_size content)"
proof -
  have d: "distinct (map me_id rows)" using ok by (simp add: store_ok_def)
  obtain rows' where r: "make_room_for cfg (content_size content) rows = Inr rows'" "set rows' \<subseteq> set rows"
    using make_room_ok[OF d fits m] by blast
  have "\<exists>k. rows' = filter (\<lambda>r. r \<in> set (drop k (oldest_first rows))) rows \<and>
      (\<forall>j < k. mc_limit cfg < total_size (drop j (oldest_first rows)) + content_size content)"
  proof (cases "total_size rows + content_size content \<le> mc_limit cfg")
    case True
    then show ?thesis using r(1) by (intro exI[of _ 0]) (simp add: make_room_for_def)
  next
    case False
    then have "rows' = evict (mc_limit cfg) (content_size content) (map me_id (oldest_first rows)) rows"
      using r(1) m by (auto simp: make_room_for_def Let_def split: if_splits)
    then show ?thesis using evict_result[OF d refl, of "mc_limit cfg" "content_size content"] by blast
  qed
  moreover have "i \<notin> set (map me_id rows')" using r(2) new by auto
  ultimately show ?thesis using r(1) fits by (auto simp: record_entry_def Let_def)
qed

lemma find_delete: "find (\<lambda>r. me_id r = j) (delete_row i rows) = (if j = i then None else find (\<lambda>r. me_id r = j) rows)"
  by (induction rows) (auto simp: delete_row_def)

lemma delete_result:
  "delete_entry i rows = (if get_entry i rows = None then Inl (No_entry i) else Inr (delete_row i rows))"
  by (simp add: delete_entry_def get_entry_def find_delete Let_def split: option.split)

lemma delete_ok: "store_ok cfg rows \<Longrightarrow> delete_entry i rows = Inr rows' \<Longrightarrow> store_ok cfg rows'"
  using total_delete[of i rows]
  by (auto simp: delete_result store_ok_def delete_row_def distinct_map_filter split: if_splits)

end
