(* ===== verification/Checkpoints.thy ===== *)
theory Checkpoints
  imports Py_Text
begin

text \<open>
  \<open>core/checkpoint_manager.py\<close>: checkpoints of a workspace taken by the kernel before a mutation and
  restored on a rollback. The kernel is an argument: two functions over a state of its own that return
  a value or the text of the exception. The table is the list of its rows in the order of insertion.
\<close>

record checkpoint =
  ck_id :: string
  ck_run :: string
  ck_workspace :: string
  ck_ref :: string
  ck_created :: string

record 'k kernel_port =
  kp_snapshot :: "string \<Rightarrow> 'k \<Rightarrow> (string + json) \<times> 'k"
  kp_restore :: "string \<Rightarrow> string \<Rightarrow> 'k \<Rightarrow> (string + unit) \<times> 'k"

datatype checkpoint_error =
    Ck_value string
  | Ck_snapshot_failed string string string
  | Ck_no_reference string string
  | Ck_duplicate string
  | Ck_unknown string
  | Ck_restore_failed string string string

section \<open>Operations\<close>

definition get_checkpoint :: "string \<Rightarrow> checkpoint list \<Rightarrow> checkpoint option" where
  "get_checkpoint i rows = (if i = [] then None else find (\<lambda>c. ck_id c = i) rows)"

text \<open>The result, the kernel and the table afterwards; \<open>new_id\<close> is the caller's id or a fresh \<open>uuid4\<close>.\<close>

definition snapshot_before_mutation ::
  "'k kernel_port \<Rightarrow> string \<Rightarrow> string \<Rightarrow> string \<Rightarrow> string \<Rightarrow> 'k \<Rightarrow> checkpoint list \<Rightarrow>
    (checkpoint_error + checkpoint) \<times> 'k \<times> checkpoint list" where
  "snapshot_before_mutation port run ws new_id now k rows =
     (if run = [] then (Inl (Ck_value ''run_id is required to record a checkpoint''), k, rows)
      else if ws = [] then (Inl (Ck_value ''workspace_id is required to snapshot a workspace''), k, rows)
      else (case kp_snapshot port ws k of
         (Inl e, k') \<Rightarrow> (Inl (Ck_snapshot_failed ws run e), k', rows)
       | (Inr v, k') \<Rightarrow>
           (case v of
              JStr ref \<Rightarrow>
                if ref = [] then (Inl (Ck_no_reference run ws), k', rows)
                else if new_id \<in> set (map ck_id rows) then (Inl (Ck_duplicate new_id), k', rows)
                else let c = \<lparr>ck_id = new_id, ck_run = run, ck_workspace = ws, ck_ref = ref, ck_created = now\<rparr>
                     in (Inr c, k', rows @ [c])
            | _ \<Rightarrow> (Inl (Ck_no_reference run ws), k', rows))))"

definition restore_checkpoint ::
  "'k kernel_port \<Rightarrow> string \<Rightarrow> 'k \<Rightarrow> checkpoint list \<Rightarrow> (checkpoint_error + checkpoint) \<times> 'k" where
  "restore_checkpoint port i k rows =
     (if i = [] then (Inl (Ck_value ''checkpoint_id is required to restore a checkpoint''), k)
      else (case get_checkpoint i rows of
        None \<Rightarrow> (Inl (Ck_unknown i), k)
      | Some c \<Rightarrow>
          (case kp_restore port (ck_workspace c) (ck_ref c) k of
             (Inl e, k') \<Rightarrow> (Inl (Ck_restore_failed i (ck_workspace c) e), k')
           | (Inr _, k') \<Rightarrow> (Inr c, k'))))"

definition list_checkpoints :: "string \<Rightarrow> checkpoint list \<Rightarrow> checkpoint_error + checkpoint list" where
  "list_checkpoints run rows =
     (if run = [] then Inl (Ck_value ''run_id is required to list checkpoints'')
      else Inr (sort_key ck_created (sort_key ck_id (filter (\<lambda>c. ck_run c = run) rows))))"

section \<open>Lemmas\<close>

text \<open>Every row stands for a snapshot of the kernel: its ids and its reference are not empty.\<close>

definition checkpoints_ok :: "checkpoint list \<Rightarrow> bool" where
  "checkpoints_ok rows \<longleftrightarrow> distinct (map ck_id rows) \<and>
     (\<forall>c \<in> set rows. ck_run c \<noteq> [] \<and> ck_workspace c \<noteq> [] \<and> ck_ref c \<noteq> [])"

lemma snapshot_cases:
  assumes "snapshot_before_mutation port run ws i now k rows = (res, k', rows')"
  shows "(\<exists>e. res = Inl e \<and> rows' = rows) \<or>
    (\<exists>c ref. res = Inr c \<and> rows' = rows @ [c] \<and> kp_snapshot port ws k = (Inr (JStr ref), k') \<and> ref \<noteq> [] \<and>
       run \<noteq> [] \<and> ws \<noteq> [] \<and> i \<notin> set (map ck_id rows) \<and>
       c = \<lparr>ck_id = i, ck_run = run, ck_workspace = ws, ck_ref = ref, ck_created = now\<rparr>)"
  using assms
  by (auto simp: snapshot_before_mutation_def Let_def split: if_splits prod.splits sum.splits json.splits)

lemma snapshot_ok:
  "checkpoints_ok rows \<Longrightarrow> snapshot_before_mutation port run ws i now k rows = (res, k', rows') \<Longrightarrow> checkpoints_ok rows'"
  using snapshot_cases[of port run ws i now k rows res k' rows'] by (auto simp: checkpoints_ok_def)

lemma find_new: "i \<notin> set (map ck_id rows) \<Longrightarrow> ck_id c = i \<Longrightarrow> find (\<lambda>c. ck_id c = i) (rows @ [c]) = Some c"
  by (induction rows) auto

text \<open>A restore hands the kernel the workspace and the reference the snapshot was recorded with.\<close>

lemma restore_after_snapshot:
  assumes "snapshot_before_mutation port run ws i now k rows = (Inr c, k', rows')" "i \<noteq> []"
  shows "restore_checkpoint port i k'' rows' =
    (case kp_restore port ws (ck_ref c) k'' of
       (Inl e, k3) \<Rightarrow> (Inl (Ck_restore_failed i ws e), k3) | (Inr _, k3) \<Rightarrow> (Inr c, k3))"
proof -
  obtain ref where c: "rows' = rows @ [c]" "i \<notin> set (map ck_id rows)"
    "c = \<lparr>ck_id = i, ck_run = run, ck_workspace = ws, ck_ref = ref, ck_created = now\<rparr>"
    using snapshot_cases[OF assms(1)] by auto
  have "get_checkpoint i rows' = Some c" using find_new[OF c(2), of c] assms(2) c by (simp add: get_checkpoint_def)
  then show ?thesis using assms(2) c(3) by (simp add: restore_checkpoint_def split: prod.split sum.split)
qed

end
