(* ===== verification/Provider_Router.thy ===== *)
theory Provider_Router
  imports Orch_Types "HOL-Library.Multiset"
begin

text \<open>
  \<open>core/provider_router.py\<close>: the order in which the gateway tries the providers. Metrics are exact
  rationals; the snapshot is a dictionary by provider id.
\<close>

record provider_metrics =
  pm_available :: bool
  pm_cost :: rat
  pm_latency :: rat
  pm_quality :: rat

type_synonym provider_health = "(string, provider_metrics) dict"

definition neutral_metrics :: provider_metrics where
  "neutral_metrics = \<lparr>pm_available = True, pm_cost = 0, pm_latency = 0, pm_quality = 0\<rparr>"

definition metrics_for :: "provider_health \<Rightarrow> string \<Rightarrow> provider_metrics" where
  "metrics_for h p = dict_get_or h p neutral_metrics"

definition provider_available :: "provider_health \<Rightarrow> string \<Rightarrow> bool" where
  "provider_available h p = pm_available (metrics_for h p)"

definition valid_preferences :: "string set" where
  "valid_preferences = {''cost'', ''speed'', ''quality''}"

definition preference_key :: "string \<Rightarrow> provider_metrics \<Rightarrow> rat" where
  "preference_key pref m =
     (if pref = ''cost'' then pm_cost m else if pref = ''speed'' then pm_latency m else - pm_quality m)"

text \<open>The first occurrences, in order; \<open>seen\<close> is what was met before.\<close>

fun dedup :: "string set \<Rightarrow> string list \<Rightarrow> string list" where
  "dedup seen [] = []"
| "dedup seen (p # ps) = (if p \<in> seen then dedup seen ps else p # dedup (insert p seen) ps)"

definition select_universe :: "routing_policy \<Rightarrow> provider_health \<Rightarrow> string list" where
  "select_universe pol h = (if fallback_order pol \<noteq> [] then fallback_order pol else dict_keys h)"

definition select :: "routing_policy \<Rightarrow> provider_health \<Rightarrow> string list" where
  "select pol h =
     (let eligible = filter (provider_available h) (dedup {} (select_universe pol h)) in
      if preference pol \<in> valid_preferences
      then sort_key (\<lambda>p. preference_key (preference pol) (metrics_for h p)) eligible
      else eligible)"

section \<open>Lemmas\<close>

lemma dedup_set: "set (dedup seen ps) = set ps - seen"
  by (induction seen ps rule: dedup.induct) auto

lemma dedup_distinct: "distinct (dedup seen ps)"
  by (induction seen ps rule: dedup.induct) (auto simp: dedup_set)

lemma select_set: "set (select pol h) = {p \<in> set (select_universe pol h). provider_available h p}"
  by (auto simp: select_def Let_def dedup_set)

lemma select_distinct: "distinct (select pol h)"
  by (simp add: select_def Let_def dedup_distinct)

lemma select_sorted:
  "preference pol \<in> valid_preferences \<Longrightarrow>
    sorted (map (\<lambda>p. preference_key (preference pol) (metrics_for h p)) (select pol h))"
  by (simp add: select_def Let_def)

text \<open>Providers of the same metric keep the configured order.\<close>

lemma select_stable:
  assumes "preference pol \<in> valid_preferences"
  shows "filter (\<lambda>p. preference_key (preference pol) (metrics_for h p) = k) (select pol h) =
    filter (\<lambda>p. preference_key (preference pol) (metrics_for h p) = k)
      (filter (provider_available h) (dedup {} (select_universe pol h)))"
  using assms by (simp add: select_def Let_def sort_key_stable)

end
