(* ===== verification/Tools.thy ===== *)
theory Tools
  imports Orch_Types Events Py_Text
begin

text \<open>
  \<open>core/tool_registry.py\<close>: the catalog of tools, their availability, and the gate every invocation
  passes. A handler and the sandbox are functions over a state \<open>'w\<close> of the world outside; what they
  raise is a value. The log of the denials is the store of \<open>Events\<close>.
\<close>

section \<open>State\<close>

type_synonym 'w tool_handler = "(string \<times> json) list \<Rightarrow> 'w \<Rightarrow> (string + json) \<times> 'w"

datatype sandbox_outcome = Sandbox_output json | Sandbox_raised string | Sandbox_blocked string

type_synonym 'w sandbox = "tool_spec \<Rightarrow> (string \<times> json) list \<Rightarrow> run_scope option \<Rightarrow> 'w \<Rightarrow> sandbox_outcome \<times> 'w"

record 'w registry =
  tg_tools :: "(string, tool_spec) dict"
  tg_handlers :: "(string, 'w tool_handler) dict"
  tg_toolsets :: "(string, toolset_spec) dict"
  tg_unavailable :: "string set"
  tg_router :: bool
  tg_sandbox :: "'w sandbox option"

datatype tool_error = Empty_name string | Routing_blocked string

definition new_registry :: "bool \<Rightarrow> 'w sandbox option \<Rightarrow> 'w registry" where
  "new_registry router box = \<lparr>tg_tools = [], tg_handlers = [], tg_toolsets = [], tg_unavailable = {},
     tg_router = router, tg_sandbox = box\<rparr>"

section \<open>The catalog\<close>

definition register_tool :: "tool_spec \<Rightarrow> 'w tool_handler option \<Rightarrow> 'w registry \<Rightarrow> tool_error + 'w registry" where
  "register_tool t h R =
     (if ts_name t = [] then Inl (Empty_name ''a tool must have a non-empty name'')
      else Inr (R\<lparr>tg_tools := dict_set (ts_name t) t (tg_tools R),
                  tg_unavailable := tg_unavailable R - {ts_name t},
                  tg_handlers := (case h of None \<Rightarrow> tg_handlers R | Some f \<Rightarrow> dict_set (ts_name t) f (tg_handlers R))\<rparr>))"

definition register_toolset :: "toolset_spec \<Rightarrow> 'w registry \<Rightarrow> tool_error + 'w registry" where
  "register_toolset t R =
     (if set_id t = [] then Inl (Empty_name ''a toolset must have a non-empty id'')
      else Inr (R\<lparr>tg_toolsets := dict_set (set_id t) t (tg_toolsets R)\<rparr>))"

definition get_tool :: "'w registry \<Rightarrow> string \<Rightarrow> tool_spec option" where
  "get_tool R name = map_of (tg_tools R) name"

definition list_tools :: "'w registry \<Rightarrow> tool_spec list" where
  "list_tools R = map snd (tg_tools R)"

definition list_toolsets :: "'w registry \<Rightarrow> toolset_spec list" where
  "list_toolsets R = map snd (tg_toolsets R)"

definition tools_in_toolset :: "'w registry \<Rightarrow> string \<Rightarrow> tool_spec list" where
  "tools_in_toolset R s = filter (\<lambda>t. ts_toolset t = s) (list_tools R)"

definition set_tool_available :: "string \<Rightarrow> bool \<Rightarrow> 'w registry \<Rightarrow> 'w registry" where
  "set_tool_available name av R =
     (if \<not> dict_has (tg_tools R) name then R
      else if av then R\<lparr>tg_unavailable := tg_unavailable R - {name}\<rparr>
      else R\<lparr>tg_unavailable := insert name (tg_unavailable R)\<rparr>)"

definition is_available :: "'w registry \<Rightarrow> string \<Rightarrow> bool" where
  "is_available R name = (dict_has (tg_tools R) name \<and> name \<notin> tg_unavailable R)"

definition is_enabled :: "'w registry \<Rightarrow> string \<Rightarrow> tool_scope \<Rightarrow> bool" where
  "is_enabled R name sc =
     (case get_tool R name of None \<Rightarrow> False
      | Some t \<Rightarrow> if name \<in> tg_unavailable R then False else is_toolset_enabled sc (ts_toolset t))"

section \<open>Invocation\<close>

definition denial_event :: "string \<Rightarrow> string \<Rightarrow> string \<Rightarrow> event_input" where
  "denial_event name reason now =
     \<lparr>in_type = ''tool.denied'',
      in_message = ''tool '' @ repr_str name @ '' invocation denied: '' @ reason, in_step = None,
      in_payload = [(''tool'', JStr name), (''reason'', JStr reason)], in_now = now\<rparr>"

definition tool_outcome :: "string \<Rightarrow> bool \<Rightarrow> json option \<Rightarrow> string option \<Rightarrow> bool \<Rightarrow> bool \<Rightarrow> tool_result" where
  "tool_outcome name ok out err denied boxed = \<lparr>tr_tool_name = name, tr_ok = ok, tr_output = out,
     tr_error = err, tr_denied = denied, tr_sandboxed = boxed\<rparr>"

definition deny :: "'w registry \<Rightarrow> string \<Rightarrow> run_scope option \<Rightarrow> string \<Rightarrow> string \<Rightarrow> event_store \<Rightarrow> tool_result \<times> event_store" where
  "deny R name run reason now lg =
     (tool_outcome name False None (Some reason) True False,
      (case run of
         None \<Rightarrow> lg
       | Some rs \<Rightarrow> if tg_router R \<and> rs_run_id rs \<noteq> []
                    then (case put_event (rs_run_id rs) (denial_event name reason now) lg of None \<Rightarrow> lg | Some lg' \<Rightarrow> lg')
                    else lg))"

definition no_sandbox_message :: "string \<Rightarrow> string" where
  "no_sandbox_message name = ''tool '' @ repr_str name @ '' performs filesystem mutation or command execution and must run in a kernel-managed sandbox, but no sandbox executor is available; execution blocked with no host fallback''"

definition invoke_sandboxed ::
  "'w registry \<Rightarrow> tool_spec \<Rightarrow> (string \<times> json) list \<Rightarrow> run_scope option \<Rightarrow> 'w \<Rightarrow> (tool_error + tool_result) \<times> 'w" where
  "invoke_sandboxed R t args run w =
     (case tg_sandbox R of
        None \<Rightarrow> (Inl (Routing_blocked (no_sandbox_message (ts_name t))), w)
      | Some box \<Rightarrow>
          (case box t args run w of
             (Sandbox_blocked e, w') \<Rightarrow> (Inl (Routing_blocked e), w')
           | (Sandbox_raised e, w') \<Rightarrow> (Inr (tool_outcome (ts_name t) False None (Some e) False True), w')
           | (Sandbox_output v, w') \<Rightarrow> (Inr (tool_outcome (ts_name t) True (Some v) None False True), w')))"

definition invoke_in_process :: "'w registry \<Rightarrow> tool_spec \<Rightarrow> (string \<times> json) list \<Rightarrow> 'w \<Rightarrow> tool_result \<times> 'w" where
  "invoke_in_process R t args w =
     (case map_of (tg_handlers R) (ts_name t) of
        None \<Rightarrow> (tool_outcome (ts_name t) False None
                   (Some (''no handler registered for tool '' @ repr_str (ts_name t))) False False, w)
      | Some h \<Rightarrow>
          (case h args w of
             (Inl e, w') \<Rightarrow> (tool_outcome (ts_name t) False None (Some e) False False, w')
           | (Inr v, w') \<Rightarrow> (tool_outcome (ts_name t) True (Some v) None False False, w')))"

definition invoke ::
  "'w registry \<Rightarrow> string \<Rightarrow> (string \<times> json) list \<Rightarrow> tool_scope \<Rightarrow> run_scope option \<Rightarrow> string \<Rightarrow> 'w \<Rightarrow> event_store \<Rightarrow>
    (tool_error + tool_result) \<times> 'w \<times> event_store" where
  "invoke R name args sc run now w lg =
     (case get_tool R name of
        None \<Rightarrow> (case deny R name run ''tool is not registered'' now lg of (res, lg') \<Rightarrow> (Inr res, w, lg'))
      | Some t \<Rightarrow>
          if name \<in> tg_unavailable R then
            (case deny R name run ''tool is currently unavailable'' now lg of (res, lg') \<Rightarrow> (Inr res, w, lg'))
          else if \<not> is_toolset_enabled sc (ts_toolset t) then
            (case deny R name run (''toolset '' @ repr_str (ts_toolset t) @ '' is not enabled in the current scope'') now lg of
               (res, lg') \<Rightarrow> (Inr res, w, lg'))
          else if ts_mutating t then (case invoke_sandboxed R t args run w of (res, w') \<Rightarrow> (res, w', lg))
          else (case invoke_in_process R t args w of (res, w') \<Rightarrow> (Inr res, w', lg)))"

section \<open>Lemmas\<close>

text \<open>The catalog keeps every tool under its own name.\<close>

definition named_by_key :: "(string, tool_spec) dict \<Rightarrow> bool" where
  "named_by_key d \<longleftrightarrow> (\<forall>p \<in> set d. ts_name (snd p) = fst p \<and> fst p \<noteq> [])"

lemma named_by_key_set:
  assumes "named_by_key d" "ts_name t \<noteq> []"
  shows "named_by_key (dict_set (ts_name t) t d)"
proof -
  have "set (dict_set (ts_name t) t d) \<subseteq> insert (ts_name t, t) (set d)" by (induction d) auto
  then show ?thesis using assms unfolding named_by_key_def by fastforce
qed

definition registry_ok :: "'w registry \<Rightarrow> bool" where
  "registry_ok R \<longleftrightarrow> dict_ok (tg_tools R) \<and> named_by_key (tg_tools R) \<and>
     tg_unavailable R \<subseteq> set (dict_keys (tg_tools R))"

lemma new_registry_ok: "registry_ok (new_registry router box)"
  by (simp add: registry_ok_def new_registry_def named_by_key_def)

lemma register_tool_ok:
  assumes "registry_ok R" "register_tool t h R = Inr R'"
  shows "registry_ok R'"
  unfolding registry_ok_def
proof (intro conjI)
  have ne: "ts_name t \<noteq> []" and T: "tg_tools R' = dict_set (ts_name t) t (tg_tools R)"
    and U: "tg_unavailable R' = tg_unavailable R - {ts_name t}"
    using assms(2) by (auto simp: register_tool_def split: if_splits)
  show "dict_ok (tg_tools R')" using assms(1) by (simp add: registry_ok_def T)
  show "named_by_key (tg_tools R')" unfolding T using assms(1) ne by (intro named_by_key_set) (simp_all add: registry_ok_def)
  have "tg_unavailable R \<subseteq> set (dict_keys (tg_tools R))" using assms(1) unfolding registry_ok_def by blast
  then show "tg_unavailable R' \<subseteq> set (dict_keys (tg_tools R'))"
    unfolding T U dict_set_keys by blast
qed

lemma availability_ok: "registry_ok R \<Longrightarrow> registry_ok (set_tool_available name av R)"
  by (auto simp: registry_ok_def set_tool_available_def dict_has_iff)

lemma deny_denied: "tr_denied (fst (deny R name run reason now lg))"
  by (simp add: deny_def tool_outcome_def)

lemma invoke_disabled:
  assumes "\<not> is_enabled R name sc"
  shows "\<exists>reason. invoke R name args sc run now w lg =
    (Inr (tool_outcome name False None (Some reason) True False), w, snd (deny R name run reason now lg))"
proof -
  have d: "fst (deny R name run reason now lg) = tool_outcome name False None (Some reason) True False" for reason
    by (simp add: deny_def)
  have c: "(case deny R name run reason now lg of (res, lg') \<Rightarrow> (Inr res, w, lg')) =
      (Inr (tool_outcome name False None (Some reason) True False), w, snd (deny R name run reason now lg))" for reason
    using d[of reason] by (cases "deny R name run reason now lg") simp
  have "\<exists>reason. invoke R name args sc run now w lg =
      (case deny R name run reason now lg of (res, lg') \<Rightarrow> (Inr res, w, lg'))"
  proof (cases "get_tool R name")
    case None
    then show ?thesis by (intro exI[of _ "''tool is not registered''"]) (simp add: invoke_def)
  next
    case (Some t)
    show ?thesis
    proof (cases "name \<in> tg_unavailable R")
      case True
      then show ?thesis using Some by (intro exI[of _ "''tool is currently unavailable''"]) (simp add: invoke_def)
    next
      case False
      then have "\<not> is_toolset_enabled sc (ts_toolset t)" using assms Some by (simp add: is_enabled_def)
      then show ?thesis using Some False
        by (intro exI[of _ "''toolset '' @ repr_str (ts_toolset t) @ '' is not enabled in the current scope''"])
          (simp add: invoke_def)
    qed
  qed
  then show ?thesis unfolding c .
qed

lemma invoke_enabled:
  assumes "is_enabled R name sc"
  obtains t where "get_tool R name = Some t"
    "invoke R name args sc run now w lg =
      (if ts_mutating t then (case invoke_sandboxed R t args run w of (res, w') \<Rightarrow> (res, w', lg))
       else (case invoke_in_process R t args w of (res, w') \<Rightarrow> (Inr res, w', lg)))"
  using assms by (auto simp: is_enabled_def invoke_def split: option.splits if_splits)

lemma enabled_not_denied:
  assumes "is_enabled R name sc" "invoke R name args sc run now w lg = (Inr res, w', lg')"
  shows "\<not> tr_denied res" "lg' = lg"
proof -
  obtain t where t: "invoke R name args sc run now w lg =
      (if ts_mutating t then (case invoke_sandboxed R t args run w of (res, w') \<Rightarrow> (res, w', lg))
       else (case invoke_in_process R t args w of (res, w') \<Rightarrow> (Inr res, w', lg)))"
    using invoke_enabled[OF assms(1)] by blast
  show "\<not> tr_denied res" "lg' = lg" using assms(2) unfolding t
    by (auto simp: invoke_sandboxed_def invoke_in_process_def tool_outcome_def
        split: if_splits option.splits prod.splits sum.splits sandbox_outcome.splits)
qed

text \<open>A denial attributed to a run is the last event of its history, and of no other.\<close>

lemma denial_recorded:
  assumes ok: "log_ok lg" and "tg_router R" "rs_run_id rs \<noteq> []" "\<not> is_enabled R name sc"
    and inv: "invoke R name args sc (Some rs) now w lg = (res, w', lg')"
  shows "\<exists>e. history lg' q = (if q = rs_run_id rs then history lg q @ [e] else history lg q) \<and>
    ev_type e = ''tool.denied''"
proof -
  obtain reason where "lg' = snd (deny R name (Some rs) reason now lg)"
    using invoke_disabled[OF assms(4), of args "Some rs" now w lg] inv by auto
  moreover obtain lg'' where put: "put_event (rs_run_id rs) (denial_event name reason now) lg = Some lg''"
    using wlog.record_total[OF assms(3), of "denial_event name reason now" lg] by blast
  ultimately have "lg' = lg''" using assms(2,3) by (simp add: deny_def)
  then show ?thesis using wlog.record_read[OF ok put, of q] by (auto simp: event_fits_def denial_event_def)
qed

end
