(* ===== verification/Hooks.thy ===== *)
theory Hooks
  imports Events Py_Text
begin

text \<open>
  \<open>core/hook_manager.py\<close>: hooks on the lifecycle of a run. The action of a hook is a function over a
  state \<open>'w\<close> of the world outside; what it raises is a value. A hook that does not block is handed to a
  thread: \<open>pending\<close> is the list of those threads. \<open>now\<close> is \<open>now_iso()\<close>.
\<close>

section \<open>State\<close>

definition lifecycle_events :: "string list" where
  "lifecycle_events = [''run.created'', ''run.started'', ''run.completed'', ''run.failed'', ''run.cancelled'',
     ''step.ready'', ''step.started'', ''step.completed'', ''step.failed'', ''tool.invoked'']"

record hook_context =
  hc_event :: string
  hc_run :: string
  hc_step :: "string option"
  hc_data :: "(string \<times> json) list"

text \<open>What an action returns: a \<open>GuardrailDecision\<close> or any other value.\<close>

datatype hook_return = Decision bool string | Plain json

record 'w hook =
  hk_name :: string
  hk_event :: string
  hk_action :: "hook_context \<Rightarrow> 'w \<Rightarrow> (string + hook_return) \<times> 'w"
  hk_blocking :: bool
  hk_guardrail :: bool

record hook_result =
  hr_allowed :: bool
  hr_denied_by :: "string option"
  hr_reason :: "string option"
  hr_ran :: "string list"
  hr_dispatched :: "string list"
  hr_errors :: "(string \<times> string) list"

datatype hook_error = Undefined_event string

type_synonym 'w hook_table = "(string, 'w hook list) dict"

section \<open>Registration\<close>

definition normalize_event :: "string \<Rightarrow> hook_error + string" where
  "normalize_event e = (if e \<in> set lifecycle_events then Inr e else Inl (Undefined_event e))"

text \<open>\<open>EventHook(...)\<close> with its \<open>__post_init__\<close>.\<close>

definition new_hook ::
  "string \<Rightarrow> string \<Rightarrow> (hook_context \<Rightarrow> 'w \<Rightarrow> (string + hook_return) \<times> 'w) \<Rightarrow> bool \<Rightarrow> bool \<Rightarrow> hook_error + 'w hook" where
  "new_hook name e act blocking guardrail =
     rbind (normalize_event e) (\<lambda>ev. Inr \<lparr>hk_name = name, hk_event = ev, hk_action = act,
       hk_blocking = (blocking \<or> guardrail), hk_guardrail = guardrail\<rparr>)"

definition register :: "'w hook \<Rightarrow> 'w hook_table \<Rightarrow> hook_error + 'w hook_table" where
  "register h T =
     rbind (normalize_event (hk_event h)) (\<lambda>ev. Inr (dict_set ev (dict_get_or T ev [] @ [h]) T))"

definition register_hook ::
  "string \<Rightarrow> string \<Rightarrow> (hook_context \<Rightarrow> 'w \<Rightarrow> (string + hook_return) \<times> 'w) \<Rightarrow> bool \<Rightarrow> bool \<Rightarrow> 'w hook_table \<Rightarrow>
    hook_error + ('w hook \<times> 'w hook_table)" where
  "register_hook name e act blocking guardrail T =
     rbind (new_hook name e act blocking guardrail) (\<lambda>h. rbind (register h T) (\<lambda>T'. Inr (h, T')))"

definition hooks_for :: "string \<Rightarrow> 'w hook_table \<Rightarrow> hook_error + 'w hook list" where
  "hooks_for e T = rbind (normalize_event e) (\<lambda>ev. Inr (dict_get_or T ev []))"

section \<open>Triggering\<close>

definition coerce_decision :: "(rat \<Rightarrow> string) \<Rightarrow> hook_return \<Rightarrow> bool \<times> string" where
  "coerce_decision fl r =
     (case r of
        Decision allow reason \<Rightarrow> (allow, reason)
      | Plain (JBool b) \<Rightarrow> (b, [])
      | Plain (JObj d) \<Rightarrow>
          ((if dict_has d ''allow'' then truthy (obj_get d ''allow'')
            else if dict_has d ''allowed'' then truthy (obj_get d ''allowed'') else True),
           (case map_of d ''reason'' of None \<Rightarrow> [] | Some v \<Rightarrow> py_str fl v))
      | Plain _ \<Rightarrow> (True, []))"

definition log_hook_event :: "bool \<Rightarrow> hook_context \<Rightarrow> event_input \<Rightarrow> event_store \<Rightarrow> event_store" where
  "log_hook_event router c i st =
     (if router \<and> hc_run c \<noteq> [] then (case put_event (hc_run c) i st of None \<Rightarrow> st | Some st' \<Rightarrow> st') else st)"

definition record_error :: "bool \<Rightarrow> string \<Rightarrow> hook_context \<Rightarrow> 'w hook \<Rightarrow> string \<Rightarrow> event_store \<Rightarrow> event_store" where
  "record_error router now c h msg st = log_hook_event router c
     \<lparr>in_type = ''hook.error'', in_message = ''event hook '' @ sq (hk_name h) @ '' failed: '' @ msg,
      in_step = hc_step c, in_payload = [(''hook'', JStr (hk_name h)), (''event'', JStr (hc_event c)),
        (''guardrail'', JBool (hk_guardrail h)), (''blocking'', JBool (hk_blocking h)), (''error'', JStr msg)],
      in_now = now\<rparr> st"

definition record_denied :: "bool \<Rightarrow> string \<Rightarrow> hook_context \<Rightarrow> 'w hook \<Rightarrow> string \<Rightarrow> event_store \<Rightarrow> event_store" where
  "record_denied router now c h reason st = log_hook_event router c
     \<lparr>in_type = ''hook.denied'', in_message = ''guardrail '' @ sq (hk_name h) @ '' denied the action: '' @ reason,
      in_step = hc_step c, in_payload = [(''hook'', JStr (hk_name h)), (''event'', JStr (hc_event c)),
        (''step_id'', case hc_step c of None \<Rightarrow> JNull | Some s \<Rightarrow> JStr s), (''reason'', JStr reason)],
      in_now = now\<rparr> st"

record 'w trigger_state =
  tr_result :: hook_result
  tr_world :: 'w
  tr_log :: event_store
  tr_pending :: "('w hook \<times> hook_context) list"

definition deny_hook :: "'w hook \<Rightarrow> string \<Rightarrow> hook_result \<Rightarrow> hook_result" where
  "deny_hook h reason res = res\<lparr>hr_allowed := False, hr_denied_by := Some (hk_name h), hr_reason := Some reason\<rparr>"

fun trigger_loop ::
  "(rat \<Rightarrow> string) \<Rightarrow> bool \<Rightarrow> string \<Rightarrow> hook_context \<Rightarrow> 'w hook list \<Rightarrow> 'w trigger_state \<Rightarrow> 'w trigger_state" where
  "trigger_loop fl router now c [] st = st"
| "trigger_loop fl router now c (h # hs) st =
     (if \<not> hk_blocking h then
        trigger_loop fl router now c hs
          (st\<lparr>tr_pending := tr_pending st @ [(h, c)],
              tr_result := (tr_result st)\<lparr>hr_dispatched := hr_dispatched (tr_result st) @ [hk_name h]\<rparr>\<rparr>)
      else
        (let res = (tr_result st)\<lparr>hr_ran := hr_ran (tr_result st) @ [hk_name h]\<rparr> in
         (case hk_action h c (tr_world st) of
            (Inl msg, w') \<Rightarrow>
              (let res1 = res\<lparr>hr_errors := hr_errors res @ [(hk_name h, msg)]\<rparr>;
                   lg1 = record_error router now c h msg (tr_log st) in
               if hk_guardrail h then
                 (let reason = ''guardrail '' @ sq (hk_name h) @ '' failed to evaluate: '' @ msg in
                  st\<lparr>tr_world := w', tr_result := deny_hook h reason res1,
                     tr_log := record_denied router now c h reason lg1\<rparr>)
               else trigger_loop fl router now c hs (st\<lparr>tr_world := w', tr_result := res1, tr_log := lg1\<rparr>))
          | (Inr r, w') \<Rightarrow>
              (if hk_guardrail h \<and> \<not> fst (coerce_decision fl r) then
                 (let reason = (if snd (coerce_decision fl r) \<noteq> [] then snd (coerce_decision fl r)
                                else ''denied by guardrail '' @ sq (hk_name h)) in
                  st\<lparr>tr_world := w', tr_result := deny_hook h reason res,
                     tr_log := record_denied router now c h reason (tr_log st)\<rparr>)
               else trigger_loop fl router now c hs (st\<lparr>tr_world := w', tr_result := res\<rparr>)))))"

definition empty_result :: hook_result where
  "empty_result = \<lparr>hr_allowed = True, hr_denied_by = None, hr_reason = None, hr_ran = [], hr_dispatched = [], hr_errors = []\<rparr>"

definition trigger ::
  "(rat \<Rightarrow> string) \<Rightarrow> bool \<Rightarrow> string \<Rightarrow> string \<Rightarrow> string \<Rightarrow> string option \<Rightarrow> (string \<times> json) list \<Rightarrow> 'w hook_table \<Rightarrow>
    'w \<Rightarrow> event_store \<Rightarrow> ('w hook \<times> hook_context) list \<Rightarrow> hook_error + 'w trigger_state" where
  "trigger fl router now e run stp data T w st pending =
     rbind (hooks_for e T) (\<lambda>hs.
       let c = \<lparr>hc_event = e, hc_run = run, hc_step = stp, hc_data = data\<rparr> in
       Inr (trigger_loop fl router now c hs \<lparr>tr_result = empty_result, tr_world = w, tr_log = st, tr_pending = pending\<rparr>))"

text \<open>A thread of a hook that does not block: its error is recorded, and nothing else.\<close>

definition run_async :: "bool \<Rightarrow> string \<Rightarrow> 'w hook \<times> hook_context \<Rightarrow> 'w \<Rightarrow> event_store \<Rightarrow> 'w \<times> event_store" where
  "run_async router now task w st =
     (case task of (h, c) \<Rightarrow>
        (case hk_action h c w of
           (Inl msg, w') \<Rightarrow> (w', record_error router now c h msg st)
         | (Inr _, w') \<Rightarrow> (w', st)))"

section \<open>Lemmas\<close>

text \<open>In a table every hook stands under its own event, and a guardrail blocks.\<close>

definition hook_ok :: "string \<Rightarrow> 'w hook \<Rightarrow> bool" where
  "hook_ok ev h \<longleftrightarrow> hk_event h = ev \<and> ev \<in> set lifecycle_events \<and> (hk_guardrail h \<longrightarrow> hk_blocking h)"

definition table_ok :: "'w hook_table \<Rightarrow> bool" where
  "table_ok T \<longleftrightarrow> (\<forall>ev. \<forall>h \<in> set (dict_get_or T ev []). hook_ok ev h)"

lemma dict_get_or_set: "dict_get_or (dict_set k v d) j x = (if j = k then v else dict_get_or d j x)"
  by (simp add: dict_get_or_def dict_simps)

lemma new_hook_ok: "new_hook name e act b g = Inr h \<Longrightarrow> hook_ok (hk_event h) h \<and> hk_event h = e"
  by (auto simp: new_hook_def normalize_event_def hook_ok_def rbind_Inr_iff split: if_splits)

lemma register_hook_ok:
  assumes "table_ok T" "register_hook name e act b g T = Inr (h, T')"
  shows "table_ok T' \<and> dict_get_or T' e [] = dict_get_or T e [] @ [h]"
proof -
  have h: "new_hook name e act b g = Inr h" and r: "register h T = Inr T'"
    using assms(2) by (auto simp: register_hook_def rbind_Inr_iff)
  note ok = new_hook_ok[OF h]
  have T': "T' = dict_set e (dict_get_or T e [] @ [h]) T"
    using r ok by (auto simp: register_def normalize_event_def rbind_Inr_iff split: if_splits)
  show ?thesis using assms(1) ok unfolding T' table_ok_def by (auto simp: dict_get_or_set)
qed

text \<open>The world after the blocking hooks of a list, and whether a guardrail lets pass there.\<close>

definition after_hooks :: "hook_context \<Rightarrow> 'w hook list \<Rightarrow> 'w \<Rightarrow> 'w" where
  "after_hooks c hs = fold (\<lambda>h w. if hk_blocking h then snd (hk_action h c w) else w) hs"

definition permits :: "(rat \<Rightarrow> string) \<Rightarrow> hook_context \<Rightarrow> 'w hook \<Rightarrow> 'w \<Rightarrow> bool" where
  "permits fl c h w \<longleftrightarrow> (case fst (hk_action h c w) of Inl _ \<Rightarrow> False | Inr r \<Rightarrow> fst (coerce_decision fl r))"

definition all_permit :: "(rat \<Rightarrow> string) \<Rightarrow> hook_context \<Rightarrow> 'w hook list \<Rightarrow> 'w \<Rightarrow> bool" where
  "all_permit fl c hs w \<longleftrightarrow> (\<forall>pre h post. hs = pre @ h # post \<longrightarrow> hk_guardrail h \<longrightarrow> permits fl c h (after_hooks c pre w))"

lemma after_hooks_simps [simp]:
  "after_hooks c [] w = w"
  "after_hooks c (h # hs) w = after_hooks c hs (if hk_blocking h then snd (hk_action h c w) else w)"
  by (simp_all add: after_hooks_def)

lemma all_permit_Cons:
  "all_permit fl c (h # hs) w \<longleftrightarrow> (hk_guardrail h \<longrightarrow> permits fl c h w) \<and>
    all_permit fl c hs (if hk_blocking h then snd (hk_action h c w) else w)"
proof
  assume a: "all_permit fl c (h # hs) w"
  have "hk_guardrail h \<longrightarrow> permits fl c h w" using a unfolding all_permit_def by (metis after_hooks_simps(1) append_Nil)
  moreover have "all_permit fl c hs (if hk_blocking h then snd (hk_action h c w) else w)"
    unfolding all_permit_def
  proof (intro allI impI)
    fix pre g post assume "hs = pre @ g # post" "hk_guardrail g"
    then show "permits fl c g (after_hooks c pre (if hk_blocking h then snd (hk_action h c w) else w))"
      using a[unfolded all_permit_def, rule_format, of "h # pre" g post] by simp
  qed
  ultimately show "(hk_guardrail h \<longrightarrow> permits fl c h w) \<and>
    all_permit fl c hs (if hk_blocking h then snd (hk_action h c w) else w)" by blast
next
  assume a: "(hk_guardrail h \<longrightarrow> permits fl c h w) \<and>
    all_permit fl c hs (if hk_blocking h then snd (hk_action h c w) else w)"
  show "all_permit fl c (h # hs) w" unfolding all_permit_def
  proof (intro allI impI)
    fix pre g post assume e: "h # hs = pre @ g # post" and g: "hk_guardrail g"
    show "permits fl c g (after_hooks c pre w)"
    proof (cases pre)
      case Nil
      then show ?thesis using a e g by simp
    next
      case (Cons p ps)
      then show ?thesis using a e g unfolding all_permit_def by auto
    qed
  qed
qed

text \<open>One blocking hook that does not end the loop.\<close>

lemma trigger_loop_pass:
  assumes "hk_blocking h" "hk_guardrail h \<longrightarrow> permits fl c h (tr_world st)"
  shows "\<exists>st'. trigger_loop fl router now c (h # hs) st = trigger_loop fl router now c hs st' \<and>
    tr_world st' = snd (hk_action h c (tr_world st)) \<and> tr_pending st' = tr_pending st \<and>
    hr_allowed (tr_result st') = hr_allowed (tr_result st) \<and>
    hr_denied_by (tr_result st') = hr_denied_by (tr_result st) \<and>
    hr_ran (tr_result st') = hr_ran (tr_result st) @ [hk_name h] \<and>
    hr_dispatched (tr_result st') = hr_dispatched (tr_result st)"
proof (cases "hk_action h c (tr_world st)")
  case (Pair r w')
  show ?thesis
  proof (cases r)
    case (Inl msg)
    then have "\<not> hk_guardrail h" using assms(2) Pair by (auto simp: permits_def)
    then show ?thesis using assms(1) Pair Inl
      by (intro exI[of _ "st\<lparr>tr_world := w', tr_result := (tr_result st)\<lparr>hr_ran := hr_ran (tr_result st) @ [hk_name h],
            hr_errors := hr_errors (tr_result st) @ [(hk_name h, msg)]\<rparr>,
            tr_log := record_error router now c h msg (tr_log st)\<rparr>"]) (simp add: Let_def)
  next
    case (Inr x)
    then have "\<not> (hk_guardrail h \<and> \<not> fst (coerce_decision fl x))" using assms(2) Pair by (auto simp: permits_def)
    then show ?thesis using assms(1) Pair Inr
      by (intro exI[of _ "st\<lparr>tr_world := w', tr_result := (tr_result st)\<lparr>hr_ran := hr_ran (tr_result st) @ [hk_name h]\<rparr>\<rparr>"])
        (auto simp: Let_def)
  qed
qed

lemma trigger_loop_stop:
  assumes "hk_blocking h" "hk_guardrail h" "\<not> permits fl c h (tr_world st)"
  shows "hr_allowed (tr_result (trigger_loop fl router now c (h # hs) st)) = False"
    "hr_denied_by (tr_result (trigger_loop fl router now c (h # hs) st)) = Some (hk_name h)"
    "hr_ran (tr_result (trigger_loop fl router now c (h # hs) st)) = hr_ran (tr_result st) @ [hk_name h]"
    "hr_dispatched (tr_result (trigger_loop fl router now c (h # hs) st)) = hr_dispatched (tr_result st)"
    "tr_pending (trigger_loop fl router now c (h # hs) st) = tr_pending st"
  using assms by (auto simp: permits_def Let_def deny_hook_def split: prod.splits sum.splits)

definition names :: "'w hook list \<Rightarrow> string list" where "names hs = map hk_name hs"

lemma trigger_loop_allowed:
  assumes "\<forall>h \<in> set hs. hk_guardrail h \<longrightarrow> hk_blocking h" "all_permit fl c hs (tr_world st)" "hr_allowed (tr_result st)"
    and F_def: "F = trigger_loop fl router now c hs st"
  shows "hr_allowed (tr_result F)" "tr_world F = after_hooks c hs (tr_world st)"
    "hr_ran (tr_result F) = hr_ran (tr_result st) @ names (filter hk_blocking hs)"
    "hr_dispatched (tr_result F) = hr_dispatched (tr_result st) @ names (filter (\<lambda>h. \<not> hk_blocking h) hs)"
    "tr_pending F = tr_pending st @ map (\<lambda>h. (h, c)) (filter (\<lambda>h. \<not> hk_blocking h) hs)"
proof -
  have "hr_allowed (tr_result F) \<and> tr_world F = after_hooks c hs (tr_world st) \<and>
    hr_ran (tr_result F) = hr_ran (tr_result st) @ names (filter hk_blocking hs) \<and>
    hr_dispatched (tr_result F) = hr_dispatched (tr_result st) @ names (filter (\<lambda>h. \<not> hk_blocking h) hs) \<and>
    tr_pending F = tr_pending st @ map (\<lambda>h. (h, c)) (filter (\<lambda>h. \<not> hk_blocking h) hs)"
    using assms(1-3) unfolding F_def
  proof (induction hs arbitrary: st)
    case Nil
    then show ?case by (simp add: names_def)
  next
    case (Cons h hs)
    have ap: "hk_guardrail h \<longrightarrow> permits fl c h (tr_world st)"
      "all_permit fl c hs (if hk_blocking h then snd (hk_action h c (tr_world st)) else tr_world st)"
      using Cons.prems(2) by (simp_all add: all_permit_Cons)
    show ?case
    proof (cases "hk_blocking h")
      case False
      let ?st = "st\<lparr>tr_pending := tr_pending st @ [(h, c)],
        tr_result := (tr_result st)\<lparr>hr_dispatched := hr_dispatched (tr_result st) @ [hk_name h]\<rparr>\<rparr>"
      show ?thesis using Cons.IH[of ?st] Cons.prems(1,3) ap False by (simp add: names_def)
    next
      case True
      obtain st' where st': "trigger_loop fl router now c (h # hs) st = trigger_loop fl router now c hs st'"
        "tr_world st' = snd (hk_action h c (tr_world st))" "tr_pending st' = tr_pending st"
        "hr_allowed (tr_result st') = hr_allowed (tr_result st)"
        "hr_ran (tr_result st') = hr_ran (tr_result st) @ [hk_name h]"
        "hr_dispatched (tr_result st') = hr_dispatched (tr_result st)"
        using trigger_loop_pass[OF True ap(1), where now = now and hs = hs and router = router] by blast
      have "all_permit fl c hs (tr_world st')" using ap(2) True st'(2) by simp
      then show ?thesis unfolding st'(1) using Cons.IH[of st'] Cons.prems(1,3) True st' by (simp add: names_def)
    qed
  qed
  then show "hr_allowed (tr_result F)" "tr_world F = after_hooks c hs (tr_world st)"
    "hr_ran (tr_result F) = hr_ran (tr_result st) @ names (filter hk_blocking hs)"
    "hr_dispatched (tr_result F) = hr_dispatched (tr_result st) @ names (filter (\<lambda>h. \<not> hk_blocking h) hs)"
    "tr_pending F = tr_pending st @ map (\<lambda>h. (h, c)) (filter (\<lambda>h. \<not> hk_blocking h) hs)"
    by blast+
qed

lemma trigger_loop_append:
  assumes "\<forall>h \<in> set pre. hk_guardrail h \<longrightarrow> hk_blocking h" "all_permit fl c pre (tr_world st)"
  shows "trigger_loop fl router now c (pre @ hs) st = trigger_loop fl router now c hs (trigger_loop fl router now c pre st)"
  using assms
proof (induction pre arbitrary: st)
  case (Cons h pre)
  have ap: "hk_guardrail h \<longrightarrow> permits fl c h (tr_world st)"
    "all_permit fl c pre (if hk_blocking h then snd (hk_action h c (tr_world st)) else tr_world st)"
    using Cons.prems(2) by (simp_all add: all_permit_Cons)
  have ok: "\<forall>h \<in> set pre. hk_guardrail h \<longrightarrow> hk_blocking h" using Cons.prems(1) by simp
  show ?case
  proof (cases "hk_action h c (tr_world st)")
    case (Pair x w')
    show ?thesis using Cons.IH[OF ok] ap Pair
      by (cases x) (auto simp: permits_def Let_def)
  qed
qed simp

text \<open>The first guardrail that refuses ends the loop; nothing behind it runs.\<close>

lemma trigger_loop_refused:
  assumes "\<forall>h \<in> set (pre @ [h]). hk_guardrail h \<longrightarrow> hk_blocking h" "all_permit fl c pre (tr_world st)"
    and "hk_guardrail h" "\<not> permits fl c h (after_hooks c pre (tr_world st))" "hr_allowed (tr_result st)"
    and F_def: "F = trigger_loop fl router now c (pre @ h # post) st"
  shows "\<not> hr_allowed (tr_result F)" "hr_denied_by (tr_result F) = Some (hk_name h)"
    "hr_ran (tr_result F) = hr_ran (tr_result st) @ names (filter hk_blocking pre) @ [hk_name h]"
    "hr_dispatched (tr_result F) = hr_dispatched (tr_result st) @ names (filter (\<lambda>h. \<not> hk_blocking h) pre)"
    "tr_pending F = tr_pending st @ map (\<lambda>h. (h, c)) (filter (\<lambda>h. \<not> hk_blocking h) pre)"
proof -
  have pre: "\<forall>h \<in> set pre. hk_guardrail h \<longrightarrow> hk_blocking h" and b: "hk_blocking h" using assms(1,3) by auto
  let ?M = "trigger_loop fl router now c pre st"
  note m = trigger_loop_allowed[OF pre assms(2,5) refl, where router = router and now = now]
  have eq: "F = trigger_loop fl router now c (h # post) ?M"
    unfolding F_def by (rule trigger_loop_append[OF pre assms(2)])
  have np: "\<not> permits fl c h (tr_world ?M)" using m(2) assms(4) by simp
  note stop = trigger_loop_stop[OF b assms(3) np, where router = router and now = now and hs = post, folded eq]
  show "\<not> hr_allowed (tr_result F)" "hr_denied_by (tr_result F) = Some (hk_name h)"
    "hr_ran (tr_result F) = hr_ran (tr_result st) @ names (filter hk_blocking pre) @ [hk_name h]"
    "hr_dispatched (tr_result F) = hr_dispatched (tr_result st) @ names (filter (\<lambda>h. \<not> hk_blocking h) pre)"
    "tr_pending F = tr_pending st @ map (\<lambda>h. (h, c)) (filter (\<lambda>h. \<not> hk_blocking h) pre)"
    using stop m by simp_all
qed

text \<open>A list of hooks without a refusal, or its first refusal.\<close>

lemma first_refusal:
  "\<not> all_permit fl c hs w \<Longrightarrow> \<exists>pre h post. hs = pre @ h # post \<and> hk_guardrail h \<and>
    \<not> permits fl c h (after_hooks c pre w) \<and> all_permit fl c pre w"
proof (induction hs arbitrary: w)
  case Nil
  then show ?case by (simp add: all_permit_def)
next
  case (Cons g hs)
  let ?w = "if hk_blocking g then snd (hk_action g c w) else w"
  show ?case
  proof (cases "hk_guardrail g \<and> \<not> permits fl c g w")
    case True
    have "all_permit fl c [] w" by (simp add: all_permit_def)
    then show ?thesis using True by (intro exI[of _ "[]"] exI[of _ g] exI[of _ hs]) simp
  next
    case False
    then have "\<not> all_permit fl c hs ?w" using Cons.prems by (auto simp: all_permit_Cons)
    then obtain pre h post where p: "hs = pre @ h # post" "hk_guardrail h"
      "\<not> permits fl c h (after_hooks c pre ?w)" "all_permit fl c pre ?w" using Cons.IH by blast
    have "all_permit fl c (g # pre) w" using p(4) False unfolding all_permit_Cons by blast
    then show ?thesis using p by (intro exI[of _ "g # pre"] exI[of _ h] exI[of _ post]) simp
  qed
qed

lemma trigger_Inr:
  assumes "table_ok T" "trigger fl router now e run stp data T w st pending = Inr F"
  shows "F = trigger_loop fl router now \<lparr>hc_event = e, hc_run = run, hc_step = stp, hc_data = data\<rparr>
      (dict_get_or T e []) \<lparr>tr_result = empty_result, tr_world = w, tr_log = st, tr_pending = pending\<rparr>"
    and "\<forall>h \<in> set (dict_get_or T e []). hk_guardrail h \<longrightarrow> hk_blocking h"
proof -
  show "F = trigger_loop fl router now \<lparr>hc_event = e, hc_run = run, hc_step = stp, hc_data = data\<rparr>
      (dict_get_or T e []) \<lparr>tr_result = empty_result, tr_world = w, tr_log = st, tr_pending = pending\<rparr>"
    using assms(2) by (auto simp: trigger_def hooks_for_def normalize_event_def rbind_Inr_iff Let_def split: if_splits)
  show "\<forall>h \<in> set (dict_get_or T e []). hk_guardrail h \<longrightarrow> hk_blocking h"
    using assms(1) unfolding table_ok_def hook_ok_def by blast
qed

text \<open>A refusal: the hooks before it ran or were dispatched, and nothing behind it did.\<close>

lemma trigger_refused:
  assumes ok: "table_ok T" and t: "trigger fl router now e run stp data T w st pending = Inr F"
    and c: "c = \<lparr>hc_event = e, hc_run = run, hc_step = stp, hc_data = data\<rparr>"
    and no: "\<not> all_permit fl c (dict_get_or T e []) w"
  shows "\<exists>pre h post. dict_get_or T e [] = pre @ h # post \<and> hk_guardrail h \<and>
    \<not> permits fl c h (after_hooks c pre w) \<and> \<not> hr_allowed (tr_result F) \<and>
    hr_denied_by (tr_result F) = Some (hk_name h) \<and>
    hr_ran (tr_result F) = names (filter hk_blocking pre) @ [hk_name h] \<and>
    tr_pending F = pending @ map (\<lambda>h. (h, c)) (filter (\<lambda>h. \<not> hk_blocking h) pre)"
proof -
  note F = trigger_Inr(1)[OF ok t, folded c] and g = trigger_Inr(2)[OF ok t]
  obtain pre h post where p: "dict_get_or T e [] = pre @ h # post" "hk_guardrail h"
    "\<not> permits fl c h (after_hooks c pre w)" "all_permit fl c pre w"
    by (use first_refusal[OF no] in \<open>elim exE conjE\<close>)
  have "set (pre @ [h]) \<subseteq> set (dict_get_or T e [])" unfolding p(1) by auto
  then have gp: "\<forall>h \<in> set (pre @ [h]). hk_guardrail h \<longrightarrow> hk_blocking h" using g by blast
  note r = trigger_loop_refused[OF gp _ p(2) _ _ F[unfolded p(1)]]
  note s = trigger_state.simps empty_result_def hook_result.simps simp_thms append_Nil
  show ?thesis
  proof (intro exI conjI)
    show "\<not> hr_allowed (tr_result F)" by (rule r(1)) (simp_all only: p(3,4) s)
    show "hr_denied_by (tr_result F) = Some (hk_name h)" by (rule r(2)) (simp_all only: p(3,4) s)
    show "hr_ran (tr_result F) = names (filter hk_blocking pre) @ [hk_name h]"
      by (rule trans[OF r(3)]) (simp_all only: p(3,4) s)
    show "tr_pending F = pending @ map (\<lambda>h. (h, c)) (filter (\<lambda>h. \<not> hk_blocking h) pre)"
      by (rule trans[OF r(5)]) (simp_all only: p(3,4) s)
  qed (rule p)+
qed

lemma trigger_permitted:
  assumes ok: "table_ok T" and t: "trigger fl router now e run stp data T w st pending = Inr F"
    and c: "c = \<lparr>hc_event = e, hc_run = run, hc_step = stp, hc_data = data\<rparr>"
    and yes: "all_permit fl c (dict_get_or T e []) w"
  shows "hr_allowed (tr_result F)" "hr_ran (tr_result F) = names (filter hk_blocking (dict_get_or T e []))"
  using trigger_loop_allowed(1,3)[OF trigger_Inr(2)[OF ok t] _ _ trigger_Inr(1)[OF ok t, folded c]] yes
  by (simp_all add: empty_result_def)

end
