(* ===== verification/Demo_Parts.thy ===== *)
theory Demo_Parts
  imports Demo Sched_Exec Plan_Exec Memory Checkpoints Provider_Router Tools Hooks
begin

text \<open>Concrete inputs of the components around the executor, on which their properties are tried.\<close>

section \<open>A task table and a tick\<close>

definition every_minute :: schedule where
  "every_minute = \<lparr>minutes = {0..59}, hours = {0..23}, days_of_month = {1..31}, months = {1..12}, days_of_week = {0..6}\<rparr>"

lemma every_minute_parse: "cron_parse ''* * * * *'' = Inr every_minute"
proof -
  have ok: "schedule_ok every_minute"
    by (simp add: every_minute_def schedule_ok_def Cron.fields_def field_specs_def spec_def field_ok_def)
  have "cron_format every_minute = ''* * * * *''"
    by (simp add: every_minute_def cron_format_def Cron.fields_def field_specs_def spec_def format_field_def)
  then show ?thesis using cron_parse_format[OF ok] by metis
qed

definition demo_moment :: moment where
  "demo_moment = \<lparr>year = 2026, month = 1, day = 1, hour = 0, minute = 0, second = 0, microsecond = 0\<rparr>"

definition demo_task :: task_row where
  "demo_task = \<lparr>t_id = ''t'', t_definition = ''d'', t_cron = ''* * * * *'', t_state = state_active,
     t_next = None, t_created = [], t_updated = []\<rparr>"

lemma every_minute_matches: "1 \<le> day t \<Longrightarrow> day t \<le> 31 \<Longrightarrow> 1 \<le> month t \<Longrightarrow> month t \<le> 12 \<Longrightarrow>
    hour t \<le> 23 \<Longrightarrow> minute t \<le> 59 \<Longrightarrow> matches every_minute t"
  by (simp add: matches_def every_minute_def)

lemma demo_due: "filter (due demo_moment) (active_rows [demo_task]) = [demo_task]"
  by (simp add: active_rows_def due_def demo_task_def every_minute_parse every_minute_matches demo_moment_def)

definition demo_tick :: "(exec_error, exec) tick_state" where
  "demo_tick = tick (start_task_run demo_cfg demo_uuid) [] demo_moment [demo_task] demo_saved"

lemma demo_tick_error: "tk_error demo_tick = None"
proof -
  let ?t = "demo_moment\<lparr>minute := 1\<rparr>"
  have "matches every_minute ?t" by (rule every_minute_matches) (simp_all add: demo_moment_def)
  then have "next_run_scan (Suc n) every_minute ?t = (Inr (Some ?t) :: exec_error sched_error + moment option)" for n
    by simp
  moreover have "next_run_scan_minutes = Suc 527039" by (simp add: next_run_scan_minutes_def)
  ultimately have "next_run_scan next_run_scan_minutes every_minute ?t = (Inr (Some ?t) :: exec_error sched_error + moment option)"
    by metis
  then have "\<exists>x. tick_advance every_minute demo_moment = (Inr x :: exec_error sched_error + string option)"
    by (simp add: tick_advance_def next_run_at_def plus_minute_def demo_moment_def truncate_minute_def)
  then show ?thesis
    by (auto simp: demo_tick_def tick_def active_rows_def demo_task_def parse_cron_def every_minute_parse
        every_minute_matches start_task_run_def demo_start demo_moment_def Let_def)
qed

lemma demo_next_run: "next_run_at every_minute demo_moment = Inr (Some (iso_text demo_moment))"
proof -
  have m: "matches every_minute demo_moment" by (rule every_minute_matches) (simp_all add: demo_moment_def)
  have "next_run_scan (Suc n) every_minute demo_moment = Inr (Some demo_moment)" for n using m by simp
  moreover have "next_run_scan_minutes = Suc 527039" by (simp add: next_run_scan_minutes_def)
  moreover have "truncate_minute demo_moment = demo_moment" by (simp add: truncate_minute_def demo_moment_def)
  ultimately show ?thesis unfolding next_run_at_def by (metis option.map(2) rbind.simps(2))
qed

section \<open>A planned definition\<close>

definition plan_definition :: "(string \<times> json) list" where
  "plan_definition = [(''name'', JStr ''plan''), (''steps'', JList [JObj [(''id'', JStr ''a''), (''type'', JStr ''tool'')]])]"

definition plan_resolver :: resolver where "plan_resolver = \<lparr>agent_lookup = None, tool_lookup = None\<rparr>"

definition plan_saved :: exec where "plan_saved = save_definition ''p'' plan_definition initial_exec"

lemma plan_canonical: "\<exists>c. canonicalize plan_definition = Inr c"
  by (simp add: plan_definition_def canonicalize_def obj_get_def)

lemma plan_builds: "\<exists>g. build_dag plan_resolver (JObj plan_definition) = Inr g"
  unfolding validate_build[symmetric] by code_simp

lemma reach_plan_saved: "reachable demo_cfg demo_uuid plan_saved"
  unfolding plan_saved_def by (rule reachable_step[OF reachable_init exec_step.save])

section \<open>A guardrail that fails\<close>

definition broken_guard :: "unit hook" where
  "broken_guard = \<lparr>hk_name = ''g'', hk_event = ''tool.invoked'', hk_action = (\<lambda>c w. (Inl ''boom'', w)),
     hk_blocking = True, hk_guardrail = True\<rparr>"

definition guard_table :: "unit hook_table" where "guard_table = [(''tool.invoked'', [broken_guard])]"

end
