(* ===== verification/Agent_Step.thy ===== *)
theory Agent_Step
  imports Exec_Term Py_Text
begin

text \<open>
  The runner of agent steps of \<open>core/dag_executor.py\<close>: the payload it builds from the outputs of the
  dependencies, the dispatch through the agent orchestrator, the wait for the invocation, and how each
  outcome is reported to the scheduler. The orchestrator is an argument: a pair of functions over a
  state of its own. An exception carries its text; an error message of an invocation is text.
\<close>

type_synonym obj = "(string \<times> json) list"

datatype invoked =
    Invoked json
  | Recording_error string
  | Not_executed string
  | Invoke_error string

record 'w agent_port =
  ap_invoke :: "string \<Rightarrow> obj \<Rightarrow> 'w \<Rightarrow> invoked \<times> 'w"
  ap_get :: "(json \<Rightarrow> 'w \<Rightarrow> (string + json) \<times> 'w) option"

datatype agent_outcome =
    Outcome step_result
  | Stop_run string
  | Raised string

section \<open>What goes in and what comes out\<close>

fun first_truthy :: "obj \<Rightarrow> string list \<Rightarrow> json option" where
  "first_truthy d [] = None"
| "first_truthy d (k # ks) = (if truthy (obj_get d k) then Some (obj_get d k) else first_truthy d ks)"

definition agent_reference :: "(rat \<Rightarrow> string) \<Rightarrow> obj \<Rightarrow> string option" where
  "agent_reference fl cfg = map_option (py_str fl) (first_truthy cfg [''agent'', ''agentId'', ''agent_id''])"

definition build_invocation_payload :: "dag_node \<Rightarrow> obj \<Rightarrow> obj" where
  "build_invocation_payload n inputs =
     (let configured = (case obj_get (config n) ''inputs'' of JObj d \<Rightarrow> d | _ \<Rightarrow> []);
          base = [(''inputs'', JObj (dict_merge configured inputs))]
      in (case obj_get (config n) ''overrides'' of JObj o' \<Rightarrow> base @ [(''overrides'', JObj o')] | _ \<Rightarrow> base))"

definition invocation_output :: "obj \<Rightarrow> obj" where
  "invocation_output ivk =
     (case obj_get ivk ''outputJson'' of
        JObj d \<Rightarrow> d
      | _ \<Rightarrow> (case obj_get ivk ''outputText'' of JNull \<Rightarrow> [] | t \<Rightarrow> [(''text'', t)]))"

fun first_int :: "obj \<Rightarrow> string list \<Rightarrow> int option" where
  "first_int d [] = None"
| "first_int d (k # ks) = (case as_int (obj_get d k) of Some i \<Rightarrow> Some i | None \<Rightarrow> first_int d ks)"

definition invocation_tokens :: "obj \<Rightarrow> int option" where
  "invocation_tokens ivk =
     (case obj_get ivk ''usage'' of
        JObj u \<Rightarrow> first_int u [''totalTokens'', ''total_tokens'', ''total'']
      | _ \<Rightarrow> None)"

section \<open>Waiting\<close>

text \<open>\<open>status in {...}\<close>: a list or a dictionary has no hash.\<close>

definition status_terminal :: "obj \<Rightarrow> string + bool" where
  "status_terminal ivk =
     (case obj_get ivk ''status'' of
        JList _ \<Rightarrow> Inl (''unhashable type: '' @ sq ''list'')
      | JObj _ \<Rightarrow> Inl (''unhashable type: '' @ sq ''dict'')
      | v \<Rightarrow> Inr (v = JStr ''succeeded'' \<or> v = JStr ''failed''))"

text \<open>\<open>k\<close> is how often the clock is read before the deadline has passed.\<close>

fun await_loop ::
  "nat \<Rightarrow> (json \<Rightarrow> 'w \<Rightarrow> (string + json) \<times> 'w) \<Rightarrow> json \<Rightarrow> obj \<Rightarrow> 'w \<Rightarrow> (string + obj) \<times> 'w" where
  "await_loop k get iid latest w =
     (case get iid w of
        (Inl e, w') \<Rightarrow> (Inl e, w')
      | (Inr (JObj d), w') \<Rightarrow>
          (case status_terminal d of
             Inl e \<Rightarrow> (Inl e, w')
           | Inr True \<Rightarrow> (Inr d, w')
           | Inr False \<Rightarrow> (case k of 0 \<Rightarrow> (Inr d, w') | Suc k' \<Rightarrow> await_loop k' get iid d w'))
      | (Inr _, w') \<Rightarrow> (case k of 0 \<Rightarrow> (Inr latest, w') | Suc k' \<Rightarrow> await_loop k' get iid latest w'))"

declare await_loop.simps [simp del]

definition await_invocation :: "nat \<Rightarrow> 'w agent_port \<Rightarrow> obj \<Rightarrow> 'w \<Rightarrow> (string + obj) \<times> 'w" where
  "await_invocation k port ivk w =
     (case status_terminal ivk of
        Inl e \<Rightarrow> (Inl e, w)
      | Inr True \<Rightarrow> (Inr ivk, w)
      | Inr False \<Rightarrow> (case ap_get port of
          None \<Rightarrow> (Inr ivk, w)
        | Some get \<Rightarrow> await_loop k get (obj_get ivk ''id'') ivk w))"

section \<open>The runner\<close>

definition step_failure :: "dag_node \<Rightarrow> string \<Rightarrow> step_result" where
  "step_failure n msg = \<lparr>res_step = step_id n, res_state = SFailed, res_output = None,
     res_error = Some msg, res_tokens = None\<rparr>"

definition not_executed :: "dag_node \<Rightarrow> string" where
  "not_executed n = ''agent invocation for step '' @ sq (step_id n) @ '' did not execute''"

definition invocation_result :: "(rat \<Rightarrow> string) \<Rightarrow> dag_node \<Rightarrow> obj \<Rightarrow> agent_outcome" where
  "invocation_result fl n ivk =
     (let status = obj_get ivk ''status'' in
      if status = JStr ''succeeded'' then
        Outcome \<lparr>res_step = step_id n, res_state = SCompleted, res_output = Some (invocation_output ivk),
          res_error = None, res_tokens = invocation_tokens ivk\<rparr>
      else if status = JStr ''failed'' then
        Outcome ((step_failure n (if truthy (obj_get ivk ''errorMessage'')
          then py_str fl (obj_get ivk ''errorMessage'') else ''agent invocation failed''))
            \<lparr>res_tokens := invocation_tokens ivk\<rparr>)
      else Stop_run (not_executed n @ '' (status='' @ py_repr fl status @ '')''))"

definition run_agent_step ::
  "(rat \<Rightarrow> string) \<Rightarrow> nat \<Rightarrow> 'w agent_port option \<Rightarrow> dag_node \<Rightarrow> obj \<Rightarrow> 'w \<Rightarrow> agent_outcome \<times> 'w" where
  "run_agent_step fl k agents n inputs w =
     (if step_type n \<noteq> ''agent'' then
        (Outcome (step_failure n (''no runner configured for step type '' @ sq (step_type n))), w)
      else (case agents of
        None \<Rightarrow> (Outcome (step_failure n ''no agent orchestrator configured for this executor''), w)
      | Some port \<Rightarrow>
        (case agent_reference fl (config n) of
          None \<Rightarrow> (Outcome (step_failure n ''agent step is missing an agent reference''), w)
        | Some a \<Rightarrow> if a = [] then (Outcome (step_failure n ''agent step is missing an agent reference''), w) else
          (case ap_invoke port a (build_invocation_payload n inputs) w of
            (Recording_error e, w') \<Rightarrow>
              (Stop_run (''invocation-event recording failed for step '' @ sq (step_id n) @ '': '' @ e), w')
          | (Not_executed e, w') \<Rightarrow> (Stop_run (not_executed n @ '': '' @ e), w')
          | (Invoke_error e, w') \<Rightarrow> (Outcome (step_failure n e), w')
          | (Invoked v, w') \<Rightarrow>
              (case v of
                 JObj ivk \<Rightarrow>
                   if \<not> truthy (obj_get ivk ''id'') then (Stop_run (not_executed n), w')
                   else (case await_invocation k port ivk w' of
                      (Inl e, w'') \<Rightarrow> (Raised e, w'')
                    | (Inr ivk', w'') \<Rightarrow> (invocation_result fl n ivk', w''))
               | _ \<Rightarrow> (Stop_run (not_executed n), w'))))))"

section \<open>Reporting to the scheduler\<close>

definition report :: "string \<Rightarrow> string \<Rightarrow> agent_outcome \<Rightarrow> exec \<Rightarrow> exec" where
  "report r s out S =
     (case out of
        Outcome res \<Rightarrow> on_step_complete r s res S
      | Stop_run reason \<Rightarrow> abort_run r s reason S
      | Raised e \<Rightarrow> on_step_complete r s \<lparr>res_step = s, res_state = SFailed, res_output = None,
          res_error = Some e, res_tokens = None\<rparr> S)"

type_synonym 'w step_runner = "string \<Rightarrow> dag_node \<Rightarrow> obj \<Rightarrow> 'w \<Rightarrow> agent_outcome \<times> 'w"

text \<open>The part of \<open>_execute_step\<close> after the node was read.\<close>

definition execute_step ::
  "'w step_runner option \<Rightarrow> string \<Rightarrow> string \<Rightarrow> dag_node \<Rightarrow> obj \<Rightarrow> 'w \<Rightarrow> exec \<Rightarrow> exec \<times> 'w" where
  "execute_step runner r s n inputs w S =
     (case runner of
        None \<Rightarrow> (report r s (Outcome \<lparr>res_step = s, res_state = SFailed, res_output = None,
          res_error = Some ''no step runner configured for this executor'', res_tokens = None\<rparr>) S, w)
      | Some run \<Rightarrow> (case run r n inputs w of (out, w') \<Rightarrow> (report r s out S, w')))"

definition select_runner ::
  "(rat \<Rightarrow> string) \<Rightarrow> nat \<Rightarrow> 'w agent_port option \<Rightarrow> 'w step_runner option \<Rightarrow> 'w step_runner option" where
  "select_runner fl k agents runner =
     (if runner = None \<and> agents \<noteq> None then Some (\<lambda>r. run_agent_step fl k agents) else runner)"

section \<open>Observation\<close>

text \<open>\<open>get_run\<close>: the rows of the steps ordered by id, and the history.\<close>

definition get_run :: "wf_db \<Rightarrow> string \<Rightarrow> exec_error + (run_row \<times> (string \<times> step_row) list \<times> wf_event list)" where
  "get_run db r =
     (case load_run db r of
        None \<Rightarrow> Inl (Unknown_run r)
      | Some v \<Rightarrow> Inr (v, sort_key fst (run_steps db r), history (db_events db) r))"

section \<open>Lemmas\<close>

lemma payload_inputs:
  assumes "dict_ok inputs" "map_of inputs dep = Some v"
  shows "\<exists>d. obj_get (build_invocation_payload n inputs) ''inputs'' = JObj d \<and> map_of d dep = Some v"
proof -
  define c where "c = (case obj_get (config n) ''inputs'' of JObj d \<Rightarrow> d | _ \<Rightarrow> [])"
  have "map_of (dict_merge c inputs) dep = Some v"
    using assms dict_merge_get[OF assms(1), of c dep] by simp
  then show ?thesis
    by (auto simp: build_invocation_payload_def Let_def c_def obj_get_def split: json.splits)
qed

lemma execute_step_covered:
  assumes "Running r s n inp \<in> set (ex_tasks S)"
  shows "exec_step cfg u S (fst (execute_step runner r s n inputs w (take_task (Running r s n inp) S)))"
  using assms
  by (auto simp: execute_step_def report_def split: option.split prod.split agent_outcome.split
      intro: exec_step.complete exec_step.stop)

text \<open>What a wait returns was reported by the orchestrator, or is the invocation it began with.\<close>

lemma invocation_result_completed:
  assumes "invocation_result fl n ivk = Outcome res" "res_state res = SCompleted"
  shows "obj_get ivk ''status'' = JStr ''succeeded''" "res_output res = Some (invocation_output ivk)"
  using assms by (auto simp: invocation_result_def step_failure_def Let_def split: if_splits)

lemma run_agent_step_completed:
  assumes "run_agent_step fl k agents n inputs w = (Outcome res, w')" "res_state res = SCompleted"
  obtains port a v ivk ivk' w1 where "agents = Some port" "step_type n = ''agent''"
    "agent_reference fl (config n) = Some a"
    "ap_invoke port a (build_invocation_payload n inputs) w = (Invoked (JObj ivk), w1)"
    "await_invocation k port ivk w1 = (Inr ivk', w')"
    "obj_get ivk' ''status'' = JStr ''succeeded''" "res_output res = Some (invocation_output ivk')"
proof -
  have nf: "res_state (step_failure n m) \<noteq> SCompleted" for m by (simp add: step_failure_def)
  from assms nf obtain port a where p: "agents = Some port" "step_type n = ''agent''"
    "agent_reference fl (config n) = Some a" "a \<noteq> []"
    by (auto simp: run_agent_step_def split: option.splits if_splits)
  obtain out w1 where i: "ap_invoke port a (build_invocation_payload n inputs) w = (out, w1)" by force
  from assms nf p i obtain ivk where ivk: "out = Invoked (JObj ivk)" "truthy (obj_get ivk ''id'')"
    by (auto simp: run_agent_step_def split: invoked.splits json.splits if_splits)
  obtain x w2 where a: "await_invocation k port ivk w1 = (x, w2)" by force
  have "(case x of Inl e \<Rightarrow> (Raised e, w2) | Inr ivk' \<Rightarrow> (invocation_result fl n ivk', w2)) = (Outcome res, w')"
    using assms p i ivk a by (simp add: run_agent_step_def)
  then obtain ivk' where "x = Inr ivk'" "invocation_result fl n ivk' = Outcome res" "w2 = w'"
    by (cases x) auto
  then show ?thesis using that p i ivk a invocation_result_completed[OF _ assms(2)] by blast
qed

end
