(* ===== verification/Gateway_Budget.thy ===== *)
theory Gateway_Budget
  imports Workflow_DB
begin

text \<open>
  \<open>BudgetTracker\<close> of core/inference_gateway.py: the check before a model call, the block of a run
  that would exceed its budget, failing open when the budget cannot be read, and the accounting
  after the call. The column \<open>budget_json\<close> is a table of cells beside the run table: nothing
  stored, text that is no budget object, or a budget. An injected budget source is an argument.
  The budget inside a scope is an object the caller keeps, so charging it returns the scope.
\<close>

section \<open>State\<close>

datatype budget_cell = Cell_empty | Cell_bad string | Cell_budget budget

record 'w budget_state =
  bs_db :: wf_db
  bs_cells :: "(string, budget_cell) dict"
  bs_world :: 'w

type_synonym 'w budget_source = "run_scope \<Rightarrow> 'w \<Rightarrow> (string + budget option) \<times> 'w"

record attempt_failure =
  af_provider :: string
  af_attempts :: nat
  af_error :: string

datatype gateway_error =
    Budget_exceeded string budget
  | Providers_failed "attempt_failure list"
  | Event_refused
  | Cache_fault string

record budget_decision =
  bd_fail_open :: bool
  bd_skip_rate :: bool

definition opt_json :: "('a \<Rightarrow> json) \<Rightarrow> 'a option \<Rightarrow> json" where
  "opt_json f v = (case v of None \<Rightarrow> JNull | Some x \<Rightarrow> f x)"

definition budget_dict :: "budget \<Rightarrow> json" where
  "budget_dict b = JObj [(''max_tokens'', opt_json JInt (max_tokens b)), (''max_cost'', opt_json JFloat (max_cost b)),
     (''used_tokens'', JInt (used_tokens b)), (''used_cost'', JFloat (used_cost b))]"

section \<open>Reading the budget\<close>

definition load_budget ::
  "'w budget_source option \<Rightarrow> run_scope \<Rightarrow> ('w, 'm) budget_state_scheme \<Rightarrow> (string + budget option) \<times> ('w, 'm) budget_state_scheme"
where
  "load_budget src sc st =
     (case src of
        Some f \<Rightarrow> (case f sc (bs_world st) of (r, w') \<Rightarrow> (r, st\<lparr>bs_world := w'\<rparr>))
      | None \<Rightarrow>
        (case rs_budget sc of
           Some b \<Rightarrow> (Inr (Some b), st)
         | None \<Rightarrow>
           (case load_run (bs_db st) (rs_run_id sc) of
              None \<Rightarrow> (Inr None, st)
            | Some _ \<Rightarrow>
              (case dict_get_or (bs_cells st) (rs_run_id sc) Cell_empty of
                 Cell_empty \<Rightarrow> (Inr None, st)
               | Cell_bad e \<Rightarrow> (Inl e, st)
               | Cell_budget b \<Rightarrow> (Inr (Some b), st)))))"

section \<open>The check before a call\<close>

text \<open>An event with an empty run id is refused by the event router, and the refusal escapes.\<close>

definition announce ::
  "run_scope \<Rightarrow> string \<Rightarrow> string \<Rightarrow> (string \<times> json) list \<Rightarrow> ('w, 'm) budget_state_scheme \<Rightarrow>
    gateway_error option \<times> ('w, 'm) budget_state_scheme" where
  "announce sc ty msg p st =
     (if rs_run_id sc = [] then (Some Event_refused, st)
      else (None, st\<lparr>bs_db := post (rs_run_id sc) ty msg None p (bs_db st)\<rparr>))"

definition block_run ::
  "run_scope \<Rightarrow> budget \<Rightarrow> ('w, 'm) budget_state_scheme \<Rightarrow> gateway_error \<times> ('w, 'm) budget_state_scheme" where
  "block_run sc b st =
     (case announce sc ''budget.status'' ''model call blocked: budget exceeded''
         [(''blocked'', JBool True), (''state'', JStr (run_value RBudget_exceeded)),
          (''definition_id'', JStr (rs_definition_id sc)), (''budget'', budget_dict b)]
         (st\<lparr>bs_db := set_run_state (rs_run_id sc) RBudget_exceeded False True (bs_db st)\<rparr>) of
        (Some e, st') \<Rightarrow> (e, st')
      | (None, st') \<Rightarrow> (Budget_exceeded (rs_run_id sc) b, st'))"

definition record_skip ::
  "run_scope \<Rightarrow> string \<Rightarrow> ('w, 'm) budget_state_scheme \<Rightarrow> gateway_error option \<times> ('w, 'm) budget_state_scheme" where
  "record_skip sc reason =
     announce sc ''budget.status'' ''budget check skipped: budget state unavailable''
       [(''skipped'', JBool True), (''reason'', JStr reason), (''definition_id'', JStr (rs_definition_id sc))]"

definition precheck ::
  "'w budget_source option \<Rightarrow> run_scope \<Rightarrow> int \<Rightarrow> rat \<Rightarrow> ('w, 'm) budget_state_scheme \<Rightarrow>
    (gateway_error + budget_decision) \<times> ('w, 'm) budget_state_scheme" where
  "precheck src sc tokens cost st =
     (case load_budget src sc st of
        (Inl e, st1) \<Rightarrow>
          (case record_skip sc e st1 of
             (Some x, st2) \<Rightarrow> (Inl x, st2)
           | (None, st2) \<Rightarrow> (Inr \<lparr>bd_fail_open = True, bd_skip_rate = True\<rparr>, st2))
      | (Inr None, st1) \<Rightarrow> (Inr \<lparr>bd_fail_open = False, bd_skip_rate = False\<rparr>, st1)
      | (Inr (Some b), st1) \<Rightarrow>
          if would_exceed b tokens cost then (case block_run sc b st1 of (x, st2) \<Rightarrow> (Inl x, st2))
          else (Inr \<lparr>bd_fail_open = False, bd_skip_rate = False\<rparr>, st1))"

section \<open>Accounting\<close>

definition add_usage :: "int \<Rightarrow> rat \<Rightarrow> budget \<Rightarrow> budget" where
  "add_usage tokens cost b = b\<lparr>used_tokens := used_tokens b + tokens, used_cost := used_cost b + cost\<rparr>"

definition persist_usage :: "string \<Rightarrow> budget \<Rightarrow> ('w, 'm) budget_state_scheme \<Rightarrow> ('w, 'm) budget_state_scheme" where
  "persist_usage r b st =
     (if load_run (bs_db st) r = None then st else st\<lparr>bs_cells := dict_set r (Cell_budget b) (bs_cells st)\<rparr>)"

definition charge ::
  "'w budget_source option \<Rightarrow> run_scope \<Rightarrow> int \<Rightarrow> rat \<Rightarrow> ('w, 'm) budget_state_scheme \<Rightarrow> run_scope \<times> ('w, 'm) budget_state_scheme"
where
  "charge src sc tokens cost st =
     (case load_budget src sc st of
        (Inl _, st1) \<Rightarrow> (sc, st1)
      | (Inr None, st1) \<Rightarrow> (sc, st1)
      | (Inr (Some b), st1) \<Rightarrow>
          ((if src = None \<and> rs_budget sc \<noteq> None then sc\<lparr>rs_budget := Some (add_usage tokens cost b)\<rparr> else sc),
           persist_usage (rs_run_id sc) (add_usage tokens cost b) st1))"

section \<open>Lemmas\<close>

lemma add_usage_fields [simp]:
  "used_tokens (add_usage t c b) = used_tokens b + t" "used_cost (add_usage t c b) = used_cost b + c"
  "max_tokens (add_usage t c b) = max_tokens b" "max_cost (add_usage t c b) = max_cost b"
  by (simp_all add: add_usage_def)

text \<open>What the check lets pass fits: the allowance covers the estimate.\<close>

definition within_budget :: "budget \<Rightarrow> bool" where
  "within_budget b \<longleftrightarrow> (\<forall>m. max_tokens b = Some m \<longrightarrow> used_tokens b \<le> m) \<and> (\<forall>m. max_cost b = Some m \<longrightarrow> used_cost b \<le> m)"

lemma not_exceed_within: "\<not> would_exceed b t c \<longleftrightarrow> within_budget (add_usage t c b)"
  by (auto simp: would_exceed_def within_budget_def split: option.splits)

lemma within_less: "within_budget (add_usage t c b) \<Longrightarrow> t' \<le> t \<Longrightarrow> c' \<le> c \<Longrightarrow> within_budget (add_usage t' c' b)"
  unfolding within_budget_def by force

lemma precheck_allowed:
  assumes "precheck src sc t c st = (Inr d, st')"
  shows "bd_fail_open d = bd_skip_rate d"
    and "bd_fail_open d \<longleftrightarrow> (\<exists>e. fst (load_budget src sc st) = Inl e)"
    and "fst (load_budget src sc st) = Inr (Some b) \<Longrightarrow> within_budget (add_usage t c b)"
  using assms not_exceed_within[of b t c]
  by (auto simp: precheck_def split: prod.splits sum.splits option.splits if_splits)

text \<open>A refusal is the overspend itself, and closes the run.\<close>

lemma announce_world [simp]:
  "load_run (bs_db (snd (announce sc ty msg p st))) q = load_run (bs_db st) q"
  "bs_cells (snd (announce sc ty msg p st)) = bs_cells st"
  "bs_world (snd (announce sc ty msg p st)) = bs_world st"
  by (simp_all add: announce_def)

lemma precheck_blocked:
  assumes "precheck src sc t c st = (Inl (Budget_exceeded r b), st')"
  shows "r = rs_run_id sc" "fst (load_budget src sc st) = Inr (Some b)" "\<not> within_budget (add_usage t c b)"
    and "load_run (bs_db st') q = (if q = r
      then map_option (\<lambda>v. v\<lparr>rr_state := RBudget_exceeded, rr_finished := Some (db_now (bs_db st'))\<rparr>) (load_run (bs_db st) q)
      else load_run (bs_db st) q)"
proof -
  obtain st1 where l: "load_budget src sc st = (Inr (Some b), st1)" and x: "would_exceed b t c"
    and bl: "block_run sc b st1 = (Budget_exceeded r b, st')"
  proof -
    obtain x st1 where l: "load_budget src sc st = (x, st1)" by force
    show thesis
    proof (cases x)
      case (Inl e)
      then show ?thesis using assms l by (auto simp: precheck_def record_skip_def announce_def split: if_splits)
    next
      case (Inr y)
      then obtain b1 where y: "y = Some b1" "would_exceed b1 t c" "block_run sc b1 st1 = (Budget_exceeded r b, st')"
        using assms l by (auto simp: precheck_def split: option.splits if_splits prod.splits)
      then have "b1 = b" by (auto simp: block_run_def announce_def split: if_splits)
      then show ?thesis using that l Inr y by blast
    qed
  qed
  have db1: "bs_db st1 = bs_db st" using l by (auto simp: load_budget_def split: option.splits prod.splits budget_cell.splits)
  show "r = rs_run_id sc" using bl by (auto simp: block_run_def announce_def split: if_splits)
  then show "load_run (bs_db st') q = (if q = r
      then map_option (\<lambda>v. v\<lparr>rr_state := RBudget_exceeded, rr_finished := Some (db_now (bs_db st'))\<rparr>) (load_run (bs_db st) q)
      else load_run (bs_db st) q)"
    using bl db1 by (auto simp: block_run_def announce_def set_run_state_def split: if_splits)
  show "fst (load_budget src sc st) = Inr (Some b)" using l by simp
  show "\<not> within_budget (add_usage t c b)" using x not_exceed_within by blast
qed

text \<open>What is charged is read back by the next check.\<close>

lemma charge_load:
  assumes "fst (load_budget None sc st) = Inr (Some b)" "charge None sc t c st = (sc', st')"
  shows "load_budget None sc' st' = (Inr (Some (add_usage t c b)), st')"
  using assms by (auto simp: charge_def load_budget_def persist_usage_def dict_get_or_def dict_simps
      split: option.splits budget_cell.splits if_splits)

lemma charge_scope: "charge src sc t c st = (sc', st') \<Longrightarrow> rs_run_id sc' = rs_run_id sc \<and> rs_definition_id sc' = rs_definition_id sc"
  by (auto simp: charge_def split: prod.splits sum.splits option.splits if_splits)

text \<open>
  A run of checked calls that cost no more than their estimates: each call is an estimate and
  the usage charged for it, and the sequence stops at the first refusal.
\<close>

fun checked_calls ::
  "(int \<times> rat \<times> int \<times> rat) list \<Rightarrow> run_scope \<Rightarrow> ('w, 'm) budget_state_scheme \<Rightarrow> run_scope \<times> ('w, 'm) budget_state_scheme"
where
  "checked_calls [] sc st = (sc, st)"
| "checked_calls ((et, ec, t, c) # cs) sc st =
     (case precheck None sc et ec st of
        (Inl _, st1) \<Rightarrow> (sc, st1)
      | (Inr _, st1) \<Rightarrow> (case charge None sc t c st1 of (sc', st2) \<Rightarrow> checked_calls cs sc' st2))"

lemma load_budget_pure: "snd (load_budget None sc st) = st"
  by (auto simp: load_budget_def split: option.splits budget_cell.splits)

lemma load_after_block:
  assumes "block_run sc b st = (x, st')"
  shows "load_budget None sc st' = (fst (load_budget None sc st), st')"
  using assms by (auto simp: block_run_def announce_def load_budget_def set_run_state_def
      split: if_splits option.splits budget_cell.splits)

lemma checked_calls_within:
  assumes "fst (load_budget None sc st) = Inr (Some b)" "within_budget b"
    and "\<forall>(et, ec, t, c) \<in> set cs. t \<le> et \<and> c \<le> ec"
    and "checked_calls cs sc st = (sc', st')"
  shows "\<exists>b'. fst (load_budget None sc' st') = Inr (Some b') \<and> within_budget b' \<and>
    max_tokens b' = max_tokens b \<and> max_cost b' = max_cost b"
  using assms
proof (induction cs arbitrary: sc st b)
  case (Cons p cs)
  obtain et ec t c where p: "p = (et, ec, t, c)" by (cases p)
  have l: "load_budget None sc st = (Inr (Some b), st)"
    using Cons.prems(1) load_budget_pure[of sc st] by (metis prod.collapse)
  show ?case
  proof (cases "would_exceed b et ec")
    case True
    obtain x st1 where bl: "block_run sc b st = (x, st1)" by force
    have "sc' = sc" "st' = st1" using Cons.prems(4) l True bl by (simp_all add: p precheck_def)
    then show ?thesis using load_after_block[OF bl] l Cons.prems(2) by auto
  next
    case False
    obtain sc1 st1 where ch: "charge None sc t c st = (sc1, st1)" by force
    have "checked_calls cs sc1 st1 = (sc', st')" using Cons.prems(4) l False ch by (simp add: p precheck_def)
    moreover have "within_budget (add_usage t c b)"
      using within_less[of et ec b t c] False not_exceed_within Cons.prems(3) p by auto
    ultimately show ?thesis
      using Cons.IH[of sc1 st1 "add_usage t c b"] charge_load[OF Cons.prems(1) ch] Cons.prems(3) by simp
  qed
qed simp

text \<open>Without an estimate a run that has used up its budget exactly is still let through.\<close>

lemma full_budget_passes:
  assumes "rs_budget sc = Some b" "max_tokens b = Some (used_tokens b)" "max_cost b = None"
  shows "precheck None sc 0 0 st = (Inr \<lparr>bd_fail_open = False, bd_skip_rate = False\<rparr>, st)"
  using assms by (simp add: precheck_def load_budget_def would_exceed_def)

end
