(* ===== verification/Gateway_Rate.thy ===== *)
theory Gateway_Rate
  imports Gateway_Budget
begin

text \<open>
  \<open>RateLimiter\<close> of core/inference_gateway.py: one sliding window of admission times per provider.
  The clock and the sleep are arguments on the world; a float is an exact rational. The loop of
  \<open>acquire\<close> takes fuel: \<open>None\<close> means that the fuel ran out.
\<close>

section \<open>State\<close>

record limiter =
  rl_max :: int
  rl_window :: rat

record 'w rate_state = "'w budget_state" +
  rt_buckets :: "(string, rat list) dict"

record 'w timer =
  tm_clock :: "'w \<Rightarrow> rat \<times> 'w"
  tm_sleep :: "rat \<Rightarrow> 'w \<Rightarrow> 'w"

section \<open>The window\<close>

fun evict_old :: "rat \<Rightarrow> rat list \<Rightarrow> rat list" where
  "evict_old cutoff [] = []"
| "evict_old cutoff (t # ts) = (if t \<le> cutoff then evict_old cutoff ts else t # ts)"

text \<open>The section under the lock: admit now, or the time to wait.\<close>

definition admit :: "limiter \<Rightarrow> rat \<Rightarrow> rat list \<Rightarrow> rat list \<times> rat option" where
  "admit l now b =
     (let b' = evict_old (now - rl_window l) b in
      if int (length b') < rl_max l then (b' @ [now], None)
      else (b', Some (hd b' + rl_window l - now)))"

definition emit_delay ::
  "limiter \<Rightarrow> run_scope \<Rightarrow> string \<Rightarrow> rat \<Rightarrow> ('w, 'm) budget_state_scheme \<Rightarrow> gateway_error option \<times> ('w, 'm) budget_state_scheme"
where
  "emit_delay l sc p wait =
     announce sc ''rate_limit.status'' (''rate limit reached: delaying call to provider '' @ sq p)
       [(''provider_id'', JStr p), (''delay_seconds'', JFloat wait), (''max_calls'', JInt (rl_max l)),
        (''window_seconds'', JFloat (rl_window l)), (''definition_id'', JStr (rs_definition_id sc))]"

fun acquire_loop ::
  "nat \<Rightarrow> 'w timer \<Rightarrow> limiter \<Rightarrow> run_scope \<Rightarrow> string \<Rightarrow> rat \<Rightarrow> ('w, 'm) rate_state_scheme \<Rightarrow>
    ((gateway_error + rat) \<times> ('w, 'm) rate_state_scheme) option" where
  "acquire_loop 0 tm l sc p waited st = None"
| "acquire_loop (Suc k) tm l sc p waited st =
     (case tm_clock tm (bs_world st) of (now, w1) \<Rightarrow>
      (case admit l now (dict_get_or (rt_buckets st) p []) of
         (b, None) \<Rightarrow> Some (Inr waited, st\<lparr>bs_world := w1, rt_buckets := dict_set p b (rt_buckets st)\<rparr>)
       | (b, Some wait) \<Rightarrow>
           (let st1 = st\<lparr>bs_world := w1, rt_buckets := dict_set p b (rt_buckets st)\<rparr> in
            if wait \<le> 0 then acquire_loop k tm l sc p waited st1
            else (case emit_delay l sc p wait st1 of
                    (Some e, st2) \<Rightarrow> Some (Inl e, st2)
                  | (None, st2) \<Rightarrow> acquire_loop k tm l sc p (waited + wait) (st2\<lparr>bs_world := tm_sleep tm wait (bs_world st2)\<rparr>)))))"

definition acquire_slot ::
  "nat \<Rightarrow> 'w timer \<Rightarrow> limiter \<Rightarrow> run_scope \<Rightarrow> string \<Rightarrow> ('w, 'm) rate_state_scheme \<Rightarrow>
    ((gateway_error + rat) \<times> ('w, 'm) rate_state_scheme) option" where
  "acquire_slot k tm l sc p st =
     (if rl_max l \<le> 0 \<or> rl_window l \<le> 0 then Some (Inr 0, st) else acquire_loop k tm l sc p 0 st)"

section \<open>The window holds for every interleaving\<close>

text \<open>
  The admissions of one provider by any number of threads: the lock makes each pass through
  the section one step, and the clock does not go back. \<open>H\<close> is every admission so far.
\<close>

inductive admissions :: "limiter \<Rightarrow> rat \<Rightarrow> rat list \<Rightarrow> rat list \<Rightarrow> bool" for l where
  none: "admissions l t [] []"
| admitted: "admissions l t H b \<Longrightarrow> t \<le> now \<Longrightarrow> admit l now b = (b', None) \<Longrightarrow> admissions l now (H @ [now]) b'"
| delayed: "admissions l t H b \<Longrightarrow> t \<le> now \<Longrightarrow> admit l now b = (b', Some wait) \<Longrightarrow> admissions l now H b'"

inductive_cases admissions_noneE: "admissions l t [] b"

lemma evict_old_suffix:
  "sorted b \<Longrightarrow> \<exists>pre. b = pre @ evict_old c b \<and> (\<forall>x \<in> set pre. x \<le> c) \<and> (\<forall>x \<in> set (evict_old c b). c < x)"
proof (induction b)
  case (Cons t ts)
  then show ?case
  proof (cases "t \<le> c")
    case True
    obtain pre where "ts = pre @ evict_old c ts" "\<forall>x \<in> set pre. x \<le> c" "\<forall>x \<in> set (evict_old c ts). c < x"
      using Cons by auto
    then show ?thesis using True by (intro exI[of _ "t # pre"]) simp
  qed auto
qed simp

text \<open>
  The bucket is the end of the history, sorted, everything before it is out of the window, and
  no window holds more admissions than allowed.
\<close>

definition window_ok :: "limiter \<Rightarrow> rat \<Rightarrow> rat list \<Rightarrow> rat list \<Rightarrow> bool" where
  "window_ok l t H b \<longleftrightarrow> (\<exists>old. H = old @ b \<and> (\<forall>x \<in> set old. x \<le> t - rl_window l)) \<and> sorted H \<and>
     (\<forall>x \<in> set H. x \<le> t) \<and> int (length b) \<le> rl_max l \<and>
     (\<forall>i. i + nat (rl_max l) < length H \<longrightarrow> H ! i + rl_window l \<le> H ! (i + nat (rl_max l)))"

lemma window_evict:
  assumes "window_ok l t H b" "t \<le> now"
  shows "window_ok l now H (evict_old (now - rl_window l) b)"
    and "x \<in> set (evict_old (now - rl_window l) b) \<Longrightarrow> now - rl_window l < x"
proof -
  obtain old where o: "H = old @ b" "\<forall>x \<in> set old. x \<le> t - rl_window l" using assms(1) by (auto simp: window_ok_def)
  have "sorted b" using assms(1) o(1) by (auto simp: window_ok_def sorted_append)
  then obtain pre where p: "b = pre @ evict_old (now - rl_window l) b" "\<forall>x \<in> set pre. x \<le> now - rl_window l"
    "\<forall>x \<in> set (evict_old (now - rl_window l) b). now - rl_window l < x" using evict_old_suffix by blast
  have "H = (old @ pre) @ evict_old (now - rl_window l) b" using o(1) p(1) by simp
  moreover have "\<forall>x \<in> set (old @ pre). x \<le> now - rl_window l" using o(2) p(2) assms(2) by fastforce
  moreover have "length (evict_old (now - rl_window l) b) \<le> length b" by (subst (2) p(1)) simp
  ultimately show "window_ok l now H (evict_old (now - rl_window l) b)"
    using assms unfolding window_ok_def by (smt (verit, best) of_nat_mono order_trans)
  show "x \<in> set (evict_old (now - rl_window l) b) \<Longrightarrow> now - rl_window l < x" using p(3) by blast
qed

lemma admissions_window:
  assumes "admissions l t H b" "0 < rl_max l"
  shows "window_ok l t H b"
  using assms
proof (induction rule: admissions.induct)
  case (none t)
  then show ?case by (simp add: window_ok_def)
next
  case (delayed t H b now b' wait)
  then show ?case using window_evict(1)[of l t H b now] by (auto simp: admit_def Let_def split: if_splits)
next
  case (admitted t H b now b')
  let ?b = "evict_old (now - rl_window l) b"
  have b': "b' = ?b @ [now]" and len: "int (length ?b) < rl_max l"
    using admitted.hyps(3) by (auto simp: admit_def Let_def split: if_splits)
  note w = window_evict(1)[OF admitted.IH[OF admitted.prems] admitted.hyps(2)]
  obtain old where o: "H = old @ ?b" "\<forall>x \<in> set old. x \<le> now - rl_window l" using w by (auto simp: window_ok_def)
  have gap: "(H @ [now]) ! i + rl_window l \<le> (H @ [now]) ! (i + nat (rl_max l))"
    if i: "i + nat (rl_max l) < length (H @ [now])" for i
  proof (cases "i + nat (rl_max l) < length H")
    case True
    then show ?thesis using w by (simp add: window_ok_def nth_append)
  next
    case False
    then have eq: "i + nat (rl_max l) = length H" using i by simp
    then have "i < length old" using len o(1) by (simp add: length_append)
    then have "H ! i \<le> now - rl_window l" using o by (simp add: nth_append)
    moreover have "i < length H" using eq admitted.prems by linarith
    ultimately show ?thesis using eq by (simp add: nth_append)
  qed
  show ?case unfolding window_ok_def
  proof (intro conjI allI impI)
    show "\<exists>old. H @ [now] = old @ b' \<and> (\<forall>x \<in> set old. x \<le> now - rl_window l)" using o b' by auto
    show "sorted (H @ [now])" using w by (simp add: window_ok_def sorted_append)
    show "\<forall>x \<in> set (H @ [now]). x \<le> now" using w by (simp add: window_ok_def)
    show "int (length b') \<le> rl_max l" using b' len by simp
  qed (rule gap)
qed

section \<open>The loop ends\<close>

text \<open>A clock that does not go back and a sleep that lasts at least as long as asked.\<close>

definition honest :: "'w timer \<Rightarrow> ('w \<Rightarrow> rat) \<Rightarrow> bool" where
  "honest tm time \<longleftrightarrow> (\<forall>w. fst (tm_clock tm w) = time w \<and> time (snd (tm_clock tm w)) = time w) \<and>
     (\<forall>d w. time w + d \<le> time (tm_sleep tm d w))"

lemma admit_now: "rl_max l > 0 \<Longrightarrow> sorted b \<Longrightarrow> int (length b) \<le> rl_max l \<Longrightarrow> b \<noteq> [] \<Longrightarrow> hd b + rl_window l \<le> now \<Longrightarrow>
    \<exists>b'. admit l now b = (b', None)"
proof -
  assume a: "rl_max l > 0" "sorted b" "int (length b) \<le> rl_max l" "b \<noteq> []" "hd b + rl_window l \<le> now"
  obtain x xs where b: "b = x # xs" using a(4) by (cases b) auto
  have "length (evict_old c xs) \<le> length xs" for c by (induction xs) auto
  then have "length (evict_old (now - rl_window l) b) < length b" using a(5) b by (simp add: le_diff_eq less_Suc_eq_le)
  then show ?thesis using a(3) by (simp add: admit_def Let_def)
qed

lemma admit_wait:
  assumes "admit l now b = (b', Some wait)" "sorted b" "0 < rl_max l"
  shows "sorted b'" "b' \<noteq> []" "wait = hd b' + rl_window l - now" "length b' \<le> length b" "0 < wait"
proof -
  have b': "b' = evict_old (now - rl_window l) b" "\<not> int (length b') < rl_max l" "wait = hd b' + rl_window l - now"
    using assms(1) by (auto simp: admit_def Let_def split: if_splits)
  obtain pre where p: "b = pre @ b'" "\<forall>x \<in> set b'. now - rl_window l < x"
    using evict_old_suffix[OF assms(2), of "now - rl_window l"] b'(1) by blast
  show "sorted b'" using assms(2) p(1) by (simp add: sorted_append)
  show ne: "b' \<noteq> []" using b'(2) assms(3) by auto
  show "wait = hd b' + rl_window l - now" by (rule b'(3))
  show "length b' \<le> length b" using p(1) by simp
  show "0 < wait" using p(2) ne b'(3) by (cases b') auto
qed

text \<open>With nobody else in the way two passes are enough: the second one is admitted.\<close>

lemma acquire_two_passes:
  assumes h: "honest tm time" and m: "0 < rl_max l" and run: "rs_run_id sc \<noteq> []"
    and b: "sorted (dict_get_or (rt_buckets st) p [])" "int (length (dict_get_or (rt_buckets st) p [])) \<le> rl_max l"
  shows "\<exists>d st'. acquire_loop (Suc (Suc k)) tm l sc p waited st = Some (Inr d, st') \<and> waited \<le> d"
proof -
  obtain now w1 where c: "tm_clock tm (bs_world st) = (now, w1)" by force
  have t: "time (bs_world st) = now" "time w1 = now" using h c by (auto simp: honest_def dest!: spec[of _ "bs_world st"])
  obtain b' x where ad: "admit l now (dict_get_or (rt_buckets st) p []) = (b', x)" by force
  show ?thesis
  proof (cases x)
    case None
    then show ?thesis using c ad by simp
  next
    case (Some wait)
    note wt = admit_wait[OF ad[unfolded Some] b(1) m]
    let ?st1 = "st\<lparr>bs_world := w1, rt_buckets := dict_set p b' (rt_buckets st)\<rparr>"
    obtain st2 where e: "emit_delay l sc p wait ?st1 = (None, st2)" "bs_world st2 = w1"
      "rt_buckets st2 = dict_set p b' (rt_buckets st)"
      using run by (simp add: emit_delay_def announce_def)
    let ?w2 = "tm_sleep tm wait w1"
    obtain now2 w3 where c2: "tm_clock tm ?w2 = (now2, w3)" by force
    have "now2 = time ?w2" using h c2 by (auto simp: honest_def dest!: spec[of _ ?w2])
    then have "now + wait \<le> now2" using h t(2) by (auto simp: honest_def)
    then have "hd b' + rl_window l \<le> now2" using wt(3) by simp
    moreover have "int (length b') \<le> rl_max l" using wt(4) b(2) by linarith
    ultimately obtain b2 where "admit l now2 b' = (b2, None)" using admit_now[OF m wt(1)] wt(2) by blast
    then show ?thesis using c ad Some wt(5) e c2 by (simp add: dict_get_or_def dict_simps)
  qed
qed

end
