(* ===== verification/Gateway_Pool.thy ===== *)
theory Gateway_Pool
  imports Gateway_Rate Py_Text
begin

text \<open>
  \<open>CredentialPoolManager\<close> and \<open>PromptCache\<close> of core/inference_gateway.py. The grant source is an
  argument on the world; it returns a grant, nothing, or raises. \<open>gw_trace\<close> is a ghost: the
  provider calls made so far, each with the grant it was given.
\<close>

section \<open>Failures of a provider call\<close>

datatype call_exc = Call_error string bool | Invalid_grant string | Other_error string

fun exc_text :: "call_exc \<Rightarrow> string" where
  "exc_text (Call_error m _) = m"
| "exc_text (Invalid_grant m) = m"
| "exc_text (Other_error m) = m"

fun is_retryable :: "call_exc \<Rightarrow> bool" where
  "is_retryable (Call_error _ r) = r"
| "is_retryable (Invalid_grant _) = False"
| "is_retryable (Other_error _) = True"

section \<open>The pool\<close>

type_synonym 'w grant_source = "string \<Rightarrow> string \<Rightarrow> 'w \<Rightarrow> (call_exc + grant_context option) \<times> 'w"

record quarantined_grant =
  qg_provider :: string
  qg_ref :: string
  qg_grant :: string
  qg_reason :: string
  qg_at :: string

record 'w pool_state = "'w rate_state" +
  ps_pools :: "(string, string list) dict"
  ps_cursor :: "(string, nat) dict"
  ps_quarantined :: "(string, string set) dict"
  ps_log :: "quarantined_grant list"
  ps_cache :: "(string \<times> string, grant_context) dict"
  ps_refs :: "(string, string \<times> string) dict"
  gw_trace :: "(string \<times> string option) list"

definition pool_refs :: "('w, 'm) pool_state_scheme \<Rightarrow> string \<Rightarrow> string list" where
  "pool_refs st p = dict_get_or (ps_pools st) p []"

definition has_pool :: "('w, 'm) pool_state_scheme \<Rightarrow> string \<Rightarrow> bool" where
  "has_pool st p = (pool_refs st p \<noteq> [])"

definition banned :: "('w, 'm) pool_state_scheme \<Rightarrow> string \<Rightarrow> string set" where
  "banned st p = dict_get_or (ps_quarantined st) p {}"

text \<open>The first index from the cursor on, around the list, whose reference is not quarantined.\<close>

definition next_ref :: "string list \<Rightarrow> string set \<Rightarrow> nat \<Rightarrow> nat option" where
  "next_ref refs q start = find (\<lambda>i. refs ! i \<notin> q) (map (\<lambda>offset. (start + offset) mod length refs) [0..<length refs])"

definition no_grant :: "string \<Rightarrow> call_exc" where
  "no_grant ref = Other_error (''credential pool grant source returned no grant reference for secret '' @ repr_str ref @
     ''; no raw-secret fallback is permitted'')"

definition acquire_grant ::
  "'w grant_source \<Rightarrow> string \<Rightarrow> string \<Rightarrow> ('w, 'm) pool_state_scheme \<Rightarrow>
    (call_exc + grant_context option) \<times> ('w, 'm) pool_state_scheme" where
  "acquire_grant src p target st =
     (let refs = pool_refs st p in
      if refs = [] then (Inr None, st)
      else (case next_ref refs (banned st p) (dict_get_or (ps_cursor st) p 0) of
        None \<Rightarrow> (Inr None, st)
      | Some i \<Rightarrow>
          let ref = refs ! i;
              st1 = st\<lparr>ps_cursor := dict_set p ((i + 1) mod length refs) (ps_cursor st)\<rparr>
          in (case map_of (ps_cache st1) (p, ref) of
                Some g \<Rightarrow> (Inr (Some g), st1\<lparr>ps_refs := dict_set (grant_id g) (p, ref) (ps_refs st1)\<rparr>)
              | None \<Rightarrow>
                (case src ref target (bs_world st1) of
                   (Inl e, w') \<Rightarrow> (Inl e, st1\<lparr>bs_world := w'\<rparr>)
                 | (Inr None, w') \<Rightarrow> (Inl (no_grant ref), st1\<lparr>bs_world := w'\<rparr>)
                 | (Inr (Some g), w') \<Rightarrow>
                     if grant_id g = [] \<or> session_ref g = [] then (Inl (no_grant ref), st1\<lparr>bs_world := w'\<rparr>)
                     else (Inr (Some g), st1\<lparr>bs_world := w', ps_cache := dict_set (p, ref) g (ps_cache st1),
                             ps_refs := dict_set (grant_id g) (p, ref) (ps_refs st1)\<rparr>)))))"

definition cached_ref :: "('w, 'm) pool_state_scheme \<Rightarrow> string \<Rightarrow> string \<Rightarrow> string option" where
  "cached_ref st p gid =
     map_option (\<lambda>((q, r), g). r) (find (\<lambda>((q, r), g). q = p \<and> grant_id g = gid) (ps_cache st))"

definition grant_ref :: "('w, 'm) pool_state_scheme \<Rightarrow> string \<Rightarrow> grant_context \<Rightarrow> string option" where
  "grant_ref st p g =
     (case map_of (ps_refs st) (grant_id g) of Some (q, r) \<Rightarrow> Some r | None \<Rightarrow> cached_ref st p (grant_id g))"

definition quarantine ::
  "string \<Rightarrow> grant_context \<Rightarrow> string \<Rightarrow> ('w, 'm) pool_state_scheme \<Rightarrow> ('w, 'm) pool_state_scheme" where
  "quarantine p g reason st =
     (case grant_ref st p g of
        None \<Rightarrow> st
      | Some ref \<Rightarrow> st\<lparr>ps_quarantined := dict_set p (insert ref (banned st p)) (ps_quarantined st),
          ps_cache := dict_del (p, ref) (ps_cache st),
          ps_log := ps_log st @ [\<lparr>qg_provider = p, qg_ref = ref, qg_grant = grant_id g, qg_reason = reason,
             qg_at = db_now (bs_db st)\<rparr>]\<rparr>)"

section \<open>The pool as an interface\<close>

text \<open>
  What the retry over a pool relies on: a grant stands for a usable reference, and quarantining
  it takes that reference and no other away.
\<close>

text \<open>The loop over the pool: a grant that the provider calls invalid is quarantined, and the next one tried.\<close>

fun pool_attempts ::
  "nat \<Rightarrow> ('s \<Rightarrow> (call_exc + 'g option) \<times> 's) \<Rightarrow> ('g \<Rightarrow> string \<Rightarrow> 's \<Rightarrow> 's) \<Rightarrow> ('g \<Rightarrow> 's \<Rightarrow> (call_exc + 'r) \<times> 's) \<Rightarrow> 's \<Rightarrow>
    ((call_exc + 'r) \<times> 's) option" where
  "pool_attempts 0 get put_away run s = None"
| "pool_attempts (Suc k) get put_away run s =
     (case get s of
        (Inl e, s1) \<Rightarrow> Some (Inl e, s1)
      | (Inr None, s1) \<Rightarrow> Some (Inl (Call_error ''credential pool exhausted: all grants quarantined'' False), s1)
      | (Inr (Some g), s1) \<Rightarrow>
          (case run g s1 of
             (Inl (Invalid_grant m), s2) \<Rightarrow> pool_attempts k get put_away run (put_away g m s2)
           | (r, s2) \<Rightarrow> Some (r, s2)))"

locale grant_pool =
  fixes get :: "'s \<Rightarrow> (call_exc + 'g option) \<times> 's"
    and put_away :: "'g \<Rightarrow> string \<Rightarrow> 's \<Rightarrow> 's"
    and usable :: "'s \<Rightarrow> string set"
    and ref_of :: "'s \<Rightarrow> 'g \<Rightarrow> string option"
  assumes usable_finite: "finite (usable s)"
    and get_usable: "get s = (Inr (Some g), s') \<Longrightarrow> usable s' = usable s \<and> (\<exists>r \<in> usable s. ref_of s' g = Some r)"
    and put_away_usable: "ref_of s g = Some r \<Longrightarrow> usable (put_away g m s) = usable s - {r}"
begin

lemma attempts_end:
  assumes keep: "\<And>g s x s'. run g s = (x, s') \<Longrightarrow> usable s' = usable s \<and> ref_of s' = ref_of s"
  shows "card (usable s) < k \<Longrightarrow> \<exists>y. pool_attempts k get put_away run s = Some y"
proof (induction k arbitrary: s)
  case (Suc k)
  obtain x s1 where g: "get s = (x, s1)" by force
  show ?case
  proof (cases "\<exists>g m s2. x = Inr (Some g) \<and> run g s1 = (Inl (Invalid_grant m), s2)")
    case True
    then obtain gr m s2 where t: "x = Inr (Some gr)" "run gr s1 = (Inl (Invalid_grant m), s2)" by blast
    obtain r where r: "r \<in> usable s" "usable s1 = usable s" "ref_of s1 gr = Some r"
      using get_usable[OF g[unfolded t(1)]] by blast
    have "usable (put_away gr m s2) = usable s - {r}"
      using put_away_usable[of s2 gr r m] keep[OF t(2)] r by simp
    then have "card (usable (put_away gr m s2)) < card (usable s)"
      using card_Diff1_less[OF usable_finite r(1)] by simp
    then show ?thesis using Suc.IH[of "put_away gr m s2"] Suc.prems g t by simp
  next
    case False
    then show ?thesis using g by (auto split: sum.splits option.splits prod.splits call_exc.splits)
  qed
qed simp

end

section \<open>What the pool does\<close>

lemma next_ref_Some:
  assumes "next_ref refs q start = Some i"
  shows "i < length refs" "refs ! i \<notin> q"
    and "\<exists>k < length refs. i = (start + k) mod length refs \<and> (\<forall>j < k. refs ! ((start + j) mod length refs) \<in> q)"
proof -
  obtain k where k: "k < length refs" "i = (start + k) mod length refs" "refs ! i \<notin> q"
    "\<forall>j < k. refs ! ((start + j) mod length refs) \<in> q"
    using assms by (auto simp: next_ref_def find_Some_iff)
  show "i < length refs" unfolding k(2) using k(1) by (intro mod_less_divisor) linarith
  show "refs ! i \<notin> q" by (rule k(3))
  show "\<exists>k < length refs. i = (start + k) mod length refs \<and> (\<forall>j < k. refs ! ((start + j) mod length refs) \<in> q)"
    using k by blast
qed

lemma next_ref_None:
  assumes "next_ref refs q start = None"
  shows "set refs \<subseteq> q"
proof
  fix r assume "r \<in> set refs"
  then obtain j where j: "j < length refs" "refs ! j = r" by (auto simp: in_set_conv_nth)
  let ?k = "(j + (length refs - start mod length refs)) mod length refs"
  have "(start + ?k) mod length refs = (start mod length refs + (j + (length refs - start mod length refs))) mod length refs"
    by (simp add: mod_simps)
  also have "start mod length refs + (j + (length refs - start mod length refs)) = j + length refs"
    using j(1) mod_less_divisor[of "length refs" start] by linarith
  finally have "(start + ?k) mod length refs = j" using j(1) by simp
  moreover have "?k < length refs" by (rule mod_less_divisor) (use j(1) in linarith)
  moreover have "\<forall>k < length refs. refs ! ((start + k) mod length refs) \<in> q"
    using assms by (simp add: next_ref_def find_None_iff)
  ultimately have "refs ! j \<in> q" by metis
  then show "r \<in> q" using j(2) by simp
qed

definition usable_refs :: "('w, 'm) pool_state_scheme \<Rightarrow> string \<Rightarrow> string set" where
  "usable_refs st p = set (pool_refs st p) - banned st p"

text \<open>What an acquisition can do, and what it leaves.\<close>

lemma acquire_keeps:
  assumes "acquire_grant src p target st = (x, st')"
  shows "ps_pools st' = ps_pools st" "ps_quarantined st' = ps_quarantined st" "gw_trace st' = gw_trace st"
    "bs_db st' = bs_db st" "bs_cells st' = bs_cells st" "rt_buckets st' = rt_buckets st" "ps_log st' = ps_log st"
  using assms by (auto simp: acquire_grant_def Let_def split: if_splits option.splits prod.splits sum.splits)

lemma usable_keeps:
  "acquire_grant src p target st = (x, st') \<Longrightarrow> usable_refs st' q = usable_refs st q"
  using acquire_keeps[of src p target st x st'] by (simp add: usable_refs_def pool_refs_def banned_def)

lemma acquire_Some:
  assumes "acquire_grant src p target st = (Inr (Some g), st')"
  shows "\<exists>i. next_ref (pool_refs st p) (banned st p) (dict_get_or (ps_cursor st) p 0) = Some i \<and>
    map_of (ps_refs st') (grant_id g) = Some (p, pool_refs st p ! i) \<and>
    ps_cursor st' = dict_set p ((i + 1) mod length (pool_refs st p)) (ps_cursor st)"
  using assms by (auto simp: acquire_grant_def Let_def dict_simps split: if_splits option.splits prod.splits sum.splits)

lemma acquire_usable:
  assumes "acquire_grant src p target st = (Inr (Some g), st')"
  shows "\<exists>r \<in> usable_refs st p. grant_ref st' p g = Some r"
proof -
  obtain i where i: "next_ref (pool_refs st p) (banned st p) (dict_get_or (ps_cursor st) p 0) = Some i"
    "map_of (ps_refs st') (grant_id g) = Some (p, pool_refs st p ! i)" using acquire_Some[OF assms] by blast
  then have "pool_refs st p ! i \<in> usable_refs st p" using next_ref_Some(1,2)[OF i(1)] by (simp add: usable_refs_def)
  then show ?thesis using i(2) by (auto simp: grant_ref_def)
qed

lemma acquire_None:
  assumes "acquire_grant src p target st = (Inr None, st')"
  shows "st' = st \<and> usable_refs st p = {}"
  using assms next_ref_None[of "pool_refs st p" "banned st p"]
  by (auto simp: acquire_grant_def Let_def usable_refs_def split: if_splits option.splits prod.splits sum.splits)

lemma quarantine_usable:
  "grant_ref st p g = Some r \<Longrightarrow> usable_refs (quarantine p g m st) p = usable_refs st p - {r}"
  by (auto simp: quarantine_def usable_refs_def pool_refs_def banned_def dict_get_or_def dict_simps)

lemma quarantine_other: "q \<noteq> p \<Longrightarrow> usable_refs (quarantine p g m st) q = usable_refs st q"
  by (auto simp: quarantine_def usable_refs_def pool_refs_def banned_def dict_get_or_def dict_simps split: option.splits)

interpretation pool: grant_pool "acquire_grant src p target" "quarantine p" "\<lambda>st. usable_refs st p" "\<lambda>st. grant_ref st p"
  for src p target
proof
  show "finite (usable_refs s p)" for s by (simp add: usable_refs_def)
  show "usable_refs s' p = usable_refs s p \<and> (\<exists>r \<in> usable_refs s p. grant_ref s' p g = Some r)"
    if "acquire_grant src p target s = (Inr (Some g), s')" for s s' g
    using usable_keeps[OF that] acquire_usable[OF that] by simp
  show "usable_refs (quarantine p g m s) p = usable_refs s p - {r}" if "grant_ref s p g = Some r"
    for s g r m
    by (rule quarantine_usable[OF that])
qed

text \<open>
  Rotation: the next acquisition starts behind the reference used last, so it uses the same one
  again only when every other is quarantined.
\<close>

lemma rotation:
  assumes a1: "acquire_grant src p target st = (Inr (Some g1), st1)" and same: "pool_refs st2 p = pool_refs st p"
    and cur: "dict_get_or (ps_cursor st2) p 0 = dict_get_or (ps_cursor st1) p 0"
    and a2: "acquire_grant src p target st2 = (Inr (Some g2), st3)"
  shows "\<exists>i j. i < length (pool_refs st p) \<and> j < length (pool_refs st p) \<and>
    map_of (ps_refs st1) (grant_id g1) = Some (p, pool_refs st p ! i) \<and>
    map_of (ps_refs st3) (grant_id g2) = Some (p, pool_refs st p ! j) \<and>
    (i = j \<longrightarrow> (\<forall>k < length (pool_refs st p). k \<noteq> i \<longrightarrow> pool_refs st p ! k \<in> banned st2 p))"
proof -
  let ?n = "length (pool_refs st p)"
  obtain i where i: "next_ref (pool_refs st p) (banned st p) (dict_get_or (ps_cursor st) p 0) = Some i"
    "map_of (ps_refs st1) (grant_id g1) = Some (p, pool_refs st p ! i)"
    "ps_cursor st1 = dict_set p ((i + 1) mod ?n) (ps_cursor st)" using acquire_Some[OF a1] by blast
  obtain j where j: "next_ref (pool_refs st2 p) (banned st2 p) (dict_get_or (ps_cursor st2) p 0) = Some j"
    "map_of (ps_refs st3) (grant_id g2) = Some (p, pool_refs st2 p ! j)" using acquire_Some[OF a2] by blast
  have start: "dict_get_or (ps_cursor st2) p 0 = (i + 1) mod ?n" using cur i(3) by (simp add: dict_get_or_def dict_simps)
  note b = next_ref_Some[OF j(1)[unfolded same start]]
  have li: "i < ?n" by (rule next_ref_Some(1)[OF i(1)])
  obtain m where m: "m < ?n" "j = ((i + 1) mod ?n + m) mod ?n"
    "\<forall>x < m. pool_refs st p ! (((i + 1) mod ?n + x) mod ?n) \<in> banned st2 p" using b(3) by blast
  have all: "pool_refs st p ! k \<in> banned st2 p" if eq: "i = j" and k: "k < ?n" "k \<noteq> i" for k
  proof -
    have i0: "(i + 1 + m) mod ?n = i" using m(2) eq by (simp add: mod_simps)
    have "m = ?n - 1"
    proof (cases "i + 1 + m < ?n")
      case True
      then show ?thesis using i0 by simp
    next
      case False
      then have "(i + 1 + m) mod ?n = i + 1 + m - ?n" using m(1) li by (simp add: mod_if)
      then show ?thesis using i0 False li by linarith
    qed
    let ?x = "(if i < k then k - i - 1 else ?n + k - i - 1)"
    have "?x < m" using \<open>m = ?n - 1\<close> k li by auto
    moreover have "((i + 1) mod ?n + ?x) mod ?n = k"
    proof -
      have "((i + 1) mod ?n + ?x) mod ?n = (i + 1 + ?x) mod ?n" by (simp add: mod_simps)
      also have "i + 1 + ?x = (if i < k then k else ?n + k)" using k li by auto
      also have "(if i < k then k else ?n + k) mod ?n = k" using k(1) by simp
      finally show ?thesis .
    qed
    ultimately show ?thesis using m(3) by metis
  qed
  have "j < ?n" by (rule b(1))
  then show ?thesis using li i(2) j(2)[unfolded same] all by blast
qed

section \<open>The prompt cache\<close>

record model_response =
  mr_text :: string
  mr_provider :: string
  mr_model :: string
  mr_tokens :: "int option"

record prompt_cache =
  pc_enabled :: bool
  pc_max :: int
  pc_store :: "(string, model_response) dict"
  pc_order :: "string list"

definition new_cache :: "bool \<Rightarrow> int \<Rightarrow> prompt_cache" where
  "new_cache enabled bound = \<lparr>pc_enabled = enabled, pc_max = bound, pc_store = [], pc_order = []\<rparr>"

definition cache_get :: "prompt_cache \<Rightarrow> model_request \<Rightarrow> model_response option" where
  "cache_get c r = (if \<not> pc_enabled c \<or> cache_key r = [] then None else map_of (pc_store c) (cache_key r))"

text \<open>Popping an empty queue raises; \<open>cache_put_ok\<close> shows that it does not happen.\<close>

definition cache_put :: "prompt_cache \<Rightarrow> model_request \<Rightarrow> model_response \<Rightarrow> string + prompt_cache" where
  "cache_put c r v =
     (if \<not> pc_enabled c \<or> cache_key r = [] then Inr c
      else if dict_has (pc_store c) (cache_key r) then Inr (c\<lparr>pc_store := dict_set (cache_key r) v (pc_store c)\<rparr>)
      else
        rbind (if 0 < pc_max c \<and> pc_max c \<le> int (length (pc_store c))
               then (case pc_order c of
                       [] \<Rightarrow> Inl ''pop from an empty deque''
                     | k # ks \<Rightarrow> Inr (c\<lparr>pc_order := ks, pc_store := dict_del k (pc_store c)\<rparr>))
               else Inr c)
          (\<lambda>c1. Inr (c1\<lparr>pc_order := pc_order c1 @ [cache_key r],
                        pc_store := dict_set (cache_key r) v (pc_store c1)\<rparr>)))"

text \<open>The queue holds the stored keys once each, and a positive bound is kept.\<close>

definition cache_ok :: "prompt_cache \<Rightarrow> bool" where
  "cache_ok c \<longleftrightarrow> dict_ok (pc_store c) \<and> distinct (pc_order c) \<and> set (pc_order c) = set (dict_keys (pc_store c)) \<and>
     (0 < pc_max c \<longrightarrow> int (length (pc_store c)) \<le> pc_max c)"

lemma new_cache_ok: "cache_ok (new_cache e m)"
  by (simp add: cache_ok_def new_cache_def)

lemma cache_len: "cache_ok c \<Longrightarrow> length (pc_order c) = length (pc_store c)"
  unfolding cache_ok_def by (metis distinct_card length_map)

lemma dict_set_new_length: "\<not> dict_has d k \<Longrightarrow> length (dict_set k v d) = Suc (length d)"
  by (induction d) (auto simp: dict_has_def split: if_splits)

lemma dict_set_old_length: "dict_has d k \<Longrightarrow> length (dict_set k v d) = length d"
  by (induction d) (auto simp: dict_has_def split: if_splits)

lemma dict_set_fst: "fst ` set (dict_set k v d) = insert k (fst ` set d)"
  using dict_set_keys[of k v d] by simp

lemma dict_keys_del: "set (dict_keys (dict_del k d)) = set (dict_keys d) - {k}"
proof -
  have "dict_has (dict_del k d) x \<longleftrightarrow> x \<noteq> k \<and> dict_has d x" for x by (simp add: dict_simps)
  then show ?thesis unfolding dict_has_iff by blast
qed

lemma cache_put_ok:
  assumes ok: "cache_ok c"
  shows "\<exists>c'. cache_put c r v = Inr c' \<and> cache_ok c' \<and> pc_max c' = pc_max c \<and> pc_enabled c' = pc_enabled c \<and>
    (pc_enabled c \<and> cache_key r \<noteq> [] \<longrightarrow> cache_get c' r = Some v)"
proof (cases "\<not> pc_enabled c \<or> cache_key r = [] \<or> dict_has (pc_store c) (cache_key r)")
  case True
  have "length (dict_set (cache_key r) v (pc_store c)) = length (pc_store c)"
    "insert (cache_key r) (fst ` set (pc_store c)) = fst ` set (pc_store c)"
    if "dict_has (pc_store c) (cache_key r)"
    using that by (simp_all add: dict_set_old_length dict_has_iff insert_absorb)
  then show ?thesis using ok True
    by (auto simp: cache_put_def cache_ok_def cache_get_def dict_set_get dict_set_fst)
next
  case False
  let ?k = "cache_key r"
  have new: "?k \<notin> set (dict_keys (pc_store c))" using False by (simp add: dict_has_iff)
  show ?thesis
  proof (cases "0 < pc_max c \<and> pc_max c \<le> int (length (pc_store c))")
    case roomy: False
    have "length (dict_set ?k v (pc_store c)) = Suc (length (pc_store c))"
      using False by (intro dict_set_new_length) simp
    then show ?thesis using ok False roomy new
      by (auto simp: cache_put_def cache_ok_def cache_get_def dict_set_fst dict_set_get)
  next
    case full: True
    obtain o1 os where o: "pc_order c = o1 # os" using cache_len[OF ok] full by (cases "pc_order c") auto
    let ?d = "dict_del o1 (pc_store c)"
    have o1: "o1 \<in> set (dict_keys (pc_store c))" "o1 \<notin> set os" "distinct os"
      "set os = set (dict_keys (pc_store c)) - {o1}"
      using ok o by (auto simp: cache_ok_def)
    have okd: "dict_ok ?d" "set (dict_keys ?d) = set os" using ok o1(4) dict_keys_del[of o1 "pc_store c"]
      by (simp_all add: cache_ok_def)
    have "length ?d = length os" using okd o1(3) by (metis distinct_card length_map)
    moreover have "\<not> dict_has ?d ?k" unfolding dict_has_iff okd(2) o1(4) using new by simp
    ultimately have len: "length (dict_set ?k v ?d) = Suc (length os)" by (simp add: dict_set_new_length)
    have "?k \<notin> set os" using new o1(4) by simp
    moreover have "int (Suc (length os)) \<le> pc_max c" using cache_len[OF ok] o ok full by (simp add: cache_ok_def)
    ultimately show ?thesis using ok False full o okd o1(3) len
      by (simp add: cache_put_def cache_ok_def cache_get_def dict_set_fst dict_set_get) 
  qed
qed

end
