(* ===== verification/Gateway.thy ===== *)
theory Gateway
  imports Gateway_Pool Provider_Router
begin

text \<open>
  \<open>InferenceGateway\<close> of core/inference_gateway.py: prompt cache, budget check, routing, and for each
  candidate the rate limit, the retry loop with backoff and the rotation over the credential
  pool; then the accounting, or the record of the exhaustion. Provider call, clocks, health
  snapshot, estimator and grant source are arguments on the world.
\<close>

section \<open>Configuration and state\<close>

record 'w gateway = "'w pool_state" +
  gw_cache :: prompt_cache

type_synonym 'w provider_call =
  "string \<Rightarrow> model_request \<Rightarrow> run_scope \<Rightarrow> grant_context option \<Rightarrow> 'w \<Rightarrow> (call_exc + model_response) \<times> 'w"

record 'w gateway_config =
  gc_call :: "'w provider_call \<times> bool"
  gc_policy :: routing_policy
  gc_health :: "('w \<Rightarrow> provider_health \<times> 'w) option"
  gc_sleep :: "rat \<Rightarrow> 'w \<Rightarrow> 'w"
  gc_base :: rat
  gc_cap :: rat
  gc_budgets :: "'w budget_source option option"
  gc_limiter :: "(limiter \<times> 'w timer) option"
  gc_estimator :: "(model_request \<Rightarrow> int \<times> rat) option"
  gc_cache :: bool
  gc_grants :: "'w grant_source option"

text \<open>The constructor refuses negative backoff durations.\<close>

definition config_ok :: "'w gateway_config \<Rightarrow> bool" where
  "config_ok cfg \<longleftrightarrow> \<not> (gc_base cfg < 0 \<or> gc_cap cfg < 0)"

section \<open>One attempt\<close>

text \<open>The provider call and whether it takes a grant; each call is noted in the ghost trace.\<close>

definition invoke_provider ::
  "'w provider_call \<times> bool \<Rightarrow> string \<Rightarrow> model_request \<Rightarrow> run_scope \<Rightarrow> grant_context option \<Rightarrow> 'w gateway \<Rightarrow>
    (call_exc + model_response) \<times> 'w gateway" where
  "invoke_provider pc p req sc g st =
     (case fst pc p req sc (if snd pc then g else None) (bs_world st) of
        (r, w') \<Rightarrow> (r, st\<lparr>bs_world := w', gw_trace := gw_trace st @ [(p, map_option grant_id g)]\<rparr>))"

definition pooled :: "'w gateway_config \<Rightarrow> 'w gateway \<Rightarrow> string \<Rightarrow> bool" where
  "pooled cfg st p \<longleftrightarrow> gc_grants cfg \<noteq> None \<and> has_pool st p"

text \<open>The fuel is one more than the references of the pool; \<open>attempt_ends\<close> shows that it is enough.\<close>

definition pool_attempt ::
  "'w grant_source \<Rightarrow> 'w provider_call \<times> bool \<Rightarrow> string \<Rightarrow> model_request \<Rightarrow> run_scope \<Rightarrow> 'w gateway \<Rightarrow>
    ((call_exc + model_response) \<times> 'w gateway) option" where
  "pool_attempt src pc p req sc st =
     pool_attempts (Suc (length (pool_refs st p))) (acquire_grant src p (''inference:'' @ p)) (quarantine p)
       (\<lambda>g. invoke_provider pc p req sc (Some g)) st"

definition attempt ::
  "'w gateway_config \<Rightarrow> 'w provider_call \<times> bool \<Rightarrow> string \<Rightarrow> model_request \<Rightarrow> run_scope \<Rightarrow> 'w gateway \<Rightarrow>
    (call_exc + model_response) \<times> 'w gateway" where
  "attempt cfg pc p req sc st =
     (case gc_grants cfg of
        None \<Rightarrow> invoke_provider pc p req sc None st
      | Some src \<Rightarrow>
          if \<not> has_pool st p then invoke_provider pc p req sc None st
          else (case pool_attempt src pc p req sc st of
                  Some y \<Rightarrow> y | None \<Rightarrow> (Inl (Other_error ''out of fuel''), st)))"

section \<open>Retries\<close>

definition backoff_delay :: "'w gateway_config \<Rightarrow> nat \<Rightarrow> rat" where
  "backoff_delay cfg n =
     (let d = gc_base cfg * 2 ^ n in if gc_cap cfg \<noteq> 0 then min d (gc_cap cfg) else d)"

text \<open>\<open>left\<close> is how many retries remain and \<open>n\<close> how many attempts were made.\<close>

fun retry_loop ::
  "nat \<Rightarrow> nat \<Rightarrow> ('s \<Rightarrow> (call_exc + 'r) \<times> 's) \<Rightarrow> (nat \<Rightarrow> 's \<Rightarrow> 's) \<Rightarrow> 's \<Rightarrow> ((nat \<times> call_exc) + 'r) \<times> 's" where
  "retry_loop left n att wait s =
     (case att s of
        (Inr r, s') \<Rightarrow> (Inr r, s')
      | (Inl e, s') \<Rightarrow>
          if \<not> is_retryable e then (Inl (Suc n, e), s')
          else (case left of 0 \<Rightarrow> (Inl (Suc n, e), s') | Suc k \<Rightarrow> retry_loop k (Suc n) att wait (wait n s')))"

declare retry_loop.simps [simp del]

definition ensure_provider_id :: "model_response \<Rightarrow> string \<Rightarrow> model_response" where
  "ensure_provider_id r p = (if mr_provider r = [] then r\<lparr>mr_provider := p\<rparr> else r)"

definition call_with_retry ::
  "'w gateway_config \<Rightarrow> 'w provider_call \<times> bool \<Rightarrow> string \<Rightarrow> model_request \<Rightarrow> run_scope \<Rightarrow> int \<Rightarrow> 'w gateway \<Rightarrow>
    (attempt_failure + model_response) \<times> 'w gateway" where
  "call_with_retry cfg pc p req sc retries st =
     (case retry_loop (nat retries) 0 (attempt cfg pc p req sc)
         (\<lambda>n s. s\<lparr>bs_world := gc_sleep cfg (backoff_delay cfg n) (bs_world s)\<rparr>) st of
        (Inl (n, e), st') \<Rightarrow> (Inl \<lparr>af_provider = p, af_attempts = n, af_error = exc_text e\<rparr>, st')
      | (Inr r, st') \<Rightarrow> (Inr (ensure_provider_id r p), st'))"

section \<open>The pipeline\<close>

definition estimate :: "'w gateway_config \<Rightarrow> model_request \<Rightarrow> int \<times> rat" where
  "estimate cfg req = (case gc_estimator cfg of None \<Rightarrow> (0, 0) | Some f \<Rightarrow> f req)"

definition charge_budget ::
  "'w gateway_config \<Rightarrow> run_scope \<Rightarrow> model_response \<Rightarrow> int \<times> rat \<Rightarrow> 'w gateway \<Rightarrow> run_scope \<times> 'w gateway" where
  "charge_budget cfg sc r est st =
     (case gc_budgets cfg of
        None \<Rightarrow> (sc, st)
      | Some src \<Rightarrow> charge src sc (case mr_tokens r of Some t \<Rightarrow> t | None \<Rightarrow> fst est) (snd est) st)"

definition exhausted_message :: "attempt_failure list \<Rightarrow> string" where
  "exhausted_message fs = (if fs = [] then ''no eligible providers were available for this model call''
     else ''all providers failed for this model call: '' @ str_join '', '' (map af_provider fs))"

definition failure_json :: "attempt_failure \<Rightarrow> json" where
  "failure_json f = JObj [(''provider_id'', JStr (af_provider f)), (''attempts'', JInt (int (af_attempts f))),
     (''error'', JStr (af_error f))]"

definition exhausted ::
  "run_scope \<Rightarrow> attempt_failure list \<Rightarrow> 'w gateway \<Rightarrow> gateway_error \<times> 'w gateway" where
  "exhausted sc fs st =
     (case announce sc ''inference.exhausted'' (exhausted_message fs)
         [(''definition_id'', JStr (rs_definition_id sc)),
          (''failed_providers'', JList (map (\<lambda>f. JStr (af_provider f)) fs)),
          (''failures'', JList (map failure_json fs))] st of
        (Some e, st') \<Rightarrow> (e, st') | (None, st') \<Rightarrow> (Providers_failed fs, st'))"

definition remember ::
  "'w gateway_config \<Rightarrow> model_request \<Rightarrow> model_response \<Rightarrow> 'w gateway \<Rightarrow> (gateway_error + model_response) \<times> 'w gateway" where
  "remember cfg req r st =
     (if \<not> gc_cache cfg then (Inr r, st)
      else (case cache_put (gw_cache st) req r of
              Inl e \<Rightarrow> (Inl (Cache_fault e), st) | Inr c \<Rightarrow> (Inr r, st\<lparr>gw_cache := c\<rparr>)))"

definition wait_for_slot ::
  "nat \<Rightarrow> 'w gateway_config \<Rightarrow> bool \<Rightarrow> run_scope \<Rightarrow> string \<Rightarrow> 'w gateway \<Rightarrow> ((gateway_error + rat) \<times> 'w gateway) option" where
  "wait_for_slot k cfg skip sc p st =
     (case gc_limiter cfg of
        None \<Rightarrow> Some (Inr 0, st)
      | Some (l, tm) \<Rightarrow> if skip then Some (Inr 0, st) else acquire_slot k tm l sc p st)"

text \<open>\<open>None\<close>: the fuel \<open>k\<close> of the rate limit ran out.\<close>

fun try_candidates ::
  "nat \<Rightarrow> 'w gateway_config \<Rightarrow> 'w provider_call \<times> bool \<Rightarrow> model_request \<Rightarrow> run_scope \<Rightarrow> int \<Rightarrow> bool \<Rightarrow> int \<times> rat \<Rightarrow>
    string list \<Rightarrow> attempt_failure list \<Rightarrow> 'w gateway \<Rightarrow> ((gateway_error + model_response) \<times> run_scope \<times> 'w gateway) option"
where
  "try_candidates k cfg pc req sc retries skip est [] fs st =
     (case exhausted sc fs st of (e, st') \<Rightarrow> Some (Inl e, sc, st'))"
| "try_candidates k cfg pc req sc retries skip est (p # ps) fs st =
     (case wait_for_slot k cfg skip sc p st of
        None \<Rightarrow> None
      | Some (Inl e, st1) \<Rightarrow> Some (Inl e, sc, st1)
      | Some (Inr _, st1) \<Rightarrow>
          (case call_with_retry cfg pc p req sc retries st1 of
             (Inl f, st2) \<Rightarrow> try_candidates k cfg pc req sc retries skip est ps (fs @ [f]) st2
           | (Inr r, st2) \<Rightarrow>
               (case charge_budget cfg sc r est st2 of (sc', st3) \<Rightarrow>
                  (case remember cfg req r st3 of (x, st4) \<Rightarrow> Some (x, sc', st4)))))"

definition check_budget ::
  "'w gateway_config \<Rightarrow> run_scope \<Rightarrow> int \<times> rat \<Rightarrow> 'w gateway \<Rightarrow> (gateway_error + bool) \<times> 'w gateway" where
  "check_budget cfg sc est st =
     (case gc_budgets cfg of
        None \<Rightarrow> (Inr False, st)
      | Some src \<Rightarrow> (case precheck src sc (fst est) (snd est) st of
          (Inl e, st') \<Rightarrow> (Inl e, st') | (Inr d, st') \<Rightarrow> (Inr (bd_skip_rate d), st')))"

definition current_health :: "'w gateway_config \<Rightarrow> 'w gateway \<Rightarrow> provider_health \<times> 'w gateway" where
  "current_health cfg st =
     (case gc_health cfg of None \<Rightarrow> ([], st)
      | Some f \<Rightarrow> (case f (bs_world st) of (h, w') \<Rightarrow> (h, st\<lparr>bs_world := w'\<rparr>)))"

definition call ::
  "nat \<Rightarrow> 'w gateway_config \<Rightarrow> model_request \<Rightarrow> run_scope \<Rightarrow> routing_policy option \<Rightarrow> ('w provider_call \<times> bool) option \<Rightarrow>
    'w gateway \<Rightarrow> ((gateway_error + model_response) \<times> run_scope \<times> 'w gateway) option" where
  "call k cfg req sc policy override st =
     (let pol = (case policy of Some x \<Rightarrow> x | None \<Rightarrow> gc_policy cfg);
          pc = (case override of Some x \<Rightarrow> x | None \<Rightarrow> gc_call cfg)
      in case (if gc_cache cfg then cache_get (gw_cache st) req else None) of
        Some r \<Rightarrow> Some (Inr r, sc, st)
      | None \<Rightarrow>
          (case check_budget cfg sc (estimate cfg req) st of
             (Inl e, st1) \<Rightarrow> Some (Inl e, sc, st1)
           | (Inr skip, st1) \<Rightarrow>
               (case current_health cfg st1 of (h, st2) \<Rightarrow>
                  try_candidates k cfg pc req sc (max_retries pol) skip (estimate cfg req) (select pol h) [] st2)))"

end
