(* ===== verification/Gateway_Facts.thy ===== *)
theory Gateway_Facts
  imports Gateway
begin

text \<open>What a call through the gateway does: which providers it asks, how often, and in what order.\<close>

section \<open>Loops\<close>

text \<open>A relation that every operation of a loop respects holds between its ends.\<close>

lemma retry_loop_rel:
  assumes att: "\<And>s x s'. att s = (x, s') \<Longrightarrow> R s s'" and wait: "\<And>n s. R s (wait n s)"
    and trans: "\<And>a b c. R a b \<Longrightarrow> R b c \<Longrightarrow> R a c"
  shows "retry_loop left n att wait s = (x, s') \<Longrightarrow> R s s'"
proof (induction left arbitrary: n s)
  case 0
  then show ?case using att by (subst (asm) retry_loop.simps) (auto split: prod.splits sum.splits if_splits)
next
  case (Suc k)
  obtain y s1 where y: "att s = (y, s1)" by force
  show ?case
  proof (cases "\<exists>e. y = Inl e \<and> is_retryable e")
    case True
    then have "retry_loop k (Suc n) att wait (wait n s1) = (x, s')"
      using Suc.prems y by (subst (asm) retry_loop.simps) auto
    then show ?thesis using Suc.IH trans att[OF y] wait by blast
  next
    case False
    then have "s' = s1" using Suc.prems y by (subst (asm) retry_loop.simps) (auto split: sum.splits if_splits)
    then show ?thesis using att[OF y] by simp
  qed
qed

lemma pool_attempts_rel:
  assumes get: "\<And>s x s'. get s = (x, s') \<Longrightarrow> R s s'" and put: "\<And>g m s. R s (put g m s)"
    and run: "\<And>g s x s'. run g s = (x, s') \<Longrightarrow> R s s'" and trans: "\<And>a b c. R a b \<Longrightarrow> R b c \<Longrightarrow> R a c"
  shows "pool_attempts k get put run s = Some (x, s') \<Longrightarrow> R s s'"
proof (induction k arbitrary: s)
  case (Suc k)
  obtain y s1 where y: "get s = (y, s1)" by force
  show ?case
  proof (cases "\<exists>g. y = Inr (Some g)")
    case False
    then have "s' = s1" using Suc.prems y by (auto split: sum.splits option.splits)
    then show ?thesis using get[OF y] by simp
  next
    case True
    then obtain g where g: "y = Inr (Some g)" by blast
    obtain z s2 where z: "run g s1 = (z, s2)" by force
    have R: "R s s2" using trans get[OF y] run[OF z] by blast
    show ?thesis
    proof (cases "\<exists>m. z = Inl (Invalid_grant m)")
      case True
      then obtain m where "z = Inl (Invalid_grant m)" by blast
      then have "pool_attempts k get put run (put g m s2) = Some (x, s')" using Suc.prems y g z by simp
      then show ?thesis using Suc.IH trans R put by blast
    next
      case False
      then have "s' = s2" using Suc.prems y g z by (auto split: sum.splits call_exc.splits)
      then show ?thesis using R by simp
    qed
  qed
qed simp

text \<open>Each attempt of a retry loop adds one block to a trace.\<close>

lemma retry_loop_blocks:
  assumes att: "\<And>s x s'. I s \<Longrightarrow> att s = (x, s') \<Longrightarrow> I s' \<and> (\<exists>c. P c \<and> tr s' = tr s @ c)"
    and wait: "\<And>n s. I s \<Longrightarrow> I (wait n s) \<and> tr (wait n s) = tr s"
  shows "I s \<Longrightarrow> retry_loop left n att wait s = (x, s') \<Longrightarrow>
    \<exists>cs. cs \<noteq> [] \<and> (\<forall>c \<in> set cs. P c) \<and> length cs \<le> Suc left \<and> tr s' = tr s @ concat cs \<and>
      (\<forall>m e. x = Inl (m, e) \<longrightarrow> m = n + length cs)"
proof (induction left arbitrary: n s)
  case 0
  obtain y s1 where y: "att s = (y, s1)" by force
  obtain c where c: "P c" "tr s1 = tr s @ c" using att[OF 0(1) y] by blast
  have "s' = s1" "\<forall>m e. x = Inl (m, e) \<longrightarrow> m = Suc n"
    using 0(2) y by (subst (asm) retry_loop.simps; auto split: sum.splits if_splits)+
  then show ?case using c by (intro exI[of _ "[c]"]) simp
next
  case (Suc k)
  obtain y s1 where y: "att s = (y, s1)" by force
  obtain c where c: "I s1" "P c" "tr s1 = tr s @ c" using att[OF Suc.prems(1) y] by blast
  show ?case
  proof (cases "\<exists>e. y = Inl e \<and> is_retryable e")
    case True
    then have "retry_loop k (Suc n) att wait (wait n s1) = (x, s')"
      using Suc.prems(2) y by (subst (asm) retry_loop.simps) auto
    from Suc.IH[OF conjunct1[OF wait[OF c(1)]] this]
    obtain cs where "cs \<noteq> []" "\<forall>c \<in> set cs. P c" "length cs \<le> Suc k" "tr s' = tr (wait n s1) @ concat cs"
      "\<forall>m e. x = Inl (m, e) \<longrightarrow> m = Suc n + length cs" by (elim exE conjE)
    then show ?thesis using c(2,3) wait[OF c(1)] by (intro exI[of _ "c # cs"]) simp
  next
    case False
    then have "s' = s1" "\<forall>m e. x = Inl (m, e) \<longrightarrow> m = Suc n"
      using Suc.prems(2) y by (subst (asm) retry_loop.simps; auto split: sum.splits if_splits)+
    then show ?thesis using c by (intro exI[of _ "[c]"]) simp
  qed
qed

section \<open>One provider\<close>

text \<open>What every part of a call keeps: the configured pools and the log, and it only adds calls of \<open>p\<close>.\<close>

definition calls_only :: "string \<Rightarrow> 'w gateway \<Rightarrow> 'w gateway \<Rightarrow> bool" where
  "calls_only p s s' \<longleftrightarrow> ps_pools s' = ps_pools s \<and> gw_cache s' = gw_cache s \<and> bs_cells s' = bs_cells s \<and>
     (\<exists>c. gw_trace s' = gw_trace s @ c \<and> (\<forall>x \<in> set c. fst x = p))"

lemma calls_only_trans: "calls_only p a b \<Longrightarrow> calls_only p b c \<Longrightarrow> calls_only p a c"
  unfolding calls_only_def by fastforce

lemma calls_only_count: "calls_only p s s' \<Longrightarrow> \<exists>n. map fst (gw_trace s') = map fst (gw_trace s) @ replicate n p"
proof -
  assume "calls_only p s s'"
  then obtain c where c: "gw_trace s' = gw_trace s @ c" "\<forall>x \<in> set c. fst x = p" unfolding calls_only_def by blast
  have "map fst c = replicate (length c) p" using c(2) by (induction c) auto
  then show ?thesis using c(1) by auto
qed

lemma calls_only_same:
  "ps_pools s' = ps_pools s \<Longrightarrow> gw_cache s' = gw_cache s \<Longrightarrow> bs_cells s' = bs_cells s \<Longrightarrow> gw_trace s' = gw_trace s \<Longrightarrow> calls_only p s s'"
  unfolding calls_only_def by (auto intro: exI[of _ "[]"])

lemma invoke_calls: "invoke_provider pc p req sc g st = (x, st') \<Longrightarrow> calls_only p st st' \<and> gw_trace st' = gw_trace st @ [(p, map_option grant_id g)]"
  unfolding calls_only_def by (auto simp: invoke_provider_def split: prod.splits)

lemma invoke_usable: "invoke_provider pc p req sc g st = (x, st') \<Longrightarrow>
    usable_refs st' q = usable_refs st q \<and> grant_ref st' q = grant_ref st q"
  by (auto simp: invoke_provider_def usable_refs_def pool_refs_def banned_def grant_ref_def cached_ref_def fun_eq_iff
      split: prod.splits option.split)

lemma acquire_cache: "acquire_grant src p t (st :: 'w gateway) = (x, st') \<Longrightarrow> gw_cache st' = gw_cache st"
  by (auto simp: acquire_grant_def Let_def split: if_splits option.splits prod.splits sum.splits)

lemma quarantine_same: "calls_only p s (quarantine q g m s)"
  by (rule calls_only_same) (simp_all add: quarantine_def split: option.split)

text \<open>The loop over a pool ends: its fuel is enough.\<close>

lemma attempt_ends: "\<exists>y. pool_attempt src pc p req sc st = Some y"
proof -
  have "card (usable_refs st p) \<le> card (set (pool_refs st p))" by (intro card_mono) (auto simp: usable_refs_def)
  then have "card (usable_refs st p) < Suc (length (pool_refs st p))"
    using card_length[of "pool_refs st p"] by linarith
  then show ?thesis unfolding pool_attempt_def
    by (rule pool.attempts_end[rotated]) (use invoke_usable in blast)
qed

lemma pool_attempt_calls:
  fixes st :: "'w gateway"
  assumes "pool_attempt src pc p req sc st = Some (x, st')"
  shows "calls_only p st st'"
proof (rule pool_attempts_rel[OF _ _ _ _ assms[unfolded pool_attempt_def], where R = "calls_only p"])
  fix s s' :: "'w gateway" and y assume a: "acquire_grant src p (''inference:'' @ p) s = (y, s')"
  show "calls_only p s s'" by (rule calls_only_same) (use acquire_keeps[OF a] acquire_cache[OF a] in simp_all)
qed (use calls_only_trans quarantine_same invoke_calls in blast)+

lemma attempt_calls:
  assumes "attempt cfg pc p req sc st = (x, st')"
  shows "calls_only p st st'"
    and "\<not> pooled cfg st p \<Longrightarrow> \<exists>g. gw_trace st' = gw_trace st @ [(p, g)]"
proof -
  show "calls_only p st st'"
  proof (cases "pooled cfg st p")
    case True
    then obtain src where src: "gc_grants cfg = Some src" "has_pool st p" by (auto simp: pooled_def)
    obtain y where "pool_attempt src pc p req sc st = Some y" using attempt_ends by blast
    then show ?thesis using assms src pool_attempt_calls by (simp add: attempt_def)
  next
    case False
    then have "invoke_provider pc p req sc None st = (x, st')" using assms
      by (auto simp: attempt_def pooled_def split: option.splits)
    then show ?thesis using invoke_calls by blast
  qed
  show "\<exists>g. gw_trace st' = gw_trace st @ [(p, g)]" if "\<not> pooled cfg st p"
  proof -
    have "invoke_provider pc p req sc None st = (x, st')" using assms that
      by (auto simp: attempt_def pooled_def split: option.splits)
    then show ?thesis using invoke_calls by blast
  qed
qed

lemma retry_calls:
  assumes "call_with_retry cfg pc p req sc retries st = (x, st')"
  shows "calls_only p st st'"
    and "\<not> pooled cfg st p \<Longrightarrow> \<exists>n. 1 \<le> n \<and> n \<le> Suc (nat retries) \<and>
      map fst (gw_trace st') = map fst (gw_trace st) @ replicate n p"
    and "x = Inl f \<Longrightarrow> af_provider f = p \<and> 1 \<le> af_attempts f \<and> af_attempts f \<le> Suc (nat retries)"
proof -
  let ?w = "\<lambda>n s. s\<lparr>bs_world := gc_sleep cfg (backoff_delay cfg n) (bs_world s)\<rparr>"
  obtain y where y: "retry_loop (nat retries) 0 (attempt cfg pc p req sc) ?w st = (y, st')"
    using assms by (auto simp: call_with_retry_def split: prod.splits sum.splits)
  have x: "x = (case y of Inl (n, e) \<Rightarrow> Inl \<lparr>af_provider = p, af_attempts = n, af_error = exc_text e\<rparr>
      | Inr r \<Rightarrow> Inr (ensure_provider_id r p))"
    using assms y by (auto simp: call_with_retry_def split: sum.splits prod.splits)
  show "calls_only p st st'"
  proof (rule retry_loop_rel[OF _ _ _ y, where R = "calls_only p"])
    show "calls_only p s (?w n s)" for n s by (rule calls_only_same) simp_all
  qed (use calls_only_trans attempt_calls(1) in blast)+
  define P where "P c \<longleftrightarrow> (\<not> pooled cfg st p \<longrightarrow> map fst c = [p])" for c :: "(string \<times> string option) list"
  obtain cs where cs: "cs \<noteq> []" "\<forall>c \<in> set cs. P c" "length cs \<le> Suc (nat retries)"
    "gw_trace st' = gw_trace st @ concat cs" "\<forall>m e. y = Inl (m, e) \<longrightarrow> m = 0 + length cs"
  proof (rule exE[OF retry_loop_blocks[OF _ _ _ y, where I = "\<lambda>s. ps_pools s = ps_pools st" and tr = gw_trace and P = P]])
    fix s x s' assume s: "ps_pools s = ps_pools st" "attempt cfg pc p req sc s = (x, s')"
    then have "pooled cfg s p = pooled cfg st p" by (simp add: pooled_def has_pool_def pool_refs_def)
    moreover obtain c where c: "ps_pools s' = ps_pools s" "gw_trace s' = gw_trace s @ c"
      using attempt_calls(1)[OF s(2)] unfolding calls_only_def by blast
    moreover have "P c" unfolding P_def using attempt_calls(2)[OF s(2)] c(2) \<open>pooled cfg s p = pooled cfg st p\<close> by auto
    ultimately show "ps_pools s' = ps_pools st \<and> (\<exists>c. P c \<and> gw_trace s' = gw_trace s @ c)" using s(1) by auto
  qed auto
  show "x = Inl f \<Longrightarrow> af_provider f = p \<and> 1 \<le> af_attempts f \<and> af_attempts f \<le> Suc (nat retries)"
    using x cs(1,3,5) by (cases y) (auto simp: Suc_le_eq)
  show "\<exists>n. 1 \<le> n \<and> n \<le> Suc (nat retries) \<and> map fst (gw_trace st') = map fst (gw_trace st) @ replicate n p"
    if np: "\<not> pooled cfg st p"
  proof -
    have "\<forall>c \<in> set cs. map fst c = [p]" using cs(2) np by (simp add: P_def)
    then have "map fst (concat cs) = replicate (length cs) p" by (induction cs) auto
    then show ?thesis using cs(1,3,4) by (intro exI[of _ "length cs"]) (simp add: Suc_le_eq)
  qed
qed

section \<open>All candidates\<close>

text \<open>The blocks of calls: \<open>ks ! i\<close> calls to the \<open>i\<close>-th candidate, one candidate after the other.\<close>

fun blocks :: "string list \<Rightarrow> nat list \<Rightarrow> string list" where
  "blocks (p # ps) (k # ks) = replicate k p @ blocks ps ks"
| "blocks _ _ = []"

lemma blocks_concat: "blocks ps ks = concat (map (\<lambda>(p, n). replicate n p) (zip ps ks))"
  by (induction ps ks rule: blocks.induct) simp_all

definition tried :: "'w gateway_config \<Rightarrow> int \<Rightarrow> 'w gateway \<Rightarrow> 'w gateway \<Rightarrow> string list \<Rightarrow> bool" where
  "tried cfg retries s s' ps \<longleftrightarrow> (\<exists>ks. length ks = length ps \<and>
     map fst (gw_trace s') = map fst (gw_trace s) @ blocks ps ks \<and>
     (\<forall>i < length ps. \<not> pooled cfg s (ps ! i) \<longrightarrow> 1 \<le> ks ! i \<and> ks ! i \<le> Suc (nat retries)))"

lemma tried_Nil: "gw_trace s' = gw_trace s \<Longrightarrow> tried cfg retries s s' []"
  by (simp add: tried_def)

lemma tried_Cons:
  assumes "call_with_retry cfg pc p req sc retries s = (x, s1)" "tried cfg retries s1 s' ps"
  shows "tried cfg retries s s' (p # ps)"
proof -
  obtain ks where ks: "length ks = length ps" "map fst (gw_trace s') = map fst (gw_trace s1) @ blocks ps ks"
    "\<forall>i < length ps. \<not> pooled cfg s1 (ps ! i) \<longrightarrow> 1 \<le> ks ! i \<and> ks ! i \<le> Suc (nat retries)"
    using assms(2) unfolding tried_def by blast
  have pl: "pooled cfg s1 q = pooled cfg s q" for q
    using retry_calls(1)[OF assms(1)] by (simp add: calls_only_def pooled_def has_pool_def pool_refs_def)
  obtain n where n: "map fst (gw_trace s1) = map fst (gw_trace s) @ replicate n p"
    using calls_only_count[OF retry_calls(1)[OF assms(1)]] by blast
  have "1 \<le> n \<and> n \<le> Suc (nat retries)" if np: "\<not> pooled cfg s p"
    using retry_calls(2)[OF assms(1) np] n by (metis append_same_eq length_replicate same_append_eq)
  then show ?thesis unfolding tried_def using ks n pl
    by (intro exI[of _ "n # ks"]) (auto simp: less_Suc_eq_0_disj)
qed

text \<open>What a slot, the accounting and the cache leave alone.\<close>

lemma announce_trace [simp]:
  "gw_trace (snd (announce sc ty msg p (st :: 'w gateway))) = gw_trace st"
  "ps_pools (snd (announce sc ty msg p (st :: 'w gateway))) = ps_pools st"
  by (simp_all add: announce_def)

lemma emit_delay_trace:
  "gw_trace (snd (emit_delay l sc p wait (st :: 'w gateway))) = gw_trace st \<and>
    ps_pools (snd (emit_delay l sc p wait st)) = ps_pools st"
  by (simp add: emit_delay_def)

lemma acquire_loop_trace:
  "acquire_loop k tm l sc p t (st :: 'w gateway) = Some (x, st') \<Longrightarrow> gw_trace st' = gw_trace st \<and> ps_pools st' = ps_pools st"
proof (induction k arbitrary: t st)
  case (Suc k)
  obtain now w1 where c: "tm_clock tm (bs_world st) = (now, w1)" by force
  obtain b o' where ad: "admit l now (dict_get_or (rt_buckets st) p []) = (b, o')" by force
  let ?st1 = "st\<lparr>bs_world := w1, rt_buckets := dict_set p b (rt_buckets st)\<rparr>"
  show ?case
  proof (cases o')
    case None
    then show ?thesis using Suc.prems c ad by auto
  next
    case (Some wait)
    show ?thesis
    proof (cases "wait \<le> 0")
      case True
      then have "acquire_loop k tm l sc p t ?st1 = Some (x, st')" using Suc.prems c ad Some by simp
      from Suc.IH[OF this] show ?thesis by simp
    next
      case False
      obtain y st2 where e: "emit_delay l sc p wait ?st1 = (y, st2)" by force
      have same: "gw_trace st2 = gw_trace st \<and> ps_pools st2 = ps_pools st"
        using emit_delay_trace[of l sc p wait ?st1] e by simp
      show ?thesis
      proof (cases y)
        case None
        then have "acquire_loop k tm l sc p (t + wait) (st2\<lparr>bs_world := tm_sleep tm wait (bs_world st2)\<rparr>) = Some (x, st')"
          using Suc.prems c ad Some False e by simp
        from Suc.IH[OF this] show ?thesis using same by simp
      next
        case (Some z)
        then show ?thesis using Suc.prems c ad \<open>o' = Some wait\<close> False e same by simp
      qed
    qed
  qed
qed simp

lemma slot_trace:
  "wait_for_slot k cfg skip sc p st = Some (x, st') \<Longrightarrow> gw_trace st' = gw_trace st \<and> ps_pools st' = ps_pools st"
  by (auto simp: wait_for_slot_def acquire_slot_def split: option.splits prod.splits if_splits dest: acquire_loop_trace)

lemma slot_error:
  assumes "wait_for_slot k cfg skip sc p st = Some (Inl e, st')"
  shows "e = Event_refused"
proof -
  have "acquire_loop k tm l sc p t s = Some (Inl e, s') \<Longrightarrow> e = Event_refused" for tm l t and s s' :: "'a gateway"
    by (induction k arbitrary: t s)
      (auto simp: emit_delay_def announce_def Let_def split: prod.splits option.splits if_splits)
  then show ?thesis using assms
    by (auto simp: wait_for_slot_def acquire_slot_def split: option.splits prod.splits if_splits)
qed

lemma charge_trace:
  "charge src sc t c (st :: 'w gateway) = (sc', st') \<Longrightarrow> gw_trace st' = gw_trace st \<and> ps_pools st' = ps_pools st"
  by (auto simp: charge_def load_budget_def persist_usage_def split: prod.splits sum.splits option.splits budget_cell.splits if_splits)

lemma remember_trace: "remember cfg req r st = (x, st') \<Longrightarrow> gw_trace st' = gw_trace st"
  by (auto simp: remember_def split: if_splits sum.splits)

lemma exhausted_result:
  "exhausted sc fs st = (e, st') \<Longrightarrow> gw_trace st' = gw_trace st \<and> (\<forall>gs. e = Providers_failed gs \<longrightarrow> gs = fs)"
  by (auto simp: exhausted_def announce_def split: if_splits)

section \<open>The whole pipeline\<close>

definition attempts_fit :: "int \<Rightarrow> string list \<Rightarrow> attempt_failure list \<Rightarrow> bool" where
  "attempts_fit retries ps fs \<longleftrightarrow> map af_provider fs = ps \<and> (\<forall>f \<in> set fs. 1 \<le> af_attempts f \<and> af_attempts f \<le> Suc (nat retries))"

text \<open>
  The providers asked are an initial part of the candidates, in their order, each as often as the
  retries allow. All of them are asked when all failed, and an answer comes from the last one asked.
\<close>

lemma try_candidates_order:
  "try_candidates k cfg pc req sc retries skip est ps fs st = Some (x, sc', st') \<Longrightarrow>
    \<exists>asked rest. ps = asked @ rest \<and> tried cfg retries st st' asked \<and>
      (\<forall>gs. x = Inl (Providers_failed gs) \<longrightarrow> rest = [] \<and> (\<exists>new. gs = fs @ new \<and> attempts_fit retries ps new))"
proof (induction ps arbitrary: fs st)
  case Nil
  then show ?case using exhausted_result[of sc fs st]
    by (auto simp: attempts_fit_def intro!: tried_Nil split: prod.splits)
next
  case (Cons p ps)
  obtain y st1 where y: "wait_for_slot k cfg skip sc p st = Some (y, st1)"
    using Cons.prems by (auto split: option.splits)
  note same = slot_trace[OF y]
  have tr: "tried cfg retries st1 s' qs \<Longrightarrow> tried cfg retries st s' qs" for s' qs
    using same by (simp add: tried_def pooled_def has_pool_def pool_refs_def)
  show ?case
  proof (cases y)
    case (Inl e)
    then have "x = Inl e" "st' = st1" using Cons.prems y by auto
    moreover have "\<forall>gs. e \<noteq> Providers_failed gs" using slot_error[OF y[unfolded Inl]] by simp
    ultimately show ?thesis using same by (intro exI[of _ "[]"] exI[of _ "p # ps"]) (auto intro: tried_Nil)
  next
    case (Inr d)
    obtain z st2 where z: "call_with_retry cfg pc p req sc retries st1 = (z, st2)" by force
    show ?thesis
    proof (cases z)
      case (Inl f)
      then have "try_candidates k cfg pc req sc retries skip est ps (fs @ [f]) st2 = Some (x, sc', st')"
        using Cons.prems y Inr z by simp
      from Cons.IH[OF this] obtain asked rest where a: "ps = asked @ rest" "tried cfg retries st2 st' asked"
        "\<forall>gs. x = Inl (Providers_failed gs) \<longrightarrow> rest = [] \<and> (\<exists>new. gs = (fs @ [f]) @ new \<and> attempts_fit retries ps new)"
        by (elim exE conjE)
      have "tried cfg retries st st' (p # asked)" by (rule tr[OF tried_Cons[OF z a(2)]])
      moreover have "attempts_fit retries (p # ps) (f # new)" if "attempts_fit retries ps new" for new
        using that retry_calls(3)[OF z Inl] by (simp add: attempts_fit_def)
      moreover have "rest = [] \<and> (\<exists>new. gs = fs @ new \<and> attempts_fit retries (p # ps) new)" if x: "x = Inl (Providers_failed gs)" for gs
      proof -
        obtain new where "rest = []" "gs = fs @ (f # new)" "attempts_fit retries ps new" using a(3)[rule_format, OF x] by auto
        then show ?thesis using calculation(2)[of new] by blast
      qed
      moreover have "p # ps = (p # asked) @ rest" using a(1) by simp
      ultimately show ?thesis by metis
    next
      case Inr': (Inr r)
      obtain sc1 st3 where c: "charge_budget cfg sc r est st2 = (sc1, st3)" by force
      obtain v st4 where v: "remember cfg req r st3 = (v, st4)" by force
      have e: "x = v" "st' = st4" using Cons.prems y Inr z Inr' c v by simp_all
      have "gw_trace st3 = gw_trace st2" using c by (auto simp: charge_budget_def split: option.splits dest: charge_trace)
      then have "gw_trace st' = gw_trace st2" using remember_trace[OF v] e by simp
      then have "tried cfg retries st st' [p]" by (intro tr tried_Cons[OF z] tried_Nil)
      moreover have "\<forall>gs. x \<noteq> Inl (Providers_failed gs)" using e(1) v by (auto simp: remember_def split: if_splits sum.splits)
      moreover have "p # ps = [p] @ ps" by simp
      ultimately show ?thesis by metis
    qed
  qed
qed

section \<open>A call\<close>

lemma check_budget_same:
  assumes "check_budget cfg sc est st = (y, st1)"
  shows "gw_trace st1 = gw_trace st" "ps_pools st1 = ps_pools st" "gw_cache st1 = gw_cache st"
proof -
  have p: "gw_trace s1 = gw_trace s \<and> ps_pools s1 = ps_pools s \<and> gw_cache s1 = gw_cache s"
    if "precheck src sc t c s = (z, s1)" for src t c z and s s1 :: "'a gateway"
    using that by (auto simp: precheck_def record_skip_def block_run_def announce_def load_budget_def
        split: prod.splits sum.splits option.splits if_splits budget_cell.splits)
  show "gw_trace st1 = gw_trace st" "ps_pools st1 = ps_pools st" "gw_cache st1 = gw_cache st"
    using assms by (auto simp: check_budget_def split: option.splits prod.splits sum.splits dest: p)
qed

lemma health_same:
  "current_health cfg st = (h, st1) \<Longrightarrow> gw_trace st1 = gw_trace st \<and> ps_pools st1 = ps_pools st"
  by (auto simp: current_health_def split: option.splits prod.splits)

text \<open>The three ways of a call: the cache answers, the budget refuses, or the candidates are asked in order.\<close>

lemma call_cases:
  assumes c: "call k cfg req sc policy ov st = Some (x, sc', st')"
    and pol: "pol = (case policy of Some y \<Rightarrow> y | None \<Rightarrow> gc_policy cfg)"
  shows "(\<exists>r. gc_cache cfg \<and> cache_get (gw_cache st) req = Some r \<and> x = Inr r \<and> st' = st) \<or>
    (\<exists>e. check_budget cfg sc (estimate cfg req) st = (Inl e, st') \<and> x = Inl e \<and> gw_trace st' = gw_trace st) \<or>
    (\<exists>h asked rest. select pol h = asked @ rest \<and> tried cfg (max_retries pol) st st' asked \<and>
      (\<forall>gs. x = Inl (Providers_failed gs) \<longrightarrow> rest = [] \<and> attempts_fit (max_retries pol) (select pol h) gs))"
proof (cases "if gc_cache cfg then cache_get (gw_cache st) req else None")
  case (Some r)
  then have "x = Inr r" "st' = st" "gc_cache cfg" using c by (auto simp: call_def Let_def split: if_splits)
  then show ?thesis using Some by simp
next
  case None
  obtain y st1 where y: "check_budget cfg sc (estimate cfg req) st = (y, st1)" by force
  note same = check_budget_same[OF y]
  show ?thesis
  proof (cases y)
    case (Inl e)
    then have "x = Inl e" "st' = st1" using c None y by (simp_all add: call_def Let_def)
    then show ?thesis using y Inl same by simp
  next
    case (Inr skip)
    obtain h st2 where h: "current_health cfg st1 = (h, st2)" by force
    note same2 = health_same[OF h]
    let ?pc = "case ov of Some x \<Rightarrow> x | None \<Rightarrow> gc_call cfg"
    have "try_candidates k cfg ?pc req sc (max_retries pol) skip (estimate cfg req) (select pol h) [] st2 = Some (x, sc', st')"
      using c None y Inr h pol by (simp add: call_def Let_def)
    from try_candidates_order[OF this] obtain asked rest where a: "select pol h = asked @ rest"
      "tried cfg (max_retries pol) st2 st' asked"
      "\<forall>gs. x = Inl (Providers_failed gs) \<longrightarrow> rest = [] \<and> (\<exists>new. gs = [] @ new \<and> attempts_fit (max_retries pol) (select pol h) new)"
      by (elim exE conjE)
    have "tried cfg (max_retries pol) st st' asked"
      using a(2) same same2 by (simp add: tried_def pooled_def has_pool_def pool_refs_def)
    moreover have "rest = [] \<and> attempts_fit (max_retries pol) (select pol h) gs" if "x = Inl (Providers_failed gs)" for gs
      using a(3)[rule_format, OF that] by auto
    ultimately show ?thesis using a(1) by blast
  qed
qed

text \<open>A call that is blocked asks nobody and closes the run.\<close>

lemma call_blocked:
  assumes "call k cfg req sc policy ov st = Some (Inl (Budget_exceeded r b), sc', st')" "gc_budgets cfg = Some src"
  shows "gw_trace st' = gw_trace st \<and> r = rs_run_id sc \<and> fst (load_budget src sc st) = Inr (Some b) \<and>
    \<not> within_budget (add_usage (fst (estimate cfg req)) (snd (estimate cfg req)) b) \<and>
    (\<forall>v. load_run (bs_db st) r = Some v \<longrightarrow> (\<exists>v'. load_run (bs_db st') r = Some v' \<and> rr_state v' = RBudget_exceeded))"
proof -
  have ex: "exhausted sc fs s = (e, s') \<Longrightarrow> e \<noteq> Budget_exceeded r b" for fs e and s s' :: "'a gateway"
    by (auto simp: exhausted_def announce_def split: if_splits)
  have no: "try_candidates k cfg pc req sc n skip est ps fs s \<noteq> Some (Inl (Budget_exceeded r b), sc', s')" for pc n skip est ps fs s s'
  proof (induction ps arbitrary: fs s)
    case Nil
    then show ?case using ex by (auto split: prod.splits)
  next
    case (Cons p ps)
    then show ?case by (auto simp: remember_def split: option.splits prod.splits sum.splits if_splits dest: slot_error)
  qed
  have y: "check_budget cfg sc (estimate cfg req) st = (Inl (Budget_exceeded r b), st')"
  proof (rule ccontr)
    assume nb: "\<not> ?thesis"
    show False using assms(1) no nb
      by (auto simp: call_def Let_def split: option.splits if_splits prod.splits sum.splits)
  qed
  then have pre: "precheck src sc (fst (estimate cfg req)) (snd (estimate cfg req)) st = (Inl (Budget_exceeded r b), st')"
    using assms(2) by (auto simp: check_budget_def split: prod.splits sum.splits)
  show ?thesis using precheck_blocked[OF pre] check_budget_same(1)[OF y] by auto
qed

end
