(* ===== verification/Demo_Gateway.thy ===== *)
theory Demo_Gateway
  imports Gateway_Facts
begin

text \<open>A gateway with two providers, the first of which always fails, and a pool of two grants.\<close>

definition demo_response :: model_response where
  "demo_response = \<lparr>mr_text = ''hi'', mr_provider = [], mr_model = [], mr_tokens = Some 7\<rparr>"

definition demo_call :: "nat provider_call" where
  "demo_call p req sc g w = (if p = ''a'' then (Inl (Call_error ''down'' True), Suc w) else (Inr demo_response, Suc w))"

definition demo_policy :: routing_policy where
  "demo_policy = \<lparr>preference = [], fallback_order = [''a'', ''b''], max_retries = 1\<rparr>"

definition demo_gateway_cfg :: "nat gateway_config" where
  "demo_gateway_cfg = \<lparr>gc_call = (demo_call, False), gc_policy = demo_policy, gc_health = None, gc_sleep = (\<lambda>d w. w),
     gc_base = 1, gc_cap = 30, gc_budgets = Some None, gc_limiter = None, gc_estimator = None, gc_cache = True, gc_grants = None\<rparr>"

definition demo_wf :: wf_db where
  "demo_wf = \<lparr>db_definitions = [], db_runs = [(''r'', \<lparr>rr_definition = ''d'', rr_state = RRunning, rr_limit = 1,
     rr_created = [], rr_started = None, rr_finished = None\<rparr>)], db_steps = [],
     db_events = \<lparr>known_secrets = [], event_log = []\<rparr>, db_now = []\<rparr>"

definition demo_gw :: "budget option \<Rightarrow> nat gateway" where
  "demo_gw b = \<lparr>bs_db = demo_wf, bs_cells = (case b of None \<Rightarrow> [] | Some x \<Rightarrow> [(''r'', Cell_budget x)]), bs_world = 0,
     rt_buckets = [], ps_pools = [(''b'', [''k1'', ''k2''])], ps_cursor = [], ps_quarantined = [], ps_log = [], ps_cache = [],
     ps_refs = [], gw_trace = [], gw_cache = new_cache True 0\<rparr>"

definition demo_request :: model_request where
  "demo_request = \<lparr>messages = [], model_hint = None, cache_key = ''q''\<rparr>"

definition demo_scope :: run_scope where
  "demo_scope = \<lparr>rs_run_id = ''r'', rs_definition_id = ''d'', rs_budget = None\<rparr>"

definition demo_budget :: budget where
  "demo_budget = \<lparr>max_tokens = Some 10, max_cost = None, used_tokens = 8, used_cost = 0\<rparr>"

lemma demo_select: "select demo_policy [] = [''a'', ''b'']"
  by (simp add: select_def demo_policy_def select_universe_def provider_available_def metrics_for_def neutral_metrics_def
      dict_get_or_def valid_preferences_def)

lemma demo_attempt:
  "attempt demo_gateway_cfg (demo_call, False) ''a'' req sc s =
    (Inl (Call_error ''down'' True), s\<lparr>bs_world := Suc (bs_world s), gw_trace := gw_trace s @ [(''a'', None)]\<rparr>)"
  "attempt demo_gateway_cfg (demo_call, False) ''b'' req sc s =
    (Inr demo_response, s\<lparr>bs_world := Suc (bs_world s), gw_trace := gw_trace s @ [(''b'', None)]\<rparr>)"
  by (simp_all add: attempt_def demo_gateway_cfg_def invoke_provider_def demo_call_def)

text \<open>Two attempts on the first provider, one on the second.\<close>

lemma demo_run_call:
  "\<exists>sc' st'. call 0 demo_gateway_cfg demo_request demo_scope None None (demo_gw None) =
      Some (Inr (demo_response\<lparr>mr_provider := ''b''\<rparr>), sc', st') \<and> map fst (gw_trace st') = [''a'', ''a'', ''b'']"
proof -
  have sel: "select (gc_policy demo_gateway_cfg) [] = [''a'', ''b'']" "max_retries (gc_policy demo_gateway_cfg) = 1"
    using demo_select by (simp_all add: demo_gateway_cfg_def demo_policy_def)
  have pc: "gc_call demo_gateway_cfg = (demo_call, False)" by (simp add: demo_gateway_cfg_def)
  have slot: "wait_for_slot 0 demo_gateway_cfg skip sc p s = Some (Inr 0, s)" for skip sc p s
    by (simp add: wait_for_slot_def demo_gateway_cfg_def)
  have a: "call_with_retry demo_gateway_cfg (demo_call, False) ''a'' req sc 1 s =
      (Inl \<lparr>af_provider = ''a'', af_attempts = 2, af_error = ''down''\<rparr>,
       s\<lparr>bs_world := Suc (Suc (bs_world s)), gw_trace := gw_trace s @ [(''a'', None), (''a'', None)]\<rparr>)" for req sc s
    by (simp add: call_with_retry_def demo_attempt retry_loop.simps) (simp add: demo_gateway_cfg_def)
  have b: "call_with_retry demo_gateway_cfg (demo_call, False) ''b'' req sc 1 s =
      (Inr (demo_response\<lparr>mr_provider := ''b''\<rparr>),
       s\<lparr>bs_world := Suc (bs_world s), gw_trace := gw_trace s @ [(''b'', None)]\<rparr>)" for req sc s
    by (simp add: call_with_retry_def demo_attempt retry_loop.simps ensure_provider_id_def) (simp add: demo_response_def)
  have chk: "check_budget demo_gateway_cfg demo_scope (estimate demo_gateway_cfg demo_request) (demo_gw None) = (Inr False, demo_gw None)"
    by (simp add: check_budget_def demo_gateway_cfg_def precheck_def load_budget_def demo_scope_def demo_gw_def
        dict_get_or_def demo_wf_def load_run_def)
  have h: "current_health demo_gateway_cfg s = ([], s)" for s by (simp add: current_health_def demo_gateway_cfg_def)
  have cg: "cache_get (gw_cache (demo_gw None)) demo_request = None"
    by (simp add: cache_get_def demo_gw_def new_cache_def)
  have ch: "charge_budget demo_gateway_cfg demo_scope r e s = (demo_scope, s)" if "bs_db s = demo_wf" "bs_cells s = []" for r e s
    using that by (simp add: charge_budget_def demo_gateway_cfg_def charge_def load_budget_def demo_scope_def dict_get_or_def
        demo_wf_def load_run_def)
  have gc: "gc_cache demo_gateway_cfg" by (simp add: demo_gateway_cfg_def)
  let ?s = "(demo_gw None)\<lparr>bs_world := 3, gw_trace := [(''a'', None), (''a'', None), (''b'', None)]\<rparr>"
  have eq: "call 0 demo_gateway_cfg demo_request demo_scope None None (demo_gw None) =
      try_candidates 0 demo_gateway_cfg (demo_call, False) demo_request demo_scope 1 False
        (estimate demo_gateway_cfg demo_request) [''a'', ''b''] [] (demo_gw None)"
    by (simp add: call_def cg gc chk h sel pc)
  have g0: "bs_world (demo_gw None) = 0" "gw_trace (demo_gw None) = []" by (simp_all add: demo_gw_def)
  have "\<exists>c. cache_put (new_cache True 0) demo_request r = Inr c" for r using cache_put_ok[OF new_cache_ok] by blast
  then obtain c where c: "cache_put (new_cache True 0) demo_request (demo_response\<lparr>mr_provider := ''b''\<rparr>) = Inr c" by blast
  have rm: "remember demo_gateway_cfg demo_request (demo_response\<lparr>mr_provider := ''b''\<rparr>) ?s =
      (Inr (demo_response\<lparr>mr_provider := ''b''\<rparr>), ?s\<lparr>gw_cache := c\<rparr>)"
    using c by (simp add: remember_def gc) (simp add: demo_gw_def)
  have cb: "charge_budget demo_gateway_cfg demo_scope r e ?s = (demo_scope, ?s)" for r e
    by (rule ch) (simp_all add: demo_gw_def)
  show ?thesis unfolding eq by (simp add: slot a b g0 numeral_3_eq_3[symmetric] cb rm)
qed

lemma demo_blocked:
  "\<exists>sc' st'. call 0 (demo_gateway_cfg\<lparr>gc_estimator := Some (\<lambda>_. (5, 0))\<rparr>) demo_request demo_scope None None
      (demo_gw (Some demo_budget)) = Some (Inl (Budget_exceeded ''r'' demo_budget), sc', st')"
  by (simp add: call_def check_budget_def demo_gateway_cfg_def precheck_def load_budget_def demo_scope_def demo_gw_def
      dict_get_or_def demo_wf_def load_run_def demo_budget_def would_exceed_def block_run_def announce_def cache_get_def
      new_cache_def estimate_def Let_def)

text \<open>The pool: two acquisitions use two references.\<close>

definition demo_source :: "nat grant_source" where
  "demo_source ref target w = (Inr (Some \<lparr>grant_id = ref, session_ref = ''s''\<rparr>), w)"

definition demo_limiter :: limiter where "demo_limiter = \<lparr>rl_max = 1, rl_window = 10\<rparr>"

definition demo_timer :: "rat timer" where
  "demo_timer = \<lparr>tm_clock = (\<lambda>w. (w, w)), tm_sleep = (\<lambda>d w. w + max d 0)\<rparr>"

lemma demo_timer_honest: "honest demo_timer id"
  by (simp add: honest_def demo_timer_def)

end
