(* ===== verification/Py_Num.thy ===== *)
theory Py_Num
  imports Py_Text
begin

text \<open>
  \<open>int(v)\<close> and \<open>float(v)\<close> of the values the program passes around, and the fields of a payload
  that are read as text. The argument \<open>fl\<close> gives the text of a float, \<open>rd\<close> reads one. An integer
  becomes a float without rounding. The left of a result is the exception.
\<close>

datatype py_error =
    Value_error string
  | Type_error string
  | Attribute_error string
  | Key_error string
  | Runtime_error string
  | Integrity_error string
  | Other_error string

definition int_text_error :: "string \<Rightarrow> py_error" where
  "int_text_error s = Value_error (''invalid literal for int() with base 10: '' @ repr_str s)"

fun json_int :: "json \<Rightarrow> py_error + int" where
  "json_int (JInt i) = Inr i"
| "json_int (JBool b) = Inr (if b then 1 else 0)"
| "json_int (JFloat q) = Inr (if q < 0 then - \<lfloor>- q\<rfloor> else \<lfloor>q\<rfloor>)"
| "json_int (JStr s) = (case py_int s of None \<Rightarrow> Inl (int_text_error s) | Some i \<Rightarrow> Inr i)"
| "json_int v = Inl (Type_error (''int() argument must be a string, a bytes-like object or a real number, not '' @ sq (type_name v)))"

fun json_float :: "(string \<Rightarrow> rat option) \<Rightarrow> json \<Rightarrow> py_error + rat" where
  "json_float rd (JInt i) = Inr (of_int i)"
| "json_float rd (JBool b) = Inr (if b then 1 else 0)"
| "json_float rd (JFloat q) = Inr q"
| "json_float rd (JStr s) = (case rd s of None \<Rightarrow> Inl (Value_error (''could not convert string to float: '' @ repr_str s)) | Some q \<Rightarrow> Inr q)"
| "json_float rd v = Inl (Type_error (''float() argument must be a string or a real number, not '' @ sq (type_name v)))"

text \<open>\<open>d.get(key, default)\<close> and \<open>d.get(key) or default\<close>.\<close>

definition get_or :: "(string \<times> json) list \<Rightarrow> string \<Rightarrow> json \<Rightarrow> json" where
  "get_or d k v = (case map_of d k of None \<Rightarrow> v | Some x \<Rightarrow> x)"

definition either :: "json \<Rightarrow> json \<Rightarrow> json" where
  "either v w = (if truthy v then v else w)"

text \<open>\<open>str(d.get(key) or default).strip()\<close>, and \<open>... or None\<close>.\<close>

definition text_field :: "(rat \<Rightarrow> string) \<Rightarrow> (string \<times> json) list \<Rightarrow> string \<Rightarrow> string \<Rightarrow> string" where
  "text_field fl d k v = str_strip (py_str fl (either (obj_get d k) (JStr v)))"

definition or_none :: "string \<Rightarrow> json" where
  "or_none s = (if s = [] then JNull else JStr s)"

text \<open>What is left of a text by \<open>strip\<close> does not begin or end with a space.\<close>

lemma strip_ends: "str_strip s \<noteq> [] \<Longrightarrow> \<not> is_space (hd (str_strip s)) \<and> \<not> is_space (last (str_strip s))"
proof -
  assume ne: "str_strip s \<noteq> []"
  define t where "t = dropWhile is_space s"
  have e: "str_strip s = rev (dropWhile is_space (rev t))" by (simp add: str_strip_def t_def)
  have r: "dropWhile is_space (rev t) \<noteq> []" using ne e by simp
  then have "\<not> is_space (hd (dropWhile is_space (rev t)))" by (rule hd_dropWhile)
  then have l: "\<not> is_space (last (str_strip s))" using e r by (simp add: last_rev)
  obtain u where u: "t = str_strip s @ u"
    by (metis e rev_append rev_rev_ident takeWhile_dropWhile_id)
  then have "t \<noteq> []" "hd t = hd (str_strip s)" using ne by auto
  moreover have "\<not> is_space (hd t)" using \<open>t \<noteq> []\<close> unfolding t_def by (rule hd_dropWhile)
  ultimately show ?thesis using l by simp
qed

lemma strip_clean: "s \<noteq> [] \<Longrightarrow> \<not> is_space (hd s) \<Longrightarrow> \<not> is_space (last s) \<Longrightarrow> str_strip s = s"
proof -
  assume h: "s \<noteq> []" "\<not> is_space (hd s)" "\<not> is_space (last s)"
  have drop: "t \<noteq> [] \<Longrightarrow> \<not> is_space (hd t) \<Longrightarrow> dropWhile is_space t = t" for t by (cases t) simp_all
  have "dropWhile is_space s = s" using drop h by blast
  moreover have "dropWhile is_space (rev s) = rev s" by (rule drop) (use h in \<open>simp_all add: hd_rev\<close>)
  ultimately show ?thesis by (simp add: str_strip_def)
qed

lemma strip_idem [simp]: "str_strip (str_strip s) = str_strip s"
proof (cases "str_strip s = []")
  case True
  show ?thesis unfolding True by (simp add: str_strip_def)
next
  case False
  then show ?thesis using strip_clean strip_ends by blast
qed

lemma text_field_strip [simp]: "str_strip (text_field fl d k v) = text_field fl d k v"
  by (simp add: text_field_def)

lemma text_field_again:
  "obj_get r k = JStr t \<Longrightarrow> str_strip t = t \<Longrightarrow> t \<noteq> [] \<or> v = [] \<Longrightarrow> text_field fl r k v = t"
  by (auto simp: text_field_def either_def py_str_def)

lemma text_field_none: "obj_get r k = or_none t \<Longrightarrow> str_strip t = t \<Longrightarrow> text_field fl r k [] = t"
  by (auto simp: text_field_def either_def py_str_def or_none_def split: if_splits)

text \<open>\<open>re.match\<close> with \<open>^...$\<close>: the dollar also matches before a final line break.\<close>

definition dollar :: "string \<Rightarrow> string" where
  "dollar s = (if s \<noteq> [] \<and> last s = CHR 0x0A then butlast s else s)"

lemma dollar_strip [simp]: "dollar (str_strip s) = str_strip s"
  using strip_ends[of s] by (auto simp: dollar_def is_space_def code_def)

definition is_lower_ascii :: "char \<Rightarrow> bool" where "is_lower_ascii c = (97 \<le> code c \<and> code c \<le> 122)"
definition is_upper_ascii :: "char \<Rightarrow> bool" where "is_upper_ascii c = (65 \<le> code c \<and> code c \<le> 90)"

end
