(* ===== verification/Subagents.thy ===== *)
theory Subagents
  imports Py_Num
begin

text \<open>
  core/subagent_manager.py. Every \<open>spawn\<close> is a thread; a thread is the specification it was
  started with and the point of \<open>spawn\<close> it has reached. One step of a thread is the code up to
  the next point where another thread can run: the semaphore, each block under the lock, the
  runner, and each of the two statements of \<open>_persist_usage\<close>. What the runner does is an
  argument of the step: an exception with its text, or a result. Contexts are values, so the
  deep copy of \<open>_isolate\<close> is the value itself.
\<close>

section \<open>Data\<close>

record sub_spec =
  sp_run :: string
  sp_task :: string
  sp_toolset :: "string list"
  sp_context :: "(string \<times> json) list"

record sub_context =
  sc_run :: string
  sc_task :: string
  sc_toolset :: "string set"
  sc_context :: "(string \<times> json) list"

record sub_result =
  su_run :: string
  su_output :: json
  su_tokens :: int
  su_ok :: bool
  su_error :: "string option"
  su_toolset :: "string set"

definition allows :: "sub_context \<Rightarrow> string \<Rightarrow> bool" where
  "allows c t = (t \<in> sc_toolset c)"

definition isolate :: "sub_spec \<Rightarrow> sub_context" where
  "isolate sp = \<lparr>sc_run = sp_run sp, sc_task = sp_task sp, sc_toolset = set (sp_toolset sp), sc_context = sp_context sp\<rparr>"

definition run_subagent :: "sub_spec \<Rightarrow> sub_context \<Rightarrow> string + sub_result \<Rightarrow> sub_result" where
  "run_subagent sp c out =
     (case out of
        Inr r \<Rightarrow> r
      | Inl msg \<Rightarrow> \<lparr>su_run = sp_run sp, su_output = JNull, su_tokens = 0, su_ok = False,
          su_error = Some msg, su_toolset = sc_toolset c\<rparr>)"

section \<open>The persisted budget\<close>

text \<open>The column \<open>budget_json\<close>: empty, text that is no JSON (with the error it raises), or a value.\<close>

datatype json_cell = No_text | Not_json py_error | Text_of json

definition int_or_zero :: "json \<Rightarrow> py_error + int" where
  "int_or_zero v = (if truthy v then json_int v else Inr 0)"

definition float_or_zero :: "(string \<Rightarrow> rat option) \<Rightarrow> json \<Rightarrow> py_error + rat" where
  "float_or_zero rd v = (if truthy v then json_float rd v else Inr 0)"

definition charged_budget :: "(string \<Rightarrow> rat option) \<Rightarrow> int \<Rightarrow> json_cell \<Rightarrow> py_error + json" where
  "charged_budget fl charge cell =
     rbind (case cell of
              No_text \<Rightarrow> Inr []
            | Not_json e \<Rightarrow> Inl e
            | Text_of (JObj d) \<Rightarrow> Inr d
            | Text_of v \<Rightarrow> if truthy v then Inl (Attribute_error (sq (type_name v) @ '' object has no attribute '' @ sq ''get'')) else Inr [])
       (\<lambda>d. rbind (int_or_zero (obj_get d ''used_tokens'')) (\<lambda>t.
            rbind (float_or_zero fl (obj_get d ''used_cost'')) (\<lambda>c.
              Inr (JObj [(''max_tokens'', obj_get d ''max_tokens''), (''max_cost'', obj_get d ''max_cost''),
                (''used_tokens'', JInt (t + charge)), (''used_cost'', JFloat c)]))))"

section \<open>The manager and its threads\<close>

record sub_manager =
  sm_limit :: nat
  sm_free :: nat
  sm_active :: int
  sm_peak :: int
  sm_usage :: "(string, int) dict"
  sm_rows :: "(string, json_cell) dict option"
  sm_float :: "string \<Rightarrow> rat option"

datatype sub_phase =
    Queued
  | Admitted
  | Working sub_context
  | Ended sub_result
  | Uncounted sub_result
  | Freed sub_result
  | Charged sub_result
  | Fetched sub_result json
  | Returned sub_result
  | Lost sub_result py_error
  | Raised string

type_synonym sub_thread = "sub_spec \<times> sub_phase"

definition new_manager :: "int \<Rightarrow> (string, json_cell) dict option \<Rightarrow> (string \<Rightarrow> rat option) \<Rightarrow> sub_manager" where
  "new_manager limit rows fl =
     \<lparr>sm_limit = nat (max 1 limit), sm_free = nat (max 1 limit), sm_active = 0, sm_peak = 0,
      sm_usage = [], sm_rows = rows, sm_float = fl\<rparr>"

definition usage_for :: "sub_manager \<Rightarrow> string \<Rightarrow> int" where
  "usage_for M r = dict_get_or (sm_usage M) r 0"

definition enter :: "sub_manager \<Rightarrow> sub_manager" where
  "enter M = M\<lparr>sm_active := sm_active M + 1, sm_peak := max (sm_peak M) (sm_active M + 1)\<rparr>"

definition leave :: "sub_manager \<Rightarrow> sub_manager" where
  "leave M = M\<lparr>sm_active := sm_active M - 1\<rparr>"

text \<open>\<open>BoundedSemaphore.release\<close> raises when no slot is taken.\<close>

definition release :: "sub_manager \<Rightarrow> string + sub_manager" where
  "release M = (if sm_free M < sm_limit M then Inr (M\<lparr>sm_free := sm_free M + 1\<rparr>)
     else Inl ''Semaphore released too many times'')"

definition usage_charge :: "sub_result \<Rightarrow> int" where
  "usage_charge res = max 0 (su_tokens res)"

definition record_usage :: "sub_spec \<Rightarrow> sub_result \<Rightarrow> sub_manager \<Rightarrow> sub_phase \<times> sub_manager" where
  "record_usage sp res M =
     (if usage_charge res \<noteq> 0 \<and> sm_rows M \<noteq> None then Charged res else Returned res,
      M\<lparr>sm_usage := dict_set (sp_run sp) (usage_for M (sp_run sp) + usage_charge res) (sm_usage M)\<rparr>)"

definition fetch_budget :: "sub_spec \<Rightarrow> sub_result \<Rightarrow> sub_manager \<Rightarrow> sub_phase" where
  "fetch_budget sp res M =
     (case Option.bind (sm_rows M) (\<lambda>rows. map_of rows (sp_run sp)) of
        None \<Rightarrow> Returned res
      | Some cell \<Rightarrow>
          (case charged_budget (sm_float M) (usage_charge res) cell of
             Inl e \<Rightarrow> Lost res e
           | Inr v \<Rightarrow> Fetched res v))"

definition store_budget :: "sub_spec \<Rightarrow> json \<Rightarrow> sub_manager \<Rightarrow> sub_manager" where
  "store_budget sp v M =
     M\<lparr>sm_rows := map_option (\<lambda>rows. if dict_has rows (sp_run sp) then dict_set (sp_run sp) (Text_of v) rows else rows) (sm_rows M)\<rparr>"

text \<open>\<open>spawn\<close>, one step at a time; a blocked or ended thread has none.\<close>

fun advance :: "string + sub_result \<Rightarrow> sub_spec \<Rightarrow> sub_phase \<Rightarrow> sub_manager \<Rightarrow> (sub_phase \<times> sub_manager) option" where
  "advance out sp Queued M = (if sm_free M = 0 then None else Some (Admitted, M\<lparr>sm_free := sm_free M - 1\<rparr>))"
| "advance out sp Admitted M = Some (Working (isolate sp), enter M)"
| "advance out sp (Working c) M = Some (Ended (run_subagent sp c out), M)"
| "advance out sp (Ended res) M = Some (Uncounted res, leave M)"
| "advance out sp (Uncounted res) M =
     Some (case release M of Inl e \<Rightarrow> (Raised e, M) | Inr M' \<Rightarrow> (Freed res, M'))"
| "advance out sp (Freed res) M = Some (record_usage sp res M)"
| "advance out sp (Charged res) M = Some (fetch_budget sp res M, M)"
| "advance out sp (Fetched res v) M = Some (Returned res, store_budget sp v M)"
| "advance out sp (Returned res) M = None"
| "advance out sp (Lost res e) M = None"
| "advance out sp (Raised e) M = None"

type_synonym sub_world = "sub_manager \<times> sub_thread list"

text \<open>Some thread makes a step, or a caller spawns another subagent.\<close>

definition thread_step :: "nat \<Rightarrow> string + sub_result \<Rightarrow> sub_world \<Rightarrow> sub_world option" where
  "thread_step i out W =
     (case W of (M, ts) \<Rightarrow>
       if i < length ts then
         (case ts ! i of (sp, ph) \<Rightarrow>
            map_option (\<lambda>(ph', M'). (M', ts[i := (sp, ph')])) (advance out sp ph M))
       else None)"

inductive sub_step :: "sub_world \<Rightarrow> sub_world \<Rightarrow> bool" where
  Thread: "thread_step i out W = Some W' \<Longrightarrow> sub_step W W'"
| Spawn: "sub_step (M, ts) (M, ts @ [(sp, Queued)])"

inductive sub_reach :: "sub_world \<Rightarrow> bool" where
  Start: "sub_reach (new_manager limit rows fl, [])"
| Step: "sub_reach W \<Longrightarrow> sub_step W W' \<Longrightarrow> sub_reach W'"

text \<open>\<open>spawn_many\<close>: its threads, and the list it returns when they have ended.\<close>

definition spawn_threads :: "sub_spec list \<Rightarrow> sub_thread list" where
  "spawn_threads specs = map (\<lambda>sp. (sp, Queued)) specs"

fun result_of :: "sub_phase \<Rightarrow> sub_result option" where
  "result_of (Returned r) = Some r"
| "result_of _ = None"

definition spawn_results :: "sub_thread list \<Rightarrow> sub_result list" where
  "spawn_results ts = List.map_filter (\<lambda>(sp, ph). result_of ph) ts"

section \<open>Slots and counters\<close>

fun holds_slot :: "sub_phase \<Rightarrow> bool" where
  "holds_slot Admitted = True"
| "holds_slot (Working _) = True"
| "holds_slot (Ended _) = True"
| "holds_slot (Uncounted _) = True"
| "holds_slot _ = False"

fun counted :: "sub_phase \<Rightarrow> bool" where
  "counted (Working _) = True"
| "counted (Ended _) = True"
| "counted _ = False"

text \<open>The part of the ledger a thread has paid.\<close>

fun paid :: "sub_phase \<Rightarrow> int" where
  "paid (Charged r) = usage_charge r"
| "paid (Fetched r _) = usage_charge r"
| "paid (Returned r) = usage_charge r"
| "paid (Lost r _) = usage_charge r"
| "paid _ = 0"

definition tally :: "('a \<Rightarrow> int) \<Rightarrow> 'a list \<Rightarrow> int" where
  "tally f xs = sum_list (map f xs)"

lemma tally_simps [simp]:
  "tally f [] = 0" "tally f (x # xs) = f x + tally f xs" "tally f (xs @ ys) = tally f xs + tally f ys"
  by (simp_all add: tally_def)

lemma tally_update: "i < length xs \<Longrightarrow> tally f (xs[i := y]) = tally f xs + f y - f (xs ! i)"
  by (induction xs arbitrary: i) (auto split: nat.splits)

lemma tally_mono: "(\<And>x. x \<in> set xs \<Longrightarrow> f x \<le> g x) \<Longrightarrow> tally f xs \<le> tally g xs"
  by (induction xs) fastforce+

lemma tally_pos: "(\<And>x. 0 \<le> f x) \<Longrightarrow> 0 < tally f xs \<longleftrightarrow> (\<exists>x \<in> set xs. 0 < f x)"
proof (induction xs)
  case (Cons x xs)
  have "0 \<le> tally f xs" using Cons.prems by (induction xs) (simp_all add: add_nonneg_nonneg)
  then show ?case using Cons.IH[OF Cons.prems] Cons.prems[of x] by (cases "f x = 0") auto
qed simp

definition holding :: "sub_thread \<Rightarrow> int" where
  "holding t = of_bool (holds_slot (snd t))"

definition counting :: "sub_thread \<Rightarrow> int" where
  "counting t = of_bool (counted (snd t))"

definition paying :: "string \<Rightarrow> sub_thread \<Rightarrow> int" where
  "paying r t = (if sp_run (fst t) = r then paid (snd t) else 0)"

definition thread_ok :: "sub_thread \<Rightarrow> bool" where
  "thread_ok t = (case snd t of Working c \<Rightarrow> c = isolate (fst t) | Raised _ \<Rightarrow> False | _ \<Rightarrow> True)"

definition sub_ok :: "sub_world \<Rightarrow> bool" where
  "sub_ok W = (case W of (M, ts) \<Rightarrow>
     1 \<le> sm_limit M \<and> int (sm_free M) + tally holding ts = int (sm_limit M) \<and>
     sm_active M = tally counting ts \<and> sm_active M \<le> sm_peak M \<and> sm_peak M \<le> int (sm_limit M) \<and>
     list_all thread_ok ts \<and> (\<forall>r. usage_for M r = tally (paying r) ts))"

lemma counting_le: "counting t \<le> holding t"
  by (cases "snd t") (simp_all add: counting_def holding_def)

lemma usage_set [simp]:
  "usage_for (M\<lparr>sm_usage := dict_set k v (sm_usage M)\<rparr>) r = (if r = k then v else usage_for M r)"
  by (simp add: usage_for_def dict_get_or_def dict_simps)

lemma usage_other [simp]:
  "usage_for (M\<lparr>sm_free := x\<rparr>) = usage_for M" "usage_for (M\<lparr>sm_rows := rows\<rparr>) = usage_for M"
  "usage_for (enter M) = usage_for M" "usage_for (leave M) = usage_for M" "usage_for (store_budget sp v M) = usage_for M"
  by (simp_all add: fun_eq_iff usage_for_def enter_def leave_def store_budget_def)

lemma store_fields [simp]:
  "sm_limit (store_budget sp v M) = sm_limit M" "sm_free (store_budget sp v M) = sm_free M"
  "sm_active (store_budget sp v M) = sm_active M" "sm_peak (store_budget sp v M) = sm_peak M"
  by (simp_all add: store_budget_def)

lemma count_fields [simp]:
  "sm_limit (enter M) = sm_limit M" "sm_free (enter M) = sm_free M" "sm_active (enter M) = sm_active M + 1"
  "sm_peak (enter M) = max (sm_peak M) (sm_active M + 1)"
  "sm_limit (leave M) = sm_limit M" "sm_free (leave M) = sm_free M" "sm_active (leave M) = sm_active M - 1"
  "sm_peak (leave M) = sm_peak M"
  by (simp_all add: enter_def leave_def)

lemma fetch_cases: "\<exists>v e. fetch_budget sp res M \<in> {Returned res, Lost res e, Fetched res v}"
  by (auto simp: fetch_budget_def split: option.splits sum.splits)

lemmas phase_defs = thread_ok_def holding_def counting_def paying_def

lemma advance_ok:
  assumes "advance out sp ph M = Some (ph', M')" "thread_ok (sp, ph)" "sm_free M < sm_limit M \<or> \<not> holds_slot ph"
  shows "thread_ok (sp, ph') \<and> sm_limit M' = sm_limit M \<and>
    int (sm_free M') + holding (sp, ph') = int (sm_free M) + holding (sp, ph) \<and>
    sm_active M' = sm_active M - counting (sp, ph) + counting (sp, ph') \<and>
    sm_peak M' = (if ph = Admitted then max (sm_peak M) (sm_active M + 1) else sm_peak M) \<and>
    (\<forall>r. usage_for M' r = usage_for M r - paying r (sp, ph) + paying r (sp, ph'))"
proof (cases ph)
  case Queued
  then show ?thesis using assms(1) by (auto simp: phase_defs split: if_splits)
next
  case Admitted
  then show ?thesis using assms(1) by (auto simp: phase_defs)
next
  case (Charged res)
  then show ?thesis using assms(1) fetch_cases[of sp res M] by (auto simp: phase_defs)
next
  case (Uncounted res)
  then have "sm_free M < sm_limit M" using assms(3) by simp
  then show ?thesis using assms(1) Uncounted by (auto simp: phase_defs release_def)
next
  case (Freed res)
  then have "ph' \<in> {Charged res, Returned res}"
    "M' = M\<lparr>sm_usage := dict_set (sp_run sp) (usage_for M (sp_run sp) + usage_charge res) (sm_usage M)\<rparr>"
    using assms(1) by (simp_all add: record_usage_def) (elim conjE, simp split: if_splits)
  then show ?thesis using Freed by (auto simp: phase_defs)
qed (use assms(1) in \<open>auto simp: phase_defs\<close>)


lemma advance_counting:
  assumes "advance out sp ph M = Some (ph', M')" "ph \<noteq> Admitted"
  shows "counting (sp, ph') \<le> counting (sp, ph)"
proof (cases ph)
  case (Charged res)
  then show ?thesis using assms(1) fetch_cases[of sp res M] by (auto simp: counting_def)
next
  case (Uncounted res)
  then show ?thesis using assms(1) by (cases "release M") (auto simp: counting_def)
next
  case (Freed res)
  then show ?thesis using assms(1) by (auto simp: counting_def record_usage_def split: if_splits)
qed (use assms in \<open>auto simp: counting_def split: if_splits\<close>)

text \<open>The invariant, for one step and for every reachable state.\<close>

lemma thread_step_ok:
  assumes "sub_ok W" "thread_step i out W = Some W'"
  shows "sub_ok W'"
proof -
  obtain M ts where W: "W = (M, ts)" by force
  obtain sp ph where t: "ts ! i = (sp, ph)" by force
  obtain ph' M' where i: "i < length ts" and a: "advance out sp ph M = Some (ph', M')" and W': "W' = (M', ts[i := (sp, ph')])"
    using assms(2) t by (auto simp: thread_step_def W split: if_splits)
  have ok: "1 \<le> sm_limit M" "int (sm_free M) + tally holding ts = int (sm_limit M)" "sm_active M = tally counting ts"
    "sm_active M \<le> sm_peak M" "sm_peak M \<le> int (sm_limit M)" "list_all thread_ok ts" "\<forall>r. usage_for M r = tally (paying r) ts"
    using assms(1) by (simp_all add: sub_ok_def W)
  have mem: "(sp, ph) \<in> set ts" using i t by (metis nth_mem)
  have tok: "thread_ok (sp, ph)" using ok(6) mem by (auto simp: list_all_iff)
  have "0 < tally holding ts" if "holds_slot ph"
    using tally_pos[of holding ts] mem that by (force simp: holding_def)
  then have fr: "sm_free M < sm_limit M \<or> \<not> holds_slot ph" using ok(2) by linarith
  note adv = advance_ok[OF a tok fr]
  have upd: "tally f (ts[i := (sp, ph')]) = tally f ts + f (sp, ph') - f (sp, ph)" for f
    using tally_update[OF i, of f] t by simp
  have "tally counting (ts[i := (sp, ph')]) \<le> tally holding (ts[i := (sp, ph')])"
    by (rule tally_mono) (rule counting_le)
  then have act: "sm_active M' \<le> int (sm_limit M')" using adv ok upd by simp
  have "sm_active M' \<le> sm_peak M' \<and> sm_peak M' \<le> int (sm_limit M')"
  proof (cases "ph = Admitted")
    case True
    then have "counting (sp, ph) = 0" "counting (sp, ph') = 1" using a by (auto simp: counting_def)
    then have "sm_peak M' = max (sm_peak M) (sm_active M')" using adv True by simp
    then show ?thesis using act adv ok(5) by linarith
  next
    case False
    then have "counting (sp, ph') \<le> counting (sp, ph)" using advance_counting[OF a] by simp
    then show ?thesis using adv ok False by simp
  qed
  moreover have "list_all thread_ok (ts[i := (sp, ph')])"
    using ok(6) adv set_update_subset_insert[of ts i "(sp, ph')"] by (auto simp: list_all_iff)
  ultimately show ?thesis using adv ok upd by (simp add: sub_ok_def W')
qed

lemma spawn_ok: "sub_ok (M, ts) \<Longrightarrow> sub_ok (M, ts @ [(sp, Queued)])"
  by (simp add: sub_ok_def phase_defs)

lemma new_manager_ok: "sub_ok (new_manager limit rows fl, [])"
  by (simp add: sub_ok_def new_manager_def usage_for_def dict_get_or_def le_nat_iff)

lemma sub_reach_ok: "sub_reach W \<Longrightarrow> sub_ok W"
proof (induction rule: sub_reach.induct)
  case (Start limit rows fl)
  show ?case by (rule new_manager_ok)
next
  case (Step W W')
  from Step.hyps(2) Step.IH show ?case by cases (auto intro: thread_step_ok spawn_ok)
qed

section \<open>Progress\<close>

fun left :: "sub_phase \<Rightarrow> nat" where
  "left Queued = 8"
| "left Admitted = 7"
| "left (Working _) = 6"
| "left (Ended _) = 5"
| "left (Uncounted _) = 4"
| "left (Freed _) = 3"
| "left (Charged _) = 2"
| "left (Fetched _ _) = 1"
| "left _ = 0"

definition to_do :: "sub_world \<Rightarrow> nat" where
  "to_do W = sum_list (map (left \<circ> snd) (snd W))"

lemma advance_left: "advance out sp ph M = Some (ph', M') \<Longrightarrow> left ph' < left ph"
proof (cases ph)
  case (Charged res)
  moreover assume "advance out sp ph M = Some (ph', M')"
  ultimately show ?thesis using fetch_cases[of sp res M] by auto
next
  case (Uncounted res)
  moreover assume "advance out sp ph M = Some (ph', M')"
  ultimately show ?thesis by (cases "release M") auto
next
  case (Freed res)
  moreover assume "advance out sp ph M = Some (ph', M')"
  ultimately show ?thesis by (auto simp: record_usage_def split: if_splits)
qed (auto split: if_splits)

lemma advance_some: "0 < left ph \<Longrightarrow> ph \<noteq> Queued \<or> 0 < sm_free M \<Longrightarrow> \<exists>x. advance out sp ph M = Some x"
  by (cases ph) auto

lemma thread_step_less:
  assumes "thread_step i out W = Some W'" shows "to_do W' < to_do W"
proof -
  obtain M ts where W: "W = (M, ts)" by force
  obtain sp ph where t: "ts ! i = (sp, ph)" by force
  obtain ph' M' where i: "i < length ts" and a: "advance out sp ph M = Some (ph', M')" and W': "W' = (M', ts[i := (sp, ph')])"
    using assms t by (auto simp: thread_step_def W split: if_splits)
  have "sum_list (map (left \<circ> snd) (ts[i := (sp, ph')])) = sum_list (map (left \<circ> snd) ts) + left ph' - left ph"
    using i t by (simp add: map_update sum_list_update)
  moreover have "left ph \<le> sum_list (map (left \<circ> snd) ts)"
    using i t elem_le_sum_list[of i "map (left \<circ> snd) ts"] by simp
  ultimately show ?thesis using advance_left[OF a] by (simp add: to_do_def W W')
qed

text \<open>While a thread has not ended some thread can move, whatever its runner does.\<close>

lemma some_thread_moves:
  assumes "sub_ok (M, ts)" "t \<in> set ts" "0 < left (snd t)"
  shows "\<exists>i < length ts. \<forall>out. \<exists>W'. thread_step i out (M, ts) = Some W'"
proof -
  have go: "\<exists>i < length ts. \<forall>out. \<exists>W'. thread_step i out (M, ts) = Some W'"
    if m: "(sp, ph) \<in> set ts" "0 < left ph" "ph \<noteq> Queued \<or> 0 < sm_free M" for sp ph
  proof -
    from m(1) obtain i where i: "i < length ts" "ts ! i = (sp, ph)" by (metis in_set_conv_nth)
    have "\<exists>W'. thread_step i out (M, ts) = Some W'" for out
      using advance_some[OF m(2,3), of out sp] i by (auto simp: thread_step_def)
    then show ?thesis using i(1) by blast
  qed
  show ?thesis
  proof (cases "0 < sm_free M \<or> snd t \<noteq> Queued")
    case True
    then show ?thesis using go[of "fst t" "snd t"] assms(2,3) by auto
  next
    case False
    then have "0 < tally holding ts" using assms(1) by (simp add: sub_ok_def)
    then obtain u where u: "u \<in> set ts" "holds_slot (snd u)"
      using tally_pos[of holding ts] by (auto simp: holding_def)
    then have "0 < left (snd u)" "snd u \<noteq> Queued" by (cases "snd u"; simp)+
    then show ?thesis using go[of "fst u" "snd u"] u(1) by auto
  qed
qed


text \<open>A schedule says which thread moves and what its runner does, should it be at the runner.\<close>

fun run_schedule :: "(nat \<times> (string + sub_result)) list \<Rightarrow> sub_world \<Rightarrow> sub_world option" where
  "run_schedule [] W = Some W"
| "run_schedule ((i, out) # xs) W = (case thread_step i out W of None \<Rightarrow> None | Some W' \<Rightarrow> run_schedule xs W')"

lemma schedule_invariant:
  assumes "run_schedule xs W = Some W'" "P W" "\<And>i out V V'. P V \<Longrightarrow> thread_step i out V = Some V' \<Longrightarrow> P V'"
  shows "P W'"
  using assms by (induction xs W rule: run_schedule.induct) (auto split: option.splits)

lemma schedule_length: "run_schedule xs W = Some W' \<Longrightarrow> length xs + to_do W' \<le> to_do W"
  by (induction xs W rule: run_schedule.induct) (auto split: option.splits dest: thread_step_less)

lemma thread_step_specs: "thread_step i out W = Some W' \<Longrightarrow> map fst (snd W') = map fst (snd W)"
  by (cases "snd W ! i") (auto simp: thread_step_def map_update list_update_same_conv split: prod.splits if_splits)

lemma spawned_reach: "sub_reach (M, ts) \<Longrightarrow> sub_reach (M, ts @ spawn_threads specs)"
proof (induction specs arbitrary: ts)
  case (Cons sp specs)
  have "sub_reach (M, ts @ [(sp, Queued)])" using Cons.prems sub_reach.Step sub_step.Spawn by blast
  from Cons.IH[OF this] show ?case by (simp add: spawn_threads_def)
qed (simp add: spawn_threads_def)

lemma schedule_reach:
  assumes "run_schedule xs (new_manager limit rows fl, spawn_threads specs) = Some W" shows "sub_reach W"
proof (rule schedule_invariant[OF assms])
  show "sub_reach (new_manager limit rows fl, spawn_threads specs)"
    using spawned_reach[OF sub_reach.Start, of limit rows fl specs] by simp
qed (blast intro: sub_reach.Step sub_step.Thread)

lemma spawn_to_do: "to_do (M, spawn_threads specs) = 8 * length specs"
  by (induction specs) (simp_all add: to_do_def spawn_threads_def)

text \<open>Without a database no thread is lost, and the list returned has one result for each specification.\<close>

definition unlosable :: "sub_world \<Rightarrow> bool" where
  "unlosable W = (sm_rows (fst W) = None \<and> (\<forall>t \<in> set (snd W). \<forall>r e v. snd t \<notin> {Lost r e, Charged r, Fetched r v}))"

lemma advance_unlosable:
  assumes "advance out sp ph M = Some (ph', M')" "sm_rows M = None" "\<And>r v. ph \<noteq> Charged r \<and> ph \<noteq> Fetched r v"
  shows "sm_rows M' = None \<and> ph' \<notin> {Lost r e, Charged r, Fetched r v}"
  using assms by (cases ph) (auto simp: enter_def leave_def release_def record_usage_def split: if_splits)

lemma unlosable_step:
  assumes "unlosable W" "thread_step i out W = Some W'" shows "unlosable W'"
proof -
  obtain M ts where W: "W = (M, ts)" by force
  obtain sp ph where t: "ts ! i = (sp, ph)" by force
  obtain ph' M' where i: "i < length ts" and a: "advance out sp ph M = Some (ph', M')" and W': "W' = (M', ts[i := (sp, ph')])"
    using assms(2) t by (auto simp: thread_step_def W split: if_splits)
  have "(sp, ph) \<in> set ts" using i t by (metis nth_mem)
  then have ph: "\<And>r v. ph \<noteq> Charged r \<and> ph \<noteq> Fetched r v" using assms(1) by (force simp: unlosable_def W)
  have "sm_rows M = None" using assms(1) by (simp add: unlosable_def W)
  from advance_unlosable[OF a this ph] show ?thesis
    using assms(1) set_update_subset_insert[of ts i "(sp, ph')"] by (fastforce simp: unlosable_def W W')
qed

lemma spawned_unlosable: "unlosable (new_manager limit None fl, spawn_threads specs)"
  by (auto simp: unlosable_def new_manager_def spawn_threads_def)

lemma schedule_unlosable:
  assumes "run_schedule xs (new_manager limit None fl, spawn_threads specs) = Some W" shows "unlosable W"
  by (rule schedule_invariant[where P = unlosable, OF assms spawned_unlosable unlosable_step])

lemma ended_results:
  assumes "\<forall>t \<in> set ts. left (snd t) = 0" "list_all thread_ok ts" "\<forall>t \<in> set ts. \<forall>r e. snd t \<noteq> Lost r e"
  shows "map snd ts = map Returned (spawn_results ts)"
  using assms
proof (induction ts)
  case (Cons t ts)
  obtain sp ph where t: "t = (sp, ph)" by force
  have "\<exists>r. ph = Returned r" using Cons.prems t by (cases ph) (auto simp: thread_ok_def)
  then show ?case using Cons t by (auto simp: spawn_results_def List.map_filter_simps)
qed (simp add: spawn_results_def List.map_filter_simps)

end
