(* ===== verification/Demo_Subagents.thy ===== *)
theory Demo_Subagents
  imports Subagents
begin

text \<open>
  Concrete runs of the subagent manager: two subagents of the same run under a bound of two, with
  and without a database. With a database the two threads of the last run read the column before
  either has written it, and the usage of one of them is missing from the row although the
  ledger in memory has both.
\<close>

definition demo_spec :: "string \<Rightarrow> sub_spec" where
  "demo_spec t = \<lparr>sp_run = ''r'', sp_task = t, sp_toolset = [''fs''], sp_context = [(''k'', JInt 1)]\<rparr>"

definition child_result :: sub_result where
  "child_result = \<lparr>su_run = ''r'', su_output = JStr ''ok'', su_tokens = 5, su_ok = True, su_error = None, su_toolset = {''fs''}\<rparr>"

definition demo_specs :: "sub_spec list" where
  "demo_specs = [demo_spec ''a'', demo_spec ''b'']"

definition no_float :: "string \<Rightarrow> rat option" where
  "no_float s = None"

abbreviation moves :: "nat \<Rightarrow> nat \<Rightarrow> (nat \<times> (string + sub_result)) list" where
  "moves n i \<equiv> replicate n (i, Inr child_result)"

definition demo_charged :: json where
  "demo_charged = JObj [(''max_tokens'', JNull), (''max_cost'', JNull), (''used_tokens'', JInt 5), (''used_cost'', JFloat 0)]"

lemma spawned_demo: "spawn_threads demo_specs = [(demo_spec ''a'', Queued), (demo_spec ''b'', Queued)]"
  by (simp add: spawn_threads_def demo_specs_def)

lemmas demo_steps = thread_step_def new_manager_def release_def record_usage_def fetch_budget_def store_budget_def
  enter_def leave_def usage_charge_def usage_for_def dict_get_or_def dict_has_def charged_budget_def
  run_subagent_def int_or_zero_def float_or_zero_def obj_get_def numeral_nat

text \<open>Both are at work: the second entered while the first had not ended.\<close>

lemma demo_two_work:
  "\<exists>M. run_schedule (moves 2 0 @ moves 2 1) (new_manager 2 None no_float, spawn_threads demo_specs) =
      Some (M, [(demo_spec ''a'', Working (isolate (demo_spec ''a''))), (demo_spec ''b'', Working (isolate (demo_spec ''b'')))]) \<and>
    sm_active M = 2"
  by (simp add: spawned_demo demo_steps)

lemma demo_both_end:
  "\<exists>M. run_schedule (moves 6 0 @ moves 6 1) (new_manager 1 None no_float, spawn_threads demo_specs) =
      Some (M, [(demo_spec ''a'', Returned child_result), (demo_spec ''b'', Returned child_result)]) \<and>
    usage_for M ''r'' = 10"
  by (simp add: spawned_demo demo_steps child_result_def demo_spec_def)

text \<open>The lost update: ten tokens were used, the row says five.\<close>

lemma demo_lost_update:
  "\<exists>M. run_schedule (moves 7 0 @ moves 7 1 @ moves 1 0 @ moves 1 1)
        (new_manager 2 (Some [(''r'', No_text)]) no_float, spawn_threads demo_specs) =
      Some (M, [(demo_spec ''a'', Returned child_result), (demo_spec ''b'', Returned child_result)]) \<and>
    usage_for M ''r'' = 10 \<and> sm_rows M = Some [(''r'', Text_of demo_charged)]"
  by (simp add: spawned_demo demo_steps child_result_def demo_spec_def demo_charged_def)

end
