(* ===== verification/Context.thy ===== *)
theory Context
  imports Prelude
begin

text \<open>
  core/context_resolver.py: the inline references of an agent input, found by the regular
  expression \<open>(?:(?<=\s)|^)@(\S+)\<close>, classified, read through the kernel's file access and replaced in
  place by their content or by a placeholder. The access is an argument: it may raise (the type of
  the exception and its text), return nothing, or return text, and it has a state of its own.
\<close>

section \<open>Data\<close>

datatype ref_kind = Kfile | Kfolder | Kgit_diff | Kurl

fun kind_value :: "ref_kind \<Rightarrow> string" where
  "kind_value Kfile = ''file''"
| "kind_value Kfolder = ''folder''"
| "kind_value Kgit_diff = ''git-diff''"
| "kind_value Kurl = ''url''"

type_synonym fault = "string \<times> string"

record 'w kernel_fs =
  fs_file :: "string \<Rightarrow> 'w \<Rightarrow> (fault + string option) \<times> 'w"
  fs_folder :: "string \<Rightarrow> 'w \<Rightarrow> (fault + string option) \<times> 'w"
  fs_git_diff :: "string \<Rightarrow> 'w \<Rightarrow> (fault + string option) \<times> 'w"
  fs_url :: "string \<Rightarrow> 'w \<Rightarrow> (fault + string option) \<times> 'w"
  fs_exists :: "string \<Rightarrow> 'w \<Rightarrow> (fault + bool) \<times> 'w"

record resolved_reference =
  rf_raw :: string
  rf_target :: string
  rf_kind :: ref_kind
  rf_resolved :: bool
  rf_content :: string
  rf_error :: "string option"

record resolved_context =
  rc_text :: string
  rc_references :: "resolved_reference list"

definition has_unresolved :: "resolved_context \<Rightarrow> bool" where
  "has_unresolved rc = list_ex (\<lambda>r. \<not> rf_resolved r) (rc_references rc)"

definition default_filenames :: "string list" where
  "default_filenames = [''AGENTS.md'', ''CONTEXT.md'', ''VLOOP.md'', ''.vloop/context.md'']"

section \<open>Targets\<close>

definition str_rstrip_of :: "char set \<Rightarrow> string \<Rightarrow> string" where
  "str_rstrip_of cs s = rev (dropWhile (\<lambda>c. c \<in> cs) (rev s))"

definition trailing_punctuation :: "char set" where
  "trailing_punctuation = set ''.,;:!?)]}'' \<union> {CHR 0x22, CHR 0x27}"

definition trim_target :: "string \<Rightarrow> string" where
  "trim_target tok = str_rstrip_of trailing_punctuation tok"

definition git_diff_prefixes :: "string list" where
  "git_diff_prefixes = [''git-diff'', ''git:'']"

definition classify :: "string \<Rightarrow> ref_kind" where
  "classify target =
     (let l = str_lower target in
      if str_prefix ''http://'' l \<or> str_prefix ''https://'' l then Kurl
      else if list_ex (\<lambda>p. l = p \<or> str_prefix p l) git_diff_prefixes then Kgit_diff
      else if target \<noteq> [] \<and> last target = CHR ''/'' then Kfolder
      else Kfile)"

fun git_target_loop :: "string list \<Rightarrow> string \<Rightarrow> string" where
  "git_target_loop [] target = []"
| "git_target_loop (p # ps) target =
     (if str_prefix p (str_lower target)
      then str_strip (dropWhile (\<lambda>c. c = CHR '':'') (drop (length p) target))
      else git_target_loop ps target)"

definition git_diff_target :: "string \<Rightarrow> string" where
  "git_diff_target target = git_target_loop git_diff_prefixes target"

section \<open>One reference\<close>

definition read_target :: "'w kernel_fs \<Rightarrow> ref_kind \<Rightarrow> string \<Rightarrow> 'w \<Rightarrow> (fault + string option) \<times> 'w" where
  "read_target fs k target w =
     (case k of
        Kurl \<Rightarrow> fs_url fs target w
      | Kgit_diff \<Rightarrow> fs_git_diff fs (git_diff_target target) w
      | Kfolder \<Rightarrow> fs_folder fs (str_rstrip_of {CHR ''/''} target) w
      | Kfile \<Rightarrow> fs_file fs target w)"

definition describe_error :: "fault \<Rightarrow> string" where
  "describe_error e = (case e of (ty, msg) \<Rightarrow>
     if str_strip msg \<noteq> [] then ty @ '': '' @ str_strip msg else ty)"

definition unresolved :: "string \<Rightarrow> string \<Rightarrow> ref_kind \<Rightarrow> string \<Rightarrow> resolved_reference" where
  "unresolved raw target k reason =
     \<lparr>rf_raw = raw, rf_target = target, rf_kind = k, rf_resolved = False,
      rf_content = ''[unresolved context reference '' @ raw @ '' ('' @ kind_value k @ ''): '' @ reason @ '']'',
      rf_error = Some reason\<rparr>"

definition resolve_reference ::
  "'w kernel_fs \<Rightarrow> string \<Rightarrow> string option \<Rightarrow> 'w \<Rightarrow> resolved_reference \<times> 'w" where
  "resolve_reference fs target0 raw0 w =
     (let target = (if str_prefix ''@'' target0 then tl target0 else target0);
          raw = (case raw0 of Some r \<Rightarrow> r | None \<Rightarrow> CHR ''@'' # target);
          k = classify target in
      case read_target fs k target w of
        (Inl e, w') \<Rightarrow> (unresolved raw target k (describe_error e), w')
      | (Inr None, w') \<Rightarrow> (unresolved raw target k ''reference resolved to empty content'', w')
      | (Inr (Some c), w') \<Rightarrow>
          if c = [] then (unresolved raw target k ''reference resolved to empty content'', w')
          else (\<lparr>rf_raw = raw, rf_target = target, rf_kind = k, rf_resolved = True, rf_content = c, rf_error = None\<rparr>, w'))"

section \<open>The text\<close>

text \<open>
  The scan of \<open>re.sub\<close>: a character that is copied, or a match with its group. The first argument
  says that the position is the start of the text or follows a space.
\<close>

datatype token = Plain char | Match string

abbreviation nonspace :: "char \<Rightarrow> bool" where
  "nonspace c \<equiv> \<not> is_space c"

function scan_text :: "bool \<Rightarrow> string \<Rightarrow> token list" where
  "scan_text b [] = []"
| "scan_text b (c # cs) =
     (if b \<and> c = CHR ''@'' \<and> takeWhile nonspace cs \<noteq> []
      then Match (takeWhile nonspace cs) # scan_text False (dropWhile nonspace cs)
      else Plain c # scan_text (is_space c) cs)"
  by pat_completeness auto
termination
  by (relation "measure (length \<circ> snd)") (auto simp: less_Suc_eq_le length_dropWhile_le)

fun substitute_all :: "'w kernel_fs \<Rightarrow> token list \<Rightarrow> 'w \<Rightarrow> string \<times> resolved_reference list \<times> 'w" where
  "substitute_all fs [] w = ([], [], w)"
| "substitute_all fs (Plain c # ts) w = (case substitute_all fs ts w of (out, rs, w') \<Rightarrow> (c # out, rs, w'))"
| "substitute_all fs (Match g # ts) w =
     (if trim_target g = [] then
        (case substitute_all fs ts w of (out, rs, w') \<Rightarrow> ((CHR ''@'' # g) @ out, rs, w'))
      else
        (case resolve_reference fs (trim_target g) (Some (CHR ''@'' # trim_target g)) w of
           (r, w1) \<Rightarrow> (case substitute_all fs ts w1 of (out, rs, w') \<Rightarrow> (rf_content r @ out, r # rs, w'))))"

definition resolve_text :: "'w kernel_fs \<Rightarrow> string \<Rightarrow> 'w \<Rightarrow> resolved_context \<times> 'w" where
  "resolve_text fs s w =
     (if s = [] then (\<lparr>rc_text = [], rc_references = []\<rparr>, w)
      else case substitute_all fs (scan_text True s) w of
        (out, rs, w') \<Rightarrow> (\<lparr>rc_text = out, rc_references = rs\<rparr>, w'))"

section \<open>Project context\<close>

fun discover :: "'w kernel_fs \<Rightarrow> string \<Rightarrow> string list \<Rightarrow> 'w \<Rightarrow> resolved_reference list \<times> 'w" where
  "discover fs base [] w = ([], w)"
| "discover fs base (name # names) w =
     (let path = (if base \<noteq> [] then base @ ''/'' @ name else name) in
      case fs_exists fs path w of
        (Inr True, w1) \<Rightarrow>
          (case resolve_reference fs path (Some (CHR ''@'' # path)) w1 of
             (r, w2) \<Rightarrow> (case discover fs base names w2 of (rs, w3) \<Rightarrow> (r # rs, w3)))
      | (_, w1) \<Rightarrow> discover fs base names w1)"

definition discover_project_context ::
  "'w kernel_fs \<Rightarrow> string list \<Rightarrow> string \<Rightarrow> 'w \<Rightarrow> resolved_reference list \<times> 'w" where
  "discover_project_context fs names dir w = discover fs (str_rstrip_of {CHR ''/''} dir) names w"

section \<open>Lemmas\<close>

text \<open>The scan loses nothing of the text, and a match is a whole word after an \<open>@\<close>.\<close>

fun token_text :: "token \<Rightarrow> string" where
  "token_text (Plain c) = [c]"
| "token_text (Match g) = CHR ''@'' # g"

lemma scan_text_concat: "concat (map token_text (scan_text b s)) = s"
  by (induction b s rule: scan_text.induct) simp_all

lemma scan_text_match: "Match g \<in> set (scan_text b s) \<Longrightarrow> g \<noteq> [] \<and> (\<forall>c \<in> set g. nonspace c)"
proof (induction b s rule: scan_text.induct)
  case (2 b c cs)
  show ?case
  proof (cases "b \<and> c = CHR ''@'' \<and> takeWhile nonspace cs \<noteq> []")
    case True
    then consider "g = takeWhile nonspace cs" | "Match g \<in> set (scan_text False (dropWhile nonspace cs))"
      using "2.prems" by auto
    then show ?thesis
    proof cases
      case 1
      then show ?thesis using True by (auto dest: set_takeWhileD simp del: takeWhile_eq_Nil_iff)
    next
      case 2
      then show ?thesis using "2.IH"(1)[OF True] by blast
    qed
  next
    case False
    then have "Match g \<in> set (scan_text (is_space c) cs)" using "2.prems" unfolding scan_text.simps if_not_P[OF False] by simp
    then show ?thesis using "2.IH"(2)[OF False] by blast
  qed
qed simp

lemma scan_text_plain: "CHR ''@'' \<notin> set s \<Longrightarrow> scan_text b s = map Plain s"
  by (induction b s rule: scan_text.induct) auto

text \<open>
  A match stands at the start or after a space and ends before a space or at the end, and an \<open>@\<close> that
  is copied does not begin such a word.
\<close>

definition boundary :: "bool \<Rightarrow> string \<Rightarrow> bool" where
  "boundary b pre = (if pre = [] then b else is_space (last pre))"

definition word_end :: "string \<Rightarrow> bool" where
  "word_end post \<longleftrightarrow> post = [] \<or> is_space (hd post)"

definition well_placed :: "bool \<Rightarrow> string \<Rightarrow> token \<Rightarrow> string \<Rightarrow> bool" where
  "well_placed b pre t post =
     (case t of Match g \<Rightarrow> boundary b pre \<and> word_end post
      | Plain c \<Rightarrow> c = CHR ''@'' \<and> boundary b pre \<longrightarrow> word_end post)"

lemma word_end_takeWhile: "takeWhile nonspace s = [] \<longleftrightarrow> word_end s"
  by (cases s) (simp_all add: word_end_def)

lemma word_end_dropWhile: "word_end (dropWhile nonspace s)"
  by (induction s) (simp_all add: word_end_def)

lemma scan_text_placed:
  "scan_text b s = xs @ t # ys \<Longrightarrow> well_placed b (concat (map token_text xs)) t (concat (map token_text ys))"
proof (induction b s arbitrary: xs rule: scan_text.induct)
  case (2 b c cs)
  let ?g = "takeWhile nonspace cs"
  show ?case
  proof (cases "b \<and> c = CHR ''@'' \<and> ?g \<noteq> []")
    case True
    then have e: "Match ?g # scan_text False (dropWhile nonspace cs) = xs @ t # ys"
      using "2.prems" unfolding scan_text.simps if_P[OF True] by simp
    show ?thesis
    proof (cases xs)
      case Nil
      then have "t = Match ?g" "ys = scan_text False (dropWhile nonspace cs)" using e by auto
      then show ?thesis using True Nil by (simp add: well_placed_def boundary_def scan_text_concat word_end_dropWhile)
    next
      case (Cons x xs')
      then have x: "x = Match ?g" "scan_text False (dropWhile nonspace cs) = xs' @ t # ys" using e by auto
      have "nonspace (last ?g)" using True set_takeWhileD[OF last_in_set] by blast
      then have "boundary b (concat (map token_text xs)) = boundary False (concat (map token_text xs'))"
        using True by (simp add: Cons x boundary_def del: takeWhile_eq_Nil_iff)
      then show ?thesis using "2.IH"(1)[OF True x(2)] by (simp add: well_placed_def split: token.splits)
    qed
  next
    case False
    then have e: "Plain c # scan_text (is_space c) cs = xs @ t # ys"
      using "2.prems" unfolding scan_text.simps if_not_P[OF False] by simp
    show ?thesis
    proof (cases xs)
      case Nil
      then have "t = Plain c" "ys = scan_text (is_space c) cs" using e by auto
      then show ?thesis using False Nil word_end_takeWhile[of cs]
        by (auto simp: well_placed_def boundary_def scan_text_concat simp del: takeWhile_eq_Nil_iff)
    next
      case (Cons x xs')
      then have x: "x = Plain c" "scan_text (is_space c) cs = xs' @ t # ys" using e by auto
      have "boundary b (concat (map token_text xs)) = boundary (is_space c) (concat (map token_text xs'))"
        by (simp add: Cons x boundary_def)
      then show ?thesis using "2.IH"(2)[OF False x(2)] by (simp add: well_placed_def split: token.splits)
    qed
  qed
qed simp

text \<open>The targets asked for, and what stands for each token in the result.\<close>

definition target_of :: "token \<Rightarrow> string option" where
  "target_of t = (case t of Plain _ \<Rightarrow> None | Match g \<Rightarrow> if trim_target g = [] then None else Some (trim_target g))"

definition targets :: "token list \<Rightarrow> string list" where
  "targets ts = List.map_filter target_of ts"

fun pieces :: "token list \<Rightarrow> resolved_reference list \<Rightarrow> string" where
  "pieces [] rs = []"
| "pieces (t # ts) rs =
     (case target_of t of None \<Rightarrow> token_text t @ pieces ts rs | Some _ \<Rightarrow> rf_content (hd rs) @ pieces ts (tl rs))"

lemma target_simps [simp]:
  "target_of (Plain c) = None" "target_of (Match g) = (if trim_target g = [] then None else Some (trim_target g))"
  by (simp_all add: target_of_def)

lemma targets_simps [simp]:
  "targets [] = []" "targets (t # ts) = (case target_of t of None \<Rightarrow> targets ts | Some x \<Rightarrow> x # targets ts)"
  by (simp_all add: targets_def List.map_filter_simps split: option.split)

text \<open>A reference says what happened to it: content when the access gave some, a placeholder otherwise.\<close>

definition reference_ok :: "string \<Rightarrow> resolved_reference \<Rightarrow> bool" where
  "reference_ok target r =
     (rf_raw r = CHR ''@'' # target \<and> rf_target r = (if str_prefix ''@'' target then tl target else target) \<and>
      rf_kind r = classify (rf_target r) \<and> rf_content r \<noteq> [] \<and>
      (if rf_resolved r then rf_error r = None
       else \<exists>reason. r = unresolved (CHR ''@'' # target) (rf_target r) (rf_kind r) reason))"

lemma resolve_reference_ok:
  "resolve_reference fs target (Some (CHR ''@'' # target)) w = (r, w') \<Longrightarrow> reference_ok target r"
  by (auto simp: resolve_reference_def reference_ok_def unresolved_def Let_def
      split: prod.splits sum.splits option.splits if_splits)

lemma resolve_reference_content:
  assumes "resolve_reference fs target raw w = (r, w')" "\<not> str_prefix ''@'' target"
  shows "rf_resolved r \<longleftrightarrow> (\<exists>c. c \<noteq> [] \<and> fst (read_target fs (classify target) target w) = Inr (Some c))"
    and "rf_resolved r \<Longrightarrow> fst (read_target fs (classify target) target w) = Inr (Some (rf_content r))"
    and "w' = snd (read_target fs (classify target) target w)"
  using assms by (auto simp: resolve_reference_def unresolved_def Let_def
      split: prod.splits sum.splits option.splits if_splits)

lemma substitute_all_facts:
  "substitute_all fs ts w = (out, rs, w') \<Longrightarrow> list_all2 reference_ok (targets ts) rs \<and> out = pieces ts rs"
proof (induction fs ts w arbitrary: out rs w' rule: substitute_all.induct)
  case (3 fs g ts w)
  show ?case
  proof (cases "trim_target g = []")
    case True
    then show ?thesis using 3 by (auto split: prod.splits)
  next
    case False
    obtain r w1 where r: "resolve_reference fs (trim_target g) (Some (CHR ''@'' # trim_target g)) w = (r, w1)" by force
    obtain out' rs' w2 where s: "substitute_all fs ts w1 = (out', rs', w2)" by (metis prod_cases3)
    show ?thesis using "3.IH"(2)[OF False r[symmetric] s] "3.prems" False r s resolve_reference_ok[OF r] by auto
  qed
qed (auto split: prod.splits)

lemma pieces_plain: "targets ts = [] \<Longrightarrow> pieces ts rs = concat (map token_text ts)"
  by (induction ts) (auto split: option.splits)

lemma targets_plain [simp]: "targets (map Plain s) = []"
  by (induction s) simp_all

lemma unresolved_error: "rf_error (unresolved raw target k reason) = Some reason"
  by (simp add: unresolved_def)

lemma list_all2_right: "list_all2 P xs ys \<Longrightarrow> y \<in> set ys \<Longrightarrow> \<exists>x. P x y"
  by (induction rule: list_all2_induct) auto

lemma reference_error: "reference_ok target r \<Longrightarrow> rf_resolved r \<longleftrightarrow> rf_error r = None"
  using unresolved_error[of "CHR ''@'' # target" "rf_target r" "rf_kind r"]
  by (auto simp: reference_ok_def split: if_splits; metis)

text \<open>A text with one file that can be read and one that is missing.\<close>

definition demo_fs :: "unit kernel_fs" where
  "demo_fs = \<lparr>fs_file = (\<lambda>p w. (if p = ''a.md'' then Inr (Some ''TEXT'') else Inl (''OSError'', ''no such file''), w)),
     fs_folder = (\<lambda>p w. (Inr None, w)), fs_git_diff = (\<lambda>p w. (Inr None, w)), fs_url = (\<lambda>p w. (Inr None, w)),
     fs_exists = (\<lambda>p w. (Inr (p = ''a.md''), w))\<rparr>"

lemma demo_resolve:
  "\<exists>rc. resolve_text demo_fs ''see @a.md and @b.'' () = (rc, ()) \<and>
    rc_text rc = ''see TEXT and [unresolved context reference @b (file): OSError: no such file]''"
  by (simp add: resolve_text_def is_space_def code_def trim_target_def str_rstrip_of_def trailing_punctuation_def
      resolve_reference_def classify_def str_lower_def char_lower_def git_diff_prefixes_def read_target_def demo_fs_def
      unresolved_def describe_error_def str_strip_def Let_def)

text \<open>The punctuation that is trimmed from a target is not given back to the text.\<close>

lemma demo_punctuation_swallowed:
  "\<exists>rc. resolve_text demo_fs ''@a.md.'' () = (rc, ()) \<and> rc_text rc = ''TEXT''"
  by (simp add: resolve_text_def is_space_def code_def trim_target_def str_rstrip_of_def trailing_punctuation_def
      resolve_reference_def classify_def str_lower_def char_lower_def git_diff_prefixes_def read_target_def demo_fs_def
      Let_def)

end
