(* ===== verification/Agents.thy ===== *)
theory Agents
  imports Py_Num
begin

text \<open>
  core/agent_normalizer.py: the checks on the payload of an agent and its normal form, the checks on
  the inputs of an invocation. A payload is an object of JSON values; the provider service and a fresh
  identifier are arguments.
\<close>

type_synonym obj = "(string \<times> json) list"

section \<open>Patterns\<close>

definition field_name_char :: "char \<Rightarrow> bool" where
  "field_name_char c = (is_lower_ascii c \<or> is_upper_ascii c \<or> is_decimal c \<or> c = CHR ''_'')"

definition safe_field_name :: "string \<Rightarrow> bool" where
  "safe_field_name s = (case dollar s of [] \<Rightarrow> False
     | c # cs \<Rightarrow> (is_lower_ascii c \<or> is_upper_ascii c) \<and> list_all field_name_char cs)"

definition slug_char :: "char \<Rightarrow> bool" where
  "slug_char c = (is_lower_ascii c \<or> is_decimal c)"

definition safe_slug :: "string \<Rightarrow> bool" where
  "safe_slug s = (case dollar s of [] \<Rightarrow> False
     | c # cs \<Rightarrow> slug_char c \<and> list_all (\<lambda>c. slug_char c \<or> c = CHR ''-'') cs)"

text \<open>\<open>re.sub("[^a-z0-9]+", "-", s)\<close>: the argument says that the run before was replaced already.\<close>

fun squeeze :: "bool \<Rightarrow> string \<Rightarrow> string" where
  "squeeze b [] = []"
| "squeeze b (c # cs) =
     (if slug_char c then c # squeeze False cs
      else if b then squeeze True cs else CHR ''-'' # squeeze True cs)"

definition strip_dashes :: "string \<Rightarrow> string" where
  "strip_dashes s = rev (dropWhile (\<lambda>c. c = CHR ''-'') (rev (dropWhile (\<lambda>c. c = CHR ''-'') s)))"

definition slugify :: "string \<Rightarrow> string" where
  "slugify s = (let t = strip_dashes (squeeze False (str_lower s)) in if t = [] then ''agent'' else t)"

text \<open>\<open>str.title\<close> on ASCII: a letter after a letter is lower case, any other letter upper case.\<close>

definition ascii_upper :: "char \<Rightarrow> char" where
  "ascii_upper c = (if is_lower_ascii c then char_of (code c - 32) else c)"

fun title_from :: "bool \<Rightarrow> string \<Rightarrow> string" where
  "title_from b [] = []"
| "title_from b (c # cs) =
     (if b then char_lower c else ascii_upper c) # title_from (is_lower_ascii c \<or> is_upper_ascii c) cs"

definition default_label :: "string \<Rightarrow> string" where
  "default_label s = title_from False (str_replace ''_'' '' '' s)"

section \<open>Input fields\<close>

definition normalize_field :: "(rat \<Rightarrow> string) \<Rightarrow> string set \<Rightarrow> json \<Rightarrow> py_error + string \<times> json" where
  "normalize_field fl seen v =
     (case v of
        JObj d \<Rightarrow>
          (let n = text_field fl d ''name'' [] in
           if \<not> safe_field_name n then
             Inl (Value_error (''input field `'' @ (if n = [] then ''<empty>'' else n) @ ''` is not a safe identifier''))
           else if n \<in> seen then Inl (Value_error (''input field `'' @ n @ ''` is duplicated''))
           else Inr (n, JObj [(''name'', JStr n), (''label'', JStr (text_field fl d ''label'' (default_label n))),
             (''description'', or_none (text_field fl d ''description'' [])),
             (''required'', JBool (truthy (get_or d ''required'' (JBool True))))]))
      | _ \<Rightarrow> Inl (Attribute_error (sq (type_name v) @ '' object has no attribute '' @ sq ''get'')))"

fun normalize_fields :: "(rat \<Rightarrow> string) \<Rightarrow> string set \<Rightarrow> json list \<Rightarrow> py_error + json list" where
  "normalize_fields fl seen [] = Inr []"
| "normalize_fields fl seen (v # vs) =
     rbind (normalize_field fl seen v) (\<lambda>(n, f).
       rbind (normalize_fields fl (insert n seen) vs) (\<lambda>fs. Inr (f # fs)))"

section \<open>The payload\<close>

text \<open>The literal \<open>0.2\<close> is the double nearest to it.\<close>

definition default_temperature :: rat where
  "default_temperature = 3602879701896397 / 18014398509481984"

definition require_that :: "bool \<Rightarrow> string \<Rightarrow> py_error + unit" where
  "require_that b msg = (if b then Inr () else Inl (Value_error msg))"

definition input_field_list :: "json \<Rightarrow> py_error + json list" where
  "input_field_list v =
     (case either v (JList []) of
        JList (x # xs) \<Rightarrow> Inr (x # xs)
      | _ \<Rightarrow> Inl (Value_error ''agent inputFields must contain at least one field''))"

definition output_schema :: "string \<Rightarrow> json \<Rightarrow> py_error + json" where
  "output_schema mode v =
     (if mode = ''json'' then
        (case v of JObj (p # ps) \<Rightarrow> Inr v
         | _ \<Rightarrow> Inl (Value_error ''JSON-output agents require a non-empty outputSchema object''))
      else Inr JNull)"

definition agent_slug :: "(rat \<Rightarrow> string) \<Rightarrow> obj \<Rightarrow> string" where
  "agent_slug fl d = text_field fl d ''slug'' (slugify (text_field fl d ''name'' []))"

definition output_name :: "(rat \<Rightarrow> string) \<Rightarrow> obj \<Rightarrow> string" where
  "output_name fl d = (let t = text_field fl d ''outputFieldName'' ''response'' in if t = [] then ''response'' else t)"

definition provider_id :: "(rat \<Rightarrow> string) \<Rightarrow> obj \<Rightarrow> string" where
  "provider_id fl d = str_strip (py_str fl (either (obj_get d ''defaultProviderId'')
     (either (obj_get d ''default_provider_id'') (JStr []))))"

definition given_id :: "string option \<Rightarrow> string \<Rightarrow> string" where
  "given_id aid fresh = (case aid of None \<Rightarrow> fresh | Some i \<Rightarrow> if i = [] then fresh else i)"

definition normalize_agent ::
  "(rat \<Rightarrow> string) \<Rightarrow> (string \<Rightarrow> rat option) \<Rightarrow> (string \<Rightarrow> bool) \<Rightarrow> string option \<Rightarrow> string \<Rightarrow> obj \<Rightarrow> py_error + obj"
where
  "normalize_agent fl rd provider aid fresh d =
     rbind (require_that (2 \<le> length (text_field fl d ''name'' [])) ''agent name must be at least 2 characters'') (\<lambda>_.
     rbind (require_that (safe_slug (agent_slug fl d)) ''agent slug may only contain lowercase letters, numbers, and hyphens'') (\<lambda>_.
     rbind (require_that (10 \<le> length (text_field fl d ''instructions'' [])) ''agent instructions must be at least 10 characters'') (\<lambda>_.
     rbind (require_that (text_field fl d ''reasoningMode'' ''predict'' \<in> {''predict'', ''chain_of_thought''})
       ''reasoningMode must be `predict` or `chain_of_thought`'') (\<lambda>_.
     rbind (require_that (text_field fl d ''outputMode'' ''text'' \<in> {''text'', ''json''}) ''outputMode must be `text` or `json`'') (\<lambda>_.
     rbind (require_that (safe_field_name (output_name fl d)) ''outputFieldName must be a safe identifier'') (\<lambda>_.
     rbind (require_that (output_name fl d \<notin> {''request'', ''reasoning''})
       ''outputFieldName cannot be `request` or `reasoning` because DSPy reserves those fields'') (\<lambda>_.
     rbind (input_field_list (obj_get d ''inputFields'')) (\<lambda>fields.
     rbind (normalize_fields fl {} fields) (\<lambda>fs.
     rbind (output_schema (text_field fl d ''outputMode'' ''text'') (obj_get d ''outputSchema'')) (\<lambda>schema.
     rbind (require_that (provider (provider_id fl d)) ''defaultProviderId must reference an existing provider'') (\<lambda>_.
     rbind (json_float rd (get_or d ''temperature'' (JFloat default_temperature))) (\<lambda>temperature.
     rbind (json_int (get_or d ''maxTokens'' (JInt 700))) (\<lambda>max_tokens.
     rbind (require_that (32 \<le> max_tokens) ''maxTokens must be at least 32'') (\<lambda>_.
       Inr [(''id'', JStr (given_id aid fresh)),
         (''slug'', JStr (agent_slug fl d)), (''name'', JStr (text_field fl d ''name'' [])),
         (''description'', or_none (text_field fl d ''description'' [])),
         (''enabled'', JBool (truthy (get_or d ''enabled'' (JBool True)))),
         (''instructions'', JStr (text_field fl d ''instructions'' [])),
         (''reasoningMode'', JStr (text_field fl d ''reasoningMode'' ''predict'')), (''inputFields'', JList fs),
         (''outputMode'', JStr (text_field fl d ''outputMode'' ''text'')), (''outputFieldName'', JStr (output_name fl d)),
         (''outputSchema'', schema), (''defaultProviderId'', JStr (provider_id fl d)),
         (''modelOverride'', or_none (text_field fl d ''modelOverride'' [])),
         (''temperature'', JFloat temperature), (''maxTokens'', JInt max_tokens)]))))))))))))))"

section \<open>The inputs of an invocation\<close>

fun missing_input :: "(rat \<Rightarrow> string) \<Rightarrow> json list \<Rightarrow> obj \<Rightarrow> string option" where
  "missing_input fl [] inputs = None"
| "missing_input fl (JObj f # fs) inputs =
     (if truthy (obj_get f ''required'') \<and>
         str_strip (py_str fl (get_or inputs (case obj_get f ''name'' of JStr n \<Rightarrow> n | _ \<Rightarrow> []) (JStr []))) = []
      then Some (case obj_get f ''label'' of JStr l \<Rightarrow> l | _ \<Rightarrow> [])
      else missing_input fl fs inputs)"
| "missing_input fl (_ # fs) inputs = missing_input fl fs inputs"

definition validate_invocation_inputs :: "(rat \<Rightarrow> string) \<Rightarrow> json list \<Rightarrow> obj \<Rightarrow> py_error + unit" where
  "validate_invocation_inputs fl fields inputs =
     (case missing_input fl fields inputs of
        None \<Rightarrow> Inr ()
      | Some l \<Rightarrow> Inl (Value_error (''input field `'' @ l @ ''` is required'')))"

section \<open>Normal forms\<close>

definition field_record :: "string \<Rightarrow> string \<Rightarrow> json \<Rightarrow> bool \<Rightarrow> json" where
  "field_record n l desc req =
     JObj [(''name'', JStr n), (''label'', JStr l), (''description'', desc), (''required'', JBool req)]"

definition input_field_ok :: "json \<Rightarrow> bool" where
  "input_field_ok f \<longleftrightarrow> (\<exists>n l t req. f = field_record n l (or_none t) req \<and> safe_field_name n \<and>
     str_strip n = n \<and> str_strip l = l \<and> str_strip t = t)"

fun field_get :: "string \<Rightarrow> json \<Rightarrow> json" where
  "field_get k (JObj d) = obj_get d k"
| "field_get k v = JNull"

definition labelled :: "json \<Rightarrow> bool" where
  "labelled f \<longleftrightarrow> field_get ''label'' f \<noteq> JStr []"

definition fields_of :: "obj \<Rightarrow> json list" where
  "fields_of r = (case obj_get r ''inputFields'' of JList fs \<Rightarrow> fs | _ \<Rightarrow> [])"

definition id_of :: "obj \<Rightarrow> string" where
  "id_of r = (case obj_get r ''id'' of JStr i \<Rightarrow> i | _ \<Rightarrow> [])"

definition agent_ok :: "(string \<Rightarrow> bool) \<Rightarrow> obj \<Rightarrow> bool" where
  "agent_ok provider r \<longleftrightarrow>
     (\<exists>s. obj_get r ''name'' = JStr s \<and> 2 \<le> length s) \<and>
     (\<exists>s. obj_get r ''slug'' = JStr s \<and> safe_slug s) \<and>
     (\<exists>s. obj_get r ''instructions'' = JStr s \<and> 10 \<le> length s) \<and>
     obj_get r ''reasoningMode'' \<in> {JStr ''predict'', JStr ''chain_of_thought''} \<and>
     fields_of r \<noteq> [] \<and> list_all input_field_ok (fields_of r) \<and> distinct (map (field_get ''name'') (fields_of r)) \<and>
     (\<exists>s. obj_get r ''outputFieldName'' = JStr s \<and> safe_field_name s \<and> s \<notin> {''request'', ''reasoning''}) \<and>
     (obj_get r ''outputMode'' = JStr ''text'' \<and> obj_get r ''outputSchema'' = JNull \<or>
      obj_get r ''outputMode'' = JStr ''json'' \<and> (\<exists>p ps. obj_get r ''outputSchema'' = JObj (p # ps))) \<and>
     (\<exists>s. obj_get r ''defaultProviderId'' = JStr s \<and> provider s) \<and>
     (\<exists>t. obj_get r ''temperature'' = JFloat t) \<and> (\<exists>m. obj_get r ''maxTokens'' = JInt m \<and> 32 \<le> m)"

lemma require_that_Inr [simp]: "require_that b msg = Inr u \<longleftrightarrow> b"
  by (simp add: require_that_def)

lemma normalize_field_ok:
  assumes "normalize_field fl seen v = Inr (n, f)"
  shows "input_field_ok f" "field_get ''name'' f = JStr n" "n \<notin> seen"
    and "labelled f \<Longrightarrow> n \<notin> seen' \<Longrightarrow> normalize_field fl seen' f = Inr (n, f)"
proof -
  obtain d l t req where v: "v = JObj d" and n: "n = text_field fl d ''name'' []" "safe_field_name n" "n \<notin> seen"
    and f: "f = field_record n l (or_none t) req" and s: "str_strip l = l" "str_strip t = t"
  proof (cases v)
    case (JObj d)
    then show ?thesis
      using assms that[of d "text_field fl d ''label'' (default_label (text_field fl d ''name'' []))"
          "text_field fl d ''description'' []" "truthy (get_or d ''required'' (JBool True))"]
      by (auto simp: normalize_field_def field_record_def Let_def split: if_splits)
  qed (use assms in \<open>simp_all add: normalize_field_def\<close>)
  have sn: "str_strip n = n" using n(1) by simp
  show "input_field_ok f" using f n(2) s sn unfolding input_field_ok_def by blast
  show "field_get ''name'' f = JStr n" by (simp add: f field_record_def dict_simps)
  show "n \<notin> seen" by (rule n(3))
  assume l: "labelled f" and ns: "n \<notin> seen'"
  let ?r = "[(''name'', JStr n), (''label'', JStr l), (''description'', or_none t), (''required'', JBool req)]"
  have fr: "f = JObj ?r" by (simp add: f field_record_def)
  have "l \<noteq> []" using l by (simp add: labelled_def fr dict_simps)
  then have "text_field fl ?r ''label'' v = l" for v by (intro text_field_again) (simp_all add: dict_simps s)
  moreover have "text_field fl ?r ''name'' [] = n" by (intro text_field_again) (simp_all add: dict_simps sn)
  moreover have "text_field fl ?r ''description'' [] = t" by (intro text_field_none) (simp_all add: dict_simps s)
  ultimately show "normalize_field fl seen' f = Inr (n, f)"
    using n(2) ns by (simp add: normalize_field_def fr get_or_def Let_def)
qed

lemma normalize_fields_ok:
  assumes "normalize_fields fl seen vs = Inr fs"
  shows "list_all input_field_ok fs" "distinct (map (field_get ''name'') fs)" "length fs = length vs"
    and "\<forall>f \<in> set fs. \<forall>n. field_get ''name'' f = JStr n \<longrightarrow> n \<notin> seen"
    and "list_all labelled fs \<Longrightarrow> normalize_fields fl seen fs = Inr fs"
  using assms
proof (induction vs arbitrary: seen fs)
  case (Cons v vs)
  {
    fix seen fs assume "normalize_fields fl seen (v # vs) = Inr fs"
    then obtain n f gs where "normalize_field fl seen v = Inr (n, f)"
      "normalize_fields fl (insert n seen) vs = Inr gs" "fs = f # gs"
      by (auto simp: rbind_Inr_iff)
    then have "\<exists>n f gs. normalize_field fl seen v = Inr (n, f) \<and>
      normalize_fields fl (insert n seen) vs = Inr gs \<and> fs = f # gs" by blast
  } note split = this
  {
    case 1
    then obtain n f gs where p: "normalize_field fl seen v = Inr (n, f)"
      "normalize_fields fl (insert n seen) vs = Inr gs" "fs = f # gs" using split by blast
    show ?case using normalize_field_ok(1)[OF p(1)] Cons.IH(1)[OF p(2)] p(3) by simp
  next
    case 2
    then obtain n f gs where p: "normalize_field fl seen v = Inr (n, f)"
      "normalize_fields fl (insert n seen) vs = Inr gs" "fs = f # gs" using split by blast
    have "field_get ''name'' g \<noteq> JStr n" if "g \<in> set gs" for g using Cons.IH(4)[OF p(2)] that by blast
    then show ?case using normalize_field_ok(2)[OF p(1)] Cons.IH(2)[OF p(2)] p(3) by force
  next
    case 3
    then obtain n f gs where p: "normalize_field fl seen v = Inr (n, f)"
      "normalize_fields fl (insert n seen) vs = Inr gs" "fs = f # gs" using split by blast
    show ?case using Cons.IH(3)[OF p(2)] p(3) by simp
  next
    case 4
    then obtain n f gs where p: "normalize_field fl seen v = Inr (n, f)"
      "normalize_fields fl (insert n seen) vs = Inr gs" "fs = f # gs" using split by blast
    show ?case using normalize_field_ok(2,3)[OF p(1)] Cons.IH(4)[OF p(2)] p(3) by auto
  next
    case 5
    then obtain n f gs where p: "normalize_field fl seen v = Inr (n, f)"
      "normalize_fields fl (insert n seen) vs = Inr gs" "fs = f # gs" using split by blast
    show ?case using normalize_field_ok(3,4)[OF p(1)] Cons.IH(5)[OF _ p(2)] p(3) 5(1) by simp
  }
qed simp_all


lemma input_field_list_Inr: "input_field_list v = Inr fs \<Longrightarrow> fs \<noteq> []"
  by (auto simp: input_field_list_def split: json.splits list.splits)

lemma input_field_list_again: "fs \<noteq> [] \<Longrightarrow> input_field_list (JList fs) = Inr fs"
  by (cases fs) (simp_all add: input_field_list_def either_def)

lemma output_schema_again: "output_schema mode v = Inr w \<Longrightarrow> output_schema mode w = Inr w"
  by (auto simp: output_schema_def split: if_splits json.splits list.splits)

lemma agent_text_strip [simp]:
  "str_strip (agent_slug fl d) = agent_slug fl d" "str_strip (provider_id fl d) = provider_id fl d"
  "str_strip (output_name fl d) = output_name fl d"
  by (simp_all add: agent_slug_def provider_id_def output_name_def Let_def strip_clean is_space_def code_def)

text \<open>What an accepted payload looks like.\<close>

lemma normalize_agent_Inr:
  assumes "normalize_agent fl rd provider aid fresh d = Inr r"
  shows "\<exists>name slug ins reasoning mode out desc en model pid i fields fs schema t m.
    r = [(''id'', JStr i), (''slug'', JStr slug), (''name'', JStr name), (''description'', or_none desc),
      (''enabled'', JBool en), (''instructions'', JStr ins), (''reasoningMode'', JStr reasoning), (''inputFields'', JList fs),
      (''outputMode'', JStr mode), (''outputFieldName'', JStr out), (''outputSchema'', schema),
      (''defaultProviderId'', JStr pid), (''modelOverride'', or_none model), (''temperature'', JFloat t), (''maxTokens'', JInt m)] \<and>
    str_strip name = name \<and> str_strip slug = slug \<and> str_strip ins = ins \<and> str_strip reasoning = reasoning \<and>
    str_strip mode = mode \<and> str_strip out = out \<and> str_strip desc = desc \<and> str_strip model = model \<and> str_strip pid = pid \<and>
    2 \<le> length name \<and> safe_slug slug \<and> 10 \<le> length ins \<and> reasoning \<in> {''predict'', ''chain_of_thought''} \<and>
    mode \<in> {''text'', ''json''} \<and> safe_field_name out \<and> out \<notin> {''request'', ''reasoning''} \<and>
    fields \<noteq> [] \<and> normalize_fields fl {} fields = Inr fs \<and> output_schema mode (obj_get d ''outputSchema'') = Inr schema \<and>
    provider pid \<and> 32 \<le> m \<and> i = given_id aid fresh"
proof -
  obtain fields fs schema t m where
    "2 \<le> length (text_field fl d ''name'' [])" "safe_slug (agent_slug fl d)" "10 \<le> length (text_field fl d ''instructions'' [])"
    "text_field fl d ''reasoningMode'' ''predict'' \<in> {''predict'', ''chain_of_thought''}"
    "text_field fl d ''outputMode'' ''text'' \<in> {''text'', ''json''}" "safe_field_name (output_name fl d)"
    "output_name fl d \<notin> {''request'', ''reasoning''}" "fields \<noteq> []" "normalize_fields fl {} fields = Inr fs"
    "output_schema (text_field fl d ''outputMode'' ''text'') (obj_get d ''outputSchema'') = Inr schema" "provider (provider_id fl d)" "32 \<le> m"
    "r = [(''id'', JStr (given_id aid fresh)),
         (''slug'', JStr (agent_slug fl d)), (''name'', JStr (text_field fl d ''name'' [])),
         (''description'', or_none (text_field fl d ''description'' [])),
         (''enabled'', JBool (truthy (get_or d ''enabled'' (JBool True)))),
         (''instructions'', JStr (text_field fl d ''instructions'' [])),
         (''reasoningMode'', JStr (text_field fl d ''reasoningMode'' ''predict'')), (''inputFields'', JList fs),
         (''outputMode'', JStr (text_field fl d ''outputMode'' ''text'')), (''outputFieldName'', JStr (output_name fl d)),
         (''outputSchema'', schema), (''defaultProviderId'', JStr (provider_id fl d)),
         (''modelOverride'', or_none (text_field fl d ''modelOverride'' [])),
         (''temperature'', JFloat t), (''maxTokens'', JInt m)]"
    using assms unfolding normalize_agent_def rbind_Inr_iff require_that_Inr
    by (elim exE conjE) (drule input_field_list_Inr, simp only: sum.inject, metis)
  then show ?thesis by (intro exI conjI) (assumption | rule refl text_field_strip agent_text_strip)+
qed


definition agent_record ::
  "string \<Rightarrow> string \<Rightarrow> string \<Rightarrow> string \<Rightarrow> bool \<Rightarrow> string \<Rightarrow> string \<Rightarrow> json list \<Rightarrow> string \<Rightarrow> string \<Rightarrow> json \<Rightarrow> string \<Rightarrow>
    string \<Rightarrow> rat \<Rightarrow> int \<Rightarrow> obj" where
  "agent_record i slug name desc en ins reasoning fs mode out schema pid model t m =
     [(''id'', JStr i), (''slug'', JStr slug), (''name'', JStr name), (''description'', or_none desc),
      (''enabled'', JBool en), (''instructions'', JStr ins), (''reasoningMode'', JStr reasoning), (''inputFields'', JList fs),
      (''outputMode'', JStr mode), (''outputFieldName'', JStr out), (''outputSchema'', schema),
      (''defaultProviderId'', JStr pid), (''modelOverride'', or_none model), (''temperature'', JFloat t), (''maxTokens'', JInt m)]"

lemma agent_record_get:
  assumes "r = agent_record i slug name desc en ins reasoning fs mode out schema pid model t m"
  shows "obj_get r ''id'' = JStr i" "obj_get r ''slug'' = JStr slug" "obj_get r ''name'' = JStr name"
    "obj_get r ''description'' = or_none desc" "get_or r ''enabled'' v = JBool en" "obj_get r ''instructions'' = JStr ins"
    "obj_get r ''reasoningMode'' = JStr reasoning" "obj_get r ''inputFields'' = JList fs" "obj_get r ''outputMode'' = JStr mode"
    "obj_get r ''outputFieldName'' = JStr out" "obj_get r ''outputSchema'' = schema" "obj_get r ''defaultProviderId'' = JStr pid"
    "obj_get r ''default_provider_id'' = JNull" "obj_get r ''modelOverride'' = or_none model"
    "get_or r ''temperature'' v = JFloat t" "obj_get r ''temperature'' = JFloat t" "get_or r ''maxTokens'' v = JInt m"
    "obj_get r ''maxTokens'' = JInt m"
  unfolding assms agent_record_def by (simp_all add: dict_simps get_or_def)

lemma output_schema_cases:
  "output_schema mode v = Inr w \<Longrightarrow> mode \<in> {''text'', ''json''} \<Longrightarrow>
    mode = ''text'' \<and> w = JNull \<or> mode = ''json'' \<and> (\<exists>p ps. w = JObj (p # ps))"
  by (auto simp: output_schema_def split: if_splits json.splits list.splits)

lemma safe_nonempty: "safe_slug s \<Longrightarrow> s \<noteq> []" "safe_field_name s \<Longrightarrow> s \<noteq> []"
  by (auto simp: safe_slug_def safe_field_name_def dollar_def)

text \<open>What is accepted is well formed, and it is its own normal form when no label was blank.\<close>

lemma normalize_agent_ok:
  assumes "normalize_agent fl rd provider aid fresh d = Inr r"
  shows "agent_ok provider r \<and>
    (list_all labelled (fields_of r) \<longrightarrow> normalize_agent fl rd provider (Some (id_of r)) fresh r = Inr r)"
proof -
  obtain name slug ins reasoning mode out desc en model pid i fields fs schema t m where
    r: "r = agent_record i slug name desc en ins reasoning fs mode out schema pid model t m"
    and s: "str_strip name = name" "str_strip slug = slug" "str_strip ins = ins" "str_strip reasoning = reasoning"
      "str_strip mode = mode" "str_strip out = out" "str_strip desc = desc" "str_strip model = model" "str_strip pid = pid"
    and c: "2 \<le> length name" "safe_slug slug" "10 \<le> length ins" "reasoning \<in> {''predict'', ''chain_of_thought''}"
      "mode \<in> {''text'', ''json''}" "safe_field_name out" "out \<notin> {''request'', ''reasoning''}"
      "fields \<noteq> []" "normalize_fields fl {} fields = Inr fs"
      "output_schema mode (obj_get d ''outputSchema'') = Inr schema" "provider pid" "32 \<le> m" "i = given_id aid fresh"
    using normalize_agent_Inr[OF assms] unfolding agent_record_def[symmetric] by (elim exE conjE)
  note g = agent_record_get[OF r]
  have fs: "list_all input_field_ok fs" "distinct (map (field_get ''name'') fs)" "fs \<noteq> []"
    using normalize_fields_ok(1,2,3)[OF c(9)] c(8) by auto
  have fo: "fields_of r = fs" by (simp add: fields_of_def g)
  have ok: "agent_ok provider r"
    unfolding agent_ok_def fo g using c fs output_schema_cases[OF c(10,5)] by simp
  have ne: "name \<noteq> []" "slug \<noteq> []" "ins \<noteq> []" "reasoning \<noteq> []" "mode \<noteq> []" "out \<noteq> []"
    using c safe_nonempty by auto
  have tf: "text_field fl r ''name'' v = name" "text_field fl r ''slug'' v = slug" "text_field fl r ''instructions'' v = ins"
    "text_field fl r ''reasoningMode'' v = reasoning" "text_field fl r ''outputMode'' v = mode"
    "text_field fl r ''outputFieldName'' v = out" for v
    by (rule text_field_again; simp add: g s ne)+
  have tn: "text_field fl r ''description'' [] = desc" "text_field fl r ''modelOverride'' [] = model"
    by (rule text_field_none; simp add: g s)+
  have sl: "agent_slug fl r = slug" "output_name fl r = out" "provider_id fl r = pid"
    using ne s(9) by (simp_all add: agent_slug_def output_name_def provider_id_def tf g either_def py_str_def str_strip_def[of "[]"])
  have "normalize_agent fl rd provider (Some (id_of r)) fresh r = Inr r" if "list_all labelled (fields_of r)"
  proof -
    have "normalize_fields fl {} fs = Inr fs" using normalize_fields_ok(5)[OF c(9)] that fo by simp
    moreover have "given_id (Some (id_of r)) fresh = i" using c(13) by (auto simp: id_of_def g given_id_def split: option.splits)
    ultimately show ?thesis
      using c output_schema_again[OF c(10)] input_field_list_again[OF fs(3)]
      unfolding normalize_agent_def sl tf tn g by (simp add: require_that_def r agent_record_def)
  qed
  then show ?thesis using ok by blast
qed

end
