(* ===== verification/Agent_Store.thy ===== *)
theory Agent_Store
  imports Agents
begin

text \<open>
  core/agent_orchestrator.py: saving, listing and deleting agents, queueing an invocation, and the
  usage statistics. The tables agents, invocations, invocation_events and usage_logs of
  core/database.py are dictionaries by their primary keys; a column of JSON text holds the value.
  \<open>now_iso()\<close> is the field \<open>ad_now\<close>; the clock in milliseconds is an argument that is read again and
  again, \<open>ad_reads\<close> counts the readings.
\<close>

section \<open>Tables\<close>

record agent_row =
  ag_slug :: string
  ag_name :: string
  ag_description :: json
  ag_enabled :: int
  ag_instructions :: string
  ag_reasoning :: string
  ag_fields :: "json list"
  ag_mode :: string
  ag_output :: string
  ag_schema :: json
  ag_provider :: string
  ag_model :: json
  ag_temperature :: rat
  ag_max_tokens :: int
  ag_revision :: int
  ag_created :: string
  ag_updated :: string

record inv_row =
  iv_agent :: string
  iv_agent_revision :: int
  iv_provider :: string
  iv_provider_revision :: int
  iv_status :: string
  iv_inputs :: obj
  iv_overrides :: obj
  iv_model :: string
  iv_config :: obj
  iv_text :: json
  iv_json :: json
  iv_reasoning :: json
  iv_usage :: json
  iv_error_code :: json
  iv_error_message :: json
  iv_created :: string
  iv_started :: json
  iv_finished :: json

record inv_event =
  ie_type :: string
  ie_message :: string
  ie_payload :: obj
  ie_elapsed :: "int option"
  ie_created :: string

record usage_row =
  ul_prompt :: int
  ul_completion :: int
  ul_total :: int
  ul_model :: json
  ul_created :: string

record provider_info =
  pi_id :: string
  pi_name :: string
  pi_type :: string
  pi_enabled :: bool
  pi_revision :: int
  pi_default_model :: json

record agent_db =
  ad_agents :: "(string, agent_row) dict"
  ad_invocations :: "(string, inv_row) dict"
  ad_events :: "(string \<times> int, inv_event) dict"
  ad_usage :: "(string \<times> string, usage_row) dict"
  ad_now :: string
  ad_reads :: nat

section \<open>Rows and what is shown of them\<close>

definition row_to_agent :: "string \<Rightarrow> agent_row \<Rightarrow> obj" where
  "row_to_agent i v =
     [(''id'', JStr i), (''slug'', JStr (ag_slug v)), (''name'', JStr (ag_name v)), (''description'', ag_description v),
      (''enabled'', JBool (ag_enabled v \<noteq> 0)), (''instructions'', JStr (ag_instructions v)),
      (''reasoningMode'', JStr (ag_reasoning v)), (''inputFields'', JList (ag_fields v)),
      (''outputMode'', JStr (ag_mode v)), (''outputFieldName'', JStr (ag_output v)), (''outputSchema'', ag_schema v),
      (''defaultProviderId'', JStr (ag_provider v)), (''modelOverride'', ag_model v),
      (''temperature'', JFloat (ag_temperature v)), (''maxTokens'', JInt (ag_max_tokens v)),
      (''revision'', JInt (ag_revision v)), (''createdAt'', JStr (ag_created v)), (''updatedAt'', JStr (ag_updated v))]"

definition row_to_invocation :: "string \<Rightarrow> inv_row \<Rightarrow> obj" where
  "row_to_invocation i v =
     [(''id'', JStr i), (''agentId'', JStr (iv_agent v)), (''agentRevision'', JInt (iv_agent_revision v)),
      (''providerId'', JStr (iv_provider v)), (''providerRevision'', JInt (iv_provider_revision v)),
      (''status'', JStr (iv_status v)), (''inputs'', JObj (iv_inputs v)), (''overrides'', JObj (iv_overrides v)),
      (''resolvedModel'', JStr (iv_model v)), (''resolvedConfig'', JObj (iv_config v)), (''outputText'', iv_text v),
      (''outputJson'', iv_json v), (''reasoningText'', iv_reasoning v), (''usage'', iv_usage v),
      (''errorCode'', iv_error_code v), (''errorMessage'', iv_error_message v), (''createdAt'', JStr (iv_created v)),
      (''startedAt'', iv_started v), (''finishedAt'', iv_finished v)]"

fun text_of :: "json \<Rightarrow> string" where
  "text_of (JStr s) = s"
| "text_of v = []"

fun rat_of :: "json \<Rightarrow> rat" where
  "rat_of (JFloat q) = q"
| "rat_of v = 0"

fun int_of :: "json \<Rightarrow> int" where
  "int_of (JInt i) = i"
| "int_of v = 0"

text \<open>The values of \<open>INSERT\<close> and \<open>UPDATE\<close>, taken from the normal form.\<close>

definition agent_columns :: "obj \<Rightarrow> int \<Rightarrow> string \<Rightarrow> string \<Rightarrow> agent_row" where
  "agent_columns n revision created updated =
     \<lparr>ag_slug = text_of (obj_get n ''slug''), ag_name = text_of (obj_get n ''name''),
      ag_description = obj_get n ''description'', ag_enabled = of_bool (truthy (obj_get n ''enabled'')),
      ag_instructions = text_of (obj_get n ''instructions''), ag_reasoning = text_of (obj_get n ''reasoningMode''),
      ag_fields = fields_of n, ag_mode = text_of (obj_get n ''outputMode''),
      ag_output = text_of (obj_get n ''outputFieldName''), ag_schema = obj_get n ''outputSchema'',
      ag_provider = text_of (obj_get n ''defaultProviderId''), ag_model = obj_get n ''modelOverride'',
      ag_temperature = rat_of (obj_get n ''temperature''), ag_max_tokens = int_of (obj_get n ''maxTokens''),
      ag_revision = revision, ag_created = created, ag_updated = updated\<rparr>"

section \<open>Agents\<close>

definition get_agent :: "agent_db \<Rightarrow> string \<Rightarrow> obj option" where
  "get_agent db i = map_option (row_to_agent i) (map_of (ad_agents db) i)"

text \<open>The column slug is unique: a statement that would store it twice is refused.\<close>

definition slug_taken :: "agent_db \<Rightarrow> string \<Rightarrow> string \<Rightarrow> bool" where
  "slug_taken db i slug = list_ex (\<lambda>(j, v). j \<noteq> i \<and> ag_slug v = slug) (ad_agents db)"

definition save_agent ::
  "(rat \<Rightarrow> string) \<Rightarrow> (string \<Rightarrow> rat option) \<Rightarrow> (string \<Rightarrow> provider_info option) \<Rightarrow> string option \<Rightarrow> string \<Rightarrow> obj \<Rightarrow> agent_db \<Rightarrow>
    py_error + obj \<times> agent_db" where
  "save_agent fl rd prov aid fresh payload db =
     rbind (normalize_agent fl rd (\<lambda>p. prov p \<noteq> None) aid fresh payload) (\<lambda>n.
       let i = id_of n;
           row = (case map_of (ad_agents db) i of
                    None \<Rightarrow> agent_columns n 1 (ad_now db) (ad_now db)
                  | Some old \<Rightarrow> agent_columns n (ag_revision old + 1) (ag_created old) (ad_now db))
       in if slug_taken db i (ag_slug row) then Inl (Integrity_error ''UNIQUE constraint failed: agents.slug'')
          else let db' = db\<lparr>ad_agents := dict_set i row (ad_agents db)\<rparr> in
            (case get_agent db' i of
               None \<Rightarrow> Inl (Runtime_error ''agent save succeeded but the agent could not be reloaded'')
             | Some a \<Rightarrow> Inr (a, db')))"

definition delete_agent :: "string \<Rightarrow> agent_db \<Rightarrow> agent_db" where
  "delete_agent i db = db\<lparr>ad_agents := dict_del i (ad_agents db)\<rparr>"

definition validate_agent ::
  "(rat \<Rightarrow> string) \<Rightarrow> (string \<Rightarrow> rat option) \<Rightarrow> (string \<Rightarrow> provider_info option) \<Rightarrow> string option \<Rightarrow> string \<Rightarrow> obj \<Rightarrow> py_error + obj" where
  "validate_agent fl rd prov aid fresh payload =
     rbind (normalize_agent fl rd (\<lambda>p. prov p \<noteq> None) aid fresh payload)
       (\<lambda>n. Inr [(''valid'', JBool True), (''normalized'', JObj n)])"

text \<open>\<open>ORDER BY k DESC\<close>; rows with equal keys keep the order of the table.\<close>

definition sort_desc :: "('a \<Rightarrow> 'k :: linorder) \<Rightarrow> 'a list \<Rightarrow> 'a list" where
  "sort_desc f xs = rev (sort_key f (rev xs))"

definition list_agents :: "agent_db \<Rightarrow> obj list" where
  "list_agents db = map (\<lambda>(i, v). row_to_agent i v)
     (sort_desc (\<lambda>(i, v). ag_updated v) (sort_key (\<lambda>(i, v). ag_name v) (ad_agents db)))"

section \<open>Events of an invocation\<close>

definition next_event_seq :: "string \<Rightarrow> agent_db \<Rightarrow> int" where
  "next_event_seq i db = Max (insert 0 ((\<lambda>(k, v). if fst k = i then snd k else 0) ` set (ad_events db))) + 1"

definition append_event ::
  "(nat \<Rightarrow> int) \<Rightarrow> string \<Rightarrow> string \<Rightarrow> string \<Rightarrow> obj \<Rightarrow> int option \<Rightarrow> string \<Rightarrow> agent_db \<Rightarrow> agent_db" where
  "append_event ck i ty msg payload started trace db =
     db\<lparr>ad_events := dict_set (i, next_event_seq i db)
          \<lparr>ie_type = ty, ie_message = msg,
           ie_payload = (if trace = [] then payload else dict_set ''traceId'' (JStr trace) payload),
           ie_elapsed = map_option (\<lambda>s. ck (ad_reads db) - s) started, ie_created = ad_now db\<rparr> (ad_events db),
        ad_reads := ad_reads db + 1\<rparr>"

definition invocation_events :: "agent_db \<Rightarrow> string \<Rightarrow> (int \<times> inv_event) list" where
  "invocation_events db i = sort_key fst (map (\<lambda>(k, v). (snd k, v)) (filter (\<lambda>(k, v). fst k = i) (ad_events db)))"

section \<open>Queueing an invocation\<close>

definition get_invocation :: "agent_db \<Rightarrow> string \<Rightarrow> obj option" where
  "get_invocation db i = map_option (row_to_invocation i) (map_of (ad_invocations db) i)"

definition list_invocations :: "agent_db \<Rightarrow> string option \<Rightarrow> obj list" where
  "list_invocations db a = map (\<lambda>(i, v). row_to_invocation i v) (take 50 (sort_desc (\<lambda>(i, v). iv_created v)
     (case a of None \<Rightarrow> ad_invocations db
      | Some x \<Rightarrow> if x = [] then ad_invocations db else filter (\<lambda>(i, v). iv_agent v = x) (ad_invocations db))))"

definition object_or_empty :: "json \<Rightarrow> string \<Rightarrow> py_error + obj" where
  "object_or_empty v what =
     (case either v (JObj []) of JObj d \<Rightarrow> Inr d | _ \<Rightarrow> Inl (Value_error (''invocation '' @ what @ '' must be an object'')))"

definition chosen_model :: "(rat \<Rightarrow> string) \<Rightarrow> obj \<Rightarrow> obj \<Rightarrow> provider_info \<Rightarrow> string" where
  "chosen_model fl overrides agent p =
     py_str fl (either (obj_get overrides ''model'') (either (obj_get agent ''modelOverride'') (either (pi_default_model p) (JStr []))))"

definition new_invocation :: "obj \<Rightarrow> provider_info \<Rightarrow> obj \<Rightarrow> obj \<Rightarrow> string \<Rightarrow> string \<Rightarrow> inv_row" where
  "new_invocation agent p inputs overrides model now =
     \<lparr>iv_agent = id_of agent, iv_agent_revision = int_of (obj_get agent ''revision''), iv_provider = pi_id p,
      iv_provider_revision = pi_revision p, iv_status = ''queued'', iv_inputs = inputs, iv_overrides = overrides,
      iv_model = model, iv_config = [], iv_text = JNull, iv_json = JNull, iv_reasoning = JNull, iv_usage = JNull,
      iv_error_code = JNull, iv_error_message = JNull, iv_created = now, iv_started = JNull, iv_finished = JNull\<rparr>"

record inv_job =
  ij_id :: string
  ij_agent :: obj
  ij_provider :: provider_info
  ij_inputs :: obj
  ij_overrides :: obj

text \<open>The thread that is started is returned as a job; it runs after the answer was read.\<close>

definition invoke_agent ::
  "(rat \<Rightarrow> string) \<Rightarrow> (nat \<Rightarrow> int) \<Rightarrow> (string \<Rightarrow> provider_info option) \<Rightarrow> string \<Rightarrow> string \<Rightarrow> obj \<Rightarrow> agent_db \<Rightarrow>
    py_error + obj \<times> inv_job \<times> agent_db" where
  "invoke_agent fl ck prov fresh agent_id payload db =
     (case get_agent db agent_id of
        None \<Rightarrow> Inl (Key_error (''agent `'' @ agent_id @ ''` was not found''))
      | Some agent \<Rightarrow>
          if \<not> truthy (obj_get agent ''enabled'') then
            Inl (Value_error (''agent `'' @ text_of (obj_get agent ''name'') @ ''` is disabled''))
          else
            rbind (object_or_empty (obj_get payload ''inputs'') ''inputs'') (\<lambda>inputs.
            rbind (object_or_empty (obj_get payload ''overrides'') ''overrides'') (\<lambda>overrides.
            rbind (validate_invocation_inputs fl (fields_of agent) inputs) (\<lambda>_.
              let pid = py_str fl (either (obj_get overrides ''providerId'') (obj_get agent ''defaultProviderId'')) in
              case prov pid of
                None \<Rightarrow> Inl (Value_error (''provider `'' @ pid @ ''` was not found''))
              | Some p \<Rightarrow>
                  if \<not> pi_enabled p then Inl (Value_error (''provider `'' @ pi_name p @ ''` is disabled''))
                  else if dict_has (ad_invocations db) fresh then
                    Inl (Integrity_error ''UNIQUE constraint failed: invocations.id'')
                  else
                    let row = new_invocation agent p inputs overrides (chosen_model fl overrides agent p) (ad_now db);
                        db' = append_event ck fresh ''queued'' ''Invocation queued'' [(''agentId'', JStr agent_id)] None []
                          (db\<lparr>ad_invocations := dict_set fresh row (ad_invocations db)\<rparr>)
                    in (case get_invocation db' fresh of
                          None \<Rightarrow> Inl (Runtime_error ''invocation was created but could not be reloaded'')
                        | Some iv \<Rightarrow> Inr (iv, \<lparr>ij_id = fresh, ij_agent = agent, ij_provider = p, ij_inputs = inputs,
                            ij_overrides = overrides\<rparr>, db'))))))"

section \<open>Usage statistics\<close>

record usage_total =
  ut_name :: string
  ut_type :: string
  ut_count :: int
  ut_tokens :: int

record usage_stats =
  us_total :: int
  us_prompt :: int
  us_completion :: int
  us_agents :: "(string, usage_total) dict"
  us_providers :: "(string, usage_total) dict"
  us_recent :: "obj list"

definition used_tokens_of :: "obj \<Rightarrow> py_error + int \<times> int \<times> int" where
  "used_tokens_of u =
     rbind (json_int (either (obj_get u ''prompt_tokens'') (JInt 0))) (\<lambda>p.
     rbind (json_int (either (obj_get u ''completion_tokens'') (JInt 0))) (\<lambda>c.
     rbind (json_int (either (obj_get u ''total_tokens'') (JInt (p + c)))) (\<lambda>t. Inr (p, c, t))))"

definition count_usage :: "string \<Rightarrow> int \<Rightarrow> (string, usage_total) dict \<Rightarrow> (string, usage_total) dict" where
  "count_usage k t d = (case map_of d k of None \<Rightarrow> d
     | Some u \<Rightarrow> dict_set k (u\<lparr>ut_count := ut_count u + 1, ut_tokens := ut_tokens u + t\<rparr>) d)"

definition named :: "(string, usage_total) dict \<Rightarrow> string \<Rightarrow> (usage_total \<Rightarrow> string) \<Rightarrow> json" where
  "named d k f = (case map_of d k of None \<Rightarrow> JStr [] | Some u \<Rightarrow> JStr (f u))"

definition recent_entry :: "string \<Rightarrow> inv_row \<Rightarrow> int \<Rightarrow> int \<Rightarrow> int \<Rightarrow> usage_stats \<Rightarrow> obj" where
  "recent_entry i v p c t S =
     [(''invocationId'', JStr i), (''agentId'', JStr (iv_agent v)), (''agentName'', named (us_agents S) (iv_agent v) ut_name),
      (''providerId'', JStr (iv_provider v)), (''providerName'', named (us_providers S) (iv_provider v) ut_name),
      (''providerType'', named (us_providers S) (iv_provider v) ut_type), (''model'', JStr (iv_model v)),
      (''promptTokens'', JInt p), (''completionTokens'', JInt c), (''totalTokens'', JInt t), (''createdAt'', JStr (iv_created v))]"

fun add_usages :: "(string \<times> inv_row) list \<Rightarrow> usage_stats \<Rightarrow> py_error + usage_stats" where
  "add_usages [] S = Inr S"
| "add_usages ((i, v) # rows) S =
     (case iv_usage v of
        JObj u \<Rightarrow>
          if u = [] then add_usages rows S
          else rbind (used_tokens_of u) (\<lambda>(p, c, t).
            let S' = S\<lparr>us_total := us_total S + t, us_prompt := us_prompt S + p, us_completion := us_completion S + c,
                  us_agents := count_usage (iv_agent v) t (us_agents S),
                  us_providers := count_usage (iv_provider v) t (us_providers S)\<rparr>
            in add_usages rows (if length (us_recent S) < 20
                 then S'\<lparr>us_recent := us_recent S @ [recent_entry i v p c t S']\<rparr> else S'))
      | x \<Rightarrow> if truthy x then Inl (Attribute_error (sq (type_name x) @ '' object has no attribute '' @ sq ''get''))
             else add_usages rows S)"

definition start_stats :: "agent_db \<Rightarrow> provider_info list \<Rightarrow> usage_stats" where
  "start_stats db provs =
     \<lparr>us_total = 0, us_prompt = 0, us_completion = 0,
      us_agents = map (\<lambda>(i, v). (i, \<lparr>ut_name = (if ag_name v = [] then ag_slug v else ag_name v), ut_type = [],
        ut_count = 0, ut_tokens = 0\<rparr>)) (ad_agents db),
      us_providers = map (\<lambda>p. (pi_id p, \<lparr>ut_name = pi_name p, ut_type = pi_type p, ut_count = 0, ut_tokens = 0\<rparr>)) provs,
      us_recent = []\<rparr>"

text \<open>The rows whose usage is stored, newest first. What is returned beside the sums: the number of
  these rows, and the totals of providers and agents with the largest first.\<close>

definition usage_rows :: "agent_db \<Rightarrow> (string \<times> inv_row) list" where
  "usage_rows db = sort_desc (\<lambda>(i, v). iv_created v) (filter (\<lambda>(i, v). iv_usage v \<noteq> JNull) (ad_invocations db))"

definition get_usage_stats :: "agent_db \<Rightarrow> provider_info list \<Rightarrow> py_error + usage_stats \<times> int" where
  "get_usage_stats db provs =
     rbind (add_usages (usage_rows db) (start_stats db provs)) (\<lambda>S.
       Inr (S\<lparr>us_providers := sort_desc (ut_tokens \<circ> snd) (us_providers S),
              us_agents := sort_desc (ut_tokens \<circ> snd) (us_agents S)\<rparr>, int (length (usage_rows db))))"

section \<open>Saving\<close>

definition agent_store_ok :: "(string \<Rightarrow> bool) \<Rightarrow> agent_db \<Rightarrow> bool" where
  "agent_store_ok provider db \<longleftrightarrow> dict_ok (ad_agents db) \<and>
     (\<forall>i a. get_agent db i = Some a \<longrightarrow> agent_ok provider a \<and> 1 \<le> int_of (obj_get a ''revision'')) \<and>
     (\<forall>i j v w. map_of (ad_agents db) i = Some v \<and> map_of (ad_agents db) j = Some w \<and> ag_slug v = ag_slug w \<longrightarrow> i = j)"

lemma row_of_columns:
  assumes "r = agent_record i slug name desc en ins reasoning fs mode out schema pid model t m"
  shows "row_to_agent i (agent_columns r k c u) = r @ [(''revision'', JInt k), (''createdAt'', JStr c), (''updatedAt'', JStr u)]"
    and "ag_slug (agent_columns r k c u) = slug"
proof -
  note g = agent_record_get[OF assms]
  have en: "obj_get r ''enabled'' = JBool en" using g(5) by (simp add: assms agent_record_def dict_simps)
  show "row_to_agent i (agent_columns r k c u) = r @ [(''revision'', JInt k), (''createdAt'', JStr c), (''updatedAt'', JStr u)]"
    unfolding row_to_agent_def agent_columns_def fields_of_def by (simp add: g en) (simp add: assms agent_record_def)
  show "ag_slug (agent_columns r k c u) = slug" by (simp add: agent_columns_def g)
qed

lemma agent_ok_append: "agent_ok provider r \<Longrightarrow> agent_ok provider (r @ [(''revision'', a), (''createdAt'', b), (''updatedAt'', c)])"
proof -
  have g: "obj_get (r @ [(''revision'', a), (''createdAt'', b), (''updatedAt'', c)]) k = obj_get r k"
    if "k \<notin> {''revision'', ''createdAt'', ''updatedAt''}" for k
    using that by (auto simp: obj_get_def map_add_def split: option.splits)
  show "agent_ok provider r \<Longrightarrow> ?thesis"
    by (simp add: agent_ok_def fields_of_def g)
qed


lemma slug_free: "\<not> slug_taken db i slug \<Longrightarrow> map_of (ad_agents db) j = Some v \<Longrightarrow> ag_slug v = slug \<Longrightarrow> j = i"
  by (auto simp: slug_taken_def list_ex_iff dest: map_of_SomeD)

lemma normalize_agent_record:
  "normalize_agent fl rd provider aid fresh d = Inr r \<Longrightarrow>
    \<exists>slug name desc en ins reasoning fs mode out schema pid model t m.
      r = agent_record (given_id aid fresh) slug name desc en ins reasoning fs mode out schema pid model t m"
  using normalize_agent_Inr[of fl rd provider aid fresh d r] unfolding agent_record_def[symmetric] by blast

text \<open>A saved agent is read back as its normal form with the next revision; the others are untouched.\<close>

lemma save_agent_Inr:
  assumes "save_agent fl rd prov aid fresh payload db = Inr (a, db')" "agent_store_ok (\<lambda>p. prov p \<noteq> None) db"
  shows "\<exists>n k c. normalize_agent fl rd (\<lambda>p. prov p \<noteq> None) aid fresh payload = Inr n \<and> id_of n = given_id aid fresh \<and>
    a = n @ [(''revision'', JInt k), (''createdAt'', JStr c), (''updatedAt'', JStr (ad_now db))] \<and>
    k = (case map_of (ad_agents db) (id_of n) of None \<Rightarrow> 1 | Some old \<Rightarrow> ag_revision old + 1) \<and>
    get_agent db' (id_of n) = Some a \<and> (\<forall>j. j \<noteq> id_of n \<longrightarrow> get_agent db' j = get_agent db j) \<and>
    agent_store_ok (\<lambda>p. prov p \<noteq> None) db'"
proof -
  let ?P = "\<lambda>p. prov p \<noteq> None"
  obtain n where n: "normalize_agent fl rd ?P aid fresh payload = Inr n"
    using assms(1) by (auto simp: save_agent_def rbind_Inr_iff)
  obtain slug name desc en ins reasoning fs mode out schema pid model t m where
    r: "n = agent_record (given_id aid fresh) slug name desc en ins reasoning fs mode out schema pid model t m"
    using normalize_agent_record[OF n] by blast
  have i: "id_of n = given_id aid fresh" by (simp add: id_of_def agent_record_get[OF r])
  define k where "k = (case map_of (ad_agents db) (id_of n) of None \<Rightarrow> 1 | Some old \<Rightarrow> ag_revision old + 1)"
  define c where "c = (case map_of (ad_agents db) (id_of n) of None \<Rightarrow> ad_now db | Some old \<Rightarrow> ag_created old)"
  define row where "row = agent_columns n k c (ad_now db)"
  have row: "(case map_of (ad_agents db) (id_of n) of None \<Rightarrow> agent_columns n 1 (ad_now db) (ad_now db)
      | Some old \<Rightarrow> agent_columns n (ag_revision old + 1) (ag_created old) (ad_now db)) = row"
    by (simp add: row_def k_def c_def split: option.split)
  have slug: "\<not> slug_taken db (id_of n) (ag_slug row)"
    and db': "db' = db\<lparr>ad_agents := dict_set (id_of n) row (ad_agents db)\<rparr>" and a: "a = row_to_agent (id_of n) row"
    using assms(1) n row by (simp_all add: save_agent_def Let_def get_agent_def dict_simps split: if_splits)
  have a': "a = n @ [(''revision'', JInt k), (''createdAt'', JStr c), (''updatedAt'', JStr (ad_now db))]"
    using row_of_columns(1)[OF r, of k c "ad_now db"] a i by (simp add: row_def)
  have get: "get_agent db' j = (if j = id_of n then Some a else get_agent db j)" for j
    by (simp add: get_agent_def db' dict_simps a)
  have k1: "1 \<le> k"
  proof (cases "map_of (ad_agents db) (id_of n)")
    case (Some old)
    then have "get_agent db (id_of n) = Some (row_to_agent (id_of n) old)" by (simp add: get_agent_def)
    then have "1 \<le> int_of (obj_get (row_to_agent (id_of n) old) ''revision'')" using assms(2) by (simp add: agent_store_ok_def)
    then show ?thesis using Some by (simp add: k_def row_to_agent_def dict_simps)
  qed (simp add: k_def)
  have rev: "int_of (obj_get a ''revision'') = k" using a row_def by (simp add: row_to_agent_def dict_simps agent_columns_def)
  have "agent_ok ?P a" using agent_ok_append normalize_agent_ok[OF n] a' by simp
  then have ok: "agent_ok ?P b \<and> 1 \<le> int_of (obj_get b ''revision'')" if "get_agent db' j = Some b" for j b
    using that get[of j] assms(2) k1 rev by (auto simp: agent_store_ok_def split: if_splits)
  have uniq: "p = q" if "map_of (ad_agents db') p = Some v" "map_of (ad_agents db') q = Some w" "ag_slug v = ag_slug w" for p q v w
  proof -
    have old: "p' = q'" if "map_of (ad_agents db) p' = Some v'" "map_of (ad_agents db) q' = Some w'" "ag_slug v' = ag_slug w'"
      for p' q' v' w' using assms(2) that by (auto simp: agent_store_ok_def)
    show ?thesis using that slug_free[OF slug] old by (auto simp: db' dict_simps split: if_splits)
  qed
  have "dict_ok (ad_agents db')" using assms(2) by (simp add: db' agent_store_ok_def)
  then have "agent_store_ok ?P db'" unfolding agent_store_ok_def using ok uniq by blast
  then show ?thesis using n i a' k_def get by auto
qed

end
