(* ===== verification/Demo_Agents.thy ===== *)
theory Demo_Agents
  imports Agent_Store
begin

text \<open>A payload that the agent normalizer accepts, and saving it into an empty store.\<close>

definition demo_provider :: provider_info where
  "demo_provider = \<lparr>pi_id = ''p1'', pi_name = ''P'', pi_type = ''openai'', pi_enabled = True, pi_revision = 1,
     pi_default_model = JStr ''m''\<rparr>"

definition demo_providers :: "string \<Rightarrow> provider_info option" where
  "demo_providers p = (if p = ''p1'' then Some demo_provider else None)"

definition demo_payload :: obj where
  "demo_payload = [(''name'', JStr ''My agent''), (''instructions'', JStr ''Answer the question.''),
     (''inputFields'', JList [JObj [(''name'', JStr ''user_text'')]]), (''defaultProviderId'', JStr ''p1'')]"

definition demo_store :: agent_db where
  "demo_store = \<lparr>ad_agents = [], ad_invocations = [], ad_events = [], ad_usage = [], ad_now = ''t0'', ad_reads = 0\<rparr>"

definition float_text :: "rat \<Rightarrow> string" where
  "float_text q = ''0.2''"

definition float_read :: "string \<Rightarrow> rat option" where
  "float_read s = None"

definition demo_field :: json where
  "demo_field = field_record ''user_text'' ''User Text'' JNull True"

definition demo_normal :: obj where
  "demo_normal = agent_record ''a1'' ''my-agent'' ''My agent'' [] True ''Answer the question.'' ''predict'' [demo_field]
     ''text'' ''response'' JNull ''p1'' [] default_temperature 700"

lemma demo_normalize:
  "normalize_agent float_text float_read (\<lambda>p. demo_providers p \<noteq> None) None ''a1'' demo_payload = Inr demo_normal"
  by code_simp

lemma demo_labelled: "list_all labelled (fields_of demo_normal)"
  by code_simp

end
