(* ===== verification/Invocations.thy ===== *)
theory Invocations
  imports Agent_Store
begin

text \<open>
  core/agent_invoker.py: the thread that runs one queued invocation. The language model is an
  argument: building it may raise, and so may the program that is run on it. So are the gateway, which
  gets the call as a function, \<open>json.dumps\<close>, \<open>json.loads\<close> and \<open>ast.literal_eval\<close>. The state is the database
  and the world of these arguments. A fault is the class of an exception and its text.
\<close>

type_synonym py_fault = "string \<times> string"

fun fault_of :: "py_error \<Rightarrow> py_fault" where
  "fault_of (Value_error m) = (''ValueError'', m)"
| "fault_of (Type_error m) = (''TypeError'', m)"
| "fault_of (Attribute_error m) = (''AttributeError'', m)"
| "fault_of (Key_error m) = (''KeyError'', repr_str m)"
| "fault_of (Runtime_error m) = (''RuntimeError'', m)"
| "fault_of (Integrity_error m) = (''IntegrityError'', m)"
| "fault_of (Other_error m) = (''Exception'', m)"

definition faulty :: "py_error + 'a \<Rightarrow> py_fault + 'a" where
  "faulty r = (case r of Inl e \<Rightarrow> Inl (fault_of e) | Inr x \<Rightarrow> Inr x)"

section \<open>The text of a request\<close>

text \<open>\<open>dumps\<close> is \<open>json.dumps(v, ensure_ascii=False, indent=2)\<close>.\<close>

definition field_lines :: "(rat \<Rightarrow> string) \<Rightarrow> obj \<Rightarrow> json \<Rightarrow> string list" where
  "field_lines fl inputs f =
     (let name = text_of (field_get ''name'' f);
          value = str_strip (py_str fl (get_or inputs name (JStr [])))
      in (''- '' @ text_of (field_get ''label'' f) @ '' ('' @ name @ ''): '' @ (if value = [] then ''(not provided)'' else value))
         # (if truthy (field_get ''description'' f)
            then [''  Guidance: '' @ py_str fl (field_get ''description'' f)] else []))"

definition request_text :: "(rat \<Rightarrow> string) \<Rightarrow> (json \<Rightarrow> string) \<Rightarrow> obj \<Rightarrow> obj \<Rightarrow> string" where
  "request_text fl dumps agent inputs =
     str_strip (str_join [CHR 0x0A]
       ([str_strip (text_of (obj_get agent ''instructions'')), [], ''Structured inputs:'']
        @ concat (map (field_lines fl inputs) (fields_of agent))
        @ [[], ''Return the final answer in the `'' @ text_of (obj_get agent ''outputFieldName'') @ ''` field.'']
        @ (if obj_get agent ''outputMode'' = JStr ''json'' \<and> truthy (obj_get agent ''outputSchema'')
           then [[], ''Return valid JSON only. Do not wrap it in markdown fences.'', ''JSON shape guidance:'',
             dumps (obj_get agent ''outputSchema'')] else [])))"

section \<open>The answer of the model\<close>

record prediction =
  pr_value :: json
  pr_reasoning :: json
  pr_last :: "json option"
  pr_lm_model :: json

record model_output =
  mo_text :: string
  mo_json :: json
  mo_reasoning :: json
  mo_usage :: json

definition strip_ticks :: "string \<Rightarrow> string" where
  "strip_ticks s = rev (dropWhile (\<lambda>c. c = CHR ''`'') (rev (dropWhile (\<lambda>c. c = CHR ''`'') s)))"

definition unfence :: "string \<Rightarrow> string" where
  "unfence s =
     (let c = str_strip s in
      if str_prefix ''```'' c then
        (let d = strip_ticks c in if str_prefix ''json'' d then str_strip (drop 4 d) else d)
      else c)"

definition parse_json_output :: "(string \<Rightarrow> json option) \<Rightarrow> (string \<Rightarrow> json option) \<Rightarrow> string \<Rightarrow> py_error + obj" where
  "parse_json_output loads literal s =
     (case (case loads (unfence s) of Some v \<Rightarrow> Some v | None \<Rightarrow> literal (unfence s)) of
        None \<Rightarrow> Inl (Value_error ''agent was configured for JSON output, but the model response was not valid JSON'')
      | Some (JObj d) \<Rightarrow> Inr d
      | Some _ \<Rightarrow> Inl (Value_error ''JSON-output agents must return an object at the top level''))"

definition raw_usage :: "obj \<Rightarrow> py_error + obj" where
  "raw_usage latest =
     (case either (obj_get latest ''usage'') (JObj []) of
        JObj u \<Rightarrow> Inr u
      | v \<Rightarrow> Inl (Attribute_error (sq (type_name v) @ '' object has no attribute '' @ sq ''get'')))"

definition usage_of :: "prediction \<Rightarrow> py_error + json" where
  "usage_of pr =
     (case pr_last pr of
        Some (JObj latest) \<Rightarrow>
          rbind (raw_usage latest) (\<lambda>u.
            let m = either (obj_get latest ''model'') (obj_get u ''model'') in
            Inr (JObj ([(''prompt_tokens'', get_or u ''prompt_tokens'' (get_or u ''input_tokens'' (JInt 0))),
                (''completion_tokens'', get_or u ''completion_tokens'' (get_or u ''output_tokens'' (JInt 0))),
                (''total_tokens'', get_or u ''total_tokens'' (JInt 0)),
                (''model'', if m = JNull then pr_lm_model pr else m)]
              @ (if truthy (obj_get latest ''prompt'') then [(''_raw_prompt'', obj_get latest ''prompt'')] else [])
              @ (if truthy (obj_get latest ''response'') then [(''_raw_response'', obj_get latest ''response'')] else []))))
      | _ \<Rightarrow> Inr JNull)"

definition read_prediction ::
  "(rat \<Rightarrow> string) \<Rightarrow> (json \<Rightarrow> string) \<Rightarrow> (string \<Rightarrow> json option) \<Rightarrow> (string \<Rightarrow> json option) \<Rightarrow> obj \<Rightarrow> prediction \<Rightarrow>
    py_error + model_output" where
  "read_prediction fl dump loads literal agent pr =
     (let reasoning = or_none (str_strip (py_str fl (pr_reasoning pr)));
          plain = str_strip (py_str fl (pr_value pr)) in
      rbind (if obj_get agent ''outputMode'' = JStr ''json'' then
               (case pr_value pr of
                  JObj d \<Rightarrow> Inr (dump (JObj d), JObj d)
                | _ \<Rightarrow> rbind (parse_json_output loads literal plain) (\<lambda>d. Inr (dump (JObj d), JObj d)))
             else Inr (plain, JNull))
        (\<lambda>(text, js). rbind (usage_of pr) (\<lambda>u.
           Inr \<lparr>mo_text = text, mo_json = js, mo_reasoning = reasoning, mo_usage = u\<rparr>)))"

section \<open>Ports\<close>

record ('w, 'l) lm_port =
  lp_build :: "string \<Rightarrow> string \<Rightarrow> rat \<Rightarrow> int \<Rightarrow> 'w \<Rightarrow> (py_fault + 'l) \<times> 'w"
  lp_program :: "'l \<Rightarrow> bool \<Rightarrow> string \<Rightarrow> string \<Rightarrow> 'w \<Rightarrow> (py_fault + prediction) \<times> 'w"

record text_port =
  tp_float :: "rat \<Rightarrow> string"
  tp_read :: "string \<Rightarrow> rat option"
  tp_dump :: "json \<Rightarrow> string"
  tp_dumps :: "json \<Rightarrow> string"
  tp_loads :: "string \<Rightarrow> json option"
  tp_literal :: "string \<Rightarrow> json option"
  tp_clock :: "nat \<Rightarrow> int"

type_synonym ('w, 'a) action = "agent_db \<times> 'w \<Rightarrow> (py_fault + 'a) \<times> agent_db \<times> 'w"

record gateway_request =
  gq_run :: string
  gq_definition :: string
  gq_text :: string
  gq_hint :: "string option"
  gq_fallback :: "string list"
  gq_retries :: int

record gateway_response =
  gr_text :: string
  gr_provider :: string
  gr_model :: string
  gr_tokens :: "int option"
  gr_raw :: model_output

type_synonym 'w gateway_port = "gateway_request \<Rightarrow> (string \<Rightarrow> ('w, gateway_response) action) \<Rightarrow> ('w, gateway_response) action"

section \<open>The settings of a call\<close>

record call_settings =
  cs_model :: string
  cs_temperature :: rat
  cs_max_tokens :: int

definition override_or :: "obj \<Rightarrow> obj \<Rightarrow> string \<Rightarrow> json" where
  "override_or overrides agent k = (if obj_get overrides k \<noteq> JNull then obj_get overrides k else obj_get agent k)"

definition settings_of :: "text_port \<Rightarrow> inv_job \<Rightarrow> py_error + call_settings" where
  "settings_of tp j =
     rbind (json_float (tp_read tp) (override_or (ij_overrides j) (ij_agent j) ''temperature'')) (\<lambda>t.
     rbind (json_int (override_or (ij_overrides j) (ij_agent j) ''maxTokens'')) (\<lambda>m.
       Inr \<lparr>cs_model = str_strip (chosen_model (tp_float tp) (ij_overrides j) (ij_agent j) (ij_provider j)),
            cs_temperature = t, cs_max_tokens = m\<rparr>))"

definition settings_json :: "inv_job \<Rightarrow> call_settings \<Rightarrow> obj" where
  "settings_json j cs =
     [(''providerId'', JStr (pi_id (ij_provider j))), (''model'', JStr (cs_model cs)),
      (''temperature'', JFloat (cs_temperature cs)), (''maxTokens'', JInt (cs_max_tokens cs)),
      (''reasoningMode'', obj_get (ij_agent j) ''reasoningMode''), (''outputMode'', obj_get (ij_agent j) ''outputMode'')]"

section \<open>The model call\<close>

definition run_dspy_program ::
  "text_port \<Rightarrow> ('w, 'l) lm_port \<Rightarrow> obj \<Rightarrow> 'l \<Rightarrow> string \<Rightarrow> 'w \<Rightarrow> (py_fault + model_output) \<times> 'w" where
  "run_dspy_program tp lm agent l txt w =
     (let out = py_str (tp_float tp) (either (obj_get agent ''outputFieldName'') (JStr ''response'')) in
      case lp_program lm l (obj_get agent ''reasoningMode'' = JStr ''chain_of_thought'') out txt w of
        (Inl e, w') \<Rightarrow> (Inl e, w')
      | (Inr pr, w') \<Rightarrow>
          (faulty (read_prediction (tp_float tp) (tp_dump tp) (tp_loads tp) (tp_literal tp) agent pr), w'))"

definition run_model_call ::
  "text_port \<Rightarrow> ('w, 'l) lm_port \<Rightarrow> inv_job \<Rightarrow> call_settings \<Rightarrow> int \<Rightarrow> string \<Rightarrow> string \<Rightarrow> ('w, model_output) action" where
  "run_model_call tp lm j cs t0 trace pid s =
     (case s of (db, w) \<Rightarrow>
        (case lp_build lm pid (cs_model cs) (cs_temperature cs) (cs_max_tokens cs) w of
           (Inl e, w1) \<Rightarrow> (Inl e, db, w1)
         | (Inr l, w1) \<Rightarrow>
             let add = (\<lambda>ty msg p. append_event (tp_clock tp) (ij_id j) ty msg p (Some t0) trace);
                 db1 = add ''provider_resolved'' ''Provider and model resolved''
                   [(''providerName'', JStr (pi_name (ij_provider j))), (''model'', JStr (cs_model cs))] db;
                 db2 = add ''validated'' ''Structured request compiled for DSPy''
                   [(''inputCount'', JInt (int (length (ij_inputs j))))] db1;
                 began = tp_clock tp (ad_reads db2);
                 db3 = add ''lm_call_started'' ''DSPy LM call started'' [] (db2\<lparr>ad_reads := ad_reads db2 + 1\<rparr>)
             in (case run_dspy_program tp lm (ij_agent j) l (request_text (tp_float tp) (tp_dumps tp) (ij_agent j) (ij_inputs j)) w1 of
                   (Inl e, w2) \<Rightarrow> (Inl e, db3, w2)
                 | (Inr m, w2) \<Rightarrow>
                     (Inr m, add ''lm_call_finished'' ''DSPy LM call finished''
                        [(''lmCallDurationMs'', JInt (tp_clock tp (ad_reads db3) - began))]
                        (db3\<lparr>ad_reads := ad_reads db3 + 1\<rparr>), w2))))"

definition usage_get :: "json \<Rightarrow> string \<Rightarrow> json" where
  "usage_get u k = either (field_get k u) (JInt 0)"

definition provider_call ::
  "text_port \<Rightarrow> ('w, 'l) lm_port \<Rightarrow> inv_job \<Rightarrow> call_settings \<Rightarrow> int \<Rightarrow> string \<Rightarrow> string \<Rightarrow> ('w, gateway_response) action" where
  "provider_call tp lm j cs t0 trace pid s =
     (case run_model_call tp lm j cs t0 trace pid s of
        (Inl e, s') \<Rightarrow> (Inl e, s')
      | (Inr m, s') \<Rightarrow>
          (case (if truthy (mo_usage m) then map_sum id Some (json_int (usage_get (mo_usage m) ''total_tokens'')) else Inr None) of
             Inl e \<Rightarrow> (Inl (fault_of e), s')
           | Inr n \<Rightarrow> (Inr \<lparr>gr_text = mo_text m, gr_provider = pid, gr_model = cs_model cs, gr_tokens = n, gr_raw = m\<rparr>, s')))"

definition invocation_scope_id :: "string \<Rightarrow> string \<Rightarrow> string" where
  "invocation_scope_id pid aid = ''agent:'' @ aid @ '':'' @ pid"

definition invoke_via_gateway ::
  "'w gateway_port \<Rightarrow> text_port \<Rightarrow> ('w, 'l) lm_port \<Rightarrow> inv_job \<Rightarrow> call_settings \<Rightarrow> int \<Rightarrow> string \<Rightarrow> ('w, model_output) action" where
  "invoke_via_gateway gw tp lm j cs t0 trace s =
     (let pid = pi_id (ij_provider j); aid = id_of (ij_agent j) in
      case gw \<lparr>gq_run = invocation_scope_id pid aid, gq_definition = aid,
               gq_text = request_text (tp_float tp) (tp_dumps tp) (ij_agent j) (ij_inputs j),
               gq_hint = (if cs_model cs = [] then None else Some (cs_model cs)), gq_fallback = [pid], gq_retries = 0\<rparr>
             (provider_call tp lm j cs t0 trace) s of
        (Inl e, s') \<Rightarrow> (Inl e, s')
      | (Inr r, s') \<Rightarrow> (Inr (gr_raw r), s'))"

section \<open>The invocation\<close>

definition update_inv :: "string \<Rightarrow> (inv_row \<Rightarrow> inv_row) \<Rightarrow> agent_db \<Rightarrow> agent_db" where
  "update_inv i f db = db\<lparr>ad_invocations := map (\<lambda>(k, v). (k, if k = i then f v else v)) (ad_invocations db)\<rparr>"

definition log_usage :: "string \<Rightarrow> json \<Rightarrow> agent_db \<Rightarrow> py_error + agent_db" where
  "log_usage i u db =
     (if \<not> truthy u then Inr db
      else rbind (json_int (usage_get u ''prompt_tokens'')) (\<lambda>p.
           rbind (json_int (usage_get u ''completion_tokens'')) (\<lambda>c.
           rbind (json_int (usage_get u ''total_tokens'')) (\<lambda>t.
             Inr (db\<lparr>ad_usage := dict_set (i, ''lm_call'')
               \<lparr>ul_prompt = p, ul_completion = c, ul_total = t, ul_model = field_get ''model'' u, ul_created = ad_now db\<rparr>
               (ad_usage db)\<rparr>)))))"

definition succeed :: "text_port \<Rightarrow> string \<Rightarrow> int \<Rightarrow> string \<Rightarrow> model_output \<Rightarrow> agent_db \<Rightarrow> agent_db" where
  "succeed tp i t0 trace m db =
     append_event (tp_clock tp) i ''completed'' ''Agent invocation completed''
       [(''hasReasoning'', JBool (truthy (mo_reasoning m)))] (Some t0) trace
       (update_inv i (\<lambda>v. v\<lparr>iv_status := ''succeeded'', iv_text := JStr (mo_text m), iv_json := mo_json m,
          iv_reasoning := mo_reasoning m, iv_usage := mo_usage m, iv_finished := JStr (ad_now db),
          iv_error_code := JNull, iv_error_message := JNull\<rparr>) db)"

definition fail_with :: "text_port \<Rightarrow> string \<Rightarrow> int \<Rightarrow> string \<Rightarrow> py_fault \<Rightarrow> agent_db \<Rightarrow> agent_db" where
  "fail_with tp i t0 trace e db =
     append_event (tp_clock tp) i ''failed'' ''Agent invocation failed''
       [(''error'', JStr (snd e)), (''errorCode'', JStr (fst e))] (Some t0) trace
       (update_inv i (\<lambda>v. v\<lparr>iv_status := ''failed'', iv_error_code := JStr (fst e), iv_error_message := JStr (snd e),
          iv_finished := JStr (ad_now db)\<rparr>) db)"

definition model_call ::
  "'w gateway_port option \<Rightarrow> text_port \<Rightarrow> ('w, 'l) lm_port \<Rightarrow> inv_job \<Rightarrow> call_settings \<Rightarrow> int \<Rightarrow> string \<Rightarrow> ('w, model_output) action" where
  "model_call gw tp lm j cs t0 trace s =
     (case gw of None \<Rightarrow> run_model_call tp lm j cs t0 trace (pi_id (ij_provider j)) s
      | Some g \<Rightarrow> invoke_via_gateway g tp lm j cs t0 trace s)"

definition begin_invocation :: "text_port \<Rightarrow> inv_job \<Rightarrow> call_settings \<Rightarrow> string \<Rightarrow> agent_db \<Rightarrow> agent_db" where
  "begin_invocation tp j cs trace db =
     append_event (tp_clock tp) (ij_id j) ''started'' ''Invocation started'' (settings_json j cs) None trace
       (update_inv (ij_id j) (\<lambda>v. v\<lparr>iv_status := ''running'', iv_started := JStr (ad_now db), iv_model := cs_model cs,
          iv_config := settings_json j cs\<rparr>) db)"

text \<open>The first part of the result is the exception that ends the thread, if one does.\<close>

definition execute_invocation ::
  "'w gateway_port option \<Rightarrow> text_port \<Rightarrow> ('w, 'l) lm_port \<Rightarrow> string \<Rightarrow> inv_job \<Rightarrow> agent_db \<times> 'w \<Rightarrow>
    py_error option \<times> agent_db \<times> 'w" where
  "execute_invocation gw tp lm trace j s =
     (case s of (db, w) \<Rightarrow>
        let t0 = tp_clock tp (ad_reads db); db0 = db\<lparr>ad_reads := ad_reads db + 1\<rparr> in
        (case settings_of tp j of
           Inl e \<Rightarrow> (Some e, db0, w)
         | Inr cs \<Rightarrow>
             (case model_call gw tp lm j cs t0 trace (begin_invocation tp j cs trace db0, w) of
                (Inl e, db1, w1) \<Rightarrow> (None, fail_with tp (ij_id j) t0 trace e db1, w1)
              | (Inr m, db1, w1) \<Rightarrow>
                  (case log_usage (ij_id j) (mo_usage m) db1 of
                     Inl e \<Rightarrow> (None, fail_with tp (ij_id j) t0 trace (fault_of e) db1, w1)
                   | Inr db2 \<Rightarrow> (None, succeed tp (ij_id j) t0 trace m db2, w1)))))"

end
