(* ===== verification/Inv_Facts.thy ===== *)
theory Inv_Facts
  imports Invocations
begin

text \<open>
  What a thread does to the tables: until it records an outcome it only appends events of its own
  invocation, whose numbers have no gap; the outcome is recorded once, and only in its own rows.
\<close>

section \<open>Numbered events\<close>

definition event_numbers :: "string \<Rightarrow> agent_db \<Rightarrow> int set" where
  "event_numbers i db = {q. dict_has (ad_events db) (i, q)}"

definition numbered :: "string \<Rightarrow> nat \<Rightarrow> agent_db \<Rightarrow> bool" where
  "numbered i n db \<longleftrightarrow> event_numbers i db = {1..int n}"

lemma next_event_numbered: "numbered i n db \<Longrightarrow> next_event_seq i db = int n + 1"
proof -
  assume h: "numbered i n db"
  let ?A = "insert 0 ((\<lambda>(k, v). if fst k = i then snd k else 0) ` set (ad_events db))"
  have mem: "q \<in> ?A \<longleftrightarrow> q = 0 \<or> q \<in> {1..int n}" for q
  proof -
    have "q \<in> ?A \<longleftrightarrow> q = 0 \<or> q \<in> event_numbers i db"
      by (force simp: event_numbers_def dict_has_iff image_iff split_beta)
    then show ?thesis using h by (simp add: numbered_def)
  qed
  have A: "?A = {0..int n}"
  proof (rule set_eqI)
    fix q show "q \<in> ?A \<longleftrightarrow> q \<in> {0..int n}" unfolding mem by auto
  qed
  show ?thesis unfolding next_event_seq_def A by (simp add: Max_eq_iff)
qed

text \<open>Between two points of a thread only events of \<open>i\<close> were added, and readings of the clock.\<close>

definition only_events :: "string \<Rightarrow> agent_db \<Rightarrow> agent_db \<Rightarrow> bool" where
  "only_events i db db' \<longleftrightarrow> ad_agents db' = ad_agents db \<and> ad_invocations db' = ad_invocations db \<and>
     ad_usage db' = ad_usage db \<and> ad_now db' = ad_now db \<and>
     (\<forall>k. fst k \<noteq> i \<longrightarrow> map_of (ad_events db') k = map_of (ad_events db) k) \<and>
     (\<forall>n. numbered i n db \<longrightarrow> (\<exists>m \<ge> n. numbered i m db'))"

lemma only_events_refl [simp]: "only_events i db db"
  by (auto simp: only_events_def)

lemma only_events_trans: "only_events i a b \<Longrightarrow> only_events i b c \<Longrightarrow> only_events i a c"
  unfolding only_events_def by (metis order_trans)

lemma only_events_reads [simp]: "only_events i db (db\<lparr>ad_reads := r\<rparr>)"
  by (auto simp: only_events_def numbered_def event_numbers_def)

lemma append_event_numbered: "numbered i n db \<Longrightarrow> numbered i (Suc n) (append_event ck i ty msg p st tr db)"
proof -
  assume h: "numbered i n db"
  have "event_numbers i (append_event ck i ty msg p st tr db) = insert (int n + 1) (event_numbers i db)"
    using next_event_numbered[OF h] by (auto simp: event_numbers_def append_event_def dict_has_simps)
  also have "\<dots> = {1..int (Suc n)}" using h by (auto simp: numbered_def)
  finally show ?thesis by (simp add: numbered_def)
qed

lemma append_event_get:
  "map_of (ad_events (append_event ck i ty msg p st tr db)) k = (if k = (i, next_event_seq i db) then
     Some \<lparr>ie_type = ty, ie_message = msg, ie_payload = (if tr = [] then p else dict_set ''traceId'' (JStr tr) p),
       ie_elapsed = map_option (\<lambda>s. ck (ad_reads db) - s) st, ie_created = ad_now db\<rparr> else map_of (ad_events db) k)"
  by (simp add: append_event_def dict_simps)

lemma append_event_tables [simp]:
  "ad_agents (append_event ck i ty msg p st tr db) = ad_agents db"
  "ad_invocations (append_event ck i ty msg p st tr db) = ad_invocations db"
  "ad_usage (append_event ck i ty msg p st tr db) = ad_usage db" "ad_now (append_event ck i ty msg p st tr db) = ad_now db"
  by (simp_all add: append_event_def)

lemma append_event_only: "only_events i db (append_event ck i ty msg p st tr db)"
proof -
  have "\<exists>m \<ge> n. numbered i m (append_event ck i ty msg p st tr db)" if "numbered i n db" for n
    using append_event_numbered[OF that] by (intro exI[of _ "Suc n"]) simp
  then show ?thesis by (auto simp: only_events_def append_event_get)
qed

section \<open>The model call\<close>

lemma run_model_call_only: "only_events (ij_id j) (fst s) (fst (snd (run_model_call tp lm j cs t0 trace pid s)))"
proof -
  obtain db w where s: "s = (db, w)" by force
  note step = only_events_trans[OF _ append_event_only] only_events_trans[OF _ only_events_reads]
  show ?thesis
    by (auto simp: run_model_call_def s Let_def split: prod.split sum.split intro!: step)
qed

lemma provider_call_only: "only_events (ij_id j) (fst s) (fst (snd (provider_call tp lm j cs t0 trace pid s)))"
  using run_model_call_only[of j s tp lm cs t0 trace pid]
  by (auto simp: provider_call_def split: prod.splits sum.splits if_splits)

text \<open>A gateway touches the tables only through the call it was given.\<close>

definition through_call :: "'w gateway_port \<Rightarrow> bool" where
  "through_call gw \<longleftrightarrow> (\<forall>P q call s. (\<forall>pid s. P (fst s) \<longrightarrow> P (fst (snd (call pid s)))) \<longrightarrow> P (fst s) \<longrightarrow> P (fst (snd (gw q call s))))"

lemma model_call_only:
  assumes "\<forall>g. gw = Some g \<longrightarrow> through_call g"
  shows "only_events (ij_id j) (fst s) (fst (snd (model_call gw tp lm j cs t0 trace s)))"
proof (cases gw)
  case None
  then show ?thesis by (simp add: model_call_def run_model_call_only)
next
  case (Some g)
  then have g: "through_call g" using assms by simp
  have inv: "\<forall>pid s'. only_events (ij_id j) (fst s) (fst s') \<longrightarrow>
      only_events (ij_id j) (fst s) (fst (snd (provider_call tp lm j cs t0 trace pid s')))"
    using provider_call_only only_events_trans by blast
  have "only_events (ij_id j) (fst s) (fst (snd (g q (provider_call tp lm j cs t0 trace) s)))" for q
    using g inv only_events_refl unfolding through_call_def by blast
  then have "only_events (ij_id j) (fst s) (fst (snd (invoke_via_gateway g tp lm j cs t0 trace s)))"
    unfolding invoke_via_gateway_def Let_def by (simp add: prod.case_eq_if sum.case_eq_if split_beta split: sum.split)
  then show ?thesis using Some by (simp add: model_call_def)
qed

section \<open>The outcome\<close>

lemma update_inv_get: "map_of (ad_invocations (update_inv i f db)) k =
    (if k = i then map_option f (map_of (ad_invocations db) k) else map_of (ad_invocations db) k)"
proof -
  have "map_of (map (\<lambda>(k, v). (k, if k = i then f v else v)) d) k = (if k = i then map_option f (map_of d k) else map_of d k)" for d
    by (induction d) auto
  then show ?thesis by (simp add: update_inv_def)
qed

lemma update_inv_tables [simp]:
  "ad_agents (update_inv i f db) = ad_agents db" "ad_events (update_inv i f db) = ad_events db"
  "ad_usage (update_inv i f db) = ad_usage db" "ad_now (update_inv i f db) = ad_now db"
  by (simp_all add: update_inv_def)

lemma numbered_update [simp]: "numbered i n (update_inv j f db) = numbered i n db"
  by (simp add: numbered_def event_numbers_def)

definition ends_with :: "string \<Rightarrow> string \<Rightarrow> agent_db \<Rightarrow> bool" where
  "ends_with i ty db \<longleftrightarrow> (\<exists>n e. numbered i n db \<and> map_of (ad_events db) (i, int n) = Some e \<and> ie_type e = ty)"

lemma append_event_last: "numbered i n db \<Longrightarrow> ends_with i ty (append_event ck i ty msg p st tr db)"
  unfolding ends_with_def
  using append_event_numbered[of i n db] next_event_numbered[of i n db]
  by (intro exI[of _ "Suc n"]) (auto simp: append_event_get)

lemma log_usage_fields:
  "log_usage i u db = Inr db' \<Longrightarrow> ad_agents db' = ad_agents db \<and> ad_invocations db' = ad_invocations db \<and>
    ad_events db' = ad_events db \<and> ad_now db' = ad_now db \<and> (\<forall>k. fst k \<noteq> i \<longrightarrow> map_of (ad_usage db') k = map_of (ad_usage db) k)"
  by (auto simp: log_usage_def rbind_Inr_iff dict_simps split: if_splits)

text \<open>
  The record of an outcome: the row of the invocation is closed as a success with the output or as a
  failure with the exception, the last event says which, and the rows of other invocations are as
  before.
\<close>

definition closed_as :: "string \<Rightarrow> inv_row \<Rightarrow> py_fault + model_output \<Rightarrow> inv_row \<Rightarrow> bool" where
  "closed_as now v r v' =
     (case r of
        Inr m \<Rightarrow> v' = v\<lparr>iv_status := ''succeeded'', iv_text := JStr (mo_text m), iv_json := mo_json m,
          iv_reasoning := mo_reasoning m, iv_usage := mo_usage m, iv_finished := JStr now,
          iv_error_code := JNull, iv_error_message := JNull\<rparr>
      | Inl e \<Rightarrow> v' = v\<lparr>iv_status := ''failed'', iv_error_code := JStr (fst e), iv_error_message := JStr (snd e),
          iv_finished := JStr now\<rparr>)"

definition others_kept :: "string \<Rightarrow> agent_db \<Rightarrow> agent_db \<Rightarrow> bool" where
  "others_kept i db db' \<longleftrightarrow> ad_agents db' = ad_agents db \<and> ad_now db' = ad_now db \<and>
     (\<forall>k. k \<noteq> i \<longrightarrow> map_of (ad_invocations db') k = map_of (ad_invocations db) k) \<and>
     (\<forall>k. fst k \<noteq> i \<longrightarrow> map_of (ad_events db') k = map_of (ad_events db) k) \<and>
     (\<forall>k. fst k \<noteq> i \<longrightarrow> map_of (ad_usage db') k = map_of (ad_usage db) k)"

lemma succeed_facts:
  assumes "numbered i n db" "map_of (ad_invocations db) i = Some v"
  shows "ends_with i ''completed'' (succeed tp i t0 trace m db)" "others_kept i db (succeed tp i t0 trace m db)"
    and "\<exists>v'. map_of (ad_invocations (succeed tp i t0 trace m db)) i = Some v' \<and> closed_as (ad_now db) v (Inr m) v'"
  unfolding succeed_def
  by (rule append_event_last[of i n], simp add: assms)
    (use assms in \<open>simp_all add: others_kept_def update_inv_get append_event_get closed_as_def\<close>)

lemma fail_facts:
  assumes "numbered i n db" "map_of (ad_invocations db) i = Some v"
  shows "ends_with i ''failed'' (fail_with tp i t0 trace e db)" "others_kept i db (fail_with tp i t0 trace e db)"
    and "\<exists>v'. map_of (ad_invocations (fail_with tp i t0 trace e db)) i = Some v' \<and> closed_as (ad_now db) v (Inl e) v'"
  unfolding fail_with_def
  by (rule append_event_last[of i n], simp add: assms)
    (use assms in \<open>simp_all add: others_kept_def update_inv_get append_event_get closed_as_def\<close>)


lemma others_kept_trans: "others_kept i a b \<Longrightarrow> others_kept i b c \<Longrightarrow> others_kept i a c"
  by (simp add: others_kept_def)

lemma only_events_others: "only_events i a b \<Longrightarrow> others_kept i a b"
  by (simp add: others_kept_def only_events_def)

lemma update_inv_others: "others_kept i db (update_inv i f db)"
  by (simp add: others_kept_def update_inv_get)

lemma begin_facts:
  assumes "numbered (ij_id j) n db" "map_of (ad_invocations db) (ij_id j) = Some v"
  shows "numbered (ij_id j) (Suc n) (begin_invocation tp j cs trace db)" "others_kept (ij_id j) db (begin_invocation tp j cs trace db)"
    and "map_of (ad_invocations (begin_invocation tp j cs trace db)) (ij_id j) = Some (v\<lparr>iv_status := ''running'',
      iv_started := JStr (ad_now db), iv_model := cs_model cs, iv_config := settings_json j cs\<rparr>)"
  unfolding begin_invocation_def
  by (rule append_event_numbered, simp add: assms) (use assms in \<open>simp_all add: others_kept_def update_inv_get append_event_get\<close>)

text \<open>
  The whole thread: it dies before it has touched anything when a setting is no number, and closes
  the invocation otherwise.
\<close>

definition running_row :: "text_port \<Rightarrow> inv_job \<Rightarrow> call_settings \<Rightarrow> string \<Rightarrow> inv_row \<Rightarrow> inv_row" where
  "running_row tp j cs now v = v\<lparr>iv_status := ''running'', iv_started := JStr now, iv_model := cs_model cs,
     iv_config := settings_json j cs\<rparr>"

lemma execute_closes:
  assumes "\<forall>g. gw = Some g \<longrightarrow> through_call g" "numbered (ij_id j) n db"
    and "map_of (ad_invocations db) (ij_id j) = Some v" "settings_of tp j = Inr cs"
    and "execute_invocation gw tp lm trace j (db, w) = (died, db', w')"
  shows "died = None \<and> others_kept (ij_id j) db db' \<and>
    (\<exists>r v'. map_of (ad_invocations db') (ij_id j) = Some v' \<and> closed_as (ad_now db) (running_row tp j cs (ad_now db) v) r v' \<and>
      ends_with (ij_id j) (case r of Inl _ \<Rightarrow> ''failed'' | Inr _ \<Rightarrow> ''completed'') db')"
proof -
  let ?i = "ij_id j"
  define db0 where "db0 = db\<lparr>ad_reads := ad_reads db + 1\<rparr>"
  define t0 where "t0 = tp_clock tp (ad_reads db)"
  define dbb where "dbb = begin_invocation tp j cs trace db0"
  have n0: "numbered ?i n db0" "map_of (ad_invocations db0) ?i = Some v" "ad_now db0 = ad_now db"
    using assms(2,3) by (simp_all add: db0_def numbered_def event_numbers_def)
  have k0: "others_kept ?i db db0" by (simp add: db0_def others_kept_def)
  note b = begin_facts[OF n0(1,2), of tp cs trace, folded dbb_def]
  obtain x db1 w1 where m: "model_call gw tp lm j cs t0 trace (dbb, w) = (x, db1, w1)" by (metis prod_cases3)
  have only: "only_events ?i dbb db1" using model_call_only[OF assms(1), of j "(dbb, w)" tp lm cs t0 trace] m by simp
  then obtain n1 where n1: "numbered ?i n1 db1" using b(1) by (auto simp: only_events_def)
  have row: "map_of (ad_invocations db1) ?i = Some (running_row tp j cs (ad_now db) v)"
    using only b(3) n0(3) by (simp add: only_events_def running_row_def)
  have now: "ad_now db1 = ad_now db" using only n0(3) by (simp add: only_events_def dbb_def begin_invocation_def)
  have k1: "others_kept ?i db db1" using others_kept_trans[OF k0 others_kept_trans[OF b(2) only_events_others[OF only]]] .
  have fail: ?thesis if "died = None" "db' = fail_with tp ?i t0 trace e db1" for e
    using that fail_facts[OF n1 row, of tp t0 trace e] others_kept_trans[OF k1] now by (intro conjI) (auto intro!: exI[of _ "Inl e"])
  show ?thesis
  proof (cases x)
    case (Inl e)
    then have "died = None" "db' = fail_with tp ?i t0 trace e db1"
      using assms(4,5) m by (simp_all add: execute_invocation_def Let_def db0_def t0_def dbb_def)
    then show ?thesis by (rule fail)
  next
    case (Inr mo)
    show ?thesis
    proof (cases "log_usage ?i (mo_usage mo) db1")
      case (Inl e)
      then have "died = None" "db' = fail_with tp ?i t0 trace (fault_of e) db1"
        using assms(4,5) m Inr by (simp_all add: execute_invocation_def Let_def db0_def t0_def dbb_def)
      then show ?thesis by (rule fail)
    next
      case u: (Inr db2)
      note f = log_usage_fields[OF u]
      have n2: "numbered ?i n1 db2" "map_of (ad_invocations db2) ?i = Some (running_row tp j cs (ad_now db) v)"
        using n1 row f by (simp_all add: numbered_def event_numbers_def)
      have k2: "others_kept ?i db db2" by (rule others_kept_trans[OF k1]) (use f in \<open>simp add: others_kept_def\<close>)
      have "died = None" "db' = succeed tp ?i t0 trace mo db2"
        using assms(4,5) m u Inr by (simp_all add: execute_invocation_def Let_def db0_def t0_def dbb_def)
      then show ?thesis
        using succeed_facts[OF n2, of tp t0 trace mo] others_kept_trans[OF k2] now f
        by (intro conjI) (auto intro!: exI[of _ "Inr mo"])
    qed
  qed
qed

text \<open>A setting that is no number ends the thread outside its handler: the row stays queued.\<close>

lemma execute_dies:
  assumes "settings_of tp j = Inl e" "execute_invocation gw tp lm trace j (db, w) = (died, db', w')"
  shows "died = Some e" "ad_invocations db' = ad_invocations db" "ad_events db' = ad_events db" "w' = w"
  using assms by (auto simp: execute_invocation_def Let_def)

lemma execute_dies_kept:
  assumes "settings_of tp j = Inl e" "execute_invocation gw tp lm trace j (db, w) = (died, db', w')"
  shows "others_kept i db db'"
  using assms by (auto simp: execute_invocation_def Let_def others_kept_def)

lemma queued_job:
  assumes "invoke_agent fl ck prov fresh a payload db = Inr (iv, j, db')"
  shows "\<exists>row. db' = append_event ck fresh ''queued'' ''Invocation queued'' [(''agentId'', JStr a)] None []
      (db\<lparr>ad_invocations := dict_set fresh row (ad_invocations db)\<rparr>) \<and>
    iv_status row = ''queued'' \<and> ij_id j = fresh \<and> get_invocation db' fresh = Some iv"
proof -
  obtain agent where a: "get_agent db a = Some agent" "truthy (obj_get agent ''enabled'')"
    using assms by (auto simp: invoke_agent_def split: option.splits if_splits)
  obtain inputs overrides where io: "object_or_empty (obj_get payload ''inputs'') ''inputs'' = Inr inputs"
    "object_or_empty (obj_get payload ''overrides'') ''overrides'' = Inr overrides"
    "validate_invocation_inputs fl (fields_of agent) inputs = Inr ()"
    using assms a by (auto simp: invoke_agent_def rbind_Inr_iff)
  define pid where "pid = py_str fl (either (obj_get overrides ''providerId'') (obj_get agent ''defaultProviderId''))"
  obtain p where p: "prov pid = Some p" using assms a io by (cases "prov pid") (simp_all add: invoke_agent_def pid_def Let_def)
  have g: "pi_enabled p" "\<not> dict_has (ad_invocations db) fresh"
    using assms a io p by (simp_all add: invoke_agent_def pid_def Let_def split: if_splits)
  show ?thesis
    by (rule exI[of _ "new_invocation agent p inputs overrides (chosen_model fl overrides agent p) (ad_now db)"])
      (use assms a io p g in \<open>auto simp: invoke_agent_def pid_def Let_def new_invocation_def split: option.splits\<close>)
qed

lemma invoke_agent_job:
  assumes "invoke_agent fl ck prov fresh a payload db = Inr (iv, j, db')" "event_numbers fresh db = {}"
  shows "ij_id j = fresh \<and> numbered fresh 1 db' \<and> others_kept fresh db db' \<and> get_invocation db' fresh = Some iv \<and>
    (\<exists>v. map_of (ad_invocations db') fresh = Some v \<and> iv_status v = ''queued'')"
proof -
  obtain row where db': "db' = append_event ck fresh ''queued'' ''Invocation queued'' [(''agentId'', JStr a)] None []
      (db\<lparr>ad_invocations := dict_set fresh row (ad_invocations db)\<rparr>)"
    and r: "iv_status row = ''queued''" "ij_id j = fresh" "get_invocation db' fresh = Some iv"
    using queued_job[OF assms(1)] by blast
  have "numbered fresh 0 (db\<lparr>ad_invocations := dict_set fresh row (ad_invocations db)\<rparr>)"
    using assms(2) by (simp add: numbered_def event_numbers_def)
  from append_event_numbered[OF this] show ?thesis
    using r by (auto simp: db' others_kept_def append_event_get dict_simps)
qed

end
