(* ===== verification/Demo_Inv.thy ===== *)
theory Demo_Inv
  imports Demo_Agents Inv_Facts
begin

text \<open>
  An invocation of the saved agent, once with its own settings and once with an override of the
  temperature that is no number; the model cannot be built.
\<close>

definition demo_agents :: agent_db where
  "demo_agents = demo_store\<lparr>ad_agents := [(''a1'', agent_columns demo_normal 1 ''t0'' ''t0'')]\<rparr>"

definition demo_clock :: "nat \<Rightarrow> int" where
  "demo_clock k = int k"

definition demo_text :: text_port where
  "demo_text = \<lparr>tp_float = float_text, tp_read = float_read, tp_dump = (\<lambda>_. ''{}''), tp_dumps = (\<lambda>_. ''{}''),
     tp_loads = (\<lambda>_. None), tp_literal = (\<lambda>_. None), tp_clock = demo_clock\<rparr>"

definition demo_lm :: "(unit, unit) lm_port" where
  "demo_lm = \<lparr>lp_build = (\<lambda>_ _ _ _ w. (Inl (''ValueError'', ''no key''), w)),
     lp_program = (\<lambda>_ _ _ _ w. (Inl (''ValueError'', ''''), w))\<rparr>"

definition inv_request :: "obj \<Rightarrow> obj" where
  "inv_request overrides = [(''inputs'', JObj [(''user_text'', JStr ''hi'')]), (''overrides'', JObj overrides)]"

definition demo_agent :: obj where
  "demo_agent = demo_normal @ [(''revision'', JInt 1), (''createdAt'', JStr ''t0''), (''updatedAt'', JStr ''t0'')]"

lemma demo_get: "get_agent demo_agents ''a1'' = Some demo_agent"
  using row_of_columns(1)[OF demo_normal_def, of 1 "''t0''" "''t0''"]
  by (simp add: get_agent_def demo_agents_def demo_agent_def)

lemma demo_agent_fields:
  "truthy (obj_get demo_agent ''enabled'')" "fields_of demo_agent = [demo_field]"
  "obj_get demo_agent ''defaultProviderId'' = JStr ''p1''" "obj_get demo_agent ''temperature'' = JFloat default_temperature"
  "obj_get demo_agent ''maxTokens'' = JInt 700"
  by (simp_all add: demo_agent_def demo_normal_def agent_record_def fields_of_def dict_simps)

lemma demo_inputs: "validate_invocation_inputs float_text [demo_field] [(''user_text'', JStr ''hi'')] = Inr ()"
  by code_simp

lemma demo_tables: "ad_invocations demo_agents = []" "ad_now demo_agents = ''t0''"
  by (simp_all add: demo_agents_def demo_store_def)

lemma demo_queued:
  assumes "overrides = [] \<or> overrides = [(''temperature'', JStr ''hot'')]"
  shows "\<exists>iv j db. invoke_agent float_text demo_clock demo_providers ''i1'' ''a1'' (inv_request overrides) demo_agents = Inr (iv, j, db) \<and>
    ij_agent j = demo_agent \<and> ij_overrides j = overrides"
  using assms
  by (auto simp: invoke_agent_def demo_get demo_agent_fields inv_request_def dict_simps object_or_empty_def either_def
      demo_inputs py_str_def demo_providers_def demo_provider_def Let_def dict_has_def get_invocation_def demo_tables)

lemma demo_settings:
  "ij_agent j = demo_agent \<Longrightarrow> ij_overrides j = [] \<Longrightarrow> \<exists>cs. settings_of demo_text j = Inr cs"
  "ij_agent j = demo_agent \<Longrightarrow> ij_overrides j = [(''temperature'', JStr ''hot'')] \<Longrightarrow> \<exists>e. settings_of demo_text j = Inl e"
  by (simp_all add: settings_of_def override_or_def dict_simps demo_agent_fields demo_text_def float_read_def)

lemma demo_no_events: "event_numbers ''i1'' demo_agents = {}"
  by (simp add: event_numbers_def demo_agents_def demo_store_def dict_has_def)

end
