(* ===== verification/Http.thy ===== *)
theory Http
  imports Py_Num
begin

text \<open>
  The request path of cp/: cp/handlers/router.py (registration, matching, the routes the handler
  modules register, in import order), cp/http_utils.py (segments, query values, required fields, the
  body, static paths), cp/http_handler.py (dispatch and the status of each exception) and
  cp/http_responders.py (what a user is shown of an error). Sockets, files and the handlers are
  arguments.
\<close>

section \<open>Segments and payloads\<close>

definition split_segments :: "string \<Rightarrow> string list" where
  "split_segments path = filter (\<lambda>s. s \<noteq> []) (str_split_on (CHR ''/'')
     (rev (dropWhile (\<lambda>c. c = CHR ''/'') (rev (dropWhile (\<lambda>c. c = CHR ''/'') path)))))"

type_synonym query = "(string, string list) dict"

fun optional_query_value :: "query \<Rightarrow> string list \<Rightarrow> string option" where
  "optional_query_value q [] = None"
| "optional_query_value q (name # names) =
     (case map_of q name of
        Some (v # vs) \<Rightarrow> if str_strip v \<noteq> [] then Some (str_strip v) else optional_query_value q names
      | _ \<Rightarrow> optional_query_value q names)"

fun first_text :: "(rat \<Rightarrow> string) \<Rightarrow> (string \<times> json) list \<Rightarrow> string list \<Rightarrow> string option" where
  "first_text fl p [] = None"
| "first_text fl p (name # names) =
     (let v = obj_get p name; t = str_strip (py_str fl v) in
      if v = JNull \<or> t = [] then first_text fl p names else Some t)"

definition ticked :: "string \<Rightarrow> string" where
  "ticked s = ''`'' @ s @ ''`''"

definition required_string :: "(rat \<Rightarrow> string) \<Rightarrow> (string \<times> json) list \<Rightarrow> string list \<Rightarrow> py_error + string" where
  "required_string fl p names =
     (case first_text fl p names of
        Some t \<Rightarrow> Inr t
      | None \<Rightarrow> Inl (Value_error (''one of '' @ str_join '', '' (map ticked names) @ '' is required'')))"

section \<open>Routing\<close>

datatype route_seg = Lit string | Star | Double_star

text \<open>A double star is stored as the literal it is written as: only \<open>_match\<close> knows the sentinel.\<close>

definition convert_seg :: "string \<Rightarrow> route_seg" where
  "convert_seg s = (if s \<in> {''*'', ''__id__'', ''__action__''} then Star else Lit s)"

type_synonym 'h route_table = "(string \<times> route_seg list \<times> 'h) list"

definition register_route :: "string \<Rightarrow> string list \<Rightarrow> 'h \<Rightarrow> 'h route_table \<Rightarrow> 'h route_table" where
  "register_route meth pattern h R = R @ [(meth, map convert_seg pattern, h)]"

fun match_route :: "route_seg list \<Rightarrow> string list \<Rightarrow> bool" where
  "match_route (Double_star # ps) (s # ss) = True"
| "match_route (Star # ps) (s # ss) = match_route ps ss"
| "match_route (Lit l # ps) (s # ss) = (l = s \<and> match_route ps ss)"
| "match_route (p # ps) [] = list_all (\<lambda>p. p = Double_star) (p # ps)"
| "match_route [] ss = (ss = [])"

fun first_route :: "'h route_table \<Rightarrow> string \<Rightarrow> string list \<Rightarrow> 'h option" where
  "first_route [] meth segs = None"
| "first_route ((m, pattern, h) # R) meth segs =
     (if (m = ''*'' \<or> m = meth) \<and> match_route pattern segs then Some h else first_route R meth segs)"

definition find_route :: "'h route_table \<Rightarrow> string \<Rightarrow> string \<Rightarrow> py_error + 'h" where
  "find_route R meth path =
     (case first_route R meth (split_segments path) of
        None \<Rightarrow> Inl (Key_error (''route '' @ ticked path @ '' was not found''))
      | Some h \<Rightarrow> Inr h)"

section \<open>The routes\<close>

datatype handler_name =
    H_run_approvals | H_approval_decision
  | H_agent_templates | H_agents | H_agent_validate | H_agent | H_agent_action
  | H_run_checkpoints | H_checkpoint_rollback
  | H_invocations | H_invocation | H_invocation_events | H_invocation_events_query
  | H_mcp_servers | H_mcp_server | H_mcp_server_action
  | H_memory | H_memory_entry
  | H_catalog | H_providers | H_provider_test | H_provider | H_provider_action
  | H_schedules | H_schedule_action
  | H_settings_database | H_settings_database_test
  | H_health | H_session | H_recent_events | H_window | H_dependencies | H_shutdown
  | H_bootstrap | H_system_snapshot | H_usage
  | H_tools | H_tool_action | H_toolsets | H_toolset_action
  | H_workflow_validate | H_workflow_templates | H_workflow_template | H_workflows | H_workflow
  | H_workflow_action | H_run | H_run_action
  | H_workloads | H_workload | H_workload_action

definition api :: "string list \<Rightarrow> string list" where
  "api ss = ''api'' # ''v1'' # ss"

definition approval_routes :: "(string \<times> string list \<times> handler_name) list" where
  "approval_routes =
    [(''*'', api [''workflow-runs'', ''*'', ''approvals''], H_run_approvals),
     (''*'', api [''workflow-runs'', ''*'', ''approvals'', ''*'', ''*''], H_approval_decision)]"

definition agent_routes :: "(string \<times> string list \<times> handler_name) list" where
  "agent_routes =
    [(''*'', api [''agents'', ''templates''], H_agent_templates), (''*'', api [''agents''], H_agents),
     (''*'', api [''agents'', ''validate''], H_agent_validate), (''*'', api [''agents'', ''*''], H_agent),
     (''*'', api [''agents'', ''*'', ''*''], H_agent_action)]"

definition checkpoint_routes :: "(string \<times> string list \<times> handler_name) list" where
  "checkpoint_routes =
    [(''*'', api [''runs'', ''*'', ''checkpoints''], H_run_checkpoints),
     (''*'', api [''checkpoints'', ''*'', ''rollback''], H_checkpoint_rollback)]"

definition invocation_routes :: "(string \<times> string list \<times> handler_name) list" where
  "invocation_routes =
    [(''*'', api [''invocations''], H_invocations), (''*'', api [''invocations'', ''__id__''], H_invocation),
     (''*'', api [''invocations'', ''__id__'', ''events''], H_invocation_events),
     (''*'', api [''invocation-events''], H_invocation_events_query)]"

definition mcp_routes :: "(string \<times> string list \<times> handler_name) list" where
  "mcp_routes =
    [(''*'', api [''mcp'', ''servers''], H_mcp_servers), (''*'', api [''mcp'', ''servers'', ''*''], H_mcp_server),
     (''*'', api [''mcp'', ''servers'', ''*'', ''*''], H_mcp_server_action)]"

definition memory_routes :: "(string \<times> string list \<times> handler_name) list" where
  "memory_routes = [(''*'', api [''memory''], H_memory), (''*'', api [''memory'', ''*''], H_memory_entry)]"

definition provider_routes :: "(string \<times> string list \<times> handler_name) list" where
  "provider_routes =
    [(''*'', api [''catalog'', ''provider-types''], H_catalog), (''*'', api [''providers'', ''catalog''], H_catalog),
     (''*'', api [''provider-catalog''], H_catalog), (''*'', api [''catalog'', ''providers''], H_catalog),
     (''*'', api [''providers''], H_providers), (''*'', api [''providers'', ''test''], H_provider_test),
     (''*'', api [''providers'', ''*''], H_provider), (''*'', api [''providers'', ''*'', ''*''], H_provider_action)]"

definition schedule_routes :: "(string \<times> string list \<times> handler_name) list" where
  "schedule_routes =
    [(''*'', api [''schedules''], H_schedules), (''*'', api [''schedules'', ''*'', ''*''], H_schedule_action)]"

definition settings_routes :: "(string \<times> string list \<times> handler_name) list" where
  "settings_routes =
    [(''*'', api [''settings'', ''database''], H_settings_database),
     (''*'', api [''settings'', ''database'', ''test''], H_settings_database_test)]"

definition system_routes :: "(string \<times> string list \<times> handler_name) list" where
  "system_routes =
    [(''GET'', [''health''], H_health), (''GET'', [''session''], H_session), (''GET'', [''events'', ''recent''], H_recent_events),
     (''GET'', [''window''], H_window), (''GET'', [''dependencies''], H_dependencies), (''POST'', [''shutdown''], H_shutdown),
     (''*'', api [], H_bootstrap), (''*'', api [''bootstrap''], H_bootstrap), (''*'', api [''state''], H_bootstrap),
     (''*'', api [''system''], H_system_snapshot), (''*'', api [''usage''], H_usage)]"

definition tool_routes :: "(string \<times> string list \<times> handler_name) list" where
  "tool_routes =
    [(''*'', api [''tools''], H_tools), (''*'', api [''tools'', ''*'', ''*''], H_tool_action),
     (''*'', api [''toolsets''], H_toolsets), (''*'', api [''toolsets'', ''*'', ''*''], H_toolset_action)]"

definition workflow_routes :: "(string \<times> string list \<times> handler_name) list" where
  "workflow_routes =
    [(''*'', api [''workflows'', ''validate''], H_workflow_validate), (''*'', api [''workflows'', ''templates''], H_workflow_templates),
     (''*'', api [''workflows'', ''templates'', ''*''], H_workflow_template), (''*'', api [''workflows''], H_workflows),
     (''*'', api [''workflows'', ''*''], H_workflow), (''*'', api [''workflows'', ''*'', ''*''], H_workflow_action),
     (''*'', api [''workflow-runs'', ''*''], H_run), (''*'', api [''workflow-runs'', ''*'', ''*''], H_run_action)]"

definition workload_routes :: "(string \<times> string list \<times> handler_name) list" where
  "workload_routes =
    [(''*'', api [''workloads''], H_workloads), (''*'', api [''workloads'', ''*''], H_workload),
     (''*'', api [''workloads'', ''*'', ''*''], H_workload_action)]"

definition all_routes :: "(string \<times> string list \<times> handler_name) list" where
  "all_routes = approval_routes @ agent_routes @ checkpoint_routes @ invocation_routes @ mcp_routes @ memory_routes @
     provider_routes @ schedule_routes @ settings_routes @ system_routes @ tool_routes @ workflow_routes @ workload_routes"

definition route_table :: "handler_name route_table" where
  "route_table = fold (\<lambda>(m, p, h). register_route m p h) all_routes []"

section \<open>What a user is shown of an error\<close>

definition generic_server_message :: string where
  "generic_server_message = ''An unexpected error occurred. Please try again or contact support.''"

definition generic_client_message :: string where
  "generic_client_message = ''The request could not be completed. Please check your input and try again.''"

definition detail_markers :: "string list" where
  "detail_markers = [''Traceback (most recent call last)'', ''File '' @ [CHR 0x22], '', line '']"

text \<open>The characters at which \<open>str.splitlines\<close> ends a line.\<close>

definition line_end :: "char \<Rightarrow> bool" where
  "line_end c = (10 \<le> code c \<and> code c \<le> 13 \<or> 28 \<le> code c \<and> code c \<le> 30 \<or> code c = 133)"

definition user_facing :: "nat \<Rightarrow> string \<Rightarrow> string" where
  "user_facing status msg =
     (if 500 \<le> status \<or> status < 400 then generic_server_message
      else let line = (if str_strip msg = [] then [] else takeWhile (\<lambda>c. \<not> line_end c) (str_strip msg)) in
        if line = [] then generic_client_message
        else if list_ex (\<lambda>m. str_contains m msg) detail_markers then generic_client_message
        else line)"

datatype http_exc = Py py_error | Method_not_allowed string "string list"

text \<open>\<open>str(exc)\<close>: a \<open>KeyError\<close> prints its argument with quotes, which \<open>clean_exception_message\<close> takes off.\<close>

fun exc_text :: "py_error \<Rightarrow> string" where
  "exc_text (Value_error m) = m"
| "exc_text (Type_error m) = m"
| "exc_text (Attribute_error m) = m"
| "exc_text (Key_error m) = repr_str m"
| "exc_text (Runtime_error m) = m"
| "exc_text (Integrity_error m) = m"
| "exc_text (Other_error m) = m"

definition clean_message :: "string \<Rightarrow> string" where
  "clean_message m = (if m \<noteq> [] \<and> hd m = CHR 0x27 \<and> last m = CHR 0x27 then butlast (tl m) else m)"

definition method_message :: "string \<Rightarrow> string list \<Rightarrow> string" where
  "method_message m allowed = ''method '' @ m @ '' is not supported; allowed methods: '' @ str_join '', '' allowed"

record error_reply =
  er_status :: nat
  er_phrase :: string
  er_message :: string
  er_allowed :: "string list option"

definition error_reply_of :: "nat \<Rightarrow> string \<Rightarrow> string \<Rightarrow> string list option \<Rightarrow> error_reply" where
  "error_reply_of status phrase msg allowed =
     \<lparr>er_status = status, er_phrase = phrase, er_message = user_facing status msg, er_allowed = allowed\<rparr>"

fun handle_exception :: "http_exc \<Rightarrow> error_reply" where
  "handle_exception (Method_not_allowed m allowed) =
     error_reply_of 405 ''Method Not Allowed'' (method_message m (sort allowed)) (Some (sort allowed))"
| "handle_exception (Py (Key_error m)) = error_reply_of 404 ''Not Found'' (clean_message (exc_text (Key_error m))) None"
| "handle_exception (Py (Value_error m)) = error_reply_of 400 ''Bad Request'' (clean_message m) None"
| "handle_exception (Py (Integrity_error m)) = error_reply_of 409 ''Conflict'' (clean_message m) None"
| "handle_exception (Py (Runtime_error m)) = error_reply_of 409 ''Conflict'' (clean_message m) None"
| "handle_exception (Py _) = error_reply_of 500 ''Internal Server Error'' ''internal control-plane error'' None"

definition require_method :: "string \<Rightarrow> string list \<Rightarrow> http_exc + unit" where
  "require_method m allowed = (if m \<in> set allowed then Inr () else Inl (Method_not_allowed m allowed))"

section \<open>The body\<close>

text \<open>What decoding and \<open>json.loads\<close> make of the bytes: no JSON, another exception, or a value.\<close>

datatype parsed = Bad_json | Undecodable py_error | Json_value json

record request =
  rq_method :: string
  rq_path :: string
  rq_query :: query
  rq_length :: "string option"
  rq_body :: "int \<Rightarrow> string"

definition content_length :: "request \<Rightarrow> py_error + int" where
  "content_length rq =
     (case rq_length rq of
        None \<Rightarrow> Inr 0
      | Some s \<Rightarrow> if s = [] then Inr 0 else json_int (JStr s))"

definition read_json_body :: "(string \<Rightarrow> parsed) \<Rightarrow> request \<Rightarrow> py_error + (string \<times> json) list" where
  "read_json_body parse rq =
     rbind (content_length rq) (\<lambda>n.
       if n \<le> 0 \<or> rq_body rq n = [] then Inr []
       else (case parse (rq_body rq n) of
          Bad_json \<Rightarrow> Inl (Value_error ''request body must be valid JSON'')
        | Undecodable e \<Rightarrow> Inl e
        | Json_value (JObj d) \<Rightarrow> Inr d
        | Json_value _ \<Rightarrow> Inl (Value_error ''request body must be a JSON object'')))"

section \<open>Static files\<close>

text \<open>
  A path is the list of its components. \<open>fs_resolve\<close> is \<open>Path.resolve\<close>, \<open>fs_is_file\<close> \<open>Path.is_file\<close>.
\<close>

type_synonym fs_path = "string list"

record static_fs =
  fs_resolve :: "fs_path \<Rightarrow> fs_path"
  fs_is_file :: "fs_path \<Rightarrow> bool"

definition path_join :: "fs_path \<Rightarrow> string \<Rightarrow> fs_path" where
  "path_join d raw = d @ filter (\<lambda>s. s \<noteq> [] \<and> s \<noteq> ''.'') (str_split_on (CHR ''/'') raw)"

definition resolve_static_path :: "static_fs \<Rightarrow> fs_path \<Rightarrow> string \<Rightarrow> fs_path option" where
  "resolve_static_path fs dd path =
     (let raw = dropWhile (\<lambda>c. c = CHR ''/'') path in
      if raw = [] then Some (dd @ [''index.html''])
      else let c = fs_resolve fs (path_join dd raw); base = fs_resolve fs dd in
        if take (length base) c = base then Some c else None)"

datatype asset = File fs_path | Fallback_page

text \<open>\<open>path.rsplit("/", 1)[-1]\<close>\<close>

definition last_part :: "string \<Rightarrow> string" where
  "last_part path = rev (takeWhile (\<lambda>c. c \<noteq> CHR ''/'') (rev path))"

definition serve_frontend_asset :: "static_fs \<Rightarrow> fs_path \<Rightarrow> string \<Rightarrow> py_error + asset" where
  "serve_frontend_asset fs site path =
     (let dd = site @ [''src'', ''dist'']; index = dd @ [''index.html'']; missing = Key_error (''static asset '' @ ticked path @ '' was not found'') in
      if fs_is_file fs index then
        (case resolve_static_path fs dd path of
           Some t \<Rightarrow> if fs_is_file fs t then Inr (File t)
                     else if path = ''/'' \<or> CHR ''.'' \<notin> set (last_part path) then Inr (File index) else Inl missing
         | None \<Rightarrow> if path = ''/'' \<or> CHR ''.'' \<notin> set (last_part path) then Inr (File index) else Inl missing)
      else if path = ''/'' then Inr Fallback_page else Inl missing)"

section \<open>Dispatch\<close>

text \<open>A handler gets the request and its body and a state, and raises or writes a reply.\<close>

type_synonym ('s, 'r) http_handler = "request \<Rightarrow> (string \<times> json) list \<Rightarrow> 's \<Rightarrow> (http_exc + 'r) \<times> 's"

datatype 'r reply = Written 'r | Asset asset | Failed error_reply

definition api_path :: "request \<Rightarrow> bool" where
  "api_path rq = str_prefix ''/api/'' (rq_path rq)"

definition dispatch ::
  "(string \<Rightarrow> parsed) \<Rightarrow> static_fs \<Rightarrow> fs_path \<Rightarrow> 'h route_table \<Rightarrow> ('h \<Rightarrow> ('s, 'r) http_handler) \<Rightarrow> request \<Rightarrow> 's \<Rightarrow> 'r reply \<times> 's" where
  "dispatch parse fs site R run rq s =
     (if api_path rq then
        (case (if rq_method rq \<in> {''POST'', ''PUT'', ''PATCH'', ''DELETE''} then read_json_body parse rq else Inr []) of
           Inl e \<Rightarrow> (Failed (handle_exception (Py e)), s)
         | Inr body \<Rightarrow>
             (case find_route R (rq_method rq) (rq_path rq) of
                Inl e \<Rightarrow> (Failed (handle_exception (Py e)), s)
              | Inr h \<Rightarrow>
                  (case run h rq body s of
                     (Inl e, s') \<Rightarrow> (Failed (handle_exception e), s')
                   | (Inr r, s') \<Rightarrow> (Written r, s'))))
      else if rq_method rq = ''GET'' then
        (case serve_frontend_asset fs site (rq_path rq) of
           Inl e \<Rightarrow> (Failed (handle_exception (Py e)), s)
         | Inr a \<Rightarrow> (Asset a, s))
      else (Failed (error_reply_of 405 ''Method Not Allowed''
          (''method '' @ rq_method rq @ '' is not supported for '' @ rq_path rq) None), s))"

section \<open>Lemmas\<close>

text \<open>A message a user is shown is one line, is not empty, and has no marker of internal detail.\<close>

definition presentable :: "string \<Rightarrow> bool" where
  "presentable m \<longleftrightarrow> m \<noteq> [] \<and> list_all (\<lambda>c. \<not> line_end c) m \<and> list_all (\<lambda>k. \<not> str_contains k m) detail_markers"

lemma generic_presentable: "presentable generic_server_message" "presentable generic_client_message"
  by code_simp+

lemma takeWhile_infix: "\<exists>u v. s = u @ takeWhile P (dropWhile Q s) @ v"
  by (metis takeWhile_dropWhile_id)

lemma strip_infix: "\<exists>u v. s = u @ str_strip s @ v"
proof -
  have "\<exists>v. dropWhile is_space s = str_strip s @ v"
    by (metis str_strip_def takeWhile_dropWhile_id rev_append rev_rev_ident)
  then obtain v where v: "dropWhile is_space s = str_strip s @ v" by blast
  have "s = takeWhile is_space s @ str_strip s @ v" using takeWhile_dropWhile_id[of is_space s] unfolding v by simp
  then show ?thesis by blast
qed

lemma contains_infix: "str_contains k t \<Longrightarrow> s = u @ t @ v \<Longrightarrow> str_contains k s"
  unfolding str_contains_iff by (metis append.assoc)

lemma first_line_presentable:
  assumes "l = takeWhile (\<lambda>c. \<not> line_end c) (str_strip msg)" "l \<noteq> []" "\<not> list_ex (\<lambda>m. str_contains m msg) detail_markers"
  shows "presentable l"
proof -
  obtain u v where uv: "msg = u @ str_strip msg @ v" using strip_infix[of msg] by blast
  have "str_strip msg = l @ dropWhile (\<lambda>c. \<not> line_end c) (str_strip msg)" by (simp add: assms(1))
  then have m: "msg = u @ l @ (dropWhile (\<lambda>c. \<not> line_end c) (str_strip msg) @ v)" using uv by (metis append.assoc)
  have "\<not> str_contains k l" if "k \<in> set detail_markers" for k
    using contains_infix[OF _ m] assms(3) that unfolding list_ex_iff by blast
  moreover have "\<not> line_end c" if "c \<in> set l" for c using that set_takeWhileD[of c "\<lambda>c. \<not> line_end c"] assms(1) by blast
  ultimately show ?thesis using assms(2) by (simp add: presentable_def list_all_iff)
qed

lemma user_facing_presentable: "presentable (user_facing status msg)"
  unfolding user_facing_def Let_def using generic_presentable first_line_presentable[OF refl]
  by (simp split: if_splits)

definition reply_ok :: "error_reply \<Rightarrow> bool" where
  "reply_ok e \<longleftrightarrow> er_status e \<in> {400, 404, 405, 409, 500} \<and> presentable (er_message e) \<and>
     (er_status e = 500 \<longrightarrow> er_message e = generic_server_message)"

lemma error_reply_ok: "status \<in> {400, 404, 405, 409, 500} \<Longrightarrow> reply_ok (error_reply_of status ph msg al)"
  using user_facing_presentable[of status msg] by (auto simp: reply_ok_def error_reply_of_def user_facing_def[of 500])

lemma handle_exception_ok: "reply_ok (handle_exception e)"
  by (cases e rule: handle_exception.cases) (simp_all only: handle_exception.simps, simp_all add: error_reply_ok)

text \<open>A file that is served is the index or lies under the resolved directory.\<close>

lemma served_inside:
  assumes "serve_frontend_asset fs site path = Inr (File p)"
  shows "p = site @ [''src'', ''dist'', ''index.html''] \<or> (\<exists>q. p = fs_resolve fs (site @ [''src'', ''dist'']) @ q)"
proof -
  have t: "t = site @ [''src'', ''dist'', ''index.html''] \<or> (\<exists>q. t = fs_resolve fs (site @ [''src'', ''dist'']) @ q)"
    if "resolve_static_path fs (site @ [''src'', ''dist'']) path = Some t" for t
    using that by (auto simp: resolve_static_path_def Let_def split: if_splits) (metis append_take_drop_id)
  show ?thesis using assms t by (auto simp: serve_frontend_asset_def Let_def split: option.splits if_splits)
qed

text \<open>Every route of the table answers its own pattern: none is hidden by an earlier one.\<close>

definition sample_path :: "string list \<Rightarrow> string list" where
  "sample_path pattern = map (\<lambda>s. if convert_seg s = Star then ''x'' else s) pattern"

lemma routes_reachable:
  "list_all (\<lambda>(m, p, h). first_route route_table (if m = ''*'' then ''GET'' else m) (sample_path p) = Some h) all_routes"
  by code_simp

text \<open>The literal segment of the approvals wins over the wildcard of the run actions.\<close>

lemma registry_map: "route_table = map (\<lambda>(m, p, h). (m, map convert_seg p, h)) all_routes"
proof -
  have "fold (\<lambda>(m, p, h). register_route m p h) rs R = R @ map (\<lambda>(m, p, h). (m, map convert_seg p, h)) rs"
    for rs :: "(string \<times> string list \<times> handler_name) list" and R
    by (induction rs arbitrary: R) (auto simp: register_route_def)
  then show ?thesis by (simp add: route_table_def)
qed

lemma approvals_first: "first_route route_table m (api [''workflow-runs'', r, ''approvals'']) = Some H_run_approvals"
  by (simp add: registry_map all_routes_def approval_routes_def api_def convert_seg_def)

lemma fallback_root: "serve_frontend_asset fs site path = Inr Fallback_page \<Longrightarrow> path = ''/''"
  by (auto simp: serve_frontend_asset_def Let_def split: option.splits if_splits)

text \<open>
  The status routes outside the API prefix are registered, but a request never reaches them: it is
  taken for a static file.
\<close>

lemma status_routes_not_served:
  assumes "dispatch parse fs site route_table run rq s = (Written r, s')"
  shows "rq_path rq \<notin> {''/health'', ''/session'', ''/window'', ''/events/recent'', ''/dependencies'', ''/shutdown''}"
  using assms by (auto simp: dispatch_def api_path_def split: sum.splits if_splits)

text \<open>A request for an unknown resource of the API.\<close>

definition demo_static :: static_fs where
  "demo_static = \<lparr>fs_resolve = (\<lambda>p. p), fs_is_file = (\<lambda>_. False)\<rparr>"

definition demo_serve :: "handler_name \<Rightarrow> (unit, unit) http_handler" where
  "demo_serve h rq body s = (Inr (), s)"

definition demo_get_request :: request where
  "demo_get_request = \<lparr>rq_method = ''GET'', rq_path = ''/api/v1/nothing'', rq_query = [], rq_length = None, rq_body = (\<lambda>_. [])\<rparr>"

lemma demo_no_route: "first_route route_table ''GET'' (split_segments ''/api/v1/nothing'') = None"
  by code_simp

lemma demo_not_found:
  "\<exists>e. dispatch (\<lambda>_. Bad_json) demo_static [''repo''] route_table demo_serve demo_get_request () = (Failed e, ()) \<and> er_status e = 404"
  by (simp add: dispatch_def demo_get_request_def api_path_def find_route_def demo_no_route error_reply_of_def)

end
