(* ===== verification/Runtime_Api.thy ===== *)
theory Runtime_Api
  imports Plan_Exec Agent_Step Scheduler Memory Checkpoints Tools Agent_Store Http
begin

text \<open>
  The accessors of the runtime that the HTTP handlers call: \<open>cp/orchestration.py\<close> and the agent
  accessors of \<open>cp/runtime.py\<close>. The state joins the tables and the in-memory catalogs of the
  components; an accessor answers with the JSON value the code returns, or with the exception it
  lets through. A value kept as JSON text is compared as a value: the order of the keys inside it is
  not. What the process is given from outside is the environment \<open>api_env\<close>.
\<close>

section \<open>State\<close>

text \<open>The columns of \<open>workflow_definitions\<close> beside \<open>definition_json\<close>, which the executor's tables hold.\<close>

record wf_meta =
  wm_name :: string
  wm_objective :: string
  wm_revision :: int
  wm_created :: string
  wm_updated :: string

record mcp_row =
  mr_name :: string
  mr_transport :: string
  mr_filter :: "json option"
  mr_grant :: "string option"
  mr_status :: string
  mr_created :: string

text \<open>
  \<open>cp_port\<close> is \<open>_execution_manager\<close>, which is absent until the kernel has registered. \<open>cp_jobs\<close> are
  the threads that queued invocations have started.
\<close>

record ('w, 'k) runtime =
  cp_exec :: exec
  cp_meta :: "(string, wf_meta) dict"
  cp_templates :: "(string, obj) dict"
  cp_scopes :: "(string, (string, bool) dict) dict"
  cp_mcp :: "(string, mcp_row) dict"
  cp_tools :: "'w registry"
  cp_tasks :: "task_row list"
  cp_memory :: "mem_row list"
  cp_checkpoints :: "checkpoint list"
  cp_agents :: agent_db
  cp_jobs :: "inv_job list"
  cp_kernel :: 'k
  cp_port :: "'k kernel_port option"

text \<open>
  Configuration, and what a request is given: \<open>ae_id\<close> is the \<open>uuid4\<close> it draws for a row, \<open>ae_clock\<close> the
  scheduler's clock, \<open>ae_dump\<close> is \<open>json.dumps\<close>, \<open>ae_real\<close> how the database writes a float as text,
  \<open>ae_providers\<close> the provider service, \<open>ae_templates\<close> the constant agent templates.
\<close>

record api_env =
  ae_cfg :: exec_config
  ae_uuid :: "nat \<Rightarrow> string"
  ae_mem :: mem_config
  ae_float :: "rat \<Rightarrow> string"
  ae_real :: "rat \<Rightarrow> string"
  ae_read :: "string \<Rightarrow> rat option"
  ae_dump :: "json \<Rightarrow> string"
  ae_unquote :: "string \<Rightarrow> string"
  ae_providers :: "string \<Rightarrow> provider_info option"
  ae_templates :: "json list"
  ae_elapsed :: "nat \<Rightarrow> int"
  ae_id :: string
  ae_clock :: moment

section \<open>Exceptions\<close>

fun approval_py :: "approval_error \<Rightarrow> py_error" where
  "approval_py (Unknown_step s r) = py_error.Value_error (''unknown step '' @ sq s @ '' for run '' @ sq r)"
| "approval_py (Not_awaiting s r st) = py_error.Value_error
     (''step '' @ sq s @ '' of run '' @ sq r @ '' is not awaiting approval (state='' @ step_value st @ '')'')"

text \<open>\<open>SerializationError\<close> derives from \<open>Exception\<close> alone; so do the errors of the scheduler, the
  memory store and the checkpoint manager.\<close>

fun serialization_py :: "serialization_error \<Rightarrow> py_error" where
  "serialization_py (SerializationError m) = Other_error m"

fun exec_py :: "exec_error \<Rightarrow> py_error" where
  "exec_py (Unknown_definition d) = py_error.Value_error (''unknown workflow definition '' @ sq d)"
| "exec_py (Bad_definition e) = serialization_py e"
| "exec_py Not_canonical = Other_error ''the definition is not canonical''"
| "exec_py (Unknown_run r) = py_error.Value_error (''unknown workflow run '' @ sq r)"
| "exec_py (Already_executing r) = Runtime_error (''run '' @ sq r @ '' is already executing'')"
| "exec_py (Not_failed r st) = py_error.Value_error
     (''run '' @ sq r @ '' is not failed (state='' @ run_value st @ ''); only failed runs can be retried'')"
| "exec_py (Approval_error e) = approval_py e"

fun cron_message :: "cron_error \<Rightarrow> string" where
  "cron_message (Wrong_fields n e) = ''expected 5 fields, got '' @ nat_str n @ '': '' @ repr_str e"
| "cron_message (Empty_field f) = ''empty '' @ f @ '' field''"
| "cron_message (No_values f raw) = f @ '' field '' @ repr_str raw @ '' matched no values''"
| "cron_message (Step_not_positive f part) = f @ '' step must be positive: '' @ repr_str part"
| "cron_message (Range_reversed f part) = f @ '' range start exceeds end: '' @ repr_str part"
| "cron_message (Out_of_range f v lo hi) =
     f @ '' value '' @ nat_str v @ '' out of range ['' @ nat_str lo @ '', '' @ nat_str hi @ '']''"
| "cron_message (Invalid_int f kind raw) = ''invalid '' @ f @ '' '' @ kind @ '': '' @ repr_str raw"
| "cron_message (Leaked_ValueError t) =
     (if list_all is_decimal t then
        ''Exceeds the limit (4300 digits) for integer string conversion: value has '' @ nat_str (length t) @
        '' digits; use sys.set_int_max_str_digits() to increase the limit''
      else ''invalid literal for int() with base 10: '' @ repr_str t)"

fun sched_py :: "'x sched_error \<Rightarrow> py_error" where
  "sched_py (sched_error.Value_error m) = py_error.Value_error m"
| "sched_py (Bad_task_state s) =
     Other_error (''invalid scheduled task state '' @ repr_str s @ ''; expected one of ['' @ sq ''active'' @ '', '' @ sq ''paused'' @ '']'')"
| "sched_py (Unknown_task i) = Other_error (''unknown scheduled task '' @ ticked i)"
| "sched_py (Cron_error c) = py_error.Value_error (cron_message c)"
| "sched_py Overflow = Other_error ''date value out of range''"
| "sched_py (Duplicate_id i) = Integrity_error ''UNIQUE constraint failed: scheduled_tasks.id''"
| "sched_py (Start_error x) = Other_error ''a run could not be started''"

fun mem_py :: "mem_error \<Rightarrow> py_error" where
  "mem_py (Too_large sz lmt) = Other_error (''cannot store memory entry of '' @ nat_str sz @
     '' bytes: it exceeds the configured maximum total size of '' @ nat_str lmt @ '' bytes'')"
| "mem_py (Would_overflow sz lmt used) = Other_error (''cannot store memory entry of '' @ nat_str sz @
     '' bytes: it would exceed the configured maximum total size of '' @ nat_str lmt @
     '' bytes (current usage '' @ nat_str used @ '' bytes); curation rejected it'')"
| "mem_py (No_room sz lmt) = Other_error (''cannot store memory entry of '' @ nat_str sz @
     '' bytes after curation: insufficient room within the configured maximum total size of '' @ nat_str lmt @ '' bytes'')"
| "mem_py (Duplicate_entry i) = Integrity_error ''UNIQUE constraint failed: memory_entries.id''"
| "mem_py (No_entry i) = Other_error (''cannot delete memory entry '' @ ticked i @ '': no such entry'')"
| "mem_py (Still_present i) = Other_error (''cannot delete memory entry '' @ ticked i @ '': entry still present after deletion'')"

fun checkpoint_py :: "checkpoint_error \<Rightarrow> py_error" where
  "checkpoint_py (Ck_value m) = py_error.Value_error m"
| "checkpoint_py (Ck_snapshot_failed ws r e) =
     Other_error (''cannot snapshot workspace '' @ ticked ws @ '' for run '' @ ticked r @ '': '' @ e)"
| "checkpoint_py (Ck_no_reference r ws) = Other_error (''cannot record checkpoint for run '' @ ticked r @
     '': the Kernel returned no snapshot reference for workspace '' @ ticked ws)"
| "checkpoint_py (Ck_duplicate i) = Integrity_error ''UNIQUE constraint failed: checkpoints.id''"
| "checkpoint_py (Ck_unknown i) = Other_error (''cannot restore checkpoint '' @ ticked i @ '': no such checkpoint'')"
| "checkpoint_py (Ck_restore_failed i ws e) =
     Other_error (''cannot restore checkpoint '' @ ticked i @ '' for workspace '' @ ticked ws @ '': '' @ e)"

definition fails :: "('e \<Rightarrow> py_error) \<Rightarrow> 'e + 'a \<Rightarrow> py_error + 'a" where
  "fails f r = (case r of Inl e \<Rightarrow> Inl (f e) | Inr x \<Rightarrow> Inr x)"

lemma fails_simps [simp]: "fails f (Inl e) = Inl (f e)" "fails f (Inr x) = Inr x"
  by (simp_all add: fails_def)

lemma fails_Inr_iff: "fails f r = Inr x \<longleftrightarrow> r = Inr x"
  by (cases r) simp_all

section \<open>Rows as JSON\<close>

definition opt_str :: "string option \<Rightarrow> json" where
  "opt_str s = (case s of None \<Rightarrow> JNull | Some t \<Rightarrow> JStr t)"

definition run_view_of :: "string \<Rightarrow> run_row \<Rightarrow> json" where
  "run_view_of r v = JObj [(''id'', JStr r), (''definition_id'', JStr (rr_definition v)),
     (''state'', JStr (run_value (rr_state v))), (''concurrency_limit'', JInt (rr_limit v)), (''budget_json'', JNull),
     (''created_at'', JStr (rr_created v)), (''started_at'', opt_str (rr_started v)), (''finished_at'', opt_str (rr_finished v))]"

definition step_view_of :: "(json \<Rightarrow> string) \<Rightarrow> string \<Rightarrow> string \<times> step_row \<Rightarrow> json" where
  "step_view_of dump r p = (case p of (s, v) \<Rightarrow>
     JObj [(''run_id'', JStr r), (''step_id'', JStr s), (''step_type'', JStr (sr_type v)),
       (''state'', JStr (step_value (sr_state v))), (''depends_on_json'', JStr (dump (JList (map JStr (sr_deps v))))),
       (''inputs_json'', JStr (dump (JObj (sr_config v)))), (''output_json'', opt_str (map_option dump (sr_output v))),
       (''error_message'', opt_str (sr_error v)), (''started_at'', opt_str (sr_started v)),
       (''finished_at'', opt_str (sr_finished v))])"

definition event_view_of :: "wf_event \<Rightarrow> json" where
  "event_view_of e = JObj [(''run_id'', JStr (ev_run e)), (''seq'', JInt (int (ev_seq e))), (''type'', JStr (ev_type e)),
     (''step_id'', opt_str (ev_step e)), (''message'', JStr (ev_message e)), (''payload'', JObj (ev_payload e)),
     (''created_at'', JStr (ev_created e))]"

definition problem_view :: "problem \<Rightarrow> json" where
  "problem_view p = JObj [(''code'', JStr (p_code p)), (''message'', JStr (p_message p)), (''detail'', JObj (p_detail p))]"

definition task_view :: "task_row \<Rightarrow> json" where
  "task_view r = JObj [(''id'', JStr (t_id r)), (''definition_id'', JStr (t_definition r)),
     (''cron_expression'', JStr (t_cron r)), (''state'', JStr (t_state r)), (''next_run_at'', opt_str (t_next r)),
     (''created_at'', JStr (t_created r)), (''updated_at'', JStr (t_updated r))]"

definition memory_view :: "mem_row \<Rightarrow> json" where
  "memory_view r = JObj [(''id'', JStr (me_id r)), (''category'', JStr (me_category r)), (''content'', JStr (me_content r)),
     (''size_bytes'', JInt (int (me_size r))), (''created_at'', JStr (me_created r)), (''updated_at'', JStr (me_updated r))]"

definition checkpoint_view :: "checkpoint \<Rightarrow> json" where
  "checkpoint_view c = JObj [(''id'', JStr (ck_id c)), (''run_id'', JStr (ck_run c)), (''workspace_id'', JStr (ck_workspace c)),
     (''kernel_snapshot_ref'', JStr (ck_ref c)), (''created_at'', JStr (ck_created c))]"

definition invocation_event_view :: "int \<times> inv_event \<Rightarrow> json" where
  "invocation_event_view p = (case p of (n, e) \<Rightarrow>
     JObj [(''seq'', JInt n), (''type'', JStr (ie_type e)), (''message'', JStr (ie_message e)), (''payload'', JObj (ie_payload e)),
       (''elapsedMs'', case ie_elapsed e of None \<Rightarrow> JNull | Some i \<Rightarrow> JInt i), (''createdAt'', JStr (ie_created e))])"

definition workflow_view :: "string \<Rightarrow> wf_meta \<Rightarrow> obj \<Rightarrow> py_error + json" where
  "workflow_view i m d = rbind (fails serialization_py (canonicalize d)) (\<lambda>c.
     Inr (JObj [(''id'', JStr i), (''name'', JStr (wm_name m)), (''objective'', JStr (wm_objective m)), (''definition'', JObj c),
       (''revision'', JInt (wm_revision m)), (''createdAt'', JStr (wm_created m)), (''updatedAt'', JStr (wm_updated m))]))"

section \<open>Workflows\<close>

definition workflow_rows :: "('w, 'k) runtime \<Rightarrow> (string \<times> wf_meta \<times> obj) list" where
  "workflow_rows R = concat (map (\<lambda>(i, m). case map_of (db_definitions (ex_db (cp_exec R))) i of
     None \<Rightarrow> [] | Some d \<Rightarrow> [(i, m, d)]) (cp_meta R))"

definition list_workflows :: "('w, 'k) runtime \<Rightarrow> py_error + json" where
  "list_workflows R = rbind (mapM_r (\<lambda>(i, m, d). workflow_view i m d)
     (sort_key (\<lambda>(i, m, d). wm_created m) (sort_key fst (workflow_rows R)))) (\<lambda>vs. Inr (JList vs))"

definition get_workflow :: "string \<Rightarrow> ('w, 'k) runtime \<Rightarrow> py_error + json option" where
  "get_workflow i R =
     (case map_of (workflow_rows R) i of
        None \<Rightarrow> Inr None | Some (m, d) \<Rightarrow> rbind (workflow_view i m d) (\<lambda>v. Inr (Some v)))"

definition resolver_of :: "('w, 'k) runtime \<Rightarrow> resolver" where
  "resolver_of R = \<lparr>agent_lookup = Some (\<lambda>a. get_agent (cp_agents R) a \<noteq> None),
     tool_lookup = Some (\<lambda>t. get_tool (cp_tools R) t \<noteq> None)\<rparr>"

definition validate_workflow :: "obj \<Rightarrow> ('w, 'k) runtime \<Rightarrow> json" where
  "validate_workflow body R =
     (let problems = validate (resolver_of R) (JObj body)
      in JObj [(''valid'', JBool (problems = [])), (''problems'', JList (map problem_view problems))])"

definition compile_or_raise :: "obj \<Rightarrow> ('w, 'k) runtime \<Rightarrow> py_error + unit" where
  "compile_or_raise d R =
     (case build_dag (resolver_of R) (JObj d) of
        Inl e \<Rightarrow> Inl (py_error.Value_error (ve_message e)) | Inr _ \<Rightarrow> Inr ())"

text \<open>\<open>canonical.get(k) or default\<close>: the canonical value is a string.\<close>

definition text_or :: "obj \<Rightarrow> string \<Rightarrow> string \<Rightarrow> string" where
  "text_or c k def = (case obj_get c k of JStr s \<Rightarrow> if s = [] then def else s | _ \<Rightarrow> def)"

definition new_meta :: "obj \<Rightarrow> string \<Rightarrow> wf_meta" where
  "new_meta c ts = \<lparr>wm_name = text_or c ''name'' ''untitled'', wm_objective = text_or c ''objective'' [],
     wm_revision = 1, wm_created = ts, wm_updated = ts\<rparr>"

text \<open>The definition is serialized and read back; the row keeps the canonical form.\<close>

definition persist_workflow :: "api_env \<Rightarrow> obj \<Rightarrow> ('w, 'k) runtime \<Rightarrow> py_error + json \<times> ('w, 'k) runtime" where
  "persist_workflow E d R =
     rbind (fails serialization_py (canonicalize d)) (\<lambda>serialized.
     rbind (fails serialization_py (canonicalize serialized)) (\<lambda>canonical.
       if dict_has (cp_meta R) (ae_id E) then Inl (Integrity_error ''UNIQUE constraint failed: workflow_definitions.id'')
       else
         let row = new_meta canonical (db_now (ex_db (cp_exec R)));
             R' = R\<lparr>cp_exec := save_definition (ae_id E) serialized (cp_exec R), cp_meta := cp_meta R @ [(ae_id E, row)]\<rparr>
         in rbind (get_workflow (ae_id E) R') (\<lambda>v. Inr (case v of None \<Rightarrow> JNull | Some j \<Rightarrow> j, R'))))"

definition create_workflow :: "api_env \<Rightarrow> obj \<Rightarrow> ('w, 'k) runtime \<Rightarrow> py_error + json \<times> ('w, 'k) runtime" where
  "create_workflow E body R = rbind (compile_or_raise body R) (\<lambda>_. persist_workflow E body R)"

definition list_workflow_templates :: "('w, 'k) runtime \<Rightarrow> json" where
  "list_workflow_templates R = JList (map (\<lambda>(i, t). JObj t) (cp_templates R))"

definition get_workflow_template :: "string \<Rightarrow> ('w, 'k) runtime \<Rightarrow> obj option" where
  "get_workflow_template i R = map_of (cp_templates R) i"

definition template_missing :: "string \<Rightarrow> py_error" where
  "template_missing i = Key_error (''workflow template '' @ ticked i @ '' was not found'')"

text \<open>The definition of a template is an object, or nothing.\<close>

definition template_definition :: "obj \<Rightarrow> obj" where
  "template_definition t = obj_or_empty (obj_get t ''definition'')"

definition instantiate_workflow_template ::
  "api_env \<Rightarrow> string \<Rightarrow> obj \<Rightarrow> ('w, 'k) runtime \<Rightarrow> py_error + json \<times> ('w, 'k) runtime" where
  "instantiate_workflow_template E i body R =
     (case get_workflow_template i R of
        None \<Rightarrow> Inl (template_missing i)
      | Some t \<Rightarrow>
          let d = dict_merge (template_definition t) body
          in rbind (compile_or_raise d R) (\<lambda>_. persist_workflow E d R))"

section \<open>Runs\<close>

text \<open>The first scheduling pass of \<open>execute_run\<close>, which the calling thread makes itself.\<close>

definition drive :: "exec_config \<Rightarrow> string \<Rightarrow> run_state \<times> exec \<Rightarrow> exec" where
  "drive cfg r p = (case p of (st, S) \<Rightarrow>
     if run_is_terminal st then S else schedule_ready cfg r (take_task (Reschedule r) S))"

text \<open>The override is converted with \<open>int\<close> once the definition is loaded.\<close>

definition limit_override :: "obj \<Rightarrow> py_error + int option" where
  "limit_override body =
     (let c = either (obj_get body ''concurrencyLimit'') (obj_get body ''concurrency_limit'')
      in if c = JNull then Inr None else rbind (json_int c) (\<lambda>i. Inr (Some i)))"

definition run_json :: "string \<Rightarrow> exec \<Rightarrow> py_error + json" where
  "run_json r S = rbind (fails exec_py (get_run (ex_db S) r)) (\<lambda>(v, _, _). Inr (run_view_of r v))"

definition with_exec :: "exec \<Rightarrow> ('w, 'k) runtime \<Rightarrow> ('w, 'k) runtime" where
  "with_exec S R = R\<lparr>cp_exec := S\<rparr>"

definition begin_run :: "exec_config \<Rightarrow> string \<Rightarrow> exec \<Rightarrow> exec" where
  "begin_run cfg r S = (case execute_run cfg r S of Inl _ \<Rightarrow> S | Inr p \<Rightarrow> drive cfg r p)"

definition start_workflow_run ::
  "api_env \<Rightarrow> string \<Rightarrow> obj \<Rightarrow> ('w, 'k) runtime \<Rightarrow> (py_error + json) \<times> ('w, 'k) runtime" where
  "start_workflow_run E i body R =
     (case rbind (fails exec_py (load_definition i (cp_exec R))) (\<lambda>_. limit_override body) of
        Inl e \<Rightarrow> (Inl e, R)
      | Inr ovr \<Rightarrow>
          (case start_run (ae_cfg E) (ae_uuid E) i ovr (cp_exec R) of
             Inl e \<Rightarrow> (Inl (exec_py e), R)
           | Inr (r, S1) \<Rightarrow> let S2 = begin_run (ae_cfg E) r S1 in (run_json r S2, with_exec S2 R)))"

definition list_workflow_runs :: "string \<Rightarrow> ('w, 'k) runtime \<Rightarrow> json" where
  "list_workflow_runs i R = JList (map (\<lambda>(r, v). run_view_of r v)
     (sort_desc (\<lambda>(r, v). rr_created v) (sort_key fst
       (filter (\<lambda>(r, v). rr_definition v = i) (db_runs (ex_db (cp_exec R)))))))"

definition get_workflow_run :: "api_env \<Rightarrow> string \<Rightarrow> ('w, 'k) runtime \<Rightarrow> py_error + json" where
  "get_workflow_run E r R =
     rbind (fails exec_py (get_run (ex_db (cp_exec R)) r)) (\<lambda>(v, steps, events).
       Inr (JObj [(''run'', run_view_of r v), (''steps'', JList (map (step_view_of (ae_dump E) r) steps)),
         (''events'', JList (map event_view_of events))]))"

definition cancel_workflow_run :: "api_env \<Rightarrow> string \<Rightarrow> ('w, 'k) runtime \<Rightarrow> (py_error + json) \<times> ('w, 'k) runtime" where
  "cancel_workflow_run E r R =
     (case cancel_run (ae_cfg E) r None (cp_exec R) of
        Inl e \<Rightarrow> (Inl (exec_py e), R)
      | Inr (_, S) \<Rightarrow> (run_json r S, with_exec S R))"

definition retry_workflow_run :: "api_env \<Rightarrow> string \<Rightarrow> ('w, 'k) runtime \<Rightarrow> (py_error + json) \<times> ('w, 'k) runtime" where
  "retry_workflow_run E r R =
     (case retry_run (ae_cfg E) r (cp_exec R) of
        Inl e \<Rightarrow> (Inl (exec_py e), R)
      | Inr p \<Rightarrow> let S = drive (ae_cfg E) r p in (run_json r S, with_exec S R))"

section \<open>Approvals\<close>

definition pending_approvals :: "string \<Rightarrow> ('w, 'k) runtime \<Rightarrow> json" where
  "pending_approvals r R = JList (map (\<lambda>(s, ctx). JObj [(''run_id'', JStr r), (''step_id'', JStr s), (''context'', ctx)])
     (pending_for_run (ex_db (cp_exec R)) r))"

text \<open>A run that is driven again after the decision has its first scheduling pass in the same call.\<close>

definition approve_checkpoint ::
  "api_env \<Rightarrow> string \<Rightarrow> string \<Rightarrow> json \<Rightarrow> ('w, 'k) runtime \<Rightarrow> (py_error + json) \<times> ('w, 'k) runtime" where
  "approve_checkpoint E r s edits R =
     (case approve (ae_cfg E) r s edits (cp_exec R) of
        (Some e, S) \<Rightarrow> (Inl (exec_py e), with_exec S R)
      | (None, S) \<Rightarrow>
          let S' = (case run_st (ex_db S) r of
                      None \<Rightarrow> S | Some st \<Rightarrow> drive (ae_cfg E) r (st, S))
          in (run_json r S', with_exec S' R))"

definition reject_checkpoint ::
  "string \<Rightarrow> string \<Rightarrow> string \<Rightarrow> ('w, 'k) runtime \<Rightarrow> (py_error + json) \<times> ('w, 'k) runtime" where
  "reject_checkpoint r s reason R =
     (case reject r s reason (ex_db (cp_exec R)) of
        Inl e \<Rightarrow> (Inl (approval_py e), R)
      | Inr (_, db) \<Rightarrow> let S = (cp_exec R)\<lparr>ex_db := db\<rparr> in (run_json r S, with_exec S R))"

section \<open>Schedules, memory and checkpoints\<close>

definition list_scheduled_tasks :: "string option \<Rightarrow> ('w, 'k) runtime \<Rightarrow> json" where
  "list_scheduled_tasks d R = JList (map task_view (list_tasks (cp_tasks R) d))"

definition found_task :: "string \<Rightarrow> task_row list \<Rightarrow> json" where
  "found_task i ts = (case find_task ts i of None \<Rightarrow> JNull | Some r \<Rightarrow> task_view r)"

definition create_scheduled_task ::
  "api_env \<Rightarrow> string \<Rightarrow> string \<Rightarrow> string \<Rightarrow> ('w, 'k) runtime \<Rightarrow> py_error + json \<times> ('w, 'k) runtime" where
  "create_scheduled_task E d cron state R =
     rbind (fails sched_py (create_task d cron state (ae_id E) (db_now (ex_db (cp_exec R))) (ae_clock E) (cp_tasks R)
       :: unit sched_error + task_row list)) (\<lambda>ts. Inr (found_task (ae_id E) ts, R\<lparr>cp_tasks := ts\<rparr>))"

definition pause_scheduled_task :: "api_env \<Rightarrow> string \<Rightarrow> ('w, 'k) runtime \<Rightarrow> py_error + json \<times> ('w, 'k) runtime" where
  "pause_scheduled_task E i R =
     rbind (fails sched_py (pause_task i (db_now (ex_db (cp_exec R))) (ae_clock E) (cp_tasks R)
       :: unit sched_error + task_row list)) (\<lambda>ts. Inr (found_task i ts, R\<lparr>cp_tasks := ts\<rparr>))"

definition resume_scheduled_task :: "api_env \<Rightarrow> string \<Rightarrow> ('w, 'k) runtime \<Rightarrow> py_error + json \<times> ('w, 'k) runtime" where
  "resume_scheduled_task E i R =
     rbind (fails sched_py (resume_task i (db_now (ex_db (cp_exec R))) (ae_clock E) (cp_tasks R)
       :: unit sched_error + task_row list)) (\<lambda>ts. Inr (found_task i ts, R\<lparr>cp_tasks := ts\<rparr>))"

definition list_memory_entries :: "string option \<Rightarrow> ('w, 'k) runtime \<Rightarrow> json" where
  "list_memory_entries cat R = JList (map memory_view (list_entries cat (cp_memory R)))"

definition default_category :: string where "default_category = ''preference''"

definition record_memory_entry ::
  "api_env \<Rightarrow> string \<Rightarrow> string option \<Rightarrow> ('w, 'k) runtime \<Rightarrow> (py_error + json) \<times> ('w, 'k) runtime" where
  "record_memory_entry E content cat R =
     (case record_entry (ae_mem E) content (case cat of None \<Rightarrow> default_category | Some c \<Rightarrow> c) (ae_id E)
             (db_now (ex_db (cp_exec R))) (cp_memory R) of
        (res, rows) \<Rightarrow> (rbind (fails mem_py res) (\<lambda>r. Inr (memory_view r)), R\<lparr>cp_memory := rows\<rparr>))"

definition delete_memory_entry :: "string \<Rightarrow> ('w, 'k) runtime \<Rightarrow> py_error + unit \<times> ('w, 'k) runtime" where
  "delete_memory_entry i R =
     rbind (fails mem_py (delete_entry i (cp_memory R))) (\<lambda>rows. Inr ((), R\<lparr>cp_memory := rows\<rparr>))"

text \<open>\<open>_LazyExecutionManager\<close>: until the kernel has registered every call raises the same error.\<close>

definition no_kernel_message :: string where
  "no_kernel_message = ''kernel execution manager is not available yet; the Control_Plane must register with the Kernel '' @
     ''before sandbox-backed operations can run (no host fallback)''"

definition lazy_port :: "'k kernel_port option \<Rightarrow> 'k kernel_port" where
  "lazy_port p = (case p of
     None \<Rightarrow> \<lparr>kp_snapshot = (\<lambda>ws k. (Inl no_kernel_message, k)), kp_restore = (\<lambda>ws ref k. (Inl no_kernel_message, k))\<rparr>
   | Some port \<Rightarrow> port)"

definition checkpoints_of_run :: "string \<Rightarrow> ('w, 'k) runtime \<Rightarrow> py_error + json" where
  "checkpoints_of_run r R =
     rbind (fails checkpoint_py (list_checkpoints r (cp_checkpoints R))) (\<lambda>cs. Inr (JList (map checkpoint_view cs)))"

definition rollback_checkpoint :: "string \<Rightarrow> ('w, 'k) runtime \<Rightarrow> (py_error + json) \<times> ('w, 'k) runtime" where
  "rollback_checkpoint i R =
     (case restore_checkpoint (lazy_port (cp_port R)) i (cp_kernel R) (cp_checkpoints R) of
        (res, k) \<Rightarrow> (rbind (fails checkpoint_py res) (\<lambda>c. Inr (checkpoint_view c)), R\<lparr>cp_kernel := k\<rparr>))"

section \<open>Tools and toolsets\<close>

definition scope_toolset_enabled :: "string \<Rightarrow> string \<Rightarrow> ('w, 'k) runtime \<Rightarrow> bool" where
  "scope_toolset_enabled ts scope R = dict_get_or (dict_get_or (cp_scopes R) scope []) ts False"

definition set_scope_toolset :: "string \<Rightarrow> string \<Rightarrow> bool \<Rightarrow> ('w, 'k) runtime \<Rightarrow> ('w, 'k) runtime" where
  "set_scope_toolset ts scope on R =
     R\<lparr>cp_scopes := dict_set scope (dict_set ts on (dict_get_or (cp_scopes R) scope [])) (cp_scopes R)\<rparr>"

definition tool_view :: "tool_spec \<Rightarrow> string option \<Rightarrow> ('w, 'k) runtime \<Rightarrow> json" where
  "tool_view t scope R =
     (let av = is_available (cp_tools R) (ts_name t) in
      JObj ([(''name'', JStr (ts_name t)), (''description'', JStr (ts_description t)), (''toolset'', JStr (ts_toolset t)),
             (''mutating'', JBool (ts_mutating t)), (''available'', JBool av)] @
        (case scope of None \<Rightarrow> []
         | Some sc \<Rightarrow> [(''scope'', JStr sc), (''enabled'', JBool (av \<and> scope_toolset_enabled (ts_toolset t) sc R))])))"

definition toolset_view :: "toolset_spec \<Rightarrow> string option \<Rightarrow> ('w, 'k) runtime \<Rightarrow> json" where
  "toolset_view t scope R =
     JObj ([(''id'', JStr (set_id t)), (''name'', JStr (set_name t)), (''tools'', JList (map JStr (set_tools t)))] @
       (case scope of None \<Rightarrow> []
        | Some sc \<Rightarrow> [(''scope'', JStr sc), (''enabled'', JBool (scope_toolset_enabled (set_id t) sc R))]))"

definition tools_json :: "string option \<Rightarrow> ('w, 'k) runtime \<Rightarrow> json" where
  "tools_json scope R = JList (map (\<lambda>t. tool_view t scope R) (list_tools (cp_tools R)))"

definition toolsets_json :: "string option \<Rightarrow> ('w, 'k) runtime \<Rightarrow> json" where
  "toolsets_json scope R = JList (map (\<lambda>t. toolset_view t scope R) (list_toolsets (cp_tools R)))"

definition set_tool_enabled :: "string \<Rightarrow> string \<Rightarrow> bool \<Rightarrow> ('w, 'k) runtime \<Rightarrow> py_error + json \<times> ('w, 'k) runtime" where
  "set_tool_enabled name scope on R =
     (case get_tool (cp_tools R) name of
        None \<Rightarrow> Inl (Key_error (''tool '' @ ticked name @ '' was not found''))
      | Some t \<Rightarrow> let R' = set_scope_toolset (ts_toolset t) scope on R in Inr (tool_view t (Some scope) R', R'))"

definition set_toolset_enabled :: "string \<Rightarrow> string \<Rightarrow> bool \<Rightarrow> ('w, 'k) runtime \<Rightarrow> py_error + json \<times> ('w, 'k) runtime" where
  "set_toolset_enabled i scope on R =
     (case find (\<lambda>t. set_id t = i) (list_toolsets (cp_tools R)) of
        None \<Rightarrow> Inl (Key_error (''toolset '' @ ticked i @ '' was not found''))
      | Some t \<Rightarrow> let R' = set_scope_toolset i scope on R in Inr (toolset_view t (Some scope) R', R'))"

section \<open>MCP servers\<close>

text \<open>A value bound to a column of type TEXT: a number is stored as its text, a container is refused.\<close>

definition unsupported :: py_error where
  "unsupported = Other_error ''Error binding parameter: type is not supported''"

fun sql_text :: "(rat \<Rightarrow> string) \<Rightarrow> json \<Rightarrow> py_error + string option" where
  "sql_text fl JNull = Inr None"
| "sql_text fl (JStr s) = Inr (Some s)"
| "sql_text fl (JBool b) = Inr (Some (if b then ''1'' else ''0''))"
| "sql_text fl (JInt i) =
     (if - (2 ^ 63) \<le> i \<and> i < 2 ^ 63 then Inr (Some (int_str i)) else Inl (Other_error ''Python int too large to convert to SQLite INTEGER''))"
| "sql_text fl (JFloat q) = Inr (Some (fl q))"
| "sql_text fl (JList xs) = Inl unsupported"
| "sql_text fl (JObj d) = Inl unsupported"

definition some_text :: "string option \<Rightarrow> string" where
  "some_text t = (case t of None \<Rightarrow> [] | Some s \<Rightarrow> s)"

text \<open>\<open>list(raw_filter)\<close>\<close>

fun py_list :: "json \<Rightarrow> py_error + json list" where
  "py_list (JList xs) = Inr xs"
| "py_list (JStr s) = Inr (map (\<lambda>c. JStr [c]) s)"
| "py_list (JObj d) = Inr (map (\<lambda>(k, v). JStr k) d)"
| "py_list v = Inl (Type_error (sq (type_name v) @ '' object is not iterable''))"

definition mcp_view :: "string \<Rightarrow> mcp_row \<Rightarrow> json" where
  "mcp_view i v = JObj [(''id'', JStr i), (''name'', JStr (mr_name v)), (''transport'', JStr (mr_transport v)),
     (''toolFilter'', case mr_filter v of None \<Rightarrow> JNull | Some j \<Rightarrow> j), (''grantRef'', opt_str (mr_grant v)),
     (''status'', JStr (mr_status v)), (''createdAt'', JStr (mr_created v))]"

definition list_mcp_servers :: "('w, 'k) runtime \<Rightarrow> json" where
  "list_mcp_servers R = JList (map (\<lambda>(i, v). mcp_view i v) (sort_key (\<lambda>(i, v). mr_created v) (sort_key fst (cp_mcp R))))"

definition get_mcp_server :: "string \<Rightarrow> ('w, 'k) runtime \<Rightarrow> json option" where
  "get_mcp_server i R = map_option (mcp_view i) (map_of (cp_mcp R) i)"

definition mcp_filter :: "obj \<Rightarrow> py_error + json option" where
  "mcp_filter c =
     (let raw = (if obj_get c ''toolFilter'' = JNull then obj_get c ''tool_filter'' else obj_get c ''toolFilter'')
      in if raw = JNull then Inr None else rbind (py_list raw) (\<lambda>xs. Inr (Some (JList xs))))"

definition mcp_grant :: "obj \<Rightarrow> json" where
  "mcp_grant c = either (obj_get c ''secretRef'') (either (obj_get c ''secret_ref'')
     (either (obj_get c ''grantRef'') (obj_get c ''grant_ref'')))"

definition configure_mcp_server :: "api_env \<Rightarrow> obj \<Rightarrow> ('w, 'k) runtime \<Rightarrow> py_error + json \<times> ('w, 'k) runtime" where
  "configure_mcp_server E c R =
     (if \<not> truthy (obj_get c ''name'') \<or> \<not> truthy (obj_get c ''transport'') then
        Inl (py_error.Value_error (''an MCP server connection requires a '' @ sq ''name'' @ '' and a '' @ sq ''transport''))
      else
        rbind (mcp_filter c) (\<lambda>flt.
        rbind (sql_text (ae_real E) (either (obj_get c ''id'') (JStr (ae_id E)))) (\<lambda>i.
        rbind (sql_text (ae_real E) (obj_get c ''name'')) (\<lambda>name.
        rbind (sql_text (ae_real E) (obj_get c ''transport'')) (\<lambda>transport.
        rbind (sql_text (ae_real E) (mcp_grant c)) (\<lambda>grant.
          let k = some_text i in
          rbind (case map_of (cp_mcp R) k of
             None \<Rightarrow> rbind (sql_text (ae_real E) (either (obj_get c ''status'') (JStr ''disconnected''))) (\<lambda>st.
               Inr \<lparr>mr_name = some_text name, mr_transport = some_text transport, mr_filter = flt, mr_grant = grant,
                    mr_status = some_text st, mr_created = db_now (ex_db (cp_exec R))\<rparr>)
           | Some old \<Rightarrow> Inr (old\<lparr>mr_name := some_text name, mr_transport := some_text transport, mr_filter := flt,
               mr_grant := grant\<rparr>)) (\<lambda>row.
          let R' = R\<lparr>cp_mcp := dict_set k row (cp_mcp R)\<rparr>
          in Inr (case get_mcp_server k R' of None \<Rightarrow> JNull | Some j \<Rightarrow> j, R'))))))))"

definition mcp_missing :: "string \<Rightarrow> py_error" where
  "mcp_missing i = Key_error (''MCP server '' @ ticked i @ '' was not found'')"

definition remove_mcp_server :: "string \<Rightarrow> ('w, 'k) runtime \<Rightarrow> py_error + unit \<times> ('w, 'k) runtime" where
  "remove_mcp_server i R =
     (if dict_has (cp_mcp R) i then Inr ((), R\<lparr>cp_mcp := dict_del i (cp_mcp R)\<rparr>) else Inl (mcp_missing i))"

text \<open>\<open>mcp_client\<close> is set to \<open>None\<close> at the start and nowhere else, so \<open>_require_mcp_client\<close> raises.\<close>

definition connect_mcp_server :: "string \<Rightarrow> ('w, 'k) runtime \<Rightarrow> py_error + json" where
  "connect_mcp_server i R =
     (if dict_has (cp_mcp R) i then
        Inl (Runtime_error (''no MCP transport is configured; cannot connect to or disconnect from MCP servers''))
      else Inl (mcp_missing i))"

definition disconnect_mcp_server :: "string \<Rightarrow> ('w, 'k) runtime \<Rightarrow> py_error + json" where
  "disconnect_mcp_server i R =
     (if dict_has (cp_mcp R) i then
        Inl (Runtime_error (''no MCP transport is configured; cannot connect to or disconnect from MCP servers''))
      else Inl (mcp_missing i))"

section \<open>Agents\<close>

definition save_agent_api ::
  "api_env \<Rightarrow> obj \<Rightarrow> string option \<Rightarrow> ('w, 'k) runtime \<Rightarrow> py_error + json \<times> ('w, 'k) runtime" where
  "save_agent_api E payload aid R =
     rbind (save_agent (ae_float E) (ae_read E) (ae_providers E) aid (ae_id E) payload (cp_agents R)) (\<lambda>(a, db).
       Inr (JObj a, R\<lparr>cp_agents := db\<rparr>))"

definition delete_agent_api :: "string \<Rightarrow> ('w, 'k) runtime \<Rightarrow> ('w, 'k) runtime" where
  "delete_agent_api i R = R\<lparr>cp_agents := delete_agent i (cp_agents R)\<rparr>"

definition validate_agent_api :: "api_env \<Rightarrow> obj \<Rightarrow> string option \<Rightarrow> py_error + json" where
  "validate_agent_api E payload aid =
     rbind (validate_agent (ae_float E) (ae_read E) (ae_providers E) aid (ae_id E) payload) (\<lambda>d. Inr (JObj d))"

definition invoke_agent_api :: "api_env \<Rightarrow> string \<Rightarrow> obj \<Rightarrow> ('w, 'k) runtime \<Rightarrow> py_error + json \<times> ('w, 'k) runtime" where
  "invoke_agent_api E i payload R =
     rbind (invoke_agent (ae_float E) (ae_elapsed E) (ae_providers E) (ae_id E) i payload (cp_agents R)) (\<lambda>(iv, job, db).
       Inr (JObj iv, R\<lparr>cp_agents := db, cp_jobs := cp_jobs R @ [job]\<rparr>))"

end
