(* ===== verification/Api_Handlers.thy ===== *)
theory Api_Handlers
  imports Runtime_Api
begin

text \<open>
  The route handlers of \<open>cp/handlers/\<close>: workflows, approvals, schedules, memory, checkpoints, tools,
  mcp, agents and invocations. A handler gets the request, its body and the state, and raises or
  answers with a status and a JSON value. The handlers of the other modules are an argument.
\<close>

section \<open>Answers\<close>

type_synonym answer = "nat \<times> json"

type_synonym ('w, 'k) api_handler = "(('w, 'k) runtime, answer) http_handler"

definition lift_py :: "py_error + 'a \<Rightarrow> http_exc + 'a" where
  "lift_py r = (case r of Inl e \<Rightarrow> Inl (Py e) | Inr x \<Rightarrow> Inr x)"

lemma lift_py_simps [simp]: "lift_py (Inl e) = Inl (Py e)" "lift_py (Inr x) = Inr x"
  by (simp_all add: lift_py_def)

text \<open>An accessor that only reads, one that changes the state when it succeeds, and one whose state
  is kept even when it raises.\<close>

definition report :: "nat \<Rightarrow> (json \<Rightarrow> obj) \<Rightarrow> py_error + json \<Rightarrow> 's \<Rightarrow> (http_exc + answer) \<times> 's" where
  "report st f r s = (rbind (lift_py r) (\<lambda>j. Inr (st, JObj (f j))), s)"

definition commit :: "nat \<Rightarrow> ('a \<Rightarrow> obj) \<Rightarrow> py_error + 'a \<times> 's \<Rightarrow> 's \<Rightarrow> (http_exc + answer) \<times> 's" where
  "commit st f r s = (case r of Inl e \<Rightarrow> (Inl (Py e), s) | Inr (j, s') \<Rightarrow> (Inr (st, JObj (f j)), s'))"

definition effect :: "nat \<Rightarrow> (json \<Rightarrow> obj) \<Rightarrow> (py_error + json) \<times> 's \<Rightarrow> (http_exc + answer) \<times> 's" where
  "effect st f r = (rbind (lift_py (fst r)) (\<lambda>j. Inr (st, JObj (f j))), snd r)"

definition attempt :: "http_exc + 'a \<Rightarrow> 's \<Rightarrow> ('a \<Rightarrow> (http_exc + answer) \<times> 's) \<Rightarrow> (http_exc + answer) \<times> 's" where
  "attempt r s k = (case r of Inl e \<Rightarrow> (Inl e, s) | Inr x \<Rightarrow> k x)"

lemma attempt_simps [simp]: "attempt (Inl e) s k = (Inl e, s)" "attempt (Inr x) s k = k x"
  by (simp_all add: attempt_def)

text \<open>\<open>require_method\<close> in a branch for the methods that are not allowed: it raises.\<close>

definition refuse :: "request \<Rightarrow> string list \<Rightarrow> 's \<Rightarrow> (http_exc + answer) \<times> 's" where
  "refuse rq allowed s = (Inl (Method_not_allowed (rq_method rq) allowed), s)"

definition key_error :: "string \<Rightarrow> 's \<Rightarrow> (http_exc + answer) \<times> 's" where
  "key_error m s = (Inl (Py (Key_error m)), s)"

definition segment :: "request \<Rightarrow> nat \<Rightarrow> http_exc + string" where
  "segment rq n =
     (let ss = split_segments (rq_path rq) in
      if n < length ss then Inr (ss ! n) else Inl (Py (Other_error ''list index out of range'')))"

definition path_arg :: "api_env \<Rightarrow> request \<Rightarrow> nat \<Rightarrow> http_exc + string" where
  "path_arg E rq n = rbind (segment rq n) (\<lambda>s. Inr (ae_unquote E s))"

definition under :: "string \<Rightarrow> json \<Rightarrow> obj" where
  "under k j = [(k, j)]"

section \<open>cp/handlers/workflows.py\<close>

definition handle_workflow_validate :: "('w, 'k) api_handler" where
  "handle_workflow_validate rq body R =
     attempt (require_method (rq_method rq) [''POST'']) R (\<lambda>_. (Inr (200, validate_workflow body R), R))"

definition handle_workflow_templates :: "('w, 'k) api_handler" where
  "handle_workflow_templates rq body R =
     attempt (require_method (rq_method rq) [''GET'']) R (\<lambda>_.
       report 200 (under ''workflowTemplates'') (Inr (list_workflow_templates R)) R)"

definition handle_workflow_template :: "api_env \<Rightarrow> ('w, 'k) api_handler" where
  "handle_workflow_template E rq body R =
     attempt (path_arg E rq 4) R (\<lambda>i.
       if rq_method rq = ''GET'' then
         (case get_workflow_template i R of
            None \<Rightarrow> (Inl (Py (template_missing i)), R)
          | Some t \<Rightarrow> report 200 (under ''workflowTemplate'') (Inr (JObj t)) R)
       else if rq_method rq = ''POST'' then
         commit 201 (under ''workflow'') (instantiate_workflow_template E i body R) R
       else refuse rq [''GET'', ''POST''] R)"

definition handle_workflows :: "api_env \<Rightarrow> ('w, 'k) api_handler" where
  "handle_workflows E rq body R =
     (if rq_method rq = ''GET'' then report 200 (under ''workflows'') (list_workflows R) R
      else if rq_method rq = ''POST'' then commit 201 (under ''workflow'') (create_workflow E body R) R
      else refuse rq [''GET'', ''POST''] R)"

definition handle_workflow :: "api_env \<Rightarrow> ('w, 'k) api_handler" where
  "handle_workflow E rq body R =
     attempt (path_arg E rq 3) R (\<lambda>i.
       if rq_method rq = ''GET'' then
         attempt (lift_py (get_workflow i R)) R (\<lambda>w.
           case w of None \<Rightarrow> key_error (''workflow '' @ ticked i @ '' was not found'') R
           | Some j \<Rightarrow> report 200 (under ''workflow'') (Inr j) R)
       else refuse rq [''GET''] R)"

definition handle_workflow_action :: "api_env \<Rightarrow> ('w, 'k) api_handler" where
  "handle_workflow_action E rq body R =
     attempt (path_arg E rq 3) R (\<lambda>i.
     attempt (segment rq 4) R (\<lambda>suffix.
       if suffix = ''runs'' then
         (if rq_method rq = ''POST'' then effect 202 (under ''run'') (start_workflow_run E i body R)
          else if rq_method rq = ''GET'' then report 200 (under ''runs'') (Inr (list_workflow_runs i R)) R
          else refuse rq [''GET'', ''POST''] R)
       else key_error (''workflow action '' @ ticked suffix @ '' is not supported'') R))"

definition handle_run :: "api_env \<Rightarrow> ('w, 'k) api_handler" where
  "handle_run E rq body R =
     attempt (require_method (rq_method rq) [''GET'']) R (\<lambda>_.
     attempt (path_arg E rq 3) R (\<lambda>r.
     attempt (lift_py (get_workflow_run E r R)) R (\<lambda>j. (Inr (200, j), R))))"

definition handle_run_action :: "api_env \<Rightarrow> ('w, 'k) api_handler" where
  "handle_run_action E rq body R =
     attempt (path_arg E rq 3) R (\<lambda>r.
     attempt (segment rq 4) R (\<lambda>suffix.
       if suffix = ''cancel'' then
         attempt (require_method (rq_method rq) [''POST'']) R (\<lambda>_. effect 200 (under ''run'') (cancel_workflow_run E r R))
       else if suffix = ''retry'' then
         attempt (require_method (rq_method rq) [''POST'']) R (\<lambda>_. effect 200 (under ''run'') (retry_workflow_run E r R))
       else key_error (''workflow run action '' @ ticked suffix @ '' is not supported'') R))"

section \<open>cp/handlers/approvals.py\<close>

definition handle_run_approvals :: "api_env \<Rightarrow> ('w, 'k) api_handler" where
  "handle_run_approvals E rq body R =
     attempt (require_method (rq_method rq) [''GET'']) R (\<lambda>_.
     attempt (path_arg E rq 3) R (\<lambda>r.
       report 200 (\<lambda>j. [(''approvals'', j), (''runId'', JStr r)]) (Inr (pending_approvals r R)) R))"

text \<open>\<open>str(payload.get("reason") or "")\<close>\<close>

definition rejection_reason :: "(rat \<Rightarrow> string) \<Rightarrow> obj \<Rightarrow> string" where
  "rejection_reason fl body = (let v = obj_get body ''reason'' in if truthy v then py_str fl v else [])"

definition handle_approval_decision :: "api_env \<Rightarrow> ('w, 'k) api_handler" where
  "handle_approval_decision E rq body R =
     attempt (require_method (rq_method rq) [''POST'']) R (\<lambda>_.
     attempt (path_arg E rq 3) R (\<lambda>r.
     attempt (path_arg E rq 5) R (\<lambda>s.
     attempt (segment rq 6) R (\<lambda>decision.
       if decision = ''approve'' then effect 200 (under ''run'') (approve_checkpoint E r s (obj_get body ''edits'') R)
       else if decision = ''reject'' then
         effect 200 (under ''run'') (reject_checkpoint r s (rejection_reason (ae_float E) body) R)
       else key_error (''approval decision '' @ ticked decision @ '' is not supported'') R))))"

section \<open>cp/handlers/schedules.py\<close>

definition coerce_state :: "(rat \<Rightarrow> string) \<Rightarrow> json \<Rightarrow> py_error + string" where
  "coerce_state fl raw =
     (if raw = JNull then Inr state_active
      else let state = str_lower (str_strip (py_str fl raw)) in
        if state = state_active \<or> state = state_paused then Inr state
        else Inl (py_error.Value_error (''state must be one of ['' @ sq ''active'' @ '', '' @ sq ''paused'' @ ''], got '' @
          ticked (py_str fl raw))))"

definition handle_schedules :: "api_env \<Rightarrow> ('w, 'k) api_handler" where
  "handle_schedules E rq body R =
     (if rq_method rq = ''GET'' then
        report 200 (under ''scheduledTasks'')
          (Inr (list_scheduled_tasks (optional_query_value (rq_query rq) [''definitionId'', ''definition_id'']) R)) R
      else if rq_method rq = ''POST'' then
        attempt (lift_py (required_string (ae_float E) body [''definitionId'', ''definition_id''])) R (\<lambda>d.
        attempt (lift_py (required_string (ae_float E) body [''cronExpression'', ''cron_expression'', ''cron''])) R (\<lambda>cron.
        attempt (lift_py (coerce_state (ae_float E) (obj_get body ''state''))) R (\<lambda>state.
          commit 201 (under ''scheduledTask'') (create_scheduled_task E d cron state R) R)))
      else refuse rq [''GET'', ''POST''] R)"

definition handle_schedule_action :: "api_env \<Rightarrow> ('w, 'k) api_handler" where
  "handle_schedule_action E rq body R =
     attempt (path_arg E rq 3) R (\<lambda>i.
     attempt (segment rq 4) R (\<lambda>suffix.
       if suffix = ''pause'' then
         attempt (require_method (rq_method rq) [''POST'']) R (\<lambda>_.
           commit 200 (under ''scheduledTask'') (pause_scheduled_task E i R) R)
       else if suffix = ''resume'' then
         attempt (require_method (rq_method rq) [''POST'']) R (\<lambda>_.
           commit 200 (under ''scheduledTask'') (resume_scheduled_task E i R) R)
       else key_error (''schedule action '' @ ticked suffix @ '' is not supported'') R))"

section \<open>cp/handlers/memory.py\<close>

definition optional_body_value :: "(rat \<Rightarrow> string) \<Rightarrow> obj \<Rightarrow> string list \<Rightarrow> string option" where
  "optional_body_value fl body names = first_text fl body names"

definition handle_memory :: "api_env \<Rightarrow> ('w, 'k) api_handler" where
  "handle_memory E rq body R =
     (if rq_method rq = ''GET'' then
        report 200 (under ''memoryEntries'') (Inr (list_memory_entries (optional_query_value (rq_query rq) [''category'']) R)) R
      else if rq_method rq = ''POST'' then
        attempt (lift_py (required_string (ae_float E) body [''content''])) R (\<lambda>content.
          effect 201 (under ''memoryEntry'')
            (record_memory_entry E content (optional_body_value (ae_float E) body [''category'']) R))
      else refuse rq [''GET'', ''POST''] R)"

definition handle_memory_entry :: "api_env \<Rightarrow> ('w, 'k) api_handler" where
  "handle_memory_entry E rq body R =
     attempt (path_arg E rq 3) R (\<lambda>i.
       if rq_method rq = ''DELETE'' then
         commit 200 (\<lambda>_. [(''ok'', JBool True), (''memoryId'', JStr i)]) (delete_memory_entry i R) R
       else refuse rq [''DELETE''] R)"

section \<open>cp/handlers/checkpoints.py\<close>

definition handle_run_checkpoints :: "api_env \<Rightarrow> ('w, 'k) api_handler" where
  "handle_run_checkpoints E rq body R =
     attempt (require_method (rq_method rq) [''GET'']) R (\<lambda>_.
     attempt (path_arg E rq 3) R (\<lambda>r.
       report 200 (\<lambda>j. [(''checkpoints'', j), (''runId'', JStr r)]) (checkpoints_of_run r R) R))"

definition handle_checkpoint_rollback :: "api_env \<Rightarrow> ('w, 'k) api_handler" where
  "handle_checkpoint_rollback E rq body R =
     attempt (require_method (rq_method rq) [''POST'']) R (\<lambda>_.
     attempt (path_arg E rq 3) R (\<lambda>i.
     attempt (segment rq 4) R (\<lambda>suffix.
       if suffix \<noteq> ''rollback'' then key_error (''checkpoint action '' @ ticked suffix @ '' is not supported'') R
       else effect 200 (under ''checkpoint'') (rollback_checkpoint i R))))"

section \<open>cp/handlers/tools.py\<close>

definition coerce_action :: "string \<Rightarrow> py_error + bool" where
  "coerce_action a =
     (if a \<in> {''enable'', ''disable''} then Inr (a = ''enable'')
      else Inl (Key_error (''tool action '' @ ticked a @ '' is not supported'')))"

definition handle_tools :: "('w, 'k) api_handler" where
  "handle_tools rq body R =
     attempt (require_method (rq_method rq) [''GET'']) R (\<lambda>_.
       report 200 (under ''tools'') (Inr (tools_json (optional_query_value (rq_query rq) [''scope'']) R)) R)"

definition handle_toolsets :: "('w, 'k) api_handler" where
  "handle_toolsets rq body R =
     attempt (require_method (rq_method rq) [''GET'']) R (\<lambda>_.
       report 200 (under ''toolsets'') (Inr (toolsets_json (optional_query_value (rq_query rq) [''scope'']) R)) R)"

definition handle_tool_action :: "api_env \<Rightarrow> ('w, 'k) api_handler" where
  "handle_tool_action E rq body R =
     attempt (path_arg E rq 3) R (\<lambda>name.
     attempt (segment rq 4) R (\<lambda>action.
     attempt (lift_py (coerce_action action)) R (\<lambda>on.
     attempt (require_method (rq_method rq) [''POST'']) R (\<lambda>_.
     attempt (lift_py (required_string (ae_float E) body [''scope''])) R (\<lambda>scope.
       commit 200 (under ''tool'') (set_tool_enabled name scope on R) R)))))"

definition handle_toolset_action :: "api_env \<Rightarrow> ('w, 'k) api_handler" where
  "handle_toolset_action E rq body R =
     attempt (path_arg E rq 3) R (\<lambda>i.
     attempt (segment rq 4) R (\<lambda>action.
     attempt (lift_py (coerce_action action)) R (\<lambda>on.
     attempt (require_method (rq_method rq) [''POST'']) R (\<lambda>_.
     attempt (lift_py (required_string (ae_float E) body [''scope''])) R (\<lambda>scope.
       commit 200 (under ''toolset'') (set_toolset_enabled i scope on R) R)))))"

section \<open>cp/handlers/mcp.py\<close>

definition handle_mcp_servers :: "api_env \<Rightarrow> ('w, 'k) api_handler" where
  "handle_mcp_servers E rq body R =
     (if rq_method rq = ''GET'' then report 200 (under ''mcpServers'') (Inr (list_mcp_servers R)) R
      else if rq_method rq = ''POST'' then commit 201 (under ''mcpServer'') (configure_mcp_server E body R) R
      else refuse rq [''GET'', ''POST''] R)"

definition handle_mcp_server :: "api_env \<Rightarrow> ('w, 'k) api_handler" where
  "handle_mcp_server E rq body R =
     attempt (path_arg E rq 4) R (\<lambda>i.
       if rq_method rq = ''GET'' then
         (case get_mcp_server i R of
            None \<Rightarrow> (Inl (Py (mcp_missing i)), R)
          | Some j \<Rightarrow> report 200 (under ''mcpServer'') (Inr j) R)
       else if rq_method rq \<in> {''PUT'', ''PATCH'', ''POST''} then
         commit 200 (under ''mcpServer'') (configure_mcp_server E (dict_set ''id'' (JStr i) body) R) R
       else if rq_method rq = ''DELETE'' then
         commit 200 (\<lambda>_. [(''ok'', JBool True), (''mcpServerId'', JStr i)]) (remove_mcp_server i R) R
       else refuse rq [''GET'', ''PUT'', ''PATCH'', ''POST'', ''DELETE''] R)"

definition handle_mcp_server_action :: "api_env \<Rightarrow> ('w, 'k) api_handler" where
  "handle_mcp_server_action E rq body R =
     attempt (path_arg E rq 4) R (\<lambda>i.
     attempt (segment rq 5) R (\<lambda>suffix.
       if suffix = ''connect'' then
         attempt (require_method (rq_method rq) [''POST'']) R (\<lambda>_. report 200 (under ''mcpServer'') (connect_mcp_server i R) R)
       else if suffix = ''disconnect'' then
         attempt (require_method (rq_method rq) [''POST'']) R (\<lambda>_. report 200 (under ''mcpServer'') (disconnect_mcp_server i R) R)
       else key_error (''MCP server action '' @ ticked suffix @ '' is not supported'') R))"

section \<open>cp/handlers/agents.py\<close>

definition handle_agent_templates :: "api_env \<Rightarrow> ('w, 'k) api_handler" where
  "handle_agent_templates E rq body R =
     attempt (require_method (rq_method rq) [''GET'']) R (\<lambda>_.
       report 200 (under ''agentTemplates'') (Inr (JList (ae_templates E))) R)"

definition handle_agents :: "api_env \<Rightarrow> ('w, 'k) api_handler" where
  "handle_agents E rq body R =
     (if rq_method rq = ''GET'' then report 200 (under ''agents'') (Inr (JList (map JObj (list_agents (cp_agents R))))) R
      else if rq_method rq = ''POST'' then commit 201 (under ''agent'') (save_agent_api E body None R) R
      else refuse rq [''GET'', ''POST''] R)"

definition handle_agent_validate :: "api_env \<Rightarrow> ('w, 'k) api_handler" where
  "handle_agent_validate E rq body R =
     attempt (require_method (rq_method rq) [''POST'']) R (\<lambda>_.
     attempt (lift_py (validate_agent_api E body None)) R (\<lambda>j. (Inr (200, j), R)))"

definition handle_agent :: "api_env \<Rightarrow> ('w, 'k) api_handler" where
  "handle_agent E rq body R =
     attempt (path_arg E rq 3) R (\<lambda>i.
       if rq_method rq = ''GET'' then
         (case get_agent (cp_agents R) i of
            None \<Rightarrow> key_error (''agent '' @ ticked i @ '' was not found'') R
          | Some a \<Rightarrow> report 200 (under ''agent'') (Inr (JObj a)) R)
       else if rq_method rq \<in> {''PUT'', ''PATCH'', ''POST''} then
         commit 200 (under ''agent'') (save_agent_api E body (Some i) R) R
       else if rq_method rq = ''DELETE'' then
         (Inr (200, JObj [(''ok'', JBool True), (''agentId'', JStr i)]), delete_agent_api i R)
       else refuse rq [''GET'', ''PUT'', ''PATCH'', ''POST'', ''DELETE''] R)"

definition invocations_json :: "string option \<Rightarrow> ('w, 'k) runtime \<Rightarrow> json" where
  "invocations_json a R = JList (map JObj (list_invocations (cp_agents R) a))"

definition handle_agent_action :: "api_env \<Rightarrow> ('w, 'k) api_handler" where
  "handle_agent_action E rq body R =
     attempt (path_arg E rq 3) R (\<lambda>i.
     attempt (segment rq 4) R (\<lambda>suffix.
       if suffix = ''validate'' then
         attempt (require_method (rq_method rq) [''POST'']) R (\<lambda>_.
         attempt (lift_py (validate_agent_api E body (Some i))) R (\<lambda>j. (Inr (200, j), R)))
       else if suffix = ''invoke'' then
         attempt (require_method (rq_method rq) [''POST'']) R (\<lambda>_. commit 202 (under ''invocation'') (invoke_agent_api E i body R) R)
       else if suffix = ''invocations'' then
         (if rq_method rq = ''GET'' then report 200 (under ''invocations'') (Inr (invocations_json (Some i) R)) R
          else if rq_method rq = ''POST'' then commit 202 (under ''invocation'') (invoke_agent_api E i body R) R
          else refuse rq [''GET'', ''POST''] R)
       else key_error (''agent action '' @ ticked suffix @ '' is not supported'') R))"

section \<open>cp/handlers/invocations.py\<close>

definition handle_invocations :: "api_env \<Rightarrow> ('w, 'k) api_handler" where
  "handle_invocations E rq body R =
     (if rq_method rq = ''GET'' then
        report 200 (under ''invocations'') (Inr (invocations_json (optional_query_value (rq_query rq) [''agentId'', ''agent_id'']) R)) R
      else if rq_method rq = ''POST'' then
        attempt (lift_py (required_string (ae_float E) body [''agentId'', ''agent_id''])) R (\<lambda>i.
          commit 202 (under ''invocation'') (invoke_agent_api E i body R) R)
      else refuse rq [''GET'', ''POST''] R)"

definition handle_invocation :: "api_env \<Rightarrow> ('w, 'k) api_handler" where
  "handle_invocation E rq body R =
     attempt (require_method (rq_method rq) [''GET'']) R (\<lambda>_.
     attempt (path_arg E rq 3) R (\<lambda>i.
       case get_invocation (cp_agents R) i of
         None \<Rightarrow> key_error (''invocation '' @ ticked i @ '' was not found'') R
       | Some iv \<Rightarrow> report 200 (under ''invocation'') (Inr (JObj iv)) R))"

definition events_answer :: "string \<Rightarrow> ('w, 'k) runtime \<Rightarrow> (http_exc + answer) \<times> ('w, 'k) runtime" where
  "events_answer i R = report 200 (\<lambda>j. [(''events'', j), (''invocationId'', JStr i)])
     (Inr (JList (map invocation_event_view (invocation_events (cp_agents R) i)))) R"

definition handle_invocation_events :: "api_env \<Rightarrow> ('w, 'k) api_handler" where
  "handle_invocation_events E rq body R =
     attempt (require_method (rq_method rq) [''GET'']) R (\<lambda>_. attempt (path_arg E rq 3) R (\<lambda>i. events_answer i R))"

definition handle_invocation_events_query :: "('w, 'k) api_handler" where
  "handle_invocation_events_query rq body R =
     attempt (require_method (rq_method rq) [''GET'']) R (\<lambda>_.
       case optional_query_value (rq_query rq) [''invocationId'', ''invocation_id''] of
         None \<Rightarrow> (Inl (Py (py_error.Value_error (''query parameter '' @ ticked ''invocationId'' @ '' is required''))), R)
       | Some i \<Rightarrow> events_answer i R)"

section \<open>The handler of a route\<close>

definition api_handler_of :: "api_env \<Rightarrow> (handler_name \<Rightarrow> ('w, 'k) api_handler) \<Rightarrow> handler_name \<Rightarrow> ('w, 'k) api_handler" where
  "api_handler_of E others h =
     (case h of
        H_workflow_validate \<Rightarrow> handle_workflow_validate | H_workflow_templates \<Rightarrow> handle_workflow_templates
      | H_workflow_template \<Rightarrow> handle_workflow_template E | H_workflows \<Rightarrow> handle_workflows E
      | H_workflow \<Rightarrow> handle_workflow E | H_workflow_action \<Rightarrow> handle_workflow_action E
      | H_run \<Rightarrow> handle_run E | H_run_action \<Rightarrow> handle_run_action E
      | H_run_approvals \<Rightarrow> handle_run_approvals E | H_approval_decision \<Rightarrow> handle_approval_decision E
      | H_schedules \<Rightarrow> handle_schedules E | H_schedule_action \<Rightarrow> handle_schedule_action E
      | H_memory \<Rightarrow> handle_memory E | H_memory_entry \<Rightarrow> handle_memory_entry E
      | H_run_checkpoints \<Rightarrow> handle_run_checkpoints E | H_checkpoint_rollback \<Rightarrow> handle_checkpoint_rollback E
      | H_tools \<Rightarrow> handle_tools | H_toolsets \<Rightarrow> handle_toolsets
      | H_tool_action \<Rightarrow> handle_tool_action E | H_toolset_action \<Rightarrow> handle_toolset_action E
      | H_mcp_servers \<Rightarrow> handle_mcp_servers E | H_mcp_server \<Rightarrow> handle_mcp_server E
      | H_mcp_server_action \<Rightarrow> handle_mcp_server_action E
      | H_agent_templates \<Rightarrow> handle_agent_templates E | H_agents \<Rightarrow> handle_agents E
      | H_agent_validate \<Rightarrow> handle_agent_validate E | H_agent \<Rightarrow> handle_agent E | H_agent_action \<Rightarrow> handle_agent_action E
      | H_invocations \<Rightarrow> handle_invocations E | H_invocation \<Rightarrow> handle_invocation E
      | H_invocation_events \<Rightarrow> handle_invocation_events E | H_invocation_events_query \<Rightarrow> handle_invocation_events_query
      | _ \<Rightarrow> others h)"

definition other_handlers :: "handler_name set" where
  "other_handlers = {H_catalog, H_providers, H_provider_test, H_provider, H_provider_action, H_settings_database,
     H_settings_database_test, H_health, H_session, H_recent_events, H_window, H_dependencies, H_shutdown, H_bootstrap,
     H_system_snapshot, H_usage, H_workloads, H_workload, H_workload_action}"

definition serve ::
  "(string \<Rightarrow> parsed) \<Rightarrow> static_fs \<Rightarrow> fs_path \<Rightarrow> api_env \<Rightarrow> (handler_name \<Rightarrow> ('w, 'k) api_handler) \<Rightarrow> request \<Rightarrow>
     ('w, 'k) runtime \<Rightarrow> answer reply \<times> ('w, 'k) runtime" where
  "serve parse fs site E others rq R = dispatch parse fs site route_table (api_handler_of E others) rq R"

end
