(* ===== verification/Exec_Graph.thy ===== *)
theory Exec_Graph
  imports Reachable
begin

text \<open>
  What no operation of the executor touches: the stored definitions and, once a run is started, its
  graph. A run has the graph of the definition it was started from for as long as it exists.
\<close>

section \<open>Statements that keep the program\<close>

definition same_program :: "wf_db \<Rightarrow> wf_db \<Rightarrow> bool" where
  "same_program a b \<longleftrightarrow> same_static a b \<and> db_definitions b = db_definitions a"

named_theorems programs "statements that keep the definitions and the graphs"

lemma same_program_refl [simp, programs]: "same_program db db"
  by (simp add: same_program_def)

lemma same_program_trans: "same_program a b \<Longrightarrow> same_program b c \<Longrightarrow> same_program a c"
  using same_static_trans by (auto simp: same_program_def)

lemma statement_program [programs]:
  "same_program a db \<Longrightarrow> same_program a (post r ty m so p db)"
  "same_program a db \<Longrightarrow> same_program a (emit_step_state r s st e db)"
  "same_program a db \<Longrightarrow> same_program a (persist_step_state r s st out err b c db)"
  "same_program a db \<Longrightarrow> same_program a (reset_inflight_steps r db)"
  "same_program a db \<Longrightarrow> same_program a (set_run_state r rst b c db)"
  "same_program a db \<Longrightarrow> same_program a (mark_step r st s db)"
  "same_program a db \<Longrightarrow> same_program a (restart_step r s db)"
  by (simp_all add: same_program_def statics)
    (simp_all add: persist_step_state_def reset_inflight_steps_def set_run_state_def mark_step_def restart_step_def
      reset_step_def update_step_def update_run_def)

lemma fold_program: "(\<And>x db. same_program a db \<Longrightarrow> same_program a (f x db)) \<Longrightarrow> same_program a db \<Longrightarrow> same_program a (fold f xs db)"
  by (induction xs arbitrary: db) auto

lemma skip_dependent_definitions [simp]: "db_definitions (skip_dependent r s db) = db_definitions db"
  by (simp add: skip_dependent_def update_step_def)

lemma fold_definitions: "(\<And>x db. db_definitions (f x db) = db_definitions db) \<Longrightarrow> db_definitions (fold f xs db) = db_definitions db"
  by (induction xs arbitrary: db) auto

lemma enter_checkpoint_program: "enter_checkpoint r s ctx db = Inr db' \<Longrightarrow> same_program db db'"
  using enter_checkpoint_static[of r s ctx db db' db]
  by (auto simp: same_program_def enter_checkpoint_def Let_def update_step_def update_run_def split: option.splits)

lemma decide_approved_program: "decide_approved r s ed db = Inr db' \<Longrightarrow> same_program db db'"
  using decide_approved_static[of r s ed db db' db]
  by (auto simp: same_program_def decide_approved_def Let_def update_step_def rbind_Inr_iff)

lemma reject_program: "reject r s reason db = Inr (st, db') \<Longrightarrow> same_program db db'"
  using reject_static[of r s reason db st db' db]
  by (auto simp: same_program_def reject_def Let_def update_step_def update_run_def rbind_Inr_iff fold_definitions)

section \<open>Operations of the executor\<close>

definition keeps_program :: "exec \<Rightarrow> exec \<Rightarrow> bool" where
  "keeps_program S S' \<longleftrightarrow> same_program (ex_db S) (ex_db S')"

lemma keeps_refl [simp]: "keeps_program S S"
  by (simp add: keeps_program_def)

lemma keeps_trans: "keeps_program S S' \<Longrightarrow> keeps_program S' S'' \<Longrightarrow> keeps_program S S''"
  using same_program_trans by (auto simp: keeps_program_def)

lemma ctx_db [simp]:
  "ex_db (set_ctx r c S) = ex_db S" "ex_db (drop_ctx r S) = ex_db S" "ex_db (with_db f S) = f (ex_db S)"
  "ex_db (take_task t S) = ex_db S"
  by (simp_all add: set_ctx_def drop_ctx_def with_db_def take_task_def)

lemma checkpoint_step_program: "same_program a db \<Longrightarrow> same_program a (checkpoint_step r d s db)"
  using enter_checkpoint_program[of r s _ db]
  by (auto simp: checkpoint_step_def intro: same_program_trans split: option.split sum.split)

lemma dispatch_step_program: "keeps_program a S \<Longrightarrow> keeps_program a (dispatch_step r s S)"
  by (auto simp: keeps_program_def dispatch_step_def Let_def programs split: option.split)

lemma dispatch_ready_program: "keeps_program a S \<Longrightarrow> keeps_program a (dispatch_ready r c sts S)"
proof -
  have "keeps_program a S \<Longrightarrow> keeps_program a (fold (dispatch_step r) ss S)" for ss
    by (induction ss arbitrary: S) (auto intro: dispatch_step_program)
  then show "keeps_program a S \<Longrightarrow> keeps_program a (dispatch_ready r c sts S)" by (simp add: dispatch_ready_def)
qed

lemma pause_program: "keeps_program a (pause_if_waiting r sts S) = keeps_program a S"
  by (simp add: keeps_program_def pause_if_waiting_def split: option.split)

lemma schedule_program: "keeps_program S (schedule_ready cfg r S)"
proof (cases "live_ctx S r")
  case None
  then show ?thesis by (simp add: schedule_ready_def)
next
  case (Some c)
  define S1 where "S1 = with_db (fold (mark_step r SSkipped) (fst (skip_fix (cx_dag c) (load_step_states (ex_db S) r)))) S"
  define S2 where "S2 = (if cf_approvals cfg then with_db (enter_ready_checkpoints r (cx_dag c) (load_step_states (ex_db S1) r)) S1 else S1)"
  have k1: "keeps_program S S1" unfolding keeps_program_def S1_def by (auto intro!: fold_program programs)
  have "keeps_program S1 S2" unfolding keeps_program_def S2_def enter_ready_checkpoints_def
    by (auto intro!: fold_program checkpoint_step_program)
  then have k2: "keeps_program S (pause_if_waiting r sts (dispatch_ready r c sts S2))" for sts
    using k1 dispatch_ready_program keeps_trans by (auto simp: pause_program)
  have k3: "keeps_program S (finish r sts S1)" for sts
    using k1 by (auto simp: finish_def Let_def keeps_program_def programs)
  have "schedule_ready cfg r S = (let sts1 = load_step_states (ex_db S1) r in
      if list_all (\<lambda>(s, st). step_is_terminal st) sts1 then finish r sts1 S1
      else let sts2 = load_step_states (ex_db S2) r in pause_if_waiting r sts2 (dispatch_ready r c sts2 S2))"
    unfolding schedule_ready_def Some S1_def S2_def Let_def option.case by (rule refl)
  then show ?thesis using k2 k3 by (simp add: Let_def)
qed

lemma execute_program: "execute_run cfg r S = Inr (st, S') \<Longrightarrow> keeps_program S S'"
  by (auto simp: execute_run_def Let_def keeps_program_def programs split: option.splits if_splits)

lemma begin_program: "keeps_program S (begin_step r s i S)"
  by (simp add: begin_step_def Let_def keeps_program_def split: option.split)

lemma complete_program: "keeps_program S (on_step_complete r s res S)"
  by (auto simp: on_step_complete_def Let_def keeps_program_def programs split: option.split)

lemma abort_program: "keeps_program S (abort_run r s reason S)"
  by (auto simp: abort_run_def Let_def keeps_program_def intro!: fold_program programs split: option.split)

lemma job_program: "keeps_program S (record_step_job r s j S)"
  by (simp add: record_step_job_def keeps_program_def split: option.split)

lemma cancel_program: "cancel_run cfg r why S = Inr (st, S') \<Longrightarrow> keeps_program S S'"
  by (auto simp: cancel_run_def cancel_db_def Let_def keeps_program_def intro!: fold_program programs
      split: option.splits if_splits)

lemma retry_program: "retry_run cfg r S = Inr (st, S') \<Longrightarrow> keeps_program S S'"
proof -
  assume r: "retry_run cfg r S = Inr (st, S')"
  have k: "keeps_program S (with_db (retry_db r) S)"
    by (auto simp: keeps_program_def retry_db_def Let_def intro!: fold_program programs)
  have "execute_run cfg r (with_db (retry_db r) S) = Inr (st, S')"
    using r by (auto simp: retry_run_def split: option.splits if_splits)
  then show ?thesis using execute_program k keeps_trans by blast
qed

lemma approve_program: "keeps_program S (snd (approve cfg r s ed S))"
proof (cases "decide_approved r s ed (ex_db S)")
  case (Inr db')
  let ?S = "S\<lparr>ex_db := db'\<rparr>"
  have k: "keeps_program S ?S" using decide_approved_program[OF Inr] by (simp add: keeps_program_def)
  have "keeps_program S S2" if "execute_run cfg r ?S = Inr (st, S2)" for st S2
    using execute_program[OF that] k keeps_trans by blast
  then show ?thesis using k by (auto simp: approve_def Inr Let_def split: sum.split)
qed (simp add: approve_def)

lemma resume_program: "keeps_program S (resume_run cfg row S)"
proof -
  obtain r st where row: "row = (r, st)" by (cases row)
  have k: "keeps_program S (with_db (reset_inflight_steps r) S)" by (simp add: keeps_program_def programs)
  show ?thesis
    using k execute_program keeps_trans by (fastforce simp: resume_run_def row Let_def split: sum.split)
qed

lemma restart_program: "keeps_program S (snd (resume_pending_runs cfg (crash S)))"
proof -
  have "keeps_program S S' \<Longrightarrow> keeps_program S (fold (resume_run cfg) rows S')" for rows S'
    by (induction rows arbitrary: S') (auto dest: keeps_trans[OF _ resume_program])
  moreover have "keeps_program S (crash S)" by (simp add: crash_def keeps_program_def)
  ultimately show ?thesis by (simp add: resume_pending_runs_def Let_def)
qed

section \<open>Graphs of the runs\<close>

text \<open>Every stored definition is canonical and its graph has no cycle; neither has the graph of any run.\<close>

definition sound_definition :: "(string \<times> json) list \<Rightarrow> bool" where
  "sound_definition d \<longleftrightarrow> canonicalize d = Inr d \<and>
     (\<exists>g. dag_from_definition d = Some g \<and> acyclic (edge_rel g))"

definition programs_sound :: "exec \<Rightarrow> bool" where
  "programs_sound S \<longleftrightarrow> (\<forall>(i, d) \<in> set (db_definitions (ex_db S)). sound_definition d) \<and>
     (\<forall>r. acyclic (edge_rel (load_dag (ex_db S) r)))"

lemma keeps_sound: "keeps_program S S' \<Longrightarrow> programs_sound S \<Longrightarrow> programs_sound S'"
  using same_static_dag by (auto simp: keeps_program_def same_program_def programs_sound_def)

lemma same_nodes_graph: "nodes g = nodes h \<Longrightarrow> edge_rel g = edge_rel h"
  by (simp add: edge_rel_def predecessors_def node_deps_def flip: dag_ids_keys)

lemma start_sound:
  assumes ok: "exec_ok cfg u S" and uu: "uuid_ok u" and ps: "programs_sound S"
    and st: "start_run cfg u did ovr S = Inr (rid, S')"
  shows "programs_sound S'" "db_definitions (ex_db S') = db_definitions (ex_db S)"
proof -
  obtain d g where d: "load_definition did S = Inr d" "dag_from_definition d = Some g" "rid = u (ex_fresh S)"
    and S': "S' = S\<lparr>ex_db := post rid ''run.created'' ''workflow run created'' None
        [(''definition_id'', JStr did), (''state'', JStr (run_value RPending))]
        (insert_run rid did (resolve_limit cfg d ovr) g (ex_db S)), ex_fresh := Suc (ex_fresh S)\<rparr>"
    using start_run_Inr[OF st] by blast
  obtain e where e: "map_of (db_definitions (ex_db S)) did = Some e" "canonicalize e = Inr d"
    using d(1) by (auto simp: load_definition_def split: option.splits sum.splits)
  have "sound_definition e" using ps map_of_SomeD[OF e(1)] by (auto simp: programs_sound_def)
  then have ac: "acyclic (edge_rel g)" using e(2) d(2) by (auto simp: sound_definition_def)
  note L = load_insert_run[OF fresh_run(1)[OF ok uu] fresh_run(2)[OF ok uu] conjunct1[OF dag_from_definition_wf[OF d(2)]] refl,
      where did = did and lmt = "resolve_limit cfg d ovr"]
  have dag: "load_dag (post r ty m so p db) q = load_dag db q" for r ty m so p db q
    by (simp add: load_dag_def run_steps_def)
  have "acyclic (edge_rel (load_dag (ex_db S') q))" for q
  proof (cases "q = rid")
    case True
    have "edge_rel (load_dag (ex_db S') rid) = edge_rel g"
      using same_nodes_graph[OF L(4)] by (simp add: S' dag d(3))
    then show ?thesis using ac True by simp
  next
    case False
    then have "load_dag (ex_db S') q = load_dag (ex_db S) q" using L(3)[of q] d(3) by (simp add: S' dag)
    then show ?thesis using ps by (simp add: programs_sound_def)
  qed
  moreover show defs: "db_definitions (ex_db S') = db_definitions (ex_db S)" by (simp add: S' insert_run_def)
  ultimately show "programs_sound S'" using ps by (simp add: programs_sound_def)
qed

lemma save_sound:
  assumes "programs_sound S" "sound_definition d"
  shows "programs_sound (save_definition i d S)"
proof -
  have "set (dict_set i d t) \<subseteq> insert (i, d) (set t)" for t :: "(string, (string \<times> json) list) dict"
    by (induction t) auto
  then show ?thesis using assms
    by (auto simp: programs_sound_def save_definition_def load_dag_def run_steps_def) blast+
qed

text \<open>A step of the executor itself stores no definition.\<close>

lemma step_sound:
  assumes ok: "exec_ok cfg u S" and uu: "uuid_ok u" and ps: "programs_sound S" and st: "exec_step cfg u S S'"
    and defs: "db_definitions (ex_db S') = db_definitions (ex_db S)"
  shows "programs_sound S'"
  using st
proof cases
  case (start did ovr rid)
  then show ?thesis using start_sound(1)[OF ok uu ps] by blast
next
  case (execute r st)
  then show ?thesis using execute_program keeps_sound ps by blast
next
  case (reschedule r)
  have "keeps_program S (take_task (Reschedule r) S)" by (simp add: keeps_program_def)
  then show ?thesis using schedule_program keeps_trans keeps_sound ps reschedule(1) by metis
next
  case (begin_task r s inp)
  then show ?thesis using begin_program keeps_sound ps by blast
next
  case (complete r s n inp res)
  have "keeps_program S (take_task (Running r s n inp) S)" by (simp add: keeps_program_def)
  then show ?thesis using complete_program keeps_trans keeps_sound ps complete(1) by metis
next
  case (stop r s n inp reason)
  have "keeps_program S (take_task (Running r s n inp) S)" by (simp add: keeps_program_def)
  then show ?thesis using abort_program keeps_trans keeps_sound ps stop(1) by metis
next
  case (job r s j)
  then show ?thesis using job_program keeps_sound ps by blast
next
  case (cancel r why st)
  then show ?thesis using cancel_program keeps_sound ps by blast
next
  case (retry r st)
  then show ?thesis using retry_program keeps_sound ps by blast
next
  case (approval r s ed)
  then show ?thesis using approve_program keeps_sound ps by blast
next
  case (rejection r s reason st db')
  then have "keeps_program S S'" using reject_program by (simp add: keeps_program_def)
  then show ?thesis using keeps_sound ps by blast
next
  case restart
  then show ?thesis using restart_program keeps_sound ps by blast
next
  case (clock now)
  then show ?thesis using ps by (simp add: programs_sound_def set_clock_def load_dag_def run_steps_def)
next
  case (save did d)
  then show ?thesis using defs ps by (simp add: programs_sound_def save_definition_def load_dag_def run_steps_def)
qed

end
