(* ===== verification/Api_Facts.thy ===== *)
theory Api_Facts
  imports Api_Handlers Exec_Graph Sched_Exec Inv_Facts
begin

text \<open>
  The control plane as a whole: requests, the threads of the executor, the trigger loop of the
  scheduler and restarts, in any order. What every state keeps: the tables of each component are
  well formed, no stored definition and no run has a cyclic graph.
\<close>

section \<open>What every state keeps\<close>

definition tables_ok :: "api_env \<Rightarrow> ('w, 'k) runtime \<Rightarrow> bool" where
  "tables_ok E R \<longleftrightarrow> dict_ok (cp_meta R) \<and> set (map fst (cp_meta R)) = set (map fst (db_definitions (ex_db (cp_exec R)))) \<and>
     tasks_ok (cp_tasks R) \<and> store_ok (ae_mem E) (cp_memory R) \<and> dict_ok (cp_mcp R) \<and> checkpoints_ok (cp_checkpoints R) \<and>
     agent_store_ok (\<lambda>_. True) (cp_agents R)"

definition runtime_ok :: "api_env \<Rightarrow> ('w, 'k) runtime \<Rightarrow> bool" where
  "runtime_ok E R \<longleftrightarrow> reachable (ae_cfg E) (ae_uuid E) (cp_exec R) \<and> programs_sound (cp_exec R) \<and> tables_ok E R"

text \<open>What a request finds: a fresh identifier, the time and the providers there are, which come and go.\<close>

definition request_env :: "api_env \<Rightarrow> string \<Rightarrow> moment \<Rightarrow> (string \<Rightarrow> provider_info option) \<Rightarrow> api_env" where
  "request_env E i t p = E\<lparr>ae_id := i, ae_clock := t, ae_providers := p\<rparr>"

lemma request_env_simps [simp]:
  "ae_cfg (request_env E i t p) = ae_cfg E" "ae_uuid (request_env E i t p) = ae_uuid E"
  "tables_ok (request_env E i t p) R = tables_ok E R" "runtime_ok (request_env E i t p) R = runtime_ok E R"
  by (simp_all add: request_env_def tables_ok_def runtime_ok_def)

section \<open>The executor behind the accessors\<close>

definition exec_sound :: "api_env \<Rightarrow> exec \<Rightarrow> bool" where
  "exec_sound E S \<longleftrightarrow> reachable (ae_cfg E) (ae_uuid E) S \<and> programs_sound S"

definition same_defs :: "exec \<Rightarrow> exec \<Rightarrow> bool" where
  "same_defs S S' \<longleftrightarrow> db_definitions (ex_db S') = db_definitions (ex_db S)"

lemma keeps_defs: "keeps_program S S' \<Longrightarrow> same_defs S S'"
  by (simp add: keeps_program_def same_program_def same_defs_def)

lemma step_keeps:
  assumes "exec_sound E S" "exec_step (ae_cfg E) (ae_uuid E) S S'" "keeps_program S S'"
  shows "exec_sound E S' \<and> same_defs S S'"
  using assms reachable_step keeps_sound keeps_defs unfolding exec_sound_def by blast

lemma drive_sound:
  assumes "exec_sound E S" "run_is_terminal st \<or> Reschedule r \<in> set (ex_tasks S)"
  shows "exec_sound E (drive (ae_cfg E) r (st, S)) \<and> same_defs S (drive (ae_cfg E) r (st, S))"
proof (cases "run_is_terminal st")
  case False
  have "keeps_program S (take_task (Reschedule r) S)" by (simp add: keeps_program_def)
  then have "keeps_program S (schedule_ready (ae_cfg E) r (take_task (Reschedule r) S))"
    using schedule_program keeps_trans by blast
  then show ?thesis using step_keeps[OF assms(1) exec_step.reschedule] assms(2) False by (simp add: drive_def)
qed (use assms in \<open>simp add: drive_def same_defs_def\<close>)

lemma execute_reschedules:
  "execute_run cfg r S = Inr (st, S') \<Longrightarrow> run_is_terminal st \<or> Reschedule r \<in> set (ex_tasks S')"
  by (auto simp: execute_run_def Let_def split: option.splits if_splits)

lemma same_defs_trans: "same_defs a b \<Longrightarrow> same_defs b c \<Longrightarrow> same_defs a c"
  by (simp add: same_defs_def)

lemma begin_run_sound:
  assumes "exec_sound E S"
  shows "exec_sound E (begin_run (ae_cfg E) r S) \<and> same_defs S (begin_run (ae_cfg E) r S)"
proof (cases "execute_run (ae_cfg E) r S")
  case (Inr p)
  obtain st S1 where p: "p = (st, S1)" by (cases p)
  note e = step_keeps[OF assms exec_step.execute[OF Inr[unfolded p]] execute_program[OF Inr[unfolded p]]]
  show ?thesis
    using drive_sound[OF conjunct1[OF e] execute_reschedules[OF Inr[unfolded p]]] e same_defs_trans
    by (simp add: begin_run_def Inr p) blast
qed (use assms in \<open>simp add: begin_run_def same_defs_def\<close>)

lemma start_keeps:
  assumes uu: "uuid_ok (ae_uuid E)" and ok: "exec_sound E S"
    and st: "start_run (ae_cfg E) (ae_uuid E) did ovr S = Inr (r, S')"
  shows "exec_sound E S' \<and> same_defs S S'"
  using start_sound[OF reachable_ok uu _ st] ok exec_step.start[OF st] uu reachable_step
  unfolding exec_sound_def same_defs_def by blast

text \<open>\<open>R'\<close> differs from \<open>R\<close> in its executor, which keeps the definitions.\<close>

lemma with_exec_ok:
  "runtime_ok E R \<Longrightarrow> exec_sound E S \<Longrightarrow> same_defs (cp_exec R) S \<Longrightarrow> runtime_ok E (with_exec S R)"
  by (simp add: runtime_ok_def exec_sound_def tables_ok_def with_exec_def same_defs_def)

lemma runtime_exec: "runtime_ok E R \<Longrightarrow> exec_sound E (cp_exec R)"
  by (simp add: runtime_ok_def exec_sound_def)

section \<open>Accessors\<close>

lemma start_workflow_run_ok:
  assumes "uuid_ok (ae_uuid E)" "runtime_ok E R"
  shows "runtime_ok E (snd (start_workflow_run E i body R))"
proof -
  have "runtime_ok E (with_exec (begin_run (ae_cfg E) r S) R)"
    if "start_run (ae_cfg E) (ae_uuid E) i ovr (cp_exec R) = Inr (r, S)" for ovr r S
  proof -
    note s = start_keeps[OF assms(1) runtime_exec[OF assms(2)] that]
    show ?thesis using begin_run_sound[OF conjunct1[OF s], of r] s same_defs_trans with_exec_ok[OF assms(2)] by blast
  qed
  then show ?thesis using assms(2) by (auto simp: start_workflow_run_def Let_def split: sum.split prod.split)
qed

lemma cancel_workflow_run_ok:
  assumes "runtime_ok E R"
  shows "runtime_ok E (snd (cancel_workflow_run E r R))"
proof -
  have "runtime_ok E (with_exec S R)" if "cancel_run (ae_cfg E) r None (cp_exec R) = Inr (st, S)" for st S
    using step_keeps[OF runtime_exec[OF assms] exec_step.cancel[OF that] cancel_program[OF that]] with_exec_ok[OF assms] by blast
  then show ?thesis using assms by (auto simp: cancel_workflow_run_def split: sum.split prod.split)
qed

lemma retry_reschedules:
  "retry_run cfg r S = Inr (st, S') \<Longrightarrow> run_is_terminal st \<or> Reschedule r \<in> set (ex_tasks S')"
  using execute_reschedules by (auto simp: retry_run_def split: option.splits if_splits)

lemma retry_workflow_run_ok:
  assumes "runtime_ok E R"
  shows "runtime_ok E (snd (retry_workflow_run E r R))"
proof -
  have "runtime_ok E (with_exec (drive (ae_cfg E) r (st, S)) R)" if "retry_run (ae_cfg E) r (cp_exec R) = Inr (st, S)" for st S
  proof -
    note s = step_keeps[OF runtime_exec[OF assms] exec_step.retry[OF that] retry_program[OF that]]
    show ?thesis
      using drive_sound[OF conjunct1[OF s] retry_reschedules[OF that]] s same_defs_trans with_exec_ok[OF assms] by blast
  qed
  then show ?thesis using assms by (auto simp: retry_workflow_run_def Let_def split: sum.split)
qed

lemma approve_reschedules:
  assumes "approve cfg r s ed S = (None, S')" "run_st (ex_db S') r = Some st"
  shows "run_is_terminal st \<or> Reschedule r \<in> set (ex_tasks S')"
proof -
  obtain db' rs where e: "execute_run cfg r (S\<lparr>ex_db := db'\<rparr>) = Inr (rs, S')"
    using assms(1) by (auto simp: approve_def Let_def split: sum.splits)
  show ?thesis
  proof (cases "run_is_terminal rs")
    case True
    then have "run_st (ex_db S') r = Some rs"
      using e by (auto simp: execute_run_def run_st_def Let_def split: option.splits if_splits)
    then show ?thesis using True assms(2) by simp
  qed (use execute_reschedules[OF e] in simp)
qed

lemma approve_checkpoint_ok:
  assumes "runtime_ok E R"
  shows "runtime_ok E (snd (approve_checkpoint E r s edits R))"
proof -
  obtain x S where a: "approve (ae_cfg E) r s edits (cp_exec R) = (x, S)" by force
  have k: "exec_sound E S \<and> same_defs (cp_exec R) S"
    using step_keeps[OF runtime_exec[OF assms] exec_step.approval approve_program, of r s edits] by (simp add: a)
  have "runtime_ok E (with_exec (drive (ae_cfg E) r (st, S)) R)" if "x = None" "run_st (ex_db S) r = Some st" for st
    using drive_sound[OF conjunct1[OF k] approve_reschedules[OF a[unfolded that(1)] that(2)]] k same_defs_trans
      with_exec_ok[OF assms] by blast
  then show ?thesis using k with_exec_ok[OF assms] by (auto simp: approve_checkpoint_def a Let_def split: option.split)
qed

lemma reject_checkpoint_ok:
  assumes "runtime_ok E R"
  shows "runtime_ok E (snd (reject_checkpoint r s reason R))"
proof -
  have "runtime_ok E (with_exec ((cp_exec R)\<lparr>ex_db := db\<rparr>) R)" if "reject r s reason (ex_db (cp_exec R)) = Inr (st, db)" for st db
    using step_keeps[OF runtime_exec[OF assms] exec_step.rejection[OF that]] reject_program[OF that] with_exec_ok[OF assms]
    by (simp add: keeps_program_def)
  then show ?thesis using assms by (auto simp: reject_checkpoint_def Let_def split: sum.split prod.split)
qed

lemma persist_workflow_ok:
  assumes ok: "runtime_ok E R" and c: "compile_or_raise d R = Inr ()" and p: "persist_workflow E d R = Inr (j, R')"
  shows "runtime_ok E R'"
proof -
  obtain g where g: "build_dag (resolver_of R) (JObj d) = Inr g" using c by (auto simp: compile_or_raise_def split: sum.splits)
  obtain s where s: "canonicalize d = Inr s" "\<not> dict_has (cp_meta R) (ae_id E)"
    "R' = R\<lparr>cp_exec := save_definition (ae_id E) s (cp_exec R),
       cp_meta := cp_meta R @ [(ae_id E, new_meta s (db_now (ex_db (cp_exec R))))]\<rparr>"
    using p by (auto simp: persist_workflow_def rbind_Inr_iff fails_Inr_iff Let_def canonicalize_idem split: if_splits)
  obtain g' where "dag_from_definition s = Some g'" "list_all2 same_node (nodes g) (nodes g')" "dag_ids g' = dag_ids g"
    "edge_rel g' = edge_rel g" "acyclic (edge_rel g)"
    by (rule planned_definition[OF g s(1)])
  then have "sound_definition s" using canonicalize_idem[OF s(1)] by (auto simp: sound_definition_def)
  then have "programs_sound (cp_exec R')" using save_sound ok s(3) by (simp add: runtime_ok_def)
  moreover have "reachable (ae_cfg E) (ae_uuid E) (cp_exec R')"
    using ok reachable_step exec_step.save s(3) unfolding runtime_ok_def by fastforce
  moreover have "tables_ok E R'"
  proof -
    have keys: "set (map fst (dict_set k v t)) = insert k (set (map fst t))" for k and v :: "(string \<times> json) list" and t
      by (induction t) auto
    have new: "ae_id E \<notin> set (map fst (cp_meta R))" using s(2) unfolding dict_has_iff .
    have t: "tables_ok E R" using ok by (simp add: runtime_ok_def)
    have "dict_ok (cp_meta R')" using t new by (simp add: s(3) tables_ok_def)
    moreover have "set (map fst (cp_meta R')) = insert (ae_id E) (set (map fst (cp_meta R)))" by (simp add: s(3))
    moreover have "set (map fst (db_definitions (ex_db (cp_exec R')))) =
        insert (ae_id E) (set (map fst (db_definitions (ex_db (cp_exec R)))))"
      by (simp add: s(3) save_definition_def keys del: set_map)
    moreover have "set (map fst (cp_meta R)) = set (map fst (db_definitions (ex_db (cp_exec R))))"
      using t unfolding tables_ok_def by blast
    ultimately have "dict_ok (cp_meta R')" "set (map fst (cp_meta R')) = set (map fst (db_definitions (ex_db (cp_exec R'))))"
      by simp_all
    moreover have "cp_tasks R' = cp_tasks R" "cp_memory R' = cp_memory R" "cp_mcp R' = cp_mcp R"
      "cp_checkpoints R' = cp_checkpoints R" "cp_agents R' = cp_agents R" by (simp_all add: s(3))
    ultimately show ?thesis using t by (simp only: tables_ok_def simp_thms)
  qed
  ultimately show ?thesis by (simp add: runtime_ok_def)
qed

lemma create_workflow_ok: "runtime_ok E R \<Longrightarrow> create_workflow E body R = Inr (j, R') \<Longrightarrow> runtime_ok E R'"
  using persist_workflow_ok by (auto simp: create_workflow_def rbind_Inr_iff)

lemma instantiate_ok:
  "runtime_ok E R \<Longrightarrow> instantiate_workflow_template E i body R = Inr (j, R') \<Longrightarrow> runtime_ok E R'"
  using persist_workflow_ok by (auto simp: instantiate_workflow_template_def Let_def rbind_Inr_iff split: option.splits)

text \<open>The other components have their own tables.\<close>

lemma tasks_table_ok: "runtime_ok E R \<Longrightarrow> tasks_ok ts \<Longrightarrow> runtime_ok E (R\<lparr>cp_tasks := ts\<rparr>)"
  by (simp add: runtime_ok_def tables_ok_def)

lemma memory_table_ok: "runtime_ok E R \<Longrightarrow> store_ok (ae_mem E) rows \<Longrightarrow> runtime_ok E (R\<lparr>cp_memory := rows\<rparr>)"
  by (simp add: runtime_ok_def tables_ok_def)

lemma runtime_tables:
  "runtime_ok E R \<Longrightarrow> tasks_ok (cp_tasks R)" "runtime_ok E R \<Longrightarrow> store_ok (ae_mem E) (cp_memory R)"
  "runtime_ok E R \<Longrightarrow> dict_ok (cp_mcp R)"
  by (simp_all add: runtime_ok_def tables_ok_def)

lemma create_task_api_ok:
  "runtime_ok E R \<Longrightarrow> create_scheduled_task E d cron st R = Inr (j, R') \<Longrightarrow> runtime_ok E R'"
  unfolding create_scheduled_task_def rbind_Inr_iff fails_Inr_iff
  using tasks_table_ok create_task_ok runtime_tables(1) by blast

lemma pause_task_api_ok:
  "runtime_ok E R \<Longrightarrow> pause_scheduled_task E i R = Inr (j, R') \<Longrightarrow> runtime_ok E R'"
  unfolding pause_scheduled_task_def pause_task_def rbind_Inr_iff fails_Inr_iff
  using tasks_table_ok set_task_state_ok[of "cp_tasks R" i state_paused] runtime_tables(1) by blast

lemma resume_task_api_ok:
  "runtime_ok E R \<Longrightarrow> resume_scheduled_task E i R = Inr (j, R') \<Longrightarrow> runtime_ok E R'"
  unfolding resume_scheduled_task_def resume_task_def rbind_Inr_iff fails_Inr_iff
  using tasks_table_ok set_task_state_ok[of "cp_tasks R" i state_active] runtime_tables(1) by blast

lemma record_memory_ok:
  assumes "runtime_ok E R"
  shows "runtime_ok E (snd (record_memory_entry E content cat R))"
proof -
  obtain res rows where r: "record_entry (ae_mem E) content (case cat of None \<Rightarrow> default_category | Some c \<Rightarrow> c) (ae_id E)
      (db_now (ex_db (cp_exec R))) (cp_memory R) = (res, rows)" by force
  have "store_ok (ae_mem E) rows" using record_ok[OF runtime_tables(2)[OF assms] r] .
  then show ?thesis using memory_table_ok[OF assms] by (simp add: record_memory_entry_def r)
qed

lemma delete_memory_ok:
  "runtime_ok E R \<Longrightarrow> delete_memory_entry i R = Inr (j, R') \<Longrightarrow> runtime_ok E R'"
  unfolding delete_memory_entry_def rbind_Inr_iff fails_Inr_iff
  using memory_table_ok delete_ok runtime_tables(2) by blast

lemma rollback_ok: "runtime_ok E R \<Longrightarrow> runtime_ok E (snd (rollback_checkpoint i R))"
  by (simp add: rollback_checkpoint_def runtime_ok_def tables_ok_def split: prod.split)

lemma scope_ok: "runtime_ok E (set_scope_toolset ts sc on R) = runtime_ok E R"
  by (simp add: set_scope_toolset_def runtime_ok_def tables_ok_def)

lemma set_tool_ok: "runtime_ok E R \<Longrightarrow> set_tool_enabled n sc on R = Inr (j, R') \<Longrightarrow> runtime_ok E R'"
  by (auto simp: set_tool_enabled_def Let_def scope_ok split: option.splits)

lemma set_toolset_ok: "runtime_ok E R \<Longrightarrow> set_toolset_enabled n sc on R = Inr (j, R') \<Longrightarrow> runtime_ok E R'"
  by (auto simp: set_toolset_enabled_def Let_def scope_ok split: option.splits)

lemma mcp_table_ok: "runtime_ok E R \<Longrightarrow> dict_ok t \<Longrightarrow> runtime_ok E (R\<lparr>cp_mcp := t\<rparr>)"
  by (simp add: runtime_ok_def tables_ok_def)

lemma configure_mcp_ok:
  assumes "runtime_ok E R" "configure_mcp_server E c R = Inr (j, R')"
  shows "runtime_ok E R'"
proof -
  obtain k row where "R' = R\<lparr>cp_mcp := dict_set k row (cp_mcp R)\<rparr>"
    using assms(2) by (auto simp: configure_mcp_server_def Let_def rbind_Inr_iff split: if_splits)
  then show ?thesis using mcp_table_ok[OF assms(1)] runtime_tables(3)[OF assms(1)] by auto
qed

lemma remove_mcp_ok:
  assumes "runtime_ok E R" "remove_mcp_server i R = Inr (j, R')"
  shows "runtime_ok E R'"
proof -
  have "R' = R\<lparr>cp_mcp := dict_del i (cp_mcp R)\<rparr>" using assms(2) by (auto simp: remove_mcp_server_def split: if_splits)
  then show ?thesis using mcp_table_ok[OF assms(1) dict_del_ok[OF runtime_tables(3)[OF assms(1)]]] by simp
qed

lemma agents_table_ok:
  "runtime_ok E R \<Longrightarrow> agent_store_ok (\<lambda>_. True) db \<Longrightarrow> runtime_ok E (R\<lparr>cp_agents := db\<rparr>)"
  by (simp add: runtime_ok_def tables_ok_def)

lemma runtime_agents: "runtime_ok E R \<Longrightarrow> agent_store_ok (\<lambda>_. True) (cp_agents R)"
  by (simp add: runtime_ok_def tables_ok_def)

text \<open>Which providers there are decides only whether an agent is saved.\<close>

lemma normalize_any_provider:
  assumes "normalize_agent fl rd p aid fresh payload = Inr n"
  shows "normalize_agent fl rd (\<lambda>_. True) aid fresh payload = Inr n"
  using assms unfolding normalize_agent_def rbind_Inr_iff require_that_Inr by blast

lemma save_agent_keeps:
  assumes "save_agent fl rd prov aid fresh payload db = Inr (a, db')" "agent_store_ok (\<lambda>_. True) db"
  shows "agent_store_ok (\<lambda>_. True) db'"
proof -
  define every :: "string \<Rightarrow> provider_info option" where "every = (\<lambda>_. Some undefined)"
  have e: "(\<lambda>p. every p \<noteq> None) = (\<lambda>_. True)" by (simp add: every_def)
  obtain n where "normalize_agent fl rd (\<lambda>p. prov p \<noteq> None) aid fresh payload = Inr n"
    using assms(1) by (auto simp: save_agent_def rbind_Inr_iff)
  note normalize_any_provider[OF this] this
  then have "save_agent fl rd every aid fresh payload db = Inr (a, db')"
    using assms(1) unfolding save_agent_def e by simp
  from save_agent_Inr[OF this] assms(2) show ?thesis unfolding e by blast
qed

lemma save_agent_api_ok:
  assumes "runtime_ok E R" "save_agent_api E payload aid R = Inr (j, R')"
  shows "runtime_ok E R'"
proof -
  obtain a db where "save_agent (ae_float E) (ae_read E) (ae_providers E) aid (ae_id E) payload (cp_agents R) = Inr (a, db)"
    "R' = R\<lparr>cp_agents := db\<rparr>" using assms(2) by (auto simp: save_agent_api_def rbind_Inr_iff)
  then show ?thesis using save_agent_keeps runtime_agents[OF assms(1)] agents_table_ok[OF assms(1)] by blast
qed

lemma agent_store_del: "agent_store_ok P db \<Longrightarrow> agent_store_ok P (delete_agent i db)"
  by (auto simp: agent_store_ok_def delete_agent_def get_agent_def dict_simps)

lemma delete_agent_api_ok: "runtime_ok E R \<Longrightarrow> runtime_ok E (delete_agent_api i R)"
  using agents_table_ok runtime_agents agent_store_del by (fastforce simp: delete_agent_api_def)

lemma agent_store_same: "ad_agents db' = ad_agents db \<Longrightarrow> agent_store_ok P db' = agent_store_ok P db"
  by (simp add: agent_store_ok_def get_agent_def)

lemma invoke_agent_rows: "invoke_agent fl ck prov i a payload db = Inr (iv, job, db') \<Longrightarrow> ad_agents db' = ad_agents db"
  by (drule queued_job) auto

lemma invoke_agent_api_ok:
  assumes "runtime_ok E R" "invoke_agent_api E i payload R = Inr (j, R')"
  shows "runtime_ok E R'"
proof -
  obtain iv job db where i: "invoke_agent (ae_float E) (ae_elapsed E) (ae_providers E) (ae_id E) i payload (cp_agents R) = Inr (iv, job, db)"
    "R' = R\<lparr>cp_agents := db, cp_jobs := cp_jobs R @ [job]\<rparr>" using assms(2) by (auto simp: invoke_agent_api_def rbind_Inr_iff)
  have "agent_store_ok (\<lambda>_. True) db"
    using runtime_agents[OF assms(1)] agent_store_same[OF invoke_agent_rows[OF i(1)]] by simp
  then show ?thesis using assms(1) by (simp add: i(2) runtime_ok_def tables_ok_def)
qed

section \<open>Handlers\<close>

named_theorems answers "an answer keeps a well-formed state"

lemma attempt_ok [answers]:
  "runtime_ok E R \<Longrightarrow> (\<And>x. r = Inr x \<Longrightarrow> runtime_ok E (snd (k x))) \<Longrightarrow> runtime_ok E (snd (attempt r R k))"
  by (cases r) simp_all

lemma answer_ok [answers]:
  "runtime_ok E R \<Longrightarrow> runtime_ok E (snd (report st f r R))"
  "runtime_ok E R \<Longrightarrow> runtime_ok E (snd (refuse rq ms R))"
  "runtime_ok E R \<Longrightarrow> runtime_ok E (snd (key_error m R))"
  "runtime_ok E R \<Longrightarrow> runtime_ok E (snd (x, R))"
  "runtime_ok E (snd q) \<Longrightarrow> runtime_ok E (snd (effect st f' q))"
  by (simp_all add: report_def refuse_def key_error_def effect_def)

lemma commit_ok [answers]:
  "runtime_ok E R \<Longrightarrow> (\<And>j R'. r = Inr (j, R') \<Longrightarrow> runtime_ok E R') \<Longrightarrow> runtime_ok E (snd (commit st f r R))"
  by (auto simp: commit_def split: sum.split)

lemma branch_ok [answers]:
  "(b \<Longrightarrow> runtime_ok E (snd x)) \<Longrightarrow> (\<not> b \<Longrightarrow> runtime_ok E (snd y)) \<Longrightarrow> runtime_ok E (snd (if b then x else y))"
  "(z = None \<Longrightarrow> runtime_ok E (snd x)) \<Longrightarrow> (\<And>v. z = Some v \<Longrightarrow> runtime_ok E (snd (f v))) \<Longrightarrow>
    runtime_ok E (snd (case z of None \<Rightarrow> x | Some v \<Rightarrow> f v))"
  by (auto split: option.split)

lemma workflow_handlers_ok:
  assumes "uuid_ok (ae_uuid E)" "runtime_ok E R"
  shows "runtime_ok E (snd (handle_workflow_validate rq body R))" "runtime_ok E (snd (handle_workflow_templates rq body R))"
    "runtime_ok E (snd (handle_workflow_template E rq body R))" "runtime_ok E (snd (handle_workflows E rq body R))"
    "runtime_ok E (snd (handle_workflow E rq body R))" "runtime_ok E (snd (handle_workflow_action E rq body R))"
    "runtime_ok E (snd (handle_run E rq body R))" "runtime_ok E (snd (handle_run_action E rq body R))"
    "runtime_ok E (snd (handle_run_approvals E rq body R))" "runtime_ok E (snd (handle_approval_decision E rq body R))"
  unfolding handle_workflow_validate_def handle_workflow_templates_def handle_workflow_template_def
    handle_workflows_def handle_workflow_def handle_workflow_action_def handle_run_def handle_run_action_def
    handle_run_approvals_def handle_approval_decision_def
  by (intro answers start_workflow_run_ok cancel_workflow_run_ok retry_workflow_run_ok approve_checkpoint_ok
      reject_checkpoint_ok assms; erule create_workflow_ok[OF assms(2)] instantiate_ok[OF assms(2)])+

lemma table_handlers_ok:
  assumes "runtime_ok E R"
  shows "runtime_ok E (snd (handle_schedules E rq body R))" "runtime_ok E (snd (handle_schedule_action E rq body R))"
    "runtime_ok E (snd (handle_memory E rq body R))" "runtime_ok E (snd (handle_memory_entry E rq body R))"
    "runtime_ok E (snd (handle_run_checkpoints E rq body R))" "runtime_ok E (snd (handle_checkpoint_rollback E rq body R))"
    "runtime_ok E (snd (handle_tools rq body R))" "runtime_ok E (snd (handle_toolsets rq body R))"
    "runtime_ok E (snd (handle_tool_action E rq body R))" "runtime_ok E (snd (handle_toolset_action E rq body R))"
    "runtime_ok E (snd (handle_mcp_servers E rq body R))" "runtime_ok E (snd (handle_mcp_server E rq body R))"
    "runtime_ok E (snd (handle_mcp_server_action E rq body R))"
  unfolding handle_schedules_def handle_schedule_action_def handle_memory_def handle_memory_entry_def
    handle_run_checkpoints_def handle_checkpoint_rollback_def handle_tools_def handle_toolsets_def handle_tool_action_def
    handle_toolset_action_def handle_mcp_servers_def handle_mcp_server_def handle_mcp_server_action_def
  by (intro answers record_memory_ok rollback_ok assms; erule create_task_api_ok[OF assms] pause_task_api_ok[OF assms]
      resume_task_api_ok[OF assms] delete_memory_ok[OF assms] set_tool_ok[OF assms] set_toolset_ok[OF assms]
      configure_mcp_ok[OF assms] remove_mcp_ok[OF assms])+

lemma agent_handlers_ok:
  assumes "runtime_ok E R"
  shows "runtime_ok E (snd (handle_agent_templates E rq body R))" "runtime_ok E (snd (handle_agents E rq body R))"
    "runtime_ok E (snd (handle_agent_validate E rq body R))" "runtime_ok E (snd (handle_agent E rq body R))"
    "runtime_ok E (snd (handle_agent_action E rq body R))" "runtime_ok E (snd (handle_invocations E rq body R))"
    "runtime_ok E (snd (handle_invocation E rq body R))" "runtime_ok E (snd (handle_invocation_events E rq body R))"
    "runtime_ok E (snd (handle_invocation_events_query rq body R))"
  unfolding handle_agent_templates_def handle_agents_def handle_agent_validate_def
    handle_agent_def handle_agent_action_def handle_invocations_def handle_invocation_def handle_invocation_events_def
    handle_invocation_events_query_def events_answer_def
  by (intro answers delete_agent_api_ok assms; erule save_agent_api_ok[OF assms] invoke_agent_api_ok[OF assms])+

lemmas handlers_ok = workflow_handlers_ok table_handlers_ok agent_handlers_ok

lemma api_handler_ok:
  assumes "uuid_ok (ae_uuid E)" "runtime_ok E R" "h \<notin> other_handlers"
  shows "runtime_ok E (snd (api_handler_of E others h rq body R))"
  using assms(3) by (cases h) (simp_all add: api_handler_of_def other_handlers_def handlers_ok assms(1,2))

text \<open>A request that is routed to one of the modules that are not modelled.\<close>

definition elsewhere :: "request \<Rightarrow> bool" where
  "elsewhere rq = (case find_route route_table (rq_method rq) (rq_path rq) of Inl _ \<Rightarrow> False | Inr h \<Rightarrow> h \<in> other_handlers)"

lemma dispatch_state:
  "snd (dispatch parse fs site T run rq s) = s \<or>
     (\<exists>h body. find_route T (rq_method rq) (rq_path rq) = Inr h \<and> snd (dispatch parse fs site T run rq s) = snd (run h rq body s))"
proof (cases "api_path rq")
  case True
  obtain b where b: "(if rq_method rq \<in> {''POST'', ''PUT'', ''PATCH'', ''DELETE''} then read_json_body parse rq else Inr []) = b" by blast
  note d = dispatch_def[of parse fs site T run rq s, unfolded b if_P[OF True]]
  show ?thesis
  proof (cases b)
    case (Inr body)
    show ?thesis
    proof (cases "find_route T (rq_method rq) (rq_path rq)")
      case (Inr h)
      then have "snd (dispatch parse fs site T run rq s) = snd (run h rq body s)"
        using d \<open>b = Inr body\<close> by (simp split: prod.split sum.split)
      then show ?thesis using Inr by blast
    qed (use d Inr in simp)
  qed (use d in simp)
qed (simp add: dispatch_def split: sum.split)

lemma serve_ok:
  assumes "uuid_ok (ae_uuid E)" "runtime_ok E R" "\<not> elsewhere rq"
  shows "runtime_ok E (snd (serve parse fs site E others rq R))"
proof -
  have "runtime_ok E (snd (api_handler_of E others h rq body R))"
    if "find_route route_table (rq_method rq) (rq_path rq) = Inr h" for h body
    using assms(3) that by (intro api_handler_ok[OF assms(1,2)]) (simp add: elsewhere_def)
  then show ?thesis
    using dispatch_state[of parse fs site route_table "api_handler_of E others" rq R] assms(2) unfolding serve_def by metis
qed

section \<open>The control plane\<close>

text \<open>
  What happens: a request; a step of the executor other than storing a definition; a tick of the
  scheduler; a checkpoint; rows written by the thread of an invocation; the registration of the
  kernel; and a restart, which keeps the tables and loses what is in memory. The configuration and the
  catalog of tools stay; the providers may be others at each request.
\<close>

inductive runtime_step :: "api_env \<Rightarrow> ('w, 'k) runtime \<Rightarrow> ('w, 'k) runtime \<Rightarrow> bool" for E where
  request: "\<not> elsewhere rq \<Longrightarrow> serve parse fs site (request_env E i t p) others rq R = (rep, R') \<Longrightarrow> runtime_step E R R'"
| thread: "exec_step (ae_cfg E) (ae_uuid E) (cp_exec R) S \<Longrightarrow> same_defs (cp_exec R) S \<Longrightarrow> runtime_step E R (with_exec S R)"
| tick: "tick (start_task_run (ae_cfg E) (ae_uuid E)) now t (cp_tasks R) (cp_exec R) = st \<Longrightarrow>
    runtime_step E R (R\<lparr>cp_exec := tk_exec st, cp_tasks := tk_tasks st\<rparr>)"
| checkpoint: "snapshot_before_mutation (lazy_port (cp_port R)) r ws i now (cp_kernel R) (cp_checkpoints R) = (res, k, rows) \<Longrightarrow>
    runtime_step E R (R\<lparr>cp_kernel := k, cp_checkpoints := rows\<rparr>)"
| invocation: "ad_agents db = ad_agents (cp_agents R) \<Longrightarrow> runtime_step E R (R\<lparr>cp_agents := db\<rparr>)"
| kernel: "runtime_step E R (R\<lparr>cp_port := p\<rparr>)"
| reboot: "runtime_step E R (R\<lparr>cp_exec := snd (resume_pending_runs (ae_cfg E) (crash (cp_exec R))), cp_scopes := [],
    cp_templates := [], cp_jobs := [], cp_port := None\<rparr>)"

definition initial_runtime :: "'w registry \<Rightarrow> 'k \<Rightarrow> ('w, 'k) runtime" where
  "initial_runtime T k = \<lparr>cp_exec = initial_exec, cp_meta = [], cp_templates = [], cp_scopes = [], cp_mcp = [],
     cp_tools = T, cp_tasks = [], cp_memory = [], cp_checkpoints = [],
     cp_agents = \<lparr>ad_agents = [], ad_invocations = [], ad_events = [], ad_usage = [], ad_now = [], ad_reads = 0\<rparr>,
     cp_jobs = [], cp_kernel = k, cp_port = None\<rparr>"

inductive runtime_reachable :: "api_env \<Rightarrow> 'w registry \<Rightarrow> 'k \<Rightarrow> ('w, 'k) runtime \<Rightarrow> bool" for E T k where
  boot: "runtime_reachable E T k (initial_runtime T k)"
| goes_on: "runtime_reachable E T k R \<Longrightarrow> runtime_step E R R' \<Longrightarrow> runtime_reachable E T k R'"

lemma tick_rows_keep:
  assumes "\<And>S d r S'. P S \<Longrightarrow> start S d = Inr (r, S') \<Longrightarrow> P S'"
  shows "P (tk_exec st) \<Longrightarrow> P (tk_exec (tick_rows start now t rs st))"
proof (induction rs arbitrary: st)
  case (Cons r rs)
  show ?case using Cons.prems by (auto simp: Let_def split: sum.split intro!: Cons.IH dest: assms)
qed simp

lemma tick_keeps:
  assumes uu: "uuid_ok (ae_uuid E)" and ok: "exec_sound E S"
  shows "exec_sound E (tk_exec (tick (start_task_run (ae_cfg E) (ae_uuid E)) now t ts S)) \<and>
    same_defs S (tk_exec (tick (start_task_run (ae_cfg E) (ae_uuid E)) now t ts S))"
  unfolding tick_def
  by (rule tick_rows_keep[where P = "\<lambda>S'. exec_sound E S' \<and> same_defs S S'"])
    (use start_keeps[OF uu] same_defs_trans ok in \<open>auto simp: start_task_run_def same_defs_def\<close>)

lemma runtime_step_ok:
  assumes uu: "uuid_ok (ae_uuid E)" and ok: "runtime_ok E R" and st: "runtime_step E R R'"
  shows "runtime_ok E R'"
  using st
proof cases
  case (request rq parse fs site i t p others rep)
  then show ?thesis using serve_ok[of "request_env E i t p" R rq parse fs site others] uu ok by simp
next
  case (thread S)
  have "exec_sound E S" using runtime_exec[OF ok] step_sound[OF reachable_ok[OF _ uu] uu _ thread(2)] thread(2,3) reachable_step
    unfolding exec_sound_def same_defs_def by blast
  then show ?thesis using with_exec_ok[OF ok] thread by blast
next
  case (tick now t st)
  note ts = runtime_tables(1)[OF ok]
  have "tasks_ok (tk_tasks st)" unfolding tick(2)[symmetric] by (rule advanced_ok[OF tick_advanced[OF ts] ts])
  moreover have "exec_sound E (tk_exec st) \<and> same_defs (cp_exec R) (tk_exec st)"
    unfolding tick(2)[symmetric] by (rule tick_keeps[OF uu runtime_exec[OF ok]])
  ultimately show ?thesis using ok unfolding tick(1)
    by (simp add: runtime_ok_def tables_ok_def exec_sound_def same_defs_def)
next
  case (checkpoint r ws i now res k rows)
  have "checkpoints_ok rows" using snapshot_ok[OF _ checkpoint(2)] ok by (simp add: runtime_ok_def tables_ok_def)
  then show ?thesis using ok unfolding checkpoint(1) by (simp add: runtime_ok_def tables_ok_def)
next
  case (invocation db)
  then show ?thesis using agents_table_ok[OF ok] runtime_agents[OF ok] agent_store_same by blast
next
  case (kernel p)
  then show ?thesis using ok by (simp add: runtime_ok_def tables_ok_def)
next
  case reboot
  have "exec_sound E (snd (resume_pending_runs (ae_cfg E) (crash (cp_exec R)))) \<and>
      same_defs (cp_exec R) (snd (resume_pending_runs (ae_cfg E) (crash (cp_exec R))))"
    using step_keeps[OF runtime_exec[OF ok] exec_step.restart restart_program] .
  then show ?thesis using ok unfolding reboot
    by (simp add: runtime_ok_def tables_ok_def exec_sound_def same_defs_def)
qed

lemma initial_runtime_ok: "runtime_ok E (initial_runtime T k)"
proof -
  have "acyclic (edge_rel (load_dag (ex_db initial_exec) r))" for r
    by (simp add: initial_exec_def load_dag_def run_steps_def edge_rel_def predecessors_def node_deps_def acyclic_def dag_edges_def)
  then have "programs_sound initial_exec" by (simp add: programs_sound_def initial_exec_def)
  then show ?thesis using reachable_init[of "ae_cfg E" "ae_uuid E"]
    by (simp add: runtime_ok_def initial_runtime_def tables_ok_def tasks_ok_def store_ok_def checkpoints_ok_def
        agent_store_ok_def get_agent_def total_size_def initial_exec_def)
qed

lemma runtime_invariant: "uuid_ok (ae_uuid E) \<Longrightarrow> runtime_reachable E T k R \<Longrightarrow> runtime_ok E R"
  by (rotate_tac, induction rule: runtime_reachable.induct) (auto intro: initial_runtime_ok runtime_step_ok)

end
