(* ===== verification/Api_Answers.thy ===== *)
theory Api_Answers
  imports Api_Facts
begin

text \<open>
  What a client sees: the answers of the workflow routes, and of the routes whose component raises an
  exception of its own.
\<close>

section \<open>Routes with an argument\<close>

lemmas route_lists = all_routes_def approval_routes_def agent_routes_def checkpoint_routes_def invocation_routes_def
  mcp_routes_def memory_routes_def provider_routes_def schedule_routes_def settings_routes_def system_routes_def
  tool_routes_def workflow_routes_def workload_routes_def api_def

lemma argument_routes:
  "first_route route_table m (api [''workflows'']) = Some H_workflows"
  "first_route route_table m (api [''memory'', x]) = Some H_memory_entry"
  "first_route route_table m (api [''schedules'', x, y]) = Some H_schedule_action"
  "first_route route_table m (api [''checkpoints'', x, ''rollback'']) = Some H_checkpoint_rollback"
  "first_route route_table m (api [''mcp'', ''servers'', x, y]) = Some H_mcp_server_action"
  by (simp_all add: registry_map route_lists convert_seg_def)

text \<open>The runs of a workflow named \<open>templates\<close> are out of reach: the template route takes the path.\<close>

lemma run_route: "x \<noteq> ''templates'' \<Longrightarrow> first_route route_table m (api [''workflows'', x, ''runs'']) = Some H_workflow_action"
  by (simp add: registry_map route_lists convert_seg_def)

section \<open>A request that reaches its handler\<close>

definition asks :: "(string \<Rightarrow> parsed) \<Rightarrow> request \<Rightarrow> string \<Rightarrow> string list \<Rightarrow> obj \<Rightarrow> bool" where
  "asks parse rq m segs body \<longleftrightarrow> api_path rq \<and> rq_method rq = m \<and> split_segments (rq_path rq) = api segs \<and>
     (if m \<in> {''POST'', ''PUT'', ''PATCH'', ''DELETE''} then read_json_body parse rq else Inr []) = Inr body"

fun answered :: "(http_exc + answer) \<times> ('w, 'k) runtime \<Rightarrow> answer reply \<times> ('w, 'k) runtime" where
  "answered (Inl e, R) = (Failed (handle_exception e), R)"
| "answered (Inr r, R) = (Written r, R)"

lemma serve_asked:
  assumes "asks parse rq m segs body" "first_route route_table m (api segs) = Some h"
  shows "serve parse fs site E others rq R = answered (api_handler_of E others h rq body R)"
proof -
  obtain x R' where x: "api_handler_of E others h rq body R = (x, R')" by force
  show ?thesis using assms unfolding asks_def
    by (cases x) (simp_all add: serve_def dispatch_def find_route_def x)
qed

lemma asked_segment:
  assumes "asks parse rq m segs body"
  shows "1 < length segs \<Longrightarrow> segment rq 3 = Inr (segs ! 1)" "2 < length segs \<Longrightarrow> segment rq 4 = Inr (segs ! 2)"
    "3 < length segs \<Longrightarrow> segment rq 5 = Inr (segs ! 3)"
  using assms by (simp_all add: asks_def segment_def api_def numeral_nat)

lemma asked_method: "asks parse rq m segs body \<Longrightarrow> rq_method rq = m"
  by (simp add: asks_def)

definition internal_error :: error_reply where
  "internal_error = error_reply_of 500 ''Internal Server Error'' ''internal control-plane error'' None"

lemma internal_error_message: "er_message internal_error = generic_server_message" "er_status internal_error = 500"
  by (simp_all add: internal_error_def error_reply_of_def user_facing_def)

lemma other_is_internal: "handle_exception (Py (Other_error m)) = internal_error"
  by (simp add: internal_error_def)

section \<open>Creating a workflow\<close>

definition created_view :: "string \<Rightarrow> obj \<Rightarrow> string \<Rightarrow> json" where
  "created_view i c now = JObj [(''id'', JStr i), (''name'', JStr (text_or c ''name'' ''untitled'')),
     (''objective'', JStr (text_or c ''objective'' [])), (''definition'', JObj c), (''revision'', JInt 1),
     (''createdAt'', JStr now), (''updatedAt'', JStr now)]"

definition with_workflow :: "string \<Rightarrow> obj \<Rightarrow> ('w, 'k) runtime \<Rightarrow> ('w, 'k) runtime" where
  "with_workflow i c R = R\<lparr>cp_exec := save_definition i c (cp_exec R),
     cp_meta := cp_meta R @ [(i, new_meta c (db_now (ex_db (cp_exec R))))]\<rparr>"

lemma workflow_rows_get:
  "map_of (workflow_rows R) i = (case map_of (cp_meta R) i of None \<Rightarrow> None
     | Some m \<Rightarrow> map_option (Pair m) (map_of (db_definitions (ex_db (cp_exec R))) i))"
  if "dict_ok (cp_meta R)"
proof -
  have "map_of (concat (map (\<lambda>(i, m). case map_of T i of None \<Rightarrow> [] | Some d \<Rightarrow> [(i, m, d)]) M)) i =
      (case map_of M i of None \<Rightarrow> None | Some m \<Rightarrow> map_option (Pair m) (map_of T i))"
    if "dict_ok M" for M :: "(string, wf_meta) dict" and T :: "(string, obj) dict"
    using that
  proof (induction M)
    case (Cons p M)
    obtain k m where p: "p = (k, m)" by (cases p)
    have "map_of M k = None" using Cons.prems p by (simp add: map_of_eq_None_iff)
    then show ?case using Cons by (auto simp: p split: option.splits)
  qed simp
  then show ?thesis using that by (simp add: workflow_rows_def)
qed

lemma created_workflow:
  assumes "dict_ok (cp_meta R)" "\<not> dict_has (cp_meta R) i" "canonicalize c = Inr c"
  shows "get_workflow i (with_workflow i c R) = Inr (Some (created_view i c (db_now (ex_db (cp_exec R)))))"
proof -
  have "map_of (cp_meta R) i = None" using assms(2) by (simp add: dict_has_def)
  then have "map_of (workflow_rows (with_workflow i c R)) i = Some (new_meta c (db_now (ex_db (cp_exec R))), c)"
    using assms(1,2) by (subst workflow_rows_get)
      (simp_all add: with_workflow_def save_definition_def dict_simps map_add_def dict_has_iff)
  then show ?thesis by (simp add: get_workflow_def workflow_view_def assms(3) created_view_def new_meta_def)
qed

lemma create_workflow_cases:
  assumes "dict_ok (cp_meta R)" "\<not> dict_has (cp_meta R) (ae_id E)"
  shows "create_workflow E d R =
    (case build_dag (resolver_of R) (JObj d) of
       Inl e \<Rightarrow> Inl (py_error.Value_error (ve_message e))
     | Inr _ \<Rightarrow> (case canonicalize d of
         Inl e \<Rightarrow> Inl (serialization_py e)
       | Inr c \<Rightarrow> Inr (created_view (ae_id E) c (db_now (ex_db (cp_exec R))), with_workflow (ae_id E) c R)))"
proof -
  have "persist_workflow E d R = Inr (created_view (ae_id E) c (db_now (ex_db (cp_exec R))), with_workflow (ae_id E) c R)"
    if "canonicalize d = Inr c" for c
    using created_workflow[OF assms canonicalize_idem[OF that]] that canonicalize_idem[OF that] assms(2)
    by (simp add: persist_workflow_def with_workflow_def Let_def)
  then show ?thesis
    by (auto simp: create_workflow_def compile_or_raise_def persist_workflow_def split: sum.split)
qed

section \<open>Starting a run\<close>

lemma begin_run_keeps: "keeps_program S (begin_run cfg r S)"
proof (cases "execute_run cfg r S")
  case (Inr p)
  obtain st S1 where p: "p = (st, S1)" by (cases p)
  have "keeps_program S1 (take_task (Reschedule r) S1)" by (simp add: keeps_program_def)
  then have "keeps_program S1 (schedule_ready cfg r (take_task (Reschedule r) S1))" using schedule_program keeps_trans by blast
  then show ?thesis using execute_program[OF Inr[unfolded p]] keeps_trans by (auto simp: begin_run_def Inr p drive_def)
qed (simp add: begin_run_def)

lemma start_workflow_run_cases:
  assumes ok: "exec_ok (ae_cfg E) (ae_uuid E) (cp_exec R)" and uu: "uuid_ok (ae_uuid E)"
    and d: "load_definition i (cp_exec R) = Inr c" "dag_from_definition c = Some g" and l: "limit_override body = Inr ovr"
  defines "r \<equiv> ae_uuid E (ex_fresh (cp_exec R))"
  shows "\<exists>v S. start_workflow_run E i body R = (Inr (run_view_of r v), with_exec S R) \<and> load_run (ex_db (cp_exec R)) r = None \<and>
    load_run (ex_db S) r = Some v \<and> rr_definition v = i \<and> rr_limit v = resolve_limit (ae_cfg E) c ovr \<and>
    nodes (load_dag (ex_db S) r) = nodes g"
proof -
  define db1 where "db1 = insert_run r i (resolve_limit (ae_cfg E) c ovr) g (ex_db (cp_exec R))"
  obtain S1 where S1: "start_run (ae_cfg E) (ae_uuid E) i ovr (cp_exec R) = Inr (r, S1)"
    "ex_db S1 = post r ''run.created'' ''workflow run created'' None
      [(''definition_id'', JStr i), (''state'', JStr (run_value RPending))] db1"
    by (simp add: start_run_def d Let_def r_def db1_def)
  define S where "S = begin_run (ae_cfg E) r S1"
  note fresh = fresh_run[OF ok uu, folded r_def]
  note L = load_insert_run[OF fresh conjunct1[OF dag_from_definition_wf[OF d(2)]] db1_def]
  have st: "same_static (ex_db S1) (ex_db S)"
    using begin_run_keeps by (auto simp: S_def keeps_program_def same_program_def)
  have "load_run (ex_db S1) r = load_run db1 r" by (simp add: S1(2) load_run_def)
  then obtain v where v: "load_run (ex_db S) r = Some v" "rr_definition v = i" "rr_limit v = resolve_limit (ae_cfg E) c ovr"
    using same_static_load(1)[OF st, of r] L(1)[of r] by (auto simp: run_static_def)
  have "load_dag (ex_db S) r = load_dag db1 r"
    using same_static_dag[OF st, of r] by (simp add: S1(2) load_dag_def run_steps_def)
  then have n: "nodes (load_dag (ex_db S) r) = nodes g" using L(4) by simp
  have "start_workflow_run E i body R = (Inr (run_view_of r v), with_exec S R)"
    by (simp add: start_workflow_run_def d l S1(1) Let_def S_def[symmetric] run_json_def get_run_def v(1))
  then show ?thesis using v n fresh(1) by blast
qed

section \<open>Exceptions of a component\<close>

text \<open>An unknown entry, task or checkpoint raises an exception of the component, not a \<open>KeyError\<close>.\<close>

lemma unknown_memory_entry:
  assumes "asks parse rq ''DELETE'' [''memory'', x] body" "get_entry (ae_unquote E x) (cp_memory R) = None"
  shows "serve parse fs site E others rq R = (Failed internal_error, R)"
  using asked_segment(1)[OF assms(1)] asked_method[OF assms(1)] assms(2)
  by (simp add: serve_asked[OF assms(1) argument_routes(2)] api_handler_of_def handle_memory_entry_def path_arg_def
      delete_memory_entry_def delete_entry_def commit_def internal_error_def)

lemma unknown_scheduled_task:
  assumes "asks parse rq ''POST'' [''schedules'', x, y] body" "y \<in> {''pause'', ''resume''}"
    "ae_unquote E x \<noteq> []" "find_task (cp_tasks R) (ae_unquote E x) = None"
  shows "serve parse fs site E others rq R = (Failed internal_error, R)"
  using asked_segment(1)[OF assms(1)] asked_segment(2)[OF assms(1)] asked_method[OF assms(1)] assms(2-4)
  by (auto simp: serve_asked[OF assms(1) argument_routes(3)] api_handler_of_def handle_schedule_action_def path_arg_def
      require_method_def pause_scheduled_task_def resume_scheduled_task_def pause_task_def resume_task_def set_task_state_def
      commit_def internal_error_def)

lemma unknown_checkpoint:
  assumes "asks parse rq ''POST'' [''checkpoints'', x, ''rollback''] body"
    "ae_unquote E x \<noteq> []" "get_checkpoint (ae_unquote E x) (cp_checkpoints R) = None"
  shows "serve parse fs site E others rq R = (Failed internal_error, R)"
  using asked_segment(1)[OF assms(1)] asked_segment(2)[OF assms(1)] asked_method[OF assms(1)] assms(2,3)
  by (simp add: serve_asked[OF assms(1) argument_routes(4)] api_handler_of_def handle_checkpoint_rollback_def path_arg_def
      require_method_def rollback_checkpoint_def restore_checkpoint_def effect_def internal_error_def)

text \<open>No MCP server is ever connected: nothing sets the client.\<close>

lemma mcp_never_connects:
  assumes "asks parse rq ''POST'' [''mcp'', ''servers'', x, y] body" "y \<in> {''connect'', ''disconnect''}"
  shows "\<exists>e. serve parse fs site E others rq R = (Failed e, R) \<and>
    er_status e = (if dict_has (cp_mcp R) (ae_unquote E x) then 409 else 404)"
  using asked_segment(2)[OF assms(1)] asked_segment(3)[OF assms(1)] asked_method[OF assms(1)] assms(2)
  by (auto simp: serve_asked[OF assms(1) argument_routes(5)] api_handler_of_def handle_mcp_server_action_def path_arg_def
      require_method_def connect_mcp_server_def disconnect_mcp_server_def mcp_missing_def report_def error_reply_of_def)

end
