(* ===== verification/Demo_Api.thy ===== *)
theory Demo_Api
  imports Demo_Parts Api_Answers
begin

text \<open>A control plane that has just started, and two requests: a workflow of two steps, and a run of it.\<close>

definition demo_env :: api_env where
  "demo_env = \<lparr>ae_cfg = demo_cfg, ae_uuid = demo_uuid, ae_mem = \<lparr>mc_limit = 100, mc_overflow = Evict_oldest\<rparr>,
     ae_float = (\<lambda>_. []), ae_real = (\<lambda>_. []), ae_read = (\<lambda>_. None), ae_dump = (\<lambda>_. []), ae_unquote = (\<lambda>s. s),
     ae_providers = (\<lambda>_. None), ae_templates = [], ae_elapsed = (\<lambda>_. 0), ae_id = ''w'',
     ae_clock = demo_moment\<rparr>"

definition demo_workflow :: obj where
  "demo_workflow = [(''name'', JStr ''two''), (''steps'', JList [
     JObj [(''id'', JStr ''a''), (''type'', JStr ''wait'')],
     JObj [(''id'', JStr ''b''), (''type'', JStr ''wait''), (''dependsOn'', JList [JStr ''a''])]])]"

definition demo_boot :: "(unit, unit) runtime" where
  "demo_boot = initial_runtime (new_registry False None) ()"

definition demo_post :: "string \<Rightarrow> request" where
  "demo_post path = \<lparr>rq_method = ''POST'', rq_path = path, rq_query = [], rq_length = Some ''9'', rq_body = (\<lambda>_. ''json'')\<rparr>"

definition demo_parse :: "obj \<Rightarrow> string \<Rightarrow> parsed" where
  "demo_parse d s = Json_value (JObj d)"

lemma demo_asks:
  "asks (demo_parse d) (demo_post ''/api/v1/workflows'') ''POST'' [''workflows''] d"
  "asks (demo_parse d) (demo_post ''/api/v1/workflows/w/runs'') ''POST'' [''workflows'', ''w'', ''runs''] d"
  "asks (demo_parse d) (demo_post ''/api/v1/schedules/t/pause'') ''POST'' [''schedules'', ''t'', ''pause''] d"
proof -
  have n: "json_int (JStr ''9'') = Inr 9" by code_simp
  have p: "split_segments ''/api/v1/workflows'' = api [''workflows'']"
    "split_segments ''/api/v1/workflows/w/runs'' = api [''workflows'', ''w'', ''runs'']"
    "split_segments ''/api/v1/schedules/t/pause'' = api [''schedules'', ''t'', ''pause'']" by code_simp+
  have q: "str_prefix ''/api/'' ''/api/v1/workflows''" "str_prefix ''/api/'' ''/api/v1/workflows/w/runs''"
    "str_prefix ''/api/'' ''/api/v1/schedules/t/pause''" by code_simp+
  show "asks (demo_parse d) (demo_post ''/api/v1/workflows'') ''POST'' [''workflows''] d"
    "asks (demo_parse d) (demo_post ''/api/v1/workflows/w/runs'') ''POST'' [''workflows'', ''w'', ''runs''] d"
    "asks (demo_parse d) (demo_post ''/api/v1/schedules/t/pause'') ''POST'' [''schedules'', ''t'', ''pause''] d"
    using n p q by (simp_all add: asks_def demo_post_def api_path_def read_json_body_def content_length_def demo_parse_def)
qed

lemma demo_workflow_builds: "\<exists>g. build_dag (resolver_of demo_boot) (JObj demo_workflow) = Inr g"
  unfolding validate_build[symmetric] resolver_of_def demo_boot_def initial_runtime_def new_registry_def get_tool_def get_agent_def
  by code_simp

definition demo_canonical :: obj where
  "demo_canonical = [(''version'', JInt 1), (''name'', JStr ''two''), (''objective'', JStr []), (''inputs'', JObj []),
     (''steps'', JList [
        JObj [(''id'', JStr ''a''), (''type'', JStr ''wait''), (''config'', JObj []), (''dependsOn'', JList [])],
        JObj [(''id'', JStr ''b''), (''type'', JStr ''wait''), (''config'', JObj []), (''dependsOn'', JList [JStr ''a''])]]),
     (''policies'', JObj [])]"

lemma demo_canonicalize: "canonicalize demo_workflow = Inr demo_canonical"
  by code_simp

lemma demo_boot_ok: "runtime_ok demo_env demo_boot" "dict_ok (cp_meta demo_boot)" "\<not> dict_has (cp_meta demo_boot) ''w''"
  by (simp_all add: demo_boot_def initial_runtime_ok) (simp_all add: initial_runtime_def dict_has_def)

definition demo_created :: "(unit, unit) runtime" where
  "demo_created = with_workflow ''w'' demo_canonical demo_boot"

definition demo_none :: "handler_name \<Rightarrow> (unit, unit) api_handler" where
  "demo_none h rq body R = (Inr (200, JNull), R)"

lemma demo_env_simps [simp]: "ae_id demo_env = ''w''" "ae_unquote demo_env s = s" "ae_cfg demo_env = demo_cfg" "ae_uuid demo_env = demo_uuid"
  by (simp_all add: demo_env_def)

lemma demo_env_request: "request_env demo_env ''w'' demo_moment (\<lambda>_. None) = demo_env"
  by (simp add: request_env_def demo_env_def)

lemma demo_create_step:
  "\<exists>rep. serve (demo_parse demo_workflow) demo_static [] demo_env demo_none (demo_post ''/api/v1/workflows'') demo_boot = (rep, demo_created)"
proof -
  obtain g where g: "build_dag (resolver_of demo_boot) (JObj demo_workflow) = Inr g" using demo_workflow_builds by blast
  have "create_workflow demo_env demo_workflow demo_boot =
      Inr (created_view ''w'' demo_canonical (db_now (ex_db (cp_exec demo_boot))), demo_created)"
    using create_workflow_cases[of demo_boot demo_env demo_workflow] demo_boot_ok g by (simp add: demo_canonicalize demo_created_def)
  then show ?thesis
    unfolding serve_asked[OF demo_asks(1) argument_routes(1)]
    by (simp add: api_handler_of_def handle_workflows_def demo_post_def commit_def)
qed

lemma demo_not_elsewhere: "\<not> elsewhere (demo_post ''/api/v1/workflows'')"
  by code_simp

lemma demo_created_reachable: "runtime_reachable demo_env (new_registry False None) () demo_created"
proof -
  obtain rep where "serve (demo_parse demo_workflow) demo_static [] (request_env demo_env ''w'' demo_moment (\<lambda>_. None)) demo_none
      (demo_post ''/api/v1/workflows'') demo_boot = (rep, demo_created)"
    using demo_create_step unfolding demo_env_request by blast
  then have "runtime_step demo_env demo_boot demo_created" by (rule runtime_step.request[OF demo_not_elsewhere])
  then show ?thesis unfolding demo_boot_def by (rule goes_on[OF boot])
qed

lemma demo_stored: "load_definition ''w'' (cp_exec demo_created) = Inr demo_canonical"
  using canonicalize_idem[OF demo_canonicalize]
  by (simp add: load_definition_def demo_created_def with_workflow_def save_definition_def dict_simps)

lemma demo_graph: "\<exists>g. dag_from_definition demo_canonical = Some g \<and> dict_keys (nodes g) = [''a'', ''b'']"
proof -
  have "(case dag_from_definition demo_canonical of None \<Rightarrow> False | Some g \<Rightarrow> dict_keys (nodes g) = [''a'', ''b''])" by code_simp
  then show ?thesis by (auto split: option.splits)
qed

end
