(* ===== verification/Kernel_Adapter.thy ===== *)
theory Kernel_Adapter
  imports Orch_Types Checkpoints Agents Planner
begin

text \<open>
  \<open>adapters/rust_infra.py\<close>: the calls the control plane makes to the kernel. A stub of gRPC is a record
  of the methods its class has; a method is a function over the state \<open>'w\<close> of the kernel, which may
  raise (the text is \<open>str(exc)\<close>) and may answer with something to be awaited, metadata and deadline
  included. The messages of protobuf may refuse the values they are given (\<open>ad_refuses\<close>).
\<close>

section \<open>Messages and stubs\<close>

datatype infra_error = Routing_failed string | Bad_argument string | Failed_call string

fun infra_text :: "infra_error \<Rightarrow> string" where
  "infra_text (Routing_failed m) = m"
| "infra_text (Bad_argument m) = m"
| "infra_text (Failed_call m) = m"

record exec_request =
  xq_image :: json
  xq_command :: "json list"
  xq_ports :: "json list"
  xq_environment :: obj
  xq_class :: string
  xq_workflow :: string
  xq_timeout :: int

record exec_response =
  xr_job :: string
  xr_workload :: "string option"

record log_line =
  wl_stream :: string
  wl_line :: string
  wl_time :: int

datatype ('a, 'w) rpc_reply = Plain 'a | Awaitable "'w \<Rightarrow> (string + 'a) \<times> 'w"

text \<open>A stream is iterated as it is, perhaps until it raises, or has to be drained on the event loop.\<close>

datatype 'w log_stream = Sync_lines "log_line list" "string option" | Async_lines "'w \<Rightarrow> (string + log_line list) \<times> 'w"

type_synonym ('rq, 'a, 'w) rpc = "'rq \<Rightarrow> 'w \<Rightarrow> (string + ('a, 'w) rpc_reply) \<times> 'w"

record 'w stub =
  st_class :: string
  st_exec :: "(exec_request, exec_response option, 'w) rpc option"
  st_stop :: "(string, unit, 'w) rpc option"
  st_logs :: "(string, 'w log_stream, 'w) rpc option"
  st_snapshot :: "(string, string option, 'w) rpc option"
  st_restore :: "(string \<times> string, unit, 'w) rpc option"
  st_grant :: "(string \<times> string, (string \<times> string) option, 'w) rpc option"

text \<open>What the constructor is given; the two other stubs default to the first. \<open>ad_bridge\<close> says that there
  is a function that awaits on the event loop.\<close>

record 'w infra =
  ad_stub :: "'w stub"
  ad_fs_stub :: "'w stub option"
  ad_secret_stub :: "'w stub option"
  ad_bridge :: bool
  ad_refuses :: "exec_request \<Rightarrow> string option"

definition fs_stub :: "'w infra \<Rightarrow> 'w stub" where
  "fs_stub A = (case ad_fs_stub A of None \<Rightarrow> ad_stub A | Some s \<Rightarrow> s)"

definition secret_stub :: "'w infra \<Rightarrow> 'w stub" where
  "secret_stub A = (case ad_secret_stub A of None \<Rightarrow> ad_stub A | Some s \<Rightarrow> s)"

section \<open>Calls\<close>

definition no_attribute :: "string \<Rightarrow> string \<Rightarrow> string" where
  "no_attribute cls name = sq cls @ '' object has no attribute '' @ sq name"

fun resolve :: "bool \<Rightarrow> ('a, 'w) rpc_reply \<Rightarrow> 'w \<Rightarrow> (infra_error + 'a) \<times> 'w" where
  "resolve bridge (Plain a) w = (Inr a, w)"
| "resolve bridge (Awaitable f) w =
     (if \<not> bridge then (Inl (Failed_call ''kernel stub returned an awaitable but no run_sync bridge was provided''), w)
      else (case f w of (Inl e, w') \<Rightarrow> (Inl (Failed_call e), w') | (Inr a, w') \<Rightarrow> (Inr a, w')))"

definition call_rpc ::
  "'w infra \<Rightarrow> 'w stub \<Rightarrow> string \<Rightarrow> ('rq, 'a, 'w) rpc option \<Rightarrow> 'rq \<Rightarrow> 'w \<Rightarrow> (infra_error + 'a) \<times> 'w" where
  "call_rpc A s name m rq w =
     (case m of
        None \<Rightarrow> (Inl (Failed_call (no_attribute (st_class s) name)), w)
      | Some f \<Rightarrow> (case f rq w of (Inl e, w') \<Rightarrow> (Inl (Failed_call e), w') | (Inr r, w') \<Rightarrow> resolve (ad_bridge A) r w'))"

fun iterate :: "bool \<Rightarrow> 'w log_stream \<Rightarrow> 'w \<Rightarrow> (log_line list \<times> infra_error option) \<times> 'w" where
  "iterate bridge (Sync_lines ls e) w = ((ls, map_option Failed_call e), w)"
| "iterate bridge (Async_lines f) w =
     (if \<not> bridge then (([], Some (Failed_call ''kernel stub returned an async stream but no run_sync bridge was provided'')), w)
      else (case f w of (Inl e, w') \<Rightarrow> (([], Some (Failed_call e)), w') | (Inr ls, w') \<Rightarrow> ((ls, None), w')))"

section \<open>Jobs\<close>

definition default_class :: string where "default_class = ''WORKLOAD_CLASS_WORKER''"

text \<open>The classes that \<open>kernel.proto\<close> names.\<close>

definition workload_classes :: "string list" where
  "workload_classes = [''WORKLOAD_CLASS_UNSPECIFIED'', ''WORKLOAD_CLASS_HARNESS'', ''WORKLOAD_CLASS_WORKER'',
     ''WORKLOAD_CLASS_PREVIEW'', ''WORKLOAD_CLASS_SERVICE'']"

text \<open>Upper case is that of ASCII; no name of a class has another letter.\<close>

definition class_enum :: "string \<Rightarrow> string" where
  "class_enum raw =
     (let n = map ascii_upper raw; n = (if str_prefix ''WORKLOAD_CLASS_'' n then n else ''WORKLOAD_CLASS_'' @ n)
      in if n \<in> set workload_classes then n else default_class)"

text \<open>\<open>list(v or [])\<close>, and the command, which may be one string.\<close>

fun as_items :: "json \<Rightarrow> infra_error + json list" where
  "as_items (JList xs) = Inr xs"
| "as_items (JObj d) = Inr (map (\<lambda>p. JStr (fst p)) d)"
| "as_items (JStr s) = Inr (map (\<lambda>c. JStr [c]) s)"
| "as_items JNull = Inr []"
| "as_items v = (if truthy v then Inl (Failed_call (sq (type_name v) @ '' object is not iterable'')) else Inr [])"

definition command_items :: "json option \<Rightarrow> infra_error + json list" where
  "command_items c =
     (case c of None \<Rightarrow> Inr [] | Some JNull \<Rightarrow> Inr [] | Some (JStr s) \<Rightarrow> Inr [JStr s] | Some (JList xs) \<Rightarrow> Inr xs
      | Some (JObj d) \<Rightarrow> Inr (map (\<lambda>p. JStr (fst p)) d)
      | Some v \<Rightarrow> Inl (Failed_call (sq (type_name v) @ '' object is not iterable'')))"

text \<open>\<open>a or b\<close> of two values, and \<open>int\<close> of what an executor passes, which is a whole number or absent.\<close>

definition first_true :: "json list \<Rightarrow> json" where
  "first_true vs = (case filter truthy vs of [] \<Rightarrow> JNull | v # _ \<Rightarrow> v)"

definition whole :: "json \<Rightarrow> int" where
  "whole v = (case as_int v of Some i \<Rightarrow> i | None \<Rightarrow> 0)"

definition build_exec_request :: "(rat \<Rightarrow> string) \<Rightarrow> 'w infra \<Rightarrow> obj \<Rightarrow> obj \<Rightarrow> infra_error + exec_request" where
  "build_exec_request fl A spec policy =
     rbind (command_items (map_of spec ''command'')) (\<lambda>command.
     rbind (as_items (obj_get spec ''ports'')) (\<lambda>ports.
       let rq = \<lparr>xq_image = (if truthy (obj_get spec ''image'') then obj_get spec ''image'' else JStr []),
                 xq_command = command, xq_ports = ports, xq_environment = obj_or_empty (obj_get spec ''environment''),
                 xq_class = class_enum (case map_of spec ''class'' of None \<Rightarrow> default_class | Some v \<Rightarrow> py_str fl v),
                 xq_workflow = (case first_true [obj_get spec ''workflow_id'', obj_get policy ''workflow_id'', obj_get policy ''run_id''] of
                    JNull \<Rightarrow> [] | v \<Rightarrow> py_str fl v),
                 xq_timeout = whole (first_true [obj_get spec ''timeout_seconds'', obj_get policy ''timeout_seconds''])\<rparr>
       in case ad_refuses A rq of None \<Rightarrow> Inr rq | Some e \<Rightarrow> Inl (Failed_call e)))"

definition extract_job_id :: "exec_response option \<Rightarrow> string" where
  "extract_job_id r =
     (case r of None \<Rightarrow> [] | Some x \<Rightarrow> if xr_job x \<noteq> [] then xr_job x
      else (case xr_workload x of None \<Rightarrow> [] | Some i \<Rightarrow> i))"

definition no_route :: string where
  "no_route = ''failed to route job to a kernel-managed sandbox; execution blocked with no host fallback''"

definition no_job :: string where
  "no_job = ''kernel sandbox exec returned no job identifier; execution blocked with no host fallback''"

definition dispatch_job :: "(rat \<Rightarrow> string) \<Rightarrow> 'w infra \<Rightarrow> obj \<Rightarrow> obj \<Rightarrow> 'w \<Rightarrow> (infra_error + string) \<times> 'w" where
  "dispatch_job fl A spec policy w =
     (case build_exec_request fl A spec policy of
        Inl e \<Rightarrow> (Inl e, w)
      | Inr rq \<Rightarrow>
          (case call_rpc A (ad_stub A) ''Exec'' (st_exec (ad_stub A)) rq w of
             (Inl _, w') \<Rightarrow> (Inl (Routing_failed no_route), w')
           | (Inr resp, w') \<Rightarrow>
               let job = extract_job_id resp in (if job = [] then Inl (Routing_failed no_job) else Inr job, w')))"

definition log_entry :: "log_line \<Rightarrow> obj" where
  "log_entry l = [(''stream'', JStr (wl_stream l)), (''line'', JStr (wl_line l)), (''timestampUnixMs'', JInt (wl_time l))]"

text \<open>The entries a generator yields and the exception that ends it, if one does.\<close>

definition stream_logs :: "'w infra \<Rightarrow> string \<Rightarrow> 'w \<Rightarrow> (obj list \<times> infra_error option) \<times> 'w" where
  "stream_logs A job w =
     (if job = [] then (([], Some (Bad_argument ''job_id is required to stream logs'')), w)
      else (case call_rpc A (ad_stub A) ''WatchWorkloadLogs'' (st_logs (ad_stub A)) job w of
             (Inl e, w') \<Rightarrow> (([], Some e), w')
           | (Inr s, w') \<Rightarrow> (case iterate (ad_bridge A) s w' of ((ls, e), w'') \<Rightarrow> ((map log_entry ls, e), w''))))"

definition teardown :: "'w infra \<Rightarrow> string \<Rightarrow> 'w \<Rightarrow> (infra_error + unit) \<times> 'w" where
  "teardown A job w =
     (if job = [] then (Inl (Bad_argument ''job_id is required to tear down a job''), w)
      else call_rpc A (ad_stub A) ''StopWorkload'' (st_stop (ad_stub A)) job w)"

section \<open>Workspaces and secrets\<close>

definition snapshot_workspace :: "'w infra \<Rightarrow> string \<Rightarrow> 'w \<Rightarrow> (infra_error + string) \<times> 'w" where
  "snapshot_workspace A ws w =
     (if ws = [] then (Inl (Bad_argument ''workspace_id is required to snapshot a workspace''), w)
      else (case call_rpc A (fs_stub A) ''Snapshot'' (st_snapshot (fs_stub A)) ws w of
             (Inl e, w') \<Rightarrow> (Inl e, w')
           | (Inr r, w') \<Rightarrow>
               let ref = (case r of None \<Rightarrow> [] | Some x \<Rightarrow> x) in
               (if ref = [] then Inl (Failed_call (''kernel snapshot returned no snapshot reference for workspace '' @ repr_str ws))
                else Inr ref, w')))"

definition restore_workspace :: "'w infra \<Rightarrow> string \<Rightarrow> string \<Rightarrow> 'w \<Rightarrow> (infra_error + unit) \<times> 'w" where
  "restore_workspace A ws snap w =
     (if ws = [] then (Inl (Bad_argument ''workspace_id is required to restore a workspace''), w)
      else if snap = [] then (Inl (Bad_argument ''a snapshot reference is required to restore a workspace''), w)
      else call_rpc A (fs_stub A) ''Restore'' (st_restore (fs_stub A)) (ws, snap) w)"

definition request_secret_grant :: "'w infra \<Rightarrow> string \<Rightarrow> string \<Rightarrow> 'w \<Rightarrow> (infra_error + grant_context) \<times> 'w" where
  "request_secret_grant A ref target w =
     (if ref = [] then (Inl (Bad_argument ''a secret reference is required to request a grant''), w)
      else if target = [] then (Inl (Bad_argument ''a grant target is required to request a grant''), w)
      else (case call_rpc A (secret_stub A) ''Grant'' (st_grant (secret_stub A)) (ref, target) w of
             (Inl e, w') \<Rightarrow> (Inl e, w')
           | (Inr r, w') \<Rightarrow>
               (case r of
                  None \<Rightarrow> (Inl (Failed_call (''kernel secret grant returned no grant reference for secret '' @ repr_str ref @
                     ''; no raw-secret fallback is permitted'')), w')
                | Some (g, s) \<Rightarrow>
                    (if g = [] \<or> s = [] then Inl (Failed_call (''kernel secret grant returned no grant reference for secret '' @ repr_str ref @
                       ''; no raw-secret fallback is permitted''))
                     else Inr \<lparr>grant_id = g, session_ref = s\<rparr>, w'))))"

text \<open>The part of the adapter that the checkpoint manager uses.\<close>

definition infra_port :: "'w infra \<Rightarrow> 'w kernel_port" where
  "infra_port A = \<lparr>
     kp_snapshot = (\<lambda>ws w. case snapshot_workspace A ws w of (Inl e, w') \<Rightarrow> (Inl (infra_text e), w') | (Inr r, w') \<Rightarrow> (Inr (JStr r), w')),
     kp_restore = (\<lambda>ws ref w. case restore_workspace A ws ref w of (Inl e, w') \<Rightarrow> (Inl (infra_text e), w') | (Inr r, w') \<Rightarrow> (Inr r, w'))\<rparr>"

text \<open>
  \<open>_wire_execution_manager\<close> of \<open>cp/runtime.py\<close>: the adapter gets the \<open>WorkloadControlStub\<close> and nothing
  else, and that class has no method of the two other services.
\<close>

definition workload_control_stub ::
  "(exec_request, exec_response option, 'w) rpc \<Rightarrow> (string, unit, 'w) rpc \<Rightarrow> (string, 'w log_stream, 'w) rpc \<Rightarrow> 'w stub" where
  "workload_control_stub ex sp lg = \<lparr>st_class = ''WorkloadControlStub'', st_exec = Some ex, st_stop = Some sp, st_logs = Some lg,
     st_snapshot = None, st_restore = None, st_grant = None\<rparr>"

definition wire_execution_manager :: "'w stub \<Rightarrow> (exec_request \<Rightarrow> string option) \<Rightarrow> 'w infra" where
  "wire_execution_manager s refuses = \<lparr>ad_stub = s, ad_fs_stub = None, ad_secret_stub = None, ad_bridge = True, ad_refuses = refuses\<rparr>"

end
