(* ===== verification/Code_Executor.thy ===== *)
theory Code_Executor
  imports Kernel_Adapter
begin

text \<open>
  \<open>core/code_executor.py\<close>: a script is dispatched to a sandbox, its log is read line by line against the
  clock, and a breach of the limit tears the workload down. The manager is an argument, and the model of
  the kernel adapter is one. \<open>clk n\<close> is the clock at its reading \<open>n\<close>; \<open>gen\<close> is the format \<open>g\<close> of a float.
\<close>

section \<open>State\<close>

record 'w manager =
  mg_dispatch :: "obj \<Rightarrow> obj \<Rightarrow> 'w \<Rightarrow> (infra_error + string) \<times> 'w"
  mg_logs :: "string \<Rightarrow> 'w \<Rightarrow> (obj list \<times> infra_error option) \<times> 'w"
  mg_teardown :: "string \<Rightarrow> 'w \<Rightarrow> (infra_error + unit) \<times> 'w"

definition infra_manager :: "(rat \<Rightarrow> string) \<Rightarrow> 'w infra \<Rightarrow> 'w manager" where
  "infra_manager fl A = \<lparr>mg_dispatch = dispatch_job fl A, mg_logs = stream_logs A, mg_teardown = teardown A\<rparr>"

record script_request =
  sx_command :: "string list"
  sx_image :: string
  sx_environment :: "(string, string) dict"
  sx_limit :: "rat option"
  sx_class :: string

record exec_result =
  xe_job :: string
  xe_stdout :: string
  xe_stderr :: string
  xe_exit :: "int option"
  xe_timed_out :: bool
  xe_error :: "string option"

definition script_ok :: "exec_result \<Rightarrow> bool" where
  "script_ok r \<longleftrightarrow> \<not> xe_timed_out r \<and> xe_exit r = Some 0"

definition default_time_limit :: rat where "default_time_limit = 300"

section \<open>What is dispatched\<close>

definition resolve_time_limit :: "rat \<Rightarrow> script_request \<Rightarrow> infra_error + rat" where
  "resolve_time_limit def rq =
     (let lmt = (case sx_limit rq of None \<Rightarrow> def | Some l \<Rightarrow> l)
      in if lmt \<le> 0 then Inl (Bad_argument ''time_limit_seconds must be positive'') else Inr lmt)"

text \<open>\<open>int\<close> of a positive limit is its floor.\<close>

definition build_spec :: "script_request \<Rightarrow> run_scope \<Rightarrow> rat \<Rightarrow> obj" where
  "build_spec rq rs lmt = [(''command'', JList (map JStr (sx_command rq))), (''image'', JStr (sx_image rq)),
     (''environment'', JObj (map (\<lambda>(k, v). (k, JStr v)) (sx_environment rq))), (''class'', JStr (sx_class rq)),
     (''workflow_id'', JStr (rs_run_id rs)), (''timeout_seconds'', JInt \<lfloor>lmt\<rfloor>)]"

definition grant_view :: "grant_context \<Rightarrow> json" where
  "grant_view g = JObj [(''grant_id'', JStr (grant_id g)), (''session_ref'', JStr (session_ref g))]"

definition build_policy :: "run_scope \<Rightarrow> string list \<Rightarrow> grant_context list \<Rightarrow> rat \<Rightarrow> obj" where
  "build_policy rs toolsets grants lmt = [(''run_id'', JStr (rs_run_id rs)), (''workflow_id'', JStr (rs_run_id rs)),
     (''definition_id'', JStr (rs_definition_id rs)), (''timeout_seconds'', JInt \<lfloor>lmt\<rfloor>),
     (''toolsets'', JList (map JStr toolsets)), (''secret_grants'', JList (map grant_view grants))]"

section \<open>Reading the log\<close>

record captured =
  co_stdout :: "string list"
  co_stderr :: "string list"
  co_exit :: "int option"

definition nothing_captured :: captured where
  "nothing_captured = \<lparr>co_stdout = [], co_stderr = [], co_exit = None\<rparr>"

definition entry_text :: "(rat \<Rightarrow> string) \<Rightarrow> string \<Rightarrow> obj \<Rightarrow> string" where
  "entry_text fl k e = (case map_of e k of None \<Rightarrow> [] | Some v \<Rightarrow> py_str fl v)"

definition parse_exit_code :: "string \<Rightarrow> int option" where
  "parse_exit_code line = py_int (str_strip line)"

definition take_entry :: "(rat \<Rightarrow> string) \<Rightarrow> obj \<Rightarrow> captured \<Rightarrow> captured" where
  "take_entry fl e c =
     (let stream = entry_text fl ''stream'' e; line = entry_text fl ''line'' e in
      if stream = ''stdout'' then c\<lparr>co_stdout := co_stdout c @ [line]\<rparr>
      else if stream = ''stderr'' then c\<lparr>co_stderr := co_stderr c @ [line]\<rparr>
      else if stream = ''exit'' then c\<lparr>co_exit := parse_exit_code line\<rparr>
      else c)"

text \<open>Whether the deadline was passed, what was captured, and the number of clock readings so far.\<close>

fun read_entries :: "(rat \<Rightarrow> string) \<Rightarrow> (nat \<Rightarrow> rat) \<Rightarrow> rat \<Rightarrow> nat \<Rightarrow> obj list \<Rightarrow> captured \<Rightarrow> bool \<times> captured \<times> nat" where
  "read_entries fl clk deadline n [] c = (False, c, n)"
| "read_entries fl clk deadline n (e # es) c =
     (if deadline < clk n then (True, c, Suc n) else read_entries fl clk deadline (Suc n) es (take_entry fl e c))"

definition timeout_message :: "(rat \<Rightarrow> string) \<Rightarrow> rat \<Rightarrow> string" where
  "timeout_message gen lmt = ''script exceeded the '' @ gen lmt @ ''s execution time limit; the sandbox workload was terminated''"

definition timeout_result :: "(rat \<Rightarrow> string) \<Rightarrow> string \<Rightarrow> captured \<Rightarrow> rat \<Rightarrow> exec_result" where
  "timeout_result gen job c lmt = \<lparr>xe_job = job, xe_stdout = str_join [CHR 0x0A] (co_stdout c),
     xe_stderr = str_join [CHR 0x0A] (co_stderr c), xe_exit = None, xe_timed_out = True, xe_error = Some (timeout_message gen lmt)\<rparr>"

definition time_out ::
  "'w manager \<Rightarrow> (rat \<Rightarrow> string) \<Rightarrow> string \<Rightarrow> captured \<Rightarrow> rat \<Rightarrow> 'w \<Rightarrow> (infra_error + exec_result) \<times> 'w" where
  "time_out M gen job c lmt w =
     (case mg_teardown M job w of (Inl e, w') \<Rightarrow> (Inl e, w') | (Inr _, w') \<Rightarrow> (Inr (timeout_result gen job c lmt), w'))"

definition finished_result :: "string \<Rightarrow> captured \<Rightarrow> exec_result" where
  "finished_result job c = \<lparr>xe_job = job, xe_stdout = str_join [CHR 0x0A] (co_stdout c),
     xe_stderr = str_join [CHR 0x0A] (co_stderr c), xe_exit = co_exit c, xe_timed_out = False, xe_error = None\<rparr>"

definition capture ::
  "'w manager \<Rightarrow> (rat \<Rightarrow> string) \<Rightarrow> (rat \<Rightarrow> string) \<Rightarrow> (nat \<Rightarrow> rat) \<Rightarrow> string \<Rightarrow> rat \<Rightarrow> 'w \<Rightarrow> (infra_error + exec_result) \<times> 'w" where
  "capture M fl gen clk job lmt w =
     (case mg_logs M job w of
        ((entries, ending), w') \<Rightarrow>
          (case read_entries fl clk (clk 0 + lmt) 1 entries nothing_captured of
             (late, c, n) \<Rightarrow>
               if late then time_out M gen job c lmt w'
               else (case ending of
                  Some e \<Rightarrow> (Inl e, w')
                | None \<Rightarrow> if clk 0 + lmt < clk n then time_out M gen job c lmt w' else (Inr (finished_result job c), w'))))"

definition no_job_id :: string where
  "no_job_id = ''sandbox dispatch returned no job id; execution blocked with no host fallback''"

definition execute ::
  "'w manager \<Rightarrow> (rat \<Rightarrow> string) \<Rightarrow> (rat \<Rightarrow> string) \<Rightarrow> (nat \<Rightarrow> rat) \<Rightarrow> rat \<Rightarrow> script_request \<Rightarrow> run_scope \<Rightarrow>
    string list \<Rightarrow> grant_context list \<Rightarrow> 'w \<Rightarrow> (infra_error + exec_result) \<times> 'w" where
  "execute M fl gen clk def rq rs toolsets grants w =
     (case resolve_time_limit def rq of
        Inl e \<Rightarrow> (Inl e, w)
      | Inr lmt \<Rightarrow>
          (case mg_dispatch M (build_spec rq rs lmt) (build_policy rs toolsets grants lmt) w of
             (Inl e, w') \<Rightarrow> (Inl e, w')
           | (Inr job, w') \<Rightarrow>
               if job = [] then (Inl (Routing_failed no_job_id), w') else capture M fl gen clk job lmt w'))"

section \<open>What is captured\<close>

text \<open>The lines of a stream, and the exit code of the last exit line.\<close>

definition lines_of :: "(rat \<Rightarrow> string) \<Rightarrow> string \<Rightarrow> obj list \<Rightarrow> string list" where
  "lines_of fl s es = map (entry_text fl ''line'') (filter (\<lambda>e. entry_text fl ''stream'' e = s) es)"

definition exit_of :: "(rat \<Rightarrow> string) \<Rightarrow> obj list \<Rightarrow> int option" where
  "exit_of fl es = (if lines_of fl ''exit'' es = [] then None else parse_exit_code (last (lines_of fl ''exit'' es)))"

definition captured_from :: "(rat \<Rightarrow> string) \<Rightarrow> obj list \<Rightarrow> captured" where
  "captured_from fl es = \<lparr>co_stdout = lines_of fl ''stdout'' es, co_stderr = lines_of fl ''stderr'' es, co_exit = exit_of fl es\<rparr>"

lemma captured_snoc: "take_entry fl e (captured_from fl es) = captured_from fl (es @ [e])"
  by (simp add: take_entry_def captured_from_def lines_of_def exit_of_def Let_def)

lemma read_entries_from:
  "read_entries fl clk dl n es (captured_from fl pre) =
    (case find (\<lambda>k. dl < clk (n + k)) [0..<length es] of
       Some k \<Rightarrow> (True, captured_from fl (pre @ take k es), Suc (n + k))
     | None \<Rightarrow> (False, captured_from fl (pre @ es), n + length es))"
proof (induction es arbitrary: n pre)
  case (Cons e es)
  have f: "find P [0..<Suc m] = (if P 0 then Some 0 else map_option Suc (find (\<lambda>k. P (Suc k)) [0..<m]))" for P m
  proof -
    have m: "find P (map Suc xs) = map_option Suc (find (\<lambda>k. P (Suc k)) xs)" for xs by (induction xs) auto
    show ?thesis unfolding upt_conv_Cons[OF zero_less_Suc] map_Suc_upt[symmetric] by (simp add: m)
  qed
  show ?case using Cons[of "Suc n" "pre @ [e]"]
    by (simp add: captured_snoc f del: upt_Suc split: option.splits)
qed simp

definition late_at :: "(nat \<Rightarrow> rat) \<Rightarrow> rat \<Rightarrow> nat \<Rightarrow> nat option" where
  "late_at clk lmt m = find (\<lambda>k. clk 0 + lmt < clk (Suc k)) [0..<m]"

lemma late_at_Some:
  "late_at clk lmt m = Some k \<longleftrightarrow> k < m \<and> clk 0 + lmt < clk (Suc k) \<and> (\<forall>j < k. clk (Suc j) \<le> clk 0 + lmt)"
  by (auto simp: late_at_def find_Some_iff not_less)

lemma late_at_None: "late_at clk lmt m = None \<longleftrightarrow> (\<forall>k < m. clk (Suc k) \<le> clk 0 + lmt)"
  by (auto simp: late_at_def find_None_iff not_less) (metis not_le)

lemma capture_late:
  assumes "mg_logs M job w = ((es, ending), w')" "late_at clk lmt (length es) = Some k"
  shows "capture M fl gen clk job lmt w = time_out M gen job (captured_from fl (take k es)) lmt w'"
  using read_entries_from[of fl clk "clk 0 + lmt" 1 es "[]"] assms
  by (simp add: capture_def late_at_def captured_from_def nothing_captured_def lines_of_def exit_of_def)

lemma capture_in_time:
  assumes "mg_logs M job w = ((es, ending), w')" "late_at clk lmt (length es) = None"
  shows "capture M fl gen clk job lmt w =
    (case ending of Some e \<Rightarrow> (Inl e, w')
     | None \<Rightarrow> if clk 0 + lmt < clk (Suc (length es)) then time_out M gen job (captured_from fl es) lmt w'
               else (Inr (finished_result job (captured_from fl es)), w'))"
  using read_entries_from[of fl clk "clk 0 + lmt" 1 es "[]"] assms
  by (simp add: capture_def late_at_def captured_from_def nothing_captured_def lines_of_def exit_of_def split: option.splits)

text \<open>The deadline is checked before every entry and once at the end: the first late reading decides.\<close>

lemma capture_cases:
  assumes "mg_logs M job w = ((es, None), w')"
  shows "capture M fl gen clk job lmt w =
    (case late_at clk lmt (Suc (length es)) of
       Some k \<Rightarrow> time_out M gen job (captured_from fl (take k es)) lmt w'
     | None \<Rightarrow> (Inr (finished_result job (captured_from fl es)), w'))"
proof (cases "late_at clk lmt (length es)")
  case None
  then have "late_at clk lmt (Suc (length es)) = (if clk 0 + lmt < clk (Suc (length es)) then Some (length es) else None)"
    by (auto simp: late_at_None late_at_Some less_Suc_eq not_less)
  then show ?thesis using capture_in_time[OF assms None] by simp
next
  case (Some k)
  then have "late_at clk lmt (Suc (length es)) = Some k" by (auto simp: late_at_Some)
  then show ?thesis using capture_late[OF assms Some] by simp
qed

section \<open>What reaches the kernel\<close>

text \<open>The adapter reads no more of the policy than the run and the limit.\<close>

lemma request_ignores_policy:
  "build_exec_request fl A (build_spec rq rs lmt) (build_policy rs ts gs lmt) =
   build_exec_request fl A (build_spec rq rs lmt) (build_policy rs ts' gs' lmt)"
  by (simp add: build_exec_request_def build_policy_def obj_get_def)

lemma dispatch_ignores_policy:
  "dispatch_job fl A (build_spec rq rs lmt) (build_policy rs ts gs lmt) w =
   dispatch_job fl A (build_spec rq rs lmt) (build_policy rs ts' gs' lmt) w"
  unfolding dispatch_job_def request_ignores_policy[of fl A rq rs lmt ts gs ts' gs'] ..

lemma execute_ignores_policy:
  "execute (infra_manager fl A) fl gen clk def rq rs ts gs w = execute (infra_manager fl A) fl gen clk def rq rs ts' gs' w"
  unfolding execute_def infra_manager_def
  by (simp add: dispatch_ignores_policy[of fl A rq rs _ ts gs _ ts' gs'] cong: sum.case_cong)

text \<open>A limit below one second is no limit of the kernel.\<close>

lemma request_timeout:
  assumes "build_exec_request fl A (build_spec rq rs lmt) (build_policy rs ts gs lmt) = Inr q"
  shows "xq_timeout q = \<lfloor>lmt\<rfloor>"
  using assms
  by (auto simp: build_exec_request_def build_spec_def build_policy_def obj_get_def first_true_def whole_def rbind_Inr_iff Let_def
      split: option.splits if_splits)

text \<open>The kernel is reached only by a dispatch, and every job has an id.\<close>

lemma dispatch_job_id: "dispatch_job fl A spec policy w = (Inr job, w') \<Longrightarrow> job \<noteq> []"
  by (auto simp: dispatch_job_def Let_def split: sum.splits prod.splits if_splits)

text \<open>An adapter without a method for a call fails and leaves the kernel as it is.\<close>

lemma wired_fails:
  assumes "st_snapshot s = None" "st_restore s = None" "st_grant s = None"
  shows "\<exists>e. snapshot_workspace (wire_execution_manager s rf) ws w = (Inl e, w)"
    "\<exists>e. restore_workspace (wire_execution_manager s rf) ws ref w = (Inl e, w)"
    "\<exists>e. request_secret_grant (wire_execution_manager s rf) ref target w = (Inl e, w)"
  using assms
  by (simp_all add: snapshot_workspace_def restore_workspace_def request_secret_grant_def call_rpc_def wire_execution_manager_def
      fs_stub_def secret_stub_def)

end
