(* ===== verification/Mcp_Client.thy ===== *)
theory Mcp_Client
  imports Runtime_Api
begin

text \<open>
  \<open>core/mcp_client.py\<close>: tools of external servers in the registry. The transport and the source of grants
  are functions over the state \<open>'w\<close> of the world outside; a connection is the record of its methods.
  \<open>mx_rows\<close> is the table \<open>mcp_servers\<close>, absent when the client has no database, and \<open>mx_events\<close> is the event
  router, absent when it has none.
\<close>

section \<open>State\<close>

record tool_descriptor =
  td_name :: string
  td_description :: string
  td_schema :: obj
  td_mutating :: bool

record server_config =
  sv_id :: string
  sv_name :: string
  sv_transport :: string
  sv_filter :: "string list option"
  sv_secret :: "string option"
  sv_target :: "string option"

record 'w connection =
  cn_list :: "'w \<Rightarrow> (string + tool_descriptor list) \<times> 'w"
  cn_call :: "string \<Rightarrow> obj \<Rightarrow> 'w \<Rightarrow> (string + json) \<times> 'w"
  cn_close :: "'w \<Rightarrow> (string + unit) \<times> 'w"

datatype transport_error = Unreachable string | Transport_raised string

record 'w mcp_env =
  mv_connect :: "server_config \<Rightarrow> grant_context option \<Rightarrow> 'w \<Rightarrow> (transport_error + 'w connection) \<times> 'w"
  mv_grants :: "(string \<Rightarrow> string \<Rightarrow> 'w \<Rightarrow> (string + grant_context option) \<times> 'w) option"

record 'w mcp_client =
  mx_registry :: "'w registry"
  mx_connections :: "(string, 'w connection) dict"
  mx_registered :: "(string, string list) dict"
  mx_rows :: "(string, mcp_row) dict option"
  mx_events :: "event_store option"

datatype mcp_error = Connection_error string | Bad_tool tool_error

definition new_mcp_client :: "'w registry \<Rightarrow> (string, mcp_row) dict option \<Rightarrow> event_store option \<Rightarrow> 'w mcp_client" where
  "new_mcp_client R rows events = \<lparr>mx_registry = R, mx_connections = [], mx_registered = [], mx_rows = rows, mx_events = events\<rparr>"

definition toolset_id :: "string \<Rightarrow> string" where
  "toolset_id server = ''mcp:'' @ server"

definition registered_tool_names :: "string \<Rightarrow> 'w mcp_client \<Rightarrow> string list" where
  "registered_tool_names server S = dict_get_or (mx_registered S) server []"

section \<open>Rows and events\<close>

definition filter_json :: "server_config \<Rightarrow> json option" where
  "filter_json cfg = map_option (\<lambda>names. JList (map JStr names)) (sv_filter cfg)"

definition persist_status :: "server_config \<Rightarrow> string \<Rightarrow> string \<Rightarrow> 'w mcp_client \<Rightarrow> 'w mcp_client" where
  "persist_status cfg status now S =
     (case mx_rows S of
        None \<Rightarrow> S
      | Some rows \<Rightarrow>
          let created = (case map_of rows (sv_id cfg) of None \<Rightarrow> now | Some v \<Rightarrow> mr_created v)
          in S\<lparr>mx_rows := Some (dict_set (sv_id cfg) \<lparr>mr_name = sv_name cfg, mr_transport = sv_transport cfg,
               mr_filter = filter_json cfg, mr_grant = sv_secret cfg, mr_status = status, mr_created = created\<rparr> rows)\<rparr>)"

definition persist_status_by_id :: "string \<Rightarrow> string \<Rightarrow> 'w mcp_client \<Rightarrow> 'w mcp_client" where
  "persist_status_by_id server status S =
     (case mx_rows S of
        None \<Rightarrow> S
      | Some rows \<Rightarrow>
          (case map_of rows server of
             None \<Rightarrow> S
           | Some v \<Rightarrow> S\<lparr>mx_rows := Some (dict_set server (v\<lparr>mr_status := status\<rparr>) rows)\<rparr>))"

definition record_event ::
  "string option \<Rightarrow> string \<Rightarrow> string \<Rightarrow> string \<Rightarrow> obj \<Rightarrow> string \<Rightarrow> 'w mcp_client \<Rightarrow> 'w mcp_client" where
  "record_event run type message server extra now S =
     (case (mx_events S, run) of
        (Some lg, Some r) \<Rightarrow>
          (case put_event r \<lparr>in_type = type, in_message = message, in_step = None,
              in_payload = dict_merge [(''server_id'', JStr server)] extra, in_now = now\<rparr> lg of
             None \<Rightarrow> S
           | Some lg' \<Rightarrow> S\<lparr>mx_events := Some lg'\<rparr>)
      | _ \<Rightarrow> S)"

abbreviation connected :: string where "connected \<equiv> ''mcp.connected''"
abbreviation disconnected :: string where "disconnected \<equiv> ''mcp.disconnected''"

section \<open>Connecting\<close>

definition needs_credentials :: "server_config \<Rightarrow> bool" where
  "needs_credentials cfg \<longleftrightarrow> sv_secret cfg \<noteq> None \<and> sv_secret cfg \<noteq> Some []"

definition server_text :: "server_config \<Rightarrow> string" where
  "server_text cfg = ''MCP server '' @ repr_str (sv_id cfg)"

definition obtain_grant ::
  "'w mcp_env \<Rightarrow> server_config \<Rightarrow> string option \<Rightarrow> string \<Rightarrow> 'w mcp_client \<Rightarrow> 'w \<Rightarrow>
    (mcp_error + grant_context option) \<times> 'w mcp_client \<times> 'w" where
  "obtain_grant V cfg run now S w =
     (case sv_secret cfg of
        None \<Rightarrow> (Inr None, S, w)
      | Some ref \<Rightarrow>
          if ref = [] then (Inr None, S, w)
          else (case mv_grants V of
             None \<Rightarrow>
               (Inl (Connection_error (server_text cfg @ '' requires credentials but no kernel secret grant source is configured; refusing to fall back to a raw Control_Plane secret'')),
                record_event run disconnected (server_text cfg @ '' requires credentials but no kernel grant source is available; connection failed with no raw-secret fallback'')
                  (sv_id cfg) [] now (persist_status cfg ''failed'' now S), w)
           | Some grants \<Rightarrow>
               let target = (case sv_target cfg of None \<Rightarrow> toolset_id (sv_id cfg) | Some t \<Rightarrow> if t = [] then toolset_id (sv_id cfg) else t)
               in (case grants ref target w of
                  (Inl e, w') \<Rightarrow>
                    (Inl (Connection_error (''could not obtain a kernel secret grant for '' @ server_text cfg @ ''; refusing to fall back to a raw Control_Plane secret'')),
                     record_event run disconnected (server_text cfg @ '' credential grant failed; connection failed with no raw-secret fallback'')
                       (sv_id cfg) [] now (persist_status cfg ''failed'' now S), w')
                | (Inr None, w') \<Rightarrow>
                    (Inl (Connection_error (''no kernel secret grant was issued for '' @ server_text cfg @ ''; refusing to fall back to a raw Control_Plane secret'')),
                     persist_status cfg ''failed'' now S, w')
                | (Inr (Some g), w') \<Rightarrow> (Inr (Some g), S, w'))))"

definition allowed_tool :: "server_config \<Rightarrow> tool_descriptor \<Rightarrow> bool" where
  "allowed_tool cfg d = (case sv_filter cfg of None \<Rightarrow> True | Some names \<Rightarrow> td_name d \<in> set names)"

definition tool_of :: "server_config \<Rightarrow> tool_descriptor \<Rightarrow> tool_spec" where
  "tool_of cfg d = \<lparr>ts_name = td_name d, ts_description = td_description d, ts_toolset = toolset_id (sv_id cfg),
     ts_input_schema = td_schema d, ts_mutating = td_mutating d\<rparr>"

text \<open>A tool without a name makes the registry raise; the tools before it stay registered.\<close>

fun register_tools ::
  "server_config \<Rightarrow> 'w connection \<Rightarrow> tool_descriptor list \<Rightarrow> 'w registry \<Rightarrow> (tool_error + tool_spec list) \<times> 'w registry" where
  "register_tools cfg cn [] R = (Inr [], R)"
| "register_tools cfg cn (d # ds) R =
     (if \<not> allowed_tool cfg d then register_tools cfg cn ds R
      else (case register_tool (tool_of cfg d) (Some (cn_call cn (td_name d))) R of
         Inl e \<Rightarrow> (Inl e, R)
       | Inr R' \<Rightarrow>
           (case register_tools cfg cn ds (set_tool_available (td_name d) True R') of
              (Inl e, R'') \<Rightarrow> (Inl e, R'')
            | (Inr specs, R'') \<Rightarrow> (Inr (tool_of cfg d # specs), R''))))"

definition mark_unavailable :: "string list \<Rightarrow> 'w registry \<Rightarrow> 'w registry" where
  "mark_unavailable names R = fold (\<lambda>n. set_tool_available n False) names R"

definition names_json :: "string list \<Rightarrow> json" where
  "names_json names = JList (map JStr names)"

definition handle_unreachable :: "server_config \<Rightarrow> string option \<Rightarrow> string \<Rightarrow> 'w mcp_client \<Rightarrow> 'w mcp_client" where
  "handle_unreachable cfg run now S =
     (let names = registered_tool_names (sv_id cfg) S;
          S1 = S\<lparr>mx_registry := mark_unavailable names (mx_registry S), mx_connections := dict_del (sv_id cfg) (mx_connections S)\<rparr>
      in record_event run disconnected (server_text cfg @ '' is unreachable'') (sv_id cfg) [(''tools'', names_json names)] now
           (persist_status cfg ''disconnected'' now S1))"

text \<open>Closing is best effort: what it raises is dropped.\<close>

definition safe_close :: "'w connection \<Rightarrow> 'w \<Rightarrow> 'w" where
  "safe_close cn w = snd (cn_close cn w)"

definition connected_message :: "server_config \<Rightarrow> nat \<Rightarrow> string" where
  "connected_message cfg n = ''connected to MCP server '' @ repr_str (sv_name cfg) @ '' ('' @ nat_str n @ '' tool(s) registered)''"

definition connect ::
  "'w mcp_env \<Rightarrow> server_config \<Rightarrow> string option \<Rightarrow> string \<Rightarrow> 'w mcp_client \<Rightarrow> 'w \<Rightarrow>
    (mcp_error + tool_spec list) \<times> 'w mcp_client \<times> 'w" where
  "connect V cfg run now S w =
     (case obtain_grant V cfg run now S w of
        (Inl e, S', w') \<Rightarrow> (Inl e, S', w')
      | (Inr grant, S0, w0) \<Rightarrow>
          (case mv_connect V cfg grant w0 of
             (Inl (Unreachable m), w1) \<Rightarrow> (Inl (Connection_error m), handle_unreachable cfg run now S0, w1)
           | (Inl (Transport_raised m), w1) \<Rightarrow>
               (Inl (Connection_error (server_text cfg @ '' is unreachable: '' @ m)), handle_unreachable cfg run now S0, w1)
           | (Inr cn, w1) \<Rightarrow>
               (case cn_list cn w1 of
                  (Inl m, w2) \<Rightarrow>
                    (Inl (Connection_error (server_text cfg @ '' failed to advertise its tools: '' @ m)),
                     handle_unreachable cfg run now S0, safe_close cn w2)
                | (Inr advertised, w2) \<Rightarrow>
                    (case register_tools cfg cn advertised (mx_registry S0) of
                       (Inl e, R) \<Rightarrow> (Inl (Bad_tool e), S0\<lparr>mx_registry := R\<rparr>, w2)
                     | (Inr specs, R) \<Rightarrow>
                         let names = map ts_name specs;
                             S1 = S0\<lparr>mx_registry := R, mx_connections := dict_set (sv_id cfg) cn (mx_connections S0),
                                     mx_registered := dict_set (sv_id cfg) names (mx_registered S0)\<rparr>
                         in (Inr specs,
                             record_event run connected (connected_message cfg (length specs)) (sv_id cfg) [(''tools'', names_json names)] now
                               (persist_status cfg ''connected'' now S1), w2)))))"

definition disconnect :: "string \<Rightarrow> string option \<Rightarrow> string \<Rightarrow> string \<Rightarrow> 'w mcp_client \<Rightarrow> 'w \<Rightarrow> 'w mcp_client \<times> 'w" where
  "disconnect server run reason now S w =
     (case map_of (mx_registered S) server of
        None \<Rightarrow> (S, w)
      | Some names \<Rightarrow>
          let S1 = S\<lparr>mx_registry := mark_unavailable names (mx_registry S), mx_connections := dict_del server (mx_connections S)\<rparr>;
              w' = (case map_of (mx_connections S) server of None \<Rightarrow> w | Some cn \<Rightarrow> safe_close cn w)
          in (record_event run disconnected (''MCP server '' @ repr_str server @ '' disconnected: '' @ reason) server
                [(''reason'', JStr reason), (''tools'', names_json names)] now (persist_status_by_id server ''disconnected'' S1), w'))"

section \<open>The registry under these operations\<close>

lemma record_event_same [simp]:
  "mx_registry (record_event run ty m sv ex now S) = mx_registry S"
  "mx_connections (record_event run ty m sv ex now S) = mx_connections S"
  "mx_registered (record_event run ty m sv ex now S) = mx_registered S"
  "mx_rows (record_event run ty m sv ex now S) = mx_rows S"
  by (auto simp: record_event_def split: option.splits)

lemma persist_same [simp]:
  "mx_registry (persist_status cfg st now S) = mx_registry S" "mx_connections (persist_status cfg st now S) = mx_connections S"
  "mx_registered (persist_status cfg st now S) = mx_registered S" "mx_events (persist_status cfg st now S) = mx_events S"
  "mx_registry (persist_status_by_id i st S) = mx_registry S" "mx_connections (persist_status_by_id i st S) = mx_connections S"
  "mx_registered (persist_status_by_id i st S) = mx_registered S" "mx_events (persist_status_by_id i st S) = mx_events S"
  by (auto simp: persist_status_def persist_status_by_id_def Let_def split: option.splits)

lemma set_available_tools [simp]:
  "tg_tools (set_tool_available n av R) = tg_tools R" "tg_handlers (set_tool_available n av R) = tg_handlers R"
  "get_tool (set_tool_available n av R) m = get_tool R m"
  by (simp_all add: set_tool_available_def get_tool_def)

lemma mark_unavailable_tools [simp]:
  "tg_tools (mark_unavailable ns R) = tg_tools R" "get_tool (mark_unavailable ns R) m = get_tool R m"
proof -
  show "tg_tools (mark_unavailable ns R) = tg_tools R" unfolding mark_unavailable_def by (induction ns arbitrary: R) simp_all
  then show "get_tool (mark_unavailable ns R) m = get_tool R m" by (simp add: get_tool_def)
qed

lemma set_available_at:
  "is_available (set_tool_available n av R) m \<longleftrightarrow>
    (if m = n then dict_has (tg_tools R) n \<and> av else is_available R m)"
  by (auto simp: is_available_def set_tool_available_def)

lemma mark_unavailable_at: "is_available (mark_unavailable ns R) m \<longleftrightarrow> is_available R m \<and> m \<notin> set ns"
  unfolding mark_unavailable_def by (induction ns arbitrary: R) (auto simp: set_available_at)

lemma mark_unavailable_ok: "registry_ok R \<Longrightarrow> registry_ok (mark_unavailable ns R)"
  unfolding mark_unavailable_def by (induction ns arbitrary: R) (simp_all add: availability_ok)

lemma register_tool_at:
  assumes "register_tool t (Some h) R = Inr R'"
  shows "get_tool R' m = (if m = ts_name t then Some t else get_tool R m)"
    "is_available R' m \<longleftrightarrow> m = ts_name t \<or> is_available R m"
    "map_of (tg_handlers R') m = (if m = ts_name t then Some h else map_of (tg_handlers R) m)"
  using assms by (auto simp: register_tool_def get_tool_def is_available_def dict_simps split: if_splits)


definition filtered :: "server_config \<Rightarrow> tool_descriptor list \<Rightarrow> tool_descriptor list" where
  "filtered cfg ds = filter (allowed_tool cfg) ds"

definition tool_names :: "tool_descriptor list \<Rightarrow> string set" where
  "tool_names ds = td_name ` set ds"

text \<open>What registering does to the registry, whether or not it gets to the end.\<close>

lemma register_tools_keeps:
  assumes "register_tools cfg cn ds R = (res, R')"
  shows "m \<notin> tool_names (filtered cfg ds) \<Longrightarrow> get_tool R' m = get_tool R m"
    "m \<notin> tool_names (filtered cfg ds) \<Longrightarrow> is_available R' m = is_available R m"
    "is_available R m \<Longrightarrow> is_available R' m"
    "registry_ok R \<Longrightarrow> registry_ok R'"
    "set (dict_keys (tg_tools R)) \<subseteq> set (dict_keys (tg_tools R'))"
proof -
  have "(m \<notin> tool_names (filtered cfg ds) \<longrightarrow> get_tool R' m = get_tool R m \<and> is_available R' m = is_available R m) \<and>
      (is_available R m \<longrightarrow> is_available R' m) \<and> (registry_ok R \<longrightarrow> registry_ok R') \<and>
      set (dict_keys (tg_tools R)) \<subseteq> set (dict_keys (tg_tools R'))"
    using assms
  proof (induction ds arbitrary: R res)
    case (Cons d ds)
    show ?case
    proof (cases "allowed_tool cfg d")
      case False
      then show ?thesis using Cons by (auto simp: filtered_def tool_names_def)
    next
      case True
      show ?thesis
      proof (cases "register_tool (tool_of cfg d) (Some (cn_call cn (td_name d))) R")
        case (Inl e)
        then show ?thesis using Cons.prems True by auto
      next
        case (Inr R1)
        let ?R2 = "set_tool_available (td_name d) True R1"
        obtain res2 where r: "register_tools cfg cn ds ?R2 = (res2, R')"
          using Cons.prems True Inr by (auto split: prod.splits sum.splits)
        have n: "ts_name (tool_of cfg d) = td_name d" by (simp add: tool_of_def)
        note at = register_tool_at[OF Inr, unfolded n]
        have k: "set (dict_keys (tg_tools R)) \<subseteq> set (dict_keys (tg_tools ?R2))"
        proof -
          have "tg_tools R1 = dict_set (td_name d) (tool_of cfg d) (tg_tools R)"
            using Inr by (auto simp: register_tool_def n split: if_splits)
          then show ?thesis unfolding set_available_tools by (metis dict_set_keys subset_insertI)
        qed
        have f: "tool_names (filtered cfg (d # ds)) = insert (td_name d) (tool_names (filtered cfg ds))"
          using True by (simp add: filtered_def tool_names_def)
        have ok: "registry_ok R \<longrightarrow> registry_ok ?R2" using register_tool_ok[OF _ Inr] availability_ok by blast
        have av: "is_available ?R2 x \<longleftrightarrow> x = td_name d \<or> is_available R x" for x
        proof -
          have "dict_has (tg_tools R1) (td_name d)" using at(2)[of "td_name d"] by (simp add: is_available_def)
          then show ?thesis unfolding set_available_at using at(2)[of x] by simp
        qed
        have gt: "get_tool ?R2 x = (if x = td_name d then Some (tool_of cfg d) else get_tool R x)" for x
          using at(1)[of x] by simp
        show ?thesis using Cons.IH[OF r] subset_trans[OF k] ok unfolding f by (auto simp only: av gt insert_iff if_False)
      qed
    qed
  qed (simp add: tool_names_def)
  then show "m \<notin> tool_names (filtered cfg ds) \<Longrightarrow> get_tool R' m = get_tool R m"
    "m \<notin> tool_names (filtered cfg ds) \<Longrightarrow> is_available R' m = is_available R m"
    "is_available R m \<Longrightarrow> is_available R' m" "registry_ok R \<Longrightarrow> registry_ok R'"
    "set (dict_keys (tg_tools R)) \<subseteq> set (dict_keys (tg_tools R'))" by simp_all
qed

lemma register_tools_done:
  assumes "register_tools cfg cn ds R = (Inr specs, R')"
  shows "specs = map (tool_of cfg) (filtered cfg ds)"
    "m \<in> tool_names (filtered cfg ds) \<Longrightarrow> \<exists>d \<in> set (filtered cfg ds). td_name d = m \<and> get_tool R' m = Some (tool_of cfg d)"
    "m \<in> tool_names (filtered cfg ds) \<Longrightarrow> is_available R' m \<and> map_of (tg_handlers R') m = Some (cn_call cn m)"
    "m \<notin> tool_names (filtered cfg ds) \<Longrightarrow> map_of (tg_handlers R') m = map_of (tg_handlers R) m"
proof -
  have "specs = map (tool_of cfg) (filtered cfg ds) \<and>
      (if m \<in> tool_names (filtered cfg ds)
       then (\<exists>d \<in> set (filtered cfg ds). td_name d = m \<and> get_tool R' m = Some (tool_of cfg d)) \<and>
            is_available R' m \<and> map_of (tg_handlers R') m = Some (cn_call cn m)
       else map_of (tg_handlers R') m = map_of (tg_handlers R) m)"
    using assms
  proof (induction ds arbitrary: R specs)
    case (Cons d ds)
    show ?case
    proof (cases "allowed_tool cfg d")
      case False
      then show ?thesis using Cons by (auto simp: filtered_def)
    next
      case True
      then obtain R1 where r1: "register_tool (tool_of cfg d) (Some (cn_call cn (td_name d))) R = Inr R1"
        using Cons.prems by (auto split: sum.splits)
      let ?R2 = "set_tool_available (td_name d) True R1"
      obtain specs2 where r: "register_tools cfg cn ds ?R2 = (Inr specs2, R')" "specs = tool_of cfg d # specs2"
        using Cons.prems True r1 by (auto split: prod.splits sum.splits)
      have n: "ts_name (tool_of cfg d) = td_name d" by (simp add: tool_of_def)
      note at = register_tool_at[OF r1, unfolded n]
      have f: "filtered cfg (d # ds) = d # filtered cfg ds" using True by (simp add: filtered_def)
      show ?thesis
      proof (cases "m \<in> tool_names (filtered cfg ds)")
        case True
        then show ?thesis using Cons.IH[OF r(1)] r(2) unfolding f by (auto simp: tool_names_def)
      next
        case False
        have "dict_has (tg_tools R1) (td_name d)" using at(2)[of "td_name d"] by (simp add: is_available_def)
        then show ?thesis using False Cons.IH[OF r(1)] r(2) register_tools_keeps(1,2)[OF r(1) False] at(1)[of m] at(2)[of m] at(3)[of m]
          unfolding f by (auto simp: tool_names_def set_available_at)
      qed
    qed
  qed (simp add: filtered_def tool_names_def)
  then show "specs = map (tool_of cfg) (filtered cfg ds)"
    "m \<in> tool_names (filtered cfg ds) \<Longrightarrow> \<exists>d \<in> set (filtered cfg ds). td_name d = m \<and> get_tool R' m = Some (tool_of cfg d)"
    "m \<in> tool_names (filtered cfg ds) \<Longrightarrow> is_available R' m \<and> map_of (tg_handlers R') m = Some (cn_call cn m)"
    "m \<notin> tool_names (filtered cfg ds) \<Longrightarrow> map_of (tg_handlers R') m = map_of (tg_handlers R) m"
    by (simp_all split: if_splits)
qed

section \<open>Grants\<close>

text \<open>Either a grant that was issued, or none for a server that needs none, or a failure that the transport never sees.\<close>

lemma obtain_grant_cases:
  assumes "obtain_grant V cfg run now S w = (res, S', w')"
  shows "(\<not> needs_credentials cfg \<and> res = Inr None \<and> S' = S \<and> w' = w) \<or>
    (needs_credentials cfg \<and> (\<exists>g ref target source. res = Inr (Some g) \<and> S' = S \<and> sv_secret cfg = Some ref \<and> mv_grants V = Some source \<and>
      source ref target w = (Inr (Some g), w'))) \<or>
    (needs_credentials cfg \<and> (\<exists>m. res = Inl (Connection_error m)) \<and> mx_registry S' = mx_registry S \<and> mx_connections S' = mx_connections S \<and>
      mx_registered S' = mx_registered S \<and> mx_rows S' = mx_rows (persist_status cfg ''failed'' now S))"
  using assms unfolding obtain_grant_def needs_credentials_def
  by (auto simp: Let_def split: option.splits if_splits prod.splits sum.splits)

lemma connect_failed_grant:
  "obtain_grant V cfg run now S w = (Inl e, S', w') \<Longrightarrow> connect V cfg run now S w = (Inl e, S', w')"
  by (simp add: connect_def)

text \<open>What the attempt to connect does once the grant is settled.\<close>

lemma connect_success:
  assumes "connect V cfg run now S w = (Inr specs, S', w')"
  obtains grant w0 cn w1 ds R where
    "obtain_grant V cfg run now S w = (Inr grant, S, w0)" "mv_connect V cfg grant w0 = (Inr cn, w1)" "cn_list cn w1 = (Inr ds, w')"
    "register_tools cfg cn ds (mx_registry S) = (Inr specs, R)" "mx_registry S' = R"
    "mx_connections S' = dict_set (sv_id cfg) cn (mx_connections S)"
    "mx_registered S' = dict_set (sv_id cfg) (map ts_name specs) (mx_registered S)"
proof -
  obtain grant S0 w0 where g: "obtain_grant V cfg run now S w = (Inr grant, S0, w0)"
    using assms by (cases "obtain_grant V cfg run now S w") (auto simp: connect_def split: sum.splits)
  then have "S0 = S" using obtain_grant_cases[OF g] by auto
  then show ?thesis using assms g that
    by (auto simp: connect_def Let_def split: sum.splits prod.splits transport_error.splits)
qed

lemma handle_unreachable_same:
  "mx_registry (handle_unreachable cfg run now S) = mark_unavailable (registered_tool_names (sv_id cfg) S) (mx_registry S)"
  "mx_connections (handle_unreachable cfg run now S) = dict_del (sv_id cfg) (mx_connections S)"
  "mx_registered (handle_unreachable cfg run now S) = mx_registered S"
  by (simp_all add: handle_unreachable_def Let_def)

lemma connect_refused:
  assumes "connect V cfg run now S w = (Inl (Connection_error m), S', w')"
  shows "mx_registered S' = mx_registered S" "tg_tools (mx_registry S') = tg_tools (mx_registry S)"
    "is_available (mx_registry S') n \<longleftrightarrow>
       is_available (mx_registry S) n \<and> (n \<in> set (registered_tool_names (sv_id cfg) S) \<longrightarrow>
         (\<exists>e. fst (obtain_grant V cfg run now S w) = Inl e))"
proof -
  obtain res S0 w0 where g: "obtain_grant V cfg run now S w = (res, S0, w0)" by (cases "obtain_grant V cfg run now S w")
  have "mx_registered S' = mx_registered S \<and> tg_tools (mx_registry S') = tg_tools (mx_registry S) \<and>
    (is_available (mx_registry S') n \<longleftrightarrow> is_available (mx_registry S) n \<and> (n \<in> set (registered_tool_names (sv_id cfg) S) \<longrightarrow>
         (\<exists>e. fst (obtain_grant V cfg run now S w) = Inl e)))"
  proof (cases res)
    case (Inl e)
    then show ?thesis using connect_failed_grant[OF g[unfolded Inl]] assms obtain_grant_cases[OF g] g by auto
  next
    case (Inr grant)
    then have "S0 = S" using obtain_grant_cases[OF g] by auto
    then have "S' = handle_unreachable cfg run now S"
      using assms g Inr by (auto simp: connect_def Let_def split: sum.splits prod.splits transport_error.splits)
    then show ?thesis using g Inr by (simp add: handle_unreachable_same mark_unavailable_at)
  qed
  then show "mx_registered S' = mx_registered S" "tg_tools (mx_registry S') = tg_tools (mx_registry S)"
    "is_available (mx_registry S') n \<longleftrightarrow>
       is_available (mx_registry S) n \<and> (n \<in> set (registered_tool_names (sv_id cfg) S) \<longrightarrow>
         (\<exists>e. fst (obtain_grant V cfg run now S w) = Inl e))" by simp_all
qed

lemma connect_stopped:
  assumes "connect V cfg run now S w = (Inl (Bad_tool e), S', w')"
  shows "is_available (mx_registry S) n \<Longrightarrow> is_available (mx_registry S') n"
proof -
  obtain grant S0 w0 where g: "obtain_grant V cfg run now S w = (Inr grant, S0, w0)"
    using assms obtain_grant_cases[of V cfg run now S w] connect_failed_grant[of V cfg run now S w]
    by (cases "obtain_grant V cfg run now S w") (metis Inl_inject Inr_Inl_False mcp_error.distinct(1) prod.inject sumE)
  then have "S0 = S" using obtain_grant_cases[OF g] by auto
  then obtain cn ds where "register_tools cfg cn ds (mx_registry S) = (Inl e, mx_registry S')"
    using assms g by (auto simp: connect_def Let_def split: sum.splits prod.splits transport_error.splits)
  then show "is_available (mx_registry S) n \<Longrightarrow> is_available (mx_registry S') n" by (rule register_tools_keeps(3))
qed

text \<open>After a disconnection no tool that the server registered last can be invoked in any scope.\<close>

lemma disconnect_available:
  "is_available (mx_registry (fst (disconnect server run reason now S w))) n \<longleftrightarrow>
    is_available (mx_registry S) n \<and> n \<notin> set (registered_tool_names server S)"
  by (auto simp: disconnect_def registered_tool_names_def dict_get_or_def mark_unavailable_at Let_def split: option.splits)

lemma disconnect_catalog: "tg_tools (mx_registry (fst (disconnect server run reason now S w))) = tg_tools (mx_registry S)"
  by (auto simp: disconnect_def Let_def split: option.splits)

lemma unavailable_not_enabled: "\<not> is_available R n \<Longrightarrow> \<not> is_enabled R n sc"
  by (auto simp: is_available_def is_enabled_def get_tool_def dict_has_def split: option.splits)

end
