(* ===== verification/Skills.thy ===== *)
theory Skills
  imports Prelude "HOL-Library.Word"
begin

text \<open>
  \<open>core/skill_manager.py\<close>: skill documents, which open with a fenced block of \<open>key: value\<close> lines, and
  the catalog that decides how much of each skill an agent sees. Decoding of bytes is a pair of
  arguments: the strict decoder, which may refuse, and the one that replaces what it cannot read.
\<close>

section \<open>Documents\<close>

record skill =
  sk_name :: string
  sk_description :: string
  sk_body :: string
  sk_clean :: bool

record context_entry =
  sc_name :: string
  sc_description :: string
  sc_body :: "string option"

datatype document = Text string | Raw "8 word list"

abbreviation newline :: char where "newline \<equiv> CHR 0x0A"

definition fence :: string where "fence = ''---''"

definition coerce_text :: "(8 word list \<Rightarrow> string option) \<Rightarrow> (8 word list \<Rightarrow> string) \<Rightarrow> document \<Rightarrow> string \<times> bool" where
  "coerce_text strict lenient doc =
     (case doc of Text t \<Rightarrow> (t, True)
      | Raw bs \<Rightarrow> (case strict bs of Some t \<Rightarrow> (t, True) | None \<Rightarrow> (lenient bs, False)))"

text \<open>The lines before the closing fence and those after it.\<close>

fun close_fence :: "string list \<Rightarrow> (string list \<times> string list) option" where
  "close_fence [] = None"
| "close_fence (l # ls) =
     (if str_strip l = fence then Some ([], ls)
      else map_option (\<lambda>(front, body). (l # front, body)) (close_fence ls))"

definition split_frontmatter :: "string \<Rightarrow> string option \<times> string" where
  "split_frontmatter text =
     (case str_split_on newline (dropWhile (\<lambda>c. c = newline) text) of
        [] \<Rightarrow> (None, text)
      | l # ls \<Rightarrow>
          if str_strip l \<noteq> fence then (None, text)
          else (case close_fence ls of None \<Rightarrow> (None, text)
                | Some (front, body) \<Rightarrow> (Some (str_join [newline] front), str_join [newline] body)))"

fun frontmatter_line :: "string \<Rightarrow> (string, string) dict \<times> bool \<Rightarrow> (string, string) dict \<times> bool" where
  "frontmatter_line line (flds, ok) =
     (if str_strip line = [] then (flds, ok)
      else (case str_partition CHR '':'' line of (key, sep, v) \<Rightarrow>
        if \<not> sep \<or> str_strip key = [] then (flds, False)
        else (dict_set (str_strip key) (str_strip v) flds, ok)))"

definition parse_frontmatter :: "string \<Rightarrow> (string, string) dict \<times> bool" where
  "parse_frontmatter front = fold frontmatter_line (str_split_on newline front) ([], True)"

definition parse_text :: "string \<Rightarrow> bool \<Rightarrow> skill" where
  "parse_text text decoded =
     (case split_frontmatter text of
        (None, _) \<Rightarrow> \<lparr>sk_name = [], sk_description = [], sk_body = text, sk_clean = False\<rparr>
      | (Some front, body) \<Rightarrow>
          (case parse_frontmatter front of (flds, ok) \<Rightarrow>
             \<lparr>sk_name = dict_get_or flds ''name'' [], sk_description = dict_get_or flds ''description'' [],
              sk_body = body, sk_clean = (decoded \<and> ok \<and> dict_has flds ''name'')\<rparr>))"

definition parse_skill_document ::
  "(8 word list \<Rightarrow> string option) \<Rightarrow> (8 word list \<Rightarrow> string) \<Rightarrow> document \<Rightarrow> skill" where
  "parse_skill_document strict lenient doc =
     (case coerce_text strict lenient doc of (text, decoded) \<Rightarrow> parse_text text decoded)"

definition format_skill_document :: "skill \<Rightarrow> string" where
  "format_skill_document s =
     str_join [newline] ([fence, ''name: '' @ sk_name s, ''description: '' @ sk_description s, fence] @
       (if sk_body s = [] then [] else [sk_body s]))"

section \<open>The catalog\<close>

type_synonym catalog = "(string, skill) dict"

definition register_skill :: "skill \<Rightarrow> catalog \<Rightarrow> catalog" where
  "register_skill s C = dict_set (sk_name s) s C"

definition register_document ::
  "(8 word list \<Rightarrow> string option) \<Rightarrow> (8 word list \<Rightarrow> string) \<Rightarrow> document \<Rightarrow> catalog \<Rightarrow> skill \<times> catalog" where
  "register_document strict lenient doc C =
     (let s = parse_skill_document strict lenient doc in (s, register_skill s C))"

definition new_catalog :: "skill list \<Rightarrow> catalog" where
  "new_catalog skills = fold register_skill skills []"

definition get_skill :: "string \<Rightarrow> catalog \<Rightarrow> skill option" where
  "get_skill name C = map_of C name"

definition all_skills :: "catalog \<Rightarrow> skill list" where
  "all_skills C = map snd C"

definition build_context :: "string list \<Rightarrow> (skill \<Rightarrow> bool) option \<Rightarrow> catalog \<Rightarrow> context_entry list" where
  "build_context relevant is_relevant C =
     map (\<lambda>s. \<lparr>sc_name = sk_name s, sc_description = sk_description s,
        sc_body = (if sk_name s \<in> set relevant \<or> (case is_relevant of None \<Rightarrow> False | Some p \<Rightarrow> p s)
                   then Some (sk_body s) else None)\<rparr>) (all_skills C)"

section \<open>Lines\<close>

lemma dropWhile_idem: "dropWhile P (dropWhile P xs) = dropWhile P xs"
  by (induction xs) auto

lemma strip_twice [simp]: "str_strip (str_strip s) = str_strip s"
proof -
  have front: "dropWhile is_space (rev (dropWhile is_space (rev xs))) = rev (dropWhile is_space (rev xs))"
    if "dropWhile is_space xs = xs" for xs
  proof (cases xs rule: rev_cases)
    case (snoc ys y)
    show ?thesis
    proof (cases xs)
      case (Cons c cs)
      have "length (dropWhile is_space cs) \<le> length cs" by (rule length_dropWhile_le)
      then have c: "\<not> is_space c" using that Cons by (auto split: if_splits)
      have "rev (dropWhile is_space (rev (c # cs))) = c # rev (dropWhile is_space (rev cs))"
        using c by (induction cs rule: rev_induct) auto
      then show ?thesis using Cons c by simp
    qed simp
  qed simp
  show ?thesis unfolding str_strip_def by (simp add: front[OF dropWhile_idem] dropWhile_idem)
qed

lemma strip_subset: "c \<in> set (str_strip s) \<Longrightarrow> c \<in> set s"
  unfolding str_strip_def by (auto dest!: set_dropWhileD)

lemma strip_space [simp]: "is_space c \<Longrightarrow> str_strip (c # s) = str_strip s"
  by (simp add: str_strip_def)

lemma strip_hd: "\<not> is_space c \<Longrightarrow> \<exists>r. str_strip (c # s) = c # r"
proof -
  assume c: "\<not> is_space c"
  have "rev (dropWhile is_space (rev (c # s))) = c # rev (dropWhile is_space (rev s))"
    using c by (induction s rule: rev_induct) auto
  then show ?thesis using c by (simp add: str_strip_def)
qed

lemma partition_subset: "str_partition d s = (a, b, r) \<Longrightarrow> set a \<subseteq> set s \<and> set r \<subseteq> set s"
  by (induction s arbitrary: a b r) (auto split: if_splits prod.splits)

lemma partition_prefix: "d \<notin> set p \<Longrightarrow> str_partition d (p @ d # r) = (p, True, r)"
  by (induction p) auto

lemma split_lines: "l \<in> set (split_on_acc d acc s) \<Longrightarrow> d \<notin> set acc \<Longrightarrow> d \<notin> set l"
  by (induction d acc s rule: split_on_acc.induct) (auto split: if_splits)

lemma split_acc_ne [simp]: "split_on_acc d acc s \<noteq> []"
  by (induction s arbitrary: acc) auto

lemma join_Cons: "xs \<noteq> [] \<Longrightarrow> str_join sep (x # xs) = x @ sep @ str_join sep xs"
  by (cases xs) auto

lemma join_split: "str_join [d] (split_on_acc d acc s) = acc @ s"
  by (induction s arbitrary: acc) (auto simp: join_Cons)

section \<open>The round trip\<close>

text \<open>What a line can hold between the separator and its end.\<close>

definition field_value :: "string \<Rightarrow> bool" where
  "field_value v \<longleftrightarrow> newline \<notin> set v \<and> str_strip v = v"

definition fields_ok :: "(string, string) dict \<Rightarrow> bool" where
  "fields_ok d \<longleftrightarrow> (\<forall>v \<in> ran (map_of d). field_value v)"

lemma frontmatter_line_ok:
  assumes "newline \<notin> set l" "fields_ok d" "frontmatter_line l (d, ok) = (d', ok')"
  shows "fields_ok d'"
proof (cases "d' = d")
  case False
  then obtain key v where kv: "str_partition CHR '':'' l = (key, True, v)" "d' = dict_set (str_strip key) (str_strip v) d"
    using assms(3) by (auto split: if_splits prod.splits)
  have "newline \<notin> set (str_strip v)" using partition_subset[OF kv(1)] assms(1) strip_subset by blast
  then have "field_value (str_strip v)" by (simp add: field_value_def)
  then show ?thesis using assms(2) unfolding kv(2) fields_ok_def by (auto simp: dict_set_get ran_def)
qed (use assms in simp)

lemma fold_fields_ok:
  "\<forall>l \<in> set ls. newline \<notin> set l \<Longrightarrow> fields_ok (fst p) \<Longrightarrow> fields_ok (fst (fold frontmatter_line ls p))"
proof (induction ls arbitrary: p)
  case (Cons l ls)
  have "fields_ok (fst (frontmatter_line l p))"
    using Cons.prems frontmatter_line_ok[of l "fst p" "snd p"] by (cases "frontmatter_line l p") auto
  then show ?case using Cons by simp
qed simp

lemma parse_frontmatter_ok: "fields_ok (fst (parse_frontmatter front))"
  unfolding parse_frontmatter_def
  by (rule fold_fields_ok) (auto simp: str_split_on_def fields_ok_def dest: split_lines)

lemma field_value_get: "fields_ok d \<Longrightarrow> field_value (dict_get_or d k [])"
  by (auto simp: fields_ok_def dict_get_or_def ran_def field_value_def str_strip_def split: option.splits)

lemma field_value_empty: "field_value []"
  by (simp add: field_value_def str_strip_def)

lemma parsed_flds:
  "field_value (sk_name (parse_text text decoded)) \<and> field_value (sk_description (parse_text text decoded))"
proof (cases "split_frontmatter text")
  case (Pair front body)
  show ?thesis
  proof (cases front)
    case None
    then show ?thesis by (simp add: parse_text_def Pair field_value_empty)
  next
    case (Some f)
    obtain flds ok where p: "parse_frontmatter f = (flds, ok)" by force
    then have "fields_ok flds" using parse_frontmatter_ok[of f] by simp
    then show ?thesis by (simp add: parse_text_def Pair Some p field_value_get)
  qed
qed

definition field_line :: "string \<Rightarrow> string \<Rightarrow> string" where
  "field_line k v = k @ CHR '':'' # CHR '' '' # v"

lemma field_line_read:
  assumes "field_value v" "k \<noteq> []" "\<forall>c \<in> set k. \<not> is_space c \<and> c \<noteq> CHR '':''"
  shows "frontmatter_line (field_line k v) (d, ok) = (dict_set k v d, ok)"
proof -
  obtain c cs where k: "k = c # cs" using assms(2) by (cases k) auto
  obtain r where "str_strip (field_line k v) = c # r"
    using strip_hd[of c] assms(3) unfolding k field_line_def by auto
  moreover have "str_partition CHR '':'' (field_line k v) = (k, True, CHR '' '' # v)"
    unfolding field_line_def using assms(3) by (intro partition_prefix) auto
  moreover have "str_strip k = k" using assms(3) by (simp add: str_strip_id)
  moreover have "is_space CHR '' ''" by (simp add: is_space_def code_def)
  ultimately show ?thesis using assms(1,2) by (simp add: field_value_def)
qed


text \<open>The lines of a formatted document, and what the parser reads from them.\<close>

definition head_lines :: "skill \<Rightarrow> string list" where
  "head_lines s = [fence, field_line ''name'' (sk_name s), field_line ''description'' (sk_description s), fence]"

lemma head_lines_plain:
  assumes "field_value (sk_name s)" "field_value (sk_description s)"
  shows "\<forall>l \<in> set (head_lines s). newline \<notin> set l"
  using assms by (auto simp: head_lines_def field_line_def field_value_def fence_def)

lemma split_join_rest:
  assumes "\<forall>l \<in> set ls. d \<notin> set l" "ls \<noteq> []"
  shows "str_split_on d (str_join [d] (ls @ [b])) = ls @ str_split_on d b"
  using assms unfolding str_split_on_def
proof (induction ls)
  case (Cons l ls)
  show ?case
  proof (cases "ls = []")
    case True
    then show ?thesis using Cons.prems split_on_acc_sep[of d l "[]" b] by simp
  next
    case False
    then show ?thesis using Cons split_on_acc_sep[of d l "[]"] by (simp add: join_Cons)
  qed
qed simp

lemma formatted_lines:
  assumes "field_value (sk_name s)" "field_value (sk_description s)"
  shows "str_split_on newline (format_skill_document s) =
    head_lines s @ (if sk_body s = [] then [] else str_split_on newline (sk_body s))"
proof -
  have f: "format_skill_document s = str_join [newline] (head_lines s @ (if sk_body s = [] then [] else [sk_body s]))"
    by (simp add: format_skill_document_def head_lines_def field_line_def)
  have "head_lines s \<noteq> []" by (simp add: head_lines_def)
  then show ?thesis unfolding f
    using head_lines_plain[OF assms] split_join_rest[of "head_lines s" newline "sk_body s"] str_split_on_join[of "head_lines s" newline]
    by simp
qed

lemma formatted_start: "dropWhile (\<lambda>c. c = newline) (format_skill_document s) = format_skill_document s"
  by (simp add: format_skill_document_def fence_def)

lemma fence_strip: "str_strip fence = fence"
  by (rule str_strip_id) (simp add: fence_def is_space_def code_def)

lemma field_line_not_fence: "c \<noteq> CHR ''-'' \<Longrightarrow> \<not> is_space c \<Longrightarrow> str_strip (field_line (c # k) v) \<noteq> fence"
  using strip_hd[of c "k @ CHR '':'' # CHR '' '' # v"] by (auto simp: field_line_def fence_def)

lemma formatted_split:
  assumes "field_value (sk_name s)" "field_value (sk_description s)"
  shows "split_frontmatter (format_skill_document s) =
    (Some (str_join [newline] [field_line ''name'' (sk_name s), field_line ''description'' (sk_description s)]), sk_body s)"
proof -
  have n: "str_strip (field_line ''name'' v) \<noteq> fence" "str_strip (field_line ''description'' v) \<noteq> fence" for v
    by (rule field_line_not_fence; simp add: is_space_def code_def)+
  have b: "str_join [newline] (str_split_on newline b) = b" for b
    by (simp add: str_split_on_def join_split)
  show ?thesis unfolding split_frontmatter_def formatted_start formatted_lines[OF assms] head_lines_def
    by (simp add: n fence_strip b)
qed

lemma formatted_fields:
  assumes "field_value n" "field_value d"
  shows "parse_frontmatter (str_join [newline] [field_line ''name'' n, field_line ''description'' d]) =
    ([(''name'', n), (''description'', d)], True)"
proof -
  have k: "\<forall>c \<in> set k. \<not> is_space c \<and> c \<noteq> CHR '':''" if "k = ''name'' \<or> k = ''description''" for k
    using that by (elim disjE) (simp_all add: is_space_def code_def)
  have "str_split_on newline (str_join [newline] [field_line ''name'' n, field_line ''description'' d]) =
      [field_line ''name'' n, field_line ''description'' d]"
    using assms by (intro str_split_on_join) (auto simp: field_line_def field_value_def)
  then show ?thesis unfolding parse_frontmatter_def
    by (simp add: field_line_read[OF assms(1) _ k] field_line_read[OF assms(2) _ k] del: frontmatter_line.simps)
qed

lemma parse_format:
  assumes "field_value (sk_name s)" "field_value (sk_description s)"
  shows "parse_text (format_skill_document s) decoded = s\<lparr>sk_clean := decoded\<rparr>"
  by (simp add: parse_text_def formatted_split[OF assms] formatted_fields[OF assms] dict_get_or_def dict_has_def del: str_join.simps)

lemma parse_format_parse:
  "parse_skill_document strict lenient (Text (format_skill_document (parse_skill_document strict lenient doc))) =
    (parse_skill_document strict lenient doc)\<lparr>sk_clean := True\<rparr>"
  using parsed_flds by (cases "coerce_text strict lenient doc") (simp add: parse_skill_document_def coerce_text_def parse_format)

text \<open>A document without a closed block is kept whole.\<close>

lemma no_block_kept: "fst (split_frontmatter text) = None \<Longrightarrow> sk_body (parse_text text d) = text"
  by (cases "split_frontmatter text") (simp add: parse_text_def)

section \<open>The catalog\<close>

definition catalog_ok :: "catalog \<Rightarrow> bool" where
  "catalog_ok C \<longleftrightarrow> dict_ok C \<and> (\<forall>p \<in> set C. sk_name (snd p) = fst p)"

lemma register_skill_ok: "catalog_ok C \<Longrightarrow> catalog_ok (register_skill s C)"
proof -
  have "set (dict_set k v d) \<subseteq> insert (k, v) (set d)" for k :: string and v :: skill and d by (induction d) auto
  then show "catalog_ok C \<Longrightarrow> catalog_ok (register_skill s C)"
    unfolding catalog_ok_def register_skill_def by (fastforce intro: dict_set_ok)
qed

lemma new_catalog_ok: "catalog_ok (new_catalog skills)"
proof -
  have keeps: "catalog_ok C \<Longrightarrow> catalog_ok (fold register_skill skills C)" for C
    by (induction skills arbitrary: C) (simp_all add: register_skill_ok)
  show ?thesis unfolding new_catalog_def by (rule keeps) (simp add: catalog_ok_def)
qed

lemma context_names: "catalog_ok C \<Longrightarrow> map sc_name (build_context rel p C) = dict_keys C"
  by (auto simp: build_context_def all_skills_def catalog_ok_def)

lemma context_entry_of:
  assumes "catalog_ok C" "get_skill n C = Some s"
  shows "\<lparr>sc_name = n, sc_description = sk_description s,
    sc_body = (if n \<in> set rel \<or> (\<exists>q. p = Some q \<and> q s) then Some (sk_body s) else None)\<rparr> \<in> set (build_context rel p C)"
proof -
  have m: "(n, s) \<in> set C" using assms(2) by (simp add: get_skill_def map_of_SomeD)
  then have "sk_name s = n" using assms(1) unfolding catalog_ok_def by fastforce
  moreover have "s \<in> set (all_skills C)" using m by (force simp: all_skills_def)
  ultimately show ?thesis unfolding build_context_def by (force split: option.splits)
qed

end
