(* ===== verification/Providers.thy ===== *)
theory Providers
  imports Api_Handlers
begin

text \<open>
  \<open>core/provider_service.py\<close> and \<open>core/provider_types.py\<close>: the settings of model providers, their session
  secrets and their test; \<open>cp/handlers/providers.py\<close>: the routes. A secret is held in memory only. The
  process environment and the packages that talk to a provider are arguments.
\<close>

section \<open>Kinds of providers\<close>

record type_spec =
  py_label :: string
  py_description :: string
  py_modes :: "string list"
  py_model :: string
  py_examples :: "string list"
  py_base_hint :: "string option"
  py_version_hint :: "string option"
  py_requires :: bool
  py_local_http :: bool

definition provider_types :: "(string, type_spec) dict" where
  "provider_types = [
    (''mock'', \<lparr>py_label = ''VLoop Mock LM'',
       py_description = ''Local deterministic DSPy-compatible provider for smoke testing and first-run exploration.'',
       py_modes = [''none''], py_model = ''mock/echo-agent'', py_examples = [''mock/echo-agent''], py_base_hint = None,
       py_version_hint = None, py_requires = False, py_local_http = False\<rparr>),
    (''ollama'', \<lparr>py_label = ''Ollama'',
       py_description = ''Use a local Ollama daemon over loopback without any cloud credentials.'',
       py_modes = [''none''], py_model = ''ollama/llama3.2'', py_examples = [''ollama/llama3.2'', ''ollama/qwen2.5:7b''],
       py_base_hint = Some ''http://127.0.0.1:11434'', py_version_hint = None, py_requires = False, py_local_http = True\<rparr>),
    (''openai'', \<lparr>py_label = ''OpenAI'', py_description = ''Use OpenAI-hosted chat or responses models through LiteLLM.'',
       py_modes = [''env'', ''session''], py_model = ''openai/gpt-4o-mini'', py_examples = [''openai/gpt-4o-mini'', ''openai/gpt-4.1-mini''],
       py_base_hint = None, py_version_hint = None, py_requires = True, py_local_http = False\<rparr>),
    (''anthropic'', \<lparr>py_label = ''Anthropic'', py_description = ''Use Anthropic Claude models through LiteLLM.'',
       py_modes = [''env'', ''session''], py_model = ''anthropic/claude-3-5-sonnet-latest'',
       py_examples = [''anthropic/claude-3-5-sonnet-latest'', ''anthropic/claude-3-5-haiku-latest''],
       py_base_hint = None, py_version_hint = None, py_requires = True, py_local_http = False\<rparr>),
    (''openrouter'', \<lparr>py_label = ''OpenRouter'',
       py_description = ''Route OpenAI-compatible traffic through OpenRouter with a provider-prefixed model string.'',
       py_modes = [''env'', ''session''], py_model = ''openrouter/openai/gpt-4o-mini'',
       py_examples = [''openrouter/openai/gpt-4o-mini'', ''openrouter/anthropic/claude-3.5-sonnet''],
       py_base_hint = Some ''https://openrouter.ai/api/v1'', py_version_hint = None, py_requires = True, py_local_http = False\<rparr>),
    (''azure'', \<lparr>py_label = ''Azure OpenAI'',
       py_description = ''Use Azure OpenAI deployments via LiteLLM with an Azure-style deployment model string.'',
       py_modes = [''env'', ''session''], py_model = ''azure/my-deployment'', py_examples = [''azure/my-deployment''],
       py_base_hint = Some ''https://your-resource.openai.azure.com'', py_version_hint = Some ''2024-10-21'',
       py_requires = True, py_local_http = False\<rparr>)]"

definition strings_json :: "string list \<Rightarrow> json" where
  "strings_json xs = JList (map JStr xs)"

definition spec_view :: "string \<times> type_spec \<Rightarrow> json" where
  "spec_view p = (case p of (k, s) \<Rightarrow>
     JObj [(''key'', JStr k), (''label'', JStr (py_label s)), (''description'', JStr (py_description s)),
       (''secret_modes'', strings_json (py_modes s)), (''default_model'', JStr (py_model s)), (''model_examples'', strings_json (py_examples s)),
       (''api_base_hint'', opt_str (py_base_hint s)), (''api_version_hint'', opt_str (py_version_hint s)),
       (''requires_secret'', JBool (py_requires s)), (''local_only_http'', JBool (py_local_http s))])"

definition provider_catalog :: json where
  "provider_catalog = JList (map spec_view provider_types)"

section \<open>State\<close>

record provider_row =
  pv_name :: string
  pv_type :: string
  pv_enabled :: bool
  pv_model :: string
  pv_base :: "string option"
  pv_version :: "string option"
  pv_organization :: "string option"
  pv_mode :: string
  pv_env :: "string option"
  pv_revision :: int
  pv_test_status :: string
  pv_test_error :: "string option"
  pv_tested :: "string option"
  pv_created :: string
  pv_updated :: string

record provider_db =
  pd_rows :: "(string, provider_row) dict"
  pd_secrets :: "(string, string) dict"
  pd_now :: string

record lm_args =
  la_model :: string
  la_temperature :: rat
  la_max_tokens :: int
  la_base :: "string option"
  la_version :: "string option"
  la_organization :: "string option"
  la_key :: "string option"

type_synonym language_model = "string \<Rightarrow> string + json"

text \<open>\<open>pe_dspy\<close> is absent when the package is not installed; \<open>pe_mock\<close> is the language model of the mock provider.\<close>

record provider_env =
  pe_float :: "rat \<Rightarrow> string"
  pe_environ :: "string \<Rightarrow> string option"
  pe_dspy :: "(lm_args \<Rightarrow> string + language_model) option"
  pe_mock :: "string \<Rightarrow> string + language_model"
  pe_fresh :: string

section \<open>The normal form of a payload\<close>

definition payload_text :: "provider_env \<Rightarrow> json \<Rightarrow> string" where
  "payload_text V v = str_strip (py_str (pe_float V) v)"

definition clean_optional :: "provider_env \<Rightarrow> json \<Rightarrow> string option" where
  "clean_optional V v = (let t = (if v = JNull then [] else payload_text V v) in if t = [] then None else Some t)"

text \<open>The pattern for a loopback address: a port is optional.\<close>

definition port_suffix :: "string \<Rightarrow> bool" where
  "port_suffix s = (case s of [] \<Rightarrow> True | c # ds \<Rightarrow> c = CHR '':'' \<and> ds \<noteq> [] \<and> list_all is_decimal ds)"

definition loopback_http :: "string \<Rightarrow> bool" where
  "loopback_http s = list_ex (\<lambda>host. str_prefix host s \<and> port_suffix (drop (length host) s))
     [''http://127.0.0.1'', ''http://localhost'']"

definition session_secret :: "provider_env \<Rightarrow> obj \<Rightarrow> string" where
  "session_secret V d = payload_text V (either (obj_get d ''sessionSecret'') (JStr []))"

definition given :: "(string \<Rightarrow> bool) \<Rightarrow> string option \<Rightarrow> bool" where
  "given p s = (case s of None \<Rightarrow> False | Some t \<Rightarrow> p t)"

record normal_provider =
  np_id :: string
  np_name :: string
  np_type :: string
  np_enabled :: bool
  np_model :: string
  np_base :: "string option"
  np_version :: "string option"
  np_organization :: "string option"
  np_mode :: string
  np_env :: "string option"

definition normalize_provider :: "provider_env \<Rightarrow> string option \<Rightarrow> obj \<Rightarrow> py_error + normal_provider" where
  "normalize_provider V pid d =
     (let ty = payload_text V (either (obj_get d ''providerType'') (either (obj_get d ''provider_type'') (JStr []))) in
      case map_of provider_types ty of
        None \<Rightarrow> Inl (py_error.Value_error (''unsupported provider type: '' @ (if ty = [] then ''<empty>'' else ty)))
      | Some kind \<Rightarrow>
          (let name = payload_text V (either (obj_get d ''name'') (JStr [])) in
           rbind (require_that (2 \<le> length name) ''provider name must be at least 2 characters'') (\<lambda>_.
           let mode = payload_text V (either (obj_get d ''secretMode'') (either (obj_get d ''secret_mode'') (JStr ''none''))) in
           rbind (require_that (mode \<in> set (py_modes kind))
             (''provider type '' @ ticked ty @ '' supports secret modes: '' @ str_join '', '' (py_modes kind))) (\<lambda>_.
           let model = payload_text V (either (obj_get d ''defaultModel'') (either (obj_get d ''default_model'') (JStr (py_model kind)))) in
           rbind (require_that (model \<noteq> []) ''provider defaultModel is required'') (\<lambda>_.
           let base = clean_optional V (either (obj_get d ''apiBase'') (obj_get d ''api_base''));
               version = clean_optional V (either (obj_get d ''apiVersion'') (obj_get d ''api_version''));
               organization = clean_optional V (obj_get d ''organization'');
               env = clean_optional V (either (obj_get d ''secretEnvVar'') (obj_get d ''secret_env_var'')) in
           rbind (require_that (\<not> (mode = ''env'' \<and> env = None)) ''secretEnvVar is required when secretMode is `env`'') (\<lambda>_.
           rbind (require_that (\<not> (mode = ''session'' \<and> session_secret V d = [] \<and> pid = None))
             ''sessionSecret is required for new providers using session secret mode'') (\<lambda>_.
           rbind (require_that (\<not> (given (str_prefix ''http://'') base \<and> \<not> py_local_http kind))
             ''remote provider apiBase values must use https://'') (\<lambda>_.
           rbind (require_that (\<not> (py_local_http kind \<and> given (\<lambda>b. \<not> loopback_http b) base))
             ''Ollama apiBase must point at a loopback http://127.0.0.1 or http://localhost address'') (\<lambda>_.
             Inr \<lparr>np_id = given_id pid (pe_fresh V), np_name = name, np_type = ty,
               np_enabled = (case map_of d ''enabled'' of None \<Rightarrow> True | Some v \<Rightarrow> truthy v), np_model = model, np_base = base,
               np_version = version, np_organization = organization, np_mode = mode, np_env = env\<rparr>)))))))))"

section \<open>Views\<close>

text \<open>A view says that there is a secret, never what it is.\<close>

definition has_secret :: "provider_env \<Rightarrow> (string, string) dict \<Rightarrow> string \<Rightarrow> provider_row \<Rightarrow> bool" where
  "has_secret V secrets i r =
     (if pv_mode r = ''none'' then True
      else if pv_mode r = ''env'' then
        (case pv_env r of None \<Rightarrow> False | Some v \<Rightarrow> v \<noteq> [] \<and> (case pe_environ V v of None \<Rightarrow> False | Some s \<Rightarrow> s \<noteq> []))
      else if pv_mode r = ''session'' then dict_has secrets i
      else False)"

definition provider_view :: "provider_env \<Rightarrow> (string, string) dict \<Rightarrow> string \<Rightarrow> provider_row \<Rightarrow> json" where
  "provider_view V secrets i r = JObj [(''id'', JStr i), (''name'', JStr (pv_name r)), (''providerType'', JStr (pv_type r)),
     (''enabled'', JBool (pv_enabled r)), (''defaultModel'', JStr (pv_model r)), (''apiBase'', opt_str (pv_base r)),
     (''apiVersion'', opt_str (pv_version r)), (''organization'', opt_str (pv_organization r)), (''secretMode'', JStr (pv_mode r)),
     (''secretEnvVar'', opt_str (pv_env r)), (''hasSecret'', JBool (has_secret V secrets i r)), (''revision'', JInt (pv_revision r)),
     (''lastTestStatus'', JStr (pv_test_status r)), (''lastTestError'', opt_str (pv_test_error r)),
     (''lastTestedAt'', opt_str (pv_tested r)), (''createdAt'', JStr (pv_created r)), (''updatedAt'', JStr (pv_updated r))]"

definition list_providers :: "provider_env \<Rightarrow> provider_db \<Rightarrow> json" where
  "list_providers V D = JList (map (\<lambda>(i, r). provider_view V (pd_secrets D) i r)
     (sort_desc (\<lambda>(i, r). pv_updated r) (sort_key (\<lambda>(i, r). pv_name r) (pd_rows D))))"

definition get_provider :: "provider_env \<Rightarrow> string \<Rightarrow> provider_db \<Rightarrow> json option" where
  "get_provider V i D = map_option (provider_view V (pd_secrets D) i) (map_of (pd_rows D) i)"

definition provider_missing :: "string \<Rightarrow> py_error" where
  "provider_missing i = Key_error (''provider '' @ ticked i @ '' was not found'')"

definition require_provider :: "provider_env \<Rightarrow> string \<Rightarrow> provider_db \<Rightarrow> py_error + json" where
  "require_provider V i D = (case get_provider V i D of None \<Rightarrow> Inl (provider_missing i) | Some v \<Rightarrow> Inr v)"

section \<open>Saving and deleting\<close>

definition saved_row :: "normal_provider \<Rightarrow> string \<Rightarrow> provider_row option \<Rightarrow> provider_row" where
  "saved_row n now old =
     \<lparr>pv_name = np_name n, pv_type = np_type n, pv_enabled = np_enabled n, pv_model = np_model n, pv_base = np_base n,
      pv_version = np_version n, pv_organization = np_organization n, pv_mode = np_mode n, pv_env = np_env n,
      pv_revision = (case old of None \<Rightarrow> 1 | Some r \<Rightarrow> pv_revision r + 1),
      pv_test_status = (case old of None \<Rightarrow> ''unknown'' | Some r \<Rightarrow> pv_test_status r),
      pv_test_error = (case old of None \<Rightarrow> None | Some r \<Rightarrow> pv_test_error r),
      pv_tested = (case old of None \<Rightarrow> None | Some r \<Rightarrow> pv_tested r),
      pv_created = (case old of None \<Rightarrow> now | Some r \<Rightarrow> pv_created r), pv_updated = now\<rparr>"

definition kept_secrets :: "provider_env \<Rightarrow> normal_provider \<Rightarrow> obj \<Rightarrow> (string, string) dict \<Rightarrow> (string, string) dict" where
  "kept_secrets V n d secrets =
     (if np_mode n = ''session'' then
        (if session_secret V d \<noteq> [] then dict_set (np_id n) (session_secret V d) secrets
         else if truthy (obj_get d ''clearSessionSecret'') then dict_del (np_id n) secrets
         else secrets)
      else dict_del (np_id n) secrets)"

text \<open>The column of the names is unique.\<close>

definition name_taken :: "provider_db \<Rightarrow> string \<Rightarrow> string \<Rightarrow> bool" where
  "name_taken D i name = list_ex (\<lambda>(j, r). j \<noteq> i \<and> pv_name r = name) (pd_rows D)"

definition save_provider :: "provider_env \<Rightarrow> string option \<Rightarrow> obj \<Rightarrow> provider_db \<Rightarrow> py_error + json \<times> provider_db" where
  "save_provider V pid d D =
     rbind (normalize_provider V pid d) (\<lambda>n.
       if name_taken D (np_id n) (np_name n) then Inl (Integrity_error ''UNIQUE constraint failed: providers.name'')
       else let D' = D\<lparr>pd_rows := dict_set (np_id n) (saved_row n (pd_now D) (map_of (pd_rows D) (np_id n))) (pd_rows D),
                  pd_secrets := kept_secrets V n d (pd_secrets D)\<rparr>
       in case get_provider V (np_id n) D' of
            None \<Rightarrow> Inl (Runtime_error ''provider save succeeded but the provider could not be reloaded'')
          | Some v \<Rightarrow> Inr (v, D'))"

definition delete_provider :: "string \<Rightarrow> provider_db \<Rightarrow> provider_db" where
  "delete_provider i D = D\<lparr>pd_rows := dict_del i (pd_rows D), pd_secrets := dict_del i (pd_secrets D)\<rparr>"

definition delete_session_secret :: "provider_env \<Rightarrow> string \<Rightarrow> provider_db \<Rightarrow> (py_error + json) \<times> provider_db" where
  "delete_session_secret V i D =
     (let D1 = D\<lparr>pd_secrets := dict_del i (pd_secrets D)\<rparr> in
      case map_of (pd_rows D) i of
        None \<Rightarrow> (Inl (provider_missing i), D1)
      | Some r \<Rightarrow>
          let D2 = (if pv_mode r = ''session''
                    then D1\<lparr>pd_rows := dict_set i (r\<lparr>pv_test_status := ''unknown'', pv_test_error := None\<rparr>) (pd_rows D1)\<rparr> else D1)
          in (require_provider V i D2, D2))"

section \<open>Language models\<close>

definition resolve_secret :: "provider_env \<Rightarrow> string \<Rightarrow> provider_row \<Rightarrow> (string, string) dict \<Rightarrow> py_error + string option" where
  "resolve_secret V i r secrets =
     (if pv_mode r = ''none'' then Inr None
      else if pv_mode r = ''env'' then
        (let var = (case pv_env r of None \<Rightarrow> [] | Some v \<Rightarrow> v) in
         case pe_environ V var of
           Some (c # cs) \<Rightarrow> Inr (Some (c # cs))
         | _ \<Rightarrow> Inl (Runtime_error (''environment variable '' @ ticked var @ '' is not set for provider '' @ ticked (pv_name r))))
      else if pv_mode r = ''session'' then
        (case map_of secrets i of
           Some (c # cs) \<Rightarrow> Inr (Some (c # cs))
         | _ \<Rightarrow> Inl (Runtime_error (''provider '' @ ticked (pv_name r) @ '' requires a session secret before it can be used'')))
      else Inl (Runtime_error (''unsupported secret mode '' @ ticked (pv_mode r))))"

text \<open>An argument that is empty is not passed on.\<close>

definition given_text :: "string option \<Rightarrow> string option" where
  "given_text s = (if s = Some [] then None else s)"

definition build_lm ::
  "provider_env \<Rightarrow> string \<Rightarrow> string option \<Rightarrow> rat option \<Rightarrow> int option \<Rightarrow> provider_db \<Rightarrow> py_error + language_model" where
  "build_lm V i override temp tokens D =
     (case map_of (pd_rows D) i of
        None \<Rightarrow> Inl (provider_missing i)
      | Some r \<Rightarrow>
          if pv_type r = ''mock'' then
            fails Other_error (pe_mock V (if pv_model r = [] then ''mock/echo-agent'' else pv_model r))
          else (case pe_dspy V of
             None \<Rightarrow> Inl (Runtime_error ''DSPy is required to build language-model clients. Install the control-plane dependencies first.'')
           | Some lm \<Rightarrow>
               rbind (resolve_secret V i r (pd_secrets D)) (\<lambda>key.
               let model = str_strip (case given_text override of None \<Rightarrow> pv_model r | Some m \<Rightarrow> m) in
               rbind (require_that (model \<noteq> []) ''provider is missing a default model'') (\<lambda>_.
                 fails Other_error (lm \<lparr>la_model = model, la_temperature = (case temp of None \<Rightarrow> 2 / 10 | Some t \<Rightarrow> t),
                   la_max_tokens = (case tokens of None \<Rightarrow> 700 | Some n \<Rightarrow> n), la_base = given_text (pv_base r),
                   la_version = given_text (pv_version r), la_organization = given_text (pv_organization r), la_key = key\<rparr>)))))"

definition text_output :: "provider_env \<Rightarrow> json \<Rightarrow> string" where
  "text_output V out =
     (case out of
        JList (JStr s # _) \<Rightarrow> s
      | JList (JObj o1 # _) \<Rightarrow> py_str (pe_float V) (either (obj_get o1 ''text'') (JObj o1))
      | _ \<Rightarrow> py_str (pe_float V) out)"

definition try_provider :: "provider_env \<Rightarrow> string \<Rightarrow> provider_row \<Rightarrow> provider_db \<Rightarrow> py_error + string" where
  "try_provider V i r D =
     (if pv_type r = ''mock'' then Inr ''MOCK OK''
      else rbind (build_lm V i None None None D) (\<lambda>lm. rbind (fails Other_error (lm ''Reply with exactly OK.'')) (\<lambda>out. Inr (text_output V out))))"

definition test_provider :: "provider_env \<Rightarrow> string \<Rightarrow> provider_db \<Rightarrow> (py_error + json) \<times> provider_db" where
  "test_provider V i D =
     (case map_of (pd_rows D) i of
        None \<Rightarrow> (Inl (provider_missing i), D)
      | Some r \<Rightarrow>
          let outcome = try_provider V i r D;
              status = (case outcome of Inl _ \<Rightarrow> ''error'' | Inr _ \<Rightarrow> ''ok'');
              err = (case outcome of Inl e \<Rightarrow> Some (exc_text e) | Inr _ \<Rightarrow> None);
              preview = (case outcome of Inl _ \<Rightarrow> None | Inr p \<Rightarrow> Some p);
              D' = D\<lparr>pd_rows := dict_set i (r\<lparr>pv_test_status := status, pv_test_error := err, pv_tested := Some (pd_now D)\<rparr>) (pd_rows D)\<rparr>
          in (rbind (require_provider V i D') (\<lambda>v. Inr (JObj [(''provider'', v), (''status'', JStr status),
                (''preview'', opt_str preview), (''error'', opt_str err), (''testedAt'', JStr (pd_now D))])), D'))"


section \<open>cp/handlers/providers.py\<close>

type_synonym provider_handler = "(provider_db, answer) http_handler"

definition unquoted :: "(string \<Rightarrow> string) \<Rightarrow> request \<Rightarrow> nat \<Rightarrow> http_exc + string" where
  "unquoted unq rq n = rbind (segment rq n) (\<lambda>s. Inr (unq s))"

definition handle_catalog :: provider_handler where
  "handle_catalog rq body D =
     attempt (require_method (rq_method rq) [''GET'']) D (\<lambda>_. report 200 (under ''providerCatalog'') (Inr provider_catalog) D)"

definition handle_providers :: "provider_env \<Rightarrow> provider_handler" where
  "handle_providers V rq body D =
     (if rq_method rq = ''GET'' then report 200 (under ''providers'') (Inr (list_providers V D)) D
      else if rq_method rq = ''POST'' then commit 201 (under ''provider'') (save_provider V None body D) D
      else refuse rq [''GET'', ''POST''] D)"

definition handle_provider :: "provider_env \<Rightarrow> (string \<Rightarrow> string) \<Rightarrow> provider_handler" where
  "handle_provider V unq rq body D =
     attempt (unquoted unq rq 3) D (\<lambda>i.
       if rq_method rq = ''GET'' then report 200 (under ''provider'') (require_provider V i D) D
       else if rq_method rq \<in> {''PUT'', ''PATCH'', ''POST''} then commit 200 (under ''provider'') (save_provider V (Some i) body D) D
       else if rq_method rq = ''DELETE'' then
         (Inr (200, JObj [(''ok'', JBool True), (''providerId'', JStr i)]), delete_provider i D)
       else refuse rq [''GET'', ''PUT'', ''PATCH'', ''POST'', ''DELETE''] D)"

text \<open>The answer of a test is the object itself.\<close>

definition plain_answer :: "(py_error + json) \<times> provider_db \<Rightarrow> (http_exc + answer) \<times> provider_db" where
  "plain_answer r = (rbind (lift_py (fst r)) (\<lambda>j. Inr (200, j)), snd r)"

definition handle_provider_action :: "provider_env \<Rightarrow> (string \<Rightarrow> string) \<Rightarrow> provider_handler" where
  "handle_provider_action V unq rq body D =
     attempt (unquoted unq rq 3) D (\<lambda>i.
     attempt (segment rq 4) D (\<lambda>suffix.
       if suffix = ''test'' then
         attempt (require_method (rq_method rq) [''POST'']) D (\<lambda>_. plain_answer (test_provider V i D))
       else if suffix = ''secret'' then
         attempt (require_method (rq_method rq) [''DELETE'']) D (\<lambda>_. effect 200 (under ''provider'') (delete_session_secret V i D))
       else key_error (''provider action '' @ ticked suffix @ '' is not supported'') D))"

definition handle_provider_test :: "provider_env \<Rightarrow> provider_handler" where
  "handle_provider_test V rq body D =
     attempt (require_method (rq_method rq) [''POST'']) D (\<lambda>_.
     attempt (lift_py (required_string (pe_float V) body [''providerId'', ''provider_id''])) D (\<lambda>i.
       plain_answer (test_provider V i D)))"

text \<open>The routes, in the order of registration.\<close>

datatype provider_route = Catalog | Collection | Test_body | Single | Action

fun provider_answer :: "provider_route \<Rightarrow> provider_env \<Rightarrow> (string \<Rightarrow> string) \<Rightarrow> provider_handler" where
  "provider_answer Catalog V unq = handle_catalog"
| "provider_answer Collection V unq = handle_providers V"
| "provider_answer Test_body V unq = handle_provider_test V"
| "provider_answer Single V unq = handle_provider V unq"
| "provider_answer Action V unq = handle_provider_action V unq"

section \<open>Well-formed settings\<close>

definition row_ok :: "provider_row \<Rightarrow> bool" where
  "row_ok r \<longleftrightarrow> 2 \<le> length (pv_name r) \<and> pv_model r \<noteq> [] \<and> 1 \<le> pv_revision r \<and>
     (\<exists>kind. map_of provider_types (pv_type r) = Some kind \<and> pv_mode r \<in> set (py_modes kind) \<and>
       (\<forall>b. pv_base r = Some b \<longrightarrow> (if py_local_http kind then loopback_http b else \<not> str_prefix ''http://'' b))) \<and>
     (pv_mode r = ''env'' \<longrightarrow> (\<exists>v. pv_env r = Some v \<and> v \<noteq> []))"

text \<open>A secret is kept only for a provider in session mode, and is not empty.\<close>

definition settings_ok :: "provider_db \<Rightarrow> bool" where
  "settings_ok D \<longleftrightarrow>
     (\<forall>i r. map_of (pd_rows D) i = Some r \<longrightarrow> row_ok r) \<and>
     (\<forall>i s. map_of (pd_secrets D) i = Some s \<longrightarrow> s \<noteq> [] \<and> (\<exists>r. map_of (pd_rows D) i = Some r \<and> pv_mode r = ''session''))"

definition names_unique :: "provider_db \<Rightarrow> bool" where
  "names_unique D \<longleftrightarrow> (\<forall>i j r s. map_of (pd_rows D) i = Some r \<longrightarrow> map_of (pd_rows D) j = Some s \<longrightarrow> pv_name r = pv_name s \<longrightarrow> i = j)"

definition providers_ok :: "provider_db \<Rightarrow> bool" where
  "providers_ok D \<longleftrightarrow> dict_ok (pd_rows D) \<and> dict_ok (pd_secrets D) \<and> settings_ok D \<and> names_unique D"

lemma require_that_bind: "rbind (require_that b m) f = Inr x \<longleftrightarrow> b \<and> f () = Inr x"
  by (auto simp: require_that_def)

lemma normalize_ok:
  assumes "normalize_provider V pid d = Inr n"
  shows "2 \<le> length (np_name n)" "np_model n \<noteq> []"
    "\<exists>kind. map_of provider_types (np_type n) = Some kind \<and> np_mode n \<in> set (py_modes kind) \<and>
       (\<forall>b. np_base n = Some b \<longrightarrow> (if py_local_http kind then loopback_http b else \<not> str_prefix ''http://'' b))"
    "np_mode n = ''env'' \<Longrightarrow> \<exists>v. np_env n = Some v \<and> v \<noteq> []" "np_id n = given_id pid (pe_fresh V)"
proof -
  have c: "clean_optional V v = Some t \<Longrightarrow> t \<noteq> []" for v t by (auto simp: clean_optional_def Let_def split: if_splits)
  obtain ty kind where k: "map_of provider_types ty = Some kind"
    "ty = payload_text V (either (obj_get d ''providerType'') (either (obj_get d ''provider_type'') (JStr [])))"
    using assms by (auto simp: normalize_provider_def Let_def split: option.splits)
  note n = assms[unfolded normalize_provider_def Let_def, folded k(2), unfolded k(1) option.case require_that_bind]
  show "2 \<le> length (np_name n)" "np_model n \<noteq> []" "np_id n = given_id pid (pe_fresh V)" using n by auto
  show "\<exists>kind. map_of provider_types (np_type n) = Some kind \<and> np_mode n \<in> set (py_modes kind) \<and>
       (\<forall>b. np_base n = Some b \<longrightarrow> (if py_local_http kind then loopback_http b else \<not> str_prefix ''http://'' b))"
    using n k(1) by (auto simp: given_def split: option.splits)
  show "np_mode n = ''env'' \<Longrightarrow> \<exists>v. np_env n = Some v \<and> v \<noteq> []" using n c by auto
qed

lemma saved_row_ok:
  assumes "normalize_provider V pid d = Inr n" "\<And>r. old = Some r \<Longrightarrow> row_ok r"
  shows "row_ok (saved_row n now old)"
  using normalize_ok[OF assms(1)] assms(2) unfolding row_ok_def saved_row_def by (cases old) auto


text \<open>Rows and secrets change together.\<close>

lemma settings_ok_intro:
  assumes "settings_ok D"
    "\<And>j. j \<noteq> i \<Longrightarrow> map_of (pd_rows D') j = map_of (pd_rows D) j \<and> map_of (pd_secrets D') j = map_of (pd_secrets D) j"
    "\<And>r. map_of (pd_rows D') i = Some r \<Longrightarrow> row_ok r"
    "\<And>s. map_of (pd_secrets D') i = Some s \<Longrightarrow> s \<noteq> [] \<and> (\<exists>r. map_of (pd_rows D') i = Some r \<and> pv_mode r = ''session'')"
  shows "settings_ok D'"
  unfolding settings_ok_def
proof (intro conjI allI impI)
  fix j r assume "map_of (pd_rows D') j = Some r"
  then show "row_ok r" using assms(1) assms(2)[of j] assms(3) unfolding settings_ok_def by (cases "j = i") auto
next
  fix j s assume s: "map_of (pd_secrets D') j = Some s"
  have "s \<noteq> [] \<and> (\<exists>r. map_of (pd_rows D') j = Some r \<and> pv_mode r = ''session'')"
    using s assms(1) assms(2)[of j] assms(4)[of s] unfolding settings_ok_def by (cases "j = i") auto
  then show "s \<noteq> []" "\<exists>r. map_of (pd_rows D') j = Some r \<and> pv_mode r = ''session''" by blast+
qed

lemma kept_secrets_other: "j \<noteq> np_id n \<Longrightarrow> map_of (kept_secrets V n d S) j = map_of S j"
  by (simp add: kept_secrets_def dict_simps)

lemma kept_secrets_ok: "dict_ok S \<Longrightarrow> dict_ok (kept_secrets V n d S)"
  by (simp add: kept_secrets_def)

lemma kept_secret:
  "map_of (kept_secrets V n d S) (np_id n) = Some s \<Longrightarrow>
    np_mode n = ''session'' \<and> (s = session_secret V d \<and> s \<noteq> [] \<or> map_of S (np_id n) = Some s)"
  by (auto simp: kept_secrets_def dict_simps split: if_splits)

lemma save_provider_cases:
  assumes "save_provider V pid d D = Inr (v, D')"
  obtains n where "normalize_provider V pid d = Inr n" "\<not> name_taken D (np_id n) (np_name n)"
    "D' = D\<lparr>pd_rows := dict_set (np_id n) (saved_row n (pd_now D) (map_of (pd_rows D) (np_id n))) (pd_rows D),
            pd_secrets := kept_secrets V n d (pd_secrets D)\<rparr>"
    "v = provider_view V (pd_secrets D') (np_id n) (saved_row n (pd_now D) (map_of (pd_rows D) (np_id n)))"
  using assms by (auto simp: save_provider_def rbind_Inr_iff Let_def get_provider_def dict_simps split: if_splits)

lemma save_settings_ok:
  assumes ok: "settings_ok D" and s: "save_provider V pid d D = Inr (v, D')"
  shows "settings_ok D'"
proof -
  obtain n where n: "normalize_provider V pid d = Inr n"
    and D': "D' = D\<lparr>pd_rows := dict_set (np_id n) (saved_row n (pd_now D) (map_of (pd_rows D) (np_id n))) (pd_rows D),
            pd_secrets := kept_secrets V n d (pd_secrets D)\<rparr>"
    using save_provider_cases[OF s] by blast
  have row: "row_ok (saved_row n (pd_now D) (map_of (pd_rows D) (np_id n)))"
    using ok by (intro saved_row_ok[OF n]) (auto simp: settings_ok_def)
  have kept: "t \<noteq> [] \<and> np_mode n = ''session''" if "map_of (kept_secrets V n d (pd_secrets D)) (np_id n) = Some t" for t
    using kept_secret[OF that] ok by (auto simp: settings_ok_def)
  have mode: "pv_mode (saved_row n now old) = np_mode n" for now old by (simp add: saved_row_def)
  show ?thesis using row kept
    by (intro settings_ok_intro[OF ok, of "np_id n"]) (auto simp: D' mode kept_secrets_other dict_simps)
qed

text \<open>A row that differs in the columns of the last test only.\<close>

lemma tested_row_ok:
  "row_ok (r\<lparr>pv_test_status := a, pv_test_error := b\<rparr>) = row_ok r"
  "row_ok (r\<lparr>pv_test_status := a, pv_test_error := b, pv_tested := c\<rparr>) = row_ok r"
  by (simp_all add: row_ok_def)

lemma change_settings_ok:
  assumes "settings_ok D"
  shows "settings_ok (delete_provider i D)" "settings_ok (snd (delete_session_secret V i D))" "settings_ok (snd (test_provider V i D))"
proof -
  show "settings_ok (delete_provider i D)"
    using assms by (intro settings_ok_intro[OF assms, of i]) (auto simp: delete_provider_def dict_simps)
  have r: "row_ok r" if "map_of (pd_rows D) i = Some r" for r using assms that by (simp add: settings_ok_def)
  have s: "t \<noteq> [] \<and> (\<exists>r. map_of (pd_rows D) i = Some r \<and> pv_mode r = ''session'')" if "map_of (pd_secrets D) i = Some t" for t
    using assms that by (simp add: settings_ok_def)
  show "settings_ok (snd (delete_session_secret V i D))"
    using r s by (intro settings_ok_intro[OF assms, of i])
      (auto simp: delete_session_secret_def Let_def dict_simps tested_row_ok split: option.splits if_splits)
  show "settings_ok (snd (test_provider V i D))"
    using r s by (intro settings_ok_intro[OF assms, of i])
      (auto simp: test_provider_def Let_def dict_simps tested_row_ok split: option.splits if_splits)
qed

lemma save_dicts_ok:
  "save_provider V pid d D = Inr (v, D') \<Longrightarrow> dict_ok (pd_rows D) \<Longrightarrow> dict_ok (pd_secrets D) \<Longrightarrow>
    dict_ok (pd_rows D') \<and> dict_ok (pd_secrets D')"
  by (erule save_provider_cases) (simp add: kept_secrets_ok)

lemma change_dicts_ok:
  assumes "dict_ok (pd_rows D)" "dict_ok (pd_secrets D)"
  shows "dict_ok (pd_rows (delete_provider i D)) \<and> dict_ok (pd_secrets (delete_provider i D))"
    "dict_ok (pd_rows (snd (delete_session_secret V i D))) \<and> dict_ok (pd_secrets (snd (delete_session_secret V i D)))"
    "dict_ok (pd_rows (snd (test_provider V i D))) \<and> dict_ok (pd_secrets (snd (test_provider V i D)))"
  using assms by (auto simp: delete_provider_def delete_session_secret_def test_provider_def Let_def split: option.split)

lemma names_unique_save:
  assumes "names_unique D" "save_provider V pid d D = Inr (v, D')"
  shows "names_unique D'"
proof -
  obtain n where n: "\<not> name_taken D (np_id n) (np_name n)"
    and D': "D' = D\<lparr>pd_rows := dict_set (np_id n) (saved_row n (pd_now D) (map_of (pd_rows D) (np_id n))) (pd_rows D),
            pd_secrets := kept_secrets V n d (pd_secrets D)\<rparr>"
    using save_provider_cases[OF assms(2)] by blast
  have other: "j = np_id n" if "map_of (pd_rows D) j = Some s" "pv_name s = np_name n" for j s
    using n map_of_SomeD[OF that(1)] that(2) by (auto simp: name_taken_def list_ex_iff)
  have new: "pv_name (saved_row n now old) = np_name n" for now old by (simp add: saved_row_def)
  show ?thesis using assms(1) other unfolding names_unique_def D' by (auto simp: dict_simps new dest: sym)
qed

lemma names_unique_change:
  assumes "names_unique D" "\<And>j r. map_of (pd_rows D') j = Some r \<Longrightarrow> \<exists>r0. map_of (pd_rows D) j = Some r0 \<and> pv_name r0 = pv_name r"
  shows "names_unique D'"
  using assms unfolding names_unique_def by metis

lemma change_names_unique:
  assumes "names_unique D"
  shows "names_unique (delete_provider i D)" "names_unique (snd (delete_session_secret V i D))" "names_unique (snd (test_provider V i D))"
  by (rule names_unique_change[OF assms], auto simp: delete_provider_def delete_session_secret_def test_provider_def Let_def dict_simps
        split: option.splits if_splits)+

lemma save_provider_ok: "providers_ok D \<Longrightarrow> save_provider V pid d D = Inr (v, D') \<Longrightarrow> providers_ok D'"
  using save_settings_ok[of D V pid d v D'] save_dicts_ok[of V pid d D v D'] names_unique_save[of D V pid d v D'] unfolding providers_ok_def by blast

lemma change_provider_ok:
  assumes "providers_ok D"
  shows "providers_ok (delete_provider i D)" "providers_ok (snd (delete_session_secret V i D))" "providers_ok (snd (test_provider V i D))"
  using assms change_settings_ok[of D] change_dicts_ok[of D] change_names_unique[of D] unfolding providers_ok_def by blast+

definition leaves_ok :: "'a \<times> provider_db \<Rightarrow> bool" where
  "leaves_ok a \<longleftrightarrow> providers_ok (snd a)"

lemma leaves_ok_pair: "providers_ok D \<Longrightarrow> leaves_ok (x, D)"
  by (simp add: leaves_ok_def)

lemma attempt_leaves_ok: "providers_ok D \<Longrightarrow> (\<And>x. r = Inr x \<Longrightarrow> leaves_ok (k x)) \<Longrightarrow> leaves_ok (attempt r D k)"
  by (cases r) (simp_all add: leaves_ok_def)

lemma provider_answer_ok:
  assumes "providers_ok D"
  shows "providers_ok (snd (provider_answer route V unq rq body D))"
proof -
  note ok = assms
  have commit: "leaves_ok (commit c f (save_provider V pid body D) D)" for c f pid
    using ok save_provider_ok[OF ok, of V pid body] by (auto simp: commit_def leaves_ok_def split: sum.splits prod.splits)
  have effect: "leaves_ok (effect c f (delete_session_secret V i D))" for c f i
    using change_provider_ok(2)[OF ok, of V i] by (simp add: effect_def leaves_ok_def)
  have plain: "leaves_ok (plain_answer (test_provider V i D))" for i
    using change_provider_ok(3)[OF ok, of V i] by (simp add: plain_answer_def leaves_ok_def)
  note pair = leaves_ok_pair[OF ok] leaves_ok_pair[OF change_provider_ok(1)[OF ok]]
  have "leaves_ok (provider_answer route V unq rq body D)"
  proof (cases route)
    case Catalog
    show ?thesis unfolding Catalog provider_answer.simps handle_catalog_def report_def by (intro attempt_leaves_ok ok pair)
  next
    case Collection
    show ?thesis unfolding Collection provider_answer.simps handle_providers_def report_def refuse_def
      by (auto intro: pair commit)
  next
    case Test_body
    show ?thesis unfolding Test_body provider_answer.simps handle_provider_test_def by (intro attempt_leaves_ok ok plain)
  next
    case Single
    show ?thesis unfolding Single provider_answer.simps handle_provider_def report_def refuse_def
      by (intro attempt_leaves_ok ok) (auto intro: pair commit)
  next
    case Action
    show ?thesis unfolding Action provider_answer.simps handle_provider_action_def key_error_def
      by (intro attempt_leaves_ok ok) (auto intro!: attempt_leaves_ok ok plain effect pair)
  qed
  then show ?thesis by (simp add: leaves_ok_def)
qed

text \<open>Any sequence of requests, each at its own time and in its own environment.\<close>

definition no_providers :: provider_db where
  "no_providers = \<lparr>pd_rows = [], pd_secrets = [], pd_now = []\<rparr>"

fun provider_session :: "(string \<Rightarrow> string) \<Rightarrow> (string \<times> provider_env \<times> provider_route \<times> request \<times> obj) list \<Rightarrow> provider_db \<Rightarrow> provider_db" where
  "provider_session unq [] D = D"
| "provider_session unq ((now, V, route, rq, body) # rest) D =
     provider_session unq rest (snd (provider_answer route V unq rq body (D\<lparr>pd_now := now\<rparr>)))"

lemma provider_session_ok: "providers_ok D \<Longrightarrow> providers_ok (provider_session unq reqs D)"
proof (induction reqs arbitrary: D)
  case (Cons r reqs)
  obtain now V route rq body where r: "r = (now, V, route, rq, body)" by (cases r)
  have "settings_ok (D\<lparr>pd_now := now\<rparr>) = settings_ok D" "names_unique (D\<lparr>pd_now := now\<rparr>) = names_unique D"
    by (simp_all add: settings_ok_def names_unique_def)
  then have "providers_ok (D\<lparr>pd_now := now\<rparr>)" using Cons.prems by (simp add: providers_ok_def)
  then show ?case unfolding r provider_session.simps by (intro Cons.IH provider_answer_ok)
qed simp

section \<open>Secrets do not show\<close>

text \<open>Two states an observer cannot tell apart, and two bodies that differ in the secret they carry.\<close>

definition same_public :: "provider_db \<Rightarrow> provider_db \<Rightarrow> bool" where
  "same_public D D' \<longleftrightarrow> pd_rows D = pd_rows D' \<and> pd_now D = pd_now D' \<and>
     (\<forall>i. dict_has (pd_secrets D) i = dict_has (pd_secrets D') i)"

definition same_body :: "provider_env \<Rightarrow> obj \<Rightarrow> obj \<Rightarrow> bool" where
  "same_body V d d' \<longleftrightarrow> (\<forall>k. k \<noteq> ''sessionSecret'' \<longrightarrow> map_of d k = map_of d' k) \<and>
     (session_secret V d = [] \<longleftrightarrow> session_secret V d' = [])"

lemma same_view: "same_public D D' \<Longrightarrow> provider_view V (pd_secrets D) i r = provider_view V (pd_secrets D') i r"
  by (simp add: provider_view_def has_secret_def same_public_def)

lemma same_get: "same_public D D' \<Longrightarrow> get_provider V i D = get_provider V i D'"
  using same_view[of D D' V i] by (simp add: get_provider_def same_public_def cong: map_option_cong)

lemma same_list: "same_public D D' \<Longrightarrow> list_providers V D = list_providers V D'"
  using same_view[of D D' V] by (simp add: list_providers_def same_public_def)

lemma same_normalize:
  assumes "same_body V d d'"
  shows "normalize_provider V pid d = normalize_provider V pid d'"
proof -
  have e: "k \<noteq> ''sessionSecret'' \<Longrightarrow> map_of d k = map_of d' k" for k using assms by (simp add: same_body_def)
  have g: "k \<noteq> ''sessionSecret'' \<Longrightarrow> obj_get d k = obj_get d' k" for k using e[of k] by (simp add: obj_get_def)
  have s: "(session_secret V d = []) = (session_secret V d' = [])" using assms by (simp add: same_body_def)
  have G: "obj_get d ''providerType'' = obj_get d' ''providerType''" "obj_get d ''provider_type'' = obj_get d' ''provider_type''"
    "obj_get d ''name'' = obj_get d' ''name''" "obj_get d ''secretMode'' = obj_get d' ''secretMode''" "obj_get d ''secret_mode'' = obj_get d' ''secret_mode''"
    "obj_get d ''defaultModel'' = obj_get d' ''defaultModel''" "obj_get d ''default_model'' = obj_get d' ''default_model''"
    "obj_get d ''apiBase'' = obj_get d' ''apiBase''" "obj_get d ''api_base'' = obj_get d' ''api_base''"
    "obj_get d ''apiVersion'' = obj_get d' ''apiVersion''" "obj_get d ''api_version'' = obj_get d' ''api_version''"
    "obj_get d ''organization'' = obj_get d' ''organization''" "obj_get d ''secretEnvVar'' = obj_get d' ''secretEnvVar''"
    "obj_get d ''secret_env_var'' = obj_get d' ''secret_env_var''" "map_of d ''enabled'' = map_of d' ''enabled''"
    by (simp_all add: g e)
  show ?thesis unfolding normalize_provider_def G s ..
qed

lemma same_kept:
  assumes "same_body V d d'" "\<forall>i. dict_has S i = dict_has S' i"
  shows "dict_has (kept_secrets V n d S) i = dict_has (kept_secrets V n d' S') i"
proof -
  have "obj_get d ''clearSessionSecret'' = obj_get d' ''clearSessionSecret''" using assms(1) by (simp add: same_body_def obj_get_def)
  then show ?thesis using assms by (auto simp: kept_secrets_def dict_has_simps same_body_def)
qed

lemma same_save:
  assumes D: "same_public D D'" and b: "same_body V d d'"
  shows "case (save_provider V pid d D, save_provider V pid d' D') of
    (Inl e, Inl e') \<Rightarrow> e = e' | (Inr (v, C), Inr (v', C')) \<Rightarrow> v = v' \<and> same_public C C' | _ \<Rightarrow> False"
proof (cases "normalize_provider V pid d'")
  case (Inl e)
  then show ?thesis by (simp add: save_provider_def same_normalize[OF b])
next
  case (Inr n)
  let ?up = "\<lambda>d D. D\<lparr>pd_rows := dict_set (np_id n) (saved_row n (pd_now D) (map_of (pd_rows D) (np_id n))) (pd_rows D),
                    pd_secrets := kept_secrets V n d (pd_secrets D)\<rparr>"
  have C: "same_public (?up d D) (?up d' D')" using D same_kept[OF b] by (simp add: same_public_def)
  have "\<exists>w. get_provider V (np_id n) (?up d' D') = Some w" by (simp add: get_provider_def dict_simps)
  then obtain w where "get_provider V (np_id n) (?up d' D') = Some w" "get_provider V (np_id n) (?up d D) = Some w"
    using same_get[OF C] by auto
  moreover have "name_taken D i m = name_taken D' i m" for i m using D by (simp add: name_taken_def same_public_def)
  ultimately show ?thesis using C by (simp add: save_provider_def same_normalize[OF b] Inr Let_def)
qed

lemma same_delete: "same_public D D' \<Longrightarrow> same_public (delete_provider i D) (delete_provider i D')"
  by (auto simp: same_public_def delete_provider_def dict_has_simps)

lemma same_delete_secret:
  assumes "same_public D D'"
  shows "fst (delete_session_secret V i D) = fst (delete_session_secret V i D') \<and>
    same_public (snd (delete_session_secret V i D)) (snd (delete_session_secret V i D'))"
proof -
  let ?C = "\<lambda>r D. if pv_mode r = ''session''
    then D\<lparr>pd_secrets := dict_del i (pd_secrets D), pd_rows := dict_set i (r\<lparr>pv_test_status := ''unknown'', pv_test_error := None\<rparr>) (pd_rows D)\<rparr>
    else D\<lparr>pd_secrets := dict_del i (pd_secrets D)\<rparr>"
  have C: "same_public (?C r D) (?C r D')" for r using assms by (auto simp: same_public_def dict_has_simps)
  have d: "delete_session_secret V i B = (case map_of (pd_rows B) i of
      None \<Rightarrow> (Inl (provider_missing i), B\<lparr>pd_secrets := dict_del i (pd_secrets B)\<rparr>) | Some r \<Rightarrow> (require_provider V i (?C r B), ?C r B))" for B
    by (auto simp: delete_session_secret_def Let_def split: option.splits)
  have n: "same_public (D\<lparr>pd_secrets := dict_del i (pd_secrets D)\<rparr>) (D'\<lparr>pd_secrets := dict_del i (pd_secrets D')\<rparr>)"
    using assms by (auto simp: same_public_def dict_has_simps)
  have "pd_rows D = pd_rows D'" using assms by (simp add: same_public_def)
  then show ?thesis unfolding d using n C same_get[OF C, of V i] by (simp add: require_provider_def split: option.splits)
qed

text \<open>A test asks the provider, whose answer or error may say anything.\<close>

definition asks_for_test :: "provider_route \<Rightarrow> request \<Rightarrow> bool" where
  "asks_for_test route rq \<longleftrightarrow> route = Test_body \<or> route = Action \<and> segment rq 4 = Inr ''test''"

definition alike :: "(http_exc + answer) \<times> provider_db \<Rightarrow> (http_exc + answer) \<times> provider_db \<Rightarrow> bool" where
  "alike a b \<longleftrightarrow> fst a = fst b \<and> same_public (snd a) (snd b)"

lemma alike_pair: "same_public D D' \<Longrightarrow> alike (x, D) (x, D')"
  by (simp add: alike_def)

lemma attempt_alike:
  "same_public D D' \<Longrightarrow> (\<And>x. r = Inr x \<Longrightarrow> alike (k x) (k' x)) \<Longrightarrow> alike (attempt r D k) (attempt r D' k')"
  by (cases r) (simp_all add: alike_def)

lemma provider_answer_alike:
  assumes D: "same_public D D'" and b: "same_body V d d'" and t: "\<not> asks_for_test route rq"
  shows "alike (provider_answer route V unq rq d D) (provider_answer route V unq rq d' D')"
proof -
  have save: "alike (commit c f (save_provider V pid d D) D) (commit c f (save_provider V pid d' D') D')" for c f pid
    using same_save[OF D b, of pid] D by (auto simp: commit_def alike_def split: sum.splits prod.splits)
  have del: "alike (effect c f (delete_session_secret V i D)) (effect c f (delete_session_secret V i D'))" for c f i
    using same_delete_secret[OF D, of V i] by (simp add: effect_def alike_def)
  have one: "require_provider V i D = require_provider V i D'" for i using same_get[OF D] by (simp add: require_provider_def)
  show ?thesis
  proof (cases route)
    case Catalog
    then show ?thesis using D by (auto simp: handle_catalog_def report_def intro!: attempt_alike alike_pair)
  next
    case Collection
    then show ?thesis using D save same_list[OF D, of V]
      by (auto simp: handle_providers_def report_def refuse_def intro!: alike_pair)
  next
    case Test_body
    then show ?thesis using t by (simp add: asks_for_test_def)
  next
    case Single
    then show ?thesis using D save one same_delete[OF D]
      by (auto simp: handle_provider_def report_def refuse_def intro!: attempt_alike alike_pair)
  next
    case Action
    then show ?thesis using D t del
      by (auto simp: handle_provider_action_def key_error_def asks_for_test_def intro!: attempt_alike alike_pair)
  qed
qed

end
