(* ===== verification/Ws_Frames.thy ===== *)
theory Ws_Frames
  imports Prelude "HOL-Library.Word"
begin

text \<open>
  The framing of \<open>cp/ws_server.py\<close>: a text message becomes one unmasked frame of bytes. The reader of
  frames below is not in the repository: it is the format of RFC 6455 for such frames, against which the
  writer is proved.
\<close>

type_synonym byte = "8 word"

section \<open>Bytes\<close>

text \<open>UTF-8 of the first 256 code points.\<close>

definition utf8_char :: "char \<Rightarrow> byte list" where
  "utf8_char c = (if code c < 128 then [word_of_nat (code c)]
     else [word_of_nat (192 + code c div 64), word_of_nat (128 + code c mod 64)])"

definition utf8_bytes :: "string \<Rightarrow> byte list" where
  "utf8_bytes s = concat (map utf8_char s)"

text \<open>\<open>struct.pack\<close> of an unsigned number in \<open>k\<close> bytes, the most significant first; it refuses one that does not fit.\<close>

fun big_endian :: "nat \<Rightarrow> nat \<Rightarrow> byte list" where
  "big_endian 0 n = []"
| "big_endian (Suc k) n = big_endian k (n div 256) @ [word_of_nat (n mod 256)]"

definition pack :: "nat \<Rightarrow> nat \<Rightarrow> byte list option" where
  "pack k n = (if n < 256 ^ k then Some (big_endian k n) else None)"

definition frame_header :: "nat \<Rightarrow> byte list option" where
  "frame_header n =
     (if n < 126 then Some [0x81, word_of_nat n]
      else if n < 65536 then map_option (\<lambda>bs. [0x81, 126] @ bs) (pack 2 n)
      else map_option (\<lambda>bs. [0x81, 127] @ bs) (pack 8 n))"

definition encode_text_frame :: "string \<Rightarrow> byte list option" where
  "encode_text_frame payload =
     (let data = utf8_bytes payload in map_option (\<lambda>h. h @ data) (frame_header (length data)))"

section \<open>The format\<close>

fun from_big_endian :: "byte list \<Rightarrow> nat" where
  "from_big_endian bs = foldl (\<lambda>n b. 256 * n + unat b) 0 bs"

definition take_payload :: "nat \<Rightarrow> byte list \<Rightarrow> (byte list \<times> byte list) option" where
  "take_payload n bs = (if n \<le> length bs then Some (take n bs, drop n bs) else None)"

text \<open>A frame that is final, text and not masked: the payload and the bytes after it.\<close>

fun read_frame :: "byte list \<Rightarrow> (byte list \<times> byte list) option" where
  "read_frame (b # l # bs) =
     (if b \<noteq> 0x81 then None
      else if l < 126 then take_payload (unat l) bs
      else if l = 126 then (if length bs < 2 then None else take_payload (from_big_endian (take 2 bs)) (drop 2 bs))
      else if l = 127 then (if length bs < 8 then None else take_payload (from_big_endian (take 8 bs)) (drop 8 bs))
      else None)"
| "read_frame _ = None"

fun read_text :: "byte list \<Rightarrow> string option" where
  "read_text [] = Some []"
| "read_text (b # bs) =
     (if b < 0x80 then map_option ((#) (char_of (unat b))) (read_text bs)
      else if b = 0xC2 \<or> b = 0xC3 then
        (case bs of
           c # cs \<Rightarrow> if 0x80 \<le> c \<and> c < 0xC0 then map_option ((#) (char_of ((unat b - 192) * 64 + (unat c - 128)))) (read_text cs) else None
         | [] \<Rightarrow> None)
      else None)"

text \<open>The messages of a stream; the first argument bounds their number.\<close>

fun read_messages :: "nat \<Rightarrow> byte list \<Rightarrow> string list option" where
  "read_messages n [] = Some []"
| "read_messages 0 bs = None"
| "read_messages (Suc n) bs =
     (case read_frame bs of
        None \<Rightarrow> None
      | Some (data, rest) \<Rightarrow>
          (case read_text data of None \<Rightarrow> None | Some s \<Rightarrow> map_option ((#) s) (read_messages n rest)))"

section \<open>What is written is read back\<close>

lemma big_endian_length [simp]: "length (big_endian k n) = k"
  by (induction k arbitrary: n) auto

lemma unat_byte: "n < 256 \<Longrightarrow> unat (word_of_nat n :: byte) = n"
  by (simp add: unat_of_nat)

lemma from_big_endian_snoc: "from_big_endian (bs @ [b]) = 256 * from_big_endian bs + unat b"
  by simp

lemma big_endian_read: "n < 256 ^ k \<Longrightarrow> from_big_endian (big_endian k n) = n"
proof (induction k arbitrary: n)
  case (Suc k)
  have "n div 256 < 256 ^ k" using Suc.prems by (simp add: less_mult_imp_div_less mult.commute)
  then have "from_big_endian (big_endian k (n div 256)) = n div 256" by (rule Suc.IH)
  then show ?case by (simp add: unat_byte del: from_big_endian.simps add: from_big_endian_snoc)
qed simp

lemma pack_read: "pack k n = Some bs \<Longrightarrow> length bs = k \<and> from_big_endian bs = n"
  using big_endian_read by (auto simp: pack_def split: if_splits)

lemma take_payload_exact: "take_payload (length data) (data @ rest) = Some (data, rest)"
  by (simp add: take_payload_def)

lemma frame_read:
  assumes "frame_header (length data) = Some h"
  shows "read_frame (h @ data @ rest) = Some (data, rest)"
proof -
  consider "length data < 126" "h = [0x81, word_of_nat (length data)]"
    | bs where "\<not> length data < 126" "pack 2 (length data) = Some bs" "h = [0x81, 126] @ bs"
    | bs where "pack 8 (length data) = Some bs" "h = [0x81, 127] @ bs"
    using assms by (auto simp: frame_header_def split: if_splits)
  then show ?thesis
  proof cases
    case 1
    have "unat (word_of_nat (length data) :: byte) = length data" using 1 by (simp add: unat_byte)
    moreover have "(word_of_nat (length data) :: byte) < 126" using 1 by (simp add: word_less_nat_alt unat_byte)
    ultimately show ?thesis using 1 by (simp add: take_payload_exact)
  next
    case 2
    then show ?thesis using pack_read[OF 2(2)] by (simp add: take_payload_exact del: from_big_endian.simps)
  next
    case 3
    then show ?thesis using pack_read[OF 3(1)] by (simp add: take_payload_exact del: from_big_endian.simps)
  qed
qed

lemma utf8_char_read: "read_text (utf8_char c @ bs) = map_option ((#) c) (read_text bs)"
proof (cases "code c < 128")
  case True
  then have "unat (word_of_nat (code c) :: byte) = code c" by (simp add: unat_byte)
  moreover have "(word_of_nat (code c) :: byte) < 0x80" using True by (simp add: word_less_nat_alt unat_byte)
  moreover have "char_of (code c) = c" by (simp add: code_def)
  ultimately show ?thesis using True by (simp add: utf8_char_def)
next
  case False
  have c: "code c < 256" by simp
  have q: "code c div 64 = 2 \<or> code c div 64 = 3"
  proof -
    have "2 \<le> code c div 64" using div_le_mono[of 128 "code c" 64] False by simp
    moreover have "code c div 64 < 4" using c by (simp add: less_mult_imp_div_less)
    ultimately show ?thesis by linarith
  qed
  have u: "unat (word_of_nat (192 + code c div 64) :: byte) = 192 + code c div 64"
    "unat (word_of_nat (128 + code c mod 64) :: byte) = 128 + code c mod 64"
    using q by (intro unat_byte; auto)+
  have b: "(word_of_nat (192 + code c div 64) :: byte) = 0xC2 \<or> (word_of_nat (192 + code c div 64) :: byte) = 0xC3"
    using q by auto
  have n: "\<not> (word_of_nat (192 + code c div 64) :: byte) < 0x80" using u(1) by (simp add: word_less_nat_alt)
  have r: "0x80 \<le> (word_of_nat (128 + code c mod 64) :: byte)" "(word_of_nat (128 + code c mod 64) :: byte) < 0xC0"
    using u(2) by (simp_all add: word_le_nat_alt word_less_nat_alt)
  have "(192 + code c div 64 - 192) * 64 + (128 + code c mod 64 - 128) = code c" by simp
  then have "char_of ((192 + code c div 64 - 192) * 64 + (128 + code c mod 64 - 128)) = c" by (simp add: code_def)
  then show ?thesis using False b n r u by (simp add: utf8_char_def)
qed

lemma utf8_read: "read_text (utf8_bytes s) = Some s"
  by (induction s) (simp_all add: utf8_bytes_def utf8_char_read)

lemma encode_nonempty: "encode_text_frame s = Some f \<Longrightarrow> f \<noteq> []"
  by (auto simp: encode_text_frame_def frame_header_def Let_def split: if_splits)

lemma messages_read:
  assumes "list_all2 (\<lambda>s f. encode_text_frame s = Some f) ss fs" "length ss \<le> n"
  shows "read_messages n (concat fs) = Some ss"
  using assms
proof (induction ss fs arbitrary: n rule: list_all2_induct)
  case (Cons s ss f fs)
  obtain m where n: "n = Suc m" "length ss \<le> m" using Cons.prems by (cases n) auto
  obtain h where h: "frame_header (length (utf8_bytes s)) = Some h" "f = h @ utf8_bytes s"
    using Cons.hyps(1) by (auto simp: encode_text_frame_def Let_def)
  have "read_frame (f @ concat fs) = Some (utf8_bytes s, concat fs)" using frame_read[OF h(1)] h(2) by simp
  moreover obtain b bs where "f @ concat fs = b # bs" using encode_nonempty[OF Cons.hyps(1)] by (cases f) auto
  ultimately show ?case using Cons.IH[OF n(2)] n(1) utf8_read[of s] by simp
qed simp

lemma encode_defined: "encode_text_frame s \<noteq> None \<longleftrightarrow> length (utf8_bytes s) < 2 ^ 64"
  by (auto simp: encode_text_frame_def frame_header_def pack_def Let_def)

text \<open>The header is the shortest the format allows.\<close>

lemma encode_length:
  assumes "encode_text_frame s = Some f"
  shows "length f = length (utf8_bytes s) + (if length (utf8_bytes s) < 126 then 2 else if length (utf8_bytes s) < 65536 then 4 else 10)"
  using assms by (auto simp: encode_text_frame_def frame_header_def pack_def Let_def split: if_splits)

section \<open>The handshake\<close>

text \<open>The chunks a socket gives until it fails; an empty one is the end of the stream. Latin-1 maps a byte to its code point.\<close>

definition crlf :: string where "crlf = [CHR 0x0D, CHR 0x0A]"

fun read_http_request :: "nat \<Rightarrow> string \<Rightarrow> string list \<Rightarrow> string option" where
  "read_http_request most buffer chunks =
     (if str_contains (crlf @ crlf) buffer then Some buffer
      else (case chunks of
         [] \<Rightarrow> None
       | chunk # rest \<Rightarrow>
           if chunk = [] then None
           else if most < length (buffer @ chunk) then None
           else read_http_request most (buffer @ chunk) rest))"

declare read_http_request.simps [simp del]

fun split_crlf :: "string \<Rightarrow> string list" where
  "split_crlf (c # d # cs) =
     (if c = CHR 0x0D \<and> d = CHR 0x0A then [] # split_crlf cs
      else (case split_crlf (d # cs) of [] \<Rightarrow> [[c]] | l # ls \<Rightarrow> (c # l) # ls))"
| "split_crlf s = [s]"

definition header_line :: "string \<Rightarrow> (string, string) dict \<Rightarrow> (string, string) dict" where
  "header_line line h =
     (if line = [] then h
      else (case str_partition CHR '':'' line of (name, sep, v) \<Rightarrow>
        if \<not> sep then h else dict_set (str_lower (str_strip name)) (str_strip v) h))"

definition parse_headers :: "string \<Rightarrow> (string, string) dict" where
  "parse_headers request = fold header_line (drop 1 (split_crlf request)) []"

text \<open>
  \<open>accept\<close> is \<open>compute_accept_key\<close>: the base 64 form of the SHA-1 digest of the key and a constant. It raises
  on a key that is not ASCII, which \<open>_handle_client\<close> does not catch.
\<close>

datatype handshake = Upgraded string | Rejected | No_request | Key_not_ascii

definition accept_reply :: "string \<Rightarrow> string" where
  "accept_reply key = ''HTTP/1.1 101 Switching Protocols'' @ crlf @ ''Upgrade: websocket'' @ crlf @ ''Connection: Upgrade'' @ crlf @
     ''Sec-WebSocket-Accept: '' @ key @ crlf @ crlf"

definition perform_handshake :: "(string \<Rightarrow> string) \<Rightarrow> string list \<Rightarrow> handshake" where
  "perform_handshake accept chunks =
     (case read_http_request 65536 [] chunks of
        None \<Rightarrow> No_request
      | Some request \<Rightarrow>
          let headers = parse_headers request;
              upgrade = str_lower (dict_get_or headers ''upgrade'' []);
              key = dict_get_or headers ''sec-websocket-key'' []
          in if \<not> str_contains ''websocket'' upgrade \<or> key = [] then Rejected
             else if \<not> list_all (\<lambda>c. code c < 128) key then Key_not_ascii
             else Upgraded (accept_reply (accept key)))"

lemma upgraded_iff:
  "(\<exists>r. perform_handshake accept chunks = Upgraded r) \<longleftrightarrow>
    (\<exists>request key. read_http_request 65536 [] chunks = Some request \<and>
      map_of (parse_headers request) ''sec-websocket-key'' = Some key \<and> key \<noteq> [] \<and> list_all (\<lambda>c. code c < 128) key \<and>
      str_contains ''websocket'' (str_lower (dict_get_or (parse_headers request) ''upgrade'' [])))"
  by (auto simp: perform_handshake_def Let_def dict_get_or_def split: option.splits)

lemma request_bounded: "read_http_request most buffer chunks = Some r \<Longrightarrow> length buffer \<le> most \<Longrightarrow> length r \<le> most"
proof (induction chunks arbitrary: buffer)
  case Nil
  then show ?case by (simp add: read_http_request.simps[of most buffer] split: if_splits)
next
  case (Cons c cs)
  then show ?case by (simp add: read_http_request.simps[of most buffer] split: if_splits)
qed

end
