(* ===== verification/Ws_Broadcast.thy ===== *)
theory Ws_Broadcast
  imports Prelude
begin

text \<open>
  \<open>WorkflowEventBroadcaster\<close> and \<open>_WebSocketConnection\<close> of \<open>cp/ws_server.py\<close>, as a step relation over the
  threads: any number of threads broadcast, and every connection has a writer and a reader. A message is
  the text of an event. A step is the code between two points where another thread can run, and carries
  a label: what it put into a queue, what it wrote to a socket, or nothing.
\<close>

section \<open>State\<close>

text \<open>The queue of a connection holds messages and the sentinel that wakes its writer.\<close>

datatype writer = Waiting | Holding string | Writer_ended

record conn =
  wc_queue :: "string option list"
  wc_max :: nat
  wc_closed :: bool
  wc_writer :: writer

text \<open>A broadcast in progress: its message, the clients it still has to try, and those that failed.\<close>

record broadcast =
  bc_message :: string
  bc_todo :: "nat list"
  bc_dead :: "nat list"

record hub =
  hb_clients :: "nat list"
  hb_conns :: "(nat, conn) dict"
  hb_threads :: "(nat, broadcast) dict"

datatype label = Enqueued nat string | Wrote nat string | Silent

section \<open>A connection\<close>

definition new_conn :: "nat \<Rightarrow> conn" where
  "new_conn n = \<lparr>wc_queue = [], wc_max = n, wc_closed = False, wc_writer = Waiting\<rparr>"

text \<open>\<open>send\<close> refuses when the connection is closed and when its queue is full; a bound of 0 is no bound.\<close>

definition queue_full :: "conn \<Rightarrow> bool" where
  "queue_full c \<longleftrightarrow> 0 < wc_max c \<and> wc_max c \<le> length (wc_queue c)"

definition send :: "string \<Rightarrow> conn \<Rightarrow> conn option" where
  "send m c = (if wc_closed c \<or> queue_full c then None else Some (c\<lparr>wc_queue := wc_queue c @ [Some m]\<rparr>))"

definition close :: "conn \<Rightarrow> conn" where
  "close c = (if wc_closed c then c
     else c\<lparr>wc_closed := True, wc_queue := (if queue_full c then wc_queue c else wc_queue c @ [None])\<rparr>)"

text \<open>
  The writer waits on the queue while the connection is open, leaves on the sentinel or when it finds the
  connection closed, and writes what it took; \<open>ok\<close> says whether the socket takes it. It closes when it leaves.
\<close>

definition write_step :: "bool \<Rightarrow> nat \<Rightarrow> conn \<Rightarrow> label \<times> conn" where
  "write_step ok i c =
     (case wc_writer c of
        Waiting \<Rightarrow>
          (case wc_queue c of
             [] \<Rightarrow> if wc_closed c then (Silent, c\<lparr>wc_writer := Writer_ended\<rparr>) else (Silent, c)
           | None # q \<Rightarrow> (Silent, close (c\<lparr>wc_queue := q, wc_writer := Writer_ended\<rparr>))
           | Some m # q \<Rightarrow> (Silent, c\<lparr>wc_queue := q, wc_writer := Holding m\<rparr>))
      | Holding m \<Rightarrow>
          if \<not> ok then (Silent, close (c\<lparr>wc_writer := Writer_ended\<rparr>))
          else (Wrote i m, c\<lparr>wc_writer := Waiting\<rparr>)
      | Writer_ended \<Rightarrow> (Silent, c))"

text \<open>Between two messages the writer looks whether the connection was closed.\<close>

definition writer_leaves :: "conn \<Rightarrow> conn" where
  "writer_leaves c = (if wc_closed c \<and> wc_writer c = Waiting then c\<lparr>wc_writer := Writer_ended\<rparr> else c)"

section \<open>The hub\<close>

definition set_conn :: "nat \<Rightarrow> conn \<Rightarrow> hub \<Rightarrow> hub" where
  "set_conn i c H = H\<lparr>hb_conns := dict_set i c (hb_conns H)\<rparr>"

definition register_client :: "nat \<Rightarrow> hub \<Rightarrow> hub" where
  "register_client i H = H\<lparr>hb_clients := List.insert i (hb_clients H)\<rparr>"

definition unregister_client :: "nat \<Rightarrow> hub \<Rightarrow> hub" where
  "unregister_client i H = H\<lparr>hb_clients := removeAll i (hb_clients H)\<rparr>"

definition start_broadcast :: "nat \<Rightarrow> string \<Rightarrow> nat list \<Rightarrow> hub \<Rightarrow> hub" where
  "start_broadcast t m snapshot H =
     H\<lparr>hb_threads := dict_set t \<lparr>bc_message = m, bc_todo = snapshot, bc_dead = []\<rparr> (hb_threads H)\<rparr>"

definition offer :: "nat \<Rightarrow> broadcast \<Rightarrow> hub \<Rightarrow> (label \<times> hub) option" where
  "offer t b H =
     (case bc_todo b of
        [] \<Rightarrow> None
      | i # rest \<Rightarrow>
          (case map_of (hb_conns H) i of
             None \<Rightarrow> None
           | Some c \<Rightarrow>
               (case send (bc_message b) c of
                  Some c' \<Rightarrow> Some (Enqueued i (bc_message b),
                    set_conn i c' (H\<lparr>hb_threads := dict_set t (b\<lparr>bc_todo := rest\<rparr>) (hb_threads H)\<rparr>))
                | None \<Rightarrow> Some (Silent,
                    H\<lparr>hb_threads := dict_set t (b\<lparr>bc_todo := rest, bc_dead := bc_dead b @ [i]\<rparr>) (hb_threads H)\<rparr>))))"

text \<open>The failed clients are taken out together and then closed one by one.\<close>

fun close_all :: "nat list \<Rightarrow> (nat, conn) dict \<Rightarrow> (nat, conn) dict" where
  "close_all [] cs = cs"
| "close_all (i # is) cs = close_all is (case map_of cs i of None \<Rightarrow> cs | Some c \<Rightarrow> dict_set i (close c) cs)"

definition finish_broadcast :: "nat \<Rightarrow> broadcast \<Rightarrow> hub \<Rightarrow> hub" where
  "finish_broadcast t b H =
     H\<lparr>hb_clients := filter (\<lambda>i. i \<notin> set (bc_dead b)) (hb_clients H),
       hb_conns := close_all (bc_dead b) (hb_conns H),
       hb_threads := dict_del t (hb_threads H)\<rparr>"

inductive hub_step :: "hub \<Rightarrow> label \<Rightarrow> hub \<Rightarrow> bool" where
  accept: "\<not> dict_has (hb_conns H) i \<Longrightarrow> hub_step H Silent (register_client i (set_conn i (new_conn n) H))"
| leave: "map_of (hb_conns H) i = Some c \<Longrightarrow> wc_closed c \<Longrightarrow> hub_step H Silent (unregister_client i H)"
| start: "\<not> dict_has (hb_threads H) t \<Longrightarrow> set snapshot = set (hb_clients H) \<Longrightarrow> distinct snapshot \<Longrightarrow>
    hub_step H Silent (start_broadcast t m snapshot H)"
| offers: "map_of (hb_threads H) t = Some b \<Longrightarrow> offer t b H = Some (l, H') \<Longrightarrow> hub_step H l H'"
| finish: "map_of (hb_threads H) t = Some b \<Longrightarrow> bc_todo b = [] \<Longrightarrow> hub_step H Silent (finish_broadcast t b H)"
| writes: "map_of (hb_conns H) i = Some c \<Longrightarrow> write_step ok i c = (l, c') \<Longrightarrow> hub_step H l (set_conn i c' H)"
| writer_stops: "map_of (hb_conns H) i = Some c \<Longrightarrow> hub_step H Silent (set_conn i (writer_leaves c) H)"
| reader_stops: "map_of (hb_conns H) i = Some c \<Longrightarrow> hub_step H Silent (set_conn i (close c) H)"

inductive hub_run :: "hub \<Rightarrow> label list \<Rightarrow> hub \<Rightarrow> bool" where
  stay: "hub_run H [] H"
| more: "hub_run H ls H' \<Longrightarrow> hub_step H' l H'' \<Longrightarrow> hub_run H (ls @ [l]) H''"

inductive_cases hub_stepE: "hub_step H l H'"

section \<open>What a client gets\<close>

definition queued_for :: "nat \<Rightarrow> label list \<Rightarrow> string list" where
  "queued_for i ls = concat (map (\<lambda>l. case l of Enqueued j m \<Rightarrow> if j = i then [m] else [] | _ \<Rightarrow> []) ls)"

definition written_to :: "nat \<Rightarrow> label list \<Rightarrow> string list" where
  "written_to i ls = concat (map (\<lambda>l. case l of Wrote j m \<Rightarrow> if j = i then [m] else [] | _ \<Rightarrow> []) ls)"

definition in_hand :: "conn \<Rightarrow> string list" where
  "in_hand c = (case wc_writer c of Holding m \<Rightarrow> [m] | _ \<Rightarrow> [])"

definition messages_of :: "string option list \<Rightarrow> string list" where
  "messages_of q = concat (map (\<lambda>x. case x of None \<Rightarrow> [] | Some m \<Rightarrow> [m]) q)"

definition unsent :: "conn \<Rightarrow> string list" where
  "unsent c = in_hand c @ messages_of (wc_queue c)"

lemma messages_of_simps [simp]:
  "messages_of [] = []" "messages_of (None # q) = messages_of q" "messages_of (Some m # q) = m # messages_of q"
  "messages_of (q @ r) = messages_of q @ messages_of r"
  by (simp_all add: messages_of_def)

lemma label_lists [simp]:
  "queued_for i (ls @ [Silent]) = queued_for i ls" "written_to i (ls @ [Silent]) = written_to i ls"
  "queued_for i (ls @ [Enqueued j m]) = queued_for i ls @ (if j = i then [m] else [])" "written_to i (ls @ [Enqueued j m]) = written_to i ls"
  "queued_for i (ls @ [Wrote j m]) = queued_for i ls" "written_to i (ls @ [Wrote j m]) = written_to i ls @ (if j = i then [m] else [])"
  "queued_for i [] = []" "written_to i [] = []"
  by (simp_all add: queued_for_def written_to_def)

text \<open>
  The sentinel is the last thing put into a queue, so a connection that is not closed has none; a writer
  that has ended leaves its connection closed.
\<close>

definition conn_ok :: "conn \<Rightarrow> bool" where
  "conn_ok c \<longleftrightarrow> (\<not> wc_closed c \<longrightarrow> None \<notin> set (wc_queue c)) \<and> (wc_writer c = Writer_ended \<longrightarrow> wc_closed c) \<and>
     (0 < wc_max c \<longrightarrow> length (wc_queue c) \<le> wc_max c)"

text \<open>While a connection is open everything queued for it is written, in hand or waiting, in that order; once it is closed
  what is written stays a beginning of what was queued.\<close>

definition delivered :: "nat \<Rightarrow> label list \<Rightarrow> conn \<Rightarrow> bool" where
  "delivered i ls c \<longleftrightarrow> (\<exists>lost. written_to i ls @ lost @ unsent c = queued_for i ls \<and> (lost \<noteq> [] \<longrightarrow> wc_writer c = Writer_ended))"

lemma delivered_now: "written_to i ls @ unsent c = queued_for i ls \<Longrightarrow> delivered i ls c"
  unfolding delivered_def by (intro exI[of _ "[]"]) simp

lemma send_delivered:
  assumes "conn_ok c" "delivered i ls c" "send m c = Some c'"
  shows "conn_ok c'" "delivered i (ls @ [Enqueued i m]) c'"
proof -
  have c: "\<not> wc_closed c" "\<not> queue_full c" "c' = c\<lparr>wc_queue := wc_queue c @ [Some m]\<rparr>"
    using assms(3) by (auto simp: send_def split: if_splits)
  show "conn_ok c'" using assms(1) c by (auto simp: conn_ok_def queue_full_def)
  have "written_to i ls @ unsent c = queued_for i ls"
    using assms(1,2) c(1) by (auto simp: delivered_def conn_ok_def)
  then have "written_to i (ls @ [Enqueued i m]) @ [] @ unsent c' = queued_for i (ls @ [Enqueued i m])"
    by (simp add: c(3) unsent_def in_hand_def)
  then show "delivered i (ls @ [Enqueued i m]) c'" unfolding delivered_def by blast
qed

lemma close_keeps:
  assumes "conn_ok c \<or> wc_writer c = Writer_ended \<and> None \<notin> set (wc_queue c) \<and> (0 < wc_max c \<longrightarrow> length (wc_queue c) \<le> wc_max c)"
  shows "conn_ok (close c)"
  using assms by (auto simp: conn_ok_def close_def queue_full_def)

lemma close_same: "wc_writer (close c) = wc_writer c" "unsent (close c) = unsent c" "wc_max (close c) = wc_max c"
  by (simp_all add: close_def unsent_def in_hand_def)

lemma close_closed: "wc_closed (close c)"
  by (simp add: close_def)

lemma close_delivered: "delivered i (ls @ [Silent]) (close c) = delivered i ls c"
  by (simp add: delivered_def close_same)

lemma write_keeps:
  assumes "conn_ok c" "delivered i ls c" "write_step ok i c = (l, c')"
  shows "conn_ok c' \<and> delivered i (ls @ [l]) c'"
proof (cases "wc_writer c")
  case Waiting
  have eq: "written_to i ls @ unsent c = queued_for i ls" using assms(2) Waiting by (auto simp: delivered_def)
  show ?thesis
  proof (cases "wc_queue c")
    case Nil
    then show ?thesis using assms eq Waiting
      by (auto simp: write_step_def conn_ok_def delivered_def unsent_def in_hand_def split: if_splits)
  next
    case (Cons x q)
    show ?thesis
    proof (cases x)
      case None
      let ?c = "c\<lparr>wc_queue := q, wc_writer := Writer_ended\<rparr>"
      have closed: "wc_closed c" using assms(1) Cons None by (auto simp: conn_ok_def)
      have e: "(l, c') = (Silent, close ?c)" using assms(3) Waiting Cons None by (simp add: write_step_def)
      have "conn_ok (close ?c)" using assms(1) closed Cons by (auto simp: close_def conn_ok_def)
      moreover have "delivered i ls ?c" using eq Waiting Cons None by (intro delivered_now) (simp add: unsent_def in_hand_def)
      ultimately show ?thesis using e close_delivered[of i ls ?c] by simp
    next
      case (Some m)
      have "(l, c') = (Silent, c\<lparr>wc_queue := q, wc_writer := Holding m\<rparr>)"
        using assms(3) Waiting Cons Some by (simp add: write_step_def)
      then show ?thesis using assms(1) eq Waiting Cons Some
        by (auto simp: conn_ok_def delivered_def unsent_def in_hand_def)
    qed
  qed
next
  case (Holding m)
  have eq: "written_to i ls @ unsent c = queued_for i ls" using assms(2) Holding by (auto simp: delivered_def)
  show ?thesis
  proof (cases ok)
    case True
    then have "(l, c') = (Wrote i m, c\<lparr>wc_writer := Waiting\<rparr>)" using assms(3) Holding by (simp add: write_step_def)
    then show ?thesis using assms(1) eq Holding by (auto simp: conn_ok_def delivered_def unsent_def in_hand_def)
  next
    case False
    let ?c = "c\<lparr>wc_writer := Writer_ended\<rparr>"
    have e: "(l, c') = (Silent, close ?c)" using assms(3) Holding False by (simp add: write_step_def)
    have "conn_ok (close ?c)" using assms(1) by (auto simp: close_def conn_ok_def queue_full_def)
    moreover have "delivered i ls ?c" unfolding delivered_def
      using eq Holding by (intro exI[of _ "[m]"]) (simp add: unsent_def in_hand_def)
    ultimately show ?thesis using e close_delivered[of i ls ?c] by simp
  qed
next
  case Writer_ended
  then show ?thesis using assms by (auto simp: write_step_def conn_ok_def delivered_def)
qed

lemma writer_leaves_keeps:
  assumes "conn_ok c" "delivered i ls c"
  shows "conn_ok (writer_leaves c)" "delivered i (ls @ [Silent]) (writer_leaves c)"
proof -
  show "conn_ok (writer_leaves c)" using assms(1) by (auto simp: writer_leaves_def conn_ok_def)
  show "delivered i (ls @ [Silent]) (writer_leaves c)"
  proof (cases "wc_closed c \<and> wc_writer c = Waiting")
    case True
    then have "written_to i ls @ unsent c = queued_for i ls" using assms(2) by (auto simp: delivered_def)
    then show ?thesis using True by (intro delivered_now) (simp add: writer_leaves_def unsent_def in_hand_def)
  next
    case False
    then show ?thesis using assms(2) by (auto simp: writer_leaves_def delivered_def)
  qed
qed

text \<open>A label of another connection changes nothing here.\<close>

definition for_conn :: "nat \<Rightarrow> label \<Rightarrow> bool" where
  "for_conn i l \<longleftrightarrow> (case l of Enqueued j _ \<Rightarrow> j = i | Wrote j _ \<Rightarrow> j = i | Silent \<Rightarrow> False)"

lemma other_label: "\<not> for_conn i l \<Longrightarrow> queued_for i (ls @ [l]) = queued_for i ls \<and> written_to i (ls @ [l]) = written_to i ls"
  by (cases l) (simp_all add: for_conn_def)

definition client_ok :: "label list \<Rightarrow> hub \<Rightarrow> nat \<Rightarrow> bool" where
  "client_ok ls H i \<longleftrightarrow> (case map_of (hb_conns H) i of
     None \<Rightarrow> queued_for i ls = [] \<and> written_to i ls = [] | Some c \<Rightarrow> conn_ok c \<and> delivered i ls c)"

lemma client_ok_same:
  assumes "client_ok ls H i" "\<not> for_conn i l" "map_of (hb_conns H') i = map_of (hb_conns H) i"
  shows "client_ok (ls @ [l]) H' i"
  using assms(1,3) other_label[OF assms(2), of ls] by (simp add: client_ok_def delivered_def split: option.splits)

lemma client_ok_set:
  assumes "\<forall>j. client_ok ls H j" "\<forall>j. j \<noteq> i \<longrightarrow> \<not> for_conn j l" "conn_ok c'" "delivered i (ls @ [l]) c'"
  shows "client_ok (ls @ [l]) (set_conn i c' H) j"
proof (cases "j = i")
  case True
  then show ?thesis using assms(3,4) by (simp add: client_ok_def set_conn_def dict_simps)
next
  case False
  then show ?thesis using client_ok_same[of ls H j l] assms(1,2) by (simp add: set_conn_def dict_simps)
qed

lemma close_all_at: "map_of (close_all is cs) i = (if i \<in> set is then map_option close (map_of cs i) else map_of cs i)"
proof (induction "is" arbitrary: cs)
  case (Cons j "is")
  have cc: "close (close c) = close c" for c by (simp add: close_def)
  show ?case unfolding close_all.simps Cons.IH
    by (auto simp: dict_simps cc option.map_comp comp_def split: option.splits)
qed simp

lemma hub_step_ok:
  assumes "hub_step H l H'" "\<forall>i. client_ok ls H i"
  shows "\<forall>i. client_ok (ls @ [l]) H' i"
  using assms
proof (cases rule: hub_step.cases)
  case (accept i n)
  have "client_ok ls H i" using assms(2) by blast
  then have "queued_for i ls = []" "written_to i ls = []" using accept(3) by (simp_all add: client_ok_def dict_has_def)
  then have "delivered i (ls @ [Silent]) (new_conn n)" by (simp add: delivered_def unsent_def in_hand_def new_conn_def)
  then have "client_ok (ls @ [Silent]) (set_conn i (new_conn n) H) j" for j
    by (intro client_ok_set[OF assms(2)]) (auto simp: for_conn_def conn_ok_def new_conn_def)
  then show ?thesis unfolding accept by (simp add: client_ok_def register_client_def)
next
  case (leave i c)
  then show ?thesis using assms(2) client_ok_same[of ls H _ Silent H'] by (simp add: for_conn_def unregister_client_def)
next
  case (start t snapshot m)
  then show ?thesis using assms(2) client_ok_same[of ls H _ Silent H'] by (simp add: for_conn_def start_broadcast_def)
next
  case (offers t b)
  obtain i rest c where b: "bc_todo b = i # rest" "map_of (hb_conns H) i = Some c"
    using offers(2) by (auto simp: offer_def split: list.splits option.splits)
  show ?thesis
  proof (cases "send (bc_message b) c")
    case None
    then have "l = Silent" "hb_conns H' = hb_conns H" using offers(2) b by (auto simp: offer_def)
    then show ?thesis using assms(2) client_ok_same[of ls H _ Silent H'] by (simp add: for_conn_def)
  next
    case (Some c')
    let ?H = "H\<lparr>hb_threads := dict_set t (b\<lparr>bc_todo := rest\<rparr>) (hb_threads H)\<rparr>"
    have l: "l = Enqueued i (bc_message b)" "H' = set_conn i c' ?H" using offers(2) b Some by (auto simp: offer_def)
    have "\<forall>j. client_ok ls ?H j" using assms(2) by (simp add: client_ok_def)
    moreover have "conn_ok c" "delivered i ls c" using assms(2)[rule_format, of i] b(2) by (simp_all add: client_ok_def)
    ultimately show ?thesis unfolding l using send_delivered[OF _ _ Some, of i ls]
      by (intro allI client_ok_set) (auto simp: for_conn_def)
  qed
next
  case (finish t b)
  show ?thesis
  proof
    fix i
    show "client_ok (ls @ [l]) H' i"
      using assms(2)[rule_format, of i] unfolding finish
      by (auto simp: client_ok_def finish_broadcast_def close_all_at close_delivered close_keeps split: option.splits)
        (simp_all add: delivered_def)
  qed
next
  case (writes i c ok c')
  have c: "conn_ok c" "delivered i ls c" using assms(2)[rule_format, of i] writes(2) by (simp_all add: client_ok_def)
  have "\<forall>j. j \<noteq> i \<longrightarrow> \<not> for_conn j l"
    using writes(3) by (auto simp: write_step_def for_conn_def split: writer.splits list.splits option.splits if_splits)
  then show ?thesis unfolding writes using write_keeps[OF c writes(3)] by (intro allI client_ok_set[OF assms(2)]) auto
next
  case (writer_stops i c)
  have c: "conn_ok c" "delivered i ls c" using assms(2)[rule_format, of i] writer_stops(3) by (simp_all add: client_ok_def)
  then show ?thesis unfolding writer_stops using writer_leaves_keeps[OF c] by (intro allI client_ok_set[OF assms(2)]) (auto simp: for_conn_def)
next
  case (reader_stops i c)
  have c: "conn_ok c" "delivered i ls c" using assms(2)[rule_format, of i] reader_stops(3) by (simp_all add: client_ok_def)
  then show ?thesis unfolding reader_stops using close_keeps[of c] close_delivered[of i ls c]
    by (intro allI client_ok_set[OF assms(2)]) (auto simp: for_conn_def)
qed

definition empty_hub :: hub where
  "empty_hub = \<lparr>hb_clients = [], hb_conns = [], hb_threads = []\<rparr>"

lemma hub_run_ok: "hub_run H0 ls H \<Longrightarrow> H0 = empty_hub \<Longrightarrow> \<forall>i. client_ok ls H i"
proof (induction rule: hub_run.induct)
  case (stay H)
  then show ?case by (auto simp: client_ok_def empty_hub_def)
next
  case (more H ls H' l H'')
  then show ?case using hub_step_ok by blast
qed

section \<open>Every broadcast gets to its end\<close>

definition known :: "hub \<Rightarrow> bool" where
  "known H \<longleftrightarrow> (\<forall>i \<in> set (hb_clients H). map_of (hb_conns H) i \<noteq> None) \<and>
     (\<forall>t b. map_of (hb_threads H) t = Some b \<longrightarrow> (\<forall>i \<in> set (bc_todo b). map_of (hb_conns H) i \<noteq> None))"

lemma known_more:
  assumes "known H" "\<And>i. map_of (hb_conns H) i \<noteq> None \<Longrightarrow> map_of (hb_conns H') i \<noteq> None"
    "\<And>i. i \<in> set (hb_clients H') \<Longrightarrow> i \<in> set (hb_clients H) \<or> map_of (hb_conns H') i \<noteq> None"
    "\<And>t b. map_of (hb_threads H') t = Some b \<Longrightarrow> set (bc_todo b) \<subseteq> set (hb_clients H) \<or>
       (\<exists>u b0. map_of (hb_threads H) u = Some b0 \<and> set (bc_todo b) \<subseteq> set (bc_todo b0))"
  shows "known H'"
  using assms unfolding known_def by (meson subsetD)

lemma hub_step_known:
  assumes "hub_step H l H'" "known H"
  shows "known H'"
  using assms(1)
proof (cases rule: hub_step.cases)
  case (offers t b)
  then obtain i rest b' where b: "bc_todo b = i # rest" "hb_threads H' = dict_set t b' (hb_threads H)" "bc_todo b' = rest"
    "hb_clients H' = hb_clients H" "\<And>j. map_of (hb_conns H) j \<noteq> None \<Longrightarrow> map_of (hb_conns H') j \<noteq> None"
    by (auto simp: offer_def set_conn_def dict_simps split: list.splits option.splits)
  show ?thesis
  proof (rule known_more[OF assms(2)])
    fix u b0 assume u: "map_of (hb_threads H') u = Some b0"
    show "set (bc_todo b0) \<subseteq> set (hb_clients H) \<or> (\<exists>u b1. map_of (hb_threads H) u = Some b1 \<and> set (bc_todo b0) \<subseteq> set (bc_todo b1))"
    proof (cases "u = t")
      case True
      then have "set (bc_todo b0) \<subseteq> set (bc_todo b)" using u b(1-3) by (auto simp: dict_simps)
      then show ?thesis using offers(1) by blast
    next
      case False
      then show ?thesis using u b(2) by (auto simp: dict_simps)
    qed
  qed (use b(4,5) in auto)
next
  case (finish t b)
  show ?thesis
    by (rule known_more[OF assms(2)])
      (use finish in \<open>auto simp: finish_broadcast_def close_all_at dict_simps split: if_splits\<close>)
qed (rule known_more[OF assms(2)],
    auto simp: register_client_def unregister_client_def start_broadcast_def set_conn_def dict_simps split: if_splits)+

lemma hub_run_known: "hub_run H0 ls H \<Longrightarrow> H0 = empty_hub \<Longrightarrow> known H"
proof (induction rule: hub_run.induct)
  case (stay H)
  then show ?case by (simp add: known_def empty_hub_def)
next
  case (more H ls H' l H'')
  then show ?case using hub_step_known by blast
qed

lemma offer_goes_on:
  assumes "known H" "map_of (hb_threads H) t = Some b" "bc_todo b = i # rest"
  obtains l H' b' where "offer t b H = Some (l, H')" "map_of (hb_threads H') t = Some b'" "bc_todo b' = rest" "bc_message b' = bc_message b"
proof -
  have "map_of (hb_conns H) i \<noteq> None" using assms unfolding known_def by (metis list.set_intros(1))
  then obtain c where "map_of (hb_conns H) i = Some c" by blast
  then show ?thesis using assms(3) that
    by (cases "send (bc_message b) c") (auto simp: offer_def set_conn_def dict_simps)
qed

end
