(* ===== verification/Kernel_Session.thy ===== *)
theory Kernel_Session
  imports Complex_Main Prelude
begin

text \<open>
  The session of the control plane with the kernel: \<open>run\<close>, \<open>_run_kernel_session\<close>, \<open>_heartbeat_loop\<close> and
  \<open>_event_loop\<close> of \<open>cp/runtime.py\<close>, and the metadata of \<open>cp/session.py\<close>. The coroutines run on one event
  loop, so a step is the code between two awaits; what an await brings is the label of the step.
\<close>

section \<open>State\<close>

record kernel_config =
  kc_endpoint :: string
  kc_boot_id :: string
  kc_root :: string
  kc_runtimes :: "string list"
  kc_features :: "(string, string) dict"

record session_config =
  sc_backoff :: rat
  sc_token :: "string option"

text \<open>Where the main coroutine waits: for the channel, for the registration, for one of the three tasks of a session, or to try again.\<close>

datatype phase = Between | Connecting | Registering | Registered | Pausing | Stopped

record kernel_session =
  ks_phase :: phase
  ks_status :: string
  ks_session :: "string option"
  ks_scopes :: "string list"
  ks_config :: "kernel_config option"
  ks_registered :: "int option"
  ks_heartbeat :: "int option"
  ks_error :: "string option"
  ks_shutdown :: bool
  ks_backoff :: rat
  ks_channel :: bool

definition boot_session :: "session_config \<Rightarrow> string \<Rightarrow> kernel_session" where
  "boot_session cfg status = \<lparr>ks_phase = Between, ks_status = status, ks_session = None, ks_scopes = [], ks_config = None,
     ks_registered = None, ks_heartbeat = None, ks_error = None, ks_shutdown = False, ks_backoff = sc_backoff cfg, ks_channel = False\<rparr>"

section \<open>Metadata of a call\<close>

definition header_if :: "string option \<Rightarrow> string \<Rightarrow> (string \<times> string) list" where
  "header_if v key = (case v of None \<Rightarrow> [] | Some s \<Rightarrow> if s = [] then [] else [(key, s)])"

definition make_metadata :: "session_config \<Rightarrow> string \<Rightarrow> bool \<Rightarrow> bool \<Rightarrow> string option \<Rightarrow> (string \<times> string) list" where
  "make_metadata cfg request_id bootstrap session sid =
     [(''x-vloop-request-id'', request_id)] @ (if bootstrap then header_if (sc_token cfg) ''x-vloop-bootstrap-token'' else []) @
     (if session then header_if sid ''x-vloop-session-id'' else [])"

section \<open>Steps\<close>

text \<open>The start of an attempt: a channel is opened and the adapter for the executor is wired.\<close>

definition connect_kernel :: "kernel_session \<Rightarrow> kernel_session" where
  "connect_kernel S = S\<lparr>ks_status := ''connecting'', ks_error := None, ks_channel := True, ks_phase := Connecting\<rparr>"

definition register_kernel :: "string \<Rightarrow> string list \<Rightarrow> kernel_config option \<Rightarrow> int \<Rightarrow> kernel_session \<Rightarrow> kernel_session" where
  "register_kernel sid scopes config now S = S\<lparr>ks_session := Some sid, ks_scopes := scopes, ks_config := config,
     ks_registered := Some now, ks_heartbeat := Some now, ks_status := ''registered'', ks_phase := Registered\<rparr>"

definition beat :: "int \<Rightarrow> kernel_session \<Rightarrow> kernel_session" where
  "beat now S = S\<lparr>ks_heartbeat := Some now\<rparr>"

text \<open>The \<open>finally\<close> of an attempt.\<close>

definition end_session :: "kernel_session \<Rightarrow> kernel_session" where
  "end_session S = S\<lparr>ks_status := (if ks_shutdown S then ''shutting_down'' else ''disconnected''), ks_session := None, ks_scopes := []\<rparr>"

text \<open>What \<open>run\<close> does with an attempt that raised, and with one that returned.\<close>

definition attempt_failed :: "string \<Rightarrow> kernel_session \<Rightarrow> kernel_session" where
  "attempt_failed e S =
     (let S1 = end_session S in
      if ks_shutdown S1 then S1\<lparr>ks_phase := Stopped\<rparr>
      else S1\<lparr>ks_status := ''reconnecting'', ks_error := Some e, ks_phase := Pausing\<rparr>)"

definition attempt_returned :: "session_config \<Rightarrow> kernel_session \<Rightarrow> kernel_session" where
  "attempt_returned cfg S = (end_session S)\<lparr>ks_backoff := sc_backoff cfg, ks_phase := Between\<rparr>"

definition next_backoff :: "rat \<Rightarrow> rat" where
  "next_backoff b = min (b * 2) 15"

definition pause_over :: "kernel_session \<Rightarrow> kernel_session" where
  "pause_over S = S\<lparr>ks_backoff := next_backoff (ks_backoff S), ks_phase := Between\<rparr>"

definition ended_unexpectedly :: string where
  "ended_unexpectedly = ''control plane kernel session ended unexpectedly''"

datatype session_event =
    Attempt | Channel_ready | Accepted string "string list" "kernel_config option" int | Beat int
  | Session_raised string | Task_ended | Session_returned | Paused | Shutdown_requested | Left

inductive session_step :: "session_config \<Rightarrow> kernel_session \<Rightarrow> session_event \<Rightarrow> kernel_session \<Rightarrow> bool" for cfg where
  attempts: "ks_phase S = Between \<Longrightarrow> \<not> ks_shutdown S \<Longrightarrow> session_step cfg S Attempt (connect_kernel S)"
| leaves: "ks_phase S = Between \<Longrightarrow> ks_shutdown S \<Longrightarrow> session_step cfg S Left (S\<lparr>ks_phase := Stopped\<rparr>)"
| ready: "ks_phase S = Connecting \<Longrightarrow> session_step cfg S Channel_ready (S\<lparr>ks_phase := Registering\<rparr>)"
| registers: "ks_phase S = Registering \<Longrightarrow> session_step cfg S (Accepted sid scopes config now) (register_kernel sid scopes config now S)"
| beats: "ks_phase S = Registered \<Longrightarrow> session_step cfg S (Beat now) (beat now S)"
| raises: "ks_phase S \<in> {Connecting, Registering, Registered} \<Longrightarrow> session_step cfg S (Session_raised e) (attempt_failed e S)"
| task_ends: "ks_phase S = Registered \<Longrightarrow> session_step cfg S Task_ended (attempt_failed ended_unexpectedly S)"
| returns: "ks_phase S = Registered \<Longrightarrow> ks_shutdown S \<Longrightarrow> session_step cfg S Session_returned (attempt_returned cfg S)"
| wakes: "ks_phase S = Pausing \<Longrightarrow> session_step cfg S Paused (pause_over S)"
| asked: "session_step cfg S Shutdown_requested (S\<lparr>ks_shutdown := True\<rparr>)"

inductive session_run :: "session_config \<Rightarrow> kernel_session \<Rightarrow> session_event list \<Rightarrow> kernel_session \<Rightarrow> bool" for cfg S0 where
  boot: "session_run cfg S0 [] S0"
| goes_on: "session_run cfg S0 es S \<Longrightarrow> session_step cfg S e S' \<Longrightarrow> session_run cfg S0 (es @ [e]) S'"

section \<open>Invariants\<close>

definition session_ok :: "kernel_session \<Rightarrow> bool" where
  "session_ok S \<longleftrightarrow> (ks_session S \<noteq> None \<longleftrightarrow> ks_phase S = Registered) \<and> (ks_scopes S \<noteq> [] \<longrightarrow> ks_phase S = Registered) \<and>
     (ks_phase S = Registered \<longleftrightarrow> ks_status S = ''registered'') \<and> (ks_phase S = Pausing \<longrightarrow> ks_error S \<noteq> None) \<and>
     (ks_phase S = Stopped \<longrightarrow> ks_shutdown S) \<and> (ks_phase S = Registered \<longrightarrow> ks_heartbeat S \<noteq> None)"

lemma session_step_ok: "session_step cfg S e S' \<Longrightarrow> session_ok S \<Longrightarrow> session_ok S'"
  by (induction rule: session_step.induct)
    (auto simp: session_ok_def connect_kernel_def register_kernel_def beat_def attempt_failed_def attempt_returned_def end_session_def
      pause_over_def Let_def)

lemma session_run_ok:
  "session_run cfg S0 es S \<Longrightarrow> S0 = boot_session cfg status \<Longrightarrow> status \<noteq> ''registered'' \<Longrightarrow> session_ok S"
proof (induction rule: session_run.induct)
  case boot
  then show ?case by (simp add: session_ok_def boot_session_def)
next
  case (goes_on es S e S')
  then show ?case using session_step_ok by blast
qed

section \<open>The pauses\<close>

text \<open>The pause after the first failure is the configured one; each further one is twice the one before, at most 15 seconds.\<close>

fun nth_backoff :: "rat \<Rightarrow> nat \<Rightarrow> rat" where
  "nth_backoff b 0 = b"
| "nth_backoff b (Suc n) = next_backoff (nth_backoff b n)"

definition pauses :: "session_event list \<Rightarrow> nat" where
  "pauses es = length (filter (\<lambda>e. e = Paused) es)"

text \<open>A return of the attempt is the end, so the reset of the pause is never seen by another attempt.\<close>

definition backoff_inv :: "session_config \<Rightarrow> session_event list \<Rightarrow> kernel_session \<Rightarrow> bool" where
  "backoff_inv cfg es S \<longleftrightarrow> ks_backoff S = nth_backoff (sc_backoff cfg) (pauses es) \<or> (ks_shutdown S \<and> ks_phase S \<in> {Between, Stopped})"

lemma backoff_step:
  assumes "session_step cfg S e S'" "backoff_inv cfg es S"
  shows "backoff_inv cfg (es @ [e]) S'"
  using assms
  by (induction rule: session_step.induct)
    (auto simp: backoff_inv_def pauses_def connect_kernel_def register_kernel_def beat_def attempt_failed_def attempt_returned_def
      end_session_def pause_over_def Let_def)

lemma backoff_run: "session_run cfg S0 es S \<Longrightarrow> S0 = boot_session cfg status \<Longrightarrow> backoff_inv cfg es S"
proof (induction rule: session_run.induct)
  case boot
  then show ?case by (simp add: backoff_inv_def boot_session_def pauses_def)
next
  case (goes_on es S e S')
  then show ?case using backoff_step by blast
qed

lemma session_stopped:
  "session_run cfg S0 es S \<Longrightarrow> S0 = boot_session cfg status \<Longrightarrow> status \<noteq> ''registered'' \<Longrightarrow> ks_phase S = Stopped \<longrightarrow> ks_shutdown S"
  using session_run_ok by (auto simp: session_ok_def)

lemma nth_backoff_bounds: "0 \<le> b \<Longrightarrow> b \<le> 15 \<Longrightarrow> b \<le> nth_backoff b n \<and> nth_backoff b n \<le> 15"
  by (induction n) (auto simp: next_backoff_def min_def)

lemma nth_backoff_grows: "0 \<le> b \<Longrightarrow> b \<le> 15 \<Longrightarrow> nth_backoff b n \<le> nth_backoff b (Suc n)"
  using nth_backoff_bounds[of b n] by (auto simp: next_backoff_def min_def)

section \<open>Stopping\<close>

text \<open>How many steps of the main coroutine are left at most once a shutdown was requested, heartbeats aside.\<close>

fun phase_rank :: "phase \<Rightarrow> nat" where
  "phase_rank Stopped = 0"
| "phase_rank Between = 1"
| "phase_rank Pausing = 2"
| "phase_rank Registered = 2"
| "phase_rank Registering = 3"
| "phase_rank Connecting = 4"

fun waits_only :: "session_event \<Rightarrow> bool" where
  "waits_only (Beat n) = True"
| "waits_only Shutdown_requested = True"
| "waits_only e = False"

lemma stopping_step:
  assumes "session_step cfg S e S'" "ks_shutdown S"
  shows "ks_shutdown S'" "if waits_only e then ks_phase S' = ks_phase S else phase_rank (ks_phase S') < phase_rank (ks_phase S)"
  using assms
  by (induction rule: session_step.induct)
    (auto simp: connect_kernel_def register_kernel_def beat_def attempt_failed_def attempt_returned_def end_session_def pause_over_def Let_def)

lemma never_stuck:
  assumes "ks_phase S \<noteq> Stopped"
  shows "\<exists>e S'. session_step cfg S e S' \<and> \<not> waits_only e"
proof (cases "ks_phase S")
  case Between
  then show ?thesis using attempts[of S cfg] leaves[of S cfg] by (cases "ks_shutdown S") fastforce+
next
  case Connecting
  then show ?thesis using ready[of S cfg] by fastforce
next
  case Registering
  then show ?thesis using raises[of S cfg "[]"] by fastforce
next
  case Registered
  then show ?thesis using raises[of S cfg "[]"] by fastforce
next
  case Pausing
  then show ?thesis using wakes[of S cfg] by fastforce
next
  case Stopped
  then show ?thesis using assms by simp
qed

lemma stops_within:
  "session_run cfg S es S' \<Longrightarrow> ks_shutdown S \<Longrightarrow>
    ks_shutdown S' \<and> length (filter (\<lambda>e. \<not> waits_only e) es) + phase_rank (ks_phase S') \<le> phase_rank (ks_phase S)"
proof (induction rule: session_run.induct)
  case (goes_on es S1 e S2)
  then show ?case using stopping_step[OF goes_on.hyps(2)] by (auto split: if_splits)
qed simp

lemma phase_rank_bound: "phase_rank p \<le> 4"
  by (cases p) simp_all

end
