(* ===== verification/Demo_Infra.thy ===== *)
theory Demo_Infra
  imports Demo_Api Code_Executor Mcp_Client Skills Providers Ws_Frames Ws_Broadcast Kernel_Session
begin

text \<open>
  The kernel adapter behind the API, and concrete inputs for the sandbox, the tool servers and the
  skill documents.
\<close>

section \<open>The adapter the runtime wires\<close>

definition wired_port ::
  "(exec_request, exec_response option, 'k) rpc \<Rightarrow> (string, unit, 'k) rpc \<Rightarrow> (string, 'k log_stream, 'k) rpc \<Rightarrow>
    (exec_request \<Rightarrow> string option) \<Rightarrow> 'k kernel_port" where
  "wired_port ex sp lg rf = infra_port (wire_execution_manager (workload_control_stub ex sp lg) rf)"

lemma workload_control_methods:
  "st_snapshot (workload_control_stub ex sp lg) = None" "st_restore (workload_control_stub ex sp lg) = None"
  "st_grant (workload_control_stub ex sp lg) = None"
  by (simp_all add: workload_control_stub_def)

lemmas workload_control_fails = wired_fails[OF workload_control_methods]

lemma wired_restore: "\<exists>e. kp_restore (wired_port ex sp lg rf) ws ref k = (Inl e, k)"
proof -
  obtain e where "restore_workspace (wire_execution_manager (workload_control_stub ex sp lg) rf) ws ref k = (Inl e, k)"
    using workload_control_fails(2)[of ex sp lg rf ws ref k] by (elim exE) simp
  then show ?thesis by (simp add: wired_port_def infra_port_def)
qed

lemma wired_snapshot: "\<exists>e. kp_snapshot (wired_port ex sp lg rf) ws k = (Inl e, k)"
proof -
  obtain e where "snapshot_workspace (wire_execution_manager (workload_control_stub ex sp lg) rf) ws k = (Inl e, k)"
    using workload_control_fails(1)[of ex sp lg rf ws k] by (elim exE) simp
  then show ?thesis by (simp add: wired_port_def infra_port_def)
qed

lemma wired_rollback:
  assumes "cp_port R = Some (wired_port ex sp lg rf)" "i \<noteq> []"
  shows "\<exists>e. rollback_checkpoint i R = (Inl (Other_error e), R)"
proof (cases "get_checkpoint i (cp_checkpoints R)")
  case None
  then show ?thesis using assms(2) by (simp add: rollback_checkpoint_def restore_checkpoint_def)
next
  case (Some c)
  obtain e where "kp_restore (wired_port ex sp lg rf) (ck_workspace c) (ck_ref c) (cp_kernel R) = (Inl e, cp_kernel R)"
    using wired_restore[of ex sp lg rf "ck_workspace c" "ck_ref c" "cp_kernel R"] by (elim exE) simp
  then show ?thesis using assms Some
    by (simp add: rollback_checkpoint_def restore_checkpoint_def lazy_port_def)
qed

lemma wired_rollback_request:
  assumes "asks parse rq ''POST'' [''checkpoints'', x, ''rollback''] body" "ae_unquote E x \<noteq> []"
    "cp_port R = Some (wired_port ex sp lg rf)"
  shows "serve parse fs site E others rq R = (Failed internal_error, R)"
proof -
  obtain e where "rollback_checkpoint (ae_unquote E x) R = (Inl (Other_error e), R)" using wired_rollback[OF assms(3,2)] by blast
  then show ?thesis
    using asked_segment(1)[OF assms(1)] asked_segment(2)[OF assms(1)] asked_method[OF assms(1)]
    by (simp add: serve_asked[OF assms(1) argument_routes(4)] api_handler_of_def handle_checkpoint_rollback_def path_arg_def
        require_method_def effect_def other_is_internal del: handle_exception.simps)
qed

section \<open>Concrete inputs\<close>

lemma rollback_asks: "asks (demo_parse d) (demo_post ''/api/v1/checkpoints/c/rollback'') ''POST'' [''checkpoints'', ''c'', ''rollback''] d"
proof -
  have n: "json_int (JStr ''9'') = Inr 9" by code_simp
  have p: "split_segments ''/api/v1/checkpoints/c/rollback'' = api [''checkpoints'', ''c'', ''rollback'']" by code_simp
  show ?thesis using n p by (simp add: asks_def demo_post_def api_path_def read_json_body_def content_length_def demo_parse_def)
qed

definition demo_wired :: "(unit, unit) runtime" where
  "demo_wired = demo_boot\<lparr>cp_port := Some (wired_port (\<lambda>rq k. (Inr (Plain None), k)) (\<lambda>j k. (Inr (Plain ()), k))
     (\<lambda>j k. (Inr (Plain (Sync_lines [] None)), k)) (\<lambda>rq. None))\<rparr>"

text \<open>A kernel that is asked for a script counts the jobs it tears down.\<close>

definition demo_entry :: "string \<Rightarrow> string \<Rightarrow> obj" where
  "demo_entry s l = [(''stream'', JStr s), (''line'', JStr l)]"

definition demo_manager :: "nat manager" where
  "demo_manager = \<lparr>mg_dispatch = (\<lambda>spec policy w. (Inr ''job'', w)),
     mg_logs = (\<lambda>j w. (([demo_entry ''stdout'' ''one'', demo_entry ''exit'' ''0''], None), w)),
     mg_teardown = (\<lambda>j w. (Inr (), Suc w))\<rparr>"

definition demo_script :: script_request where
  "demo_script = \<lparr>sx_command = [''true''], sx_image = [], sx_environment = [], sx_limit = Some 5, sx_class = ''worker''\<rparr>"

definition demo_script_scope :: run_scope where
  "demo_script_scope = \<lparr>rs_run_id = ''r'', rs_definition_id = ''d'', rs_budget = None\<rparr>"

text \<open>A server that advertises two tools, of which the filter allows one.\<close>

definition demo_tool :: "string \<Rightarrow> tool_descriptor" where
  "demo_tool n = \<lparr>td_name = n, td_description = [], td_schema = [], td_mutating = False\<rparr>"

definition demo_connection :: "unit connection" where
  "demo_connection = \<lparr>cn_list = (\<lambda>w. (Inr [demo_tool ''a'', demo_tool ''b''], w)), cn_call = (\<lambda>n args w. (Inr JNull, w)),
     cn_close = (\<lambda>w. (Inr (), w))\<rparr>"

definition demo_mcp :: "unit mcp_env" where
  "demo_mcp = \<lparr>mv_connect = (\<lambda>cfg g w. (Inr demo_connection, w)),
     mv_grants = Some (\<lambda>ref target w. (Inr (Some \<lparr>grant_id = ''g'', session_ref = ''s''\<rparr>), w))\<rparr>"

definition demo_server :: server_config where
  "demo_server = \<lparr>sv_id = ''m'', sv_name = ''M'', sv_transport = ''stdio'', sv_filter = Some [''a''], sv_secret = Some ''token'', sv_target = None\<rparr>"

definition demo_client :: "unit mcp_client" where
  "demo_client = new_mcp_client (new_registry False None) (Some []) None"


text \<open>A provider in session mode.\<close>

definition demo_provider_env :: provider_env where
  "demo_provider_env = \<lparr>pe_float = (\<lambda>q. []), pe_environ = (\<lambda>v. None), pe_dspy = None, pe_mock = (\<lambda>m. Inl []), pe_fresh = ''p''\<rparr>"

definition demo_openai :: obj where
  "demo_openai = [(''providerType'', JStr ''openai''), (''name'', JStr ''main''), (''secretMode'', JStr ''session''),
     (''sessionSecret'', JStr ''key'')]"

lemma demo_provider_saved:
  "\<exists>r. map_of (pd_rows (provider_session id [(''t'', demo_provider_env, Collection, demo_post ''/api/v1/providers'', demo_openai)] no_providers)) ''p'' = Some r \<and>
     pv_mode r = ''session''"
proof -
  have "map_option pv_mode (map_of (pd_rows (provider_session id [(''t'', demo_provider_env, Collection, demo_post ''/api/v1/providers'', demo_openai)] no_providers)) ''p'') = Some ''session''"
    by code_simp
  then show ?thesis by auto
qed

lemma demo_other_secret: "same_body demo_provider_env demo_openai (dict_set ''sessionSecret'' (JStr ''other'') demo_openai)"
proof -
  have "session_secret demo_provider_env demo_openai \<noteq> []" by code_simp
  moreover have "session_secret demo_provider_env (dict_set ''sessionSecret'' (JStr ''other'') demo_openai) \<noteq> []" by code_simp
  ultimately show ?thesis by (simp add: same_body_def dict_simps)
qed


text \<open>One client, one broadcast, and the message on the wire.\<close>

lemma demo_push: "\<exists>ls H c. hub_run empty_hub ls H \<and> map_of (hb_conns H) 0 = Some c \<and> written_to 0 ls = [''m''] \<and> \<not> wc_closed c"
proof -
  let ?b = "\<lparr>bc_message = ''m'', bc_todo = [0], bc_dead = []\<rparr>"
  let ?c = "\<lambda>q w. \<lparr>wc_queue = q, wc_max = 1, wc_closed = False, wc_writer = w\<rparr>"
  let ?H = "\<lambda>q w ts. \<lparr>hb_clients = [0], hb_conns = [(0, ?c q w)], hb_threads = ts\<rparr>"
  have "hub_step empty_hub Silent (register_client 0 (set_conn 0 (new_conn 1) empty_hub))"
    by (rule accept) (simp add: empty_hub_def dict_has_def)
  then have 1: "hub_step empty_hub Silent (?H [] Waiting [])"
    by (simp add: register_client_def set_conn_def new_conn_def empty_hub_def List.insert_def)
  have "hub_step (?H [] Waiting []) Silent (start_broadcast 0 ''m'' [0] (?H [] Waiting []))"
    by (rule start) (simp_all add: dict_has_def)
  then have 2: "hub_step (?H [] Waiting []) Silent (?H [] Waiting [(0, ?b)])" by (simp add: start_broadcast_def)
  have 3: "hub_step (?H [] Waiting [(0, ?b)]) (Enqueued 0 ''m'') (?H [Some ''m''] Waiting [(0, ?b\<lparr>bc_todo := []\<rparr>)])"
    by (rule offers[of _ 0 ?b]) (simp_all add: offer_def send_def queue_full_def set_conn_def)
  have "hub_step (?H [Some ''m''] Waiting [(0, ?b\<lparr>bc_todo := []\<rparr>)]) Silent
      (set_conn 0 (?c [] (Holding ''m'')) (?H [Some ''m''] Waiting [(0, ?b\<lparr>bc_todo := []\<rparr>)]))"
    by (rule writes[of _ 0 "?c [Some ''m''] Waiting" True]) (simp_all add: write_step_def)
  then have 4: "hub_step (?H [Some ''m''] Waiting [(0, ?b\<lparr>bc_todo := []\<rparr>)]) Silent (?H [] (Holding ''m'') [(0, ?b\<lparr>bc_todo := []\<rparr>)])"
    by (simp add: set_conn_def)
  have "hub_step (?H [] (Holding ''m'') [(0, ?b\<lparr>bc_todo := []\<rparr>)]) (Wrote 0 ''m'')
      (set_conn 0 (?c [] Waiting) (?H [] (Holding ''m'') [(0, ?b\<lparr>bc_todo := []\<rparr>)]))"
    by (rule writes[of _ 0 "?c [] (Holding ''m'')" True]) (simp_all add: write_step_def)
  then have 5: "hub_step (?H [] (Holding ''m'') [(0, ?b\<lparr>bc_todo := []\<rparr>)]) (Wrote 0 ''m'') (?H [] Waiting [(0, ?b\<lparr>bc_todo := []\<rparr>)])"
    by (simp add: set_conn_def)
  have "hub_run empty_hub ([] @ [Silent] @ [Silent] @ [Enqueued 0 ''m''] @ [Silent] @ [Wrote 0 ''m'']) (?H [] Waiting [(0, ?b\<lparr>bc_todo := []\<rparr>)])"
    using more[OF more[OF more[OF more[OF more[OF stay 1] 2] 3] 4] 5] by simp
  moreover have "written_to 0 ([] @ [Silent] @ [Silent] @ [Enqueued 0 ''m''] @ [Silent] @ [Wrote 0 ''m'']) = [''m'']"
    by (simp add: written_to_def)
  ultimately show ?thesis by fastforce
qed


text \<open>A session that registers, loses the event stream and pauses.\<close>

definition demo_session_config :: session_config where
  "demo_session_config = \<lparr>sc_backoff = 2, sc_token = None\<rparr>"

definition demo_session_events :: "session_event list" where
  "demo_session_events = [] @ [Attempt] @ [Channel_ready] @ [Accepted ''s'' [] None 1] @ [Session_raised ''lost''] @ [Paused]"

lemma demo_session:
  "\<exists>S. session_run demo_session_config (boot_session demo_session_config ''starting'') demo_session_events S \<and> \<not> ks_shutdown S \<and>
    ks_status S \<noteq> ''registered''"
proof -
  let ?s0 = "boot_session demo_session_config ''starting''"
  let ?s1 = "connect_kernel ?s0"
  let ?s2 = "?s1\<lparr>ks_phase := Registering\<rparr>"
  let ?s3 = "register_kernel ''s'' [] None 1 ?s2"
  let ?s4 = "attempt_failed ''lost'' ?s3"
  let ?s5 = "pause_over ?s4"
  have 1: "session_step demo_session_config ?s0 Attempt ?s1" by (rule attempts) (simp_all add: boot_session_def)
  have 2: "session_step demo_session_config ?s1 Channel_ready ?s2" by (rule ready) (simp add: connect_kernel_def)
  have 3: "session_step demo_session_config ?s2 (Accepted ''s'' [] None 1) ?s3" by (rule registers) simp
  have 4: "session_step demo_session_config ?s3 (Session_raised ''lost'') ?s4" by (rule raises) (simp add: register_kernel_def)
  have 5: "session_step demo_session_config ?s4 Paused ?s5"
    by (rule wakes) (simp add: attempt_failed_def end_session_def register_kernel_def connect_kernel_def boot_session_def Let_def)
  have "session_run demo_session_config ?s0 demo_session_events ?s5"
    unfolding demo_session_events_def
    using session_run.goes_on[OF session_run.goes_on[OF session_run.goes_on[OF session_run.goes_on[OF session_run.goes_on[OF session_run.boot 1] 2] 3] 4] 5]
    by simp
  moreover have "\<not> ks_shutdown ?s5" "ks_status ?s5 \<noteq> ''registered''"
    by (simp_all add: pause_over_def attempt_failed_def end_session_def register_kernel_def connect_kernel_def boot_session_def Let_def)
  ultimately show ?thesis by blast
qed

end
