(* ===== verification/Window.thy ===== *)
theory Window
  imports Prelude Json
begin

text \<open>
  \<open>cp/window.py\<close>: the manager of the desktop window. The window itself is outside the repository: an operation
  gives the calls it makes to it, in order; \<open>fails\<close> says which of them raise, and \<open>now\<close> is the clock. The
  callbacks of the window come one after the other, so each is one step.
\<close>

section \<open>State\<close>

record window_snapshot =
  wn_open :: bool
  wn_requests :: nat
  wn_reason :: "string option"
  wn_opened :: "int option"
  wn_focused :: "int option"
  wn_shell :: "string option"
  wn_loaded :: "string option"
  wn_loaded_at :: "int option"

record window =
  wi_snap :: window_snapshot
  wi_hidden_until_open :: bool
  wi_allow_destroy :: bool
  wi_created :: bool
  wi_quit :: bool

datatype window_call = Load_url string | Show_window | Restore_window | Focus_window | Hide_window | Destroy_window | Start_quit

definition new_window :: "bool \<Rightarrow> window" where
  "new_window hidden = \<lparr>wi_snap = \<lparr>wn_open = \<not> hidden, wn_requests = 0, wn_reason = None, wn_opened = None, wn_focused = None,
     wn_shell = None, wn_loaded = None, wn_loaded_at = None\<rparr>, wi_hidden_until_open = hidden, wi_allow_destroy = False,
     wi_created = False, wi_quit = False\<rparr>"

definition opt_text :: "string option \<Rightarrow> json" where
  "opt_text v = (case v of None \<Rightarrow> JNull | Some s \<Rightarrow> JStr s)"

definition opt_int :: "int option \<Rightarrow> json" where
  "opt_int v = (case v of None \<Rightarrow> JNull | Some n \<Rightarrow> JInt n)"

definition window_json :: "window_snapshot \<Rightarrow> json" where
  "window_json s = JObj [(''backend'', JStr ''pywebview''), (''is_open'', JBool (wn_open s)), (''open_requests'', JInt (int (wn_requests s))),
     (''last_open_reason'', opt_text (wn_reason s)), (''last_opened_at_unix_ms'', opt_int (wn_opened s)),
     (''last_focused_at_unix_ms'', opt_int (wn_focused s)), (''shell_url'', opt_text (wn_shell s)),
     (''loaded_url'', opt_text (wn_loaded s)), (''last_loaded_at_unix_ms'', opt_int (wn_loaded_at s))]"

section \<open>Operations\<close>

definition with_snap :: "(window_snapshot \<Rightarrow> window_snapshot) \<Rightarrow> window \<Rightarrow> window" where
  "with_snap f W = W\<lparr>wi_snap := f (wi_snap W)\<rparr>"

definition create_window :: "window \<Rightarrow> window" where
  "create_window W = W\<lparr>wi_created := True\<rparr>"

definition set_quit_callback :: "window \<Rightarrow> window" where
  "set_quit_callback W = W\<lparr>wi_quit := True\<rparr>"

definition attach_shell_url :: "string \<Rightarrow> window \<Rightarrow> window_call list \<times> window" where
  "attach_shell_url url W =
     (let W1 = with_snap (\<lambda>s. s\<lparr>wn_shell := Some url\<rparr>) W in
      (if \<not> wi_created W then [] else if wn_loaded (wi_snap W) = Some url then [] else [Load_url url], W1))"

definition opened_snapshot :: "string \<Rightarrow> int \<Rightarrow> window_snapshot \<Rightarrow> window_snapshot" where
  "opened_snapshot reason now s = s\<lparr>wn_requests := wn_requests s + 1, wn_reason := Some reason,
     wn_opened := (case wn_opened s of None \<Rightarrow> Some now | Some t \<Rightarrow> Some t), wn_focused := Some now, wn_open := True\<rparr>"

text \<open>The page is loaded when it is another one; if loading or showing raises, the rest is left out.\<close>

definition to_load :: "window_snapshot \<Rightarrow> window_call list" where
  "to_load s = (case wn_shell s of None \<Rightarrow> [] | Some url \<Rightarrow> if url \<noteq> [] \<and> wn_loaded s \<noteq> Some url then [Load_url url] else [])"

definition open_main_window :: "(window_call \<Rightarrow> bool) \<Rightarrow> string \<Rightarrow> int \<Rightarrow> window \<Rightarrow> window_call list \<times> window" where
  "open_main_window raises reason now W =
     (let W1 = with_snap (opened_snapshot reason now) W in
      (if \<not> wi_created W then []
       else if list_ex raises (to_load (wi_snap W1)) then to_load (wi_snap W1)
       else if raises Show_window then to_load (wi_snap W1) @ [Show_window]
       else to_load (wi_snap W1) @ [Show_window, Restore_window, Focus_window], W1))"

definition shutdown_window :: "window \<Rightarrow> window_call list \<times> window" where
  "shutdown_window W =
     (if wi_created W then [Destroy_window] else [], (with_snap (\<lambda>s. s\<lparr>wn_open := False\<rparr>) W)\<lparr>wi_allow_destroy := True\<rparr>)"

text \<open>The flag says whether the window may close.\<close>

definition on_closing :: "window \<Rightarrow> bool \<times> window_call list \<times> window" where
  "on_closing W =
     (let W1 = with_snap (\<lambda>s. s\<lparr>wn_open := False\<rparr>) W in
      if wi_allow_destroy W then (True, [], W1)
      else if wi_quit W then (True, [Start_quit], W1\<lparr>wi_allow_destroy := True\<rparr>)
      else (False, [Hide_window], W1))"

definition on_closed :: "window \<Rightarrow> window" where
  "on_closed W = with_snap (\<lambda>s. s\<lparr>wn_open := False\<rparr>) W"

definition on_loaded :: "string option \<Rightarrow> int \<Rightarrow> window \<Rightarrow> window" where
  "on_loaded url now W = with_snap (\<lambda>s. s\<lparr>wn_loaded := url, wn_loaded_at := Some now\<rparr>) W"

definition on_shown :: "int \<Rightarrow> window \<Rightarrow> window_call list \<times> window" where
  "on_shown now W =
     (if wi_hidden_until_open W \<and> wn_requests (wi_snap W) = 0 then ([Hide_window], with_snap (\<lambda>s. s\<lparr>wn_open := False\<rparr>) W)
      else ([], with_snap (\<lambda>s. s\<lparr>wn_open := True, wn_opened := (case wn_opened s of None \<Rightarrow> Some now | Some t \<Rightarrow> Some t)\<rparr>) W))"

section \<open>Runs\<close>

datatype window_event =
    Create | Callback_set | Attach string | Open "window_call \<Rightarrow> bool" string int | Shut | Closing | Closed | Loaded "string option" int | Shown int

fun window_step :: "window_event \<Rightarrow> window \<Rightarrow> window_call list \<times> window" where
  "window_step Create W = ([], create_window W)"
| "window_step Callback_set W = ([], set_quit_callback W)"
| "window_step (Attach url) W = attach_shell_url url W"
| "window_step (Open raises reason now) W = open_main_window raises reason now W"
| "window_step Shut W = shutdown_window W"
| "window_step Closing W = snd (on_closing W)"
| "window_step Closed W = ([], on_closed W)"
| "window_step (Loaded url now) W = ([], on_loaded url now W)"
| "window_step (Shown now) W = on_shown now W"

fun window_run :: "window_event list \<Rightarrow> window \<Rightarrow> window_call list \<times> window" where
  "window_run [] W = ([], W)"
| "window_run (e # es) W = (case window_step e W of (cs, W1) \<Rightarrow> (case window_run es W1 of (ds, W2) \<Rightarrow> (cs @ ds, W2)))"

lemmas window_defs = create_window_def set_quit_callback_def attach_shell_url_def open_main_window_def shutdown_window_def on_closing_def
  on_closed_def on_loaded_def on_shown_def with_snap_def opened_snapshot_def Let_def

definition quits :: "window_call list \<Rightarrow> nat" where
  "quits cs = length (filter (\<lambda>c. c = Start_quit) cs)"

lemma to_load_quits [simp]: "filter (\<lambda>c. c = Start_quit) (to_load s) = []"
  by (auto simp: to_load_def split: option.splits)

lemma step_quits:
  "quits (fst (window_step e W)) + (if wi_allow_destroy W then 1 else 0) \<le> (if wi_allow_destroy (snd (window_step e W)) then 1 else 0)"
  by (cases e) (auto simp: quits_def window_defs)

lemma run_quits:
  "quits (fst (window_run es W)) + (if wi_allow_destroy W then 1 else 0) \<le> (if wi_allow_destroy (snd (window_run es W)) then 1 else 0)"
proof (induction es arbitrary: W)
  case (Cons e es)
  have "quits (cs @ ds) = quits cs + quits ds" for cs ds by (simp add: quits_def)
  then show ?case using step_quits[of e W] Cons.IH[of "snd (window_step e W)"] by (auto split: prod.splits if_splits)
qed (simp add: quits_def)

text \<open>Shown until then means asked for or visible from the start; a time of opening is never lost.\<close>

lemma step_opened: "wn_opened (wi_snap W) = Some t \<Longrightarrow> wn_opened (wi_snap (snd (window_step e W))) = Some t"
  by (cases e) (auto simp: window_defs)

lemma run_opened: "wn_opened (wi_snap W) = Some t \<Longrightarrow> wn_opened (wi_snap (snd (window_run es W))) = Some t"
proof (induction es arbitrary: W)
  case (Cons e es)
  then show ?case using Cons.IH[OF step_opened[OF Cons.prems, of e]] by (auto split: prod.splits)
qed simp

definition opens :: "window_event list \<Rightarrow> nat" where
  "opens es = length (filter (\<lambda>e. \<exists>f r n. e = Open f r n) es)"

lemma step_requests: "wn_requests (wi_snap (snd (window_step e W))) = wn_requests (wi_snap W) + opens [e]"
  by (cases e) (auto simp: window_defs opens_def)

lemma run_requests: "wn_requests (wi_snap (snd (window_run es W))) = wn_requests (wi_snap W) + opens es"
proof (induction es arbitrary: W)
  case (Cons e es)
  have "opens (e # es) = opens [e] + opens es" by (simp add: opens_def)
  then show ?case using step_requests[of e W] Cons.IH[of "snd (window_step e W)"] by (auto split: prod.splits)
qed (simp add: opens_def)

lemma step_hidden: "wi_hidden_until_open (snd (window_step e W)) = wi_hidden_until_open W"
  by (cases e) (auto simp: window_defs)

lemma hidden_step: "wi_hidden_until_open W \<Longrightarrow> wn_requests (wi_snap W) = 0 \<Longrightarrow> \<not> wn_open (wi_snap W) \<Longrightarrow> opens [e] = 0 \<Longrightarrow>
    \<not> wn_open (wi_snap (snd (window_step e W)))"
  by (cases e) (auto simp: window_defs opens_def)

lemma hidden_run: "wi_hidden_until_open W \<Longrightarrow> wn_requests (wi_snap W) = 0 \<Longrightarrow> \<not> wn_open (wi_snap W) \<Longrightarrow> opens es = 0 \<Longrightarrow>
    \<not> wn_open (wi_snap (snd (window_run es W)))"
proof (induction es arbitrary: W)
  case (Cons e es)
  have o: "opens (e # es) = opens [e] + opens es" by (simp add: opens_def)
  then have "opens [e] = 0" "opens es = 0" using Cons.prems(4) by auto
  then show ?case using Cons.IH[of "snd (window_step e W)"] hidden_step[OF Cons.prems(1-3)] step_requests[of e W] step_hidden[of e W] Cons.prems
    by (auto split: prod.splits)
qed simp

end
