(* ===== verification/Vector_Store.thy ===== *)
theory Vector_Store
  imports Agent_Store "HOL-Library.Multiset"
begin

text \<open>
  \<open>core/vector_store.py\<close>: the brute-force store over SQLite, the adapter to a Pinecone index and the choice of
  a store by the scheme of its address. The other two stores hand a query to a database that compares
  vectors itself. A component of a vector is a rational; \<open>math.sqrt\<close> is an argument.
\<close>

section \<open>Names\<close>

text \<open>\<open>str.isalnum\<close> of the first 256 code points.\<close>

definition is_alnum :: "char \<Rightarrow> bool" where
  "is_alnum c = (let n = code c in
     48 \<le> n \<and> n \<le> 57 \<or> 65 \<le> n \<and> n \<le> 90 \<or> 97 \<le> n \<and> n \<le> 122 \<or> n \<in> {0xAA, 0xB2, 0xB3, 0xB5, 0xB9, 0xBA, 0xBC, 0xBD, 0xBE} \<or>
     0xC0 \<le> n \<and> n \<noteq> 0xD7 \<and> n \<noteq> 0xF7)"

definition sanitize_ident :: "string \<Rightarrow> string" where
  "sanitize_ident s = map (\<lambda>c. if is_alnum c \<or> c = CHR ''_'' then c else CHR ''_'') s"

text \<open>SQLite takes two names of tables for the same when they differ in the case of ASCII letters only.\<close>

definition ascii_lower :: "char \<Rightarrow> char" where
  "ascii_lower c = (if is_upper_ascii c then char_of (code c + 32) else c)"

definition table_name :: "string \<Rightarrow> string" where
  "table_name collection = map ascii_lower (''vec_'' @ sanitize_ident collection)"

section \<open>The SQLite store\<close>

type_synonym vector = "rat list"

type_synonym item = "string \<times> vector \<times> obj"

type_synonym vec_table = "(string, vector \<times> obj) dict"

type_synonym vec_tables = "(string, vec_table) dict"

definition ensure_collection :: "string \<Rightarrow> vec_tables \<Rightarrow> vec_tables" where
  "ensure_collection c T = (if dict_has T (table_name c) then T else dict_set (table_name c) [] T)"

text \<open>A row that is replaced gets a new row number, so it moves behind the others.\<close>

fun insert_or_replace :: "item \<Rightarrow> vec_table \<Rightarrow> vec_table" where
  "insert_or_replace (i, v, meta) t = dict_del i t @ [(i, v, meta)]"

definition add_embeddings :: "string \<Rightarrow> string list \<Rightarrow> vector list \<Rightarrow> obj list \<Rightarrow> vec_tables \<Rightarrow> vec_tables" where
  "add_embeddings c ids vectors metadata T =
     (if vectors = [] then T
      else let T1 = ensure_collection c T in
        dict_set (table_name c) (fold insert_or_replace (zip ids (zip vectors metadata)) (dict_get_or T1 (table_name c) [])) T1)"

definition dot :: "vector \<Rightarrow> vector \<Rightarrow> rat" where
  "dot v w = sum_list (map (\<lambda>(x, y). x * y) (zip v w))"

definition norm_of :: "(rat \<Rightarrow> rat) \<Rightarrow> vector \<Rightarrow> rat" where
  "norm_of sqr v = sqr (dot v v)"

record hit =
  ht_id :: string
  ht_score :: rat
  ht_meta :: obj

definition score_row :: "(rat \<Rightarrow> rat) \<Rightarrow> vector \<Rightarrow> string \<times> vector \<times> obj \<Rightarrow> hit option" where
  "score_row sqr q r =
     (case r of (i, emb, meta) \<Rightarrow>
        if length emb \<noteq> length q then None
        else if norm_of sqr emb = 0 then None
        else Some \<lparr>ht_id = i, ht_score = dot q emb / (norm_of sqr q * norm_of sqr emb), ht_meta = meta\<rparr>)"

text \<open>A slice up to a number counts from the end when it is negative.\<close>

definition slice_to :: "int \<Rightarrow> 'a list \<Rightarrow> 'a list" where
  "slice_to k xs = (if 0 \<le> k then take (nat k) xs else take (length xs - nat (- k)) xs)"

definition search :: "(rat \<Rightarrow> rat) \<Rightarrow> string \<Rightarrow> vector \<Rightarrow> int \<Rightarrow> vec_tables \<Rightarrow> hit list \<times> vec_tables" where
  "search sqr c q top_k T =
     (let T1 = ensure_collection c T in
      (if norm_of sqr q = 0 then []
       else slice_to top_k (sort_desc ht_score (List.map_filter (score_row sqr q) (dict_get_or T1 (table_name c) []))), T1))"

definition delete_embeddings :: "string \<Rightarrow> string list \<Rightarrow> vec_tables \<Rightarrow> py_error + vec_tables" where
  "delete_embeddings c ids T =
     (if ids = [] then Inr T
      else (case map_of T (table_name c) of
         None \<Rightarrow> Inl (Other_error (''no such table: vec_'' @ sanitize_ident c))
       | Some t \<Rightarrow> Inr (dict_set (table_name c) (fold dict_del ids t) T)))"

section \<open>Pinecone\<close>

text \<open>The index is outside the repository: what its three methods do is an argument.\<close>

record index_match =
  im_id :: string
  im_score :: rat
  im_meta :: "obj option"

record 'w index_ops =
  ix_upsert :: "item list \<Rightarrow> 'w \<Rightarrow> py_error + 'w"
  ix_query :: "vector \<Rightarrow> int \<Rightarrow> obj \<Rightarrow> 'w \<Rightarrow> py_error + index_match list"
  ix_delete :: "string list \<Rightarrow> 'w \<Rightarrow> py_error + 'w"

definition pinecone_add :: "'w index_ops \<Rightarrow> string \<Rightarrow> string list \<Rightarrow> vector list \<Rightarrow> obj list \<Rightarrow> 'w \<Rightarrow> py_error + 'w" where
  "pinecone_add X c ids vectors metadata w =
     (if vectors = [] then Inr w
      else ix_upsert X (map (\<lambda>(i, v, meta). (i, v, dict_set ''collection'' (JStr c) meta)) (zip ids (zip vectors metadata))) w)"

definition pinecone_hit :: "index_match \<Rightarrow> hit" where
  "pinecone_hit m = \<lparr>ht_id = im_id m, ht_score = im_score m,
     ht_meta = filter (\<lambda>(k, v). k \<noteq> ''collection'') (case im_meta m of None \<Rightarrow> [] | Some d \<Rightarrow> d)\<rparr>"

definition pinecone_search :: "'w index_ops \<Rightarrow> string \<Rightarrow> vector \<Rightarrow> int \<Rightarrow> 'w \<Rightarrow> py_error + hit list" where
  "pinecone_search X c q top_k w =
     rbind (ix_query X q top_k [(''collection'', JStr c)] w) (\<lambda>ms. Inr (map pinecone_hit ms))"

definition pinecone_delete :: "'w index_ops \<Rightarrow> string \<Rightarrow> string list \<Rightarrow> 'w \<Rightarrow> py_error + 'w" where
  "pinecone_delete X c ids w = ix_delete X ids w"

section \<open>The choice of a store\<close>

datatype vec_choice = No_store | Pg_store string | Duck_store string | Pinecone_store string string | Sqlite_store string

text \<open>\<open>root / part\<close> on the text of a path.\<close>

definition join_path :: "string \<Rightarrow> string \<Rightarrow> string" where
  "join_path d part = (if d = ''.'' then part else if d \<noteq> [] \<and> last d = CHR ''/'' then d @ part else d @ ''/'' @ part)"

definition after_scheme :: "string \<Rightarrow> string \<Rightarrow> string \<Rightarrow> string" where
  "after_scheme scheme url other = (let rest = drop (length scheme) url in if rest = [] then other else rest)"

definition create_vector_store ::
  "(string \<Rightarrow> string option) \<Rightarrow> string \<Rightarrow> string option \<Rightarrow> string option \<Rightarrow> py_error + vec_choice" where
  "create_vector_store environ home url runtime_root =
     (let env = (\<lambda>k d. case environ k of None \<Rightarrow> d | Some v \<Rightarrow> v);
          given_url = (case url of None \<Rightarrow> [] | Some u \<Rightarrow> u);
          vec_url = str_strip (if given_url \<noteq> [] then given_url else env ''VLOOP_VECTOR_DB_URL'' []);
          base = (case runtime_root of Some r \<Rightarrow> r | None \<Rightarrow> env ''VLOOP_RUNTIME_ROOT'' (join_path home ''.vloop''))
      in if vec_url = [] \<or> str_lower vec_url = ''none'' then Inr No_store
         else if str_prefix ''postgresql://'' vec_url \<or> str_prefix ''postgres://'' vec_url then Inr (Pg_store vec_url)
         else if str_prefix ''duckdb://'' vec_url then
           Inr (Duck_store (after_scheme ''duckdb://'' vec_url (join_path base ''data/vectors.duckdb'')))
         else if str_prefix ''pinecone://'' vec_url then
           (if env ''PINECONE_API_KEY'' [] = [] then Inl (Runtime_error ''PINECONE_API_KEY env var is required for Pinecone'')
            else Inr (Pinecone_store (env ''PINECONE_API_KEY'' []) (env ''PINECONE_ENVIRONMENT'' ''us-west1-gcp'')))
         else if str_prefix ''sqlite://'' vec_url then
           Inr (Sqlite_store (after_scheme ''sqlite://'' vec_url (join_path base ''data/vectors.db'')))
         else Inl (Value_error (''Unsupported vector DB URL scheme: '' @ vec_url)))"

section \<open>The interface\<close>

text \<open>
  What a client of \<open>VectorStore\<close> relies on: a row is found under its collection and id after it was added,
  until it is deleted, and an operation on one collection leaves the rows of another alone.
\<close>

datatype vec_op = Add string "string list" "vector list" "obj list" | Drop string "string list" | Look string vector int

type_synonym rows_view = "string \<times> string \<Rightarrow> (vector \<times> obj) option"

fun spec_op :: "(string \<Rightarrow> string) \<Rightarrow> vec_op \<Rightarrow> rows_view \<Rightarrow> rows_view" where
  "spec_op key (Add c ids vs ms) A = (\<lambda>(k, i). if k = key c then
      (case map_of (rev (zip ids (zip vs ms))) i of None \<Rightarrow> A (k, i) | Some r \<Rightarrow> Some r) else A (k, i))"
| "spec_op key (Drop c ids) A = (\<lambda>(k, i). if k = key c \<and> i \<in> set ids then None else A (k, i))"
| "spec_op key (Look c q n) A = A"

locale vector_rows =
  fixes key :: "string \<Rightarrow> string"
    and good :: "'s \<Rightarrow> bool"
    and step :: "vec_op \<Rightarrow> 's \<Rightarrow> 's"
    and row_of :: "'s \<Rightarrow> string \<times> string \<Rightarrow> (vector \<times> obj) option"
  assumes keeps: "good s \<Longrightarrow> good (step p s)"
    and refines: "good s \<Longrightarrow> row_of (step p s) = spec_op key p (row_of s)"
begin

lemma run_good: "good s \<Longrightarrow> good (fold step ps s)"
  by (induction ps arbitrary: s) (simp_all add: keeps)

lemma run_refines: "good s \<Longrightarrow> row_of (fold step ps s) = fold (spec_op key) ps (row_of s)"
  by (induction ps arbitrary: s) (simp_all add: keeps refines)

lemma other_collection:
  "good s \<Longrightarrow> k \<notin> (\<lambda>p. case p of Add c _ _ _ \<Rightarrow> key c | Drop c _ \<Rightarrow> key c | Look c _ _ \<Rightarrow> key c) ` set ps \<Longrightarrow>
    row_of (fold step ps s) (k, i) = row_of s (k, i)"
proof (induction ps arbitrary: s)
  case (Cons p ps)
  then show ?case by (cases p) (simp_all add: keeps refines)
qed simp

end

section \<open>The SQLite store refines it\<close>

definition vec_tables_ok :: "vec_tables \<Rightarrow> bool" where
  "vec_tables_ok T \<longleftrightarrow> dict_ok T \<and> (\<forall>k t. map_of T k = Some t \<longrightarrow> dict_ok t)"

definition stored_row :: "vec_tables \<Rightarrow> string \<times> string \<Rightarrow> (vector \<times> obj) option" where
  "stored_row T ki = (case map_of T (fst ki) of None \<Rightarrow> None | Some t \<Rightarrow> map_of t (snd ki))"

text \<open>An operation that raises leaves the tables as they were.\<close>

fun sqlite_step :: "(rat \<Rightarrow> rat) \<Rightarrow> vec_op \<Rightarrow> vec_tables \<Rightarrow> vec_tables" where
  "sqlite_step sqr (Add c ids vs ms) T = add_embeddings c ids vs ms T"
| "sqlite_step sqr (Drop c ids) T = (case delete_embeddings c ids T of Inl e \<Rightarrow> T | Inr T' \<Rightarrow> T')"
| "sqlite_step sqr (Look c q n) T = snd (search sqr c q n T)"

lemma insert_or_replace_get: "map_of (insert_or_replace (i, r) t) = (map_of t)(i \<mapsto> r)"
  by (cases r) (auto simp: map_add_def dict_simps fun_eq_iff split: option.splits)

lemma insert_or_replace_ok: "dict_ok t \<Longrightarrow> dict_ok (insert_or_replace x t)"
  by (cases x) (auto simp: delete_keys distinct_removeAll)

lemma insert_all_ok: "dict_ok t \<Longrightarrow> dict_ok (fold insert_or_replace xs t)"
  by (induction xs arbitrary: t) (simp_all add: insert_or_replace_ok)

lemma insert_all_get:
  "map_of (fold insert_or_replace xs t) i = (case map_of (rev xs) i of None \<Rightarrow> map_of t i | Some r \<Rightarrow> Some r)"
proof (induction xs arbitrary: t)
  case (Cons x xs)
  obtain j r where x: "x = (j, r)" by (cases x)
  have "map_of (fold insert_or_replace (x # xs) t) i =
      (case map_of (rev xs) i of None \<Rightarrow> map_of (insert_or_replace (j, r) t) i | Some r \<Rightarrow> Some r)"
    by (simp add: Cons.IH x del: insert_or_replace.simps)
  then show ?case unfolding insert_or_replace_get x by (auto simp: map_add_def split: option.splits)
qed simp

lemma delete_all_get: "map_of (fold dict_del ids t) i = (if i \<in> set ids then None else map_of t i)"
  by (induction ids arbitrary: t) (auto simp: dict_simps)

lemma delete_all_ok: "dict_ok t \<Longrightarrow> dict_ok (fold dict_del ids t)"
  by (induction ids arbitrary: t) (simp_all add: dict_del_ok)

lemma set_table_ok: "vec_tables_ok T \<Longrightarrow> dict_ok t \<Longrightarrow> vec_tables_ok (dict_set k t T)"
  by (auto simp: vec_tables_ok_def dict_simps simp del: map_of_eq_Some_iff split: if_splits)

lemma ensure_ok: "vec_tables_ok T \<Longrightarrow> vec_tables_ok (ensure_collection c T)"
  by (simp add: ensure_collection_def set_table_ok)

lemma ensure_same: "stored_row (ensure_collection c T) = stored_row T"
  by (auto simp: ensure_collection_def stored_row_def dict_simps dict_has_def fun_eq_iff split: option.splits)

lemma set_table_row: "stored_row (dict_set k t T) (k', i) = (if k' = k then map_of t i else stored_row T (k', i))"
  by (simp add: stored_row_def dict_simps)

lemma vec_table_ok: "vec_tables_ok T \<Longrightarrow> dict_ok (dict_get_or T k [])"
  by (auto simp: vec_tables_ok_def dict_get_or_def split: option.splits)

lemma table_row: "map_of (dict_get_or T k []) i = stored_row T (k, i)"
  by (simp add: dict_get_or_def stored_row_def split: option.splits)

lemma sqlite_keeps: "vec_tables_ok T \<Longrightarrow> vec_tables_ok (sqlite_step sqr p T)"
proof (cases p)
  case (Drop c ids)
  assume "vec_tables_ok T"
  moreover have "dict_ok t" if "map_of T k = Some t" for k t using \<open>vec_tables_ok T\<close> that unfolding vec_tables_ok_def by blast
  ultimately show ?thesis unfolding Drop
    by (simp add: delete_embeddings_def set_table_ok delete_all_ok del: map_of_eq_Some_iff split: option.split)
qed (auto simp: add_embeddings_def search_def Let_def ensure_ok vec_table_ok intro!: set_table_ok insert_all_ok)

lemma sqlite_refines: "stored_row (sqlite_step sqr p T) = spec_op table_name p (stored_row T)"
proof
  fix ki :: "string \<times> string"
  obtain k i where ki: "ki = (k, i)" by (cases ki)
  show "stored_row (sqlite_step sqr p T) ki = spec_op table_name p (stored_row T) ki"
  proof (cases p)
    case (Add c ids vs ms)
    then show ?thesis
      by (simp add: ki add_embeddings_def Let_def set_table_row ensure_same insert_all_get table_row cong: option.case_cong)
  next
    case (Drop c ids)
    show ?thesis
    proof (cases "map_of T (table_name c)")
      case None
      then have "stored_row T (table_name c, i) = None" by (simp add: stored_row_def)
      then show ?thesis using None by (auto simp: ki Drop delete_embeddings_def)
    next
      case (Some t)
      then have "map_of t i = stored_row T (table_name c, i)" by (simp add: stored_row_def)
      then show ?thesis using Some by (auto simp: ki Drop delete_embeddings_def set_table_row delete_all_get)
    qed
  next
    case (Look c q n)
    then show ?thesis by (simp add: search_def Let_def ensure_same)
  qed
qed

interpretation sqlite_rows: vector_rows table_name vec_tables_ok "sqlite_step sqr" stored_row for sqr
  by unfold_locales (rule sqlite_keeps, assumption, rule sqlite_refines)

section \<open>What a search finds\<close>

lemma sort_desc_props: "mset (sort_desc f xs) = mset xs" "sorted_wrt (\<lambda>x y. f y \<le> f x) (sort_desc f xs)"
proof -
  show "mset (sort_desc f xs) = mset xs" by (simp add: sort_desc_def)
  have "sorted_wrt (\<lambda>x y. f x \<le> f y) (sort_key f (rev xs))" using sorted_sort_key[of f "rev xs"] by (simp add: sorted_map)
  then show "sorted_wrt (\<lambda>x y. f y \<le> f x) (sort_desc f xs)" by (simp add: sort_desc_def sorted_wrt_rev)
qed

lemma take_best:
  assumes "sorted_wrt (\<lambda>x y. f y \<le> f x) xs" "x \<in> set xs" "x \<notin> set (take n xs)" "y \<in> set (take n xs)"
  shows "(f x :: rat) \<le> f y"
proof -
  have "sorted_wrt (\<lambda>x y. f y \<le> f x) (take n xs @ drop n xs)" using assms(1) by simp
  moreover have "x \<in> set (drop n xs)" using assms(2,3) by (metis append_take_drop_id Un_iff set_append)
  ultimately show ?thesis using assms(4) unfolding sorted_wrt_append by blast
qed

lemma map_filter_mem: "y \<in> set (List.map_filter f xs) \<longleftrightarrow> (\<exists>x \<in> set xs. f x = Some y)"
  by (force simp: List.map_filter_def)

lemma score_ids: "dict_ok t \<Longrightarrow> distinct (map ht_id (List.map_filter (score_row sqr q) t))"
proof (induction t)
  case (Cons r t)
  obtain i v m where r: "r = (i, v, m)" by (cases r)
  have h: "i \<notin> ht_id ` set (List.map_filter (score_row sqr q) t)"
    using Cons.prems r by (force simp: map_filter_mem score_row_def split: if_splits)
  have y: "ht_id h = i" if "score_row sqr q r = Some h" for h using that r by (auto simp: score_row_def split: if_splits)
  show ?case using Cons h y by (cases "score_row sqr q r") (auto simp: List.map_filter_simps)
qed (simp add: List.map_filter_simps)

definition candidate :: "(rat \<Rightarrow> rat) \<Rightarrow> vector \<Rightarrow> vector \<Rightarrow> bool" where
  "candidate sqr q v \<longleftrightarrow> length v = length q \<and> norm_of sqr v \<noteq> 0"

definition similarity :: "(rat \<Rightarrow> rat) \<Rightarrow> vector \<Rightarrow> vector \<Rightarrow> rat" where
  "similarity sqr q v = dot q v / (norm_of sqr q * norm_of sqr v)"

lemma scored_iff:
  assumes "dict_ok t"
  shows "h \<in> set (List.map_filter (score_row sqr q) t) \<longleftrightarrow>
    (\<exists>v. map_of t (ht_id h) = Some (v, ht_meta h) \<and> candidate sqr q v \<and> ht_score h = similarity sqr q v)"
proof -
  have "h \<in> set (List.map_filter (score_row sqr q) t) \<longleftrightarrow>
      (\<exists>i v m. (i, v, m) \<in> set t \<and> score_row sqr q (i, v, m) = Some h)"
    by (auto simp: map_filter_mem)
  also have "\<dots> \<longleftrightarrow> (\<exists>i v m. map_of t i = Some (v, m) \<and> score_row sqr q (i, v, m) = Some h)"
    using assms by (simp add: map_of_eq_Some_iff)
  also have "\<dots> \<longleftrightarrow> (\<exists>v. map_of t (ht_id h) = Some (v, ht_meta h) \<and> candidate sqr q v \<and> ht_score h = similarity sqr q v)"
    by (cases h) (auto simp: score_row_def candidate_def similarity_def split: if_splits)
  finally show ?thesis .
qed

lemma table_after: "dict_get_or (ensure_collection c T) (table_name c) [] = dict_get_or T (table_name c) []"
  by (auto simp: ensure_collection_def dict_get_or_def dict_simps dict_has_def split: option.splits)

definition all_hits :: "(rat \<Rightarrow> rat) \<Rightarrow> string \<Rightarrow> vector \<Rightarrow> vec_tables \<Rightarrow> hit list" where
  "all_hits sqr c q T = sort_desc ht_score (List.map_filter (score_row sqr q) (dict_get_or T (table_name c) []))"

lemma search_hits: "norm_of sqr q \<noteq> 0 \<Longrightarrow> 0 \<le> n \<Longrightarrow> fst (search sqr c q n T) = take (nat n) (all_hits sqr c q T)"
  by (simp add: search_def all_hits_def Let_def table_after slice_to_def)

lemma all_hits_iff:
  assumes "vec_tables_ok T"
  shows "h \<in> set (all_hits sqr c q T) \<longleftrightarrow>
    (\<exists>v. stored_row T (table_name c, ht_id h) = Some (v, ht_meta h) \<and> candidate sqr q v \<and> ht_score h = similarity sqr q v)"
proof -
  have "set (all_hits sqr c q T) = set (List.map_filter (score_row sqr q) (dict_get_or T (table_name c) []))"
    by (metis all_hits_def sort_desc_props(1) set_mset_mset)
  then show ?thesis using scored_iff[OF vec_table_ok[OF assms]] by (simp add: table_row)
qed

lemma all_hits_ids: "vec_tables_ok T \<Longrightarrow> distinct (map ht_id (all_hits sqr c q T))"
proof -
  assume T: "vec_tables_ok T"
  let ?xs = "List.map_filter (score_row sqr q) (dict_get_or T (table_name c) [])"
  have "mset (map ht_id (all_hits sqr c q T)) = mset (map ht_id ?xs)" by (simp add: all_hits_def sort_desc_props(1))
  moreover have "distinct (map ht_id ?xs)" by (rule score_ids[OF vec_table_ok[OF T]])
  ultimately show ?thesis using mset_eq_imp_distinct_iff by blast
qed

lemma all_hits_sorted: "sorted_wrt (\<lambda>x y. ht_score y \<le> ht_score x) (all_hits sqr c q T)"
  unfolding all_hits_def by (rule sort_desc_props(2))

end
