(* ===== verification/Workloads.thy ===== *)
theory Workloads
  imports Kernel_Adapter Providers
begin

text \<open>
  \<open>cp/workloads.py\<close>, the workload methods of \<open>cp/runtime.py\<close> and \<open>cp/handlers/workloads.py\<close>: what the window asks
  of the workloads of the kernel. The kernel is an argument: each of its methods may raise and may change the
  state \<open>'w\<close>; a call that takes too long is one that raises.
\<close>

section \<open>Records\<close>

record workload_spec =
  ws_image :: string
  ws_command :: "string list"
  ws_ports :: "int list"
  ws_env :: "(string, string) dict"

text \<open>\<open>wk_exit\<close> is optional in \<open>kernel.proto\<close>; the attribute of an unset number reads as 0.\<close>

record workload =
  wk_id :: string
  wk_class :: int
  wk_state :: int
  wk_spec :: workload_spec
  wk_created :: int
  wk_updated :: int
  wk_exit :: "int option"
  wk_reason :: string
  wk_exposed :: "int list"
  wk_preview :: string

definition class_map :: "(int, string) dict" where
  "class_map = [(0, ''unspecified''), (1, ''harness''), (2, ''worker''), (3, ''preview''), (4, ''service'')]"

definition state_map :: "(int, string) dict" where
  "state_map = [(0, ''unspecified''), (1, ''created''), (2, ''prepared''), (3, ''starting''), (4, ''running''), (5, ''completed''),
     (6, ''failed''), (7, ''cancelling''), (8, ''cancelled''), (9, ''garbage_collected'')]"

definition workload_to_dict :: "workload \<Rightarrow> json" where
  "workload_to_dict w =
     JObj [(''workloadId'', JStr (wk_id w)), (''class'', JStr (dict_get_or class_map (wk_class w) ''unspecified'')),
       (''state'', JStr (dict_get_or state_map (wk_state w) ''unspecified'')),
       (''spec'', JObj [(''image'', JStr (ws_image (wk_spec w))), (''command'', JList (map JStr (ws_command (wk_spec w)))),
          (''ports'', JList (map JInt (ws_ports (wk_spec w)))),
          (''environment'', JObj (map (\<lambda>(k, v). (k, JStr v)) (ws_env (wk_spec w))))]),
       (''createdAtUnixMs'', JInt (wk_created w)), (''updatedAtUnixMs'', JInt (wk_updated w)),
       (''exitCode'', JInt (case wk_exit w of None \<Rightarrow> 0 | Some n \<Rightarrow> n)), (''terminationReason'', JStr (wk_reason w)),
       (''exposedPorts'', JList (map JInt (wk_exposed w))), (''previewUrl'', JStr (wk_preview w))]"

section \<open>State\<close>

text \<open>What \<open>_create_workload_async\<close> asks for; protobuf may refuse the values.\<close>

record new_workload =
  nw_image :: string
  nw_command :: "json list"
  nw_ports :: json
  nw_environment :: json
  nw_class :: string

record 'w workload_calls =
  wc_list :: "'w \<Rightarrow> (py_error + workload list) \<times> 'w"
  wc_create :: "new_workload \<Rightarrow> 'w \<Rightarrow> (py_error + workload) \<times> 'w"
  wc_get :: "string \<Rightarrow> 'w \<Rightarrow> (py_error + workload) \<times> 'w"
  wc_start :: "string \<Rightarrow> 'w \<Rightarrow> (py_error + workload) \<times> 'w"
  wc_stop :: "string \<Rightarrow> 'w \<Rightarrow> (py_error + workload) \<times> 'w"
  wc_logs :: "string \<Rightarrow> 'w \<Rightarrow> (py_error + log_line list) \<times> 'w"
  wc_refuses :: "new_workload \<Rightarrow> py_error option"

record 'w workload_api =
  wa_stub :: "'w workload_calls option"
  wa_loop :: bool
  wa_cache :: "(string, json) dict"
  wa_kernel :: 'w

section \<open>Operations\<close>

definition on_loop :: "('w workload_api \<Rightarrow> (py_error + json) \<times> 'w workload_api) \<Rightarrow> 'w workload_api \<Rightarrow> (py_error + json) \<times> 'w workload_api" where
  "on_loop f S = (if \<not> wa_loop S then (Inl (Runtime_error ''control-plane event loop is not available''), S) else f S)"

definition not_connected :: py_error where
  "not_connected = Runtime_error ''kernel workload stub is not connected''"

text \<open>A call that answers with one record, which is kept in the cache.\<close>

definition one_workload ::
  "('w workload_calls \<Rightarrow> 'w \<Rightarrow> (py_error + workload) \<times> 'w) \<Rightarrow> 'w workload_api \<Rightarrow> (py_error + json) \<times> 'w workload_api" where
  "one_workload call S =
     (case wa_stub S of
        None \<Rightarrow> (Inl not_connected, S)
      | Some K \<Rightarrow>
          (case call K (wa_kernel S) of
             (Inl e, k) \<Rightarrow> (Inl e, S\<lparr>wa_kernel := k\<rparr>)
           | (Inr w, k) \<Rightarrow> (Inr (workload_to_dict w), S\<lparr>wa_kernel := k, wa_cache := dict_set (wk_id w) (workload_to_dict w) (wa_cache S)\<rparr>)))"

definition get_workload :: "string \<Rightarrow> 'w workload_api \<Rightarrow> (py_error + json) \<times> 'w workload_api" where
  "get_workload i = on_loop (one_workload (\<lambda>K. wc_get K i))"

definition start_workload :: "string \<Rightarrow> 'w workload_api \<Rightarrow> (py_error + json) \<times> 'w workload_api" where
  "start_workload i = on_loop (one_workload (\<lambda>K. wc_start K i))"

definition stop_workload :: "string \<Rightarrow> 'w workload_api \<Rightarrow> (py_error + json) \<times> 'w workload_api" where
  "stop_workload i = on_loop (one_workload (\<lambda>K. wc_stop K i))"

definition list_workloads :: "'w workload_api \<Rightarrow> (py_error + json) \<times> 'w workload_api" where
  "list_workloads = on_loop (\<lambda>S.
     (case wa_stub S of
        None \<Rightarrow> (Inr (JList []), S)
      | Some K \<Rightarrow>
          (case wc_list K (wa_kernel S) of
             (Inl e, k) \<Rightarrow> (Inr (JList []), S\<lparr>wa_kernel := k\<rparr>)
           | (Inr ws, k) \<Rightarrow> (Inr (JList (map workload_to_dict ws)),
               S\<lparr>wa_kernel := k, wa_cache := dict_merge [] (map (\<lambda>w. (wk_id w, workload_to_dict w)) ws)\<rparr>))))"

definition required_field :: "obj \<Rightarrow> string \<Rightarrow> py_error + string" where
  "required_field d key =
     (case obj_get d key of
        JStr s \<Rightarrow> if s = [] then Inl (py_error.Value_error (''missing required string field '' @ ticked key)) else Inr s
      | _ \<Rightarrow> Inl (py_error.Value_error (''missing required string field '' @ ticked key)))"

text \<open>\<open>list(v)\<close>, where a text alone is one argument.\<close>

fun command_list :: "json \<Rightarrow> py_error + json list" where
  "command_list (JStr s) = Inr [JStr s]"
| "command_list (JList xs) = Inr xs"
| "command_list (JObj d) = Inr (map (\<lambda>p. JStr (fst p)) d)"
| "command_list v = Inl (Type_error (sq (type_name v) @ '' object is not iterable''))"

text \<open>An attribute that \<open>kernel_pb2\<close> does not have gives the default.\<close>

definition class_of_name :: "string \<Rightarrow> string" where
  "class_of_name name =
     (let n = ''WORKLOAD_CLASS_'' @ map ascii_upper name in if n \<in> set workload_classes then n else ''WORKLOAD_CLASS_HARNESS'')"

fun class_field :: "json \<Rightarrow> py_error + string" where
  "class_field (JStr s) = Inr (class_of_name s)"
| "class_field v = Inl (Attribute_error (sq (type_name v) @ '' object has no attribute '' @ sq ''upper''))"

definition new_workload_of :: "obj \<Rightarrow> py_error + new_workload" where
  "new_workload_of d =
     rbind (required_field d ''image'') (\<lambda>image.
     rbind (class_field (get_or d ''class'' (JStr ''HARNESS''))) (\<lambda>cls.
     rbind (command_list (get_or d ''command'' (JList []))) (\<lambda>command.
       Inr \<lparr>nw_image = image, nw_command = command, nw_ports = get_or d ''ports'' (JList []),
            nw_environment = get_or d ''environment'' (JObj []), nw_class = cls\<rparr>)))"

definition create_workload :: "obj \<Rightarrow> 'w workload_api \<Rightarrow> (py_error + json) \<times> 'w workload_api" where
  "create_workload d = on_loop (\<lambda>S.
     (case wa_stub S of
        None \<Rightarrow> (Inl not_connected, S)
      | Some K \<Rightarrow>
          (case new_workload_of d of
             Inl e \<Rightarrow> (Inl e, S)
           | Inr n \<Rightarrow> (case wc_refuses K n of Some e \<Rightarrow> (Inl e, S) | None \<Rightarrow> one_workload (\<lambda>K. wc_create K n) S))))"

definition remove_workload :: "string \<Rightarrow> 'w workload_api \<Rightarrow> 'w workload_api" where
  "remove_workload i S = (let S1 = snd (stop_workload i S) in S1\<lparr>wa_cache := dict_del i (wa_cache S1)\<rparr>)"

definition log_view :: "log_line \<Rightarrow> json" where
  "log_view l = JObj [(''stream'', JStr (wl_stream l)), (''line'', JStr (wl_line l)), (''timestampUnixMs'', JInt (wl_time l))]"

definition logs_json :: "string \<Rightarrow> log_line list \<Rightarrow> json" where
  "logs_json i ls = JObj [(''workloadId'', JStr i), (''logs'', JList (map log_view ls))]"

definition get_workload_logs :: "string \<Rightarrow> 'w workload_api \<Rightarrow> (py_error + json) \<times> 'w workload_api" where
  "get_workload_logs i = on_loop (\<lambda>S.
     (case wa_stub S of
        None \<Rightarrow> (Inr (logs_json i []), S)
      | Some K \<Rightarrow>
          (case wc_logs K i (wa_kernel S) of
             (Inl e, k) \<Rightarrow> (Inr (logs_json i []), S\<lparr>wa_kernel := k\<rparr>)
           | (Inr ls, k) \<Rightarrow> (Inr (logs_json i ls), S\<lparr>wa_kernel := k\<rparr>))))"

section \<open>cp/handlers/workloads.py\<close>

definition as_is :: "nat \<Rightarrow> (py_error + json) \<times> 's \<Rightarrow> (http_exc + answer) \<times> 's" where
  "as_is st r = (rbind (lift_py (fst r)) (\<lambda>j. Inr (st, j)), snd r)"

type_synonym 'w workload_handler = "('w workload_api, answer) http_handler"

definition handle_workloads :: "'w workload_handler" where
  "handle_workloads rq body S =
     (if rq_method rq = ''GET'' then as_is 200 (list_workloads S)
      else if rq_method rq = ''POST'' then effect 201 (under ''workload'') (create_workload body S)
      else refuse rq [''GET'', ''POST''] S)"

definition handle_workload :: "(string \<Rightarrow> string) \<Rightarrow> 'w workload_handler" where
  "handle_workload unq rq body S =
     attempt (unquoted unq rq 3) S (\<lambda>i.
       if rq_method rq = ''GET'' then as_is 200 (get_workload i S)
       else if rq_method rq = ''PUT'' then key_error (''PUT is not supported for workload '' @ ticked i) S
       else if rq_method rq = ''DELETE'' then
         (Inr (200, JObj [(''ok'', JBool True), (''workloadId'', JStr i)]), remove_workload i S)
       else refuse rq [''GET'', ''DELETE''] S)"

definition handle_workload_action :: "(string \<Rightarrow> string) \<Rightarrow> 'w workload_handler" where
  "handle_workload_action unq rq body S =
     attempt (unquoted unq rq 3) S (\<lambda>i.
     attempt (segment rq 4) S (\<lambda>suffix.
       if suffix = ''start'' then
         attempt (require_method (rq_method rq) [''POST'']) S (\<lambda>_. effect 200 (under ''workload'') (start_workload i S))
       else if suffix = ''stop'' then
         attempt (require_method (rq_method rq) [''POST'']) S (\<lambda>_. effect 200 (under ''workload'') (stop_workload i S))
       else if suffix = ''logs'' then
         attempt (require_method (rq_method rq) [''GET'']) S (\<lambda>_. as_is 200 (get_workload_logs i S))
       else key_error (''workload action '' @ ticked suffix @ '' is not supported'') S))"

datatype workload_route = All_workloads | One_workload | Workload_action

fun workload_answer :: "workload_route \<Rightarrow> (string \<Rightarrow> string) \<Rightarrow> 'w workload_handler" where
  "workload_answer All_workloads unq = handle_workloads"
| "workload_answer One_workload unq = handle_workload unq"
| "workload_answer Workload_action unq = handle_workload_action unq"

section \<open>The cache\<close>

text \<open>Every record of the cache is under its own id.\<close>

definition records_ok :: "'w workload_api \<Rightarrow> bool" where
  "records_ok S \<longleftrightarrow> dict_ok (wa_cache S) \<and> (\<forall>i j. map_of (wa_cache S) i = Some j \<longrightarrow> (\<exists>w. wk_id w = i \<and> j = workload_to_dict w))"

lemma cache_set: "records_ok S \<Longrightarrow> records_ok (S\<lparr>wa_kernel := k, wa_cache := dict_set (wk_id w) (workload_to_dict w) (wa_cache S)\<rparr>)"
  by (auto simp: records_ok_def dict_simps simp del: map_of_eq_Some_iff split: if_splits)

lemma cache_same: "records_ok (S\<lparr>wa_kernel := k\<rparr>) = records_ok S"
  by (simp add: records_ok_def)

lemma cache_del: "records_ok S \<Longrightarrow> records_ok (S\<lparr>wa_cache := dict_del i (wa_cache S)\<rparr>)"
  by (auto simp: records_ok_def dict_simps simp del: map_of_eq_Some_iff split: if_splits)

lemma cache_of_list:
  "dict_ok d \<Longrightarrow> \<forall>i j. map_of d i = Some j \<longrightarrow> (\<exists>w. wk_id w = i \<and> j = workload_to_dict w) \<Longrightarrow>
    dict_ok (dict_merge d (map (\<lambda>w. (wk_id w, workload_to_dict w)) ws)) \<and>
    (\<forall>i j. map_of (dict_merge d (map (\<lambda>w. (wk_id w, workload_to_dict w)) ws)) i = Some j \<longrightarrow> (\<exists>w. wk_id w = i \<and> j = workload_to_dict w))"
proof (induction ws arbitrary: d)
  case (Cons w ws)
  have "dict_ok (dict_set (wk_id w) (workload_to_dict w) d)" using Cons.prems(1) by (rule dict_set_ok)
  moreover have "\<forall>i j. map_of (dict_set (wk_id w) (workload_to_dict w) d) i = Some j \<longrightarrow> (\<exists>w. wk_id w = i \<and> j = workload_to_dict w)"
    using Cons.prems(2) unfolding dict_set_get by auto
  ultimately show ?case using Cons.IH by (simp add: dict_merge_def)
qed (simp add: dict_merge_def)

lemma one_workload_ok: "records_ok S \<Longrightarrow> records_ok (snd (one_workload call S))"
  by (simp add: one_workload_def cache_same cache_set split: option.split prod.split sum.split)

lemma on_loop_ok: "(\<And>S. records_ok S \<Longrightarrow> records_ok (snd (f S))) \<Longrightarrow> records_ok S \<Longrightarrow> records_ok (snd (on_loop f S))"
  by (simp add: on_loop_def)

lemma list_ok: "records_ok S \<Longrightarrow> records_ok (snd (list_workloads S))"
  unfolding list_workloads_def
proof (rule on_loop_ok)
  fix T :: "'w workload_api"
  assume "records_ok T"
  moreover have "records_ok (T\<lparr>wa_kernel := k, wa_cache := dict_merge [] (map (\<lambda>w. (wk_id w, workload_to_dict w)) ws)\<rparr>)" for k ws
    using cache_of_list[of "[]" ws] by (simp add: records_ok_def)
  ultimately show "records_ok (snd (case wa_stub T of None \<Rightarrow> (Inr (JList []), T)
      | Some K \<Rightarrow> (case wc_list K (wa_kernel T) of (Inl e, k) \<Rightarrow> (Inr (JList []), T\<lparr>wa_kernel := k\<rparr>)
           | (Inr ws, k) \<Rightarrow> (Inr (JList (map workload_to_dict ws)),
               T\<lparr>wa_kernel := k, wa_cache := dict_merge [] (map (\<lambda>w. (wk_id w, workload_to_dict w)) ws)\<rparr>))))"
    by (simp add: cache_same split: option.split prod.split sum.split)
qed

lemma get_ok: "records_ok S \<Longrightarrow> records_ok (snd (get_workload i S))"
  unfolding get_workload_def by (rule on_loop_ok[OF one_workload_ok])

lemma start_ok: "records_ok S \<Longrightarrow> records_ok (snd (start_workload i S))"
  unfolding start_workload_def by (rule on_loop_ok[OF one_workload_ok])

lemma stop_ok: "records_ok S \<Longrightarrow> records_ok (snd (stop_workload i S))"
  unfolding stop_workload_def by (rule on_loop_ok[OF one_workload_ok])

lemma logs_ok: "records_ok S \<Longrightarrow> records_ok (snd (get_workload_logs i S))"
  unfolding get_workload_logs_def by (rule on_loop_ok) (simp_all add: cache_same split: option.split prod.split sum.split)

lemma create_ok: "records_ok S \<Longrightarrow> records_ok (snd (create_workload d S))"
  unfolding create_workload_def by (rule on_loop_ok) (simp_all add: one_workload_ok split: option.split sum.split)

lemma remove_ok: "records_ok S \<Longrightarrow> records_ok (remove_workload i S)"
  by (simp add: remove_workload_def Let_def cache_del stop_ok)

lemmas workload_ops_ok = list_ok get_ok start_ok stop_ok logs_ok create_ok remove_ok

lemma attempt_records: "records_ok S \<Longrightarrow> (\<And>x. records_ok (snd (f x))) \<Longrightarrow> records_ok (snd (attempt r S f))"
  by (simp add: attempt_def split: sum.split)

lemma answer_snd [simp]: "snd (as_is st r) = snd r" "snd (effect st f r) = snd r" "snd (refuse rq ms S) = S" "snd (key_error m S) = S"
  by (simp_all add: as_is_def effect_def refuse_def key_error_def)

lemma workload_answer_ok: "records_ok S \<Longrightarrow> records_ok (snd (workload_answer r unq rq body S))"
  by (cases r) (auto simp: handle_workloads_def handle_workload_def handle_workload_action_def workload_ops_ok intro!: attempt_records)

section \<open>Errors\<close>

lemma lists_answer: "wa_loop S \<Longrightarrow> is_Inr (fst (list_workloads S)) \<and> is_Inr (fst (get_workload_logs i S))"
  by (auto simp: list_workloads_def get_workload_logs_def on_loop_def split: option.split prod.split sum.split)

lemma calls_need_kernel:
  assumes "wa_stub S = None" "wa_loop S"
  shows "get_workload i S = (Inl not_connected, S)" "start_workload i S = (Inl not_connected, S)"
    "stop_workload i S = (Inl not_connected, S)" "create_workload d S = (Inl not_connected, S)"
    "list_workloads S = (Inr (JList []), S)" "get_workload_logs i S = (Inr (logs_json i []), S)"
  using assms by (simp_all add: get_workload_def start_workload_def stop_workload_def create_workload_def list_workloads_def
      get_workload_logs_def on_loop_def one_workload_def)

lemma removed_forgotten: "\<not> dict_has (wa_cache (remove_workload i S)) i"
  by (simp add: remove_workload_def Let_def dict_simps)

end
