(* ===== verification/Views.thy ===== *)
theory Views
  imports Window Kernel_Session Vector_Store Workloads
begin

text \<open>
  \<open>cp/config_service.py\<close>, the choice of a database in \<open>core/database.py\<close>, \<open>cp/snapshots.py\<close> and the handlers of
  \<open>cp/handlers/settings.py\<close> and \<open>cp/handlers/system.py\<close>. The process environment, the paths of the machine,
  the connection to a database and the reply of the kernel are arguments.
\<close>

section \<open>Configuration\<close>

record cp_config =
  cc_endpoint :: string
  cc_token :: "string option"
  cc_runtime_root :: string
  cc_repo_root :: string
  cc_version :: string
  cc_serve_http :: bool
  cc_host :: string
  cc_port :: int
  cc_heartbeat :: rat
  cc_reconnect :: rat
  cc_connect_timeout :: rat
  cc_rpc_timeout :: rat
  cc_buffer :: int
  cc_open_on_boot :: bool
  cc_title :: string
  cc_width :: int
  cc_height :: int
  cc_hidden :: bool
  cc_debug :: bool
  cc_database :: json
  cc_vector :: json

definition announced_capabilities :: "string list" where
  "announced_capabilities = [''kernel.status'', ''kernel.events'', ''kernel.open_ui'']"

definition registration_metadata :: "cp_config \<Rightarrow> (string, string) dict" where
  "registration_metadata C = [(''component'', ''python-control-plane''), (''http_enabled'', if cc_serve_http C then ''true'' else ''false''),
     (''repo_root'', cc_repo_root C), (''runtime_root'', cc_runtime_root C), (''window_backend'', ''pywebview'')]"

definition http_base_url :: "cp_config \<Rightarrow> string" where
  "http_base_url C = ''http://'' @ cc_host C @ '':'' @ int_str (cc_port C)"

definition shell_url :: "cp_config \<Rightarrow> string" where
  "shell_url C = http_base_url C @ ''/''"

definition env_flag :: "(string \<Rightarrow> string option) \<Rightarrow> string \<Rightarrow> bool \<Rightarrow> bool" where
  "env_flag environ name other = (case environ name of None \<Rightarrow> other | Some v \<Rightarrow> str_lower v \<in> {''1'', ''true'', ''yes'', ''on''})"

definition env_text :: "(string \<Rightarrow> string option) \<Rightarrow> string \<Rightarrow> string \<Rightarrow> string" where
  "env_text environ name other = (case environ name of None \<Rightarrow> other | Some v \<Rightarrow> v)"

definition env_int :: "(string \<Rightarrow> string option) \<Rightarrow> string \<Rightarrow> string \<Rightarrow> py_error + int" where
  "env_int environ name other = json_int (JStr (env_text environ name other))"

definition env_float :: "(string \<Rightarrow> rat option) \<Rightarrow> (string \<Rightarrow> string option) \<Rightarrow> string \<Rightarrow> string \<Rightarrow> py_error + rat" where
  "env_float rd environ name other = json_float rd (JStr (env_text environ name other))"

definition env_json :: "(string \<Rightarrow> string option) \<Rightarrow> string \<Rightarrow> json" where
  "env_json environ name = (case environ name of None \<Rightarrow> JNull | Some v \<Rightarrow> JStr v)"

text \<open>
  \<open>expand\<close> is \<open>Path.expanduser\<close> and \<open>version\<close> what \<open>pyproject.toml\<close> says, which may raise; the root of the
  repository is the second text.
\<close>

definition load_active_config ::
  "(string \<Rightarrow> rat option) \<Rightarrow> (string \<Rightarrow> string option) \<Rightarrow> (string \<Rightarrow> string) \<Rightarrow> string \<Rightarrow> string \<Rightarrow> (string \<Rightarrow> py_error + string) \<Rightarrow> py_error + cp_config" where
  "load_active_config rd environ expand home repo version =
     (let root_dir = expand (env_text environ ''VLOOP_RUNTIME_ROOT'' (join_path home ''.vloop'')) in
      rbind (version repo) (\<lambda>ver.
      rbind (env_int environ ''VLOOP_CP_HTTP_PORT'' ''8765'') (\<lambda>port.
      rbind (env_float rd environ ''VLOOP_CP_HEARTBEAT_SECONDS'' ''10'') (\<lambda>beat_s.
      rbind (env_float rd environ ''VLOOP_CP_RECONNECT_SECONDS'' ''2'') (\<lambda>reconnect.
      rbind (env_float rd environ ''VLOOP_CP_CONNECT_TIMEOUT_SECONDS'' ''10'') (\<lambda>ct.
      rbind (env_float rd environ ''VLOOP_CP_RPC_TIMEOUT_SECONDS'' ''10'') (\<lambda>rt.
      rbind (env_int environ ''VLOOP_CP_EVENT_BUFFER_SIZE'' ''200'') (\<lambda>buffer.
      rbind (env_int environ ''VLOOP_CP_WINDOW_WIDTH'' ''1320'') (\<lambda>width.
      rbind (env_int environ ''VLOOP_CP_WINDOW_HEIGHT'' ''860'') (\<lambda>height.
        Inr \<lparr>cc_endpoint = env_text environ ''VLOOP_KERNEL_ENDPOINT'' (''unix://'' @ join_path root_dir ''run/vloopd.sock''),
          cc_token = environ ''VLOOP_KERNEL_BOOTSTRAP_TOKEN'', cc_runtime_root = root_dir, cc_repo_root = repo, cc_version = ver,
          cc_serve_http = env_flag environ ''VLOOP_CP_HTTP'' True, cc_host = env_text environ ''VLOOP_CP_HTTP_HOST'' ''127.0.0.1'',
          cc_port = port, cc_heartbeat = beat_s, cc_reconnect = reconnect, cc_connect_timeout = ct, cc_rpc_timeout = rt,
          cc_buffer = buffer, cc_open_on_boot = env_flag environ ''VLOOP_CP_OPEN_WINDOW_ON_BOOT'' False,
          cc_title = env_text environ ''VLOOP_CP_WINDOW_TITLE'' ''VLoop'', cc_width = width, cc_height = height,
          cc_hidden = env_flag environ ''VLOOP_CP_WINDOW_HIDDEN'' True, cc_debug = env_flag environ ''VLOOP_CP_WINDOW_DEBUG'' False,
          cc_database = env_json environ ''VLOOP_DATABASE_URL'', cc_vector = env_json environ ''VLOOP_VECTOR_DB_URL''\<rparr>))))))))))"

section \<open>The database\<close>

datatype db_choice = Pg_backend string | Duck_backend string | Sqlite_backend string

definition create_database :: "(string \<Rightarrow> string option) \<Rightarrow> string \<Rightarrow> string option \<Rightarrow> string option \<Rightarrow> db_choice" where
  "create_database environ home url runtime_root =
     (let chosen = (case url of None \<Rightarrow> [] | Some u \<Rightarrow> u);
          db_url = str_strip (if chosen \<noteq> [] then chosen else env_text environ ''VLOOP_DATABASE_URL'' []);
          base = (case runtime_root of Some r \<Rightarrow> r | None \<Rightarrow> env_text environ ''VLOOP_RUNTIME_ROOT'' (join_path home ''.vloop''))
      in if str_prefix ''postgresql://'' db_url \<or> str_prefix ''postgres://'' db_url then Pg_backend db_url
         else if str_prefix ''duckdb://'' db_url then Duck_backend (after_scheme ''duckdb://'' db_url (join_path base ''data/control-plane.duckdb''))
         else if str_prefix ''duckdb:'' db_url then Duck_backend (after_scheme ''duckdb:'' db_url (join_path base ''data/control-plane.duckdb''))
         else if str_prefix ''sqlite://'' db_url then Sqlite_backend (drop (length ''sqlite://'') db_url)
         else Sqlite_backend (join_path base ''data/control-plane.db''))"

text \<open>\<open>re.sub\<close> of \<open>:([^@]+)@\<close>: a colon, characters other than the at sign, and an at sign.\<close>

function redact_url :: "string \<Rightarrow> string" where
  "redact_url [] = []"
| "redact_url (c # cs) =
     (let secret = takeWhile (\<lambda>d. d \<noteq> CHR ''@'') cs; rest = dropWhile (\<lambda>d. d \<noteq> CHR ''@'') cs in
      if c = CHR '':'' \<and> secret \<noteq> [] \<and> rest \<noteq> [] then '':****@'' @ redact_url (tl rest)
      else c # redact_url cs)"
  by pat_completeness auto

termination
proof (relation "measure length")
  fix c :: char and cs secret rest :: string
  assume "rest = dropWhile (\<lambda>d. d \<noteq> CHR ''@'') cs"
  then have "length rest \<le> length cs" by (simp add: length_dropWhile_le)
  then show "(tl rest, c # cs) \<in> measure length" by simp
qed simp_all

section \<open>Snapshots\<close>

record shell =
  sh_config :: cp_config
  sh_session :: kernel_session
  sh_window :: window
  sh_events :: kernel_router
  sh_loop :: bool

definition url_if :: "bool \<Rightarrow> string \<Rightarrow> json" where
  "url_if b u = (if b then JStr u else JNull)"

definition build_health_snapshot :: "shell \<Rightarrow> json" where
  "build_health_snapshot H = (let C = sh_config H; K = sh_session H in
     JObj [(''status'', JStr (ks_status K)), (''version'', JStr (cc_version C)), (''kernel_endpoint'', JStr (cc_endpoint C)),
       (''http_base_url'', url_if (cc_serve_http C) (http_base_url C)), (''shell_url'', url_if (cc_serve_http C) (shell_url C)),
       (''session_id'', opt_text (ks_session K)), (''last_error'', opt_text (ks_error K)),
       (''window'', window_json (wi_snap (sh_window H)))])"

definition kernel_config_json :: "kernel_config \<Rightarrow> json" where
  "kernel_config_json c = JObj [(''ipc_endpoint'', JStr (kc_endpoint c)), (''boot_id'', JStr (kc_boot_id c)), (''runtime_root'', JStr (kc_root c)),
     (''available_runtimes'', JList (map JStr (kc_runtimes c))), (''features'', JObj (map (\<lambda>(k, v). (k, JStr v)) (kc_features c)))]"

definition build_session_snapshot :: "shell \<Rightarrow> json" where
  "build_session_snapshot H = (let C = sh_config H; K = sh_session H in
     JObj [(''status'', JStr (ks_status K)), (''kernel_endpoint'', JStr (cc_endpoint C)),
       (''http_base_url'', url_if (cc_serve_http C) (http_base_url C)), (''shell_url'', url_if (cc_serve_http C) (shell_url C)),
       (''session_id'', opt_text (ks_session K)), (''granted_scopes'', JList (map JStr (ks_scopes K))),
       (''last_registered_at_unix_ms'', opt_int (ks_registered K)), (''last_heartbeat_at_unix_ms'', opt_int (ks_heartbeat K)),
       (''last_error'', opt_text (ks_error K)),
       (''active_config'', case ks_config K of None \<Rightarrow> JNull | Some c \<Rightarrow> kernel_config_json c)])"

definition kernel_event_json :: "kernel_event \<Rightarrow> json" where
  "kernel_event_json e = JObj [(''event_id'', JStr (ke_id e)), (''event_type'', JStr (ke_type e)), (''resource_type'', JStr (ke_resource_type e)),
     (''resource_id'', JStr (ke_resource_id e)), (''status'', JStr (ke_status e)), (''message'', JStr (ke_message e)),
     (''timestamp_unix_ms'', JInt (ke_time e)), (''attributes'', JObj (map (\<lambda>(k, v). (k, JStr v)) (ke_attributes e)))]"

definition event_snapshot :: "kernel_router \<Rightarrow> obj" where
  "event_snapshot R = [(''event_count'', JInt (int (length (kr_recent R)))), (''recent_events'', JList (map kernel_event_json (kr_recent R)))]"

record dependency =
  de_name :: string
  de_state :: string
  de_message :: string
  de_version :: string
  de_remedy :: string

definition text_or_null :: "string \<Rightarrow> json" where
  "text_or_null s = (if s = [] then JNull else JStr s)"

definition dependency_json :: "dependency \<Rightarrow> json" where
  "dependency_json d = JObj [(''name'', JStr (de_name d)), (''state'', JStr (de_state d)), (''message'', JStr (de_message d)),
     (''detectedVersion'', text_or_null (de_version d)), (''remediation'', text_or_null (de_remedy d))]"

text \<open>What the kernel answers to \<open>GetDependencies\<close> is an argument; every error becomes a text of the answer.\<close>

definition build_dependency_snapshot :: "py_error + dependency list \<Rightarrow> shell \<Rightarrow> json" where
  "build_dependency_snapshot reply H =
     (let failed = (\<lambda>m. JObj [(''dependencies'', JList []), (''error'', JStr m)]) in
      if \<not> sh_loop H then failed ''control-plane event loop is not available''
      else if \<not> ks_channel (sh_session H) then failed ''gRPC channel is not connected''
      else (case reply of Inl e \<Rightarrow> failed (exc_text e) | Inr ds \<Rightarrow> JObj [(''dependencies'', JList (map dependency_json ds))]))"

definition build_system_snapshot :: "py_error + dependency list \<Rightarrow> shell \<Rightarrow> json" where
  "build_system_snapshot reply H = (let events = event_snapshot (sh_events H) in
     JObj [(''health'', build_health_snapshot H), (''session'', build_session_snapshot H), (''window'', window_json (wi_snap (sh_window H))),
       (''dependencies'', build_dependency_snapshot reply H), (''recentEvents'', get_or events ''recent_events'' (JList [])),
       (''eventCount'', get_or events ''event_count'' (JInt 0))])"

definition build_bootstrap_payload :: "provider_env \<Rightarrow> api_env \<Rightarrow> provider_db \<Rightarrow> ('w, 'k) runtime \<Rightarrow> json" where
  "build_bootstrap_payload V E D R =
     JObj [(''providers'', list_providers V D), (''agents'', JList (map JObj (list_agents (cp_agents R)))),
       (''invocations'', invocations_json None R), (''providerCatalog'', provider_catalog), (''agentTemplates'', JList (ae_templates E)),
       (''apiAvailable'', JBool True), (''source'', JStr ''bootstrap''), (''warning'', JNull)]"

section \<open>cp/handlers/settings.py\<close>

type_synonym shell_handler = "(shell, answer) http_handler"

text \<open>\<open>vector\<close> is the class of the vector store in use, if there is one, and \<open>backend\<close> that of the database.\<close>

definition handle_settings_database :: "string \<Rightarrow> string option \<Rightarrow> shell_handler" where
  "handle_settings_database backend vector rq body H =
     (let C = sh_config H in
      if rq_method rq = ''GET'' then
        (Inr (200, JObj [(''databaseUrl'', either (cc_database C) (JStr [])), (''vectorDbUrl'', either (cc_vector C) (JStr [])),
           (''activeBackend'', JStr backend), (''vectorStoreActive'', JStr (case vector of None \<Rightarrow> ''none'' | Some c \<Rightarrow> c))]), H)
      else if rq_method rq \<in> {''POST'', ''PUT''} then
        (Inr (200, JObj [(''ok'', JBool True),
           (''message'', JStr ''Database config updated. Restart the control plane for changes to take effect.'')]),
         H\<lparr>sh_config := C\<lparr>cc_database := either (get_or body ''databaseUrl'' (JStr [])) JNull,
                           cc_vector := either (get_or body ''vectorDbUrl'' (JStr [])) JNull\<rparr>\<rparr>)
      else refuse rq [''GET'', ''POST'', ''PUT''] H)"

text \<open>\<open>connect_db\<close> opens a database and asks it for one row.\<close>

definition test_url :: "(string \<Rightarrow> string option) \<Rightarrow> string \<Rightarrow> (db_choice \<Rightarrow> py_error option) \<Rightarrow> json \<Rightarrow> py_error option" where
  "test_url environ home connect_db v =
     (if \<not> truthy v then connect_db (create_database environ home None None)
      else (case v of
         JStr s \<Rightarrow> connect_db (create_database environ home (Some s) None)
       | _ \<Rightarrow> Some (Attribute_error (sq (type_name v) @ '' object has no attribute '' @ sq ''strip''))))"

definition handle_settings_database_test ::
  "(string \<Rightarrow> string option) \<Rightarrow> string \<Rightarrow> (db_choice \<Rightarrow> py_error option) \<Rightarrow> shell_handler" where
  "handle_settings_database_test environ home connect_db rq body H =
     attempt (require_method (rq_method rq) [''POST'']) H (\<lambda>_.
       (case test_url environ home connect_db (obj_get body ''databaseUrl'') of
          None \<Rightarrow> (Inr (200, JObj [(''ok'', JBool True), (''message'', JStr ''Connection successful'')]), H)
        | Some e \<Rightarrow> (Inr (400, JObj [(''ok'', JBool False),
            (''message'', JStr (''Connection failed: '' @ clean_message (exc_text e)))]), H)))"

section \<open>cp/handlers/system.py\<close>

definition shown :: "(shell \<Rightarrow> json) \<Rightarrow> shell_handler" where
  "shown f rq body H = (Inr (200, f H), H)"

definition handle_system_health :: shell_handler where "handle_system_health = shown build_health_snapshot"

definition handle_system_session :: shell_handler where "handle_system_session = shown build_session_snapshot"

definition handle_system_events :: shell_handler where "handle_system_events = shown (\<lambda>H. JObj (event_snapshot (sh_events H)))"

definition handle_system_window :: shell_handler where "handle_system_window = shown (\<lambda>H. window_json (wi_snap (sh_window H)))"

definition handle_system_deps :: "py_error + dependency list \<Rightarrow> shell_handler" where
  "handle_system_deps reply = shown (build_dependency_snapshot reply)"

definition request_shutdown :: "shell \<Rightarrow> shell" where
  "request_shutdown H = (if sh_loop H then H\<lparr>sh_session := (sh_session H)\<lparr>ks_shutdown := True\<rparr>\<rparr> else H)"

definition handle_shutdown :: shell_handler where
  "handle_shutdown rq body H = (let H1 = request_shutdown H in
     (Inr (200, JObj [(''ok'', JBool True)]), H1\<lparr>sh_window := snd (shutdown_window (sh_window H1))\<rparr>))"

definition handle_bootstrap :: "json \<Rightarrow> shell_handler" where
  "handle_bootstrap payload rq body H = attempt (require_method (rq_method rq) [''GET'']) H (\<lambda>_. (Inr (200, payload), H))"

definition handle_system_snapshot :: "py_error + dependency list \<Rightarrow> shell_handler" where
  "handle_system_snapshot reply rq body H =
     attempt (require_method (rq_method rq) [''GET'']) H (\<lambda>_. (Inr (200, build_system_snapshot reply H), H))"

section \<open>Passwords in addresses\<close>

lemma takeWhile_at: "CHR ''@'' \<notin> set p \<Longrightarrow> takeWhile (\<lambda>d. d \<noteq> CHR ''@'') (p @ CHR ''@'' # r) = p"
  by (induction p) auto

lemma dropWhile_at: "CHR ''@'' \<notin> set p \<Longrightarrow> dropWhile (\<lambda>d. d \<noteq> CHR ''@'') (p @ CHR ''@'' # r) = CHR ''@'' # r"
  by (induction p) auto

lemma redact_colon:
  assumes "CHR ''@'' \<notin> set p" "p \<noteq> []"
  shows "redact_url (CHR '':'' # p @ CHR ''@'' # r) = '':****@'' @ redact_url r"
  using assms by (simp add: takeWhile_at dropWhile_at)

text \<open>Whatever stands before it, a colon and a text without an at sign up to one are not shown.\<close>

lemma redact_same:
  assumes p: "CHR ''@'' \<notin> set p" "p \<noteq> []" and q: "CHR ''@'' \<notin> set q" "q \<noteq> []"
  shows "redact_url (u @ CHR '':'' # p @ CHR ''@'' # r) = redact_url (u @ CHR '':'' # q @ CHR ''@'' # r)"
proof (induction u rule: length_induct)
  case (1 u)
  show ?case
  proof (cases u)
    case Nil
    show ?thesis unfolding Nil using redact_colon[OF p] redact_colon[OF q] by simp
  next
    case (Cons c v)
    let ?t = "\<lambda>x. v @ CHR '':'' # x @ CHR ''@'' # r"
    have shorter: "redact_url (w @ CHR '':'' # p @ CHR ''@'' # r) = redact_url (w @ CHR '':'' # q @ CHR ''@'' # r)" if "length w \<le> length v" for w
      using 1 that Cons by (metis le_imp_less_Suc length_Cons)
    show ?thesis
    proof (cases "CHR ''@'' \<in> set v")
      case True
      then obtain a b where v: "v = a @ CHR ''@'' # b" "CHR ''@'' \<notin> set a" using split_list_first by metis
      have tw: "takeWhile (\<lambda>d. d \<noteq> CHR ''@'') (?t x) = a" "dropWhile (\<lambda>d. d \<noteq> CHR ''@'') (?t x) = CHR ''@'' # b @ CHR '':'' # x @ CHR ''@'' # r" for x
        using takeWhile_at[OF v(2), of "b @ CHR '':'' # x @ CHR ''@'' # r"] dropWhile_at[OF v(2), of "b @ CHR '':'' # x @ CHR ''@'' # r"]
        unfolding v(1) by simp_all
      have "length b \<le> length v" by (simp add: v(1))
      then show ?thesis using shorter[of b] shorter[of v] by (simp add: Cons tw)
    next
      case False
      have tw: "takeWhile (\<lambda>d. d \<noteq> CHR ''@'') (?t x) = v @ CHR '':'' # x" "dropWhile (\<lambda>d. d \<noteq> CHR ''@'') (?t x) = CHR ''@'' # r"
        if "CHR ''@'' \<notin> set x" for x
        using takeWhile_at[of "v @ CHR '':'' # x" r] dropWhile_at[of "v @ CHR '':'' # x" r] that False by simp_all
      show ?thesis using shorter[of v] p q by (simp add: Cons tw Let_def)
    qed
  qed
qed

end
