(* ===== verification/Server.thy ===== *)
theory Server
  imports Api_Facts Views
begin

text \<open>
  The whole control plane behind its HTTP shell: the components of \<open>Runtime_Api\<close>, the providers, the workloads
  and the state of the shell together, and every route of the table answered by its handler. The agents and
  invocations see the providers as they are at the time of the request.
\<close>

section \<open>State\<close>

record ('w, 'k, 'p) server =
  sv_api :: "('w, 'k) runtime"
  sv_providers :: provider_db
  sv_workloads :: "'p workload_api"
  sv_shell :: shell

text \<open>What lies outside: the two environments, the reply of the kernel about its dependencies, the environment
  of the process, a connection to a database, and the classes of the stores in use.\<close>

record server_env =
  se_api :: api_env
  se_providers :: provider_env
  se_deps :: "py_error + dependency list"
  se_environ :: "string \<Rightarrow> string option"
  se_home :: string
  se_connect :: "db_choice \<Rightarrow> py_error option"
  se_backend :: string
  se_vector :: "string option"

definition provider_info_of :: "string \<Rightarrow> provider_row \<Rightarrow> provider_info" where
  "provider_info_of i r = \<lparr>pi_id = i, pi_name = pv_name r, pi_type = pv_type r, pi_enabled = pv_enabled r, pi_revision = pv_revision r,
     pi_default_model = JStr (pv_model r)\<rparr>"

definition provider_lookup :: "provider_db \<Rightarrow> string \<Rightarrow> provider_info option" where
  "provider_lookup D i = map_option (provider_info_of i) (map_of (pd_rows D) i)"

definition env_with :: "server_env \<Rightarrow> provider_db \<Rightarrow> api_env" where
  "env_with X D = (se_api X)\<lparr>ae_providers := provider_lookup D\<rparr>"

section \<open>Usage\<close>

definition provider_infos :: "provider_db \<Rightarrow> provider_info list" where
  "provider_infos D = map (\<lambda>(i, r). provider_info_of i r) (pd_rows D)"

definition provider_total_json :: "string \<times> usage_total \<Rightarrow> json" where
  "provider_total_json iu = JObj [(''providerId'', JStr (fst iu)), (''providerName'', JStr (ut_name (snd iu))), (''providerType'', JStr (ut_type (snd iu))),
     (''invocationCount'', JInt (ut_count (snd iu))), (''totalTokens'', JInt (ut_tokens (snd iu)))]"

definition agent_total_json :: "string \<times> usage_total \<Rightarrow> json" where
  "agent_total_json iu = JObj [(''agentId'', JStr (fst iu)), (''agentName'', JStr (ut_name (snd iu))),
     (''invocationCount'', JInt (ut_count (snd iu))), (''totalTokens'', JInt (ut_tokens (snd iu)))]"

definition usage_json :: "usage_stats \<times> int \<Rightarrow> json" where
  "usage_json sn = (case sn of (S, n) \<Rightarrow>
     JObj [(''totalTokens'', JInt (us_total S)), (''totalPromptTokens'', JInt (us_prompt S)), (''totalCompletionTokens'', JInt (us_completion S)),
       (''invocationCount'', JInt n), (''byProvider'', JList (map provider_total_json (us_providers S))),
       (''byAgent'', JList (map agent_total_json (us_agents S))), (''recentInvocations'', JList (map JObj (us_recent S)))])"

section \<open>Dispatch\<close>

type_synonym ('w, 'k, 'p) server_handler = "(('w, 'k, 'p) server, answer) http_handler"

definition on_api :: "('w, 'k) api_handler \<Rightarrow> ('w, 'k, 'p) server_handler" where
  "on_api f rq body S = (case f rq body (sv_api S) of (r, R) \<Rightarrow> (r, S\<lparr>sv_api := R\<rparr>))"

definition on_providers :: "provider_handler \<Rightarrow> ('w, 'k, 'p) server_handler" where
  "on_providers f rq body S = (case f rq body (sv_providers S) of (r, D) \<Rightarrow> (r, S\<lparr>sv_providers := D\<rparr>))"

definition on_workloads :: "'p workload_handler \<Rightarrow> ('w, 'k, 'p) server_handler" where
  "on_workloads f rq body S = (case f rq body (sv_workloads S) of (r, W) \<Rightarrow> (r, S\<lparr>sv_workloads := W\<rparr>))"

definition on_shell :: "shell_handler \<Rightarrow> ('w, 'k, 'p) server_handler" where
  "on_shell f rq body S = (case f rq body (sv_shell S) of (r, H) \<Rightarrow> (r, S\<lparr>sv_shell := H\<rparr>))"

definition handle_usage :: "('w, 'k, 'p) server_handler" where
  "handle_usage rq body S =
     attempt (require_method (rq_method rq) [''GET'']) S (\<lambda>_.
       (rbind (lift_py (get_usage_stats (cp_agents (sv_api S)) (provider_infos (sv_providers S)))) (\<lambda>u. Inr (200, usage_json u)), S))"

definition server_handler_of :: "server_env \<Rightarrow> handler_name \<Rightarrow> ('w, 'k, 'p) server_handler" where
  "server_handler_of X h =
     (let V = se_providers X; unq = ae_unquote (se_api X) in
      case h of
        H_catalog \<Rightarrow> on_providers (provider_answer Catalog V unq) | H_providers \<Rightarrow> on_providers (provider_answer Collection V unq)
      | H_provider_test \<Rightarrow> on_providers (provider_answer Test_body V unq) | H_provider \<Rightarrow> on_providers (provider_answer Single V unq)
      | H_provider_action \<Rightarrow> on_providers (provider_answer Action V unq)
      | H_workloads \<Rightarrow> on_workloads (workload_answer All_workloads unq) | H_workload \<Rightarrow> on_workloads (workload_answer One_workload unq)
      | H_workload_action \<Rightarrow> on_workloads (workload_answer Workload_action unq)
      | H_settings_database \<Rightarrow> on_shell (handle_settings_database (se_backend X) (se_vector X))
      | H_settings_database_test \<Rightarrow> on_shell (handle_settings_database_test (se_environ X) (se_home X) (se_connect X))
      | H_health \<Rightarrow> on_shell handle_system_health | H_session \<Rightarrow> on_shell handle_system_session
      | H_recent_events \<Rightarrow> on_shell handle_system_events | H_window \<Rightarrow> on_shell handle_system_window
      | H_dependencies \<Rightarrow> on_shell (handle_system_deps (se_deps X)) | H_shutdown \<Rightarrow> on_shell handle_shutdown
      | H_system_snapshot \<Rightarrow> on_shell (handle_system_snapshot (se_deps X))
      | H_bootstrap \<Rightarrow> (\<lambda>rq body S. on_shell (handle_bootstrap (build_bootstrap_payload V (se_api X) (sv_providers S) (sv_api S))) rq body S)
      | H_usage \<Rightarrow> handle_usage
      | _ \<Rightarrow> (\<lambda>rq body S. on_api (api_handler_of (env_with X (sv_providers S)) (\<lambda>_ rq body R. refuse rq [] R) h) rq body S))"

definition server_answers ::
  "(string \<Rightarrow> parsed) \<Rightarrow> static_fs \<Rightarrow> fs_path \<Rightarrow> server_env \<Rightarrow> request \<Rightarrow> ('w, 'k, 'p) server \<Rightarrow> answer reply \<times> ('w, 'k, 'p) server" where
  "server_answers parse fs site X rq S = dispatch parse fs site route_table (server_handler_of X) rq S"

section \<open>What every state keeps\<close>

definition server_ok :: "api_env \<Rightarrow> ('w, 'k, 'p) server \<Rightarrow> bool" where
  "server_ok E S \<longleftrightarrow> runtime_ok E (sv_api S) \<and> providers_ok (sv_providers S) \<and> records_ok (sv_workloads S)"

lemma on_parts_ok:
  "server_ok E S \<Longrightarrow> runtime_ok E (snd (f rq body (sv_api S))) \<Longrightarrow> server_ok E (snd (on_api f rq body S))"
  "server_ok E S \<Longrightarrow> providers_ok (snd (g rq body (sv_providers S))) \<Longrightarrow> server_ok E (snd (on_providers g rq body S))"
  "server_ok E S \<Longrightarrow> records_ok (snd (w rq body (sv_workloads S))) \<Longrightarrow> server_ok E (snd (on_workloads w rq body S))"
  "server_ok E S \<Longrightarrow> server_ok E (snd (on_shell h rq body S))"
  by (auto simp: server_ok_def on_api_def on_providers_def on_workloads_def on_shell_def split: prod.splits)

lemma env_same:
  "ae_uuid (env_with X D) = ae_uuid (se_api X)" "runtime_ok (env_with X D) R = runtime_ok (se_api X) R"
  by (simp_all add: env_with_def runtime_ok_def tables_ok_def)

lemma usage_same: "snd (handle_usage rq body S) = S"
  by (simp add: handle_usage_def attempt_def split: sum.split)

lemma server_handler_ok:
  assumes uu: "uuid_ok (ae_uuid (se_api X))" and ok: "server_ok (se_api X) S"
  shows "server_ok (se_api X) (snd (server_handler_of X h rq body S))"
proof -
  have p: "providers_ok (snd (provider_answer r V unq rq body (sv_providers S)))" for r V unq
    using ok by (intro provider_answer_ok) (simp add: server_ok_def)
  have w: "records_ok (snd (workload_answer r unq rq body (sv_workloads S)))" for r unq
    using ok by (intro workload_answer_ok) (simp add: server_ok_def)
  show ?thesis
  proof (cases "h \<in> other_handlers")
    case True
    then show ?thesis
      by (cases h) (simp_all add: other_handlers_def server_handler_of_def Let_def on_parts_ok[OF ok] p w usage_same ok del: provider_answer.simps workload_answer.simps)
  next
    case False
    have "runtime_ok (se_api X) (snd (api_handler_of (env_with X (sv_providers S)) (\<lambda>_ rq body R. refuse rq [] R) h rq body (sv_api S)))"
      using api_handler_ok[of "env_with X (sv_providers S)" "sv_api S" h] False uu ok by (simp add: env_same server_ok_def)
    then have "server_ok (se_api X) (snd (on_api (api_handler_of (env_with X (sv_providers S)) (\<lambda>_ rq body R. refuse rq [] R) h) rq body S))"
      by (rule on_parts_ok(1)[OF ok])
    then show ?thesis using False by (cases h) (simp_all add: other_handlers_def server_handler_of_def Let_def)
  qed
qed

lemma server_answers_ok:
  assumes "uuid_ok (ae_uuid (se_api X))" "server_ok (se_api X) S"
  shows "server_ok (se_api X) (snd (server_answers parse fs site X rq S))"
  using dispatch_state[of parse fs site route_table "server_handler_of X" rq S] assms server_handler_ok unfolding server_answers_def by metis

section \<open>Runs\<close>

text \<open>
  What happens: a request, at some time and with fresh identifiers; anything the control plane does by itself
  (threads, ticks, checkpoints, invocations, the kernel's registration); the clock of the providers; the
  session with the kernel, its events and the window; and a restart, which loses the secrets and the workloads.
\<close>

definition at_request :: "server_env \<Rightarrow> string \<Rightarrow> moment \<Rightarrow> server_env" where
  "at_request X i t = X\<lparr>se_api := (se_api X)\<lparr>ae_id := i, ae_clock := t\<rparr>\<rparr>"

definition restarted :: "api_env \<Rightarrow> shell \<Rightarrow> 'p workload_api \<Rightarrow> ('w, 'k, 'p) server \<Rightarrow> ('w, 'k, 'p) server" where
  "restarted E H W S = S\<lparr>sv_api := (sv_api S)\<lparr>cp_exec := snd (resume_pending_runs (ae_cfg E) (crash (cp_exec (sv_api S)))), cp_scopes := [],
       cp_templates := [], cp_jobs := [], cp_port := None\<rparr>,
     sv_providers := (sv_providers S)\<lparr>pd_secrets := []\<rparr>, sv_workloads := W\<lparr>wa_cache := []\<rparr>, sv_shell := H\<rparr>"

inductive server_step :: "api_env \<Rightarrow> ('w, 'k, 'p) server \<Rightarrow> ('w, 'k, 'p) server \<Rightarrow> bool" for E where
  asked_for: "se_api X = E \<Longrightarrow> server_answers parse fs site (at_request X i t) rq S = (rep, S') \<Longrightarrow> server_step E S S'"
| by_itself: "runtime_step E (sv_api S) R \<Longrightarrow> server_step E S (S\<lparr>sv_api := R\<rparr>)"
| provider_clock: "server_step E S (S\<lparr>sv_providers := (sv_providers S)\<lparr>pd_now := now\<rparr>\<rparr>)"
| kernel_link: "server_step E S (S\<lparr>sv_workloads := (sv_workloads S)\<lparr>wa_stub := K, wa_loop := b, wa_kernel := k\<rparr>\<rparr>)"
| shell_moves: "server_step E S (S\<lparr>sv_shell := H\<rparr>)"
| server_restart: "server_step E S (restarted E H W S)"

definition initial_server :: "'w registry \<Rightarrow> 'k \<Rightarrow> shell \<Rightarrow> 'p \<Rightarrow> ('w, 'k, 'p) server" where
  "initial_server T k H p = \<lparr>sv_api = initial_runtime T k, sv_providers = no_providers,
     sv_workloads = \<lparr>wa_stub = None, wa_loop = False, wa_cache = [], wa_kernel = p\<rparr>, sv_shell = H\<rparr>"

inductive server_reachable :: "api_env \<Rightarrow> ('w, 'k, 'p) server \<Rightarrow> ('w, 'k, 'p) server \<Rightarrow> bool" for E S0 where
  server_boot: "server_reachable E S0 S0"
| server_goes: "server_reachable E S0 S \<Longrightarrow> server_step E S S' \<Longrightarrow> server_reachable E S0 S'"

lemma no_secrets_ok: "providers_ok D \<Longrightarrow> providers_ok (D\<lparr>pd_secrets := []\<rparr>)"
  by (simp add: providers_ok_def settings_ok_def names_unique_def)

lemma clock_ok: "providers_ok (D\<lparr>pd_now := now\<rparr>) = providers_ok D"
  by (simp add: providers_ok_def settings_ok_def names_unique_def)

lemma server_step_ok:
  assumes uu: "uuid_ok (ae_uuid E)" and st: "server_step E S S'" and ok: "server_ok E S"
  shows "server_ok E S'"
  using st
proof cases
  case (asked_for X parse fs site i t rq rep)
  have e: "runtime_ok (se_api (at_request X i t)) R = runtime_ok E R" for R :: "('a, 'b) runtime"
    by (simp add: at_request_def asked_for(1) runtime_ok_def tables_ok_def)
  have "server_ok (se_api (at_request X i t)) S' = server_ok E S'" "server_ok (se_api (at_request X i t)) S = server_ok E S"
    by (simp_all add: server_ok_def e)
  moreover have "uuid_ok (ae_uuid (se_api (at_request X i t)))" using uu by (simp add: at_request_def asked_for(1))
  ultimately show ?thesis using server_answers_ok[of "at_request X i t" S parse fs site rq] ok asked_for(2) by simp
next
  case (by_itself R)
  then show ?thesis using runtime_step_ok[OF uu] ok by (auto simp: server_ok_def)
next
  case (server_restart H W)
  have "runtime_ok E (sv_api (restarted E H W S))"
    using runtime_step_ok[OF uu _ runtime_step.reboot, of "sv_api S"] ok by (simp add: restarted_def server_ok_def)
  then show ?thesis using ok no_secrets_ok by (simp add: server_restart server_ok_def restarted_def records_ok_def)
qed (use ok in \<open>simp_all add: server_ok_def clock_ok records_ok_def\<close>)

lemma initial_server_ok: "server_ok E (initial_server T k H p)"
  by (simp add: server_ok_def initial_server_def initial_runtime_ok records_ok_def no_providers_def providers_ok_def settings_ok_def names_unique_def)

lemma server_invariant: "server_reachable E S0 S \<Longrightarrow> uuid_ok (ae_uuid E) \<Longrightarrow> server_ok E S0 \<Longrightarrow> server_ok E S"
  by (induction rule: server_reachable.induct) (auto intro: server_step_ok)

text \<open>Whatever the components behind the API reach, the whole reaches with it.\<close>

lemma server_of_runtime:
  "runtime_reachable E T k R \<Longrightarrow> \<exists>S. server_reachable E (initial_server T k H p) S \<and> sv_api S = R"
proof (induction rule: runtime_reachable.induct)
  case boot
  have "sv_api (initial_server T k H p) = initial_runtime T k" by (simp add: initial_server_def)
  then show ?case using server_boot by blast
next
  case (goes_on R R')
  then obtain S where S: "server_reachable E (initial_server T k H p) S" "sv_api S = R" by blast
  have "server_reachable E (initial_server T k H p) (S\<lparr>sv_api := R'\<rparr>)"
    using server_goes[OF S(1) by_itself] goes_on.hyps(2) S(2) by blast
  then show ?case by (intro exI[of _ "S\<lparr>sv_api := R'\<rparr>"]) simp
qed

section \<open>Secrets do not show\<close>

text \<open>Two states of the whole that differ only in the session secrets of providers.\<close>

definition same_server :: "('w, 'k, 'p) server \<Rightarrow> ('w, 'k, 'p) server \<Rightarrow> bool" where
  "same_server S S' \<longleftrightarrow> sv_api S = sv_api S' \<and> same_public (sv_providers S) (sv_providers S') \<and> sv_workloads S = sv_workloads S' \<and>
     sv_shell S = sv_shell S'"

text \<open>The two routes that ask the provider itself.\<close>

definition tests_provider :: "request \<Rightarrow> bool" where
  "tests_provider rq \<longleftrightarrow> (case find_route route_table (rq_method rq) (rq_path rq) of
     Inl _ \<Rightarrow> False | Inr h \<Rightarrow> h = H_provider_test \<or> h = H_provider_action \<and> segment rq 4 = Inr ''test'')"

definition twins :: "(http_exc + answer) \<times> ('w, 'k, 'p) server \<Rightarrow> (http_exc + answer) \<times> ('w, 'k, 'p) server \<Rightarrow> bool" where
  "twins a b \<longleftrightarrow> fst a = fst b \<and> same_server (snd a) (snd b)"

lemma twin_parts:
  assumes "same_server S S'"
  shows "twins (on_api f rq body S) (on_api f rq body S')" "twins (on_workloads w rq body S) (on_workloads w rq body S')"
    "twins (on_shell h rq body S) (on_shell h rq body S')"
    "alike (g rq body (sv_providers S)) (g rq body (sv_providers S')) \<Longrightarrow> twins (on_providers g rq body S) (on_providers g rq body S')"
  using assms by (auto simp: twins_def same_server_def on_api_def on_workloads_def on_shell_def on_providers_def alike_def split: prod.splits)

lemma same_rows: "same_public D D' \<Longrightarrow> provider_infos D = provider_infos D' \<and> env_with X D = env_with X D'"
  by (simp add: same_public_def provider_infos_def env_with_def provider_lookup_def fun_eq_iff)

lemma same_body_refl: "same_body V d d"
  by (simp add: same_body_def)

lemma server_handler_twins:
  assumes s: "same_server S S'" and t: "h \<noteq> H_provider_test" "h = H_provider_action \<Longrightarrow> segment rq 4 \<noteq> Inr ''test''"
  shows "twins (server_handler_of X h rq body S) (server_handler_of X h rq body S')"
proof -
  have pub: "same_public (sv_providers S) (sv_providers S')" and api: "sv_api S = sv_api S'" using s by (simp_all add: same_server_def)
  have p: "twins (on_providers (provider_answer r V unq) rq body S) (on_providers (provider_answer r V unq) rq body S')"
    if "\<not> asks_for_test r rq" for r V unq
    by (rule twin_parts(4)[OF s]) (rule provider_answer_alike[OF pub same_body_refl that])
  have a: "\<not> asks_for_test Catalog rq" "\<not> asks_for_test Collection rq" "\<not> asks_for_test Single rq"
    "h = H_provider_action \<Longrightarrow> \<not> asks_for_test Action rq" using t(2) by (auto simp: asks_for_test_def)
  have b: "build_bootstrap_payload V E (sv_providers S) R = build_bootstrap_payload V E (sv_providers S') R" for V E R
    using same_list[OF pub] by (simp add: build_bootstrap_payload_def)
  have u: "twins (handle_usage rq body S) (handle_usage rq body S')"
    using same_rows[OF pub] s api by (simp add: handle_usage_def twins_def attempt_def split: sum.split)
  note e = conjunct2[OF same_rows[OF pub]]
  show ?thesis
    using t(1) a(4) by (cases h) (simp_all add: server_handler_of_def Let_def twin_parts(1-3)[OF s] p a(1-3) b u e api
        del: provider_answer.simps workload_answer.simps)
qed

lemma dispatch_related:
  assumes "\<And>h body. find_route T (rq_method rq) (rq_path rq) = Inr h \<Longrightarrow>
      fst (run h rq body s) = fst (run h rq body s') \<and> P (snd (run h rq body s)) (snd (run h rq body s'))"
    and "P s s'"
  shows "fst (dispatch parse fs site T run rq s) = fst (dispatch parse fs site T run rq s') \<and>
    P (snd (dispatch parse fs site T run rq s)) (snd (dispatch parse fs site T run rq s'))"
proof (cases "api_path rq")
  case True
  obtain b where b: "(if rq_method rq \<in> {''POST'', ''PUT'', ''PATCH'', ''DELETE''} then read_json_body parse rq else Inr []) = b" by blast
  note d = dispatch_def[of parse fs site T run rq, unfolded b if_P[OF True]]
  show ?thesis
  proof (cases b)
    case (Inr body)
    show ?thesis
    proof (cases "find_route T (rq_method rq) (rq_path rq)")
      case (Inr h)
      obtain x t x' t' where "run h rq body s = (x, t)" "run h rq body s' = (x', t')" by (metis surj_pair)
      then show ?thesis using assms(1)[OF Inr, of body] Inr \<open>b = Inr body\<close> by (cases x) (auto simp: d)
    qed (use d Inr assms(2) in simp)
  qed (use d assms(2) in simp)
qed (use assms(2) in \<open>simp add: dispatch_def split: sum.split\<close>)

lemma server_answers_twins:
  assumes s: "same_server S S'" and t: "\<not> tests_provider rq"
  shows "fst (server_answers parse fs site X rq S) = fst (server_answers parse fs site X rq S') \<and>
    same_server (snd (server_answers parse fs site X rq S)) (snd (server_answers parse fs site X rq S'))"
  unfolding server_answers_def
proof (rule dispatch_related)
  fix h body
  assume "find_route route_table (rq_method rq) (rq_path rq) = Inr h"
  then have "twins (server_handler_of X h rq body S) (server_handler_of X h rq body S')"
    using t by (intro server_handler_twins[OF s]) (auto simp: tests_provider_def)
  then show "fst (server_handler_of X h rq body S) = fst (server_handler_of X h rq body S') \<and>
      same_server (snd (server_handler_of X h rq body S)) (snd (server_handler_of X h rq body S'))"
    by (simp add: twins_def)
qed (rule s)

text \<open>So are the answers to any number of requests, and what can be seen at the end.\<close>

fun server_session :: "(string \<Rightarrow> parsed) \<Rightarrow> static_fs \<Rightarrow> fs_path \<Rightarrow> (server_env \<times> request) list \<Rightarrow> ('w, 'k, 'p) server \<Rightarrow> answer reply list \<times> ('w, 'k, 'p) server" where
  "server_session parse fs site [] S = ([], S)"
| "server_session parse fs site ((X, rq) # rest) S =
     (case server_answers parse fs site X rq S of (r, S1) \<Rightarrow>
        (case server_session parse fs site rest S1 of (rs, S2) \<Rightarrow> (r # rs, S2)))"

lemma server_session_twins:
  "same_server S S' \<Longrightarrow> \<forall>(X, rq) \<in> set rs. \<not> tests_provider rq \<Longrightarrow>
    fst (server_session parse fs site rs S) = fst (server_session parse fs site rs S') \<and>
    same_server (snd (server_session parse fs site rs S)) (snd (server_session parse fs site rs S'))"
proof (induction rs arbitrary: S S')
  case (Cons x rs)
  obtain X rq where x: "x = (X, rq)" by (cases x)
  have "\<not> tests_provider rq" using Cons.prems(2) x by simp
  note one = server_answers_twins[OF Cons.prems(1) this, of parse fs site X]
  then show ?case using Cons.IH[OF conjunct2[OF one]] Cons.prems(2) x by (auto split: prod.splits)
qed simp

end
