(* ===== verification/Demo_Server.thy ===== *)
theory Demo_Server
  imports Server Demo_Infra
begin

text \<open>A shell before its first request, and the runs of the other demos inside the whole control plane.\<close>

definition demo_config :: cp_config where
  "demo_config = \<lparr>cc_endpoint = ''unix:///v.sock'', cc_token = None, cc_runtime_root = ''/v'', cc_repo_root = ''/r'', cc_version = ''1'',
     cc_serve_http = True, cc_host = ''127.0.0.1'', cc_port = 8765, cc_heartbeat = 10, cc_reconnect = 2, cc_connect_timeout = 10,
     cc_rpc_timeout = 10, cc_buffer = 200, cc_open_on_boot = False, cc_title = ''VLoop'', cc_width = 1320, cc_height = 860,
     cc_hidden = True, cc_debug = False, cc_database = JNull, cc_vector = JNull\<rparr>"

definition demo_shell :: shell where
  "demo_shell = \<lparr>sh_config = demo_config, sh_session = boot_session demo_session_config ''starting'', sh_window = new_window True,
     sh_events = \<lparr>kr_max = 200, kr_recent = [], kr_opened = [], kr_store = None\<rparr>, sh_loop = False\<rparr>"

lemma demo_server_reachable:
  "\<exists>S. server_reachable demo_env (initial_server (new_registry False None) () demo_shell ()) S \<and> sv_api S = demo_created"
  by (rule server_of_runtime[OF demo_created_reachable])

text \<open>Two control planes that hold different secrets of one provider, and a request for the list of the providers.\<close>

definition demo_server_env :: server_env where
  "demo_server_env = \<lparr>se_api = demo_env, se_providers = demo_provider_env, se_deps = Inr [], se_environ = (\<lambda>_. None), se_home = ''/h'',
     se_connect = (\<lambda>_. None), se_backend = ''SQLiteBackend'', se_vector = None\<rparr>"

definition demo_secret_server :: "string \<Rightarrow> (unit, unit, unit) server" where
  "demo_secret_server secret = (initial_server (new_registry False None) () demo_shell ())\<lparr>sv_providers := no_providers\<lparr>pd_secrets := [(''p'', secret)]\<rparr>\<rparr>"

definition demo_list_request :: request where
  "demo_list_request = \<lparr>rq_method = ''GET'', rq_path = ''/api/v1/providers'', rq_query = [], rq_length = None, rq_body = (\<lambda>_. [])\<rparr>"

lemma demo_secret_twins: "same_server (demo_secret_server a) (demo_secret_server b)"
  by (simp add: same_server_def demo_secret_server_def same_public_def no_providers_def dict_has_def)

lemma demo_list_no_test: "\<not> tests_provider demo_list_request"
  by code_simp

end
