(* ===== verification/Mock_Lm.thy ===== *)
theory Mock_Lm
  imports Py_Num
begin

text \<open>
  \<open>core/mock_dspy_lm.py\<close>: the local stand-in for a language model, which finds in the prompt the field to
  answer in and the shape of the answer. \<open>json.loads\<close> and \<open>json.dumps\<close> are arguments.
\<close>

section \<open>Patterns\<close>

definition ident_first :: "char \<Rightarrow> bool" where
  "ident_first c \<longleftrightarrow> is_lower_ascii c \<or> is_upper_ascii c"

definition ident_rest :: "char \<Rightarrow> bool" where
  "ident_rest c \<longleftrightarrow> ident_first c \<or> is_decimal c \<or> c = CHR ''_''"

definition strip_prefix :: "string \<Rightarrow> string \<Rightarrow> string option" where
  "strip_prefix p s = (if str_prefix p s then Some (drop (length p) s) else None)"

definition ident_at :: "string \<Rightarrow> (string \<times> string) option" where
  "ident_at s = (case s of [] \<Rightarrow> None | c # cs \<Rightarrow> if ident_first c then Some (c # takeWhile ident_rest cs, dropWhile ident_rest cs) else None)"

definition output_field_at :: "string \<Rightarrow> string option" where
  "output_field_at s = Option.bind (strip_prefix ''Return the final answer in the `'' s) (\<lambda>s1.
     Option.bind (ident_at s1) (\<lambda>(name, s2). map_option (\<lambda>_. name) (strip_prefix ''` field.'' s2)))"

definition spaces :: "string \<Rightarrow> string" where
  "spaces s = dropWhile is_space s"

definition marker_at :: "string \<Rightarrow> string option" where
  "marker_at s = Option.bind (strip_prefix ''[['' s) (\<lambda>s1. Option.bind (strip_prefix ''##'' (spaces s1)) (\<lambda>s2.
     Option.bind (ident_at (spaces s2)) (\<lambda>(name, s3). Option.bind (strip_prefix ''##'' (spaces s3)) (\<lambda>s4.
       map_option (\<lambda>_. name) (strip_prefix '']]'' (spaces s4))))))"

text \<open>The text of the shape ends at the first closing brace.\<close>

definition guidance_at :: "string \<Rightarrow> string option" where
  "guidance_at s = Option.bind (strip_prefix ''JSON shape guidance:'' s) (\<lambda>s1.
     let s2 = spaces s1; body = takeWhile (\<lambda>c. c \<noteq> CHR ''}'') s2 in
     if s2 \<noteq> [] \<and> hd s2 = CHR ''{'' \<and> CHR ''}'' \<in> set s2 then Some (body @ ''}'') else None)"

text \<open>\<open>search\<close> takes the first place where a pattern matches; the matches of a marker cannot overlap, so \<open>findall\<close> gives all of them.\<close>

fun first_match :: "(string \<Rightarrow> 'a option) \<Rightarrow> string \<Rightarrow> 'a option" where
  "first_match f [] = f []"
| "first_match f (c # cs) = (case f (c # cs) of Some x \<Rightarrow> Some x | None \<Rightarrow> first_match f cs)"

fun all_matches :: "(string \<Rightarrow> 'a option) \<Rightarrow> string \<Rightarrow> 'a list" where
  "all_matches f [] = (case f [] of Some x \<Rightarrow> [x] | None \<Rightarrow> [])"
| "all_matches f (c # cs) = (case f (c # cs) of Some x \<Rightarrow> [x] | None \<Rightarrow> []) @ all_matches f cs"

definition extract_mock_output_field_name :: "string \<Rightarrow> string" where
  "extract_mock_output_field_name s =
     (case first_match output_field_at s of
        Some name \<Rightarrow> name
      | None \<Rightarrow> (let markers = filter (\<lambda>m. m \<notin> {''request'', ''reasoning''}) (all_matches marker_at s) in
          if markers \<noteq> [] then last markers else ''response''))"

definition extract_mock_json_shape :: "(string \<Rightarrow> json option) \<Rightarrow> string \<Rightarrow> json option" where
  "extract_mock_json_shape loads s =
     (case first_match guidance_at s of
        None \<Rightarrow> None
      | Some t \<Rightarrow> (case loads t of Some (JObj d) \<Rightarrow> Some (JObj d) | _ \<Rightarrow> None))"

section \<open>Answers\<close>

definition mock_text :: "string \<Rightarrow> json" where "mock_text name = JStr (''Mock '' @ name)"

definition mock_item :: "string \<Rightarrow> json" where "mock_item name = JList [JStr (''Mock '' @ name @ '' item'')]"

definition mock_object :: "string \<Rightarrow> json" where "mock_object name = JObj [(name, mock_text name)]"

definition mock_of_text :: "string \<Rightarrow> string \<Rightarrow> json" where
  "mock_of_text s name =
     (let n = str_lower (str_strip s) in
      if n \<in> {''number'', ''float'', ''int'', ''integer''} then JInt 1
      else if n \<in> {''boolean'', ''bool''} then JBool True
      else if n \<in> {''array'', ''list''} then mock_item name
      else if n \<in> {''object'', ''json''} then mock_object name
      else mock_text name)"

lemma json_size_obj: "p \<in> set d \<Longrightarrow> size (snd p) < size (JObj d)"
proof (induction d)
  case (Cons q d)
  then show ?case by (cases q; cases p) auto
qed simp

function materialize_mock_json_shape :: "json \<Rightarrow> string \<Rightarrow> json" where
  "materialize_mock_json_shape (JObj d) name =
     (if d = [] then mock_object name else JObj (map (\<lambda>p. (fst p, materialize_mock_json_shape (snd p) (fst p))) d))"
| "materialize_mock_json_shape (JList xs) name =
     (case xs of [] \<Rightarrow> mock_item name | x # _ \<Rightarrow> JList [materialize_mock_json_shape x name])"
| "materialize_mock_json_shape (JStr s) name = mock_of_text s name"
| "materialize_mock_json_shape (JBool b) name = JBool b"
| "materialize_mock_json_shape (JInt n) name = JInt n"
| "materialize_mock_json_shape (JFloat r) name = JFloat r"
| "materialize_mock_json_shape JNull name = mock_text name"
  by pat_completeness auto

termination
  by (relation "measure (size \<circ> fst)") (auto dest: json_size_obj)

definition mock_reasoning :: string where
  "mock_reasoning = ''Mock provider produced a deterministic local response for smoke tests.''"

definition mock_reply :: "string \<Rightarrow> string" where
  "mock_reply user = ''Mock provider reply from VLoop. This proves the DSPy pipeline is working locally. '' @
     ''Input excerpt: '' @ take 220 user"

text \<open>The messages of a call are objects; the last one is answered, and without any the prompt.\<close>

definition mock_user :: "(rat \<Rightarrow> string) \<Rightarrow> string option \<Rightarrow> ((string \<times> json) list) list \<Rightarrow> py_error + string" where
  "mock_user fl prompt messages =
     (if messages = [] then Inr (case prompt of None \<Rightarrow> [] | Some p \<Rightarrow> p)
      else (case map_of (last messages) ''content'' of None \<Rightarrow> Inl (Key_error ''content'') | Some v \<Rightarrow> Inr (py_str fl v)))"

definition mock_payload :: "(string \<Rightarrow> json option) \<Rightarrow> string \<Rightarrow> json" where
  "mock_payload loads user =
     (let name = extract_mock_output_field_name user;
          output = (case extract_mock_json_shape loads user of
             Some shape \<Rightarrow> materialize_mock_json_shape shape name | None \<Rightarrow> JStr (mock_reply user))
      in JObj (dict_set name output [(''reasoning'', JStr mock_reasoning)]))"

definition mock_forward :: "(string \<Rightarrow> json option) \<Rightarrow> (json \<Rightarrow> string) \<Rightarrow> (rat \<Rightarrow> string) \<Rightarrow> string option \<Rightarrow> ((string \<times> json) list) list \<Rightarrow> py_error + string" where
  "mock_forward loads dumps fl prompt messages = rbind (mock_user fl prompt messages) (\<lambda>user. Inr (dumps (mock_payload loads user)))"

section \<open>The shape of an answer\<close>

text \<open>An answer has the fields of the shape, all the way down, and holds no null.\<close>

fun fits :: "nat \<Rightarrow> json \<Rightarrow> json \<Rightarrow> bool" where
  "fits 0 s v = True"
| "fits (Suc n) (JObj d) v = (\<exists>e. v = JObj e \<and> (d = [] \<or> list_all2 (\<lambda>p q. fst p = fst q \<and> fits n (snd p) (snd q)) d e))"
| "fits (Suc n) (JList xs) v = (\<exists>y. v = JList [y] \<and> (\<forall>x ys. xs = x # ys \<longrightarrow> fits n x y))"
| "fits (Suc n) (JBool b) v = (v = JBool b)"
| "fits (Suc n) (JInt i) v = (v = JInt i)"
| "fits (Suc n) (JFloat r) v = (v = JFloat r)"
| "fits (Suc n) (JStr s) v = (v \<noteq> JNull)"
| "fits (Suc n) JNull v = (v \<noteq> JNull)"

lemma mock_of_text_value: "mock_of_text s name \<noteq> JNull"
  by (simp add: mock_of_text_def mock_item_def mock_object_def mock_text_def Let_def)

lemma materialize_fits: "fits n s (materialize_mock_json_shape s name)"
proof (induction n arbitrary: s name)
  case (Suc n)
  show ?case
  proof (cases s)
    case (JObj d)
    then show ?thesis using Suc.IH by (auto simp: mock_object_def list_all2_conv_all_nth)
  next
    case (JList xs)
    then show ?thesis using Suc.IH by (cases xs) (auto simp: mock_item_def)
  qed (simp_all add: mock_of_text_value mock_text_def)
qed simp

lemma first_match_some: "first_match f s = Some x \<Longrightarrow> \<exists>u v. s = u @ v \<and> f v = Some x"
proof (induction s)
  case (Cons c cs)
  then show ?case
    by (cases "f (c # cs)") (auto intro: exI[of _ "[]"], metis append_Cons)
qed auto

lemma guidance_flat:
  assumes "first_match guidance_at s = Some t"
  shows "\<exists>u. t = u @ ''}'' \<and> CHR ''}'' \<notin> set u"
proof -
  obtain v where "guidance_at v = Some t" using first_match_some[OF assms] by blast
  then show ?thesis by (auto simp: guidance_at_def Let_def bind_eq_Some_conv split: if_splits dest: set_takeWhileD)
qed

end
