(* ===== verification/Further_Facts.thy ===== *)
theory Further_Facts
  imports Demo_Parts Agent_Step Demo_Gateway Demo_Subagents Context Demo_Inv Http Demo_Infra Demo_Server Mock_Lm
begin

text \<open>
  Further theorems on single components, which the properties of the root theory do not repeat.
\<close>

text \<open>
  A decision on a step that is not waiting is refused: neither the approval nor the rejection of a step whose state is not awaiting approval writes anything, and the error names what is wrong.
\<close>

theorem decision_needs_waiting_step:
  assumes "step_st (ex_db S) r s \<noteq> Some SAwaiting_approval"
  shows "\<exists>e. approve cfg r s ed S = (Some (Approval_error e), S) \<and> reject r s reason (ex_db S) = Inl e \<and>
    (case step_st (ex_db S) r s of None \<Rightarrow> e = Unknown_step s r | Some st \<Rightarrow> e = Not_awaiting s r st)"
  using assms
  by (auto simp: approve_def decide_approved_def reject_def require_awaiting_def step_st_def split: option.split)

text \<open>
  A rejection cancels the waiting step, skips exactly the steps that depend on it and are not terminal, records the run as rejected and changes no other step or run.
\<close>

theorem reject_prunes_dependents:
  assumes "reachable cfg u S" "uuid_ok u" "reject r s reason (ex_db S) = Inr (rst, db')"
  shows "rst = RRejected \<and> step_st (ex_db S) r s = Some SAwaiting_approval \<and>
    (\<forall>q t. step_st db' q t = (if q = r \<and> t = s then Some SCancelled
      else if q = r \<and> (s, t) \<in> (edge_rel (load_dag (ex_db S) r))\<^sup>+ \<and>
        (\<exists>st. step_st (ex_db S) q t = Some st \<and> \<not> step_is_terminal st) then Some SSkipped
      else step_st (ex_db S) q t)) \<and>
    (\<forall>q. run_st db' q = (if q = r \<and> run_st (ex_db S) q \<noteq> None then Some RRejected else run_st (ex_db S) q))"
proof -
  note f = step_st_reject[OF assms(3) exec_okD(2)[OF reachable_ok[OF assms(1,2)]]]
  show ?thesis using f(1,2) f(4)[unfolded dependents_of_iff] f(5) by blast
qed

text \<open>
  The layers of a graph are computed exactly when it is acyclic. They list every step once, each layer is sorted and not empty, and every step depends on steps of earlier layers only; on a cyclic graph the answer is a cycle.
\<close>

theorem layers_exact:
  assumes "dag_ok d"
  shows "case topological_layers d of
      Inr ls \<Rightarrow> acyclic (edge_rel d) \<and> distinct (concat ls) \<and> set (concat ls) = dag_ids d \<and>
        (\<forall>pre l post. ls = pre @ l # post \<longrightarrow> l \<noteq> [] \<and> sorted l \<and> (\<forall>s \<in> set l. predecessors d s \<subseteq> set (concat pre)))
    | Inl r \<Rightarrow> \<not> acyclic (edge_rel d) \<and> (\<exists>cyc. r = Some cyc \<and> dep_cycle (predecessors d) cyc)"
proof (cases "topological_layers d")
  case (Inl r)
  then show ?thesis using topological_layers_iff[OF assms] topological_layers_Inl[OF assms Inl] by simp
next
  case (Inr ls)
  then have "acyclic (edge_rel d)" using topological_layers_iff[OF assms] by blast
  moreover note L = topological_layers_Inr[OF assms Inr]
  moreover have "l \<noteq> [] \<and> sorted l \<and> (\<forall>s \<in> set l. predecessors d s \<subseteq> set (concat pre))"
    if "ls = pre @ l # post" for pre l post
    using layers_ok_split[OF conjunct1[OF L] that] by simp
  ultimately show ?thesis unfolding Inr by (simp only: sum.case) blast
qed

text \<open>
  The planner reads a definition as it was given, the executor reads it back in canonical form. A definition that the planner compiles, once stored, starts as a run whose steps are exactly the planned ones, all pending, with the same acyclic dependency relation.
\<close>

theorem planned_run_same_graph:
  assumes "reachable cfg u S" "uuid_ok u" "build_dag r (JObj d) = Inr g" "canonicalize d = Inr c"
    and "map_of (db_definitions (ex_db S)) did = Some d"
  shows "\<exists>rid S'. start_run cfg u did ovr S = Inr (rid, S') \<and> run_st (ex_db S') rid = Some RPending \<and>
    (\<forall>t. step_st (ex_db S') rid t = (if t \<in> dag_ids g then Some SPending else None)) \<and>
    edge_rel (load_dag (ex_db S') rid) = edge_rel g \<and> acyclic (edge_rel g)"
proof -
  have "acyclic (edge_rel g)" using assms(3) by (elim build_dag_Inr) blast
  moreover have "load_definition did S = Inr c" using assms(4,5) by (simp add: load_definition_def)
  ultimately show ?thesis using start_planned[OF reachable_ok[OF assms(1,2)] assms(2-4), of did ovr] by blast
qed

text \<open>
  The canonical form of a definition is canonical: it has the six keys in their fixed order, and normalizing it again gives it back.
\<close>

theorem canonical_form_stable:
  assumes "canonicalize d = Inr c"
  shows "canonicalize c = Inr c \<and> map fst c = [''version'', ''name'', ''objective'', ''inputs'', ''steps'', ''policies'']"
  using canonicalize_idem[OF assms] assms by (auto simp: canonicalize_def rbind_Inr_iff)

text \<open>
  Where a component raises an exception of its own, the client is told of an internal error. Deleting a memory entry that does not exist, pausing or resuming a schedule that does not exist and rolling back to a checkpoint that does not exist all give status 500 with the generic text, and change nothing. A request to connect to an MCP server, or to disconnect from one, gives status 409 if the server is configured and 404 if it is not.
\<close>

theorem component_errors_hidden:
  assumes "ae_unquote E x \<noteq> []"
  shows "(asks parse rq ''DELETE'' [''memory'', x] body \<and> get_entry (ae_unquote E x) (cp_memory R) = None \<or>
      asks parse rq ''POST'' [''schedules'', x, ''pause''] body \<and> find_task (cp_tasks R) (ae_unquote E x) = None \<or>
      asks parse rq ''POST'' [''schedules'', x, ''resume''] body \<and> find_task (cp_tasks R) (ae_unquote E x) = None \<or>
      asks parse rq ''POST'' [''checkpoints'', x, ''rollback''] body \<and> get_checkpoint (ae_unquote E x) (cp_checkpoints R) = None
      \<longrightarrow> serve parse fs site E others rq R = (Failed internal_error, R) \<and> er_message internal_error = generic_server_message) \<and>
    (asks parse rq ''POST'' [''mcp'', ''servers'', x, ''connect''] body \<or> asks parse rq ''POST'' [''mcp'', ''servers'', x, ''disconnect''] body
      \<longrightarrow> (\<exists>e. serve parse fs site E others rq R = (Failed e, R) \<and>
            er_status e = (if dict_has (cp_mcp R) (ae_unquote E x) then 409 else 404)))"
proof (intro conjI impI)
  note paused = unknown_scheduled_task[OF _ insertI1 assms]
  note resumed = unknown_scheduled_task[OF _ insertI2[OF insertI1] assms]
  show "serve parse fs site E others rq R = (Failed internal_error, R)"
    if "asks parse rq ''DELETE'' [''memory'', x] body \<and> get_entry (ae_unquote E x) (cp_memory R) = None \<or>
      asks parse rq ''POST'' [''schedules'', x, ''pause''] body \<and> find_task (cp_tasks R) (ae_unquote E x) = None \<or>
      asks parse rq ''POST'' [''schedules'', x, ''resume''] body \<and> find_task (cp_tasks R) (ae_unquote E x) = None \<or>
      asks parse rq ''POST'' [''checkpoints'', x, ''rollback''] body \<and> get_checkpoint (ae_unquote E x) (cp_checkpoints R) = None"
    using that by (elim disjE conjE) (erule (1) unknown_memory_entry paused resumed unknown_checkpoint[OF _ assms])+
  show "er_message internal_error = generic_server_message" by (rule internal_error_message(1))
  show "\<exists>e. serve parse fs site E others rq R = (Failed e, R) \<and>
      er_status e = (if dict_has (cp_mcp R) (ae_unquote E x) then 409 else 404)"
    if "asks parse rq ''POST'' [''mcp'', ''servers'', x, ''connect''] body \<or> asks parse rq ''POST'' [''mcp'', ''servers'', x, ''disconnect''] body"
    using that mcp_never_connects by blast
qed

text \<open>
  An observer of the provider routes learns nothing of a session secret but that it is there. Two states that differ only in the secrets they hold, given requests whose bodies differ only in the secret they carry, give the same answer and again states that differ only in secrets. A test of the provider is left out: what the provider answers, or raises, is stored and shown.
\<close>

theorem provider_secrets_hidden:
  assumes "same_public D D'" "same_body V d d'" "\<not> asks_for_test route rq"
  shows "fst (provider_answer route V unq rq d D) = fst (provider_answer route V unq rq d' D') \<and>
    same_public (snd (provider_answer route V unq rq d D)) (snd (provider_answer route V unq rq d' D'))"
  using provider_answer_alike[OF assms] unfolding alike_def .

text \<open>
  From any state of the kernel session in which a shutdown was requested, at most four steps of the main coroutine follow, and as long as it has not stopped it can make one; a heartbeat or another request to shut down leaves it where it is.
\<close>

theorem kernel_session_stops:
  assumes "session_run cfg S es S'" "ks_shutdown S"
  shows "length (filter (\<lambda>e. \<not> waits_only e) es) \<le> 4 \<and>
    (ks_phase S' = Stopped \<or> (\<exists>e S''. session_step cfg S' e S'' \<and> \<not> waits_only e \<and> phase_rank (ks_phase S'') < phase_rank (ks_phase S')))"
proof -
  note b = stops_within[OF assms]
  have "length (filter (\<lambda>e. \<not> waits_only e) es) \<le> 4" using b phase_rank_bound[of "ks_phase S"] by linarith
  moreover have "\<exists>e S''. session_step cfg S' e S'' \<and> \<not> waits_only e \<and> phase_rank (ks_phase S'') < phase_rank (ks_phase S')"
    if "ks_phase S' \<noteq> Stopped"
    using never_stuck[OF that, of cfg] stopping_step(2)[of cfg S'] b by metis
  ultimately show ?thesis by blast
qed

text \<open>
  Whatever was added, deleted and searched: the row found under a collection and an id is the last one added under them and not deleted since. Collections whose names differ only in characters that the name of a table cannot hold, or in the case of ASCII letters, are one collection.
\<close>

theorem vector_store_refines:
  "stored_row (fold (sqlite_step sqr) ps []) = fold (spec_op table_name) ps (\<lambda>_. None) \<and>
    vec_tables_ok (fold (sqlite_step sqr) ps [])"
proof -
  have ok: "vec_tables_ok []" by (simp add: vec_tables_ok_def)
  have "stored_row [] = (\<lambda>_. None)" by (simp add: stored_row_def fun_eq_iff)
  then show ?thesis using sqlite_rows.run_refines[OF ok, of sqr ps] sqlite_rows.run_good[OF ok, of sqr ps] by simp
qed

text \<open>
  A search with a query that is not the zero vector gives at most the asked number of rows, each once and with falling similarity. Every row given is stored in the collection, has the length of the query and is not zero; every such row that is not given is no more similar than any that is, and none is left out as long as there is room.
\<close>

theorem vector_search_best:
  assumes "norm_of sqr q \<noteq> 0" "0 \<le> n" "T = fold (sqlite_step sqr) ps []" "hits = fst (search sqr c q n T)"
  shows "length hits \<le> nat n \<and> sorted_wrt (\<lambda>x y. ht_score y \<le> ht_score x) hits \<and> distinct (map ht_id hits) \<and>
    (\<forall>h \<in> set hits. \<exists>v. stored_row T (table_name c, ht_id h) = Some (v, ht_meta h) \<and> candidate sqr q v \<and> ht_score h = similarity sqr q v) \<and>
    (\<forall>i v m. stored_row T (table_name c, i) = Some (v, m) \<longrightarrow> candidate sqr q v \<longrightarrow> i \<notin> ht_id ` set hits \<longrightarrow>
       length hits = nat n \<and> (\<forall>h \<in> set hits. similarity sqr q v \<le> ht_score h))"
proof -
  have ok: "vec_tables_ok T" unfolding assms(3) by (rule sqlite_rows.run_good) (simp add: vec_tables_ok_def)
  let ?A = "all_hits sqr c q T"
  have h: "hits = take (nat n) ?A" unfolding assms(4) by (rule search_hits[OF assms(1,2)])
  have missing: "length hits = nat n \<and> (\<forall>h \<in> set hits. similarity sqr q v \<le> ht_score h)"
    if "stored_row T (table_name c, i) = Some (v, m)" "candidate sqr q v" "i \<notin> ht_id ` set hits" for i v m
  proof -
    let ?x = "\<lparr>ht_id = i, ht_score = similarity sqr q v, ht_meta = m\<rparr>"
    have x: "?x \<in> set ?A" "?x \<notin> set hits" using all_hits_iff[OF ok] that by force+
    then have "length hits = nat n" unfolding h by (cases "nat n \<le> length ?A") simp_all
    then show ?thesis using take_best[OF all_hits_sorted, of ?x] x unfolding h by force
  qed
  have "length hits \<le> nat n" "sorted_wrt (\<lambda>x y. ht_score y \<le> ht_score x) hits" "distinct (map ht_id hits)"
    unfolding h using all_hits_sorted all_hits_ids[OF ok] by (simp_all add: sorted_wrt_take flip: take_map)
  moreover have "\<forall>h \<in> set hits. \<exists>v. stored_row T (table_name c, ht_id h) = Some (v, ht_meta h) \<and> candidate sqr q v \<and> ht_score h = similarity sqr q v"
    unfolding h using all_hits_iff[OF ok] by (blast dest: in_set_takeD)
  ultimately show ?thesis using missing by blast
qed

text \<open>
  Whatever the kernel answers: after any request to the workload routes the cache holds each record under its own id. On a running event loop the list and the logs are always answered, empty when the kernel is not connected or raises; without a kernel every other call is refused and changes nothing. A removed workload is answered as removed and forgotten even when the kernel did not stop it.
\<close>

theorem workloads_answered:
  assumes "records_ok S"
  shows "records_ok (snd (workload_answer route unq rq body S)) \<and>
    (wa_loop S \<longrightarrow> is_Inr (fst (list_workloads S)) \<and> is_Inr (fst (get_workload_logs i S))) \<and>
    (wa_loop S \<and> wa_stub S = None \<longrightarrow> get_workload i S = (Inl not_connected, S) \<and> start_workload i S = (Inl not_connected, S) \<and>
       stop_workload i S = (Inl not_connected, S) \<and> create_workload d S = (Inl not_connected, S) \<and> list_workloads S = (Inr (JList []), S)) \<and>
    (rq_method rq = ''DELETE'' \<and> unquoted unq rq 3 = Inr i \<longrightarrow>
       fst (handle_workload unq rq body S) = Inr (200, JObj [(''ok'', JBool True), (''workloadId'', JStr i)]) \<and>
       \<not> dict_has (wa_cache (snd (handle_workload unq rq body S))) i)"
  using workload_answer_ok[OF assms] lists_answer[of S i] calls_need_kernel[of S] removed_forgotten[of i S]
  by (auto simp: handle_workload_def)

text \<open>
  In any order of openings, closings, shutdowns and page loads: closing the window starts the shutdown of the control plane at most once; the number of requests is counted exactly; and a window that is to stay hidden until it is asked for is not reported open before.
\<close>

theorem window_quits_once:
  "quits (fst (window_run es (new_window hidden))) \<le> 1 \<and>
    wn_requests (wi_snap (snd (window_run es (new_window hidden)))) = opens es \<and>
    (hidden \<and> opens es = 0 \<longrightarrow> \<not> wn_open (wi_snap (snd (window_run es (new_window hidden)))))"
  using run_quits[of es "new_window hidden"] run_requests[of es "new_window hidden"] hidden_run[of "new_window hidden" es]
  by (auto simp: new_window_def split: if_splits)

text \<open>
  The text that is logged for an address does not depend on what stands between a colon and the next at sign: two addresses that differ only in a password without at sign are logged alike.
\<close>

theorem password_not_logged:
  assumes "CHR ''@'' \<notin> set p" "p \<noteq> []" "CHR ''@'' \<notin> set q" "q \<noteq> []"
  shows "redact_url (u @ CHR '':'' # p @ CHR ''@'' # host) = redact_url (u @ CHR '':'' # q @ CHR ''@'' # host)"
  by (rule redact_same[OF assms])

text \<open>
  The answer made from a shape has its fields, all the way down, one item for a list, and no null. The text that is taken for a shape ends at its first closing brace: of an object inside an object it is only the beginning.
\<close>

theorem mock_answers_in_shape:
  "fits n shape (materialize_mock_json_shape shape name) \<and>
    (\<forall>t. first_match guidance_at prompt = Some t \<longrightarrow> (\<exists>u. t = u @ ''}'' \<and> CHR ''}'' \<notin> set u))"
  using materialize_fits guidance_flat by blast

text \<open>
  What the cron parser accepts is within range: every field of the schedule is a non-empty set of minutes 0 to 59, hours 0 to 23, days 1 to 31, months 1 to 12 and weekdays 0 to 6.
\<close>

theorem cron_fields_in_range:
  assumes "cron_parse e = Inr s"
  shows "minutes s \<noteq> {} \<and> minutes s \<subseteq> {0..59} \<and> hours s \<noteq> {} \<and> hours s \<subseteq> {0..23} \<and>
    days_of_month s \<noteq> {} \<and> days_of_month s \<subseteq> {1..31} \<and> months s \<noteq> {} \<and> months s \<subseteq> {1..12} \<and>
    days_of_week s \<noteq> {} \<and> days_of_week s \<subseteq> {0..6}"
  using cron_parse_ok[OF assms]
  by (simp add: schedule_ok_def Cron.fields_def field_specs_def field_ok_def spec_def)

text \<open>
  The time computed for the next run is the earliest matching minute at or after the moment asked for; when there is none, no minute of the 366 days scanned matches.
\<close>

theorem next_run_earliest:
  assumes "(next_run_at s t :: string sched_error + string option) = Inr res"
  shows "case res of
      Some txt \<Rightarrow> \<exists>k t'. k < next_run_scan_minutes \<and> plus_minutes k (truncate_minute t) = Some t' \<and>
        txt = iso_text t' \<and> matches s t' \<and>
        (\<forall>j < k. \<exists>u. plus_minutes j (truncate_minute t) = Some u \<and> \<not> matches s u)
    | None \<Rightarrow> \<forall>k < next_run_scan_minutes. \<exists>u. plus_minutes k (truncate_minute t) = Some u \<and> \<not> matches s u"
proof -
  obtain r where r: "(next_run_scan next_run_scan_minutes s (truncate_minute t) :: string sched_error + moment option) = Inr r"
    "res = map_option iso_text r" using assms by (auto simp: next_run_at_def rbind_Inr_iff)
  show ?thesis
  proof (cases r)
    case None
    have "\<exists>u. plus_minutes k (truncate_minute t) = Some u \<and> \<not> matches s u" if "k < next_run_scan_minutes" for k
      by (rule next_run_scan_none[OF r(1)[unfolded None] that])
    then show ?thesis using r(2) None by simp
  next
    case (Some t')
    then show ?thesis using next_run_scan_found[OF r(1)[unfolded Some]] r(2) by auto
  qed
qed

text \<open>
  A step run by an agent is reported as completed only when the step names an agent, the orchestrator accepted the invocation and the invocation in its last state has succeeded; the output of the step is the output of the invocation, and the invocation was given the output of every dependency.
\<close>

theorem agent_step_completion:
  assumes "run_agent_step fl k agents n inputs w = (Outcome res, w')" "res_state res = SCompleted" "dict_ok inputs"
  shows "\<exists>port a ivk ivk' w1 d. agents = Some port \<and> agent_reference fl (config n) = Some a \<and>
    ap_invoke port a (build_invocation_payload n inputs) w = (Invoked (JObj ivk), w1) \<and>
    await_invocation k port ivk w1 = (Inr ivk', w') \<and> obj_get ivk' ''status'' = JStr ''succeeded'' \<and>
    res_output res = Some (invocation_output ivk') \<and>
    obj_get (build_invocation_payload n inputs) ''inputs'' = JObj d \<and>
    (\<forall>dep v. map_of inputs dep = Some v \<longrightarrow> map_of d dep = Some v)"
proof -
  obtain d where d: "obj_get (build_invocation_payload n inputs) ''inputs'' = JObj d"
    by (cases "obj_get (config n) ''overrides''") (simp_all add: build_invocation_payload_def obj_get_def[of "_ # _"] Let_def)
  have m: "map_of d dep = Some v" if "map_of inputs dep = Some v" for dep v
    using payload_inputs[OF assms(3) that, of n] d by simp
  obtain port a v ivk ivk' w1 where o: "agents = Some port" "agent_reference fl (config n) = Some a"
    "ap_invoke port a (build_invocation_payload n inputs) w = (Invoked (JObj ivk), w1)"
    "await_invocation k port ivk w1 = (Inr ivk', w')" "obj_get ivk' ''status'' = JStr ''succeeded''"
    "res_output res = Some (invocation_output ivk')"
    by (rule run_agent_step_completed[OF assms(1,2)])
  show ?thesis
    by (intro exI[of _ port] exI[of _ a] exI[of _ ivk] exI[of _ ivk'] exI[of _ w1] exI[of _ d] conjI allI impI)
      (fact o d | erule m)+
qed

text \<open>
  A checkpoint recorded before a mutation can be restored: restoring it by its id hands the kernel the workspace and the very reference the kernel gave when the snapshot was taken, whatever was recorded in between is older, and a snapshot that failed records nothing.
\<close>

theorem checkpoint_restores_its_snapshot:
  assumes "snapshot_before_mutation port run ws i now k rows = (res, k', rows')" "i \<noteq> []"
  shows "case res of
      Inl e \<Rightarrow> rows' = rows
    | Inr c \<Rightarrow> kp_snapshot port ws k = (Inr (JStr (ck_ref c)), k') \<and> rows' = rows @ [c] \<and>
        (\<forall>k''. restore_checkpoint port i k'' rows' =
          (case kp_restore port ws (ck_ref c) k'' of
             (Inl e, k3) \<Rightarrow> (Inl (Ck_restore_failed i ws e), k3) | (Inr _, k3) \<Rightarrow> (Inr c, k3)))"
proof (cases res)
  case (Inr c)
  then show ?thesis
    using snapshot_cases[OF assms(1)] restore_after_snapshot[OF assms(1)[unfolded Inr] assms(2)] by auto
qed (use snapshot_cases[OF assms(1)] in auto)

text \<open>
  The providers offered for a call are exactly the available ones of the fallback order, or of the health table when there is none, each once; under a known preference they are sorted by its measure and providers of equal measure keep their order, under any other they keep the configured order.
\<close>

theorem provider_order:
  "set (select pol h) = {p \<in> set (select_universe pol h). provider_available h p} \<and> distinct (select pol h) \<and>
   (if preference pol \<in> valid_preferences
    then sorted (map (\<lambda>p. preference_key (preference pol) (metrics_for h p)) (select pol h)) \<and>
      (\<forall>k. filter (\<lambda>p. preference_key (preference pol) (metrics_for h p) = k) (select pol h) =
           filter (\<lambda>p. preference_key (preference pol) (metrics_for h p) = k)
             (filter (provider_available h) (dedup {} (select_universe pol h))))
    else select pol h = filter (provider_available h) (dedup {} (select_universe pol h)))"
  using select_set[of pol h] select_distinct[of pol h] select_sorted[of pol h] select_stable[of pol h]
  by (simp add: select_def)

text \<open>
  The loop that rotates over the grants of a pool always ends. A grant that is handed out stands for a configured reference that is not quarantined, quarantining it takes exactly that reference away, and the next acquisition uses another reference unless every other one is quarantined.
\<close>

theorem pool_rotation:
  assumes "acquire_grant src p target st = (Inr (Some g), st')"
  shows "(\<exists>y. pool_attempt src pc p req sc gw = Some y) \<and>
    (\<exists>i < length (pool_refs st p). pool_refs st p ! i \<notin> banned st p \<and> grant_ref st' p g = Some (pool_refs st p ! i) \<and>
      usable_refs (quarantine p g why st') p = usable_refs st p - {pool_refs st p ! i} \<and>
      (\<forall>g2 st''. acquire_grant src p target st' = (Inr (Some g2), st'') \<longrightarrow>
        grant_ref st'' p g2 = Some (pool_refs st p ! i) \<longrightarrow>
        distinct (pool_refs st p) \<longrightarrow> (\<forall>k < length (pool_refs st p). k \<noteq> i \<longrightarrow> pool_refs st p ! k \<in> banned st p)))"
proof
  show "\<exists>y. pool_attempt src pc p req sc gw = Some y" by (rule attempt_ends)
  obtain i where i: "next_ref (pool_refs st p) (banned st p) (dict_get_or (ps_cursor st) p 0) = Some i"
    "map_of (ps_refs st') (grant_id g) = Some (p, pool_refs st p ! i)" using acquire_Some[OF assms] by blast
  have same: "pool_refs st' p = pool_refs st p" "banned st' p = banned st p"
    using acquire_keeps[OF assms] by (simp_all add: pool_refs_def banned_def)
  have gr: "grant_ref st' p g = Some (pool_refs st p ! i)" using i(2) by (simp add: grant_ref_def)
  show "\<exists>i < length (pool_refs st p). pool_refs st p ! i \<notin> banned st p \<and> grant_ref st' p g = Some (pool_refs st p ! i) \<and>
      usable_refs (quarantine p g why st') p = usable_refs st p - {pool_refs st p ! i} \<and>
      (\<forall>g2 st''. acquire_grant src p target st' = (Inr (Some g2), st'') \<longrightarrow>
        grant_ref st'' p g2 = Some (pool_refs st p ! i) \<longrightarrow>
        distinct (pool_refs st p) \<longrightarrow> (\<forall>k < length (pool_refs st p). k \<noteq> i \<longrightarrow> pool_refs st p ! k \<in> banned st p))"
  proof (intro exI conjI allI impI)
    show "i < length (pool_refs st p)" "pool_refs st p ! i \<notin> banned st p" using next_ref_Some[OF i(1)] by simp_all
    show "grant_ref st' p g = Some (pool_refs st p ! i)" by (rule gr)
    show "usable_refs (quarantine p g why st') p = usable_refs st p - {pool_refs st p ! i}"
      using quarantine_usable[OF gr] usable_keeps[OF assms] by simp
    fix g2 st'' k assume a2: "acquire_grant src p target st' = (Inr (Some g2), st'')"
      and g2: "grant_ref st'' p g2 = Some (pool_refs st p ! i)" and d: "distinct (pool_refs st p)"
      and k: "k < length (pool_refs st p)" "k \<noteq> i"
    obtain i' j where r: "i' < length (pool_refs st p)" "j < length (pool_refs st p)"
      "map_of (ps_refs st') (grant_id g) = Some (p, pool_refs st p ! i')"
      "map_of (ps_refs st'') (grant_id g2) = Some (p, pool_refs st p ! j)"
      "i' = j \<longrightarrow> (\<forall>k < length (pool_refs st p). k \<noteq> i' \<longrightarrow> pool_refs st p ! k \<in> banned st' p)"
      using rotation[OF assms same(1) refl a2] by blast
    have "i' = i" using r(1,3) i(2) d next_ref_Some(1)[OF i(1)] by (simp add: nth_eq_iff_index_eq)
    moreover have "j = i" using r(2,4) g2 d next_ref_Some(1)[OF i(1)] by (simp add: grant_ref_def nth_eq_iff_index_eq)
    ultimately show "pool_refs st p ! k \<in> banned st p" using r(5) k same(2) by simp
  qed
qed

text \<open>
  Calls that are checked against an estimate and charged no more than it, in any number, never take the usage of a run past its budget; the limits themselves are never changed.
\<close>

theorem usage_within_budget:
  assumes "fst (load_budget None sc st) = Inr (Some b)" "within_budget b"
    and "\<forall>(et, ec, t, c) \<in> set cs. t \<le> et \<and> c \<le> ec" "checked_calls cs sc st = (sc', st')"
  shows "\<exists>b'. fst (load_budget None sc' st') = Inr (Some b') \<and> max_tokens b' = max_tokens b \<and> max_cost b' = max_cost b \<and>
    (\<forall>m. max_tokens b = Some m \<longrightarrow> used_tokens b' \<le> m) \<and> (\<forall>m. max_cost b = Some m \<longrightarrow> used_cost b' \<le> m)"
  using checked_calls_within[OF assms] unfolding within_budget_def by metis

text \<open>
  A batch of subagents is never stuck: as long as one has not ended some thread can move, whatever its runner does, and after at most eight steps for each of them all have ended. Without a database every specification then has its result in the list returned, at its own place.
\<close>

theorem delegation_finishes:
  assumes "run_schedule xs (new_manager limit rows fl, spawn_threads specs) = Some (M, ts)"
  shows "length xs \<le> 8 * length specs \<and> map fst ts = specs \<and>
    ((\<exists>i < length ts. \<forall>out. \<exists>W. thread_step i out (M, ts) = Some W) \<or>
     (\<forall>(sp, ph) \<in> set ts. (\<exists>r. ph = Returned r) \<or> rows \<noteq> None \<and> (\<exists>r e. ph = Lost r e)) \<and>
     (rows = None \<longrightarrow> length (spawn_results ts) = length specs \<and>
        (\<forall>i < length specs. ts ! i = (specs ! i, Returned (spawn_results ts ! i)))))"
proof -
  have specs: "map fst ts = specs"
    using schedule_invariant[OF assms, where P = "\<lambda>W. map fst (snd W) = specs"]
    by (simp add: spawn_threads_def comp_def thread_step_specs)
  have len: "length xs \<le> 8 * length specs" using schedule_length[OF assms] by (simp add: spawn_to_do)
  have ok: "sub_ok (M, ts)" by (rule sub_reach_ok[OF schedule_reach[OF assms]])
  then have tok: "list_all thread_ok ts" by (simp add: sub_ok_def)
  show ?thesis
  proof (cases "\<forall>t \<in> set ts. left (snd t) = 0")
    case False
    then show ?thesis using some_thread_moves[OF ok] len specs by blast
  next
    case True
    have fin: "(\<exists>r. snd t = Returned r) \<or> (\<exists>r e. snd t = Lost r e)" if "t \<in> set ts" for t
      using True tok that by (cases "snd t") (force simp: list_all_iff thread_ok_def)+
    have nolost: "\<forall>t \<in> set ts. \<forall>r e. snd t \<noteq> Lost r e" if "rows = None"
      using schedule_unlosable assms that unfolding unlosable_def by fastforce
    have res: "length (spawn_results ts) = length specs \<and>
        (\<forall>i < length specs. ts ! i = (specs ! i, Returned (spawn_results ts ! i)))" if "rows = None"
    proof -
      note m = ended_results[OF True tok nolost[OF that]]
      have l: "length ts = length specs" using arg_cong[OF specs, of length] by simp
      then have k: "length (spawn_results ts) = length specs" using arg_cong[OF m, of length] by simp
      have "fst (ts ! i) = specs ! i \<and> snd (ts ! i) = Returned (spawn_results ts ! i)" if "i < length specs" for i
        using arg_cong[OF specs, of "\<lambda>x. x ! i"] arg_cong[OF m, of "\<lambda>x. x ! i"] that l k by simp
      then show ?thesis using k by (simp add: prod_eq_iff)
    qed
    have "\<forall>t \<in> set ts. (\<exists>r. snd t = Returned r) \<or> rows \<noteq> None \<and> (\<exists>r e. snd t = Lost r e)"
      using fin nolost by blast
    then have "\<forall>(sp, ph) \<in> set ts. (\<exists>r. ph = Returned r) \<or> rows \<noteq> None \<and> (\<exists>r e. ph = Lost r e)"
      by (simp add: split_beta)
    then show ?thesis using len specs res by blast
  qed
qed

end
