(* ===== verification/Spec2Isabelle.thy ===== *)
theory Spec2Isabelle
  imports Demo_Parts Agent_Step Demo_Gateway Demo_Subagents Context Demo_Inv Http Demo_Infra Demo_Server Mock_Lm Further_Facts
begin

text \<open>
  A verification library for the Python control plane of the repository (src/control-plane): the
  part that plans workflows, runs their steps, asks language models and tools, and answers the
  requests of the window. File names below are under src/control-plane.

  The program. A workflow definition is an object that the planner (core/planner.py) checks and
  compiles into a graph of steps (core/dag.py). The executor (core/dag_executor.py) keeps a run and its
  steps in the database (core/database.py), lets pool threads run the steps whose dependencies are
  complete, pauses at approval steps (core/approval_manager.py), and takes requests to cancel, retry and
  resume. The scheduler (core/scheduler.py, core/cron_parser.py) starts runs by the clock. A step is run by
  an agent: the orchestrator (core/agent_orchestrator.py, core/agent_invoker.py) queues an invocation and a
  thread asks a model through the gateway (core/inference_gateway.py), which routes
  (core/provider_router.py), counts budgets, delays by rate, rotates credentials and retries. Agents have
  tools (core/tool_registry.py), hooks (core/hook_manager.py), a bounded memory (core/memory_store.py),
  workspace checkpoints (core/checkpoint_manager.py), subagents (core/subagent_manager.py) and inline
  references (core/context_resolver.py). Every component posts events (core/event_router.py). The HTTP shell
  (cp/http_handler.py, cp/handlers) routes requests to all of this.

  How it is modelled. A class is a record of its state, a method a function from the state to a
  result and the next state, an exception the left of a sum. A dictionary, and a table of the
  database, is an association list in insertion order with distinct keys (Prelude); text is a
  list of the first 256 code points; a JSON value is the datatype of Json, with floats as exact
  rationals. Threads are explicit: the executor, the subagent manager and the rate limiter are step
  relations in which any thread may move next, and each step is the code between two points where
  another thread can run. Code that is not in the repository (the kernel, model providers, SQL,
  the clock, fresh identifiers) is an argument.

  The theories, by component.
    Prelude, Json, Py_Text, Py_Num: results that may raise, dictionaries, Python text, JSON values,
      repr, int and float conversions.
    Dag, Dag_Layers: the graph, its cycle search (recursion bounded by fuel, with the proof
      that the number of nodes is enough), its layers and dependents.
    Orch_Types, Serializer, Planner, Plan_Exec: states, budgets and scopes; the canonical form of a
      definition; validation and compilation; a planned definition is stored and run as the same graph.
    Cron, Clock, Scheduler, Sched_Exec: cron fields and their text, the calendar by the minute, due
      tasks, the trigger loop over the executor (locale run_starter, interpreted by the executor's
      start_run).
    Events: redaction, numbered history, the kernel events (locale run_log).
    Workflow_DB, Approvals, Executor, Agent_Step: the tables and statements, the operations of the
      executor and the approval manager, the runner of agent steps. Exec_Steps is the step
      relation; Run_View abstracts one run to the states of its steps and the occupied slots, and
      Exec_Inv, Exec_Safety, Exec_Reach, Reachable prove that every operation refines a change of
      that view, so the invariant holds in every reachable state. Exec_Facts gives the effect of each
      operation, Exec_Term the measure that bounds the work of the pool.
    Memory, Checkpoints, Provider_Router, Tools, Hooks: one theory per component.
    Gateway_Budget, Gateway_Rate, Gateway_Pool, Gateway, Gateway_Facts: budgets, the sliding window
      (also under any interleaving), credential rotation (locale grant_pool), the cache, retries
      and fallback of one call. The rate limiter's loop takes fuel; two passes are enough when the
      sleep lasts as long as it was asked to.
    Subagents: delegation as a step relation over threads; eight steps end a thread.
    Context: the scan for inline references and their substitution.
    Agents, Agent_Store, Invocations, Inv_Facts: the normal form of an agent, the tables of the
      orchestrator, the thread of an invocation.
    Http: routing, dispatch, bodies, static paths and error replies.
    Runtime_Api: the joined state of the components behind the API (record runtime, the attributes that
      cp/orchestration.py sets up) and the accessors of OrchestrationMixin and ControlPlaneRuntime that the
      handlers call. Api_Handlers: the handlers of cp/handlers and serve, which takes one request through
      the router to its reply. Exec_Graph: stored definitions stay canonical and acyclic. Api_Facts:
      every handler, executor step, tick and restart keeps the tables well formed (relation
      runtime_step). Api_Answers: what a request to each route is answered.
    Kernel_Adapter, Code_Executor, Mcp_Client, Skills: the calls to the kernel and their messages, scripts in
      a sandbox against the clock, the tool servers, the documents of skills.
    Providers: core/provider_service.py with its routes: settings, session secrets and the test of a provider.
      Two states that differ in secrets only stay so under every route but the test.
    Ws_Frames, Ws_Broadcast: the frames and the handshake of cp/ws_server.py; the queues, writers and readers
      of its connections and the fan-out as a step relation over threads.
    Kernel_Session: the loop of cp/runtime.py that registers with the kernel, as a step relation.
    Vector_Store: the SQLite store of core/vector_store.py (locale vector_rows, a map from collection and id
      to a row, interpreted by the store), the Pinecone adapter and the choice of a store.
    Workloads, Window, Views, Mock_Lm: the workload routes over the kernel; the window manager; the
      configuration, the choice of a database, the snapshots and the routes of settings and the system; the
      stand-in for a language model.
    Server: every route of the table over the joined state of all components (record server), with the
      providers that the agents see at the time of a request; relation server_step for requests, threads and restarts.
    Demo theories: concrete runs, used as witnesses. Further_Facts: theorems on single components.

  The properties. Runs: dependencies before release, the concurrency bound, final states,
  outcomes, one thread per step, progress and termination of the scheduler, retry, cancellation,
  recovery after a restart, approvals, the numbering of the history. Planning and time: soundness
  of a planned graph, exactness of the cycle search and the layers, the cron round trip, the
  next run, the tasks a tick starts. Model calls: the order and number of attempts, rotation, budget and rate.
  Agents and tools: the scope gate, guardrails, memory, checkpoints, delegation, references, the form of
  a saved agent, the end of an invocation. Surroundings: the outcome of a script, the tools and grants of a tool server, the round trip of a skill document and of a
  frame, the form of a provider and the secrecy of its session secret, the order of pushed events, the kernel
  session. Requests: which route answers, what an error shows, what a posted
  workflow or run leaves in the tables, and that no request breaks what the components rely on.

  Bounds. Python's recursion limit, memory and floating point rounding are not modelled (the cycle
  search takes its recursion limit as an argument). Text beyond code point 255 is not modelled. A value that a
  column holds as JSON text is kept as the value, so the order of its keys is not. A request is one step: the
  executor's threads move between requests, and the first scheduling pass of a new run, which the code makes
  in the thread of the request, is part of it. The agent templates, unquoting of
  a path and the conversions of floats to text are arguments (record api_env).

  Not modelled: the generated gRPC stubs, the listening sockets of the HTTP and WebSocket servers, SQL text and
  drivers, the stores that send a similarity query to PostgreSQL or DuckDB, third-party packages, and the start
  of the process, which only marshal data or call code outside the repository.
\<close>


section \<open>Workflow runs\<close>



text \<open>
  C2. In every reachable state the steps of a run that are ready or running are at most its concurrency limit; the limit itself is at least one.
\<close>

theorem concurrency_bound:
  assumes "reachable cfg u S" "uuid_ok u" "load_run (ex_db S) r = Some v"
  shows "int (card {s. step_st (ex_db S) r s \<in> {Some SReady, Some SRunning}}) \<le> run_limit cfg v \<and> 1 \<le> run_limit cfg v"
proof -
  have "{s. step_st (ex_db S) r s \<in> {Some SReady, Some SRunning}} = occ_set (view cfg S r)"
    by (auto simp: occ_set_def occupying_def)
  then show ?thesis
    using view_okD(4)[OF exec_okD(6)[OF reachable_ok[OF assms(1,2)], of r]] view_limit[OF assms(3), of cfg]
    by (simp add: bound_ok_def run_limit_def)
qed

theorem concurrency_bound_witness:
  "int (card {s. step_st (ex_db demo_second) ''r'' s \<in> {Some SReady, Some SRunning}}) \<le> 1"
  using concurrency_bound[OF reach_second demo_uuid_ok, of "''r''" "demo_run RRunning (Some []) None"]
  by (simp add: demo_second_def run_limit_def demo_cfg_def)



text \<open>
  C4. In every reachable state a run whose state is completed, failed or cancelled is driven by nobody and has only terminal steps; a completed one has no failed step and a failed one has at least one.
\<close>

theorem outcome_matches_steps:
  assumes "reachable cfg u S" "uuid_ok u" "run_st (ex_db S) r = Some rs" "rs \<in> {RCompleted, RFailed, RCancelled}"
  shows "ctx_of S r = None \<and>
    (\<forall>s st. step_st (ex_db S) r s = Some st \<longrightarrow> step_is_terminal st) \<and>
    (rs = RCompleted \<longrightarrow> (\<forall>s. step_st (ex_db S) r s \<noteq> Some SFailed)) \<and>
    (rs = RFailed \<longrightarrow> (\<exists>s. step_st (ex_db S) r s = Some SFailed))"
  using view_okD(5)[OF exec_okD(6)[OF reachable_ok[OF assms(1,2)], of r]] assms(3,4)
  by (auto simp: outcome_ok_def settled_def all_terminal_def)

theorem outcome_matches_steps_witness:
  "ctx_of demo_failed ''r'' = None \<and> (\<exists>s. step_st (ex_db demo_failed) ''r'' s = Some SFailed)"
proof -
  have "run_st (ex_db demo_failed) ''r'' = Some RFailed" by (simp add: demo_failed_def run_st_def)
  then show ?thesis using outcome_matches_steps[OF reach_failed demo_uuid_ok, of "''r''" RFailed] by simp
qed



text \<open>
  C6. A pass of the scheduler never leaves an acyclic run stuck: afterwards the run is finished and its context is gone, or some step is ready, running or waiting for a decision; and in the second case no pending step still depends on a failed, skipped or cancelled one.
\<close>

theorem scheduler_progress:
  assumes "reachable cfg u S" "uuid_ok u" "ctx_of S r = Some c" "acyclic (edge_rel (load_dag (ex_db S) r))"
  shows "(ctx_of (schedule_ready cfg r S) r = None \<and>
      run_st (ex_db (schedule_ready cfg r S)) r \<in> {Some RCompleted, Some RFailed, Some RCancelled}) \<or>
    (\<exists>t. step_st (ex_db (schedule_ready cfg r S)) r t \<in> {Some SReady, Some SRunning, Some SAwaiting_approval}) \<and>
    (\<forall>s p. step_st (ex_db (schedule_ready cfg r S)) r s = Some SPending \<longrightarrow>
       p \<in> predecessors (load_dag (ex_db S) r) s \<longrightarrow>
       step_st (ex_db (schedule_ready cfg r S)) r p \<notin> {Some SFailed, Some SSkipped, Some SCancelled})"
  using schedule_ready_result[OF reachable_ok[OF assms(1,2)] assms(3)] assms(4)
  unfolding no_blocked_def settled_def by blast

theorem scheduler_progress_witness:
  "ctx_of demo_executing ''r'' = Some (demo_ctx {}) \<and>
   ((ctx_of (schedule_ready demo_cfg ''r'' demo_executing) ''r'' = None \<and>
      run_st (ex_db (schedule_ready demo_cfg ''r'' demo_executing)) ''r'' \<in> {Some RCompleted, Some RFailed, Some RCancelled}) \<or>
    (\<exists>t. step_st (ex_db (schedule_ready demo_cfg ''r'' demo_executing)) ''r'' t \<in> {Some SReady, Some SRunning, Some SAwaiting_approval}))"
proof -
  have ac: "acyclic (edge_rel (load_dag (ex_db demo_executing) ''r''))"
    unfolding demo_executing_def demo_db_of by (rule demo_acyclic) simp_all
  have c: "ctx_of demo_executing ''r'' = Some (demo_ctx {})" by (simp add: demo_executing_def)
  show ?thesis using scheduler_progress[OF reach_executing demo_uuid_ok c ac] c by blast
qed

text \<open>
  C7. The pool threads alone come to rest: from a reachable state the number of statements they can execute, in any interleaving and with any results of the steps, is at most a number read off the pending rows and the open tasks.
\<close>

theorem pool_work_bounded:
  assumes "reachable cfg u S" "uuid_ok u" "(pool_step cfg ^^ n) S S'"
  shows "n \<le> 4 * card {(q, t). step_st (ex_db S) q t = Some SPending} + sum_list (map task_weight (ex_tasks S))"
  using pool_steps_bounded[OF assms(3,1,2)] by (simp add: work_left_def pending_rows_def tasks_weight_def)

theorem pool_work_bounded_witness:
  "1 \<le> 4 * card {(q, t). step_st (ex_db demo_half) q t = Some SPending} + sum_list (map task_weight (ex_tasks demo_half))"
proof -
  have "pool_step demo_cfg demo_half (schedule_ready demo_cfg ''r'' (take_task (Reschedule ''r'') demo_half))"
    by (rule pool_schedule) (simp add: demo_half_def)
  then have "(pool_step demo_cfg ^^ 1) demo_half (schedule_ready demo_cfg ''r'' (take_task (Reschedule ''r'') demo_half))"
    unfolding relpowp_1 .
  then show ?thesis by (rule pool_work_bounded[OF reach_half demo_uuid_ok])
qed

text \<open>
  C8. A retry is accepted only for a failed run; it sets exactly the failed steps and everything that depends on one back to pending, leaves every other step of every run as it was, and takes the run up again.
\<close>

theorem retry_failed_closure:
  assumes "reachable cfg u S" "uuid_ok u" "retry_run cfg r S = Inr (st, S')"
  shows "run_st (ex_db S) r = Some RFailed \<and> st = RRunning \<and> ctx_of S' r \<noteq> None \<and>
    (\<forall>q t. step_st (ex_db S') q t =
      (if q = r \<and> step_st (ex_db S) q t \<noteq> None \<and>
          (\<exists>f. step_st (ex_db S) r f = Some SFailed \<and> (t = f \<or> (f, t) \<in> (edge_rel (load_dag (ex_db S) r))\<^sup>+))
       then Some SPending else step_st (ex_db S) q t))"
proof -
  note ok = reachable_ok[OF assms(1,2)]
  show ?thesis
    using retry_states(1,2,4)[OF ok assms(3)] retry_states(6)[OF ok assms(3)] by (auto simp: error_set_def)
qed

theorem retry_failed_closure_witness:
  "\<exists>S'. retry_run demo_cfg ''r'' demo_failed = Inr (RRunning, S') \<and>
     step_st (ex_db S') ''r'' ''a'' = Some SCompleted \<and> step_st (ex_db S') ''r'' ''b'' = Some SPending"
proof -
  obtain st S' where r: "retry_run demo_cfg ''r'' demo_failed = Inr (st, S')" using demo_retry by blast
  note t = retry_failed_closure[OF reach_failed demo_uuid_ok r]
  have "(''b'', ''a'') \<notin> (edge_rel (load_dag (ex_db demo_failed) ''r''))\<^sup>+"
  proof
    assume "(''b'', ''a'') \<in> (edge_rel (load_dag (ex_db demo_failed) ''r''))\<^sup>+"
    then obtain x where "(x, ''a'') \<in> edge_rel (load_dag (ex_db demo_failed) ''r'')" by (meson tranclD2)
    then show False by (simp add: demo_failed_def demo_predecessors)
  qed
  then have "step_st (ex_db S') ''r'' ''a'' = Some SCompleted" "step_st (ex_db S') ''r'' ''b'' = Some SPending"
    using t by (auto simp: demo_failed_def split: if_splits)
  then show ?thesis using t r by blast
qed

text \<open>
  C9. Cancelling a run that is not terminal records it as cancelled, removes its context, marks exactly the steps that were not terminal as cancelled and touches no other run.
\<close>

theorem cancel_closes_run:
  assumes "reachable cfg u S" "uuid_ok u" "run_st (ex_db S) r = Some rs" "\<not> run_is_terminal rs"
    and "cancel_run cfg r why S = Inr (st, S')"
  shows "st = RCancelled \<and> run_st (ex_db S') r = Some RCancelled \<and> ctx_of S' r = None \<and>
    (\<forall>q t. step_st (ex_db S') q t = (if q = r \<and> (\<exists>x. step_st (ex_db S) q t = Some x \<and> \<not> step_is_terminal x)
      then Some SCancelled else step_st (ex_db S) q t)) \<and>
    (\<forall>q. q \<noteq> r \<longrightarrow> run_st (ex_db S') q = run_st (ex_db S) q)"
  using cancel_states[OF reachable_ok[OF assms(1,2)] assms(5,3,4)] by blast

theorem cancel_closes_run_witness:
  "\<exists>S'. cancel_run demo_cfg ''r'' None demo_second = Inr (RCancelled, S') \<and>
     step_st (ex_db S') ''r'' ''a'' = Some SCompleted \<and> step_st (ex_db S') ''r'' ''b'' = Some SCancelled"
proof -
  have run: "run_st (ex_db demo_second) ''r'' = Some RRunning" by (simp add: demo_second_def run_st_def)
  obtain S' where S': "cancel_run demo_cfg ''r'' None demo_second = Inr (RCancelled, S')"
    by (auto simp: cancel_run_def demo_second_def)
  have "step_st (ex_db S') ''r'' s = (if \<exists>x. step_st (ex_db demo_second) ''r'' s = Some x \<and> \<not> step_is_terminal x
      then Some SCancelled else step_st (ex_db demo_second) ''r'' s)" for s
    using cancel_closes_run[OF reach_second demo_uuid_ok run _ S'] by simp
  then show ?thesis using S' by (simp add: demo_second_def)
qed

text \<open>
  C10. A new process takes up exactly the runs recorded as pending or running: their ready and running steps go back to pending and nothing else of them changes, and every other run is left as the tables have it.
\<close>

theorem restart_requeues:
  assumes "reachable cfg u S" "uuid_ok u"
  defines "S' \<equiv> snd (resume_pending_runs cfg (crash S))"
  shows "(if run_st (ex_db S) r \<in> {Some RPending, Some RRunning}
     then run_st (ex_db S') r = Some RRunning \<and> Reschedule r \<in> set (ex_tasks S') \<and>
       (\<forall>t. step_st (ex_db S') r t = (if step_st (ex_db S) r t \<in> {Some SRunning, Some SReady}
          then Some SPending else step_st (ex_db S) r t))
     else run_st (ex_db S') r = run_st (ex_db S) r \<and> ctx_of S' r = None \<and>
       (\<forall>t. step_st (ex_db S') r t = step_st (ex_db S) r t))"
  using restart_states[OF reachable_ok[OF assms(1,2)], of r] unfolding S'_def picked_up_def requeued_def by simp

theorem restart_requeues_witness:
  "step_st (ex_db (snd (resume_pending_runs demo_cfg (crash demo_second)))) ''r'' ''b'' = Some SPending"
  using restart_requeues[OF reach_second demo_uuid_ok, of "''r''"]
  by (simp add: step_st_def run_st_def demo_second_def)

text \<open>
  C11. In every reachable state the history of a run carries the sequence numbers 1, 2, 3, ... without gap or repetition, in the order in which the events were emitted.
\<close>

theorem history_numbered:
  assumes "reachable cfg u S" "uuid_ok u"
  shows "map ev_seq (history (db_events (ex_db S)) r) = [1 ..< Suc (length (history (db_events (ex_db S)) r))]"
  using exec_okD(3)[OF reachable_ok[OF assms]] history_log[of "db_events (ex_db S)" r]
  by (simp add: logs_def log_ok_def del: upt_Suc)

theorem history_numbered_witness:
  "map ev_seq (history (db_events (ex_db demo_failed)) ''r'') =
    [1 ..< Suc (length (history (db_events (ex_db demo_failed)) ''r''))]"
  by (rule history_numbered[OF reach_failed demo_uuid_ok])

section \<open>Planning\<close>



section \<open>Cron\<close>

text \<open>
  C13. Every schedule the parser can produce is read back from its own text.
\<close>

theorem cron_round_trip:
  assumes "cron_parse e = Inr s"
  shows "cron_parse (cron_format s) = Inr s"
  by (rule cron_parse_format[OF cron_parse_ok[OF assms]])

theorem cron_round_trip_witness:
  "cron_parse ''* * * * *'' = Inr \<lparr>minutes = {0..59}, hours = {0..23}, days_of_month = {1..31}, months = {1..12}, days_of_week = {0..6}\<rparr>
   \<and> cron_parse (cron_format \<lparr>minutes = {0..59}, hours = {0..23}, days_of_month = {1..31}, months = {1..12}, days_of_week = {0..6}\<rparr>) = Inr \<lparr>minutes = {0..59}, hours = {0..23}, days_of_month = {1..31}, months = {1..12}, days_of_week = {0..6}\<rparr>"
proof -
  let ?s = "\<lparr>minutes = {0..59}, hours = {0..23}, days_of_month = {1..31}, months = {1..12}, days_of_week = {0..6}\<rparr>"
  have ok: "schedule_ok ?s" by (simp add: schedule_ok_def Cron.fields_def field_specs_def spec_def field_ok_def)
  have "cron_format ?s = ''* * * * *''"
    by (simp add: cron_format_def Cron.fields_def field_specs_def spec_def format_field_def)
  then have "cron_parse ''* * * * *'' = Inr ?s" using cron_parse_format[OF ok] by metis
  then show ?thesis using cron_round_trip by blast
qed

section \<open>Graphs and planning\<close>

text \<open>
  C14. The search for a cycle answers none exactly when the dependency relation is acyclic; otherwise it returns a closed path along the dependencies.
\<close>

theorem cycle_search_exact:
  "case detect_cycle d of
     None \<Rightarrow> acyclic (edge_rel d)
   | Some cyc \<Rightarrow> \<not> acyclic (edge_rel d) \<and> 2 \<le> length cyc \<and> hd cyc = last cyc \<and>
       successively (\<lambda>a b. b \<in> predecessors d a) cyc"
  using detect_cycle_None[of d] detect_cycle_Some[of d] by (cases "detect_cycle d") (simp_all add: dep_cycle_def)

section \<open>The control plane behind its API\<close>

text \<open>
  C15. Whatever requests to any of the routes, steps of the executor, ticks of the scheduler, checkpoints, moves of the kernel and the window, and restarts do, in any order: the executor is in one of its reachable states, every stored workflow definition is canonical and acyclic, no run has a cyclic graph, the tables of the workflows, the schedules, the memory, the MCP servers, the checkpoints and the agents are well formed, the settings of the providers are of known kinds under different names with secrets in session mode only, and the cache of the workloads holds each record under its own id.
\<close>

theorem control_plane_sound:
  assumes "server_reachable E (initial_server T k H p) S" "uuid_ok (ae_uuid E)"
  shows "reachable (ae_cfg E) (ae_uuid E) (cp_exec (sv_api S)) \<and>
    list_all (\<lambda>(i, d). sound_definition d) (db_definitions (ex_db (cp_exec (sv_api S)))) \<and>
    acyclic (edge_rel (load_dag (ex_db (cp_exec (sv_api S))) r)) \<and> tables_ok E (sv_api S) \<and>
    providers_ok (sv_providers S) \<and> records_ok (sv_workloads S)"
  using server_invariant[OF assms initial_server_ok] by (auto simp: server_ok_def runtime_ok_def programs_sound_def list_all_iff)

theorem control_plane_sound_witness:
  "\<exists>i d. (i, d) \<in> set (db_definitions (ex_db (cp_exec demo_created))) \<and> sound_definition d"
proof -
  obtain S where S: "server_reachable demo_env (initial_server (new_registry False None) () demo_shell ()) S" "sv_api S = demo_created"
    using demo_server_reachable by blast
  have "list_all (\<lambda>(i, d). sound_definition d) (db_definitions (ex_db (cp_exec demo_created)))"
    using control_plane_sound[OF S(1)] demo_uuid_ok S(2) by simp
  moreover have "db_definitions (ex_db (cp_exec demo_created)) = [(''w'', demo_canonical)]"
    by (simp add: demo_created_def with_workflow_def save_definition_def demo_boot_def initial_runtime_def initial_exec_def)
  ultimately show ?thesis by simp
qed



text \<open>
  C17. A POST of a workflow definition is answered according to the planner. A definition it rejects gives status 400 with the first problem and leaves the state as it was. One it compiles and the serializer accepts gives status 201 with the canonical definition under the new id; the state differs only by that row, and reading the workflow back gives what was answered. One it compiles and the serializer refuses gives status 500 and changes nothing.
\<close>

theorem posted_workflow_answer:
  assumes "asks parse rq ''POST'' [''workflows''] d" "dict_ok (cp_meta R)" "\<not> dict_has (cp_meta R) (ae_id E)"
  shows "case build_dag (resolver_of R) (JObj d) of
      Inl e \<Rightarrow> serve parse fs site E others rq R = (Failed (handle_exception (Py (py_error.Value_error (ve_message e)))), R)
    | Inr g \<Rightarrow> (case canonicalize d of
        Inl e \<Rightarrow> serve parse fs site E others rq R = (Failed internal_error, R)
      | Inr c \<Rightarrow> (let w = created_view (ae_id E) c (db_now (ex_db (cp_exec R))); R' = with_workflow (ae_id E) c R in
          serve parse fs site E others rq R = (Written (201, JObj [(''workflow'', w)]), R') \<and>
          get_workflow (ae_id E) R' = Inr (Some w)))"
proof -
  have s: "serve parse fs site E others rq R =
      answered (commit 201 (Api_Handlers.under ''workflow'') (create_workflow E d R) R)"
    using asked_method[OF assms(1)]
    by (simp add: serve_asked[OF assms(1) argument_routes(1)] api_handler_of_def handle_workflows_def)
  show ?thesis
  proof (cases "build_dag (resolver_of R) (JObj d)")
    case (Inl e)
    then show ?thesis unfolding s create_workflow_cases[OF assms(2,3)] by (simp add: commit_def)
  next
    case g: (Inr g)
    show ?thesis
    proof (cases "canonicalize d")
      case (Inl e)
      then show ?thesis unfolding s create_workflow_cases[OF assms(2,3)]
        by (cases e) (simp add: g commit_def other_is_internal del: handle_exception.simps)
    next
      case (Inr c)
      then show ?thesis unfolding s create_workflow_cases[OF assms(2,3)]
        using created_workflow[OF assms(2,3) canonicalize_idem[OF Inr]]
        by (simp add: g commit_def under_def Let_def)
    qed
  qed
qed

theorem posted_workflow_answer_witness:
  "\<exists>w. serve (demo_parse demo_workflow) demo_static [] demo_env demo_none (demo_post ''/api/v1/workflows'') demo_boot =
     (Written (201, JObj [(''workflow'', w)]), demo_created) \<and> get_workflow ''w'' demo_created = Inr (Some w)"
proof -
  obtain g where "build_dag (resolver_of demo_boot) (JObj demo_workflow) = Inr g" using demo_workflow_builds by blast
  then show ?thesis
    using posted_workflow_answer[OF demo_asks(1), of demo_boot demo_env demo_workflow demo_static "[]" demo_none] demo_boot_ok(2,3)
    by (simp add: demo_canonicalize Let_def demo_created_def)
qed

text \<open>
  C18. A request to run a stored workflow is answered with status 202 and the row of a run that did not exist before; that row is the one in the table, names the definition and the limit that was asked for, and the graph of the run has exactly the steps of the definition and no cycle. A request to run a workflow that is not stored gives status 400 and changes nothing.
\<close>

theorem posted_run_answer:
  assumes "runtime_reachable E T k R" "uuid_ok (ae_uuid E)" "asks parse rq ''POST'' [''workflows'', i, ''runs''] body"
    and "limit_override body = Inr ovr" "i \<noteq> ''templates''"
  shows "case map_of (db_definitions (ex_db (cp_exec R))) (ae_unquote E i) of
      None \<Rightarrow> \<exists>e. serve parse fs site E others rq R = (Failed e, R) \<and> er_status e = 400
    | Some c \<Rightarrow> \<exists>r v g S. serve parse fs site E others rq R = (Written (202, JObj [(''run'', run_view_of r v)]), with_exec S R) \<and>
        load_run (ex_db (cp_exec R)) r = None \<and> load_run (ex_db S) r = Some v \<and> rr_definition v = ae_unquote E i \<and>
        rr_limit v = resolve_limit (ae_cfg E) c ovr \<and> dag_from_definition c = Some g \<and>
        nodes (load_dag (ex_db S) r) = nodes g \<and> acyclic (edge_rel g)"
proof -
  note ok = runtime_invariant[OF assms(2,1)]
  have s: "serve parse fs site E others rq R = answered (effect 202 (Api_Handlers.under ''run'') (start_workflow_run E (ae_unquote E i) body R))"
    using asked_method[OF assms(3)] asked_segment(1,2)[OF assms(3)]
    by (simp add: serve_asked[OF assms(3) run_route[OF assms(5)]] api_handler_of_def handle_workflow_action_def path_arg_def)
  show ?thesis
  proof (cases "map_of (db_definitions (ex_db (cp_exec R))) (ae_unquote E i)")
    case None
    then have "start_workflow_run E (ae_unquote E i) body R =
        (Inl (py_error.Value_error (''unknown workflow definition '' @ sq (ae_unquote E i))), R)"
      by (simp add: start_workflow_run_def load_definition_def)
    then show ?thesis unfolding s by (simp add: None effect_def error_reply_of_def)
  next
    case (Some c)
    have c: "sound_definition c" using ok map_of_SomeD[OF Some] by (auto simp: runtime_ok_def programs_sound_def)
    then obtain g where g: "dag_from_definition c = Some g" "acyclic (edge_rel g)" by (auto simp: sound_definition_def)
    have l: "load_definition (ae_unquote E i) (cp_exec R) = Inr c" using c by (simp add: load_definition_def Some sound_definition_def)
    obtain v S where r: "start_workflow_run E (ae_unquote E i) body R =
        (Inr (run_view_of (ae_uuid E (ex_fresh (cp_exec R))) v), with_exec S R)"
      "load_run (ex_db (cp_exec R)) (ae_uuid E (ex_fresh (cp_exec R))) = None"
      "load_run (ex_db S) (ae_uuid E (ex_fresh (cp_exec R))) = Some v" "rr_definition v = ae_unquote E i"
      "rr_limit v = resolve_limit (ae_cfg E) c ovr"
      "nodes (load_dag (ex_db S) (ae_uuid E (ex_fresh (cp_exec R)))) = nodes g"
      using start_workflow_run_cases[OF reachable_ok[OF _ assms(2)] assms(2) l g(1) assms(4)] ok unfolding runtime_ok_def by blast
    then show ?thesis unfolding s r(1) using g by (auto simp: Some effect_def under_def)
  qed
qed

theorem posted_run_answer_witness:
  "\<exists>r v g S. serve (demo_parse []) demo_static [] demo_env demo_none (demo_post ''/api/v1/workflows/w/runs'') demo_created =
     (Written (202, JObj [(''run'', run_view_of r v)]), with_exec S demo_created) \<and> load_run (ex_db S) r = Some v \<and>
     dag_from_definition demo_canonical = Some g \<and> nodes (load_dag (ex_db S) r) = nodes g"
proof -
  have l: "limit_override [] = Inr None" by (simp add: limit_override_def either_def obj_get_def)
  have "map_of (db_definitions (ex_db (cp_exec demo_created))) ''w'' = Some demo_canonical"
    by (simp add: demo_created_def with_workflow_def save_definition_def dict_simps)
  then show ?thesis
    using posted_run_answer[OF demo_created_reachable _ demo_asks(2) l, of demo_static "[]" demo_none] demo_uuid_ok by auto
qed

section \<open>Sandboxes, tool servers and skills\<close>

text \<open>
  C19. Once a script is dispatched and its log can be read to the end: if no reading of the clock, one before each line and one at the end, is past the deadline, the result holds the lines of the two streams in their order and the code of the last exit line, and nothing is torn down. Otherwise the first late reading decides: the workload is torn down once, and the result is a timeout with the lines before that reading and no exit code.
\<close>

theorem script_outcome:
  assumes "resolve_time_limit def rq = Inr lmt"
    "mg_dispatch M (build_spec rq rs lmt) (build_policy rs ts gs lmt) w = (Inr job, w1)" "job \<noteq> []"
    "mg_logs M job w1 = ((es, None), w2)"
  shows "execute M fl gen clk def rq rs ts gs w =
    (case late_at clk lmt (Suc (length es)) of
       None \<Rightarrow> (Inr \<lparr>xe_job = job, xe_stdout = str_join [CHR 0x0A] (lines_of fl ''stdout'' es),
                  xe_stderr = str_join [CHR 0x0A] (lines_of fl ''stderr'' es), xe_exit = exit_of fl es,
                  xe_timed_out = False, xe_error = None\<rparr>, w2)
     | Some k \<Rightarrow>
         (case mg_teardown M job w2 of
            (Inl e, w3) \<Rightarrow> (Inl e, w3)
          | (Inr _, w3) \<Rightarrow> (Inr \<lparr>xe_job = job, xe_stdout = str_join [CHR 0x0A] (lines_of fl ''stdout'' (take k es)),
                  xe_stderr = str_join [CHR 0x0A] (lines_of fl ''stderr'' (take k es)), xe_exit = None,
                  xe_timed_out = True, xe_error = Some (timeout_message gen lmt)\<rparr>, w3)))"
  using assms capture_cases[OF assms(4)]
  by (simp add: execute_def finished_result_def time_out_def timeout_result_def captured_from_def split: option.splits prod.splits sum.splits)

theorem script_outcome_witness:
  "execute demo_manager (\<lambda>q. []) (\<lambda>q. ''5'') (\<lambda>n. 0) 300 demo_script demo_script_scope [] [] 0 =
     (Inr \<lparr>xe_job = ''job'', xe_stdout = ''one'', xe_stderr = [], xe_exit = Some 0, xe_timed_out = False, xe_error = None\<rparr>, 0) \<and>
   execute demo_manager (\<lambda>q. []) (\<lambda>q. ''5'') of_nat 0 (demo_script\<lparr>sx_limit := Some 1\<rparr>) demo_script_scope [] [] 0 =
     (Inr \<lparr>xe_job = ''job'', xe_stdout = ''one'', xe_stderr = [], xe_exit = None, xe_timed_out = True,
        xe_error = Some (timeout_message (\<lambda>q. ''5'') 1)\<rparr>, 1)"
proof -
  let ?es = "[demo_entry ''stdout'' ''one'', demo_entry ''exit'' ''0'']"
  have l: "late_at (\<lambda>n. 0) 5 (Suc (length ?es)) = None" "late_at of_nat 1 (Suc (length ?es)) = Some 1"
    by (simp_all add: late_at_None late_at_Some)
  have t: "lines_of (\<lambda>q. []) ''stdout'' ?es = [''one'']" "lines_of (\<lambda>q. []) ''stderr'' ?es = []" "exit_of (\<lambda>q. []) ?es = Some 0"
    "lines_of (\<lambda>q. []) ''stdout'' (take 1 ?es) = [''one'']" "lines_of (\<lambda>q. []) ''stderr'' (take 1 ?es) = []"
    by code_simp+
  show ?thesis
    using script_outcome[of 300 demo_script 5 demo_manager demo_script_scope "[]" "[]" 0 "''job''" 0 ?es 0 "\<lambda>q. []" "\<lambda>q. ''5''" "\<lambda>n. 0"]
      script_outcome[of 0 "demo_script\<lparr>sx_limit := Some 1\<rparr>" 1 demo_manager demo_script_scope "[]" "[]" 0 "''job''" 0 ?es 0 "\<lambda>q. []" "\<lambda>q. ''5''" of_nat]
    by (simp add: l[simplified] t[simplified] demo_manager_def resolve_time_limit_def demo_script_def)
qed

text \<open>
  C20. The runtime wires the kernel adapter with the stub of one service. Whatever that service does: a request to roll back any checkpoint is answered as an internal error and changes nothing, a request for a secret grant fails without reaching the kernel, and a script runs the same way whatever toolsets and grants it is given.
\<close>

theorem wired_adapter:
  assumes "asks parse rq ''POST'' [''checkpoints'', x, ''rollback''] body" "ae_unquote E x \<noteq> []"
    "A = wire_execution_manager (workload_control_stub ex sp lg) rf" "cp_port R = Some (infra_port A)"
  shows "serve parse fs site E others rq R = (Failed internal_error, R) \<and>
    (\<exists>e. request_secret_grant A ref target k = (Inl e, k)) \<and>
    execute (infra_manager fl A) fl gen clk def srq rs toolsets grants k = execute (infra_manager fl A) fl gen clk def srq rs [] [] k"
proof (intro conjI)
  show "serve parse fs site E others rq R = (Failed internal_error, R)"
    using wired_rollback_request[OF assms(1,2)] assms(3,4) by (simp add: wired_port_def)
  show "\<exists>e. request_secret_grant A ref target k = (Inl e, k)"
    unfolding assms(3) by (rule workload_control_fails(3))
  show "execute (infra_manager fl A) fl gen clk def srq rs toolsets grants k = execute (infra_manager fl A) fl gen clk def srq rs [] [] k"
    by (rule execute_ignores_policy)
qed

theorem wired_adapter_witness:
  "serve (demo_parse []) demo_static [] demo_env demo_none (demo_post ''/api/v1/checkpoints/c/rollback'') demo_wired = (Failed internal_error, demo_wired)"
  using wired_adapter[OF rollback_asks _ refl, of demo_env demo_wired] by (simp add: demo_wired_def wired_port_def)




text \<open>
  C23. Formatting the skill that any document gives, and parsing the text, gives the same skill, marked as clean; a document that could not be read cleanly keeps its name, its description and its body too. Once registered, the skill is found under its name.
\<close>

theorem skill_round_trip:
  "case register_document strict lenient doc C of (s, C') \<Rightarrow>
     parse_skill_document strict lenient (Text (format_skill_document s)) = s\<lparr>sk_clean := True\<rparr> \<and>
     get_skill (sk_name s) C' = Some s"
  using parse_format_parse[of strict lenient doc]
  by (simp add: register_document_def Let_def register_skill_def get_skill_def dict_simps)

text \<open>
  C24. After any sequence of requests to the provider routes: every setting has a known type, a name of two characters or more, a model, a secret mode of its type, an environment variable if the mode needs one, and an address that is a loopback address for the local type and does not begin with http:// for the others; every secret held in memory belongs to a provider in session mode and is not empty; and no two settings have the same name.
\<close>

theorem provider_settings_sound:
  "let D = provider_session unq reqs no_providers in
     ((\<forall>i r. map_of (pd_rows D) i = Some r \<longrightarrow>
        2 \<le> length (pv_name r) \<and> pv_model r \<noteq> [] \<and> 1 \<le> pv_revision r \<and>
        (\<exists>kind. map_of provider_types (pv_type r) = Some kind \<and> pv_mode r \<in> set (py_modes kind) \<and>
          (\<forall>b. pv_base r = Some b \<longrightarrow> (if py_local_http kind then loopback_http b else \<not> str_prefix ''http://'' b))) \<and>
        (pv_mode r = ''env'' \<longrightarrow> (\<exists>v. pv_env r = Some v \<and> v \<noteq> []))) \<and>
     (\<forall>i s. map_of (pd_secrets D) i = Some s \<longrightarrow> s \<noteq> [] \<and> (\<exists>r. map_of (pd_rows D) i = Some r \<and> pv_mode r = ''session''))) \<and>
     (\<forall>i j r s. map_of (pd_rows D) i = Some r \<longrightarrow> map_of (pd_rows D) j = Some s \<longrightarrow> pv_name r = pv_name s \<longrightarrow> i = j)"
proof -
  have "providers_ok (provider_session unq reqs no_providers)"
    by (rule provider_session_ok) (simp add: no_providers_def providers_ok_def settings_ok_def names_unique_def)
  then have "settings_ok (provider_session unq reqs no_providers)" "names_unique (provider_session unq reqs no_providers)"
    by (simp_all add: providers_ok_def)
  then show ?thesis unfolding settings_ok_def row_ok_def names_unique_def Let_def by (rule conjI)
qed

theorem provider_settings_sound_witness:
  "\<exists>D r. D = provider_session id [(''t'', demo_provider_env, Collection, demo_post ''/api/v1/providers'', demo_openai)] no_providers \<and>
     map_of (pd_rows D) ''p'' = Some r \<and> pv_mode r = ''session'' \<and> pv_model r \<noteq> []"
proof -
  let ?D = "provider_session id [(''t'', demo_provider_env, Collection, demo_post ''/api/v1/providers'', demo_openai)] no_providers"
  obtain r where r: "map_of (pd_rows ?D) ''p'' = Some r" "pv_mode r = ''session''" using demo_provider_saved by blast
  then show ?thesis
    using provider_settings_sound[of id "[(''t'', demo_provider_env, Collection, demo_post ''/api/v1/providers'', demo_openai)]"]
    by (auto simp: Let_def)
qed

text \<open>
  C25. The frames of any messages whose bytes number less than 2 to the power of 64, written one after the other, are read back as exactly these messages, and every frame is as long as its message and the shortest header that can hold its length.
\<close>

theorem frames_read_back:
  assumes "\<forall>s \<in> set ss. length (utf8_bytes s) < 2 ^ 64"
  shows "read_messages (length ss) (concat (map (\<lambda>s. the (encode_text_frame s)) ss)) = Some ss \<and>
    (\<forall>s \<in> set ss. length (the (encode_text_frame s)) =
       length (utf8_bytes s) + (if length (utf8_bytes s) < 126 then 2 else if length (utf8_bytes s) < 65536 then 4 else 10))"
proof -
  have e: "encode_text_frame s = Some (the (encode_text_frame s))" if "s \<in> set ss" for s
    using assms that encode_defined[of s] by auto
  then have "list_all2 (\<lambda>s f. encode_text_frame s = Some f) ss (map (\<lambda>s. the (encode_text_frame s)) ss)"
    by (auto simp: list_all2_conv_all_nth)
  then show ?thesis using messages_read e encode_length by blast
qed

theorem frames_read_back_witness:
  "read_messages 2 (concat (map (\<lambda>s. the (encode_text_frame s)) [''hi'', [CHR 0xE9]])) = Some [''hi'', [CHR 0xE9]]"
proof -
  have "\<forall>s \<in> set [''hi'', [CHR 0xE9]]. length (utf8_bytes s) < 2 ^ 64" by (simp add: utf8_bytes_def utf8_char_def)
  from frames_read_back[OF this, THEN conjunct1] show ?thesis by (simp add: numeral_2_eq_2)
qed

text \<open>
  C26. In every interleaving of broadcasts, writers, readers and new clients: what was written to a connection is a beginning of what was queued for it, in that order; while the connection is open nothing queued is lost; its queue never holds more than its bound. A broadcast always goes on to its next client, whether the one it tries takes the message or not.
\<close>

theorem pushed_in_order:
  assumes "hub_run empty_hub ls H"
  shows "(\<forall>i c. map_of (hb_conns H) i = Some c \<longrightarrow>
      (\<exists>later. queued_for i ls = written_to i ls @ later) \<and>
      (\<not> wc_closed c \<longrightarrow> queued_for i ls = written_to i ls @ unsent c) \<and>
      (0 < wc_max c \<longrightarrow> length (wc_queue c) \<le> wc_max c)) \<and>
    (\<forall>t b i rest. map_of (hb_threads H) t = Some b \<longrightarrow> bc_todo b = i # rest \<longrightarrow>
      (\<exists>l H' b'. hub_step H l H' \<and> map_of (hb_threads H') t = Some b' \<and> bc_todo b' = rest \<and> bc_message b' = bc_message b))"
proof (intro conjI)
  show "\<forall>i c. map_of (hb_conns H) i = Some c \<longrightarrow>
      (\<exists>later. queued_for i ls = written_to i ls @ later) \<and>
      (\<not> wc_closed c \<longrightarrow> queued_for i ls = written_to i ls @ unsent c) \<and>
      (0 < wc_max c \<longrightarrow> length (wc_queue c) \<le> wc_max c)"
  proof (intro allI impI)
    fix i c assume c: "map_of (hb_conns H) i = Some c"
    then have "conn_ok c" "delivered i ls c" using hub_run_ok[OF assms refl] by (auto simp: client_ok_def dest!: spec[of _ i])
    then obtain lost where "written_to i ls @ lost @ unsent c = queued_for i ls" "lost \<noteq> [] \<longrightarrow> wc_closed c"
      "0 < wc_max c \<longrightarrow> length (wc_queue c) \<le> wc_max c"
      by (auto simp: delivered_def conn_ok_def)
    then show "(\<exists>later. queued_for i ls = written_to i ls @ later) \<and>
      (\<not> wc_closed c \<longrightarrow> queued_for i ls = written_to i ls @ unsent c) \<and>
      (0 < wc_max c \<longrightarrow> length (wc_queue c) \<le> wc_max c)" by (metis append_Nil)
  qed
  show "\<forall>t b i rest. map_of (hb_threads H) t = Some b \<longrightarrow> bc_todo b = i # rest \<longrightarrow>
      (\<exists>l H' b'. hub_step H l H' \<and> map_of (hb_threads H') t = Some b' \<and> bc_todo b' = rest \<and> bc_message b' = bc_message b)"
    using offer_goes_on[OF hub_run_known[OF assms refl]] offers by metis
qed

theorem pushed_in_order_witness:
  "\<exists>ls H c. hub_run empty_hub ls H \<and> map_of (hb_conns H) 0 = Some c \<and> written_to 0 ls = [''m''] \<and> queued_for 0 ls = written_to 0 ls @ unsent c"
proof -
  obtain ls H c where r: "hub_run empty_hub ls H" "map_of (hb_conns H) 0 = Some c" "written_to 0 ls = [''m'']" "\<not> wc_closed c"
    using demo_push by blast
  then show ?thesis using pushed_in_order[OF r(1)] by blast
qed

text \<open>
  C27. In every run of the kernel session: there is a session id exactly while the status is registered, granted scopes only then, and then a heartbeat is known. Until a shutdown is requested, the pause before the next attempt is the configured one, doubled once for each pause made so far and cut at 15 seconds, whatever registrations succeeded in between; so it never shrinks.
\<close>

theorem kernel_session_sound:
  assumes "session_run cfg (boot_session cfg status) es S" "status \<noteq> ''registered''"
  shows "(ks_session S \<noteq> None \<longleftrightarrow> ks_status S = ''registered'') \<and> (ks_scopes S \<noteq> [] \<longrightarrow> ks_status S = ''registered'') \<and>
    (ks_status S = ''registered'' \<longrightarrow> ks_heartbeat S \<noteq> None) \<and>
    (\<not> ks_shutdown S \<longrightarrow> ks_backoff S = nth_backoff (sc_backoff cfg) (pauses es)) \<and>
    (0 \<le> sc_backoff cfg \<and> sc_backoff cfg \<le> 15 \<longrightarrow>
       nth_backoff (sc_backoff cfg) n \<le> nth_backoff (sc_backoff cfg) (Suc n) \<and> nth_backoff (sc_backoff cfg) n \<le> 15)"
  using session_run_ok[OF assms(1) refl assms(2)] backoff_run[OF assms(1) refl] session_stopped[OF assms(1) refl assms(2)]
    nth_backoff_grows nth_backoff_bounds
  by (auto simp: session_ok_def backoff_inv_def)

theorem kernel_session_sound_witness:
  "\<exists>S. session_run demo_session_config (boot_session demo_session_config ''starting'') demo_session_events S \<and>
     ks_status S \<noteq> ''registered'' \<and> ks_session S = None \<and> ks_backoff S = 4"
proof -
  obtain S where S: "session_run demo_session_config (boot_session demo_session_config ''starting'') demo_session_events S"
    "\<not> ks_shutdown S" "ks_status S \<noteq> ''registered''" using demo_session by blast
  have "nth_backoff (sc_backoff demo_session_config) (pauses demo_session_events) = 4" by code_simp
  then show ?thesis using kernel_session_sound[OF S(1)] S by auto
qed

section \<open>Vectors, workloads, the window and the settings\<close>

section \<open>Schedules\<close>

text \<open>
  C28. A tick of the scheduler that reports no error has started, for each active task whose schedule matches the minute and for no other, exactly one run of the task's definition, pending and under an id never used before; every run that existed is untouched.
\<close>

theorem tick_starts_due_tasks:
  assumes "reachable cfg u S" "uuid_ok u" "T = tick (start_task_run cfg u) now t ts S" "tk_error T = None"
  shows "distinct (tk_started T) \<and> (\<forall>q \<in> set (tk_started T). load_run (ex_db S) q = None) \<and>
    (\<forall>q. q \<notin> set (tk_started T) \<longrightarrow> load_run (ex_db (tk_exec T)) q = load_run (ex_db S) q) \<and>
    list_all2 (\<lambda>rid r. \<exists>v. load_run (ex_db (tk_exec T)) rid = Some v \<and>
        rr_definition v = t_definition r \<and> rr_state v = RPending)
      (tk_started T) (filter (due t) (active_rows ts))"
proof -
  have "exec_ok cfg u S \<and> uuid_ok u" using reachable_ok[OF assms(1,2)] assms(2) by blast
  from starter.tick_runs[OF this assms(4)[unfolded assms(3)], folded assms(3)] show ?thesis
    unfolding started_as_def by blast
qed

theorem tick_starts_due_tasks_witness:
  "length (tk_started demo_tick) = 1 \<and> list_all (\<lambda>q. load_run (ex_db demo_saved) q = None) (tk_started demo_tick)"
  using tick_starts_due_tasks[OF reach_saved demo_uuid_ok demo_tick_def demo_tick_error]
  by (auto simp: demo_due list_all_iff dest: list_all2_lengthD)

section \<open>Events, agents and tools\<close>



text \<open>
  C30. Recording an entry keeps the store within its bound. In the evicting mode an entry that fits on its own is always stored, and what is given up for it are the oldest entries only, and not one more than needed.
\<close>

theorem memory_bound_and_eviction:
  assumes "store_ok cfg rows" "record_entry cfg content category i now rows = (res, rows')"
  shows "total_size rows' \<le> mc_limit cfg \<and>
    (mc_overflow cfg = Evict_oldest \<and> content_size content \<le> mc_limit cfg \<and> i \<notin> set (map me_id rows) \<longrightarrow>
      (\<exists>k r. res = Inr r \<and> me_content r = content \<and>
        rows' = filter (\<lambda>x. x \<in> set (drop k (oldest_first rows))) rows @ [r] \<and>
        (\<forall>j < k. mc_limit cfg < total_size (drop j (oldest_first rows)) + content_size content)))"
proof
  show "total_size rows' \<le> mc_limit cfg" using record_ok[OF assms] by (simp add: store_ok_def)
  show "mc_overflow cfg = Evict_oldest \<and> content_size content \<le> mc_limit cfg \<and> i \<notin> set (map me_id rows) \<longrightarrow>
      (\<exists>k r. res = Inr r \<and> me_content r = content \<and>
        rows' = filter (\<lambda>x. x \<in> set (drop k (oldest_first rows))) rows @ [r] \<and>
        (\<forall>j < k. mc_limit cfg < total_size (drop j (oldest_first rows)) + content_size content))"
    using record_evicts[OF assms(1), of content i category now] assms(2) by auto
qed

theorem memory_bound_and_eviction_witness:
  "\<exists>r. record_entry \<lparr>mc_limit = 3, mc_overflow = Evict_oldest\<rparr> ''ab'' ''c'' ''n'' ''2''
      [\<lparr>me_id = ''o'', me_category = ''c'', me_content = ''xy'', me_size = 2, me_created = ''1'', me_updated = ''1''\<rparr>] = (Inr r, [r]) \<and>
    total_size [r] \<le> 3"
proof -
  let ?cfg = "\<lparr>mc_limit = 3, mc_overflow = Evict_oldest\<rparr>"
  let ?rows = "[\<lparr>me_id = ''o'', me_category = ''c'', me_content = ''xy'', me_size = 2, me_created = ''1'', me_updated = ''1''\<rparr>]"
  have ok: "store_ok ?cfg ?rows" by code_simp
  have eq: "record_entry ?cfg ''ab'' ''c'' ''n'' ''2'' ?rows =
      (Inr \<lparr>me_id = ''n'', me_category = ''c'', me_content = ''ab'', me_size = 2, me_created = ''2'', me_updated = ''2''\<rparr>,
       [\<lparr>me_id = ''n'', me_category = ''c'', me_content = ''ab'', me_size = 2, me_created = ''2'', me_updated = ''2''\<rparr>])"
    by code_simp
  show ?thesis using memory_bound_and_eviction[OF ok eq] eq by simp
qed

text \<open>
  C31. A call of a tool that is unknown, unavailable or outside the enabled toolsets reaches neither a handler nor the sandbox and is answered as denied. A mutating tool is never run by a handler in the process: whatever handlers are registered, the outcome is the same, and without a sandbox it is refused with nothing touched.
\<close>

theorem tool_gate:
  assumes "invoke R name args sc run now w lg = (res, w', lg')"
  shows "(\<not> is_enabled R name sc \<longrightarrow> w' = w \<and> (\<exists>out. res = Inr out \<and> tr_denied out \<and> \<not> tr_ok out)) \<and>
    (\<forall>t. get_tool R name = Some t \<and> ts_mutating t \<longrightarrow>
       (\<forall>hs. invoke (R\<lparr>tg_handlers := hs\<rparr>) name args sc run now w lg = (res, w', lg')) \<and>
       (tg_sandbox R = None \<and> is_enabled R name sc \<longrightarrow> w' = w \<and> (\<exists>msg. res = Inl (Routing_blocked msg))))"
proof (intro conjI impI allI)
  assume no: "\<not> is_enabled R name sc"
  obtain reason where "invoke R name args sc run now w lg =
      (Inr (tool_outcome name False None (Some reason) True False), w, snd (deny R name run reason now lg))"
    using invoke_disabled[OF no] by blast
  then show "w' = w" "\<exists>out. res = Inr out \<and> tr_denied out \<and> \<not> tr_ok out"
    using assms by (auto simp: tool_outcome_def)
next
  fix t hs assume t: "get_tool R name = Some t \<and> ts_mutating t"
  have same: "get_tool (R\<lparr>tg_handlers := hs\<rparr>) = get_tool R" "deny (R\<lparr>tg_handlers := hs\<rparr>) = deny R"
    "invoke_sandboxed (R\<lparr>tg_handlers := hs\<rparr>) = invoke_sandboxed R"
    by (simp_all add: get_tool_def deny_def invoke_sandboxed_def fun_eq_iff split: option.split)
  have "invoke (R\<lparr>tg_handlers := hs\<rparr>) name args sc run now w lg = invoke R name args sc run now w lg"
    using t by (simp add: invoke_def same)
  then show "invoke (R\<lparr>tg_handlers := hs\<rparr>) name args sc run now w lg = (res, w', lg')" using assms by simp
next
  fix t assume t: "get_tool R name = Some t \<and> ts_mutating t" and box: "tg_sandbox R = None \<and> is_enabled R name sc"
  show "w' = w" "\<exists>msg. res = Inl (Routing_blocked msg)"
    using invoke_enabled[of R name sc args run now w lg] assms t box by (auto simp: invoke_sandboxed_def)
qed

theorem tool_gate_witness:
  "\<exists>out. invoke (new_registry False None) ''rm'' [] \<lparr>agent_enabled = [], run_enabled = []\<rparr> None [] (5 :: nat) empty_store =
     (Inr out, 5, empty_store) \<and> tr_denied out"
proof -
  obtain res lg' where i: "invoke (new_registry False None) ''rm'' [] \<lparr>agent_enabled = [], run_enabled = []\<rparr> None [] (5 :: nat) empty_store =
      (res, 5, lg')" "lg' = empty_store"
    by (simp add: invoke_def new_registry_def get_tool_def deny_def)
  have "\<not> is_enabled (new_registry False None :: nat registry) ''rm'' \<lparr>agent_enabled = [], run_enabled = []\<rparr>"
    by (simp add: is_enabled_def new_registry_def get_tool_def)
  then show ?thesis using tool_gate[OF i(1)] i by auto
qed

text \<open>
  C32. An event is allowed exactly when every guardrail registered for it gave a verdict and permitted, each seeing the world the blocking hooks before it left; a guardrail that fails counts as a refusal. At the first refusal the loop ends: it is named, and no hook behind it is run or dispatched.
\<close>

theorem guardrails_fail_closed:
  assumes "table_ok T" "trigger fl router now e run stp data T w st pending = Inr F"
    and "c = \<lparr>hc_event = e, hc_run = run, hc_step = stp, hc_data = data\<rparr>"
  shows "(hr_allowed (tr_result F) \<longleftrightarrow>
      (\<forall>pre h post. dict_get_or T e [] = pre @ h # post \<longrightarrow> hk_guardrail h \<longrightarrow>
        (\<exists>r. fst (hk_action h c (after_hooks c pre w)) = Inr r \<and> fst (coerce_decision fl r)))) \<and>
    (\<not> hr_allowed (tr_result F) \<longrightarrow> (\<exists>pre h post. dict_get_or T e [] = pre @ h # post \<and> hk_guardrail h \<and>
      hr_denied_by (tr_result F) = Some (hk_name h) \<and>
      hr_ran (tr_result F) = map hk_name (filter hk_blocking pre) @ [hk_name h] \<and>
      tr_pending F = pending @ map (\<lambda>h. (h, c)) (filter (\<lambda>h. \<not> hk_blocking h) pre)))"
proof -
  have p: "permits fl c h v \<longleftrightarrow> (\<exists>r. fst (hk_action h c v) = Inr r \<and> fst (coerce_decision fl r))" for h v
    by (auto simp: permits_def split: sum.split)
  show ?thesis
  proof (cases "all_permit fl c (dict_get_or T e []) w")
    case True
    then show ?thesis using trigger_permitted(1)[OF assms True] unfolding all_permit_def p by blast
  next
    case False
    note r = trigger_refused[OF assms False]
    then have "\<not> hr_allowed (tr_result F)" by blast
    then show ?thesis using r False unfolding all_permit_def p names_def by blast
  qed
qed

theorem guardrails_fail_closed_witness:
  "hr_denied_by (tr_result (trigger_loop (\<lambda>_. []) False [] \<lparr>hc_event = ''tool.invoked'', hc_run = [], hc_step = None, hc_data = []\<rparr>
     [broken_guard] \<lparr>tr_result = empty_result, tr_world = (), tr_log = empty_store, tr_pending = []\<rparr>)) = Some ''g''"
proof -
  let ?c = "\<lparr>hc_event = ''tool.invoked'', hc_run = [], hc_step = None, hc_data = []\<rparr>"
  let ?F = "trigger_loop (\<lambda>_. []) False [] ?c [broken_guard] \<lparr>tr_result = empty_result, tr_world = (), tr_log = empty_store, tr_pending = []\<rparr>"
  have t: "trigger (\<lambda>_. []) False [] ''tool.invoked'' [] None [] guard_table () empty_store [] = Inr ?F"
    by (simp add: trigger_def hooks_for_def normalize_event_def lifecycle_events_def guard_table_def dict_get_or_def)
  have ok: "table_ok guard_table"
    by (simp add: table_ok_def hook_ok_def guard_table_def dict_get_or_def broken_guard_def lifecycle_events_def)
  have no: "\<not> hr_allowed (tr_result ?F)" by (simp add: broken_guard_def deny_hook_def Let_def)
  have "dict_get_or guard_table ''tool.invoked'' [] = [broken_guard]" by (simp add: guard_table_def dict_get_or_def)
  then show ?thesis using guardrails_fail_closed[OF ok t refl] no
    by (auto simp: broken_guard_def Cons_eq_append_conv)
qed

section \<open>Model calls\<close>





text \<open>
  C35. However many threads ask for slots, any admission comes at least a window after the one that many places before it, so no window holds more than the allowed number. A caller nobody gets ahead of waits at most once, given a clock that does not go back and a sleep that lasts as long as asked.
\<close>

theorem rate_window:
  assumes "admissions l t H b" "0 < rl_max l" "honest tm time" "rs_run_id sc \<noteq> []"
    and "dict_get_or (rt_buckets st) p [] = b"
  shows "sorted H \<and> (\<forall>i. i + nat (rl_max l) < length H \<longrightarrow> rl_window l \<le> H ! (i + nat (rl_max l)) - H ! i) \<and>
    (\<exists>d st'. acquire_slot 2 tm l sc p st = Some (Inr d, st') \<and> 0 \<le> d)"
proof -
  note w = admissions_window[OF assms(1,2)]
  have g: "\<forall>i. i + nat (rl_max l) < length H \<longrightarrow> H ! i + rl_window l \<le> H ! (i + nat (rl_max l))" and s: "sorted H"
    using w by (simp_all add: window_ok_def)
  have "sorted (dict_get_or (rt_buckets st) p [])" "int (length (dict_get_or (rt_buckets st) p [])) \<le> rl_max l"
    using w assms(5) by (auto simp: window_ok_def sorted_append)
  then have "\<exists>d st'. acquire_slot 2 tm l sc p st = Some (Inr d, st') \<and> 0 \<le> d"
    using acquire_two_passes[OF assms(3,2,4), of st p 0 0] by (auto simp: acquire_slot_def numeral_2_eq_2)
  then show ?thesis using g s by (auto simp: algebra_simps)
qed

theorem rate_window_witness:
  "\<exists>d st'. acquire_slot 2 demo_timer demo_limiter demo_scope ''a'' \<lparr>bs_db = demo_wf, bs_cells = [], bs_world = 3, rt_buckets = [(''a'', [1])]\<rparr> =
     Some (Inr d, st') \<and> 0 \<le> d"
proof -
  have "admit demo_limiter 1 [] = ([1], None)" by (simp add: admit_def demo_limiter_def)
  from admissions.admitted[OF admissions.none _ this, of 0] have a: "admissions demo_limiter 1 [1] [1]" by simp
  show ?thesis using rate_window[OF a _ demo_timer_honest, of demo_scope "\<lparr>bs_db = demo_wf, bs_cells = [], bs_world = 3, rt_buckets = [(''a'', [1])]\<rparr>" "''a''"]
    by (simp add: demo_limiter_def demo_scope_def dict_get_or_def)
qed

section \<open>Subagents\<close>

text \<open>
  C36. Whatever the order in which threads spawn subagents and move, the counter of active subagents is the number of those at work and neither it nor its peak passes the bound, a subagent at work sees its own context and may use exactly the toolsets it was granted, and the ledger of a run is the sum of the charges of its threads that got that far.
\<close>

theorem delegation_bound:
  assumes "sub_reach (M, ts)"
  shows "sm_active M = tally (\<lambda>(sp, ph). of_bool (counted ph)) ts \<and> sm_active M \<le> sm_peak M \<and>
    sm_peak M \<le> int (sm_limit M) \<and> 1 \<le> sm_limit M \<and>
    (\<forall>sp c. (sp, Working c) \<in> set ts \<longrightarrow> sc_run c = sp_run sp \<and> sc_context c = sp_context sp \<and>
      (\<forall>t. allows c t \<longleftrightarrow> t \<in> set (sp_toolset sp))) \<and>
    (\<forall>r. usage_for M r = tally (\<lambda>(sp, ph). if sp_run sp = r then paid ph else 0) ts)"
proof -
  have f: "(\<lambda>(sp, ph). of_bool (counted ph)) = counting" "(\<lambda>(sp, ph). if sp_run sp = r then paid ph else 0) = paying r" for r
    by (simp_all add: fun_eq_iff counting_def paying_def)
  have w: "sc_run c = sp_run sp \<and> sc_context c = sp_context sp \<and> (\<forall>t. allows c t \<longleftrightarrow> t \<in> set (sp_toolset sp))"
    if "(sp, Working c) \<in> set ts" for sp c
  proof -
    have "c = isolate sp" using sub_reach_ok[OF assms] that by (force simp: sub_ok_def list_all_iff thread_ok_def)
    then show ?thesis by (simp add: isolate_def allows_def)
  qed
  show ?thesis using sub_reach_ok[OF assms] w unfolding f sub_ok_def by simp
qed

theorem delegation_bound_witness:
  "\<exists>M ts. run_schedule (moves 2 0 @ moves 2 1) (new_manager 2 None no_float, spawn_threads demo_specs) = Some (M, ts) \<and>
    sm_active M = 2 \<and> 2 \<le> sm_peak M \<and> sm_peak M \<le> int (sm_limit M)"
proof -
  obtain M ts where r: "run_schedule (moves 2 0 @ moves 2 1) (new_manager 2 None no_float, spawn_threads demo_specs) = Some (M, ts)"
    and a: "sm_active M = 2" by (use demo_two_work in \<open>elim exE conjE\<close>)
  show ?thesis using delegation_bound[OF schedule_reach[OF r]] r a by auto
qed

section \<open>Agent input\<close>



section \<open>Agents\<close>



text \<open>
  C39. An invocation that was accepted is queued with its first event. If its temperature and token limit are numbers its thread ends in order, whatever the model and the gateway raise: the row is closed as succeeded with the output, or as failed with the class and text of the exception, the events of the invocation are numbered without a gap and the last one says which, and no other invocation changes. If one is no number the conversion raises outside the handler: the thread dies and the invocation stays queued for ever.
\<close>

theorem invocation_closed:
  assumes "invoke_agent fl ck prov fresh a payload db = Inr (iv, j, db1)" "event_numbers fresh db = {}"
    and "\<forall>g. gw = Some g \<longrightarrow> through_call g"
    and "execute_invocation gw tp lm trace j (db1, w) = (died, db', w')"
  shows "get_invocation db1 fresh = Some iv \<and> others_kept fresh db db' \<and>
    (\<exists>v v'. map_of (ad_invocations db1) fresh = Some v \<and> iv_status v = ''queued'' \<and> map_of (ad_invocations db') fresh = Some v' \<and>
      (case settings_of tp j of
         Inl e \<Rightarrow> died = Some e \<and> v' = v
       | Inr cs \<Rightarrow> died = None \<and> (\<exists>r. closed_as (ad_now db) (running_row tp j cs (ad_now db) v) r v' \<and>
           ends_with fresh (case r of Inl _ \<Rightarrow> ''failed'' | Inr _ \<Rightarrow> ''completed'') db')))"
proof -
  obtain v where q: "ij_id j = fresh" "numbered fresh 1 db1" "others_kept fresh db db1" "get_invocation db1 fresh = Some iv"
    "map_of (ad_invocations db1) fresh = Some v" "iv_status v = ''queued''"
    using invoke_agent_job[OF assms(1,2)] by blast
  have now: "ad_now db1 = ad_now db" using q(3) by (simp add: others_kept_def)
  show ?thesis
  proof (cases "settings_of tp j")
    case (Inl e)
    note d = execute_dies[OF Inl assms(4)]
    have "others_kept fresh db db'" using others_kept_trans[OF q(3)] execute_dies_kept[OF Inl assms(4)] by blast
    then show ?thesis using d q Inl by simp
  next
    case (Inr cs)
    have "died = None \<and> others_kept fresh db1 db' \<and> (\<exists>r v'. map_of (ad_invocations db') fresh = Some v' \<and>
        closed_as (ad_now db) (running_row tp j cs (ad_now db) v) r v' \<and>
        ends_with fresh (case r of Inl _ \<Rightarrow> ''failed'' | Inr _ \<Rightarrow> ''completed'') db')"
      using execute_closes[OF assms(3) _ _ Inr assms(4), of 1 v] q now by simp
    then show ?thesis using q Inr others_kept_trans[OF q(3)] by auto
  qed
qed

theorem invocation_closed_witness:
  "\<exists>iv j db1 db' w' v'. invoke_agent float_text demo_clock demo_providers ''i1'' ''a1'' (inv_request []) demo_agents = Inr (iv, j, db1) \<and>
    execute_invocation None demo_text demo_lm ''t'' j (db1, ()) = (None, db', w') \<and>
    map_of (ad_invocations db') ''i1'' = Some v' \<and> iv_status v' \<in> {''succeeded'', ''failed''}"
proof -
  obtain iv j db1 where i: "invoke_agent float_text demo_clock demo_providers ''i1'' ''a1'' (inv_request []) demo_agents = Inr (iv, j, db1)"
    and j: "ij_agent j = demo_agent" "ij_overrides j = []" using demo_queued[of "[]"] by blast
  obtain cs where cs: "settings_of demo_text j = Inr cs" using demo_settings(1)[OF j] by blast
  obtain died db' w' where e: "execute_invocation None demo_text demo_lm ''t'' j (db1, ()) = (died, db', w')" by (metis prod_cases3)
  from invocation_closed[OF i demo_no_events _ e] cs obtain r v v' where
    "died = None" "map_of (ad_invocations db') ''i1'' = Some v'"
    "closed_as (ad_now demo_agents) (running_row demo_text j cs (ad_now demo_agents) v) r v'" by auto
  moreover have "iv_status v' \<in> {''succeeded'', ''failed''}" if "closed_as n x r v'" for n x
    using that by (auto simp: closed_as_def split: sum.splits)
  ultimately show ?thesis using i e by blast
qed

section \<open>Requests\<close>

text \<open>
  C40. Every request is answered. A handler writes the answer only when the path is under the API prefix and it is the handler of the first registered route that matches; a file is served only for a GET outside the prefix, and it is the index or lies under the resolved directory; everything else is an error reply with status 400, 404, 405, 409 or 500 whose message is a single non-empty line without any marker of internal detail, and for 500 the generic text. All routes of the table can be reached: none is hidden by an earlier one.
\<close>

theorem requests_answered:
  assumes "dispatch parse fs site R run rq s = (rep, s')"
  shows "(case rep of
      Written r \<Rightarrow> api_path rq \<and> (\<exists>h body. first_route R (rq_method rq) (split_segments (rq_path rq)) = Some h \<and> run h rq body s = (Inr r, s'))
    | Asset a \<Rightarrow> \<not> api_path rq \<and> rq_method rq = ''GET'' \<and> s' = s \<and> (case a of
          File p \<Rightarrow> p = site @ [''src'', ''dist'', ''index.html''] \<or> (\<exists>q. p = fs_resolve fs (site @ [''src'', ''dist'']) @ q)
        | Fallback_page \<Rightarrow> rq_path rq = ''/'')
    | Failed e \<Rightarrow> reply_ok e) \<and>
    list_all (\<lambda>(m, p, h). first_route route_table (if m = ''*'' then ''GET'' else m) (sample_path p) = Some h) all_routes"
proof (rule conjI[OF _ routes_reachable])
  have err: "reply_ok (error_reply_of 405 ph msg None)" for ph msg by (rule error_reply_ok) simp
  show "case rep of
      Written r \<Rightarrow> api_path rq \<and> (\<exists>h body. first_route R (rq_method rq) (split_segments (rq_path rq)) = Some h \<and> run h rq body s = (Inr r, s'))
    | Asset a \<Rightarrow> \<not> api_path rq \<and> rq_method rq = ''GET'' \<and> s' = s \<and> (case a of
          File p \<Rightarrow> p = site @ [''src'', ''dist'', ''index.html''] \<or> (\<exists>q. p = fs_resolve fs (site @ [''src'', ''dist'']) @ q)
        | Fallback_page \<Rightarrow> rq_path rq = ''/'')
    | Failed e \<Rightarrow> reply_ok e"
  proof (cases "api_path rq")
    case True
    obtain b where b: "b = (if rq_method rq \<in> {''POST'', ''PUT'', ''PATCH'', ''DELETE''} then read_json_body parse rq else Inr [])" by blast
    show ?thesis
      using assms True handle_exception_ok unfolding dispatch_def b[symmetric]
      by (cases b) (auto simp: find_route_def simp del: handle_exception.simps split: sum.splits prod.splits option.splits)
  next
    case False
    show ?thesis
    proof (cases "rq_method rq = ''GET''")
      case True
      then show ?thesis using assms False handle_exception_ok
        by (auto simp: dispatch_def simp del: handle_exception.simps dest: served_inside fallback_root split: sum.splits asset.splits)
    next
      case other: False
      then show ?thesis using assms False err by (auto simp: dispatch_def)
    qed
  qed
qed

theorem requests_answered_witness:
  "\<exists>e. dispatch (\<lambda>_. Bad_json) demo_static [''repo''] route_table demo_serve demo_get_request () = (Failed e, ()) \<and>
    er_status e = 404 \<and> reply_ok e"
proof -
  obtain e where d: "dispatch (\<lambda>_. Bad_json) demo_static [''repo''] route_table demo_serve demo_get_request () = (Failed e, ())"
    and st: "er_status e = 404" using demo_not_found by blast
  show ?thesis using requests_answered[OF d] d st by auto
qed

end
